(* ===== verification/Prelude.thy ===== *)
theory Prelude
  imports Main "HOL-Library.Multiset"
begin

text \<open>
  Shared vocabulary of the development: machine sizes at their 64-bit width with Rust's
  checked, saturating and wrapping arithmetic, the result type of fallible code with the
  combinators that stand for the question-mark operator, text helpers on UTF-8 byte strings,
  and the collections of facts the component theories hand to the simplifier.
\<close>

named_theorems arith_defs "definitions of the machine arithmetic"
named_theorems res_simps "rules for the result combinators"

section \<open>Machine sizes\<close>

text \<open>
  \<open>usize\<close> and \<open>u64\<close> values are natural numbers that the code keeps at most
  \<open>usize_max\<close>; every operation that could leave this range is written out as the source
  writes it: checked (None), saturating or wrapping.
\<close>

type_synonym usize = nat
type_synonym u64 = nat

definition usize_max :: nat where
  "usize_max = 2 ^ 64 - 1"

definition checked_add :: "nat \<Rightarrow> nat \<Rightarrow> nat option" where
  "checked_add a b = (if a + b \<le> usize_max then Some (a + b) else None)"

definition checked_mul :: "nat \<Rightarrow> nat \<Rightarrow> nat option" where
  "checked_mul a b = (if a * b \<le> usize_max then Some (a * b) else None)"

definition saturating_add :: "nat \<Rightarrow> nat \<Rightarrow> nat" where
  "saturating_add a b = min (a + b) usize_max"

definition saturating_mul :: "nat \<Rightarrow> nat \<Rightarrow> nat" where
  "saturating_mul a b = min (a * b) usize_max"

text \<open>Plain \<open>+=\<close> and \<open>-=\<close> of a release build wrap around; the invariants show where they cannot.\<close>

definition wrapping_add :: "nat \<Rightarrow> nat \<Rightarrow> nat" where
  "wrapping_add a b = (a + b) mod 2 ^ 64"

definition wrapping_sub :: "nat \<Rightarrow> nat \<Rightarrow> nat" where
  "wrapping_sub a b = (if b \<le> a then a - b else (a + 2 ^ 64 - b mod 2 ^ 64) mod 2 ^ 64)"

lemma checked_add_Some [simp]: "checked_add a b = Some c \<longleftrightarrow> c = a + b \<and> a + b \<le> usize_max"
  by (auto simp: checked_add_def)

lemma checked_add_None [simp]: "checked_add a b = None \<longleftrightarrow> usize_max < a + b"
  by (auto simp: checked_add_def)

lemma checked_add_within: "a + b \<le> usize_max \<Longrightarrow> checked_add a b = Some (a + b)"
  by (simp add: checked_add_def)

lemma checked_mul_Some [simp]: "checked_mul a b = Some c \<longleftrightarrow> c = a * b \<and> a * b \<le> usize_max"
  by (auto simp: checked_mul_def)

lemma checked_mul_None [simp]: "checked_mul a b = None \<longleftrightarrow> usize_max < a * b"
  by (auto simp: checked_mul_def)

lemma usize_max_less: "n \<le> usize_max \<Longrightarrow> n < 2 ^ 64"
  by (simp add: usize_max_def)

lemma wrapping_add_within: "a + b \<le> usize_max \<Longrightarrow> wrapping_add a b = a + b"
  by (simp add: wrapping_add_def usize_max_def)

lemma wrapping_sub_within: "b \<le> a \<Longrightarrow> wrapping_sub a b = a - b"
  by (simp add: wrapping_sub_def)

lemma wrapping_add_bound: "wrapping_add a b \<le> usize_max"
proof -
  have "(a + b) mod 2 ^ 64 < (2 :: nat) ^ 64" by simp
  then show ?thesis unfolding wrapping_add_def usize_max_def by linarith
qed

lemma saturating_add_within: "a + b \<le> usize_max \<Longrightarrow> saturating_add a b = a + b"
  by (simp add: saturating_add_def)

lemma saturating_mul_within: "a * b \<le> usize_max \<Longrightarrow> saturating_mul a b = a * b"
  by (simp add: saturating_mul_def)

section \<open>Results\<close>

text \<open>
  \<open>Result<T, E>\<close> is the sum \<open>'e + 'a\<close> with \<open>Inl\<close> for \<open>Err\<close>. \<open>and_then\<close> is the
  question-mark operator between two steps, \<open>ensure\<close> an early return guarded by a
  condition, \<open>ok_or\<close> the method of the same name.
\<close>

fun and_then :: "'e + 'a \<Rightarrow> ('a \<Rightarrow> 'e + 'b) \<Rightarrow> 'e + 'b" where
  "and_then (Inl e) f = Inl e"
| "and_then (Inr x) f = f x"

definition ensure :: "bool \<Rightarrow> 'e \<Rightarrow> 'e + unit" where
  "ensure b e = (if b then Inr () else Inl e)"

fun ok_or :: "'e \<Rightarrow> 'a option \<Rightarrow> 'e + 'a" where
  "ok_or e None = Inl e"
| "ok_or e (Some x) = Inr x"

fun is_ok :: "'e + 'a \<Rightarrow> bool" where
  "is_ok (Inl _) = False"
| "is_ok (Inr _) = True"

lemma and_then_Inr [res_simps]: "and_then m f = Inr y \<longleftrightarrow> (\<exists>x. m = Inr x \<and> f x = Inr y)"
  by (cases m) auto

lemma and_then_Inl [res_simps]:
  "and_then m f = Inl e \<longleftrightarrow> m = Inl e \<or> (\<exists>x. m = Inr x \<and> f x = Inl e)"
  by (cases m) auto

lemma ensure_Inr [res_simps]: "ensure b e = Inr u \<longleftrightarrow> b"
  by (simp add: ensure_def)

lemma ensure_Inl [res_simps]: "ensure b e = Inl e' \<longleftrightarrow> \<not> b \<and> e' = e"
  by (auto simp: ensure_def)

lemma ok_or_Inr [res_simps]: "ok_or e m = Inr x \<longleftrightarrow> m = Some x"
  by (cases m) auto

lemma ok_or_Inl [res_simps]: "ok_or e m = Inl e' \<longleftrightarrow> m = None \<and> e' = e"
  by (cases m) auto

lemma is_ok_iff: "is_ok r \<longleftrightarrow> (\<exists>x. r = Inr x)"
  by (cases r) auto

lemma not_ok_iff: "\<not> is_ok r \<longleftrightarrow> (\<exists>e. r = Inl e)"
  by (cases r) auto

section \<open>Bytes and text\<close>

text \<open>
  A \<open>u8\<close> is a \<open>char\<close> (HOL's type of the 256 byte values), a byte slice a list of them, and a
  Rust string its UTF-8 byte list, so literals can be written as such. \<open>blank s\<close> is
  \<open>s.trim().is_empty()\<close>: every scalar of \<open>s\<close> has the Unicode White\_Space property, spelled out
  by the UTF-8 encodings of these scalars.
\<close>

type_synonym u8 = char
type_synonym bytes = "char list"

definition CR :: u8 where "CR = CHR 0x0D"
definition LF :: u8 where "LF = CHR 0x0A"

fun blank :: "string \<Rightarrow> bool" where
  "blank [] = True"
| "blank (a # s) =
    (if a \<in> {CHR 0x09, CHR 0x0A, CHR 0x0B, CHR 0x0C, CHR 0x0D, CHR 0x20} then blank s
     else case s of
       [] \<Rightarrow> False
     | b # s' \<Rightarrow>
        if a = CHR 0xC2 \<and> b \<in> {CHR 0x85, CHR 0xA0} then blank s'
        else case s' of
          [] \<Rightarrow> False
        | c # s'' \<Rightarrow>
           if a = CHR 0xE1 \<and> b = CHR 0x9A \<and> c = CHR 0x80
             \<or> a = CHR 0xE2 \<and> b = CHR 0x80 \<and>
                (128 \<le> (of_char c :: nat) \<and> (of_char c :: nat) \<le> 138
                 \<or> c \<in> {CHR 0xA8, CHR 0xA9, CHR 0xAF})
             \<or> a = CHR 0xE2 \<and> b = CHR 0x81 \<and> c = CHR 0x9F
             \<or> a = CHR 0xE3 \<and> b = CHR 0x80 \<and> c = CHR 0x80
           then blank s'' else False)"

lemma CR_neq_LF [simp]: "CR \<noteq> LF" "LF \<noteq> CR"
  by (simp_all add: CR_def LF_def)

definition to_ascii_lowercase :: "string \<Rightarrow> string" where
  "to_ascii_lowercase s =
     map (\<lambda>c. if 65 \<le> (of_char c :: nat) \<and> (of_char c :: nat) \<le> 90
              then char_of ((of_char c :: nat) + 32) else c) s"

definition eq_ignore_ascii_case :: "string \<Rightarrow> string \<Rightarrow> bool" where
  "eq_ignore_ascii_case a b \<longleftrightarrow> to_ascii_lowercase a = to_ascii_lowercase b"

fun starts_with :: "'a list \<Rightarrow> 'a list \<Rightarrow> bool" where
  "starts_with s [] = True"
| "starts_with [] (p # ps) = False"
| "starts_with (c # s) (p # ps) = (c = p \<and> starts_with s ps)"

lemma starts_with_iff: "starts_with s p \<longleftrightarrow> (\<exists>t. s = p @ t)"
  by (induction s p rule: starts_with.induct) auto

section \<open>Lists\<close>

text \<open>Positions of the first match, as \<open>Iterator::position\<close> finds it.\<close>

fun position :: "('a \<Rightarrow> bool) \<Rightarrow> 'a list \<Rightarrow> nat option" where
  "position P [] = None"
| "position P (x # xs) = (if P x then Some 0 else map_option Suc (position P xs))"

lemma position_None: "position P xs = None \<longleftrightarrow> (\<forall>x \<in> set xs. \<not> P x)"
  by (induction xs) auto

lemma position_Some: "position P xs = Some i \<Longrightarrow> i < length xs \<and> P (xs ! i)"
  by (induction xs arbitrary: i) (auto split: if_splits)

lemma find_Some_in: "find P xs = Some x \<Longrightarrow> x \<in> set xs \<and> P x"
  by (induction xs) (auto split: if_splits)

section \<open>Bounded meters\<close>

text \<open>
  Several components admit items against a limit: the body plan's byte count, the charged
  queue's visible bytes, a builder's capacity. They share one contract: an admitted item adds
  its weight and stays within the cap, a refused one changes nothing that is metered.
  \<open>run_admit\<close> offers a list of items one after the other, as a caller that goes on after a
  refusal does, and returns the final state with the items admitted.
\<close>

fun run_admit :: "('x \<Rightarrow> 's \<Rightarrow> 's \<times> bool) \<Rightarrow> 'x list \<Rightarrow> 's \<Rightarrow> 's \<times> 'x list" where
  "run_admit admit [] s = (s, [])"
| "run_admit admit (x # xs) s =
    (let (s', ok) = admit x s; (s'', ys) = run_admit admit xs s'
     in (s'', if ok then x # ys else ys))"

locale bounded_meter =
  fixes used :: "'s \<Rightarrow> nat"
    and cap :: "'s \<Rightarrow> nat"
    and weight :: "'x \<Rightarrow> nat"
    and admit :: "'x \<Rightarrow> 's \<Rightarrow> 's \<times> bool"
  assumes admitted: "admit x s = (s', True) \<Longrightarrow> used s' = used s + weight x \<and> used s' \<le> cap s"
    and refused: "admit x s = (s', False) \<Longrightarrow> used s' = used s"
    and cap_fixed: "admit x s = (s', b) \<Longrightarrow> cap s' = cap s"
begin

lemma run_cap: "run_admit admit xs s = (s', ys) \<Longrightarrow> cap s' = cap s"
  by (induction xs arbitrary: s s' ys) (auto split: prod.splits simp: Let_def dest: cap_fixed)

lemma run_used: "run_admit admit xs s = (s', ys) \<Longrightarrow> used s' = used s + sum_list (map weight ys)"
proof (induction xs arbitrary: s s' ys)
  case (Cons x xs)
  obtain t b where t: "admit x s = (t, b)" by (cases "admit x s")
  obtain u zs where u: "run_admit admit xs t = (u, zs)" by (cases "run_admit admit xs t")
  have "used u = used t + sum_list (map weight zs)" by (rule Cons.IH [OF u])
  then show ?case using Cons.prems t u admitted refused by (cases b) (force simp: Let_def)+
qed simp

lemma run_bounded:
  "run_admit admit xs s = (s', ys) \<Longrightarrow> used s \<le> cap s \<Longrightarrow> used s' \<le> cap s"
proof (induction xs arbitrary: s s' ys)
  case (Cons x xs)
  obtain t b where t: "admit x s = (t, b)" by (cases "admit x s")
  obtain u zs where u: "run_admit admit xs t = (u, zs)" by (cases "run_admit admit xs t")
  have "used t \<le> cap t"
    using t Cons.prems(2) admitted refused cap_fixed by (cases b) fastforce+
  then have "used u \<le> cap t" by (rule Cons.IH [OF u])
  then show ?case using Cons.prems t u cap_fixed by (auto simp: Let_def)
qed simp

end

section \<open>Queues\<close>

text \<open>
  The interface of the FIFO mailboxes: an abstraction to the list of waiting items, an insertion
  at the back and a removal at the front.
\<close>

locale fifo =
  fixes contents :: "'q \<Rightarrow> 'a list"
    and ok :: "'q \<Rightarrow> bool"
    and enqueue :: "'a \<Rightarrow> 'q \<Rightarrow> 'q option"
    and dequeue :: "'q \<Rightarrow> ('a \<times> 'q) option"
  assumes enqueue_contents: "ok q \<Longrightarrow> enqueue x q = Some q' \<Longrightarrow> contents q' = contents q @ [x] \<and> ok q'"
    and dequeue_contents: "ok q \<Longrightarrow> dequeue q = Some (x, q') \<Longrightarrow> contents q = x # contents q' \<and> ok q'"
    and dequeue_None: "ok q \<Longrightarrow> dequeue q = None \<longleftrightarrow> contents q = []"
begin

lemma dequeue_first: "ok q \<Longrightarrow> contents q = x # xs \<Longrightarrow> \<exists>q'. dequeue q = Some (x, q') \<and> contents q' = xs \<and> ok q'"
  using dequeue_contents dequeue_None by (cases "dequeue q") fastforce+

lemma enqueue_then_dequeue_empty:
  "ok q \<Longrightarrow> contents q = [] \<Longrightarrow> enqueue x q = Some q' \<Longrightarrow>
    \<exists>q''. dequeue q' = Some (x, q'') \<and> contents q'' = []"
  using dequeue_first enqueue_contents by force

end

text \<open>Draining a queue: what \<open>while let Some(x) = q.pop()\<close> sees, with enough steps.\<close>

fun drain :: "('q \<Rightarrow> ('a \<times> 'q) option) \<Rightarrow> nat \<Rightarrow> 'q \<Rightarrow> 'a list" where
  "drain deq 0 q = []"
| "drain deq (Suc k) q = (case deq q of None \<Rightarrow> [] | Some (x, q') \<Rightarrow> x # drain deq k q')"

fun enqueue_all :: "('a \<Rightarrow> 'q \<Rightarrow> 'q option) \<Rightarrow> 'a list \<Rightarrow> 'q \<Rightarrow> 'q option" where
  "enqueue_all enq [] q = Some q"
| "enqueue_all enq (x # xs) q = (case enq x q of None \<Rightarrow> None | Some q' \<Rightarrow> enqueue_all enq xs q')"

context fifo begin

lemma drain_contents: "ok q \<Longrightarrow> length (contents q) \<le> k \<Longrightarrow> drain dequeue k q = contents q"
proof (induction k arbitrary: q)
  case (Suc k)
  show ?case
  proof (cases "contents q")
    case Nil
    then have "dequeue q = None" using Suc.prems dequeue_None by simp
    then show ?thesis using Nil by simp
  next
    case (Cons x xs)
    then obtain q' where q': "dequeue q = Some (x, q')" "contents q' = xs" "ok q'"
      using dequeue_first Suc.prems by blast
    then have "drain dequeue k q' = xs" using Suc.IH [of q'] Suc.prems Cons by simp
    then show ?thesis using q' Cons by simp
  qed
qed simp

lemma enqueue_all_contents:
  "ok q \<Longrightarrow> enqueue_all enqueue xs q = Some q' \<Longrightarrow> contents q' = contents q @ xs \<and> ok q'"
proof (induction xs arbitrary: q)
  case (Cons x xs)
  then obtain q1 where q1: "enqueue x q = Some q1" "enqueue_all enqueue xs q1 = Some q'"
    by (auto split: option.splits)
  have c: "contents q1 = contents q @ [x]" "ok q1" using enqueue_contents [OF Cons.prems(1) q1(1)] by auto
  show ?case using Cons.IH [OF c(2) q1(2)] c(1) by simp
qed simp

lemma fifo_order:
  assumes "ok q" "enqueue_all enqueue xs q = Some q'" "length (contents q) + length xs \<le> k"
  shows "drain dequeue k q' = contents q @ xs"
  using enqueue_all_contents [OF assms(1,2)] drain_contents [of q' k] assms(3) by simp

end

end
