(* ===== verification/Failure_Class.thy ===== *)
theory Failure_Class
  imports Prelude
begin

text \<open>
  Classification of the failures of an attempt
  (\<^verbatim>\<open>gateway/src/attempt_outcome/mod.rs\<close>): the sanitized facts of a Connector adapter, the
  class they are given under the Connector's error profile, and the four questions the runtime
  asks of a class (relay, next key, state scope, disable the credential).

  A class is judged once by its \<open>cause\<close>, a provider failure kind or a network event; the
  questions of the code are proved to be functions of the cause, so that the HTTP, the stream and
  the timeout paths agree.
\<close>

record error_profile =
  http_status_typed :: bool
  stream_error_typed :: bool
  retry_after_typed :: bool

definition profile_exact :: error_profile where
  "profile_exact = \<lparr>http_status_typed = True, stream_error_typed = True, retry_after_typed = True\<rparr>"

datatype failure_kind = KCredential | KQuota | KBindingOverload | KProtocol | KPermanentClient | KTransient

datatype timeout_phase = ConnectPhase | RequestWritePhase | FirstBytePhase | StreamIdlePhase | OverallPhase

datatype raw_failure =
    RawConnect
  | RawTimeout timeout_phase
  | RawDisconnect
  | RawHttp nat "failure_kind option" "nat option"
  | RawStream "failure_kind option" "nat option"
  | RawProtocol

datatype stream_class =
    SCredential | SQuota | SBindingOverload | SProtocol | SPermanentClient | STransient | SUnclassified

datatype failure_class =
    Credential | Quota | BindingOverload | Protocol | PermanentClient | Transient
  | Timeout timeout_phase | Disconnect | PreOutputStream stream_class | PostCommit | Unclassified

record attempt_failure =
  af_class :: failure_class
  af_status :: "nat option"
  af_retry_after :: "nat option"

datatype failure_scope = CredentialScope | BindingScope

definition postcommit :: attempt_failure where
  "postcommit = \<lparr>af_class = PostCommit, af_status = None, af_retry_after = None\<rparr>"

fun class_relayable :: "failure_class \<Rightarrow> bool" where
  "class_relayable (PreOutputStream c) \<longleftrightarrow> \<not> (c = SPermanentClient \<or> c = SUnclassified)"
| "class_relayable PermanentClient \<longleftrightarrow> False"
| "class_relayable PostCommit \<longleftrightarrow> False"
| "class_relayable Unclassified \<longleftrightarrow> False"
| "class_relayable _ \<longleftrightarrow> True"

definition is_precommit_relayable :: "attempt_failure \<Rightarrow> bool" where
  "is_precommit_relayable f = class_relayable (af_class f)"

definition permits_next_key :: "attempt_failure \<Rightarrow> bool" where
  "permits_next_key f \<longleftrightarrow>
     af_class f \<in> {Credential, Quota, PreOutputStream SCredential, PreOutputStream SQuota}"

fun class_scope :: "failure_class \<Rightarrow> failure_scope option" where
  "class_scope Credential = Some CredentialScope"
| "class_scope Quota = Some CredentialScope"
| "class_scope (PreOutputStream c) =
    (case c of
       SCredential \<Rightarrow> Some CredentialScope | SQuota \<Rightarrow> Some CredentialScope
     | SBindingOverload \<Rightarrow> Some BindingScope | STransient \<Rightarrow> Some BindingScope
     | _ \<Rightarrow> None)"
| "class_scope BindingOverload = Some BindingScope"
| "class_scope Transient = Some BindingScope"
| "class_scope (Timeout _) = Some BindingScope"
| "class_scope Disconnect = Some BindingScope"
| "class_scope Protocol = None"
| "class_scope PermanentClient = None"
| "class_scope PostCommit = None"
| "class_scope Unclassified = None"

definition state_scope :: "attempt_failure \<Rightarrow> failure_scope option" where
  "state_scope f = class_scope (af_class f)"

definition disables_credential :: "attempt_failure \<Rightarrow> bool" where
  "disables_credential f \<longleftrightarrow> af_class f \<in> {Credential, PreOutputStream SCredential}"

section \<open>Classification\<close>

definition simple_failure :: "failure_class \<Rightarrow> attempt_failure" where
  "simple_failure c = \<lparr>af_class = c, af_status = None, af_retry_after = None\<rparr>"

fun stream_class_of :: "failure_kind \<Rightarrow> stream_class" where
  "stream_class_of KCredential = SCredential"
| "stream_class_of KQuota = SQuota"
| "stream_class_of KBindingOverload = SBindingOverload"
| "stream_class_of KProtocol = SProtocol"
| "stream_class_of KPermanentClient = SPermanentClient"
| "stream_class_of KTransient = STransient"

definition typed_retry :: "error_profile \<Rightarrow> nat option \<Rightarrow> nat option" where
  "typed_retry p r = (if retry_after_typed p then r else None)"

definition http_class :: "nat \<Rightarrow> failure_kind option \<Rightarrow> failure_class" where
  "http_class status kind =
    (if status = 401 \<or> status = 403 then Credential
     else if status = 429 then
       (case kind of Some KQuota \<Rightarrow> Quota | Some KBindingOverload \<Rightarrow> BindingOverload | _ \<Rightarrow> Unclassified)
     else if status = 400 \<or> status = 404 \<or> status = 422 then
       (case kind of Some KProtocol \<Rightarrow> Protocol | Some KPermanentClient \<Rightarrow> PermanentClient | _ \<Rightarrow> Unclassified)
     else if 500 \<le> status \<and> status \<le> 599 then Transient
     else
       (case kind of
          Some KProtocol \<Rightarrow> Protocol | Some KPermanentClient \<Rightarrow> PermanentClient
        | Some KTransient \<Rightarrow> Transient | Some KCredential \<Rightarrow> Credential | _ \<Rightarrow> Unclassified))"

definition classify_http :: "nat \<Rightarrow> failure_kind option \<Rightarrow> nat option \<Rightarrow> error_profile \<Rightarrow> attempt_failure" where
  "classify_http status kind retry_after p =
    (if \<not> http_status_typed p
     then \<lparr>af_class = Unclassified, af_status = Some status, af_retry_after = None\<rparr>
     else \<lparr>af_class = http_class status kind, af_status = Some status, af_retry_after = typed_retry p retry_after\<rparr>)"

fun classify_failure :: "raw_failure \<Rightarrow> error_profile \<Rightarrow> attempt_failure" where
  "classify_failure RawConnect p = simple_failure Transient"
| "classify_failure (RawTimeout phase) p = simple_failure (Timeout phase)"
| "classify_failure RawDisconnect p = simple_failure Disconnect"
| "classify_failure RawProtocol p = simple_failure Protocol"
| "classify_failure (RawHttp status kind retry_after) p = classify_http status kind retry_after p"
| "classify_failure (RawStream kind retry_after) p =
    \<lparr>af_class = PreOutputStream
       (if stream_error_typed p then (case kind of None \<Rightarrow> SUnclassified | Some k \<Rightarrow> stream_class_of k)
        else SUnclassified),
     af_status = None, af_retry_after = typed_retry p retry_after\<rparr>"

section \<open>The cause of a class\<close>

text \<open>The kind of failure a class speaks of, whichever path reported it; none when it was not classified.\<close>

datatype cause = Provider failure_kind | Network | Committed | Unknown

fun stream_cause :: "stream_class \<Rightarrow> cause" where
  "stream_cause SCredential = Provider KCredential"
| "stream_cause SQuota = Provider KQuota"
| "stream_cause SBindingOverload = Provider KBindingOverload"
| "stream_cause SProtocol = Provider KProtocol"
| "stream_cause SPermanentClient = Provider KPermanentClient"
| "stream_cause STransient = Provider KTransient"
| "stream_cause SUnclassified = Unknown"

fun cause_of :: "failure_class \<Rightarrow> cause" where
  "cause_of Credential = Provider KCredential"
| "cause_of Quota = Provider KQuota"
| "cause_of BindingOverload = Provider KBindingOverload"
| "cause_of Protocol = Provider KProtocol"
| "cause_of PermanentClient = Provider KPermanentClient"
| "cause_of Transient = Provider KTransient"
| "cause_of (Timeout _) = Network"
| "cause_of Disconnect = Network"
| "cause_of (PreOutputStream c) = stream_cause c"
| "cause_of PostCommit = Committed"
| "cause_of Unclassified = Unknown"

definition cause_relays :: "cause \<Rightarrow> bool" where
  "cause_relays c \<longleftrightarrow> c = Network \<or> (\<exists>k \<in> {KCredential, KQuota, KBindingOverload, KProtocol, KTransient}. c = Provider k)"

definition cause_scope :: "cause \<Rightarrow> failure_scope option" where
  "cause_scope c =
    (if c = Provider KCredential \<or> c = Provider KQuota then Some CredentialScope
     else if c = Network \<or> c = Provider KBindingOverload \<or> c = Provider KTransient then Some BindingScope
     else None)"

lemma class_relayable_cause: "class_relayable c \<longleftrightarrow> cause_relays (cause_of c)"
proof (cases c)
  case (PreOutputStream s)
  then show ?thesis by (cases s) (simp_all add: cause_relays_def)
qed (simp_all add: cause_relays_def)

lemma class_scope_cause: "class_scope c = cause_scope (cause_of c)"
  by (cases c rule: class_scope.cases) (auto simp: cause_scope_def split: stream_class.splits)

lemma next_key_cause: "permits_next_key f \<longleftrightarrow> class_scope (af_class f) = Some CredentialScope"
  by (cases "af_class f" rule: class_scope.cases) (auto simp: permits_next_key_def split: stream_class.splits)

lemma http_class_cause:
  "cause_of (http_class s k) = Unknown \<or> cause_of (http_class s k) = Provider KTransient
    \<or> cause_of (http_class s k) = Provider KCredential \<or> k = (case cause_of (http_class s k) of Provider q \<Rightarrow> Some q | _ \<Rightarrow> None)"
  by (auto simp: http_class_def split: option.splits failure_kind.splits)

section \<open>Properties\<close>

text \<open>
  The answers of the runtime are consistent whichever path reported a failure: relaying and
  the state scope depend only on the cause of the class; another key of the same binding is tried
  exactly when the failure is charged to the credential, and such a failure may be relayed; a
  credential is disabled only then; and a failure charged to any state may be relayed.
\<close>

theorem failure_answers_consistent:
  "(is_precommit_relayable f \<longleftrightarrow> cause_relays (cause_of (af_class f)))
    \<and> state_scope f = cause_scope (cause_of (af_class f))
    \<and> (permits_next_key f \<longleftrightarrow> state_scope f = Some CredentialScope)
    \<and> (state_scope f = None \<or> is_precommit_relayable f)
    \<and> {x. x = f \<and> disables_credential x} \<subseteq> {x. permits_next_key x}"
proof -
  have "state_scope f = None \<or> is_precommit_relayable f"
    by (auto simp: state_scope_def is_precommit_relayable_def class_relayable_cause class_scope_cause
        cause_scope_def cause_relays_def)
  moreover have "{x. x = f \<and> disables_credential x} \<subseteq> {x. permits_next_key x}"
    by (auto simp: disables_credential_def permits_next_key_def)
  ultimately show ?thesis
    by (simp add: is_precommit_relayable_def class_relayable_cause state_scope_def class_scope_cause [symmetric]
        next_key_cause)
qed

text \<open>
  Classification fails closed: a rate limit (429) the adapter did not attribute to a quota or
  to an overloaded binding, any HTTP status under a Connector whose statuses are not typed, a
  stream error of a Connector whose stream errors are not typed and every failure after the
  commit are never relayed and charged to nobody; a retry delay is only kept when the
  Connector's delays are typed.
\<close>

theorem unclassified_fails_closed:
  assumes "(\<exists>k r. raw = RawHttp 429 k r \<and> k \<noteq> Some KQuota \<and> k \<noteq> Some KBindingOverload)
      \<or> (\<exists>s k r. raw = RawHttp s k r \<and> \<not> http_status_typed p)
      \<or> (\<exists>k r. raw = RawStream k r \<and> (k = None \<or> \<not> stream_error_typed p))"
  shows "\<not> is_precommit_relayable (classify_failure raw p) \<and> \<not> is_precommit_relayable postcommit
    \<and> state_scope (classify_failure raw p) = None \<and> state_scope postcommit = None
    \<and> (retry_after_typed p \<or> af_retry_after (classify_failure raw p) = None)"
  using assms
  by (auto simp: classify_http_def http_class_def is_precommit_relayable_def state_scope_def postcommit_def
      typed_retry_def split: if_splits option.splits failure_kind.splits)

theorem unclassified_fails_closed_witness:
  "\<not> is_precommit_relayable (classify_failure (RawHttp 429 None (Some 3)) profile_exact)"
proof -
  have "\<exists>k r. RawHttp 429 None (Some 3) = RawHttp 429 k r \<and> k \<noteq> Some KQuota \<and> k \<noteq> Some KBindingOverload"
    by simp
  from unclassified_fails_closed [OF disjI1 [OF this]] show ?thesis by blast
qed

end
