(* ===== verification/Model_Request.thy ===== *)
theory Model_Request
  imports Prelude "HOL-Library.Char_ord" "HOL-Library.List_Lexorder"
begin

text \<open>
  The protocol-neutral model request of the gateway (\<^verbatim>\<open>gateway/src/model_ir/request.rs\<close> and
  \<^verbatim>\<open>search.rs\<close>) and the capabilities a request requires of the candidate that serves it,
  computed by one pass over its messages and content parts. JSON values are never inspected
  here: they are the type \<open>'v\<close>. A \<open>BTreeMap\<close> is the list of its entries, a \<open>BTreeSet\<close> of strings
  the sorted list of its elements.
\<close>

datatype protocol = Responses | ChatCompletions | Messages

fun from_path :: "string \<Rightarrow> protocol option" where
  "from_path p =
    (if p = ''/v1/responses'' then Some Responses
     else if p = ''/v1/chat/completions'' then Some ChatCompletions
     else if p = ''/v1/messages'' then Some Messages else None)"

fun path_of :: "protocol \<Rightarrow> string" where
  "path_of Responses = ''/v1/responses''"
| "path_of ChatCompletions = ''/v1/chat/completions''"
| "path_of Messages = ''/v1/messages''"

lemma from_path_of [simp]: "from_path (path_of p) = Some p"
  by (cases p) auto

lemma from_path_Some: "from_path s = Some p \<longleftrightarrow> s = path_of p"
  by (cases p) (auto split: if_splits)

datatype tool_kind = Function | Custom
datatype tool_status = ToolCompleted | ToolFailed | ToolStatusUnknown
datatype tool_order = ToolAt nat | NamespaceAt nat | WebSearchEntry
datatype tool_choice = NoChoice | Auto | RequiredAny | RequiredNamed tool_kind string

record 'v tool =
  tl_kind :: tool_kind
  tl_name :: string
  tl_description :: "string option"
  tl_input_schema :: "'v option"
  tl_strict :: "bool option"
  tl_format :: "'v option"

record 'v tool_namespace =
  ns_name :: string
  ns_description :: "string option"
  ns_tools :: "'v tool list"

record provider_path =
  pp_provider :: string
  pp_endpoint :: string
  pp_entitlement :: string
  pp_connector :: string
  pp_connector_revision :: string
  pp_capability :: string
  pp_capability_revision :: string
  pp_model_configuration :: string
  pp_native_model :: string
  pp_upstream_protocol :: protocol
  pp_adapter_revision :: string
  pp_serializer_revision :: string
  pp_decoder_revision :: string

definition path_is_complete :: "provider_path \<Rightarrow> bool" where
  "path_is_complete p = list_all (\<lambda>v. \<not> blank v)
     [pp_provider p, pp_endpoint p, pp_entitlement p, pp_connector p, pp_connector_revision p,
      pp_capability p, pp_capability_revision p, pp_model_configuration p, pp_native_model p,
      pp_adapter_revision p, pp_serializer_revision p, pp_decoder_revision p]"

record 'v opaque_state =
  os_owner :: provider_path
  os_block_index :: "nat option"
  os_kind :: string
  os_value :: 'v

datatype image_source = ImageUrl string | ImageBase64 string string
datatype 'v tool_output = OutputText string | OutputJson 'v

datatype 'v content_part =
    TextPart string
  | ImagePart image_source
  | ToolCallPart string tool_kind "string option" string 'v
  | ToolResultPart string tool_kind "'v tool_output" tool_status
  | ProviderStatePart "'v opaque_state"

datatype instruction_role = InstructSystem | InstructDeveloper
datatype message_role = User | Assistant | System | Developer

record 'v instruction =
  in_role :: instruction_role
  in_content :: "'v content_part list"

record 'v message =
  ms_role :: message_role
  ms_content :: "'v content_part list"
  ms_name :: "string option"

datatype reasoning_disposition = Absent | OverriddenByAgentPlan | AppliedToFixedBinding

record 'v requested_reasoning =
  rr_native_value :: "'v option"
  rr_disposition :: reasoning_disposition
  rr_fixed_profile_digest :: "string option"

text \<open>The native sidecars of the Responses protocol.\<close>

datatype search_status = SearchInProgress | Searching | SearchCompleted | SearchFailed

datatype search_action =
    SearchQuery "string option" "string list option" "string list option"
  | OpenPage string
  | FindInPage string string

record search_call =
  sc_id :: string
  sc_status :: search_status
  sc_action :: "search_action option"

record url_citation =
  uc_start :: nat
  uc_end :: nat
  uc_title :: string
  uc_url :: string

record responses_options =
  ro_store :: "bool option"
  ro_include :: "string list option"
  ro_prompt_cache_key :: "string option"
  ro_client_metadata :: "(string \<times> string) list option"
  ro_reasoning_context :: "string option"
  ro_reasoning_summary :: "string option"

datatype message_phase = Commentary | FinalAnswer
datatype encrypted_content = EncOpaque | EncAbsent | EncNull | EncEmpty

record 'v reasoning_history =
  rh_native_fields :: "(string \<times> 'v) list"
  rh_encrypted_content :: encrypted_content

record 'v model_request =
  rq_schema_version :: string
  rq_ingress_protocol :: protocol
  rq_served_model_id :: string
  rq_stream :: bool
  rq_instructions :: "'v instruction list"
  rq_messages :: "'v message list"
  rq_tools :: "'v tool list"
  rq_tool_namespaces :: "'v tool_namespace list"
  rq_tool_order :: "tool_order list"
  rq_web_search :: "bool option option"
  rq_search_history :: "(usize \<times> search_call) list"
  rq_annotations :: "(usize \<times> (usize \<times> url_citation list) list) list"
  rq_tool_choice :: tool_choice
  rq_parallel_tool_calls :: bool
  rq_requested_reasoning :: "'v requested_reasoning"
  rq_requested_max_output_tokens :: "u64 option"
  rq_provider_state :: "'v opaque_state list"
  rq_options :: "responses_options option"
  rq_item_ids :: "(usize \<times> string) list"
  rq_item_statuses :: "(usize \<times> string) list"
  rq_message_phases :: "(usize \<times> message_phase) list"
  rq_internal_metadata :: "(usize \<times> string) list"
  rq_reasoning_history :: "(usize \<times> 'v reasoning_history) list"

section \<open>Required capabilities\<close>

record requirements =
  need_ingress_protocol :: protocol
  need_text :: bool
  need_initial_instructions :: bool
  need_mid_conversation_instructions :: bool
  need_image_url :: bool
  need_image_base64 :: bool
  need_image_media_types :: "string list"
  need_function_tools :: bool
  need_strict_tools :: bool
  need_tool_choice :: tool_choice
  need_parallel_tools :: bool
  need_tool_roundtrip :: bool
  need_tool_result_text :: bool
  need_tool_result_json :: bool
  need_tool_id_mapping :: bool
  need_streaming :: bool
  need_stream_text :: bool
  need_stream_tool_arguments :: bool
  need_stream_reasoning :: bool
  need_stream_usage :: bool
  need_provider_state :: bool

definition instruction_message :: "'v message \<Rightarrow> bool" where
  "instruction_message m \<longleftrightarrow> ms_role m = System \<or> ms_role m = Developer"

text \<open>One step over a message: conversation started, initial and mid-conversation instructions.\<close>

fun scan_message :: "'v message \<Rightarrow> bool \<times> bool \<times> bool \<Rightarrow> bool \<times> bool \<times> bool" where
  "scan_message m (started, initial, mid) =
    (if instruction_message m
     then (if started then (started, initial, True) else (started, True, mid))
     else (True, initial, mid))"

definition set_insert :: "string \<Rightarrow> string list \<Rightarrow> string list" where
  "set_insert x xs = (if x \<in> set xs then xs else insort x xs)"

fun require_part :: "'v content_part \<Rightarrow> requirements \<Rightarrow> requirements" where
  "require_part (TextPart _) r = r\<lparr>need_text := True\<rparr>"
| "require_part (ImagePart (ImageUrl _)) r = r\<lparr>need_image_url := True\<rparr>"
| "require_part (ImagePart (ImageBase64 media_type _)) r =
    r\<lparr>need_image_base64 := True,
      need_image_media_types := set_insert media_type (need_image_media_types r)\<rparr>"
| "require_part (ToolCallPart _ _ _ _ _) r = r\<lparr>need_tool_roundtrip := True, need_tool_id_mapping := True\<rparr>"
| "require_part (ToolResultPart _ _ output _) r =
    (let r' = r\<lparr>need_tool_roundtrip := True, need_tool_id_mapping := True\<rparr>
     in case output of
          OutputText _ \<Rightarrow> r'\<lparr>need_tool_result_text := True\<rparr>
        | OutputJson _ \<Rightarrow> r'\<lparr>need_tool_result_json := True\<rparr>)"
| "require_part (ProviderStatePart _) r = r\<lparr>need_provider_state := True\<rparr>"

definition request_parts :: "'v model_request \<Rightarrow> 'v content_part list" where
  "request_parts q = concat (map in_content (rq_instructions q)) @ concat (map ms_content (rq_messages q))"

definition request_tools :: "'v model_request \<Rightarrow> 'v tool list" where
  "request_tools q = rq_tools q @ concat (map ns_tools (rq_tool_namespaces q))"

definition base_requirements :: "'v model_request \<Rightarrow> requirements" where
  "base_requirements q =
    (let (started, initial, mid) = fold scan_message (rq_messages q) (False, False, False);
         function_tools = (rq_tools q \<noteq> [] \<or> list_ex (\<lambda>n. ns_tools n \<noteq> []) (rq_tool_namespaces q));
         active = (function_tools \<and> rq_tool_choice q \<noteq> NoChoice);
         search = (rq_search_history q \<noteq> [])
     in \<lparr>need_ingress_protocol = rq_ingress_protocol q, need_text = False,
         need_initial_instructions = (rq_instructions q \<noteq> [] \<or> initial),
         need_mid_conversation_instructions = mid, need_image_url = False, need_image_base64 = False,
         need_image_media_types = [], need_function_tools = function_tools,
         need_strict_tools = list_ex (\<lambda>t. tl_kind t = Function \<and> tl_strict t \<noteq> None) (request_tools q),
         need_tool_choice = rq_tool_choice q, need_parallel_tools = rq_parallel_tool_calls q,
         need_tool_roundtrip = (active \<or> search), need_tool_result_text = False, need_tool_result_json = False,
         need_tool_id_mapping = (active \<or> search), need_streaming = rq_stream q, need_stream_text = rq_stream q,
         need_stream_tool_arguments = (rq_stream q \<and> function_tools \<and> rq_tool_choice q \<noteq> NoChoice),
         need_stream_reasoning = rq_stream q, need_stream_usage = rq_stream q,
         need_provider_state = (rq_provider_state q \<noteq> [])\<rparr>)"

definition requirements_of :: "'v model_request \<Rightarrow> requirements" where
  "requirements_of q = fold require_part (request_parts q) (base_requirements q)"

section \<open>The pass as a summary\<close>

lemma scan_messages:
  "fold scan_message ms (st, ini, mid) =
    (st \<or> list_ex (\<lambda>m. \<not> instruction_message m) ms,
     ini \<or> (\<not> st \<and> list_ex instruction_message (takeWhile instruction_message ms)),
     mid \<or> list_ex instruction_message (if st then ms else dropWhile instruction_message ms))"
proof (induction ms arbitrary: st ini mid)
  case (Cons m ms)
  show ?case by (cases "instruction_message m"; cases st) (auto simp: Cons.IH)
qed simp

definition is_text :: "'v content_part \<Rightarrow> bool" where "is_text p \<longleftrightarrow> (case p of TextPart _ \<Rightarrow> True | _ \<Rightarrow> False)"
definition is_url :: "'v content_part \<Rightarrow> bool" where
  "is_url p \<longleftrightarrow> (case p of ImagePart (ImageUrl _) \<Rightarrow> True | _ \<Rightarrow> False)"
definition is_tool_use :: "'v content_part \<Rightarrow> bool" where
  "is_tool_use p \<longleftrightarrow> (case p of ToolCallPart _ _ _ _ _ \<Rightarrow> True | ToolResultPart _ _ _ _ \<Rightarrow> True | _ \<Rightarrow> False)"
definition is_state :: "'v content_part \<Rightarrow> bool" where
  "is_state p \<longleftrightarrow> (case p of ProviderStatePart _ \<Rightarrow> True | _ \<Rightarrow> False)"
definition is_text_result :: "'v content_part \<Rightarrow> bool" where
  "is_text_result p \<longleftrightarrow> (case p of ToolResultPart _ _ (OutputText _) _ \<Rightarrow> True | _ \<Rightarrow> False)"
definition is_json_result :: "'v content_part \<Rightarrow> bool" where
  "is_json_result p \<longleftrightarrow> (case p of ToolResultPart _ _ (OutputJson _) _ \<Rightarrow> True | _ \<Rightarrow> False)"

definition media_of :: "'v content_part \<Rightarrow> string list" where
  "media_of p = (case p of ImagePart (ImageBase64 m _) \<Rightarrow> [m] | _ \<Rightarrow> [])"

definition media_types :: "'v content_part list \<Rightarrow> string list" where
  "media_types ps = concat (map media_of ps)"

lemmas part_kinds =
  is_text_def is_url_def is_tool_use_def is_state_def is_text_result_def is_json_result_def media_of_def

lemma set_insert_ok [simp]:
  "set (set_insert x xs) = insert x (set xs)"
  "sorted xs \<Longrightarrow> sorted (set_insert x xs)"
  "distinct xs \<Longrightarrow> distinct (set_insert x xs)"
  by (auto simp: set_insert_def set_insort_key sorted_insort distinct_insort)

lemma require_parts:
  assumes "sorted (need_image_media_types r)" "distinct (need_image_media_types r)"
  shows "fold require_part ps r = r\<lparr>
      need_text := need_text r \<or> list_ex is_text ps,
      need_image_url := need_image_url r \<or> list_ex is_url ps,
      need_image_base64 := need_image_base64 r \<or> media_types ps \<noteq> [],
      need_image_media_types := sorted_list_of_set (set (need_image_media_types r) \<union> set (media_types ps)),
      need_tool_roundtrip := need_tool_roundtrip r \<or> list_ex is_tool_use ps,
      need_tool_id_mapping := need_tool_id_mapping r \<or> list_ex is_tool_use ps,
      need_tool_result_text := need_tool_result_text r \<or> list_ex is_text_result ps,
      need_tool_result_json := need_tool_result_json r \<or> list_ex is_json_result ps,
      need_provider_state := need_provider_state r \<or> list_ex is_state ps\<rparr>"
  using assms
proof (induction ps arbitrary: r)
  case Nil
  then show ?case by (simp add: media_types_def sorted_list_of_set.idem_if_sorted_distinct)
next
  case (Cons p ps)
  have "sorted (need_image_media_types (require_part p r)) \<and> distinct (need_image_media_types (require_part p r))"
    using Cons.prems
    by (cases "(p, r)" rule: require_part.cases) (auto simp: Let_def split: tool_output.splits)
  then show ?case
    using Cons.IH [of "require_part p r"]
    by (cases "(p, r)" rule: require_part.cases)
      (auto simp: part_kinds media_types_def Let_def split: tool_output.splits)
qed

end
