(* ===== verification/Candidate_Profile.thy ===== *)
theory Candidate_Profile
  imports Model_Request
begin

text \<open>
  The profile of a candidate (\<^verbatim>\<open>gateway/src/profiles/{mod,capability,connector,context,reasoning}.rs\<close>):
  the fidelity of every feature, the connector's critical facts, the reasoning profiles and their
  validation, the projection of a serialized request onto the context limits with its 64-bit
  overflow checks, and the validation of a profile against the requirements of a request.
  Requests and profiles are values, so the model of a validation is the list of its checks in the
  order of the code.
\<close>

section \<open>Checks in order\<close>

fun first_failure :: "(bool \<times> 'e) list \<Rightarrow> 'e + unit" where
  "first_failure [] = Inr ()"
| "first_failure ((ok, e) # cs) = (if ok then first_failure cs else Inl e)"

lemma first_failure_ok [simp]: "first_failure cs = Inr () \<longleftrightarrow> list_all fst cs"
  by (induction cs rule: first_failure.induct) auto

lemma first_failure_unit: "first_failure cs = Inr u \<longleftrightarrow> list_all fst cs"
  by (cases u) simp

lemma first_failure_append: "first_failure (cs @ ds) = and_then (first_failure cs) (\<lambda>_. first_failure ds)"
  by (induction cs rule: first_failure.induct) auto

section \<open>Features\<close>

datatype fidelity = Exact | Normalized | GatewayMaterialized | Unsupported | FidelityUnknown

datatype 'a critical_fact = ExactFact 'a | UnknownFact

fun exact_fact :: "'a critical_fact \<Rightarrow> 'a option" where
  "exact_fact (ExactFact v) = Some v"
| "exact_fact UnknownFact = None"

datatype state_affinity = AffinityUnsupported | ExactOwner | AffinityUnknown
datatype state_emission = NeverEmitted | ExactOwnerAffine | EmissionUnknown

datatype stream_refusal =
  ExactDelta | TerminalClassified | LegacyTerminalClassified u64 u64 | RefusalUnsupported | RefusalUnknown

record request_features =
  rf_text :: fidelity
  rf_initial_instructions :: fidelity
  rf_mid_conversation_instructions :: fidelity
  rf_image_url :: fidelity
  rf_image_base64 :: fidelity
  rf_image_media_types :: "string list critical_fact"
  rf_function_tools :: fidelity
  rf_strict_tools :: fidelity
  rf_choice_none :: fidelity
  rf_choice_auto :: fidelity
  rf_choice_required_any :: fidelity
  rf_choice_required_named :: fidelity
  rf_parallel_tools :: fidelity
  rf_tool_roundtrip :: fidelity
  rf_tool_result_text :: fidelity
  rf_tool_result_json :: fidelity
  rf_tool_id_mapping :: fidelity
  rf_provider_state :: fidelity
  rf_state_affinity :: state_affinity

record response_features =
  sf_text :: fidelity
  sf_reasoning :: fidelity
  sf_refusal :: fidelity
  sf_tool_calls :: fidelity
  sf_tool_id_mapping :: fidelity
  sf_usage :: fidelity
  sf_finish_reason :: fidelity
  sf_typed_error :: fidelity
  sf_provider_state :: fidelity
  sf_state_affinity :: state_affinity
  sf_stream_refusal :: stream_refusal
  sf_stream_text_delta :: fidelity
  sf_stream_tool_arguments :: fidelity
  sf_stream_reasoning :: fidelity
  sf_stream_usage :: fidelity

section \<open>Reasoning profiles\<close>

datatype control_kind = Fixed | Toggle | Discrete | Budget
datatype reasoning_accounting = WithinOutputCap | Additive
datatype native_value = NativeBool bool | NativeString string | NativeU64 u64

record field_assignment =
  fa_path :: "string list"
  fa_value :: native_value

datatype reasoning_render =
    NoControlParameter
  | ExactFields protocol "field_assignment list"
  | ExactBudget protocol "field_assignment list" "string list" u64 u64 u64 u64

fun render_protocol :: "reasoning_render \<Rightarrow> protocol option" where
  "render_protocol NoControlParameter = None"
| "render_protocol (ExactFields p _) = Some p"
| "render_protocol (ExactBudget p _ _ _ _ _ _) = Some p"

fun render_fields :: "reasoning_render \<Rightarrow> field_assignment list" where
  "render_fields NoControlParameter = []"
| "render_fields (ExactFields _ fs) = fs"
| "render_fields (ExactBudget _ fs _ _ _ _ _) = fs"

record reasoning_profile =
  rp_profile_id :: string
  rp_control_kind :: control_kind
  rp_render :: reasoning_render
  rp_accounting :: reasoning_accounting
  rp_additional_tokens :: u64

definition reserved_request_field :: "string \<Rightarrow> bool" where
  "reserved_request_field f \<longleftrightarrow> f \<in>
     {''model'', ''stream'', ''input'', ''messages'', ''instructions'', ''system'', ''tools'', ''tool_choice'',
      ''parallel_tool_calls'', ''max_output_tokens'', ''max_completion_tokens'', ''max_tokens''}"

text \<open>The set of paths seen so far is that of the assignments before.\<close>

fun valid_assignments_from :: "string list list \<Rightarrow> field_assignment list \<Rightarrow> bool" where
  "valid_assignments_from seen [] = True"
| "valid_assignments_from seen (f # fs) =
    (fa_path f \<noteq> [] \<and> list_all (\<lambda>p. \<not> blank p) (fa_path f) \<and> \<not> reserved_request_field (hd (fa_path f))
     \<and> fa_path f \<notin> set seen \<and> fa_value f \<noteq> NativeString [] \<and> valid_assignments_from (fa_path f # seen) fs)"

definition valid_assignments :: "field_assignment list \<Rightarrow> bool" where
  "valid_assignments fs = valid_assignments_from [] fs"

definition reasoning_valid_for :: "reasoning_profile \<Rightarrow> protocol \<Rightarrow> bool" where
  "reasoning_valid_for r p \<longleftrightarrow>
     \<not> (blank (rp_profile_id r)
        \<or> rp_accounting r = WithinOutputCap \<and> rp_additional_tokens r \<noteq> 0
        \<or> (case render_protocol (rp_render r) of None \<Rightarrow> False | Some v \<Rightarrow> v \<noteq> p)
        \<or> \<not> valid_assignments (render_fields (rp_render r)))
   \<and> (case (rp_control_kind r, rp_render r) of
        (Fixed, NoControlParameter) \<Rightarrow> rp_additional_tokens r = 0 \<or> rp_accounting r = Additive
      | (Toggle, ExactFields _ fs) \<Rightarrow>
          fs \<noteq> [] \<and> list_ex (\<lambda>f. case fa_value f of NativeBool _ \<Rightarrow> True | _ \<Rightarrow> False) fs
      | (Discrete, ExactFields _ fs) \<Rightarrow> fs \<noteq> []
      | (Budget, ExactBudget _ fs path sel lo hi step) \<Rightarrow>
          0 < step \<and> 0 < lo \<and> lo \<le> sel \<and> sel \<le> hi \<and> (sel - lo) mod step = 0
          \<and> list_ex (\<lambda>f. fa_path f = path \<and> fa_value f = NativeU64 sel) fs
      | _ \<Rightarrow> False)"

section \<open>Context limits\<close>

datatype context_error =
  UnknownLimit string | UnknownEstimator | InputTooLarge u64 u64 | TotalTooLarge u64 u64 | ContextOverflow

record token_estimator =
  te_revision :: string
  te_bytes_per_token :: u64
  te_fixed_overhead_tokens :: u64

definition estimate :: "token_estimator \<Rightarrow> usize \<Rightarrow> context_error + u64" where
  "estimate t n =
    (if blank (te_revision t) \<or> te_bytes_per_token t = 0 then Inl UnknownEstimator
     else and_then (ok_or ContextOverflow (checked_add n (te_bytes_per_token t - 1))) (\<lambda>s.
            ok_or ContextOverflow (checked_add (s div te_bytes_per_token t) (te_fixed_overhead_tokens t))))"

record context_limits =
  cl_max_input_tokens :: "u64 critical_fact"
  cl_max_output_tokens :: "u64 critical_fact"
  cl_max_total_tokens :: "u64 option critical_fact"
  cl_estimator :: "token_estimator critical_fact"

record context_demand =
  cd_serialized_bytes :: usize
  cd_input_upper_bound :: u64
  cd_output_cap :: u64
  cd_reasoning_reservation :: u64
  cd_required_total :: u64
  cd_estimator_revision :: string

definition reasoning_reservation :: "reasoning_profile \<Rightarrow> u64" where
  "reasoning_reservation r = (case rp_accounting r of WithinOutputCap \<Rightarrow> 0 | Additive \<Rightarrow> rp_additional_tokens r)"

definition project_serialized_len ::
  "u64 \<Rightarrow> context_limits \<Rightarrow> reasoning_profile \<Rightarrow> context_error + context_demand" where
  "project_serialized_len n L r =
    and_then (ok_or (UnknownLimit ''max_input'') (exact_fact (cl_max_input_tokens L))) (\<lambda>max_input.
    and_then (ok_or (UnknownLimit ''max_output'') (exact_fact (cl_max_output_tokens L))) (\<lambda>max_output.
    and_then (ok_or (UnknownLimit ''max_total'') (exact_fact (cl_max_total_tokens L))) (\<lambda>max_total.
    and_then (ok_or UnknownEstimator (exact_fact (cl_estimator L))) (\<lambda>est.
    and_then (estimate est n) (\<lambda>inp.
    if max_input < inp then Inl (InputTooLarge inp max_input)
    else and_then (ok_or ContextOverflow
           (case checked_add inp max_output of
              None \<Rightarrow> None | Some v \<Rightarrow> checked_add v (reasoning_reservation r))) (\<lambda>required.
         case max_total of
           Some t \<Rightarrow>
             if t < required then Inl (TotalTooLarge required t)
             else Inr \<lparr>cd_serialized_bytes = n, cd_input_upper_bound = inp, cd_output_cap = max_output,
                       cd_reasoning_reservation = reasoning_reservation r, cd_required_total = required,
                       cd_estimator_revision = te_revision est\<rparr>
         | None \<Rightarrow>
             Inr \<lparr>cd_serialized_bytes = n, cd_input_upper_bound = inp, cd_output_cap = max_output,
                  cd_reasoning_reservation = reasoning_reservation r, cd_required_total = required,
                  cd_estimator_revision = te_revision est\<rparr>))))))"

section \<open>Connector facts\<close>

datatype authentication = BearerAuth | ApiKeyHeader string | NoAuth

record header_semantics =
  hs_content_type :: string
  hs_required_headers :: "(string \<times> string) list"
  hs_forbidden_forward_headers :: "string list"

record error_semantics =
  es_http_status_typed :: bool
  es_sse_error_typed :: bool
  es_retry_after_header :: "string option"

record connector_profile =
  cp_schema_version :: string
  cp_provider_id :: string
  cp_endpoint_id :: string
  cp_entitlement_id :: string
  cp_connector_id :: string
  cp_connector_revision :: string
  cp_upstream_protocol :: protocol
  cp_request_path :: string
  cp_authentication :: "authentication critical_fact"
  cp_headers :: "header_semantics critical_fact"
  cp_errors :: "error_semantics critical_fact"

fun authentication_exact :: "authentication \<Rightarrow> bool" where
  "authentication_exact BearerAuth = True"
| "authentication_exact NoAuth = True"
| "authentication_exact (ApiKeyHeader h) = (\<not> blank h)"

definition headers_exact :: "header_semantics \<Rightarrow> bool" where
  "headers_exact h \<longleftrightarrow> hs_content_type h = ''application/json''
   \<and> list_all (\<lambda>(n, v). \<not> blank n \<and> \<not> blank v \<and> \<not> eq_ignore_ascii_case n ''authorization'') (hs_required_headers h)
   \<and> list_ex (\<lambda>n. eq_ignore_ascii_case n ''authorization'') (hs_forbidden_forward_headers h)"

definition errors_exact :: "error_semantics \<Rightarrow> bool" where
  "errors_exact e \<longleftrightarrow> es_http_status_typed e \<and> es_sse_error_typed e
   \<and> (case es_retry_after_header e of None \<Rightarrow> True | Some h \<Rightarrow> \<not> blank h)"

definition fact_and :: "('a \<Rightarrow> bool) \<Rightarrow> 'a critical_fact \<Rightarrow> bool" where
  "fact_and P f = (case exact_fact f of None \<Rightarrow> False | Some v \<Rightarrow> P v)"

definition critical_facts_are_exact :: "connector_profile \<Rightarrow> bool" where
  "critical_facts_are_exact c \<longleftrightarrow> cp_schema_version c = ''hiroute.connector-profile/v1''
   \<and> \<not> blank (cp_provider_id c) \<and> \<not> blank (cp_endpoint_id c) \<and> \<not> blank (cp_entitlement_id c)
   \<and> \<not> blank (cp_connector_id c) \<and> \<not> blank (cp_connector_revision c)
   \<and> starts_with (cp_request_path c) ''/'' \<and> 1 < length (cp_request_path c)
   \<and> \<not> list_ex (\<lambda>x. x = CHR ''?'' \<or> x = CHR ''#'') (cp_request_path c)
   \<and> fact_and authentication_exact (cp_authentication c)
   \<and> fact_and headers_exact (cp_headers c) \<and> fact_and errors_exact (cp_errors c)"

section \<open>The candidate\<close>

record capability_profile =
  cap_schema_version :: string
  cap_capability_id :: string
  cap_capability_revision :: string
  cap_upstream_protocol :: protocol
  cap_model_configuration_id :: string
  cap_native_model :: string
  cap_request :: request_features
  cap_response :: response_features
  cap_reasoning_profiles :: "reasoning_profile list"
  cap_selected_reasoning :: string
  cap_context :: context_limits
  cap_native_streaming :: "bool critical_fact"
  cap_native_state :: state_emission

record candidate_profile =
  cpr_schema_version :: string
  cpr_path_id :: string
  cpr_ingress_protocol :: protocol
  cpr_adapter_revision :: string
  cpr_serializer_revision :: string
  cpr_decoder_revision :: string
  cpr_capability :: capability_profile
  cpr_connector :: connector_profile

datatype capability_error =
    ProfileUnknown | ConnectorFactUnknown | ProtocolPathUnavailable | TargetIdentityUnknown
  | TextUnsupported | InitialInstructionsUnsupported | MidConversationInstructionsUnsupported
  | ImageUrlUnsupported | ImageBase64Unsupported | ImageMediaTypeUnsupported
  | ToolInterfaceUnsupported | StrictToolsUnsupported | ToolChoiceUnsupported | ParallelToolsUnsupported
  | ToolRoundtripUnsupported | ToolResultTextUnsupported | ToolResultJsonUnsupported
  | LogicalToolIdMappingUnsupported | ProviderStateUnsupported | StateAffinityUnsupported
  | StreamingUnsupported | StreamRefusalUnsupported | StreamTextUnsupported | StreamToolUnsupported
  | StreamReasoningUnsupported | StreamUsageUnsupported | ResponseTextUnsupported
  | ResponseReasoningUnsupported | ResponseRefusalUnsupported | ResponseToolsUnsupported
  | ResponseLogicalToolIdMappingUnsupported | ResponseUsageUnsupported | ResponseFinishUnsupported
  | ResponseErrorUnsupported | ResponseProviderStateUnsupported | ReasoningProfileUnknown
  | ReasoningProfileMismatch | NativeProviderStateUnrepresentable

definition owner_of :: "candidate_profile \<Rightarrow> provider_path" where
  "owner_of p =
    (let c = cpr_connector p; k = cpr_capability p
     in \<lparr>pp_provider = cp_provider_id c, pp_endpoint = cp_endpoint_id c, pp_entitlement = cp_entitlement_id c,
         pp_connector = cp_connector_id c, pp_connector_revision = cp_connector_revision c,
         pp_capability = cap_capability_id k, pp_capability_revision = cap_capability_revision k,
         pp_model_configuration = cap_model_configuration_id k, pp_native_model = cap_native_model k,
         pp_upstream_protocol = cap_upstream_protocol k, pp_adapter_revision = cpr_adapter_revision p,
         pp_serializer_revision = cpr_serializer_revision p, pp_decoder_revision = cpr_decoder_revision p\<rparr>)"

definition exact_provider_path :: "candidate_profile \<Rightarrow> capability_error + provider_path" where
  "exact_provider_path p =
    (if path_is_complete (owner_of p) then Inr (owner_of p) else Inl TargetIdentityUnknown)"

definition selected_reasoning :: "candidate_profile \<Rightarrow> capability_error + reasoning_profile" where
  "selected_reasoning p = ok_or ReasoningProfileUnknown
     (find (\<lambda>r. rp_profile_id r = cap_selected_reasoning (cpr_capability p))
       (cap_reasoning_profiles (cpr_capability p)))"

definition exact_if :: "bool \<Rightarrow> fidelity \<Rightarrow> bool" where
  "exact_if required f \<longleftrightarrow> \<not> required \<or> f = Exact"

definition profile_identified :: "candidate_profile \<Rightarrow> bool" where
  "profile_identified p \<longleftrightarrow>
     (let k = cpr_capability p
      in cpr_schema_version p = ''hiroute.candidate-protocol-profile/v1''
       \<and> cap_schema_version k = ''hiroute.candidate-capability/v1''
       \<and> list_all (\<lambda>v. \<not> blank v)
          [cpr_path_id p, cpr_adapter_revision p, cpr_serializer_revision p, cpr_decoder_revision p,
           cap_capability_id k, cap_capability_revision k, cap_model_configuration_id k, cap_native_model k])"

definition reasoning_profiles_valid :: "capability_profile \<Rightarrow> bool" where
  "reasoning_profiles_valid k \<longleftrightarrow> cap_reasoning_profiles k \<noteq> []
     \<and> distinct (map rp_profile_id (cap_reasoning_profiles k))
     \<and> list_all (\<lambda>r. reasoning_valid_for r (cap_upstream_protocol k)) (cap_reasoning_profiles k)"

definition media_types_supported :: "requirements \<Rightarrow> request_features \<Rightarrow> bool" where
  "media_types_supported n f =
     (case exact_fact (rf_image_media_types f) of
        None \<Rightarrow> False
      | Some ms \<Rightarrow> list_all (\<lambda>m. list_ex (\<lambda>s. eq_ignore_ascii_case s m) ms) (need_image_media_types n))"

fun choice_fidelity :: "tool_choice \<Rightarrow> request_features \<Rightarrow> fidelity" where
  "choice_fidelity NoChoice f = rf_choice_none f"
| "choice_fidelity Auto f = rf_choice_auto f"
| "choice_fidelity RequiredAny f = rf_choice_required_any f"
| "choice_fidelity (RequiredNamed _ _) f = rf_choice_required_named f"

definition valid_stream_refusal :: "protocol \<Rightarrow> stream_refusal \<Rightarrow> bool" where
  "valid_stream_refusal p s =
     (case p of
        Messages \<Rightarrow> (case s of TerminalClassified \<Rightarrow> True | LegacyTerminalClassified _ _ \<Rightarrow> True | _ \<Rightarrow> False)
      | _ \<Rightarrow> s = ExactDelta)"

text \<open>The checks of \<open>validate\<close> in the order of the code, each with its error.\<close>

definition validate_checks :: "candidate_profile \<Rightarrow> requirements \<Rightarrow> (bool \<times> capability_error) list" where
  "validate_checks p n =
    (let k = cpr_capability p; f = cap_request k; g = cap_response k;
         affine = (cap_native_state k = ExactOwnerAffine)
     in [(profile_identified p, ProfileUnknown),
         (reasoning_profiles_valid k, ReasoningProfileMismatch),
         (need_ingress_protocol n = cpr_ingress_protocol p
            \<and> cap_upstream_protocol k = cp_upstream_protocol (cpr_connector p), ProtocolPathUnavailable),
         (path_is_complete (owner_of p), TargetIdentityUnknown),
         (cap_native_state k \<noteq> EmissionUnknown, NativeProviderStateUnrepresentable),
         (critical_facts_are_exact (cpr_connector p), ConnectorFactUnknown),
         (exact_if (need_text n) (rf_text f), TextUnsupported),
         (exact_if (need_initial_instructions n) (rf_initial_instructions f), InitialInstructionsUnsupported),
         (exact_if (need_mid_conversation_instructions n) (rf_mid_conversation_instructions f),
            MidConversationInstructionsUnsupported),
         (exact_if (need_image_url n) (rf_image_url f), ImageUrlUnsupported),
         (exact_if (need_image_base64 n) (rf_image_base64 f), ImageBase64Unsupported),
         (\<not> need_image_base64 n \<or> media_types_supported n f, ImageMediaTypeUnsupported),
         (exact_if (need_function_tools n) (rf_function_tools f), ToolInterfaceUnsupported),
         (exact_if (need_strict_tools n) (rf_strict_tools f), StrictToolsUnsupported),
         (exact_if (need_function_tools n) (choice_fidelity (need_tool_choice n) f), ToolChoiceUnsupported),
         (exact_if (need_parallel_tools n) (rf_parallel_tools f), ParallelToolsUnsupported),
         (exact_if (need_tool_roundtrip n) (rf_tool_roundtrip f), ToolRoundtripUnsupported),
         (exact_if (need_tool_result_text n) (rf_tool_result_text f), ToolResultTextUnsupported),
         (exact_if (need_tool_result_json n) (rf_tool_result_json f), ToolResultJsonUnsupported),
         (exact_if (need_tool_id_mapping n) (rf_tool_id_mapping f), LogicalToolIdMappingUnsupported),
         (exact_if (need_provider_state n) (rf_provider_state f), ProviderStateUnsupported),
         (\<not> need_provider_state n \<or> rf_state_affinity f = ExactOwner, StateAffinityUnsupported),
         (\<not> need_streaming n \<or> exact_fact (cap_native_streaming k) = Some True, StreamingUnsupported),
         (sf_text g = Exact, ResponseTextUnsupported),
         (sf_reasoning g = Exact, ResponseReasoningUnsupported),
         (sf_refusal g = Exact, ResponseRefusalUnsupported),
         (exact_if (need_function_tools n) (sf_tool_calls g), ResponseToolsUnsupported),
         (exact_if (need_function_tools n) (sf_tool_id_mapping g), ResponseLogicalToolIdMappingUnsupported),
         (sf_usage g = Exact, ResponseUsageUnsupported),
         (sf_finish_reason g = Exact, ResponseFinishUnsupported),
         (sf_typed_error g = Exact, ResponseErrorUnsupported),
         (\<not> need_streaming n \<or> valid_stream_refusal (cap_upstream_protocol k) (sf_stream_refusal g),
            StreamRefusalUnsupported),
         (exact_if affine (rf_provider_state f), ProviderStateUnsupported),
         (\<not> affine \<or> rf_state_affinity f = ExactOwner, StateAffinityUnsupported),
         (exact_if affine (sf_provider_state g), ResponseProviderStateUnsupported),
         (\<not> affine \<or> sf_state_affinity g = ExactOwner, StateAffinityUnsupported),
         (exact_if (need_stream_text n) (sf_stream_text_delta g), StreamTextUnsupported),
         (exact_if (need_stream_tool_arguments n) (sf_stream_tool_arguments g), StreamToolUnsupported),
         (exact_if (need_stream_reasoning n) (sf_stream_reasoning g), StreamReasoningUnsupported),
         (exact_if (need_stream_usage n) (sf_stream_usage g), StreamUsageUnsupported)])"

definition validate_profile ::
  "candidate_profile \<Rightarrow> requirements \<Rightarrow> capability_error + reasoning_profile" where
  "validate_profile p n = and_then (first_failure (validate_checks p n)) (\<lambda>_. selected_reasoning p)"

section \<open>Clients\<close>

record client_profile =
  cli_schema_version :: string
  cli_protocol :: protocol
  cli_adapter_revision :: string
  cli_state_owner :: "provider_path option"
  cli_response :: response_features

definition client_can_represent :: "protocol \<Rightarrow> protocol \<Rightarrow> bool" where
  "client_can_represent c u \<longleftrightarrow> c = u \<or> c = Messages \<and> u = Responses"

definition client_portable :: "protocol \<Rightarrow> client_profile" where
  "client_portable p =
    \<lparr>cli_schema_version = ''hiroute.client-protocol-profile/v1'', cli_protocol = p,
     cli_adapter_revision = ''builtin-client-protocol-adapter/v1'', cli_state_owner = None,
     cli_response = \<lparr>sf_text = Exact, sf_reasoning = Exact, sf_refusal = Exact, sf_tool_calls = Exact,
       sf_tool_id_mapping = Exact, sf_usage = Exact, sf_finish_reason = Exact, sf_typed_error = Exact,
       sf_provider_state = Unsupported, sf_state_affinity = AffinityUnsupported,
       sf_stream_refusal = ExactDelta, sf_stream_text_delta = Exact, sf_stream_tool_arguments = Exact,
       sf_stream_reasoning = Exact, sf_stream_usage = Exact\<rparr>\<rparr>"

definition client_owner_affine :: "protocol \<Rightarrow> provider_path \<Rightarrow> client_profile" where
  "client_owner_affine p owner =
    (let c = client_portable p
     in c\<lparr>cli_state_owner := Some owner,
          cli_response := (cli_response c)\<lparr>sf_provider_state := Exact, sf_state_affinity := ExactOwner\<rparr>\<rparr>)"

definition client_for_candidate :: "candidate_profile \<Rightarrow> capability_error + client_profile" where
  "client_for_candidate p =
    (if client_can_represent (cpr_ingress_protocol p) (cap_upstream_protocol (cpr_capability p))
        \<and> cap_native_state (cpr_capability p) = ExactOwnerAffine
     then and_then (exact_provider_path p) (\<lambda>owner. Inr (client_owner_affine (cpr_ingress_protocol p) owner))
     else Inr (client_portable (cpr_ingress_protocol p)))"

definition client_is_complete :: "client_profile \<Rightarrow> bool" where
  "client_is_complete c \<longleftrightarrow> cli_schema_version c = ''hiroute.client-protocol-profile/v1''
   \<and> \<not> blank (cli_adapter_revision c)
   \<and> (case cli_state_owner c of
        Some owner \<Rightarrow> path_is_complete owner \<and> client_can_represent (cli_protocol c) (pp_upstream_protocol owner)
          \<and> sf_provider_state (cli_response c) = Exact \<and> sf_state_affinity (cli_response c) = ExactOwner
      | None \<Rightarrow> sf_provider_state (cli_response c) = Unsupported
          \<and> sf_state_affinity (cli_response c) = AffinityUnsupported)"

section \<open>Portable profiles\<close>

fun protocol_label :: "protocol \<Rightarrow> string" where
  "protocol_label Responses = ''responses''"
| "protocol_label ChatCompletions = ''chat_completions''"
| "protocol_label Messages = ''messages''"

definition exact_json :: "string \<Rightarrow> string \<Rightarrow> protocol \<Rightarrow> connector_profile" where
  "exact_json cid revision p =
    \<lparr>cp_schema_version = ''hiroute.connector-profile/v1'', cp_provider_id = ''fixture-provider-'' @ cid,
     cp_endpoint_id = ''fixture-endpoint-'' @ cid, cp_entitlement_id = ''fixture-entitlement-'' @ cid,
     cp_connector_id = cid, cp_connector_revision = revision, cp_upstream_protocol = p, cp_request_path = path_of p,
     cp_authentication = ExactFact BearerAuth,
     cp_headers = ExactFact \<lparr>hs_content_type = ''application/json'', hs_required_headers = [],
       hs_forbidden_forward_headers = [''authorization'']\<rparr>,
     cp_errors = ExactFact \<lparr>es_http_status_typed = True, es_sse_error_typed = True,
       es_retry_after_header = Some ''retry-after''\<rparr>\<rparr>"

definition unless_messages :: "protocol \<Rightarrow> fidelity" where
  "unless_messages p = (if p = Messages then Unsupported else Exact)"

definition portable_request :: "protocol \<Rightarrow> request_features" where
  "portable_request p =
    \<lparr>rf_text = Exact, rf_initial_instructions = Exact, rf_mid_conversation_instructions = unless_messages p,
     rf_image_url = Exact, rf_image_base64 = Exact,
     rf_image_media_types = ExactFact [''image/gif'', ''image/jpeg'', ''image/png'', ''image/webp''],
     rf_function_tools = Exact, rf_strict_tools = unless_messages p, rf_choice_none = unless_messages p,
     rf_choice_auto = Exact, rf_choice_required_any = Exact, rf_choice_required_named = Exact,
     rf_parallel_tools = Exact, rf_tool_roundtrip = Exact, rf_tool_result_text = Exact,
     rf_tool_result_json = Exact, rf_tool_id_mapping = Exact, rf_provider_state = Unsupported,
     rf_state_affinity = AffinityUnsupported\<rparr>"

definition portable_response :: "protocol \<Rightarrow> response_features" where
  "portable_response p =
    \<lparr>sf_text = Exact, sf_reasoning = Exact, sf_refusal = Exact, sf_tool_calls = Exact, sf_tool_id_mapping = Exact,
     sf_usage = Exact, sf_finish_reason = Exact, sf_typed_error = Exact, sf_provider_state = Unsupported,
     sf_state_affinity = AffinityUnsupported,
     sf_stream_refusal = (if p = Messages then TerminalClassified else ExactDelta),
     sf_stream_text_delta = Exact, sf_stream_tool_arguments = Exact, sf_stream_reasoning = Exact,
     sf_stream_usage = Exact\<rparr>"

definition portable_context :: context_limits where
  "portable_context =
    \<lparr>cl_max_input_tokens = ExactFact (1024 * 1024), cl_max_output_tokens = ExactFact 256,
     cl_max_total_tokens = ExactFact (Some (1024 * 1024 + 256)),
     cl_estimator = ExactFact \<lparr>te_revision = ''byte-upper-bound/v1'', te_bytes_per_token = 1,
       te_fixed_overhead_tokens = 0\<rparr>\<rparr>"

definition exact_portable_path :: "protocol \<Rightarrow> protocol \<Rightarrow> string \<Rightarrow> reasoning_profile \<Rightarrow> candidate_profile" where
  "exact_portable_path ingress upstream native r =
    (let name = protocol_label upstream
     in \<lparr>cpr_schema_version = ''hiroute.candidate-protocol-profile/v1'',
         cpr_path_id = protocol_label ingress @ ''-to-'' @ name, cpr_ingress_protocol = ingress,
         cpr_adapter_revision = ''builtin-protocol-adapter/v1'', cpr_serializer_revision = ''hiroute-target-json/v1'',
         cpr_decoder_revision = ''hiroute-native-response/v1'',
         cpr_capability =
          \<lparr>cap_schema_version = ''hiroute.candidate-capability/v1'',
           cap_capability_id = ''exact-'' @ protocol_label ingress @ ''-to-'' @ name, cap_capability_revision = ''1'',
           cap_upstream_protocol = upstream, cap_model_configuration_id = ''fixture-model-config-'' @ name,
           cap_native_model = native, cap_request = portable_request upstream,
           cap_response = portable_response upstream, cap_reasoning_profiles = [r],
           cap_selected_reasoning = rp_profile_id r,
           cap_context = portable_context,
           cap_native_streaming = ExactFact True, cap_native_state = NeverEmitted\<rparr>,
         cpr_connector = exact_json (''fixture-'' @ name @ ''-connector'') ''1'' upstream\<rparr>)"

lemma portable_sel [simp]:
  "cpr_schema_version (exact_portable_path i u n r) = ''hiroute.candidate-protocol-profile/v1''"
  "cpr_path_id (exact_portable_path i u n r) = protocol_label i @ ''-to-'' @ protocol_label u"
  "cpr_ingress_protocol (exact_portable_path i u n r) = i"
  "cpr_adapter_revision (exact_portable_path i u n r) = ''builtin-protocol-adapter/v1''"
  "cpr_serializer_revision (exact_portable_path i u n r) = ''hiroute-target-json/v1''"
  "cpr_decoder_revision (exact_portable_path i u n r) = ''hiroute-native-response/v1''"
  "cpr_connector (exact_portable_path i u n r) = exact_json (''fixture-'' @ protocol_label u @ ''-connector'') ''1'' u"
  "cap_schema_version (cpr_capability (exact_portable_path i u n r)) = ''hiroute.candidate-capability/v1''"
  "cap_capability_id (cpr_capability (exact_portable_path i u n r)) = ''exact-'' @ protocol_label i @ ''-to-'' @ protocol_label u"
  "cap_capability_revision (cpr_capability (exact_portable_path i u n r)) = ''1''"
  "cap_upstream_protocol (cpr_capability (exact_portable_path i u n r)) = u"
  "cap_model_configuration_id (cpr_capability (exact_portable_path i u n r)) = ''fixture-model-config-'' @ protocol_label u"
  "cap_native_model (cpr_capability (exact_portable_path i u n r)) = n"
  "cap_request (cpr_capability (exact_portable_path i u n r)) = portable_request u"
  "cap_response (cpr_capability (exact_portable_path i u n r)) = portable_response u"
  "cap_reasoning_profiles (cpr_capability (exact_portable_path i u n r)) = [r]"
  "cap_selected_reasoning (cpr_capability (exact_portable_path i u n r)) = rp_profile_id r"
  "cap_context (cpr_capability (exact_portable_path i u n r)) = portable_context"
  "cap_native_streaming (cpr_capability (exact_portable_path i u n r)) = ExactFact True"
  "cap_native_state (cpr_capability (exact_portable_path i u n r)) = NeverEmitted"
  by (simp_all add: exact_portable_path_def Let_def)

lemma not_blank_char:
  assumes "33 \<le> (of_char c :: nat)" "(of_char c :: nat) < 128"
  shows "\<not> blank (c # s)"
proof -
  have "c \<noteq> CHR 0x09 \<and> c \<noteq> CHR 0x0A \<and> c \<noteq> CHR 0x0B \<and> c \<noteq> CHR 0x0C \<and> c \<noteq> CHR 0x0D \<and> c \<noteq> CHR 0x20
    \<and> c \<noteq> CHR 0xC2 \<and> c \<noteq> CHR 0xE1 \<and> c \<noteq> CHR 0xE2 \<and> c \<noteq> CHR 0xE3"
    using assms by auto
  then show ?thesis by (auto split: list.splits)
qed

lemma protocol_label_visible: "\<exists>c s. protocol_label p = c # s \<and> 33 \<le> (of_char c :: nat) \<and> (of_char c :: nat) < 128"
  by (cases p) auto

lemma exact_json_exact:
  assumes "cid = c # s" "33 \<le> (of_char c :: nat)" "(of_char c :: nat) < 128"
  shows "critical_facts_are_exact (exact_json cid ''1'' p)"
  using assms
  by (cases p) (simp_all add: critical_facts_are_exact_def exact_json_def not_blank_char fact_and_def headers_exact_def
    errors_exact_def eq_ignore_ascii_case_def del: blank.simps(2))

lemma portable_complete:
  assumes "\<not> blank n"
  shows "profile_identified (exact_portable_path i u n r)" "path_is_complete (owner_of (exact_portable_path i u n r))"
    "critical_facts_are_exact (cpr_connector (exact_portable_path i u n r))"
    "cp_upstream_protocol (cpr_connector (exact_portable_path i u n r)) = u"
proof -
  obtain c s where l: "protocol_label i = c # s" "33 \<le> (of_char c :: nat)" "(of_char c :: nat) < 128"
    using protocol_label_visible by blast
  show "profile_identified (exact_portable_path i u n r)"
    using assms l by (simp add: profile_identified_def not_blank_char del: blank.simps(2))
  show "path_is_complete (owner_of (exact_portable_path i u n r))"
    using assms by (simp add: path_is_complete_def owner_of_def exact_json_def not_blank_char del: blank.simps(2))
  show "critical_facts_are_exact (cpr_connector (exact_portable_path i u n r))"
    by (simp add: exact_json_exact)
  show "cp_upstream_protocol (cpr_connector (exact_portable_path i u n r)) = u"
    by (simp add: exact_json_def)
qed

section \<open>Lemmas\<close>

lemma exact_if_simps [simp]: "exact_if True f \<longleftrightarrow> f = Exact" "exact_if False f"
  by (simp_all add: exact_if_def)

lemma selected_reasoning_valid:
  assumes "selected_reasoning p = Inr r" and "reasoning_profiles_valid (cpr_capability p)"
  shows "r \<in> set (cap_reasoning_profiles (cpr_capability p))" "rp_profile_id r = cap_selected_reasoning (cpr_capability p)"
    "reasoning_valid_for r (cap_upstream_protocol (cpr_capability p))"
  using assms find_Some_in
  by (auto simp: selected_reasoning_def res_simps reasoning_profiles_valid_def list_all_iff dest!: find_Some_in)

lemma ceil_div:
  fixes n b :: nat
  assumes "0 < b"
  shows "n \<le> b * ((n + (b - 1)) div b)"
proof -
  have "n + (b - 1) = b * ((n + (b - 1)) div b) + (n + (b - 1)) mod b" by simp
  moreover have "(n + (b - 1)) mod b \<le> b - 1" using mod_less_divisor [OF assms] by (metis Suc_diff_1 assms less_Suc_eq_le)
  ultimately show ?thesis by linarith
qed

section \<open>Properties\<close>

text \<open>
  The projection onto the context limits is conservative and never wraps: a demand is granted
  only if the estimate, computed without overflow, covers every byte of the serialized request,
  fits the input limit, and input, output cap and reasoning reservation fit the total limit
  together.
\<close>

theorem context_demand_fits:
  assumes "project_serialized_len n L r = Inr d"
  shows "\<exists>t mi mo mt. exact_fact (cl_estimator L) = Some t \<and> exact_fact (cl_max_input_tokens L) = Some mi
    \<and> exact_fact (cl_max_output_tokens L) = Some mo \<and> exact_fact (cl_max_total_tokens L) = Some mt
    \<and> n \<le> te_bytes_per_token t * (cd_input_upper_bound d - te_fixed_overhead_tokens t)
    \<and> te_fixed_overhead_tokens t \<le> cd_input_upper_bound d
    \<and> cd_input_upper_bound d \<le> mi \<and> cd_output_cap d = mo
    \<and> cd_required_total d = cd_input_upper_bound d + mo + reasoning_reservation r
    \<and> cd_required_total d \<le> usize_max
    \<and> (mt = None \<or> cd_required_total d \<le> the mt)"
proof -
  obtain t mi mo mt inp where facts: "exact_fact (cl_estimator L) = Some t" "exact_fact (cl_max_input_tokens L) = Some mi"
      "exact_fact (cl_max_output_tokens L) = Some mo" "exact_fact (cl_max_total_tokens L) = Some mt"
    and est: "estimate t n = Inr inp" and lim: "inp \<le> mi"
    and d: "cd_input_upper_bound d = inp" "cd_output_cap d = mo"
      "cd_required_total d = inp + mo + reasoning_reservation r" "cd_required_total d \<le> usize_max"
      "mt = None \<or> cd_required_total d \<le> the mt"
    using assms
    by (auto simp: project_serialized_len_def res_simps split: if_splits option.splits)
  have "n \<le> te_bytes_per_token t * (inp - te_fixed_overhead_tokens t)" "te_fixed_overhead_tokens t \<le> inp"
    using est ceil_div [of "te_bytes_per_token t" n]
    by (auto simp: estimate_def res_simps split: if_splits)
  then show ?thesis using facts lim d by blast
qed

definition sample_limits_for :: "context_limits" where
  "sample_limits_for = \<lparr>cl_max_input_tokens = ExactFact 10, cl_max_output_tokens = ExactFact 5,
     cl_max_total_tokens = ExactFact (Some 20),
     cl_estimator = ExactFact \<lparr>te_revision = ''r'', te_bytes_per_token = 4, te_fixed_overhead_tokens = 2\<rparr>\<rparr>"

definition sample_reasoning :: reasoning_profile where
  "sample_reasoning = \<lparr>rp_profile_id = ''high'', rp_control_kind = Fixed, rp_render = NoControlParameter,
     rp_accounting = Additive, rp_additional_tokens = 3\<rparr>"

theorem context_demand_fits_witness:
  "\<exists>d. project_serialized_len 17 sample_limits_for sample_reasoning = Inr d
    \<and> cd_input_upper_bound d = 7 \<and> cd_required_total d = 15 \<and> cd_required_total d \<le> usize_max"
proof -
  let ?d = "\<lparr>cd_serialized_bytes = 17, cd_input_upper_bound = 7, cd_output_cap = 5, cd_reasoning_reservation = 3,
     cd_required_total = 15, cd_estimator_revision = ''r''\<rparr>"
  have run: "project_serialized_len 17 sample_limits_for sample_reasoning = Inr ?d"
    by (simp add: project_serialized_len_def sample_limits_for_def sample_reasoning_def estimate_def
        checked_add_def usize_max_def reasoning_reservation_def)
  from context_demand_fits [OF run] run show ?thesis by auto
qed

end
