(* ===== verification/Tool_Projection.thy ===== *)
theory Tool_Projection
  imports Model_Request "HOL-Library.Multiset"
begin

text \<open>
  Projection of the Responses tools (flat tools and one-level namespaces) to the flat tool names
  of Chat Completions (\<^verbatim>\<open>gateway/src/adapters/tool_projection.rs\<close>): the declaration order, the
  checks on declarations and emitted names, and the lookups in both directions that translate a
  tool call. \<open>format!("{namespace}__{name}")\<close> is the concatenation written out; the rendering of
  the tool declarations as JSON is not modelled.
\<close>

datatype adapter_error = ClientUnrepresentable string

record tool_identity =
  ti_emitted_name :: string
  ti_kind :: tool_kind
  ti_namespace :: "string option"
  ti_local_name :: string

type_synonym 'v tool_declaration = "string option \<times> 'v tool"

record order_state =
  flat_seen :: "bool list"
  namespace_seen :: "bool list"

fun order_step ::
  "'v model_request \<Rightarrow> tool_order \<Rightarrow> order_state \<Rightarrow> adapter_error + order_state \<times> 'v tool_declaration list" where
  "order_step q (ToolAt i) s =
    (if length (rq_tools q) \<le> i then Inl (ClientUnrepresentable ''Responses tool order references a missing tool'')
     else if flat_seen s ! i then Inl (ClientUnrepresentable ''Responses tool order repeats a tool'')
     else Inr (s\<lparr>flat_seen := (flat_seen s)[i := True]\<rparr>, [(None, rq_tools q ! i)]))"
| "order_step q (NamespaceAt i) s =
    (if length (rq_tool_namespaces q) \<le> i
     then Inl (ClientUnrepresentable ''Responses tool order references a missing namespace'')
     else if namespace_seen s ! i then Inl (ClientUnrepresentable ''Responses tool order repeats a namespace'')
     else (let n = rq_tool_namespaces q ! i
           in Inr (s\<lparr>namespace_seen := (namespace_seen s)[i := True]\<rparr>,
                map (Pair (Some (ns_name n))) (ns_tools n))))"
| "order_step q WebSearchEntry s =
    Inl (ClientUnrepresentable ''Responses hosted tools cannot be projected to Chat Completions'')"

fun order_loop ::
  "'v model_request \<Rightarrow> tool_order list \<Rightarrow> order_state \<Rightarrow> adapter_error + order_state \<times> 'v tool_declaration list" where
  "order_loop q [] s = Inr (s, [])"
| "order_loop q (x # xs) s =
    (case order_step q x s of
       Inl e \<Rightarrow> Inl e
     | Inr (s', ds) \<Rightarrow>
        (case order_loop q xs s' of Inl e \<Rightarrow> Inl e | Inr (s'', es) \<Rightarrow> Inr (s'', ds @ es)))"

definition ordered_declarations :: "'v model_request \<Rightarrow> adapter_error + 'v tool_declaration list" where
  "ordered_declarations q =
    (if rq_tool_order q = [] then
       (if rq_tool_namespaces q \<noteq> []
        then Inl (ClientUnrepresentable ''Responses namespace tools require an exact declaration order'')
        else Inr (map (Pair None) (rq_tools q)))
     else
       (case order_loop q (rq_tool_order q)
               \<lparr>flat_seen = replicate (length (rq_tools q)) False,
                namespace_seen = replicate (length (rq_tool_namespaces q)) False\<rparr> of
          Inl e \<Rightarrow> Inl e
        | Inr (s, ds) \<Rightarrow>
           (if list_ex Not (flat_seen s) \<or> list_ex Not (namespace_seen s)
            then Inl (ClientUnrepresentable ''Responses tool order is incomplete'') else Inr ds)))"

definition validate_declaration :: "'v tool \<Rightarrow> adapter_error + unit" where
  "validate_declaration t =
    (case tl_kind t of
       Function \<Rightarrow>
        (if tl_input_schema t \<noteq> None \<and> tl_format t = None then Inr ()
         else Inl (ClientUnrepresentable ''function tool declaration is incomplete or contains custom format''))
     | Custom \<Rightarrow>
        (if tl_input_schema t = None \<and> tl_strict t = None \<and> tl_format t = None then Inr ()
         else Inl (ClientUnrepresentable ''custom tool format cannot be represented by Chat Completions'')))"

definition MAX_CHAT_TOOL_NAME_BYTES :: usize where "MAX_CHAT_TOOL_NAME_BYTES = 64"

definition chat_name_char :: "char \<Rightarrow> bool" where
  "chat_name_char c \<longleftrightarrow>
    (let n = (of_char c :: nat)
     in 48 \<le> n \<and> n \<le> 57 \<or> 65 \<le> n \<and> n \<le> 90 \<or> 97 \<le> n \<and> n \<le> 122 \<or> c = CHR ''_'' \<or> c = CHR ''-'')"

definition validate_chat_name :: "string \<Rightarrow> adapter_error + unit" where
  "validate_chat_name s = ensure
     (\<not> (s = [] \<or> MAX_CHAT_TOOL_NAME_BYTES < length s \<or> \<not> list_all chat_name_char s))
     (ClientUnrepresentable ''projected Chat tool name violates length or character limits'')"

definition emitted_name_of :: "'v tool_declaration \<Rightarrow> string" where
  "emitted_name_of d =
    (case fst d of None \<Rightarrow> tl_name (snd d) | Some n \<Rightarrow> n @ ''__'' @ tl_name (snd d))"

definition identity_of :: "'v tool_declaration \<Rightarrow> tool_identity" where
  "identity_of d = \<lparr>ti_emitted_name = emitted_name_of d, ti_kind = tl_kind (snd d),
     ti_namespace = fst d, ti_local_name = tl_name (snd d)\<rparr>"

text \<open>The loop over the declarations; the set of names so far is that of the entries so far.\<close>

fun project_loop :: "'v tool_declaration list \<Rightarrow> tool_identity list \<Rightarrow> adapter_error + tool_identity list" where
  "project_loop [] entries = Inr entries"
| "project_loop (d # ds) entries =
    (case validate_declaration (snd d) of Inl e \<Rightarrow> Inl e | Inr _ \<Rightarrow>
     (case validate_chat_name (emitted_name_of d) of Inl e \<Rightarrow> Inl e | Inr _ \<Rightarrow>
      (if list_ex (\<lambda>i. ti_emitted_name i = emitted_name_of d) entries
       then Inl (ClientUnrepresentable ''Responses tools collide after Chat name projection'')
       else project_loop ds (entries @ [identity_of d]))))"

definition for_request :: "'v model_request \<Rightarrow> adapter_error + tool_identity list" where
  "for_request q =
    (if rq_web_search q \<noteq> None
     then Inl (ClientUnrepresentable ''Responses hosted tools cannot be projected to Chat Completions'')
     else if list_ex (\<lambda>n. ns_description n \<noteq> None) (rq_tool_namespaces q)
     then Inl (ClientUnrepresentable ''Responses namespace descriptions cannot be projected to Chat Completions'')
     else and_then (ordered_declarations q) (\<lambda>ds. project_loop ds []))"

definition resolve_emitted :: "tool_identity list \<Rightarrow> string \<Rightarrow> tool_identity option" where
  "resolve_emitted entries emitted = find (\<lambda>i. ti_emitted_name i = emitted) entries"

definition unique_match ::
  "(tool_identity \<Rightarrow> bool) \<Rightarrow> string \<Rightarrow> string \<Rightarrow> tool_identity list \<Rightarrow> adapter_error + string" where
  "unique_match P none many entries =
    (case filter P entries of
       [] \<Rightarrow> Inl (ClientUnrepresentable none)
     | [i] \<Rightarrow> Inr (ti_emitted_name i)
     | _ \<Rightarrow> Inl (ClientUnrepresentable many))"

definition emitted_for ::
  "tool_identity list \<Rightarrow> tool_kind \<Rightarrow> string option \<Rightarrow> string \<Rightarrow> adapter_error + string" where
  "emitted_for entries kind ns local = unique_match
     (\<lambda>i. ti_kind i = kind \<and> ti_namespace i = ns \<and> ti_local_name i = local)
     ''tool call has no projected declaration'' ''tool call projection is ambiguous'' entries"

fun named_choice :: "tool_identity list \<Rightarrow> tool_choice \<Rightarrow> adapter_error + string option" where
  "named_choice entries (RequiredNamed kind name) =
    and_then (unique_match (\<lambda>i. ti_kind i = kind \<and> ti_local_name i = name)
       ''named tool choice has no declaration'' ''named tool choice is ambiguous'' entries) (\<lambda>s. Inr (Some s))"
| "named_choice entries _ = Inr None"

definition projection_holds :: "'v tool_declaration \<Rightarrow> tool_identity \<Rightarrow> bool" where
  "projection_holds d i \<longleftrightarrow> ti_kind i = tl_kind (snd d) \<and> ti_namespace i = fst d \<and> ti_local_name i = tl_name (snd d)"

definition render_tools ::
  "(tool_identity \<Rightarrow> 'v tool \<Rightarrow> 'j) \<Rightarrow> tool_identity list \<Rightarrow> 'v model_request \<Rightarrow> adapter_error + 'j list" where
  "render_tools render entries q = and_then (ordered_declarations q) (\<lambda>ds.
     if length ds \<noteq> length entries \<or> \<not> list_all2 projection_holds ds entries
     then Inl (ClientUnrepresentable ''Chat tool projection changed after construction'')
     else Inr (map (\<lambda>(d, i). render i (snd d)) (zip ds entries)))"

section \<open>The declaration order\<close>

text \<open>What an entry of the order declares, and the positions it refers to.\<close>

fun declared_by :: "'v model_request \<Rightarrow> tool_order \<Rightarrow> 'v tool_declaration list" where
  "declared_by q (ToolAt i) = [(None, rq_tools q ! i)]"
| "declared_by q (NamespaceAt i) = map (Pair (Some (ns_name (rq_tool_namespaces q ! i)))) (ns_tools (rq_tool_namespaces q ! i))"
| "declared_by q WebSearchEntry = []"

fun tool_index :: "tool_order \<Rightarrow> nat list" where
  "tool_index (ToolAt i) = [i]" | "tool_index _ = []"

fun namespace_index :: "tool_order \<Rightarrow> nat list" where
  "namespace_index (NamespaceAt i) = [i]" | "namespace_index _ = []"

definition marked :: "bool list \<Rightarrow> nat set" where
  "marked bs = {i. i < length bs \<and> bs ! i}"

lemma marked_update: "i < length bs \<Longrightarrow> marked (bs[i := True]) = insert i (marked bs)"
  by (auto simp: marked_def nth_list_update)

lemma order_step_spec:
  assumes "order_step q x s = Inr (s', ds)" and "length (flat_seen s) = length (rq_tools q)"
    and "length (namespace_seen s) = length (rq_tool_namespaces q)"
  shows "ds = declared_by q x \<and> length (flat_seen s') = length (rq_tools q)
    \<and> length (namespace_seen s') = length (rq_tool_namespaces q)
    \<and> distinct (tool_index x) \<and> set (tool_index x) \<inter> marked (flat_seen s) = {}
    \<and> marked (flat_seen s') = marked (flat_seen s) \<union> set (tool_index x)
    \<and> distinct (namespace_index x) \<and> set (namespace_index x) \<inter> marked (namespace_seen s) = {}
    \<and> marked (namespace_seen s') = marked (namespace_seen s) \<union> set (namespace_index x)"
  using assms by (cases x) (auto simp: marked_def nth_list_update Let_def split: if_splits)

lemma order_loop_spec:
  assumes "order_loop q xs s = Inr (s', ds)" and "length (flat_seen s) = length (rq_tools q)"
    and "length (namespace_seen s) = length (rq_tool_namespaces q)"
  shows "ds = concat (map (declared_by q) xs) \<and> length (flat_seen s') = length (rq_tools q)
    \<and> length (namespace_seen s') = length (rq_tool_namespaces q)
    \<and> distinct (concat (map tool_index xs)) \<and> set (concat (map tool_index xs)) \<inter> marked (flat_seen s) = {}
    \<and> marked (flat_seen s') = marked (flat_seen s) \<union> set (concat (map tool_index xs))
    \<and> distinct (concat (map namespace_index xs))
    \<and> set (concat (map namespace_index xs)) \<inter> marked (namespace_seen s) = {}
    \<and> marked (namespace_seen s') = marked (namespace_seen s) \<union> set (concat (map namespace_index xs))"
  using assms
proof (induction xs arbitrary: s ds)
  case (Cons x xs)
  obtain s1 d e where step: "order_step q x s = Inr (s1, d)" and rest: "order_loop q xs s1 = Inr (s', e)"
    and ds: "ds = d @ e" using Cons.prems(1) by (auto split: sum.splits prod.splits)
  note x = order_step_spec [OF step Cons.prems(2,3)]
  have "length (flat_seen s1) = length (rq_tools q)" "length (namespace_seen s1) = length (rq_tool_namespaces q)"
    using x by blast+
  note IH = Cons.IH [OF rest this]
  show ?case unfolding ds using x IH by auto
qed simp

lemma all_marked: "\<not> list_ex Not bs \<Longrightarrow> marked bs = {..< length bs}"
  by (auto simp: marked_def list_ex_iff)

lemma marked_none [simp]: "marked (replicate n False) = {}"
  by (auto simp: marked_def)

text \<open>Every flat tool and every namespace tool of the request is declared exactly once.\<close>

definition all_declarations :: "'v model_request \<Rightarrow> 'v tool_declaration list" where
  "all_declarations q = map (Pair None) (rq_tools q)
     @ concat (map (\<lambda>n. map (Pair (Some (ns_name n))) (ns_tools n)) (rq_tool_namespaces q))"

lemma mset_concat_map: "mset (concat (map g l)) = (\<Sum>x\<in>#mset l. mset (g x))"
  by (induction l) auto

lemma declared_split:
  "mset (concat (map (declared_by q) xs)) =
     mset (map (\<lambda>i. (None, rq_tools q ! i)) (concat (map tool_index xs)))
   + mset (concat (map (\<lambda>i. declared_by q (NamespaceAt i)) (concat (map namespace_index xs))))"
proof (induction xs)
  case (Cons x xs)
  then show ?case by (cases x) auto
qed simp

lemma all_indices: "distinct l \<Longrightarrow> set l = {..< n} \<Longrightarrow> mset l = mset [0..< n]"
  by (metis atLeast_upt distinct_upt set_eq_iff_mset_eq_distinct)

lemma nth_upt_mset: "image_mset (\<lambda>i. f (xs ! i)) (mset [0..< length xs]) = image_mset f (mset xs)"
  by (metis (no_types, lifting) map_map map_nth mset_map comp_apply map_eq_conv)

lemma declarations_once:
  assumes "ordered_declarations q = Inr ds"
  shows "mset ds = mset (all_declarations q)"
proof (cases "rq_tool_order q = []")
  case True
  then show ?thesis using assms
    by (auto simp: ordered_declarations_def all_declarations_def split: if_splits)
next
  case False
  let ?s = "\<lparr>flat_seen = replicate (length (rq_tools q)) False, namespace_seen = replicate (length (rq_tool_namespaces q)) False\<rparr>"
  obtain s' where loop: "order_loop q (rq_tool_order q) ?s = Inr (s', ds)"
    and full: "\<not> list_ex Not (flat_seen s')" "\<not> list_ex Not (namespace_seen s')"
    using assms False by (auto simp: ordered_declarations_def split: sum.splits prod.splits if_splits)
  let ?t = "concat (map tool_index (rq_tool_order q))" and ?n = "concat (map namespace_index (rq_tool_order q))"
  have sp: "ds = concat (map (declared_by q) (rq_tool_order q))" "length (flat_seen s') = length (rq_tools q)"
    "length (namespace_seen s') = length (rq_tool_namespaces q)" "distinct ?t" "marked (flat_seen s') = set ?t"
    "distinct ?n" "marked (namespace_seen s') = set ?n"
    using order_loop_spec [OF loop] by simp_all
  have "mset ?t = mset [0..< length (rq_tools q)]"
    by (rule all_indices) (use sp all_marked [OF full(1)] in simp_all)
  moreover have "mset ?n = mset [0..< length (rq_tool_namespaces q)]"
    by (rule all_indices) (use sp all_marked [OF full(2)] in simp_all)
  ultimately have idx: "mset ?t = mset [0..< length (rq_tools q)]" "mset ?n = mset [0..< length (rq_tool_namespaces q)]" .
  have "mset ds = image_mset (\<lambda>i. (None, rq_tools q ! i)) (mset [0..< length (rq_tools q)])
      + (\<Sum>i\<in>#mset [0..< length (rq_tool_namespaces q)]. mset (declared_by q (NamespaceAt i)))"
    unfolding sp(1) declared_split
    by (simp only: mset_map mset_concat_map [of "\<lambda>i. declared_by q (NamespaceAt i)" ?n] idx)
  also have "\<dots> = mset (all_declarations q)"
    using nth_upt_mset [of "Pair None" "rq_tools q"]
      nth_upt_mset [of "\<lambda>n. mset (map (Pair (Some (ns_name n))) (ns_tools n))" "rq_tool_namespaces q"]
    by (simp add: all_declarations_def mset_concat_map del: mset_upt)
  finally show ?thesis .
qed

section \<open>The entries\<close>

lemma identity_name [simp]: "ti_emitted_name (identity_of d) = emitted_name_of d"
  by (simp add: identity_of_def)

lemma project_loop_spec:
  assumes "project_loop ds es = Inr es'" and "distinct (map ti_emitted_name es)"
  shows "es' = es @ map identity_of ds \<and> distinct (map ti_emitted_name es')
    \<and> list_all (\<lambda>d. validate_declaration (snd d) = Inr () \<and> validate_chat_name (emitted_name_of d) = Inr ()) ds"
  using assms
proof (induction ds es arbitrary: es' rule: project_loop.induct)
  case (2 d ds entries)
  then have v: "validate_declaration (snd d) = Inr ()" "validate_chat_name (emitted_name_of d) = Inr ()"
    and new: "\<not> list_ex (\<lambda>i. ti_emitted_name i = emitted_name_of d) entries"
    and rest: "project_loop ds (entries @ [identity_of d]) = Inr es'"
    by (auto split: sum.splits if_splits)
  have "distinct (map ti_emitted_name (entries @ [identity_of d]))"
    using new "2.prems"(2) by (auto simp: list_ex_iff)
  from "2.IH" [OF v new rest this] v show ?case by (elim conjE) (intro conjI, simp_all)
qed simp

lemma for_request_spec:
  assumes "for_request q = Inr es"
  obtains ds where "ordered_declarations q = Inr ds" "es = map identity_of ds" "distinct (map ti_emitted_name es)"
    "list_all (\<lambda>d. validate_declaration (snd d) = Inr () \<and> validate_chat_name (emitted_name_of d) = Inr ()) ds"
proof -
  obtain ds where o: "ordered_declarations q = Inr ds" and p: "project_loop ds [] = Inr es"
    using assms by (auto simp: for_request_def res_simps split: if_splits)
  have "distinct (map ti_emitted_name [])" by simp
  from project_loop_spec [OF p this] show thesis by (elim conjE, intro that [OF o]) simp_all
qed

lemma distinct_find:
  "distinct (map f xs) \<Longrightarrow> x \<in> set xs \<Longrightarrow> find (\<lambda>y. f y = f x) xs = Some x"
  by (induction xs) (auto simp: image_iff)

lemma distinct_filter:
  assumes "distinct (map f xs)" "x \<in> set xs" "\<forall>y \<in> set xs. P y \<longrightarrow> f y = f x" "P x"
  shows "filter P xs = [x]"
  using assms
proof (induction xs)
  case (Cons y ys)
  show ?case
  proof (cases "x = y")
    case True
    have "f x \<notin> f ` set ys" using True Cons.prems(1) by simp
    then have "filter P ys = []" using Cons.prems(3) by (simp add: filter_empty_conv) (metis image_eqI)
    then show ?thesis using True Cons.prems by simp
  next
    case False
    then have x: "x \<in> set ys" and "f y \<notin> f ` set ys" using Cons.prems(1,2) by simp_all
    then have "\<not> P y" using Cons.prems(3) by auto
    moreover have "filter P ys = [x]"
    proof (rule Cons.IH [OF _ x _ Cons.prems(4)])
      show "distinct (map f ys)" using Cons.prems(1) by simp
      show "\<forall>y \<in> set ys. P y \<longrightarrow> f y = f x" using Cons.prems(3) by (metis list.set_intros(2))
    qed
    ultimately show ?thesis by simp
  qed
qed simp

lemma identity_determined:
  assumes "es = map identity_of ds" "i \<in> set es" "j \<in> set es"
    "ti_namespace i = ti_namespace j" "ti_local_name i = ti_local_name j"
  shows "ti_emitted_name i = ti_emitted_name j"
  using assms by (auto simp: identity_of_def emitted_name_of_def split: option.splits)

lemma unique_matchD:
  assumes "unique_match P a b es = Inr s"
  obtains i where "i \<in> set es" "P i" "ti_emitted_name i = s"
proof -
  obtain i where "filter P es = [i]" "ti_emitted_name i = s"
    using assms by (auto simp: unique_match_def split: list.splits)
  then show ?thesis using that [of i] by (metis filter_eq_ConsD in_set_conv_decomp)
qed

section \<open>Properties\<close>

text \<open>
  The projected Chat tools are the request's tools: a projection that succeeds has one entry
  for every flat tool and every namespace tool of the request and no other, their emitted names
  are pairwise different and each is a Chat tool name of 1 to 64 letters, digits, underscores or
  dashes.
\<close>

theorem projection_complete:
  assumes "for_request q = Inr es"
  shows "\<exists>ds. mset ds = mset (all_declarations q) \<and> list_all2 projection_holds ds es
    \<and> distinct (map ti_emitted_name es)
    \<and> list_all (\<lambda>i. ti_emitted_name i \<noteq> [] \<and> length (ti_emitted_name i) \<le> 64
        \<and> list_all chat_name_char (ti_emitted_name i)) es"
proof -
  obtain ds where ds: "ordered_declarations q = Inr ds" "es = map identity_of ds" "distinct (map ti_emitted_name es)"
    "list_all (\<lambda>d. validate_declaration (snd d) = Inr () \<and> validate_chat_name (emitted_name_of d) = Inr ()) ds"
    using for_request_spec [OF assms] .
  have "list_all2 projection_holds ds es"
    by (simp add: ds(2) list_all2_conv_all_nth projection_holds_def identity_of_def)
  moreover have "list_all (\<lambda>i. ti_emitted_name i \<noteq> [] \<and> length (ti_emitted_name i) \<le> 64
        \<and> list_all chat_name_char (ti_emitted_name i)) es"
    using ds(4) by (auto simp: ds(2) list_all_iff validate_chat_name_def res_simps identity_of_def
        MAX_CHAT_TOOL_NAME_BYTES_def)
  ultimately show ?thesis using declarations_once [OF ds(1)] ds(3) by blast
qed

definition sample_tool :: "string \<Rightarrow> nat tool" where
  "sample_tool n = \<lparr>tl_kind = Function, tl_name = n, tl_description = None, tl_input_schema = Some 0,
     tl_strict = None, tl_format = None\<rparr>"

definition sample_request :: "nat model_request" where
  "sample_request = \<lparr>rq_schema_version = ''hiroute.model-request-ir/v1'', rq_ingress_protocol = Responses,
     rq_served_model_id = ''m'', rq_stream = True, rq_instructions = [],
     rq_messages = [\<lparr>ms_role = User, ms_content = [TextPart ''hi''], ms_name = None\<rparr>],
     rq_tools = [sample_tool ''ls''],
     rq_tool_namespaces = [\<lparr>ns_name = ''fs'', ns_description = None, ns_tools = [sample_tool ''rm'']\<rparr>],
     rq_tool_order = [NamespaceAt 0, ToolAt 0], rq_web_search = None, rq_search_history = [],
     rq_annotations = [], rq_tool_choice = Auto, rq_parallel_tool_calls = True,
     rq_requested_reasoning = \<lparr>rr_native_value = None, rr_disposition = Absent, rr_fixed_profile_digest = None\<rparr>,
     rq_requested_max_output_tokens = None, rq_provider_state = [], rq_options = None, rq_item_ids = [],
     rq_item_statuses = [], rq_message_phases = [], rq_internal_metadata = [], rq_reasoning_history = []\<rparr>"

definition sample_projection :: "tool_identity list" where
  "sample_projection =
    [\<lparr>ti_emitted_name = ''fs__rm'', ti_kind = Function, ti_namespace = Some ''fs'', ti_local_name = ''rm''\<rparr>,
     \<lparr>ti_emitted_name = ''ls'', ti_kind = Function, ti_namespace = None, ti_local_name = ''ls''\<rparr>]"

lemma sample_projected: "for_request sample_request = Inr sample_projection"
  by (simp add: for_request_def sample_request_def sample_tool_def sample_projection_def ordered_declarations_def
      validate_declaration_def emitted_name_of_def identity_of_def validate_chat_name_def ensure_def
      MAX_CHAT_TOOL_NAME_BYTES_def chat_name_char_def Let_def)

theorem projection_complete_witness:
  "\<exists>ds. mset ds = mset (all_declarations sample_request) \<and> list_all2 projection_holds ds sample_projection"
  using projection_complete [OF sample_projected] by blast

text \<open>What an entry or a declaration is called by in the request.\<close>

definition entry_key :: "tool_identity \<Rightarrow> tool_kind \<times> string option \<times> string" where
  "entry_key i = (ti_kind i, ti_namespace i, ti_local_name i)"

definition declared_key :: "'v tool_declaration \<Rightarrow> tool_kind \<times> string option \<times> string" where
  "declared_key d = (tl_kind (snd d), fst d, tl_name (snd d))"

lemma entry_key_identity [simp]: "entry_key (identity_of d) = declared_key d"
  by (simp add: entry_key_def declared_key_def identity_of_def)

text \<open>
  C31. Tool calls survive the projection. The entries of a projection that succeeds are the flat and
  namespace tools that the request declares, each as often as it is declared. For every declared tool
  the lookup of its kind, namespace and name answers its emitted name, and resolving this name gives
  that tool back; whatever name a lookup or a named tool choice returns resolves to what was asked for.
\<close>

theorem tool_names_roundtrip:
  assumes "for_request q = Inr es"
  shows "mset (map entry_key es) = mset (map declared_key (all_declarations q))
    \<and> (\<forall>d \<in> set (all_declarations q).
          emitted_for es (tl_kind (snd d)) (fst d) (tl_name (snd d)) = Inr (emitted_name_of d)
        \<and> resolve_emitted es (emitted_name_of d) = Some (identity_of d))
    \<and> (\<forall>k ns l s. emitted_for es k ns l = Inr s \<longrightarrow>
          (\<exists>i. resolve_emitted es s = Some i \<and> entry_key i = (k, ns, l)))
    \<and> (\<forall>k n s. named_choice es (RequiredNamed k n) = Inr (Some s) \<longrightarrow>
          (\<exists>i. resolve_emitted es s = Some i \<and> ti_kind i = k \<and> ti_local_name i = n))"
proof -
  obtain ds where o: "ordered_declarations q = Inr ds" and ds: "es = map identity_of ds" "distinct (map ti_emitted_name es)"
    and "list_all (\<lambda>d. validate_declaration (snd d) = Inr () \<and> validate_chat_name (emitted_name_of d) = Inr ()) ds"
    using for_request_spec [OF assms] .
  have once: "mset ds = mset (all_declarations q)" by (rule declarations_once [OF o])
  then have "set ds = set (all_declarations q)" by (rule mset_eq_setD)
  moreover have "map entry_key es = map declared_key ds" by (simp add: ds(1))
  moreover have "mset (map declared_key ds) = mset (map declared_key (all_declarations q))" by (simp add: once)
  moreover have res: "resolve_emitted es (ti_emitted_name i) = Some i" if "i \<in> set es" for i
    unfolding resolve_emitted_def by (rule distinct_find [OF ds(2) that])
  moreover have "emitted_for es (tl_kind (snd d)) (fst d) (tl_name (snd d)) = Inr (emitted_name_of d)
      \<and> resolve_emitted es (emitted_name_of d) = Some (identity_of d)" if "d \<in> set ds" for d
  proof -
    let ?i = "identity_of d"
    have mem: "?i \<in> set es" using that by (simp add: ds(1))
    have "filter (\<lambda>j. ti_kind j = ti_kind ?i \<and> ti_namespace j = ti_namespace ?i \<and> ti_local_name j = ti_local_name ?i) es = [?i]"
      by (rule distinct_filter [OF ds(2) mem]) (use identity_determined [OF ds(1) _ mem] in auto)
    then show ?thesis using res [OF mem]
      by (simp add: emitted_for_def unique_match_def) (simp add: identity_of_def)
  qed
  moreover have "\<exists>i. resolve_emitted es s = Some i \<and> entry_key i = (k, ns, l)"
    if "emitted_for es k ns l = Inr s" for k ns l s
    using that res unfolding emitted_for_def by (elim unique_matchD) (auto simp: entry_key_def)
  moreover have "\<exists>i. resolve_emitted es s = Some i \<and> ti_kind i = k \<and> ti_local_name i = n"
    if "named_choice es (RequiredNamed k n) = Inr (Some s)" for k n s
    using that res by (auto simp: res_simps elim!: unique_matchD)
  ultimately show ?thesis by simp
qed

theorem tool_names_roundtrip_witness:
  "emitted_for sample_projection Function (Some ''fs'') ''rm'' = Inr ''fs__rm''
    \<and> (\<exists>i. resolve_emitted sample_projection ''fs__rm'' = Some i \<and> ti_local_name i = ''rm'')"
proof -
  have "(Some ''fs'', sample_tool ''rm'') \<in> set (all_declarations sample_request)"
    by (simp add: all_declarations_def sample_request_def)
  with tool_names_roundtrip [OF sample_projected]
  have "emitted_for sample_projection (tl_kind (sample_tool ''rm'')) (Some ''fs'') (tl_name (sample_tool ''rm''))
        = Inr (emitted_name_of (Some ''fs'', sample_tool ''rm''))
      \<and> resolve_emitted sample_projection (emitted_name_of (Some ''fs'', sample_tool ''rm''))
        = Some (identity_of (Some ''fs'', sample_tool ''rm''))"
    by fastforce
  then show ?thesis by (simp add: sample_tool_def emitted_name_of_def identity_of_def)
qed

end
