(* ===== verification/Eligibility.thy ===== *)
theory Eligibility
  imports Candidate_Profile Tool_Projection
begin

text \<open>
  The planner's facts about a candidate and the gates it passes before it may be ranked
  (\<^verbatim>\<open>gateway/src/planning/{types,eligibility}.rs\<close>). The gates run in the order of the code, the
  first refusal is the exclusion reason. \<open>evaluate_candidate\<close> is total and reads nothing but the
  request, the candidate and the policy.
\<close>

datatype cost_class = Free | Subscription | Paid | CostUnknown
datatype cost_policy = StrictFree | SubscriptionAndFree | BudgetedPaid | ExplicitFixed
datatype cache_cost = NoCache | EligibleUnconfirmed | ConfirmedCache u64
datatype paid_quote = QuoteNotRequired | QuoteAvailable u64 | QuoteUnavailable

datatype exclusion =
    ProtocolPathExcluded | VisionExcluded | ImageSourceExcluded | ToolInterfaceExcluded | ToolChoiceExcluded
  | ToolRoundtripExcluded | ReasoningMismatch | ContextLimitUnknown | ContextTooLarge | MaxOutputUnsupported
  | StreamFeatureUnsupported | StateAffinityMismatch | OpaqueStateUnportable | CostPolicyExcluded
  | PaidBudgetQuoteUnavailable | QualityAnchorUnavailable | RatingUnknown | RatingGuardExcluded
  | StaticPlanExcluded | DuplicateCandidate

record request_limits =
  rl_max_candidate_bindings :: nat
  rl_max_attempts :: nat
  rl_deadline_cap_ms :: u64
  rl_paid_budget_ceiling :: "u64 option"

record candidate_facts =
  cf_schema_version :: string
  cf_candidate_id :: string
  cf_stable_binding_id :: string
  cf_statically_enabled :: bool
  cf_profile :: candidate_profile
  cf_profile_digest :: string
  cf_serialized_bytes :: u64
  cf_projection_exclusion :: "exclusion option"
  cf_score :: "int option"
  cf_cost_class :: cost_class
  cf_api_cost :: "u64 option"
  cf_cache_cost :: cache_cost
  cf_cache_affinity :: bool
  cf_scope_order :: nat
  cf_paid_quote :: paid_quote

definition effective_cost :: "candidate_facts \<Rightarrow> u64 option" where
  "effective_cost c = (case cf_cache_cost c of ConfirmedCache v \<Rightarrow> Some v | _ \<Rightarrow> cf_api_cost c)"

definition affinity_penalty :: "candidate_facts \<Rightarrow> nat" where
  "affinity_penalty c =
    (if cf_cache_affinity c \<or> (case cf_cache_cost c of NoCache \<Rightarrow> False | _ \<Rightarrow> True) then 0 else 1)"

text \<open>\<open>seal\<close> fixes the default facts; the digest of the profile is computed outside.\<close>

definition seal_facts ::
  "(candidate_profile \<Rightarrow> 'e + string) \<Rightarrow> string \<Rightarrow> string \<Rightarrow> candidate_profile \<Rightarrow> u64 \<Rightarrow> int option \<Rightarrow> cost_class
   \<Rightarrow> u64 option \<Rightarrow> 'e + candidate_facts" where
  "seal_facts digest cid bid p bytes score class cost =
    and_then (digest p) (\<lambda>d. Inr
      \<lparr>cf_schema_version = ''hiroute.planner-candidate-facts/v1'', cf_candidate_id = cid,
       cf_stable_binding_id = bid, cf_statically_enabled = True, cf_profile = p, cf_profile_digest = d,
       cf_serialized_bytes = bytes, cf_projection_exclusion = None, cf_score = score, cf_cost_class = class,
       cf_api_cost = cost, cf_cache_cost = NoCache, cf_cache_affinity = False, cf_scope_order = 0,
       cf_paid_quote = (if class = Paid then QuoteUnavailable else QuoteNotRequired)\<rparr>)"

section \<open>The gates\<close>

definition protocol_gate :: "requirements \<Rightarrow> candidate_profile \<Rightarrow> exclusion + unit" where
  "protocol_gate n p =
    (let k = cpr_capability p; f = cap_request k; g = cap_response k
     in if \<not> profile_identified p
          \<or> need_ingress_protocol n \<noteq> cpr_ingress_protocol p
          \<or> cap_upstream_protocol k \<noteq> cp_upstream_protocol (cpr_connector p)
          \<or> \<not> is_ok (exact_provider_path p) \<or> \<not> critical_facts_are_exact (cpr_connector p)
        then Inl ProtocolPathExcluded
        else if \<not> exact_if (need_text n) (rf_text f)
          \<or> \<not> exact_if (need_initial_instructions n) (rf_initial_instructions f)
          \<or> \<not> exact_if (need_mid_conversation_instructions n) (rf_mid_conversation_instructions f)
        then Inl ProtocolPathExcluded
        else if list_ex (\<lambda>x. x \<noteq> Exact)
          [sf_text g, sf_reasoning g, sf_refusal g, sf_usage g, sf_finish_reason g, sf_typed_error g]
        then Inl ProtocolPathExcluded
        else Inr ())"

definition tool_projection_gate :: "'v model_request \<Rightarrow> candidate_profile \<Rightarrow> exclusion + unit" where
  "tool_projection_gate q p =
    (if rq_ingress_protocol q \<noteq> Responses then Inr ()
     else case cap_upstream_protocol (cpr_capability p) of
            Responses \<Rightarrow> Inr ()
          | ChatCompletions \<Rightarrow> (case for_request q of Inr _ \<Rightarrow> Inr () | Inl _ \<Rightarrow> Inl ToolInterfaceExcluded)
          | Messages \<Rightarrow>
             (if rq_tool_namespaces q \<noteq> [] \<or> list_ex (\<lambda>t. tl_kind t = Custom) (request_tools q)
              then Inl ToolInterfaceExcluded else Inr ()))"

definition vision_gate :: "requirements \<Rightarrow> candidate_profile \<Rightarrow> exclusion + unit" where
  "vision_gate n p =
    (let f = cap_request (cpr_capability p)
     in if \<not> exact_if (need_image_url n) (rf_image_url f) \<or> \<not> exact_if (need_image_base64 n) (rf_image_base64 f)
        then Inl VisionExcluded
        else if need_image_base64 n \<and> \<not> media_types_supported n f then Inl ImageSourceExcluded
        else Inr ())"

definition tools_active :: "requirements \<Rightarrow> bool" where
  "tools_active n \<longleftrightarrow> need_function_tools n \<and> need_tool_choice n \<noteq> NoChoice"

definition tool_gate :: "requirements \<Rightarrow> candidate_profile \<Rightarrow> exclusion + unit" where
  "tool_gate n p =
    (let f = cap_request (cpr_capability p); g = cap_response (cpr_capability p); active = tools_active n
     in if \<not> exact_if active (rf_function_tools f)
          \<or> \<not> exact_if (active \<and> need_strict_tools n) (rf_strict_tools f)
          \<or> \<not> exact_if (active \<and> need_parallel_tools n) (rf_parallel_tools f)
          \<or> \<not> exact_if active (sf_tool_calls g)
          \<or> \<not> exact_if (active \<and> need_tool_id_mapping n) (sf_tool_id_mapping g)
        then Inl ToolInterfaceExcluded
        else if active \<and> choice_fidelity (need_tool_choice n) f \<noteq> Exact then Inl ToolChoiceExcluded
        else if \<not> exact_if (need_tool_roundtrip n) (rf_tool_roundtrip f)
          \<or> \<not> exact_if (need_tool_result_text n) (rf_tool_result_text f)
          \<or> \<not> exact_if (need_tool_result_json n) (rf_tool_result_json f)
          \<or> \<not> exact_if (need_tool_id_mapping n) (rf_tool_id_mapping f)
        then Inl ToolRoundtripExcluded
        else Inr ())"

definition reasoning_gate :: "candidate_profile \<Rightarrow> exclusion + reasoning_profile" where
  "reasoning_gate p =
    (if \<not> reasoning_profiles_valid (cpr_capability p) then Inl ReasoningMismatch
     else case selected_reasoning p of Inl _ \<Rightarrow> Inl ReasoningMismatch | Inr r \<Rightarrow> Inr r)"

definition has_exact_reasoning :: "candidate_facts \<Rightarrow> bool" where
  "has_exact_reasoning c = is_ok (reasoning_gate (cf_profile c))"

fun context_exclusion :: "context_error \<Rightarrow> exclusion" where
  "context_exclusion (InputTooLarge _ _) = ContextTooLarge"
| "context_exclusion (TotalTooLarge _ _) = ContextTooLarge"
| "context_exclusion (UnknownLimit _) = ContextLimitUnknown"
| "context_exclusion UnknownEstimator = ContextLimitUnknown"
| "context_exclusion ContextOverflow = ContextLimitUnknown"

definition context_gate :: "candidate_facts \<Rightarrow> reasoning_profile \<Rightarrow> exclusion + context_demand" where
  "context_gate c r =
    (let L = cap_context (cpr_capability (cf_profile c))
     in if exact_fact (cl_max_output_tokens L) = None \<or> exact_fact (cl_max_output_tokens L) = Some 0
        then Inl MaxOutputUnsupported
        else if exact_fact (cl_max_input_tokens L) = None \<or> exact_fact (cl_max_total_tokens L) = None
          \<or> exact_fact (cl_estimator L) = None
        then Inl ContextLimitUnknown
        else case project_serialized_len (cf_serialized_bytes c) L r of
               Inl e \<Rightarrow> Inl (context_exclusion e) | Inr d \<Rightarrow> Inr d)"

definition streaming_gate :: "requirements \<Rightarrow> candidate_profile \<Rightarrow> exclusion + unit" where
  "streaming_gate n p =
    (let k = cpr_capability p; g = cap_response k
     in if \<not> need_streaming n then Inr ()
        else if exact_fact (cap_native_streaming k) \<noteq> Some True then Inl StreamFeatureUnsupported
        else if \<not> exact_if (need_stream_text n) (sf_stream_text_delta g)
          \<or> \<not> exact_if (need_stream_tool_arguments n) (sf_stream_tool_arguments g)
          \<or> \<not> exact_if (need_stream_reasoning n) (sf_stream_reasoning g)
          \<or> \<not> exact_if (need_stream_usage n) (sf_stream_usage g)
          \<or> \<not> valid_stream_refusal (cap_upstream_protocol k) (sf_stream_refusal g)
        then Inl StreamFeatureUnsupported
        else Inr ())"

definition state_owners :: "'v model_request \<Rightarrow> provider_path list" where
  "state_owners q = map os_owner (rq_provider_state q)
     @ concat (map (\<lambda>p. case p of ProviderStatePart s \<Rightarrow> [os_owner s] | _ \<Rightarrow> []) (request_parts q))"

definition state_gate :: "'v model_request \<Rightarrow> requirements \<Rightarrow> candidate_profile \<Rightarrow> exclusion + unit" where
  "state_gate q n p =
    (case exact_provider_path p of
       Inl _ \<Rightarrow> Inl StateAffinityMismatch
     | Inr owner \<Rightarrow>
        (let f = cap_request (cpr_capability p); g = cap_response (cpr_capability p)
         in if need_provider_state n \<and> (rf_provider_state f \<noteq> Exact \<or> rf_state_affinity f \<noteq> ExactOwner)
            then Inl OpaqueStateUnportable
            else if list_ex (\<lambda>x. x \<noteq> owner) (state_owners q) then Inl StateAffinityMismatch
            else case cap_native_state (cpr_capability p) of
                   NeverEmitted \<Rightarrow> Inr ()
                 | EmissionUnknown \<Rightarrow> Inl OpaqueStateUnportable
                 | ExactOwnerAffine \<Rightarrow>
                    (if rf_provider_state f \<noteq> Exact \<or> rf_state_affinity f \<noteq> ExactOwner
                      \<or> sf_provider_state g \<noteq> Exact \<or> sf_state_affinity g \<noteq> ExactOwner
                     then Inl OpaqueStateUnportable else Inr ())))"

definition class_allowed :: "cost_policy \<Rightarrow> cost_class \<Rightarrow> bool" where
  "class_allowed policy class =
    (case policy of
       StrictFree \<Rightarrow> class = Free
     | SubscriptionAndFree \<Rightarrow> class = Free \<or> class = Subscription
     | BudgetedPaid \<Rightarrow> class \<noteq> CostUnknown
     | ExplicitFixed \<Rightarrow> True)"

definition static_cost_gate :: "candidate_facts \<Rightarrow> cost_policy \<Rightarrow> request_limits \<Rightarrow> exclusion + unit" where
  "static_cost_gate c policy lim =
    (if \<not> cf_statically_enabled c then Inl StaticPlanExcluded
     else if \<not> class_allowed policy (cf_cost_class c) then Inl CostPolicyExcluded
     else if policy = BudgetedPaid \<and> cf_cost_class c = Paid then
       (case rl_paid_budget_ceiling lim of
          None \<Rightarrow> Inl PaidBudgetQuoteUnavailable
        | Some ceiling \<Rightarrow>
           (case cf_paid_quote c of
              QuoteAvailable quote \<Rightarrow> if ceiling < quote then Inl PaidBudgetQuoteUnavailable else Inr ()
            | _ \<Rightarrow> Inl PaidBudgetQuoteUnavailable))
     else Inr ())"

record projection =
  pj_reasoning_profile_id :: string
  pj_context :: context_demand
  pj_effective_cost :: "u64 option"

definition evaluate_candidate ::
  "'v model_request \<Rightarrow> candidate_facts \<Rightarrow> cost_policy \<Rightarrow> request_limits \<Rightarrow> exclusion + projection" where
  "evaluate_candidate q c policy lim =
    (let n = requirements_of q; p = cf_profile c
     in and_then (protocol_gate n p) (\<lambda>_.
        and_then (case cf_projection_exclusion c of Some x \<Rightarrow> Inl x | None \<Rightarrow> Inr ()) (\<lambda>_.
        and_then (tool_projection_gate q p) (\<lambda>_.
        and_then (vision_gate n p) (\<lambda>_.
        and_then (tool_gate n p) (\<lambda>_.
        and_then (reasoning_gate p) (\<lambda>r.
        and_then (context_gate c r) (\<lambda>d.
        and_then (streaming_gate n p) (\<lambda>_.
        and_then (state_gate q n p) (\<lambda>_.
        and_then (static_cost_gate c policy lim) (\<lambda>_.
        Inr \<lparr>pj_reasoning_profile_id = rp_profile_id r, pj_context = d,
             pj_effective_cost = effective_cost c\<rparr>)))))))))))"

section \<open>What an eligible candidate offers\<close>

lemma evaluated:
  assumes "evaluate_candidate q c policy lim = Inr j"
  obtains r where "protocol_gate (requirements_of q) (cf_profile c) = Inr ()" "cf_projection_exclusion c = None"
    "tool_projection_gate q (cf_profile c) = Inr ()" "vision_gate (requirements_of q) (cf_profile c) = Inr ()"
    "tool_gate (requirements_of q) (cf_profile c) = Inr ()" "reasoning_gate (cf_profile c) = Inr r"
    "context_gate c r = Inr (pj_context j)" "streaming_gate (requirements_of q) (cf_profile c) = Inr ()"
    "state_gate q (requirements_of q) (cf_profile c) = Inr ()" "static_cost_gate c policy lim = Inr ()"
    "pj_reasoning_profile_id j = rp_profile_id r" "pj_effective_cost j = effective_cost c"
  using assms by (auto simp: evaluate_candidate_def Let_def res_simps split: option.splits)

lemma class_allowed_eligible:
  "evaluate_candidate q c policy lim = Inr j \<Longrightarrow> cf_statically_enabled c \<and> class_allowed policy (cf_cost_class c)"
  by (erule evaluated) (auto simp: static_cost_gate_def split: if_splits)

lemma requirements_consistent:
  "need_streaming (requirements_of q) = rq_stream q"
  "need_function_tools (requirements_of q) = (request_tools q \<noteq> [])"
  "need_strict_tools (requirements_of q) = list_ex (\<lambda>t. tl_kind t = Function \<and> tl_strict t \<noteq> None) (request_tools q)"
  "need_tool_choice (requirements_of q) = rq_tool_choice q"
  "need_stream_text (requirements_of q) = rq_stream q"
  "need_stream_reasoning (requirements_of q) = rq_stream q"
  "need_stream_usage (requirements_of q) = rq_stream q"
  "need_stream_tool_arguments (requirements_of q) = (rq_stream q \<and> tools_active (requirements_of q))"
  "tools_active (requirements_of q) \<Longrightarrow> need_tool_id_mapping (requirements_of q)"
proof -
  have r: "requirements_of q = fold require_part (request_parts q) (base_requirements q)"
    by (simp add: requirements_of_def)
  have s: "sorted (need_image_media_types (base_requirements q))" "distinct (need_image_media_types (base_requirements q))"
    by (simp_all add: base_requirements_def split_beta Let_def)
  have t: "(rq_tools q = [] \<longrightarrow> list_ex (\<lambda>n. ns_tools n \<noteq> []) (rq_tool_namespaces q)) = (request_tools q \<noteq> [])"
    by (auto simp: request_tools_def list_ex_iff)
  show "need_streaming (requirements_of q) = rq_stream q"
    "need_function_tools (requirements_of q) = (request_tools q \<noteq> [])"
    "need_strict_tools (requirements_of q) = list_ex (\<lambda>t. tl_kind t = Function \<and> tl_strict t \<noteq> None) (request_tools q)"
    "need_tool_choice (requirements_of q) = rq_tool_choice q"
    "need_stream_text (requirements_of q) = rq_stream q"
    "need_stream_reasoning (requirements_of q) = rq_stream q"
    "need_stream_usage (requirements_of q) = rq_stream q"
    "need_stream_tool_arguments (requirements_of q) = (rq_stream q \<and> tools_active (requirements_of q))"
    "tools_active (requirements_of q) \<Longrightarrow> need_tool_id_mapping (requirements_of q)"
    unfolding r require_parts [OF s] tools_active_def
    by (simp_all add: base_requirements_def split_beta Let_def t)
qed

lemma gate_reasoning:
  "reasoning_gate p = Inr r \<Longrightarrow> reasoning_profiles_valid (cpr_capability p) \<and> selected_reasoning p = Inr r"
  by (auto simp: reasoning_gate_def split: if_splits sum.splits)

section \<open>Properties\<close>

text \<open>
  C39. The planner's gates imply the adapter's validation: for a request that declares no tools
  it forbids to call and asks for parallel tool calls only with active tools, a candidate the
  planner finds eligible passes the profile validation the serializer performs later, with the
  reasoning profile the planner recorded.
\<close>

theorem eligible_profile_validates:
  assumes "evaluate_candidate q c policy lim = Inr j"
    and "rq_tool_choice q \<noteq> NoChoice \<or> request_tools q = []"
    and "need_parallel_tools (requirements_of q) \<longrightarrow> tools_active (requirements_of q)"
  shows "\<exists>r. validate_profile (cf_profile c) (requirements_of q) = Inr r \<and> rp_profile_id r = pj_reasoning_profile_id j
    \<and> project_serialized_len (cf_serialized_bytes c) (cap_context (cpr_capability (cf_profile c))) r = Inr (pj_context j)"
proof -
  let ?n = "requirements_of q" and ?p = "cf_profile c"
  obtain r where g: "protocol_gate ?n ?p = Inr ()" "vision_gate ?n ?p = Inr ()" "tool_gate ?n ?p = Inr ()"
      "reasoning_gate ?p = Inr r" "context_gate c r = Inr (pj_context j)" "streaming_gate ?n ?p = Inr ()"
      "state_gate q ?n ?p = Inr ()" "pj_reasoning_profile_id j = rp_profile_id r"
    using evaluated [OF assms(1)] by metis
  have active: "tools_active ?n \<longleftrightarrow> need_function_tools ?n"
    using assms(2) by (auto simp: tools_active_def requirements_consistent)
  have strict: "need_strict_tools ?n \<Longrightarrow> need_function_tools ?n"
    by (auto simp: requirements_consistent)
  have ctx: "project_serialized_len (cf_serialized_bytes c) (cap_context (cpr_capability ?p)) r = Inr (pj_context j)"
    using g(5) by (auto simp: context_gate_def Let_def split: if_splits sum.splits)
  have sel: "reasoning_profiles_valid (cpr_capability ?p)" "selected_reasoning ?p = Inr r"
    using gate_reasoning [OF g(4)] by simp_all
  have "list_all fst (validate_checks ?p ?n)"
    unfolding validate_checks_def Let_def list.pred_inject fst_conv
    using sel(1) g(1,2,3,6,7) assms(3) strict active requirements_consistent(1,5-9) [of q]
    by (auto simp: protocol_gate_def vision_gate_def tool_gate_def streaming_gate_def state_gate_def exact_if_def Let_def
        exact_provider_path_def split: if_splits sum.splits state_emission.splits)
  then show ?thesis using sel(2) g(8) ctx by (auto simp: validate_profile_def res_simps)
qed

definition toggle_reasoning :: reasoning_profile where
  "toggle_reasoning = \<lparr>rp_profile_id = ''high'', rp_control_kind = Fixed, rp_render = NoControlParameter,
     rp_accounting = WithinOutputCap, rp_additional_tokens = 0\<rparr>"

definition portable_facts :: "string \<Rightarrow> protocol \<Rightarrow> cost_class \<Rightarrow> int option \<Rightarrow> candidate_facts" where
  "portable_facts cid p class score =
    \<lparr>cf_schema_version = ''hiroute.planner-candidate-facts/v1'', cf_candidate_id = cid,
     cf_stable_binding_id = ''b-'' @ cid, cf_statically_enabled = True,
     cf_profile = exact_portable_path Responses p ''m'' toggle_reasoning, cf_profile_digest = ''d'',
     cf_serialized_bytes = 1000, cf_projection_exclusion = None, cf_score = score, cf_cost_class = class,
     cf_api_cost = None, cf_cache_cost = NoCache, cf_cache_affinity = False, cf_scope_order = 0,
     cf_paid_quote = QuoteNotRequired\<rparr>"

definition sample_request_limits :: request_limits where
  "sample_request_limits = \<lparr>rl_max_candidate_bindings = 2, rl_max_attempts = 2, rl_deadline_cap_ms = 1000,
     rl_paid_budget_ceiling = None\<rparr>"

definition sample_demand :: context_demand where
  "sample_demand = \<lparr>cd_serialized_bytes = 1000, cd_input_upper_bound = 1000, cd_output_cap = 256,
     cd_reasoning_reservation = 0, cd_required_total = 1256, cd_estimator_revision = ''byte-upper-bound/v1''\<rparr>"

definition sample_projection_of :: projection where
  "sample_projection_of = \<lparr>pj_reasoning_profile_id = ''high'', pj_context = sample_demand, pj_effective_cost = None\<rparr>"

definition sample_needs :: requirements where
  "sample_needs =
    \<lparr>need_ingress_protocol = Responses, need_text = True, need_initial_instructions = False,
     need_mid_conversation_instructions = False, need_image_url = False, need_image_base64 = False,
     need_image_media_types = [], need_function_tools = True, need_strict_tools = False, need_tool_choice = Auto,
     need_parallel_tools = True, need_tool_roundtrip = True, need_tool_result_text = False,
     need_tool_result_json = False, need_tool_id_mapping = True, need_streaming = True, need_stream_text = True,
     need_stream_tool_arguments = True, need_stream_reasoning = True, need_stream_usage = True,
     need_provider_state = False\<rparr>"

lemma sample_requirements: "requirements_of sample_request = sample_needs"
  by (simp add: requirements_of_def base_requirements_def request_parts_def sample_request_def sample_tool_def
      instruction_message_def request_tools_def sample_needs_def)

lemma toggle_valid: "reasoning_valid_for toggle_reasoning p"
  by (simp add: toggle_reasoning_def reasoning_valid_for_def valid_assignments_def)

lemma sample_eligible:
  "evaluate_candidate sample_request (portable_facts ''c1'' Responses Free None) StrictFree sample_request_limits
     = Inr sample_projection_of"
proof -
  let ?p = "exact_portable_path Responses Responses ''m'' toggle_reasoning" and ?c = "portable_facts ''c1'' Responses Free None"
  have p: "cf_profile ?c = ?p" by (simp add: portable_facts_def)
  have m: "\<not> blank ''m''" by simp
  note features = portable_request_def portable_response_def unless_messages_def sample_needs_def
  have "protocol_gate sample_needs ?p = Inr ()"
    using portable_complete [OF m, of Responses Responses toggle_reasoning]
    by (simp add: protocol_gate_def exact_provider_path_def features del: portable_sel(7))
  moreover have "tool_projection_gate sample_request ?p = Inr ()" "vision_gate sample_needs ?p = Inr ()"
      "tool_gate sample_needs ?p = Inr ()" "streaming_gate sample_needs ?p = Inr ()"
    by (simp_all add: tool_projection_gate_def vision_gate_def tool_gate_def streaming_gate_def tools_active_def
        features valid_stream_refusal_def)
  moreover have "state_gate sample_request sample_needs ?p = Inr ()"
    using portable_complete(2) [OF m]
    by (simp add: state_gate_def exact_provider_path_def features state_owners_def sample_request_def request_parts_def)
  moreover have "reasoning_gate ?p = Inr toggle_reasoning"
    by (simp add: reasoning_gate_def selected_reasoning_def reasoning_profiles_valid_def toggle_valid)
  moreover have "context_gate ?c toggle_reasoning = Inr sample_demand"
    by (simp add: context_gate_def project_serialized_len_def estimate_def reasoning_reservation_def
        portable_facts_def portable_context_def toggle_reasoning_def sample_demand_def Let_def checked_add_def usize_max_def)
  moreover have "static_cost_gate ?c StrictFree sample_request_limits = Inr ()" "cf_projection_exclusion ?c = None"
      "effective_cost ?c = None" "rp_profile_id toggle_reasoning = ''high''"
    by (simp_all add: static_cost_gate_def class_allowed_def effective_cost_def portable_facts_def toggle_reasoning_def)
  ultimately show ?thesis
    by (simp add: evaluate_candidate_def sample_requirements p sample_projection_of_def Let_def)
qed

theorem eligible_profile_validates_witness:
  "\<exists>r. validate_profile (exact_portable_path Responses Responses ''m'' toggle_reasoning) (requirements_of sample_request) = Inr r
    \<and> rp_profile_id r = ''high''"
proof -
  have "rq_tool_choice sample_request \<noteq> NoChoice" by (simp add: sample_request_def)
  moreover have "tools_active (requirements_of sample_request)"
    by (simp add: tools_active_def requirements_consistent) (simp add: sample_request_def request_tools_def)
  ultimately show ?thesis
    using eligible_profile_validates [OF sample_eligible]
    by (auto simp: portable_facts_def sample_projection_of_def)
qed

text \<open>
  Eligibility respects the published policy: an eligible candidate is enabled, of a cost
  class the policy allows, under a budget only with a quote within the ceiling, and every piece
  of opaque provider state in the request belongs to exactly this provider path.
\<close>

theorem eligible_within_policy:
  assumes "evaluate_candidate q c policy lim = Inr j"
  shows "cf_statically_enabled c \<and> class_allowed policy (cf_cost_class c)
    \<and> (policy = BudgetedPaid \<and> cf_cost_class c = Paid \<longrightarrow>
        (\<exists>quote ceiling. cf_paid_quote c = QuoteAvailable quote \<and> rl_paid_budget_ceiling lim = Some ceiling \<and> quote \<le> ceiling))
    \<and> list_all (\<lambda>o'. o' = owner_of (cf_profile c)) (state_owners q)
    \<and> pj_effective_cost j = effective_cost c"
proof -
  have "static_cost_gate c policy lim = Inr ()" "state_gate q (requirements_of q) (cf_profile c) = Inr ()"
      "pj_effective_cost j = effective_cost c"
    using evaluated [OF assms] by metis+
  then show ?thesis
    by (auto simp: static_cost_gate_def state_gate_def exact_provider_path_def Let_def list_ex_iff list_all_iff
        split: if_splits option.splits paid_quote.splits)
qed

theorem eligible_within_policy_witness:
  "class_allowed StrictFree (cf_cost_class (portable_facts ''c1'' Responses Free None))
    \<and> pj_effective_cost sample_projection_of = effective_cost (portable_facts ''c1'' Responses Free None)"
  using eligible_within_policy [OF sample_eligible] by blast

end
