(* ===== verification/Ranking.thy ===== *)
theory Ranking
  imports Eligibility "HOL-Library.Product_Lexorder" "HOL-Library.Option_ord"
begin

text \<open>
  Ranking of the eligible candidates of a group (\<^verbatim>\<open>gateway/src/planning/ranking.rs\<close>). The two
  comparators are chains of \<open>cmp\<close> and \<open>then_with\<close> as in the code; \<open>sort_by\<close> of the standard
  library is the stable sort by a comparator. Comparators that order like a key are total
  preorders (locale \<open>comparator\<close>), for which the sort is proved sorted, a permutation and stable
  once; both comparators interpret the locale.
\<close>

datatype ordering = Less | Equal | Greater

definition cmp :: "'a::linorder \<Rightarrow> 'a \<Rightarrow> ordering" where
  "cmp a b = (if a < b then Less else if a = b then Equal else Greater)"

fun then_with :: "ordering \<Rightarrow> ordering \<Rightarrow> ordering" where
  "then_with Equal o2 = o2"
| "then_with o1 _ = o1"

fun insert_by :: "('a \<Rightarrow> 'a \<Rightarrow> ordering) \<Rightarrow> 'a \<Rightarrow> 'a list \<Rightarrow> 'a list" where
  "insert_by c x [] = [x]"
| "insert_by c x (y # ys) = (if c x y = Greater then y # insert_by c x ys else x # y # ys)"

fun sort_by :: "('a \<Rightarrow> 'a \<Rightarrow> ordering) \<Rightarrow> 'a list \<Rightarrow> 'a list" where
  "sort_by c [] = []"
| "sort_by c (x # xs) = insert_by c x (sort_by c xs)"

locale comparator =
  fixes c :: "'a \<Rightarrow> 'a \<Rightarrow> ordering"
  assumes refl: "c x x = Equal"
    and antisym: "c x y = Greater \<longleftrightarrow> c y x = Less"
    and trans: "c x y \<noteq> Greater \<Longrightarrow> c y z \<noteq> Greater \<Longrightarrow> c x z \<noteq> Greater"
begin

lemma greater_not: "c x y = Greater \<Longrightarrow> c y x \<noteq> Greater"
  using antisym by (metis ordering.distinct(3))

lemma equal_sym: "c x y = Equal \<longleftrightarrow> c y x = Equal"
  using antisym by (metis ordering.exhaust ordering.distinct)

lemma mset_insert_by: "mset (insert_by c x xs) = add_mset x (mset xs)"
  by (induction xs) auto

lemma mset_sort_by: "mset (sort_by c xs) = mset xs"
  by (induction xs) (simp_all add: mset_insert_by)

lemma set_sort_by: "set (sort_by c xs) = set xs"
  by (metis mset_sort_by set_mset_mset)

lemma insert_by_sorted:
  "sorted_wrt (\<lambda>a b. c a b \<noteq> Greater) xs \<Longrightarrow> sorted_wrt (\<lambda>a b. c a b \<noteq> Greater) (insert_by c x xs)"
proof (induction xs)
  case (Cons y ys)
  show ?case
  proof (cases "c x y = Greater")
    case True
    have "set (insert_by c x ys) = insert x (set ys)" by (metis mset_insert_by set_mset_add_mset_insert set_mset_mset)
    then show ?thesis using True Cons greater_not by auto
  next
    case False
    then show ?thesis using Cons.prems trans by auto
  qed
qed simp

lemma sort_by_sorted: "sorted_wrt (\<lambda>a b. c a b \<noteq> Greater) (sort_by c xs)"
  by (induction xs) (auto intro: insert_by_sorted)

lemma insert_by_filter:
  assumes "sorted_wrt (\<lambda>a b. c a b \<noteq> Greater) xs"
  shows "filter (\<lambda>y. c y z = Equal) (insert_by c x xs) = filter (\<lambda>y. c y z = Equal) (x # xs)"
  using assms
proof (induction xs)
  case (Cons y ys)
  have "c x z = Equal \<Longrightarrow> c y z = Equal \<Longrightarrow> c x y \<noteq> Greater"
    using equal_sym trans [of x z y] by (metis ordering.distinct(5))
  then show ?case using Cons by (auto split: if_splits)
qed simp

lemma sort_by_stable: "filter (\<lambda>y. c y z = Equal) (sort_by c xs) = filter (\<lambda>y. c y z = Equal) xs"
  by (induction xs) (simp_all add: insert_by_filter [OF sort_by_sorted])

end

lemma comparator_key: "comparator (\<lambda>x y. cmp (k x) (k y))"
  by unfold_locales (auto simp: cmp_def split: if_splits)

lemma cmp_pair: "cmp (a, b) (a', b') = then_with (cmp a a') (cmp b b')"
  by (auto simp: cmp_def)

section \<open>The comparators\<close>

record ranking_entry =
  re_candidate :: candidate_facts
  re_projection :: projection
  re_declared_order :: nat

fun class_order :: "cost_class \<Rightarrow> nat" where
  "class_order Free = 0" | "class_order Subscription = 1" | "class_order Paid = 2" | "class_order CostUnknown = 3"

definition cost_of :: "ranking_entry \<Rightarrow> u64 option" where
  "cost_of e = pj_effective_cost (re_projection e)"

definition unwrap_or :: "'a \<Rightarrow> 'a option \<Rightarrow> 'a" where
  "unwrap_or d v = (case v of None \<Rightarrow> d | Some x \<Rightarrow> x)"

definition tie_cmp :: "ranking_entry \<Rightarrow> ranking_entry \<Rightarrow> ordering" where
  "tie_cmp l r =
     then_with (cmp (affinity_penalty (re_candidate l)) (affinity_penalty (re_candidate r)))
    (then_with (cmp (class_order (cf_cost_class (re_candidate l))) (class_order (cf_cost_class (re_candidate r))))
    (then_with (cmp (cf_scope_order (re_candidate l)) (cf_scope_order (re_candidate r)))
    (then_with (cmp (re_declared_order l) (re_declared_order r))
               (cmp (cf_stable_binding_id (re_candidate l)) (cf_stable_binding_id (re_candidate r))))))"

definition quality_first_cmp :: "ranking_entry \<Rightarrow> ranking_entry \<Rightarrow> ordering" where
  "quality_first_cmp l r =
     then_with (cmp (cf_score (re_candidate r)) (cf_score (re_candidate l)))
    (then_with (cmp (cost_of l = None) (cost_of r = None))
    (then_with (cmp (unwrap_or usize_max (cost_of l)) (unwrap_or usize_max (cost_of r)))
               (tie_cmp l r)))"

definition cheapest_guard_cmp :: "ranking_entry \<Rightarrow> ranking_entry \<Rightarrow> ordering" where
  "cheapest_guard_cmp l r =
     then_with (cmp (cost_of l = None) (cost_of r = None))
    (then_with (cmp (unwrap_or usize_max (cost_of l)) (unwrap_or usize_max (cost_of r)))
    (then_with (cmp (cf_score (re_candidate r)) (cf_score (re_candidate l)))
               (tie_cmp l r)))"

text \<open>A score in descending order, with the unrated last.\<close>

definition score_key :: "int option \<Rightarrow> nat \<times> int" where
  "score_key s = (case s of None \<Rightarrow> (1, 0) | Some v \<Rightarrow> (0, - v))"

lemma cmp_score: "cmp s t = cmp (score_key t) (score_key s)"
  by (cases s; cases t) (auto simp: cmp_def score_key_def)

definition tie_key :: "ranking_entry \<Rightarrow> nat \<times> nat \<times> nat \<times> nat \<times> string" where
  "tie_key e = (affinity_penalty (re_candidate e), class_order (cf_cost_class (re_candidate e)),
     cf_scope_order (re_candidate e), re_declared_order e, cf_stable_binding_id (re_candidate e))"

definition quality_key :: "ranking_entry \<Rightarrow> (nat \<times> int) \<times> bool \<times> u64 \<times> nat \<times> nat \<times> nat \<times> nat \<times> string" where
  "quality_key e = (score_key (cf_score (re_candidate e)), cost_of e = None, unwrap_or usize_max (cost_of e), tie_key e)"

definition cheapest_key :: "ranking_entry \<Rightarrow> bool \<times> u64 \<times> (nat \<times> int) \<times> nat \<times> nat \<times> nat \<times> nat \<times> string" where
  "cheapest_key e = (cost_of e = None, unwrap_or usize_max (cost_of e), score_key (cf_score (re_candidate e)), tie_key e)"

lemma quality_first_key: "quality_first_cmp = (\<lambda>l r. cmp (quality_key l) (quality_key r))"
  by (intro ext) (simp add: quality_first_cmp_def quality_key_def tie_cmp_def tie_key_def cmp_pair cmp_score)

lemma cheapest_guard_key: "cheapest_guard_cmp = (\<lambda>l r. cmp (cheapest_key l) (cheapest_key r))"
  by (intro ext) (simp add: cheapest_guard_cmp_def cheapest_key_def tie_cmp_def tie_key_def cmp_pair cmp_score)

interpretation quality: comparator quality_first_cmp
  unfolding quality_first_key by (rule comparator_key)

interpretation cheapest: comparator cheapest_guard_cmp
  unfolding cheapest_guard_key by (rule comparator_key)

section \<open>Ranking a group\<close>

datatype group_policy = Manual | QualityFirst | CheapestWithRatingGuard string nat

record model_group =
  mg_group_id :: string
  mg_policy :: group_policy
  mg_candidate_ids :: "string list"

datatype ranking_reason =
    ContextModelHold | PublishedManualOrder | ByQualityFirst | LowestApiEquivalentCost | ConfirmedCacheHold
  | UnconfirmedAffinityTieBreak | StableTieBreak

type_synonym ranked_entry = "ranking_entry \<times> ranking_reason list"
type_synonym group_exclusion = "candidate_facts \<times> nat \<times> exclusion"

definition exclude :: "exclusion \<Rightarrow> ranking_entry \<Rightarrow> group_exclusion" where
  "exclude x e = (re_candidate e, re_declared_order e, x)"

text \<open>\<open>i32::saturating_sub\<close>.\<close>

definition i32_saturating_sub :: "int \<Rightarrow> int \<Rightarrow> int" where
  "i32_saturating_sub a b = max (- (2 ^ 31)) (min (2 ^ 31 - 1) (a - b))"

definition guard_exclusion :: "int \<Rightarrow> ranking_entry \<Rightarrow> exclusion option" where
  "guard_exclusion floor e =
    (case cf_score (re_candidate e) of
       None \<Rightarrow> Some RatingUnknown
     | Some s \<Rightarrow> if s < floor then Some RatingGuardExcluded else None)"

definition quality_exclusion :: "ranking_entry \<Rightarrow> exclusion option" where
  "quality_exclusion e = (if cf_score (re_candidate e) = None then Some RatingUnknown else None)"

definition retain_unexcluded ::
  "(ranking_entry \<Rightarrow> exclusion option) \<Rightarrow> ranking_entry list \<Rightarrow> ranking_entry list \<times> group_exclusion list" where
  "retain_unexcluded x es =
    (filter (\<lambda>e. x e = None) es,
     concat (map (\<lambda>e. case x e of None \<Rightarrow> [] | Some r \<Rightarrow> [exclude r e]) es))"

definition select_eligible ::
  "group_policy \<Rightarrow> ranking_entry list \<Rightarrow> int option \<Rightarrow> ranking_entry list \<times> group_exclusion list" where
  "select_eligible policy es anchor =
    (case policy of
       Manual \<Rightarrow> (es, [])
     | QualityFirst \<Rightarrow>
        (let (kept, out) = retain_unexcluded quality_exclusion es in (sort_by quality_first_cmp kept, out))
     | CheapestWithRatingGuard _ gap \<Rightarrow>
        (case anchor of
           None \<Rightarrow> ([], map (exclude QualityAnchorUnavailable) es)
         | Some a \<Rightarrow>
            (let (kept, out) = retain_unexcluded (guard_exclusion (i32_saturating_sub a (int gap))) es
             in (sort_by cheapest_guard_cmp kept, out))))"

definition same_primary_key :: "group_policy \<Rightarrow> ranking_entry \<Rightarrow> ranking_entry \<Rightarrow> bool" where
  "same_primary_key policy l r \<longleftrightarrow> policy \<noteq> Manual
     \<and> cf_score (re_candidate l) = cf_score (re_candidate r) \<and> cost_of l = cost_of r"

definition confirmed :: "candidate_facts \<Rightarrow> bool" where
  "confirmed c \<longleftrightarrow> (case cf_cache_cost c of ConfirmedCache _ \<Rightarrow> True | _ \<Rightarrow> False)"

definition affinity_winner :: "group_policy \<Rightarrow> ranking_entry list \<Rightarrow> ranking_entry \<Rightarrow> bool" where
  "affinity_winner policy es e \<longleftrightarrow>
     affinity_penalty (re_candidate e) = 0 \<and> \<not> confirmed (re_candidate e)
     \<and> list_ex (\<lambda>x. cf_candidate_id (re_candidate x) \<noteq> cf_candidate_id (re_candidate e)
          \<and> affinity_penalty (re_candidate e) < affinity_penalty (re_candidate x)
          \<and> same_primary_key policy e x) es"

definition affinity_winners :: "group_policy \<Rightarrow> ranking_entry list \<Rightarrow> string list" where
  "affinity_winners policy es = map (\<lambda>e. cf_candidate_id (re_candidate e)) (filter (affinity_winner policy es) es)"

fun policy_reason :: "group_policy \<Rightarrow> ranking_reason" where
  "policy_reason Manual = PublishedManualOrder"
| "policy_reason QualityFirst = ByQualityFirst"
| "policy_reason (CheapestWithRatingGuard _ _) = LowestApiEquivalentCost"

definition ranking_reasons :: "group_policy \<Rightarrow> string list \<Rightarrow> ranking_entry \<Rightarrow> ranking_reason list" where
  "ranking_reasons policy winners e = policy_reason policy #
    (if policy = Manual then []
     else if confirmed (re_candidate e) then [ConfirmedCacheHold]
     else if cf_candidate_id (re_candidate e) \<in> set winners then [UnconfirmedAffinityTieBreak]
     else [])"

definition rank_group ::
  "model_group \<Rightarrow> ranking_entry list \<Rightarrow> int option \<Rightarrow> ranked_entry list \<times> group_exclusion list" where
  "rank_group g es anchor =
    (let (kept, out) = select_eligible (mg_policy g) es anchor;
         winners = affinity_winners (mg_policy g) kept
     in (map (\<lambda>e. (e, ranking_reasons (mg_policy g) winners e)) kept, out))"

section \<open>What ranking keeps\<close>

definition kept_by :: "group_policy \<Rightarrow> int option \<Rightarrow> ranking_entry \<Rightarrow> bool" where
  "kept_by policy anchor e =
    (case policy of
       Manual \<Rightarrow> True
     | QualityFirst \<Rightarrow> cf_score (re_candidate e) \<noteq> None
     | CheapestWithRatingGuard _ gap \<Rightarrow>
         (case (anchor, cf_score (re_candidate e)) of
            (Some a, Some s) \<Rightarrow> i32_saturating_sub a (int gap) \<le> s | _ \<Rightarrow> False))"

definition policy_cmp :: "group_policy \<Rightarrow> ranking_entry \<Rightarrow> ranking_entry \<Rightarrow> ordering" where
  "policy_cmp policy = (case policy of QualityFirst \<Rightarrow> quality_first_cmp | _ \<Rightarrow> cheapest_guard_cmp)"

lemma ranked_entries: "map fst (fst (rank_group g es anchor)) = fst (select_eligible (mg_policy g) es anchor)"
  by (simp add: rank_group_def Let_def split_beta comp_def)

lemma ranked_exclusions: "snd (rank_group g es anchor) = snd (select_eligible (mg_policy g) es anchor)"
  by (simp add: rank_group_def Let_def split_beta)

lemma retained_exclusions:
  "map (\<lambda>(c, d, x). (c, d)) (snd (retain_unexcluded x es))
     = map (\<lambda>e. (re_candidate e, re_declared_order e)) (filter (\<lambda>e. x e \<noteq> None) es)"
  by (induction es) (auto simp: retain_unexcluded_def exclude_def)

lemma select_kept:
  "mset (fst (select_eligible policy es anchor)) = mset (filter (kept_by policy anchor) es)"
proof -
  have g: "(guard_exclusion f e = None) = (case cf_score (re_candidate e) of None \<Rightarrow> False | Some s \<Rightarrow> f \<le> s)" for f e
    by (auto simp: guard_exclusion_def split: option.splits)
  show ?thesis
    by (cases policy; cases anchor)
      (auto simp: select_eligible_def kept_by_def retain_unexcluded_def Let_def quality.mset_sort_by cheapest.mset_sort_by
        quality_exclusion_def g intro!: filter_mset_cong arg_cong [where f = mset] filter_cong split: option.splits)
qed

lemma select_excluded:
  "map (\<lambda>(c, d, x). (c, d)) (snd (select_eligible policy es anchor))
     = map (\<lambda>e. (re_candidate e, re_declared_order e)) (filter (\<lambda>e. \<not> kept_by policy anchor e) es)"
proof -
  have g: "(\<lambda>e. guard_exclusion f e \<noteq> None) = (\<lambda>e. \<not> (case cf_score (re_candidate e) of None \<Rightarrow> False | Some s \<Rightarrow> f \<le> s))" for f
    by (intro ext) (auto simp: guard_exclusion_def not_less split: option.splits)
  have q: "(\<lambda>e. quality_exclusion e \<noteq> None) = (\<lambda>e. cf_score (re_candidate e) = None)"
    by (simp add: quality_exclusion_def)
  show ?thesis
    by (cases policy; cases anchor)
      (simp_all add: select_eligible_def kept_by_def split_beta retained_exclusions g q exclude_def comp_def
        del: not_None_eq)
qed

lemma select_sorted:
  "policy = Manual \<or> sorted_wrt (\<lambda>a b. policy_cmp policy a b \<noteq> Greater) (fst (select_eligible policy es anchor))"
  by (cases policy; cases anchor)
    (simp_all add: select_eligible_def policy_cmp_def split_beta quality.sort_by_sorted cheapest.sort_by_sorted)

lemma select_manual: "fst (select_eligible Manual es anchor) = es"
  by (simp add: select_eligible_def)

lemma select_stable:
  "filter (\<lambda>y. policy_cmp policy y z = Equal) (fst (select_eligible policy es anchor))
     = filter (\<lambda>y. policy_cmp policy y z = Equal) (filter (kept_by policy anchor) es)"
proof -
  have g: "(\<lambda>e. guard_exclusion f e = None) = (\<lambda>e. case cf_score (re_candidate e) of None \<Rightarrow> False | Some s \<Rightarrow> f \<le> s)" for f
    by (intro ext) (auto simp: guard_exclusion_def not_less split: option.splits)
  have q: "(\<lambda>e. quality_exclusion e = None) = (\<lambda>e. cf_score (re_candidate e) \<noteq> None)"
    by (auto simp: quality_exclusion_def)
  show ?thesis
    by (cases policy; cases anchor)
      (simp_all add: select_eligible_def kept_by_def policy_cmp_def retain_unexcluded_def quality.sort_by_stable
        cheapest.sort_by_stable g q)
qed

section \<open>Properties\<close>

text \<open>
  C38. Ranking loses and invents nothing: every eligible candidate of a group is either ranked,
  exactly when the group's rating rule keeps it, or excluded in declaration order; the ranked
  candidates are in the order of the group's comparator, candidates that compare equal keep
  their declaration order, and a manual group keeps the published order.
\<close>

theorem ranking_faithful:
  fixes g es anchor
  defines "ranked \<equiv> map fst (fst (rank_group g es anchor))" and "keep \<equiv> kept_by (mg_policy g) anchor"
    and "c \<equiv> policy_cmp (mg_policy g)"
  shows "mset ranked = mset (filter keep es)
    \<and> map (\<lambda>(d, i, x). (d, i)) (snd (rank_group g es anchor))
        = map (\<lambda>e. (re_candidate e, re_declared_order e)) (filter (\<lambda>e. \<not> keep e) es)
    \<and> (mg_policy g = Manual \<and> ranked = es \<or> sorted_wrt (\<lambda>a b. c a b \<noteq> Greater) ranked)
    \<and> (\<forall>z. filter (\<lambda>y. c y z = Equal) ranked = filter (\<lambda>y. c y z = Equal) (filter keep es))"
  unfolding assms ranked_entries ranked_exclusions
  using select_sorted [of "mg_policy g" es anchor] select_manual [of es anchor]
  by (intro conjI allI select_kept select_excluded select_stable) (cases "mg_policy g = Manual"; simp)

end
