(* ===== verification/Complexity.thy ===== *)
theory Complexity
  imports Prelude
begin

text \<open>
  The complexity strategy of smart saving (\<^verbatim>\<open>gateway/src/planning/complexity.rs\<close>, its types in
  \<^verbatim>\<open>planning/types.rs\<close>, the digest format of \<^verbatim>\<open>domain/src/lib.rs\<close>): compiling and validating a
  strategy, and the decision between the simple and the complex branch by inheritance, user
  phrases and the builtin score. The Unicode normalization and word segmentation of the text
  (third-party crates) and the canonical digest are parameters: \<open>fold_text\<close>, the \<open>text_signals\<close> of
  the latest user text, and \<open>digest\<close>.
\<close>

datatype branch = SimpleBranch | ComplexBranch
datatype classifier_kind = LocalRules | Rest
datatype decision_source = Inherited | ExternalClassifier | UserPhrase | BuiltinRules | Unresolved
datatype fallback_reason = FallbackTimeout | FallbackUnavailable | FallbackRejectedInput | FallbackInvalidOutput

datatype reason_code =
    InheritedToolContinuation | InheritedTaskRoot | UserComplexPhrase | DeepReasoning | MultiFileScope
  | MultiConstraint | ImplementationAction | FailureOrDiffStructure | HumanLengthMedium | HumanLengthLarge
  | TaskContextUnresolved | TaskLanguageFallback | ClassifierAssessmentInvalid

record branch_decision =
  bd_strategy_id :: string
  bd_schema_version :: string
  bd_payload_digest :: string
  bd_branch_id :: string
  bd_score :: "nat option"
  bd_threshold :: "nat option"
  bd_source :: decision_source
  bd_reasons :: "reason_code list"
  bd_phrase_ids :: "string list"
  bd_fallback_used :: bool
  bd_duration_micros :: "u64 option"
  bd_fallback_reason :: "fallback_reason option"

datatype continuation_kind = ToolContinuation | TaskRoot

record correlated_decision =
  co_kind :: continuation_kind
  co_decision :: branch_decision

record complex_phrase =
  ph_id :: string
  ph_phrase :: string

record strategy =
  st_strategy_id :: string
  st_schema_version :: string
  st_version :: nat
  st_threshold :: nat
  st_failure_branch :: branch
  st_classifier_kind :: classifier_kind
  st_config_digest :: "string option"
  st_phrases :: "complex_phrase list"
  st_payload_digest :: string

record structural_facts =
  sx_file_refs :: nat
  sx_code_blocks :: nat
  sx_diff_present :: bool
  sx_diagnostic :: bool
  sx_numbered_requirements :: nat
  sx_scalar_count :: u64

datatype planner_error =
    InputSchema
  | InvalidPolicy string
  | PolicyDigestMismatch
  | ComplexityDigestMismatch
  | ProfileDigestMismatch string
  | InvalidCandidate string
  | UnknownCandidate string
  | CorrelatedDecisionMismatch
  | Serialization string
  | ArithmeticOverflow
  | PanicMissingKey

definition SIMPLE_BRANCH_ID :: string where "SIMPLE_BRANCH_ID = ''smart_saving_simple''"
definition COMPLEX_BRANCH_ID :: string where "COMPLEX_BRANCH_ID = ''smart_saving_complex''"
definition COMPLEXITY_STRATEGY_ID :: string where "COMPLEXITY_STRATEGY_ID = ''hiroute-complexity-v1''"
definition COMPLEXITY_SCHEMA :: string where "COMPLEXITY_SCHEMA = ''hiroute-route-strategy-v1''"
definition COMPLEXITY_THRESHOLD :: nat where "COMPLEXITY_THRESHOLD = 3"
definition STRATEGY_VERSION :: nat where "STRATEGY_VERSION = 1"

lemma branch_ids_differ [simp]: "SIMPLE_BRANCH_ID \<noteq> COMPLEX_BRANCH_ID" "COMPLEX_BRANCH_ID \<noteq> SIMPLE_BRANCH_ID"
  by (simp_all add: SIMPLE_BRANCH_ID_def COMPLEX_BRANCH_ID_def)

definition ascii_hexdigit :: "char \<Rightarrow> bool" where
  "ascii_hexdigit c \<longleftrightarrow> (let n = (of_char c :: nat) in 48 \<le> n \<and> n \<le> 57 \<or> 65 \<le> n \<and> n \<le> 70 \<or> 97 \<le> n \<and> n \<le> 102)"

definition digest_parse :: "string \<Rightarrow> unit + string" where
  "digest_parse v =
    (if length v = 71 \<and> starts_with v ''sha256:'' \<and> list_all ascii_hexdigit (drop 7 v)
     then Inr (to_ascii_lowercase v) else Inl ())"

section \<open>Strategies\<close>

definition config_identity_ok :: "classifier_kind \<Rightarrow> string option \<Rightarrow> bool" where
  "config_identity_ok kind d \<longleftrightarrow> (kind = LocalRules) = (d = None)
     \<and> (case d of None \<Rightarrow> True | Some x \<Rightarrow> is_ok (digest_parse x))"

fun compile_phrases ::
  "(string \<Rightarrow> string) \<Rightarrow> (string \<times> string) list \<Rightarrow> complex_phrase list \<Rightarrow> planner_error + complex_phrase list" where
  "compile_phrases fold_text [] acc = Inr acc"
| "compile_phrases fold_text ((i, p) # ps) acc =
    (if blank i \<or> fold_text p = [] \<or> i \<in> set (map ph_id acc) then Inl (InvalidPolicy ''invalid complex phrase'')
     else compile_phrases fold_text ps (acc @ [\<lparr>ph_id = i, ph_phrase = fold_text p\<rparr>]))"

definition compile_with_classifier ::
  "(string \<Rightarrow> string) \<Rightarrow> (strategy \<Rightarrow> planner_error + string) \<Rightarrow> (string \<times> string) list \<Rightarrow> classifier_kind
   \<Rightarrow> string option \<Rightarrow> planner_error + strategy" where
  "compile_with_classifier fold_text digest phrases kind config =
    (if \<not> config_identity_ok kind config then Inl (InvalidPolicy ''invalid classifier configuration identity'')
     else and_then (compile_phrases fold_text phrases []) (\<lambda>ps.
       let s = \<lparr>st_strategy_id = COMPLEXITY_STRATEGY_ID, st_schema_version = COMPLEXITY_SCHEMA,
                st_version = STRATEGY_VERSION, st_threshold = COMPLEXITY_THRESHOLD,
                st_failure_branch = ComplexBranch, st_classifier_kind = kind, st_config_digest = config,
                st_phrases = ps, st_payload_digest = []\<rparr>
       in and_then (digest s) (\<lambda>d. Inr (s\<lparr>st_payload_digest := d\<rparr>))))"

definition validate_strategy ::
  "(string \<Rightarrow> string) \<Rightarrow> (strategy \<Rightarrow> planner_error + string) \<Rightarrow> strategy \<Rightarrow> planner_error + unit" where
  "validate_strategy fold_text digest s =
    (if st_strategy_id s \<noteq> COMPLEXITY_STRATEGY_ID \<or> st_schema_version s \<noteq> COMPLEXITY_SCHEMA
        \<or> st_version s \<noteq> STRATEGY_VERSION \<or> st_threshold s \<noteq> COMPLEXITY_THRESHOLD
        \<or> st_failure_branch s \<noteq> ComplexBranch
        \<or> \<not> config_identity_ok (st_classifier_kind s) (st_config_digest s)
     then Inl (InvalidPolicy ''unsupported complexity strategy identity'')
     else if list_ex (\<lambda>p. blank (ph_id p) \<or> ph_phrase p = [] \<or> ph_phrase p \<noteq> fold_text (ph_phrase p)) (st_phrases s)
        \<or> \<not> distinct (map ph_id (st_phrases s))
     then Inl (InvalidPolicy ''invalid compiled complex phrase'')
     else and_then (digest s) (\<lambda>d.
       if st_payload_digest s \<noteq> d then Inl ComplexityDigestMismatch else Inr ()))"

section \<open>Decisions\<close>

text \<open>What the analysis of the latest user text reports.\<close>

record text_signals =
  tx_facts :: structural_facts
  tx_pure_continuation :: bool
  tx_phrase_matches :: "string \<Rightarrow> bool"
  tx_deep :: bool
  tx_broad :: bool
  tx_action :: bool

definition decision_matches :: "correlated_decision \<Rightarrow> strategy \<Rightarrow> bool" where
  "decision_matches c s \<longleftrightarrow>
     bd_strategy_id (co_decision c) = st_strategy_id s \<and> bd_schema_version (co_decision c) = st_schema_version s
   \<and> bd_payload_digest (co_decision c) = st_payload_digest s"

definition inherited_decision :: "correlated_decision \<Rightarrow> strategy \<Rightarrow> reason_code \<Rightarrow> planner_error + branch_decision" where
  "inherited_decision c s reason =
    (if \<not> decision_matches c s then Inl CorrelatedDecisionMismatch
     else Inr ((co_decision c)\<lparr>bd_source := Inherited,
       bd_reasons := reason # filter (\<lambda>r. r \<noteq> InheritedToolContinuation \<and> r \<noteq> InheritedTaskRoot)
         (bd_reasons (co_decision c))\<rparr>))"

definition decision_for :: "strategy \<Rightarrow> string \<Rightarrow> nat \<Rightarrow> decision_source \<Rightarrow> reason_code list \<Rightarrow> string list \<Rightarrow> bool \<Rightarrow> branch_decision" where
  "decision_for s b score src reasons ids fallback =
    \<lparr>bd_strategy_id = st_strategy_id s, bd_schema_version = st_schema_version s,
     bd_payload_digest = st_payload_digest s, bd_branch_id = b, bd_score = Some score,
     bd_threshold = Some (st_threshold s), bd_source = src, bd_reasons = reasons, bd_phrase_ids = ids,
     bd_fallback_used = fallback, bd_duration_micros = None, bd_fallback_reason = None\<rparr>"

definition unresolved_decision :: "strategy \<Rightarrow> branch_decision" where
  "unresolved_decision s =
    decision_for s COMPLEX_BRANCH_ID (st_threshold s) Unresolved [TaskContextUnresolved] [] True"

text \<open>The builtin rules: each family adds to a saturating 8-bit score and records its reason.\<close>

definition u8_saturating_add :: "nat \<Rightarrow> nat \<Rightarrow> nat" where
  "u8_saturating_add a b = min 255 (a + b)"

definition add_rule :: "bool \<Rightarrow> nat \<Rightarrow> reason_code \<Rightarrow> nat \<times> reason_code list \<Rightarrow> nat \<times> reason_code list" where
  "add_rule hit points reason st =
    (if hit then (u8_saturating_add (fst st) points, snd st @ [reason]) else st)"

definition score_rules :: "text_signals \<Rightarrow> nat \<times> reason_code list" where
  "score_rules t =
    (let f = tx_facts t; n = sx_scalar_count f;
         s1 = add_rule (tx_deep t) 2 DeepReasoning (0, []);
         s2 = add_rule (2 \<le> sx_file_refs f \<or> tx_broad t) 2 MultiFileScope s1;
         s3 = add_rule (2 \<le> sx_numbered_requirements f) 1 MultiConstraint s2;
         s4 = add_rule (tx_action t) 1 ImplementationAction s3;
         s5 = add_rule (sx_diff_present f \<or> sx_diagnostic f) 1 FailureOrDiffStructure s4
     in if n \<le> 499 then s5
        else if n \<le> 1499 then add_rule True 1 HumanLengthMedium s5
        else add_rule True 2 HumanLengthLarge s5)"

definition matched_phrases :: "text_signals \<Rightarrow> strategy \<Rightarrow> string list" where
  "matched_phrases t s = map ph_id (filter (\<lambda>p. tx_phrase_matches t (ph_phrase p)) (st_phrases s))"

definition decide_builtin :: "text_signals \<Rightarrow> strategy \<Rightarrow> branch_decision" where
  "decide_builtin t s =
    (let (score, reasons) = score_rules t
     in decision_for s (if st_threshold s \<le> score then COMPLEX_BRANCH_ID else SIMPLE_BRANCH_ID)
          score BuiltinRules reasons [] False)"

text \<open>
  \<open>has_user\<close> says whether there is a latest user text; without one the signals are those of the
  empty text.
\<close>

definition decide ::
  "(string \<Rightarrow> string) \<Rightarrow> (strategy \<Rightarrow> planner_error + string) \<Rightarrow> bool \<Rightarrow> text_signals
   \<Rightarrow> correlated_decision option \<Rightarrow> strategy \<Rightarrow> planner_error + branch_decision \<times> structural_facts" where
  "decide fold_text digest has_user t correlated s =
    and_then (validate_strategy fold_text digest s) (\<lambda>_.
      let facts = tx_facts t;
          inherit_as = (\<lambda>c reason. and_then (inherited_decision c s reason) (\<lambda>d. Inr (d, facts)));
          judge_text =
            (if \<not> has_user then Inr (unresolved_decision s, facts)
             else if matched_phrases t s \<noteq> [] then
               Inr (decision_for s COMPLEX_BRANCH_ID (st_threshold s) UserPhrase [UserComplexPhrase]
                      (matched_phrases t s) False, facts)
             else Inr (decide_builtin t s, facts))
      in case correlated of
           Some c \<Rightarrow>
            (if co_kind c = TaskRoot \<and> decision_matches c s then inherit_as c InheritedTaskRoot
             else if has_user \<and> tx_pure_continuation t then Inr (unresolved_decision s, facts)
             else if co_kind c = ToolContinuation \<and> decision_matches c s then inherit_as c InheritedToolContinuation
             else judge_text)
         | None \<Rightarrow>
            (if has_user \<and> tx_pure_continuation t then Inr (unresolved_decision s, facts) else judge_text))"

section \<open>Lemmas\<close>

definition rule_points :: "text_signals \<Rightarrow> nat" where
  "rule_points t =
    (let f = tx_facts t
     in (if tx_deep t then 2 else 0) + (if 2 \<le> sx_file_refs f \<or> tx_broad t then 2 else 0)
      + (if 2 \<le> sx_numbered_requirements f then 1 else 0) + (if tx_action t then 1 else 0)
      + (if sx_diff_present f \<or> sx_diagnostic f then 1 else 0)
      + (if sx_scalar_count f \<le> 499 then 0 else if sx_scalar_count f \<le> 1499 then 1 else 2))"

lemma score_rules_points: "fst (score_rules t) = rule_points t"
  by (simp add: score_rules_def rule_points_def add_rule_def u8_saturating_add_def Let_def)

lemma compile_phrases_spec:
  assumes "compile_phrases fold_text ps acc = Inr qs" and "distinct (map ph_id acc)"
    and "\<forall>x. fold_text (fold_text x) = fold_text x"
    and "list_all (\<lambda>p. \<not> blank (ph_id p) \<and> ph_phrase p \<noteq> [] \<and> ph_phrase p = fold_text (ph_phrase p)) acc"
  shows "distinct (map ph_id qs)
    \<and> list_all (\<lambda>p. \<not> blank (ph_id p) \<and> ph_phrase p \<noteq> [] \<and> ph_phrase p = fold_text (ph_phrase p)) qs"
  using assms
proof (induction fold_text ps acc rule: compile_phrases.induct)
  case (2 fold_text i p ps acc)
  have ok: "\<not> (blank i \<or> fold_text p = [] \<or> i \<in> set (map ph_id acc))"
    using "2.prems"(1) by (auto split: if_splits)
  have rest: "compile_phrases fold_text ps (acc @ [\<lparr>ph_id = i, ph_phrase = fold_text p\<rparr>]) = Inr qs"
    using "2.prems"(1) ok by (auto split: if_splits)
  show ?case
    by (rule "2.IH" [OF ok rest]) (use "2.prems" ok in auto)
qed simp

section \<open>Properties\<close>

text \<open>
  A compiled strategy is valid: what \<open>compile_with_classifier\<close> returns passes \<open>validate\<close>,
  for every normalization that is idempotent and every digest that depends on the payload only.
\<close>

theorem compiled_strategy_valid:
  assumes "compile_with_classifier fold_text digest phrases kind config = Inr s"
    and "\<forall>x. fold_text (fold_text x) = fold_text x" and "\<forall>s d. digest (s\<lparr>st_payload_digest := d\<rparr>) = digest s"
  shows "validate_strategy fold_text digest s = Inr ()"
proof -
  obtain ps d where ps: "compile_phrases fold_text phrases [] = Inr ps" and c: "config_identity_ok kind config"
    and d: "digest \<lparr>st_strategy_id = COMPLEXITY_STRATEGY_ID, st_schema_version = COMPLEXITY_SCHEMA,
        st_version = STRATEGY_VERSION, st_threshold = COMPLEXITY_THRESHOLD, st_failure_branch = ComplexBranch,
        st_classifier_kind = kind, st_config_digest = config, st_phrases = ps, st_payload_digest = []\<rparr> = Inr d"
    and s: "s = \<lparr>st_strategy_id = COMPLEXITY_STRATEGY_ID, st_schema_version = COMPLEXITY_SCHEMA,
        st_version = STRATEGY_VERSION, st_threshold = COMPLEXITY_THRESHOLD, st_failure_branch = ComplexBranch,
        st_classifier_kind = kind, st_config_digest = config, st_phrases = ps, st_payload_digest = d\<rparr>"
    using assms(1) by (auto simp: compile_with_classifier_def res_simps Let_def split: if_splits)
  have "digest s = Inr d" using d assms(3) unfolding s by (metis strategy.update_convs(9))
  then show ?thesis using compile_phrases_spec [OF ps _ assms(2)] c
    by (auto simp: validate_strategy_def s list_ex_iff list_all_iff)
qed

definition length_digest :: "strategy \<Rightarrow> planner_error + string" where
  "length_digest s = Inr (concat (map ph_phrase (st_phrases s)))"

definition sample_strategy :: strategy where
  "sample_strategy = \<lparr>st_strategy_id = COMPLEXITY_STRATEGY_ID, st_schema_version = COMPLEXITY_SCHEMA,
     st_version = STRATEGY_VERSION, st_threshold = COMPLEXITY_THRESHOLD, st_failure_branch = ComplexBranch,
     st_classifier_kind = LocalRules, st_config_digest = None,
     st_phrases = [\<lparr>ph_id = ''p1'', ph_phrase = ''rewrite''\<rparr>], st_payload_digest = ''rewrite''\<rparr>"

lemma lower_sample: "to_ascii_lowercase ''Rewrite'' = ''rewrite''" "to_ascii_lowercase ''rewrite'' = ''rewrite''"
  by code_simp+

lemma sample_compiled:
  "compile_with_classifier to_ascii_lowercase length_digest [(''p1'', ''Rewrite'')] LocalRules None = Inr sample_strategy"
  by (simp add: compile_with_classifier_def config_identity_ok_def sample_strategy_def length_digest_def
      lower_sample)

lemma lowercase_idem: "to_ascii_lowercase (to_ascii_lowercase x) = to_ascii_lowercase x"
proof -
  have "(if 65 \<le> (of_char (f c) :: nat) \<and> (of_char (f c) :: nat) \<le> 90 then char_of ((of_char (f c) :: nat) + 32) else f c) = f c"
    if "f = (\<lambda>c. if 65 \<le> (of_char c :: nat) \<and> (of_char c :: nat) \<le> 90 then char_of ((of_char c :: nat) + 32) else c)" for f and c :: char
    by (auto simp: that)
  then show ?thesis by (simp add: to_ascii_lowercase_def)
qed

theorem compiled_strategy_valid_witness: "validate_strategy to_ascii_lowercase length_digest sample_strategy = Inr ()"
  by (rule compiled_strategy_valid [OF sample_compiled]) (simp_all add: lowercase_idem length_digest_def)

text \<open>
  C40. The branch is decided by evidence and never cheapened by doubt: with a valid strategy the
  decision always exists, its branch is simple only if the builtin score, the sum of the rules
  that apply, stays below the threshold, or if it is inherited from a matching decision that
  was simple; a text that cannot be judged takes the complex branch.
\<close>

theorem complexity_decision:
  assumes "validate_strategy fold_text digest s = Inr ()"
  shows "\<exists>d. decide fold_text digest has_user t corr s = Inr (d, tx_facts t)
    \<and> (bd_branch_id d = SIMPLE_BRANCH_ID \<longrightarrow>
        has_user \<and> \<not> tx_pure_continuation t \<and> matched_phrases t s = [] \<and> bd_source d = BuiltinRules
          \<and> bd_score d = Some (rule_points t) \<and> rule_points t < COMPLEXITY_THRESHOLD
      \<or> (\<exists>c. corr = Some c \<and> decision_matches c s \<and> bd_source d = Inherited
          \<and> bd_branch_id (co_decision c) = SIMPLE_BRANCH_ID))
    \<and> (bd_source d = BuiltinRules \<longrightarrow> bd_score d = Some (rule_points t) \<and> rule_points t \<le> 9
        \<and> bd_branch_id d = (if COMPLEXITY_THRESHOLD \<le> rule_points t then COMPLEX_BRANCH_ID else SIMPLE_BRANCH_ID))
    \<and> (bd_source d = Unresolved \<longrightarrow> bd_branch_id d = COMPLEX_BRANCH_ID \<and> bd_fallback_used d)"
proof -
  have th: "st_threshold s = COMPLEXITY_THRESHOLD"
    using assms by (auto simp: validate_strategy_def split: if_splits)
  have pts: "rule_points t \<le> 9" by (simp add: rule_points_def Let_def)
  note defs = decide_def assms decide_builtin_def decision_for_def unresolved_decision_def inherited_decision_def
    split_beta score_rules_points th Let_def
  show ?thesis
  proof (cases corr)
    case None
    then show ?thesis using pts by (auto simp: defs)
  next
    case (Some c)
    then show ?thesis using pts by (cases "co_kind c") (auto simp: defs)
  qed
qed

definition sample_signals :: text_signals where
  "sample_signals = \<lparr>tx_facts = \<lparr>sx_file_refs = 0, sx_code_blocks = 0, sx_diff_present = False, sx_diagnostic = False,
       sx_numbered_requirements = 0, sx_scalar_count = 600\<rparr>, tx_pure_continuation = False,
     tx_phrase_matches = (\<lambda>_. False), tx_deep = False, tx_broad = False, tx_action = True\<rparr>"

theorem complexity_decision_witness:
  "\<exists>d. decide to_ascii_lowercase length_digest True sample_signals None sample_strategy = Inr (d, tx_facts sample_signals)
    \<and> bd_branch_id d = SIMPLE_BRANCH_ID \<and> bd_score d = Some 2"
proof -
  have v: "validate_strategy to_ascii_lowercase length_digest sample_strategy = Inr ()"
    by (simp add: validate_strategy_def sample_strategy_def config_identity_ok_def length_digest_def lower_sample)
  have "rule_points sample_signals = 2" by (simp add: rule_points_def sample_signals_def)
  moreover have "matched_phrases sample_signals sample_strategy = []"
    by (simp add: matched_phrases_def sample_strategy_def sample_signals_def)
  moreover have "\<not> tx_pure_continuation sample_signals" by (simp add: sample_signals_def)
  ultimately have "decide to_ascii_lowercase length_digest True sample_signals None sample_strategy
      = Inr (decide_builtin sample_signals sample_strategy, tx_facts sample_signals)"
    "bd_source (decide_builtin sample_signals sample_strategy) = BuiltinRules"
    by (simp_all add: decide_def v decide_builtin_def decision_for_def split_beta)
  with complexity_decision [OF v, of True sample_signals None] \<open>rule_points sample_signals = 2\<close>
  show ?thesis by (auto simp: COMPLEXITY_THRESHOLD_def)
qed

end
