(* ===== verification/Planner.thy ===== *)
theory Planner
  imports Ranking Complexity
begin

text \<open>
  The deterministic planner (\<^verbatim>\<open>gateway/src/planner.rs\<close>): validation of an input, the choice of the
  groups, the plan loop over the groups with its evaluations and frozen candidates, and the context
  hold. A \<open>BTreeMap\<close> collected from a list keeps the last entry of a key; indexing it with a
  missing key panics, which is the error \<open>PanicMissingKey\<close> of the model. The canonical digests
  and the text normalization are the fields of a \<open>planner_env\<close>.
\<close>

section \<open>Inputs and outputs\<close>

datatype free_exhaustion = FreeOnly | PrimaryFallback string
datatype candidate_mode = AutomaticAllAvailable | ManualMode

datatype route =
    SmartSaving string "string list" string
  | FreeFirst string free_exhaustion candidate_mode
  | CustomRoute string

datatype route_identity = PlanIdentity string u64 | FixedIdentity string

record compiled_policy =
  po_schema_version :: string
  po_served_model_id :: string
  po_identity :: route_identity
  po_route :: route
  po_groups :: "model_group list"
  po_strategy :: "strategy option"
  po_cost_policy :: cost_policy
  po_limits :: request_limits
  po_policy_digest :: string

record hold_preference =
  ho_binding_id :: string
  ho_candidate_id :: string
  ho_profile_digest :: string
  ho_reasoning_profile_id :: string
  ho_origin_group_id :: string

record 'v planner_input =
  pi_schema_version :: string
  pi_request :: "'v model_request"
  pi_correlated_branch :: "correlated_decision option"
  pi_classification_decision :: "branch_decision option"
  pi_classification_facts :: "structural_facts option"
  pi_context_hold :: "hold_preference option"
  pi_policy :: compiled_policy
  pi_candidates :: "candidate_facts list"

datatype planned_branch =
  SmartSavingSimple | SmartSavingComplex | FreeFirstFreeOnly | FreeFirstPrimaryFallback | CustomExactOrder

datatype ledger_reason =
    ContextHoldApplied | ContextHoldInvalidated | ChoseSimple | ChoseComplex | FreeFirstNoClassification
  | CustomNoClassification | GroupExhaustedFallback | ComplexNoDowngrade | FreeOnlyBoundary | ChoseCustomExactOrder

record evaluation =
  ev_candidate_id :: string
  ev_binding_id :: string
  ev_group_id :: string
  ev_declared_order :: nat
  ev_profile_digest :: string
  ev_eligible :: bool
  ev_first_exclusion :: "exclusion option"
  ev_reasoning_profile_id :: "string option"
  ev_context :: "context_demand option"
  ev_score :: "int option"
  ev_effective_cost :: "u64 option"
  ev_cost_class :: cost_class

record frozen_candidate =
  fz_ordinal :: nat
  fz_candidate_id :: string
  fz_binding_id :: string
  fz_group_id :: string
  fz_profile_digest :: string
  fz_upstream_protocol :: protocol
  fz_reasoning_profile_id :: string
  fz_context :: context_demand
  fz_score :: "int option"
  fz_effective_cost :: "u64 option"
  fz_cost_class :: cost_class
  fz_reasons :: "ranking_reason list"

record group_plan =
  gp_ordinal :: nat
  gp_group_id :: string
  gp_ranked_ids :: "string list"

record reason_entry =
  rs_ordinal :: nat
  rs_code :: ledger_reason
  rs_group_id :: "string option"

datatype outcome = Ready | NoEligibleCandidates

record planner_output =
  ou_schema_version :: string
  ou_planner_version :: string
  ou_input_digest :: string
  ou_policy_digest :: string
  ou_output_digest :: string
  ou_served_model_id :: string
  ou_identity :: route_identity
  ou_branch :: planned_branch
  ou_complexity :: "branch_decision option"
  ou_limits :: request_limits
  ou_outcome :: outcome
  ou_groups :: "group_plan list"
  ou_ledger_schema :: string
  ou_frozen :: "frozen_candidate list"
  ou_evaluations :: "evaluation list"
  ou_reasons :: "reason_entry list"

record facts_projection =
  fp_schema_version :: string
  fp_policy_digest :: string
  fp_requirements :: requirements
  fp_decision :: "branch_decision option"
  fp_facts :: "structural_facts option"
  fp_hold :: "hold_preference option"
  fp_candidates :: "candidate_facts list"

record planner_env =
  en_policy_digest :: "compiled_policy \<Rightarrow> planner_error + string"
  en_profile_digest :: "candidate_profile \<Rightarrow> planner_error + string"
  en_strategy_digest :: "strategy \<Rightarrow> planner_error + string"
  en_facts_digest :: "facts_projection \<Rightarrow> planner_error + string"
  en_output_digest :: "planner_output \<Rightarrow> planner_error + string"
  en_fold_text :: "string \<Rightarrow> string"

definition u32_max :: nat where "u32_max = 2 ^ 32 - 1"

definition to_u32 :: "nat \<Rightarrow> planner_error + nat" where
  "to_u32 n = (if n \<le> u32_max then Inr n else Inl ArithmeticOverflow)"

section \<open>Lookups\<close>

definition group_by_id :: "model_group list \<Rightarrow> string \<Rightarrow> model_group option" where
  "group_by_id gs i = find (\<lambda>g. mg_group_id g = i) (rev gs)"

definition candidate_by_id :: "candidate_facts list \<Rightarrow> string \<Rightarrow> candidate_facts option" where
  "candidate_by_id cs i = find (\<lambda>c. cf_candidate_id c = i) (rev cs)"

definition require_group :: "model_group list \<Rightarrow> string \<Rightarrow> planner_error + model_group" where
  "require_group gs i = ok_or (InvalidPolicy ''route references an unknown group'') (group_by_id gs i)"

section \<open>Validation\<close>

fun run_checks :: "('e + unit) list \<Rightarrow> 'e + unit" where
  "run_checks [] = Inr ()"
| "run_checks (c # cs) = (case c of Inl e \<Rightarrow> Inl e | Inr _ \<Rightarrow> run_checks cs)"

lemma run_checks_ok: "run_checks cs = Inr u \<longleftrightarrow> list_all (\<lambda>c. c = Inr ()) cs"
  by (induction cs rule: run_checks.induct) (auto split: sum.splits)

definition identity_invalid :: "compiled_policy \<Rightarrow> bool" where
  "identity_invalid p \<longleftrightarrow>
     (case po_identity p of
        PlanIdentity i rv \<Rightarrow> blank i \<or> rv = 0
      | FixedIdentity d \<Rightarrow>
          \<not> is_ok (digest_parse d)
          \<or> (case po_groups p of [g] \<Rightarrow> length (mg_candidate_ids g) \<noteq> 1 | _ \<Rightarrow> True)
          \<or> rl_max_candidate_bindings (po_limits p) \<noteq> 1
          \<or> (case po_route p of CustomRoute _ \<Rightarrow> False | _ \<Rightarrow> True))"

definition fixed_identity :: "compiled_policy \<Rightarrow> bool" where
  "fixed_identity p \<longleftrightarrow> (case po_identity p of FixedIdentity _ \<Rightarrow> True | _ \<Rightarrow> False)"

definition check_identity :: "'v planner_input \<Rightarrow> planner_error + unit" where
  "check_identity inp =
    (let p = pi_policy inp; l = po_limits p
     in ensure (\<not> (po_schema_version p \<noteq> ''hiroute.compiled-planner-policy/v1'' \<or> blank (po_served_model_id p)
          \<or> identity_invalid p \<or> fixed_identity p \<noteq> (po_cost_policy p = ExplicitFixed)
          \<or> rl_max_candidate_bindings l = 0 \<or> rl_max_attempts l = 0 \<or> rl_deadline_cap_ms l = 0
          \<or> rq_served_model_id (pi_request inp) \<noteq> po_served_model_id p))
        (InvalidPolicy ''identity, request-owned limits, or served model is invalid''))"

definition recompute_policy_digest :: "planner_env \<Rightarrow> compiled_policy \<Rightarrow> planner_error + string" where
  "recompute_policy_digest env p = en_policy_digest env (p\<lparr>po_policy_digest := []\<rparr>)"

definition check_policy_digest :: "planner_env \<Rightarrow> compiled_policy \<Rightarrow> planner_error + unit" where
  "check_policy_digest env p =
    and_then (recompute_policy_digest env p) (\<lambda>d. ensure (d = po_policy_digest p) PolicyDigestMismatch)"

definition group_valid :: "model_group \<Rightarrow> bool" where
  "group_valid g \<longleftrightarrow> \<not> blank (mg_group_id g) \<and> mg_candidate_ids g \<noteq> []
     \<and> list_all (\<lambda>c. \<not> blank c) (mg_candidate_ids g) \<and> distinct (mg_candidate_ids g)"

definition check_groups :: "model_group list \<Rightarrow> planner_error + unit" where
  "check_groups gs = ensure (list_all group_valid gs \<and> distinct (map mg_group_id gs))
     (InvalidPolicy ''materialized groups must be non-empty and unique'')"

fun check_fallbacks :: "model_group list \<Rightarrow> string \<Rightarrow> string list \<Rightarrow> string list \<Rightarrow> planner_error + unit" where
  "check_fallbacks gs simple seen [] = Inr ()"
| "check_fallbacks gs simple seen (f # fs) =
    and_then (require_group gs f) (\<lambda>_.
      if f = simple \<or> f \<in> set seen
      then Inl (InvalidPolicy ''smart saving group transitions must be unique'')
      else check_fallbacks gs simple (f # seen) fs)"

definition distinct_count :: "string list \<Rightarrow> nat" where
  "distinct_count xs = length (remdups xs)"

definition manual :: "model_group \<Rightarrow> bool" where
  "manual g \<longleftrightarrow> mg_policy g = Manual"

definition check_route :: "planner_env \<Rightarrow> compiled_policy \<Rightarrow> planner_error + unit" where
  "check_route env p =
    (let gs = po_groups p; count = distinct_count (map mg_group_id gs)
     in case po_route p of
          SmartSaving simple fallbacks complex \<Rightarrow>
            and_then (ok_or (InvalidPolicy ''smart saving requires complexity-v1'') (po_strategy p)) (\<lambda>s.
            and_then (validate_strategy (en_fold_text env) (en_strategy_digest env) s) (\<lambda>_.
            and_then (require_group gs simple) (\<lambda>_.
            and_then (require_group gs complex) (\<lambda>_.
            if simple = complex then Inl (InvalidPolicy ''smart saving simple and complex groups must differ'')
            else and_then (check_fallbacks gs simple [] fallbacks) (\<lambda>_.
              ensure (distinct_count ([simple, complex] @ fallbacks) = count)
                (InvalidPolicy ''smart saving contains an unreferenced group''))))))
        | FreeFirst free exhaustion _ \<Rightarrow>
            if po_strategy p \<noteq> None then Inl (InvalidPolicy ''free first must not invoke complexity classification'')
            else and_then (require_group gs free) (\<lambda>g.
              if \<not> manual g then Inl (InvalidPolicy ''free pool order must already be materialized'')
              else (case exhaustion of
                  FreeOnly \<Rightarrow>
                    if po_cost_policy p \<noteq> StrictFree then Inl (InvalidPolicy ''free-only requires strict-free cost policy'')
                    else ensure (count = 1) (InvalidPolicy ''free-only must contain exactly the free group'')
                | PrimaryFallback primary \<Rightarrow>
                    and_then (require_group gs primary) (\<lambda>_.
                      if primary = free then Inl (InvalidPolicy ''free and primary groups must differ'')
                      else ensure (count = 2)
                        (InvalidPolicy ''free-first primary fallback contains an unreferenced group''))))
        | CustomRoute i \<Rightarrow>
            if po_strategy p \<noteq> None then Inl (InvalidPolicy ''custom route must not invoke complexity classification'')
            else and_then (require_group gs i) (\<lambda>g.
              if \<not> manual g then Inl (InvalidPolicy ''custom route requires published manual order'')
              else ensure (count = 1) (InvalidPolicy ''custom route must contain exactly one group'')))"

fun check_candidates ::
  "planner_env \<Rightarrow> string list \<Rightarrow> string list \<Rightarrow> candidate_facts list \<Rightarrow> planner_error + unit" where
  "check_candidates env ids bindings [] = Inr ()"
| "check_candidates env ids bindings (c # cs) =
    (if cf_schema_version c \<noteq> ''hiroute.planner-candidate-facts/v1'' \<or> blank (cf_candidate_id c)
        \<or> blank (cf_stable_binding_id c) \<or> cf_serialized_bytes c = 0 \<or> cf_candidate_id c \<in> set ids
        \<or> cf_stable_binding_id c \<in> set bindings
        \<or> (case cf_score c of None \<Rightarrow> False | Some s \<Rightarrow> \<not> (5 \<le> s \<and> s \<le> 50))
     then Inl (InvalidCandidate (cf_candidate_id c))
     else and_then (en_profile_digest env (cf_profile c)) (\<lambda>d.
       if d \<noteq> cf_profile_digest c then Inl (ProfileDigestMismatch (cf_candidate_id c))
       else check_candidates env (cf_candidate_id c # ids) (cf_stable_binding_id c # bindings) cs))"

fun check_references :: "string list \<Rightarrow> model_group list \<Rightarrow> planner_error + unit" where
  "check_references ids [] = Inr ()"
| "check_references ids (g # gs) =
    (case find (\<lambda>c. c \<notin> set ids) (mg_candidate_ids g) of
       Some c \<Rightarrow> Inl (UnknownCandidate c)
     | None \<Rightarrow>
        (case mg_policy g of
           CheapestWithRatingGuard anchor _ \<Rightarrow>
             if anchor \<notin> set (mg_candidate_ids g) then Inl (InvalidPolicy ''quality anchor must belong to its group'')
             else check_references ids gs
         | _ \<Rightarrow> check_references ids gs))"

fun any_candidate :: "(candidate_facts \<Rightarrow> bool) \<Rightarrow> candidate_facts list \<Rightarrow> string list \<Rightarrow> planner_error + bool" where
  "any_candidate P cs [] = Inr False"
| "any_candidate P cs (i # is) =
    (case candidate_by_id cs i of
       None \<Rightarrow> Inl PanicMissingKey
     | Some c \<Rightarrow> if P c then Inr True else any_candidate P cs is)"

definition check_free_pool :: "'v planner_input \<Rightarrow> planner_error + unit" where
  "check_free_pool inp =
    (case po_route (pi_policy inp) of
       FreeFirst free _ mode \<Rightarrow>
         and_then (ok_or PanicMissingKey (group_by_id (po_groups (pi_policy inp)) free)) (\<lambda>g.
         and_then (any_candidate (\<lambda>c. cf_cost_class c \<noteq> Free) (pi_candidates inp) (mg_candidate_ids g)) (\<lambda>paid.
         if paid then Inl (InvalidPolicy ''materialized free pool contains a non-free candidate'')
         else if mode \<noteq> AutomaticAllAvailable then Inr ()
         else and_then (any_candidate (\<lambda>c. cf_score c = None) (pi_candidates inp) (mg_candidate_ids g)) (\<lambda>unrated.
           ensure (\<not> unrated) (InvalidPolicy ''automatic free pool contains an unrated candidate''))))
     | _ \<Rightarrow> Inr ())"

definition validate_input :: "planner_env \<Rightarrow> 'v planner_input \<Rightarrow> planner_error + unit" where
  "validate_input env inp =
    (let p = pi_policy inp; ids = map cf_candidate_id (pi_candidates inp)
     in run_checks
      [ensure (pi_schema_version inp = ''hiroute.planner-input/v1''
          \<and> rq_schema_version (pi_request inp) = ''hiroute.model-request-ir/v1'') InputSchema,
       check_identity inp,
       ensure (\<not> (po_cost_policy p = BudgetedPaid \<and> rl_paid_budget_ceiling (po_limits p) = None))
         (InvalidPolicy ''budgeted paid policy requires a request-owned ceiling''),
       check_policy_digest env p,
       check_groups (po_groups p),
       check_route env p,
       check_candidates env [] [] (pi_candidates inp),
       check_references ids (po_groups p),
       ensure (set (concat (map mg_candidate_ids (po_groups p))) = set ids)
         (InvalidPolicy ''candidate facts must exactly match materialized group references''),
       check_free_pool inp])"

section \<open>Choosing the groups\<close>

definition reason :: "ledger_reason \<Rightarrow> string option \<Rightarrow> reason_entry" where
  "reason code g = \<lparr>rs_ordinal = 0, rs_code = code, rs_group_id = g\<rparr>"

definition validate_classification_decision :: "branch_decision \<Rightarrow> strategy \<Rightarrow> planner_error + unit" where
  "validate_classification_decision d s =
    (let identity = (bd_strategy_id d = st_strategy_id s \<and> bd_schema_version d = st_schema_version s
           \<and> bd_payload_digest d = st_payload_digest s);
         known = (bd_branch_id d = SIMPLE_BRANCH_ID \<or> bd_branch_id d = COMPLEX_BRANCH_ID);
         judged = (bd_score d \<noteq> None \<and> bd_threshold d = Some (st_threshold s));
         facts =
          (case bd_source d of
             Inherited \<Rightarrow> True
           | ExternalClassifier \<Rightarrow> st_classifier_kind s = Rest \<and> bd_score d = None \<and> bd_threshold d = None
               \<and> bd_duration_micros d \<noteq> None \<and> bd_fallback_reason d = None \<and> \<not> bd_fallback_used d
           | _ \<Rightarrow>
              (case st_classifier_kind s of
                 Rest \<Rightarrow> judged \<and> bd_duration_micros d \<noteq> None \<and> bd_fallback_reason d \<noteq> None \<and> bd_fallback_used d
               | LocalRules \<Rightarrow> judged \<and> bd_duration_micros d = None \<and> bd_fallback_reason d = None))
     in ensure (identity \<and> known \<and> facts) CorrelatedDecisionMismatch)"

record selection =
  sl_branch :: planned_branch
  sl_decision :: "branch_decision option"
  sl_facts :: "structural_facts option"
  sl_groups :: "string list"
  sl_reasons :: "reason_entry list"

definition select_groups :: "'v planner_input \<Rightarrow> planner_error + selection" where
  "select_groups inp =
    (case po_route (pi_policy inp) of
       SmartSaving simple fallbacks complex \<Rightarrow>
         and_then (ok_or (InvalidPolicy ''missing complexity strategy'') (po_strategy (pi_policy inp))) (\<lambda>s.
         and_then (ok_or (InvalidPolicy ''classification decision is missing'') (pi_classification_decision inp)) (\<lambda>d.
         and_then (ok_or (InvalidPolicy ''classification facts are missing'') (pi_classification_facts inp)) (\<lambda>f.
         and_then (validate_classification_decision d s) (\<lambda>_.
         if bd_branch_id d = SIMPLE_BRANCH_ID then
           Inr \<lparr>sl_branch = SmartSavingSimple, sl_decision = Some d, sl_facts = Some f, sl_groups = simple # fallbacks,
                sl_reasons = reason ChoseSimple None # map (\<lambda>g. reason GroupExhaustedFallback (Some g)) fallbacks\<rparr>
         else if bd_branch_id d = COMPLEX_BRANCH_ID then
           Inr \<lparr>sl_branch = SmartSavingComplex, sl_decision = Some d, sl_facts = Some f, sl_groups = [complex],
                sl_reasons = [reason ChoseComplex None, reason ComplexNoDowngrade None]\<rparr>
         else Inl CorrelatedDecisionMismatch))))
     | FreeFirst free FreeOnly _ \<Rightarrow>
         Inr \<lparr>sl_branch = FreeFirstFreeOnly, sl_decision = None, sl_facts = None, sl_groups = [free],
              sl_reasons = [reason FreeFirstNoClassification None, reason FreeOnlyBoundary None]\<rparr>
     | FreeFirst free (PrimaryFallback primary) _ \<Rightarrow>
         Inr \<lparr>sl_branch = FreeFirstPrimaryFallback, sl_decision = None, sl_facts = None, sl_groups = [free, primary],
              sl_reasons = [reason FreeFirstNoClassification None, reason GroupExhaustedFallback (Some primary)]\<rparr>
     | CustomRoute g \<Rightarrow>
         Inr \<lparr>sl_branch = CustomExactOrder, sl_decision = None, sl_facts = None, sl_groups = [g],
              sl_reasons = [reason CustomNoClassification None, reason ChoseCustomExactOrder None]\<rparr>)"

section \<open>The plan loop\<close>

definition excluded_evaluation :: "candidate_facts \<Rightarrow> string \<Rightarrow> nat \<Rightarrow> exclusion \<Rightarrow> evaluation" where
  "excluded_evaluation c gid order x =
    \<lparr>ev_candidate_id = cf_candidate_id c, ev_binding_id = cf_stable_binding_id c, ev_group_id = gid,
     ev_declared_order = order, ev_profile_digest = cf_profile_digest c, ev_eligible = False,
     ev_first_exclusion = Some x, ev_reasoning_profile_id = None, ev_context = None, ev_score = cf_score c,
     ev_effective_cost = effective_cost c, ev_cost_class = cf_cost_class c\<rparr>"

definition eligible_evaluation :: "candidate_facts \<Rightarrow> string \<Rightarrow> nat \<Rightarrow> projection \<Rightarrow> evaluation" where
  "eligible_evaluation c gid order j =
    \<lparr>ev_candidate_id = cf_candidate_id c, ev_binding_id = cf_stable_binding_id c, ev_group_id = gid,
     ev_declared_order = order, ev_profile_digest = cf_profile_digest c, ev_eligible = True,
     ev_first_exclusion = None, ev_reasoning_profile_id = Some (pj_reasoning_profile_id j),
     ev_context = Some (pj_context j), ev_score = cf_score c, ev_effective_cost = pj_effective_cost j,
     ev_cost_class = cf_cost_class c\<rparr>"

definition freeze :: "candidate_facts \<Rightarrow> string \<Rightarrow> nat \<Rightarrow> projection \<Rightarrow> ranking_reason list \<Rightarrow> frozen_candidate" where
  "freeze c gid ordinal j reasons =
    \<lparr>fz_ordinal = ordinal, fz_candidate_id = cf_candidate_id c, fz_binding_id = cf_stable_binding_id c,
     fz_group_id = gid, fz_profile_digest = cf_profile_digest c,
     fz_upstream_protocol = cap_upstream_protocol (cpr_capability (cf_profile c)),
     fz_reasoning_profile_id = pj_reasoning_profile_id j, fz_context = pj_context j, fz_score = cf_score c,
     fz_effective_cost = pj_effective_cost j, fz_cost_class = cf_cost_class c, fz_reasons = reasons\<rparr>"

record plan_state =
  ps_seen :: "string list"
  ps_evaluations :: "evaluation list"
  ps_frozen :: "frozen_candidate list"
  ps_groups :: "group_plan list"

definition plan_start :: plan_state where
  "plan_start = \<lparr>ps_seen = [], ps_evaluations = [], ps_frozen = [], ps_groups = []\<rparr>"

text \<open>The declared candidates of a group: a slot for each, empty for the eligible, and the eligible.\<close>

fun evaluate_declared ::
  "'v planner_input \<Rightarrow> string list \<Rightarrow> string \<Rightarrow> nat \<Rightarrow> string list
   \<Rightarrow> planner_error + evaluation option list \<times> ranking_entry list" where
  "evaluate_declared inp seen gid k [] = Inr ([], [])"
| "evaluate_declared inp seen gid k (i # is) =
    and_then (ok_or PanicMissingKey (candidate_by_id (pi_candidates inp) i)) (\<lambda>c.
    and_then (to_u32 k) (\<lambda>order.
    and_then (evaluate_declared inp seen gid (Suc k) is) (\<lambda>(slots, es). Inr
      (if i \<in> set seen then (Some (excluded_evaluation c gid order DuplicateCandidate) # slots, es)
       else case evaluate_candidate (pi_request inp) c (po_cost_policy (pi_policy inp)) (po_limits (pi_policy inp)) of
              Inr j \<Rightarrow> (None # slots, \<lparr>re_candidate = c, re_projection = j, re_declared_order = order\<rparr> # es)
            | Inl x \<Rightarrow> (Some (excluded_evaluation c gid order x) # slots, es)))))"

definition guard_anchor :: "'v planner_input \<Rightarrow> model_group \<Rightarrow> planner_error + int option" where
  "guard_anchor inp g =
    (case mg_policy g of
       CheapestWithRatingGuard anchor _ \<Rightarrow>
         and_then (ok_or PanicMissingKey (candidate_by_id (pi_candidates inp) anchor)) (\<lambda>c.
           Inr (if has_exact_reasoning c then cf_score c else None))
     | _ \<Rightarrow> Inr None)"

definition write_exclusions :: "string \<Rightarrow> group_exclusion list \<Rightarrow> evaluation option list \<Rightarrow> evaluation option list" where
  "write_exclusions gid xs slots =
    fold (\<lambda>(c, order, x) sl. sl[order := Some (excluded_evaluation c gid order x)]) xs slots"

text \<open>Freezing the ranked candidates of a group, in order.\<close>

fun place_ranked ::
  "string \<Rightarrow> ranked_entry list \<Rightarrow> evaluation option list \<times> plan_state
   \<Rightarrow> planner_error + evaluation option list \<times> plan_state" where
  "place_ranked gid [] st = Inr st"
| "place_ranked gid ((e, reasons) # rs) (slots, s) =
    and_then (to_u32 (length (ps_frozen s))) (\<lambda>ordinal.
      let c = re_candidate e
      in place_ranked gid rs
          (slots[re_declared_order e := Some (eligible_evaluation c gid (re_declared_order e) (re_projection e))],
           s\<lparr>ps_seen := cf_candidate_id c # ps_seen s,
             ps_frozen := ps_frozen s @ [freeze c gid ordinal (re_projection e) reasons]\<rparr>))"

definition ranked_ids :: "ranked_entry list \<Rightarrow> string list" where
  "ranked_ids rs = map (\<lambda>(e, _). cf_candidate_id (re_candidate e)) rs"

definition plan_group :: "'v planner_input \<Rightarrow> nat \<Rightarrow> string \<Rightarrow> plan_state \<Rightarrow> planner_error + plan_state" where
  "plan_group inp k gid s =
    and_then (ok_or PanicMissingKey (group_by_id (po_groups (pi_policy inp)) gid)) (\<lambda>g.
    and_then (evaluate_declared inp (ps_seen s) gid 0 (mg_candidate_ids g)) (\<lambda>(slots, es).
    and_then (guard_anchor inp g) (\<lambda>anchor.
    let (ranked, out) = rank_group g es anchor
    in and_then (place_ranked gid ranked (write_exclusions gid out slots, s)) (\<lambda>(slots', s').
       and_then (to_u32 k) (\<lambda>ordinal. Inr
         (s'\<lparr>ps_evaluations := ps_evaluations s' @ map the (filter (\<lambda>x. x \<noteq> None) slots'),
             ps_groups := ps_groups s' @ [\<lparr>gp_ordinal = ordinal, gp_group_id = gid, gp_ranked_ids = ranked_ids ranked\<rparr>]\<rparr>))))))"

fun plan_loop :: "'v planner_input \<Rightarrow> nat \<Rightarrow> string list \<Rightarrow> plan_state \<Rightarrow> planner_error + plan_state" where
  "plan_loop inp k [] s = Inr s"
| "plan_loop inp k (g # gs) s = and_then (plan_group inp k g s) (plan_loop inp (Suc k) gs)"

section \<open>The context hold\<close>

record hold_state =
  hs_evaluations :: "evaluation list"
  hs_frozen :: "frozen_candidate list"
  hs_reasons :: "reason_entry list"

definition hold_invalid :: "string option \<Rightarrow> hold_state \<Rightarrow> hold_state" where
  "hold_invalid g h = h\<lparr>hs_reasons := hs_reasons h @ [reason ContextHoldInvalidated g]\<rparr>"

definition renumber :: "frozen_candidate list \<Rightarrow> frozen_candidate list" where
  "renumber fs = map (\<lambda>(k, f). f\<lparr>fz_ordinal := k\<rparr>) (zip [0..<length fs] fs)"

definition apply_hold ::
  "hold_preference \<Rightarrow> candidate_facts \<Rightarrow> model_group \<Rightarrow> nat \<Rightarrow> projection \<Rightarrow> hold_state \<Rightarrow> planner_error + hold_state" where
  "apply_hold hold c g index j h =
    and_then (to_u32 index) (\<lambda>order.
      let evs = (if list_ex (\<lambda>e. ev_candidate_id e = ho_candidate_id hold \<and> ev_group_id e = ho_origin_group_id hold)
                     (hs_evaluations h)
                 then hs_evaluations h
                 else hs_evaluations h @ [eligible_evaluation c (mg_group_id g) order j]);
          frozen = freeze c (mg_group_id g) 0 j [ContextModelHold]
            # filter (\<lambda>f. fz_candidate_id f \<noteq> ho_candidate_id hold) (hs_frozen h)
      in and_then (to_u32 (length frozen - 1)) (\<lambda>_. Inr
          \<lparr>hs_evaluations = evs, hs_frozen = renumber frozen,
           hs_reasons = hs_reasons h @ [reason ContextHoldApplied (Some (mg_group_id g))]\<rparr>))"

definition apply_context_hold :: "'v planner_input \<Rightarrow> string list \<Rightarrow> hold_state \<Rightarrow> planner_error + hold_state" where
  "apply_context_hold inp selected h =
    (case pi_context_hold inp of
       None \<Rightarrow> Inr h
     | Some hold \<Rightarrow>
        (case candidate_by_id (pi_candidates inp) (ho_candidate_id hold) of
           None \<Rightarrow> Inr (hold_invalid None h)
         | Some c \<Rightarrow>
            (case group_by_id (po_groups (pi_policy inp)) (ho_origin_group_id hold) of
               None \<Rightarrow> Inr (hold_invalid None h)
             | Some g \<Rightarrow>
                if ho_origin_group_id hold \<notin> set selected then Inr (hold_invalid (Some (mg_group_id g)) h)
                else (case position (\<lambda>i. i = ho_candidate_id hold) (mg_candidate_ids g) of
                  None \<Rightarrow> Inr (hold_invalid None h)
                | Some index \<Rightarrow>
                   if cf_stable_binding_id c \<noteq> ho_binding_id hold \<or> cf_profile_digest c \<noteq> ho_profile_digest hold
                   then Inr (hold_invalid (Some (mg_group_id g)) h)
                   else (case evaluate_candidate (pi_request inp) c (po_cost_policy (pi_policy inp))
                              (po_limits (pi_policy inp)) of
                     Inl _ \<Rightarrow> Inr (hold_invalid (Some (mg_group_id g)) h)
                   | Inr j \<Rightarrow>
                      if pj_reasoning_profile_id j \<noteq> ho_reasoning_profile_id hold
                      then Inr (hold_invalid (Some (mg_group_id g)) h)
                      else apply_hold hold c g index j h)))))"

section \<open>The plan\<close>

definition planning_facts_digest ::
  "planner_env \<Rightarrow> 'v planner_input \<Rightarrow> branch_decision option \<Rightarrow> structural_facts option \<Rightarrow> planner_error + string" where
  "planning_facts_digest env inp d f = en_facts_digest env
    \<lparr>fp_schema_version = ''hiroute.planner-input-facts-digest/v1'', fp_policy_digest = po_policy_digest (pi_policy inp),
     fp_requirements = requirements_of (pi_request inp), fp_decision = d, fp_facts = f,
     fp_hold = pi_context_hold inp,
     fp_candidates = sort_by (\<lambda>a b. cmp (cf_candidate_id a) (cf_candidate_id b)) (pi_candidates inp)\<rparr>"

definition number_reasons :: "reason_entry list \<Rightarrow> planner_error + reason_entry list" where
  "number_reasons rs =
    and_then (to_u32 (length rs - 1)) (\<lambda>_. Inr (map (\<lambda>(k, r). r\<lparr>rs_ordinal := k\<rparr>) (zip [0..<length rs] rs)))"

definition output_seal :: "planner_env \<Rightarrow> planner_output \<Rightarrow> planner_error + planner_output" where
  "output_seal env o1 =
    (let o2 = o1\<lparr>ou_output_digest := []\<rparr>
     in and_then (en_output_digest env o2) (\<lambda>d. Inr (o2\<lparr>ou_output_digest := d\<rparr>)))"

definition plan :: "planner_env \<Rightarrow> 'v planner_input \<Rightarrow> planner_error + planner_output" where
  "plan env inp =
    and_then (validate_input env inp) (\<lambda>_.
    and_then (select_groups inp) (\<lambda>sel.
    and_then (planning_facts_digest env inp (sl_decision sel) (sl_facts sel)) (\<lambda>input_digest.
    and_then (plan_loop inp 0 (sl_groups sel) plan_start) (\<lambda>s.
    and_then (apply_context_hold inp (sl_groups sel)
        \<lparr>hs_evaluations = ps_evaluations s, hs_frozen = ps_frozen s, hs_reasons = sl_reasons sel\<rparr>) (\<lambda>h.
    and_then (number_reasons (hs_reasons h)) (\<lambda>reasons.
    let p = pi_policy inp
    in output_seal env
      \<lparr>ou_schema_version = ''hiroute.planner-output/v1'', ou_planner_version = ''hiroute-deterministic-planner/v1'',
       ou_input_digest = input_digest, ou_policy_digest = po_policy_digest p, ou_output_digest = [],
       ou_served_model_id = po_served_model_id p, ou_identity = po_identity p, ou_branch = sl_branch sel,
       ou_complexity = sl_decision sel, ou_limits = po_limits p,
       ou_outcome = (if hs_frozen h = [] then NoEligibleCandidates else Ready), ou_groups = ps_groups s,
       ou_ledger_schema = ''hiroute.frozen-candidate-ledger/v1'', ou_frozen = hs_frozen h,
       ou_evaluations = hs_evaluations h, ou_reasons = reasons\<rparr>))))))"

end
