(* ===== verification/Planner_Properties.thy ===== *)
theory Planner_Properties
  imports Planner
begin

text \<open>
  What the planner guarantees: the facts a validated input provides, the invariant of the plan
  loop (every frozen candidate is an eligible candidate of its group, with distinct ids and dense
  ordinals, and every declared candidate has exactly one evaluation), the effect of the context
  hold, and the properties of a plan.
\<close>

section \<open>Validated inputs\<close>

lemma candidate_found: "candidate_by_id cs i = Some c \<Longrightarrow> c \<in> set cs \<and> cf_candidate_id c = i"
  by (auto simp: candidate_by_id_def dest: find_Some_in)

lemma candidate_exists: "i \<in> set (map cf_candidate_id cs) \<Longrightarrow> \<exists>c. candidate_by_id cs i = Some c"
  unfolding candidate_by_id_def by (cases "find (\<lambda>c. cf_candidate_id c = i) (rev cs)") (auto simp: find_None_iff)

lemma group_found: "group_by_id gs i = Some g \<Longrightarrow> g \<in> set gs \<and> mg_group_id g = i"
  by (auto simp: group_by_id_def dest: find_Some_in)

lemma check_candidates_distinct:
  "check_candidates env ids bindings cs = Inr u \<Longrightarrow>
    distinct (map cf_candidate_id cs) \<and> set (map cf_candidate_id cs) \<inter> set ids = {}"
proof (induction cs arbitrary: ids bindings)
  case (Cons c cs)
  then have new: "cf_candidate_id c \<notin> set ids"
    and rest: "check_candidates env (cf_candidate_id c # ids) (cf_stable_binding_id c # bindings) cs = Inr u"
    by (auto simp: res_simps split: if_splits)
  from Cons.IH [OF rest] new show ?case by auto
qed simp

lemma check_references_known:
  assumes "check_references ids gs = Inr u" and "g \<in> set gs"
  shows "set (mg_candidate_ids g) \<subseteq> set ids
    \<and> (case mg_policy g of CheapestWithRatingGuard a _ \<Rightarrow> a \<in> set (mg_candidate_ids g) | _ \<Rightarrow> True)"
  using assms
  by (induction ids gs rule: check_references.induct)
    (auto simp: find_None_iff split: option.splits group_policy.splits if_splits)

lemma check_fallbacks_known:
  "check_fallbacks gs simple seen fs = Inr u \<Longrightarrow> distinct fs \<and> set fs \<inter> set seen = {} \<and> simple \<notin> set fs
    \<and> (\<forall>f \<in> set fs. group_by_id gs f \<noteq> None)"
proof (induction fs arbitrary: seen)
  case (Cons f fs)
  then have new: "f \<noteq> simple" "f \<notin> set seen" "group_by_id gs f \<noteq> None"
    and rest: "check_fallbacks gs simple (f # seen) fs = Inr u"
    by (auto simp: res_simps require_group_def split: if_splits)
  from Cons.IH [OF rest] new show ?case by auto
qed simp

text \<open>What the plan relies on in a validated input.\<close>

definition well_referenced :: "'v planner_input \<Rightarrow> bool" where
  "well_referenced inp \<longleftrightarrow>
     distinct (map cf_candidate_id (pi_candidates inp))
   \<and> (\<forall>g \<in> set (po_groups (pi_policy inp)).
        distinct (mg_candidate_ids g) \<and> set (mg_candidate_ids g) \<subseteq> set (map cf_candidate_id (pi_candidates inp))
        \<and> (case mg_policy g of CheapestWithRatingGuard a _ \<Rightarrow> a \<in> set (mg_candidate_ids g) | _ \<Rightarrow> True))"

lemma validated:
  assumes "validate_input env inp = Inr u"
  shows "well_referenced inp" "check_route env (pi_policy inp) = Inr ()"
    "check_free_pool inp = Inr ()" "check_groups (po_groups (pi_policy inp)) = Inr ()"
proof -
  have checks: "check_candidates env [] [] (pi_candidates inp) = Inr ()"
      "check_references (map cf_candidate_id (pi_candidates inp)) (po_groups (pi_policy inp)) = Inr ()"
    and rest: "check_route env (pi_policy inp) = Inr ()" "check_free_pool inp = Inr ()"
      "check_groups (po_groups (pi_policy inp)) = Inr ()"
    using assms unfolding validate_input_def Let_def run_checks_ok by simp_all
  show "check_route env (pi_policy inp) = Inr ()" "check_free_pool inp = Inr ()"
    "check_groups (po_groups (pi_policy inp)) = Inr ()" by (fact rest)+
  have "distinct (mg_candidate_ids g)" if "g \<in> set (po_groups (pi_policy inp))" for g
    using rest(3) that by (auto simp: check_groups_def res_simps list_all_iff group_valid_def)
  then show "well_referenced inp"
    using check_candidates_distinct [OF checks(1)] check_references_known [OF checks(2)]
    by (auto simp: well_referenced_def)
qed

lemma selected_groups_exist:
  assumes "check_route env (pi_policy inp) = Inr u" and "select_groups inp = Inr sel"
  shows "\<forall>i \<in> set (sl_groups sel). group_by_id (po_groups (pi_policy inp)) i \<noteq> None"
    "distinct (sl_groups sel)"
  using assms
  by (auto simp: check_route_def select_groups_def Let_def res_simps require_group_def
      split: route.splits free_exhaustion.splits if_splits dest!: check_fallbacks_known)

section \<open>A group\<close>

abbreviation evaluated_as :: "'v planner_input \<Rightarrow> candidate_facts \<Rightarrow> projection \<Rightarrow> bool" where
  "evaluated_as inp c j \<equiv>
     evaluate_candidate (pi_request inp) c (po_cost_policy (pi_policy inp)) (po_limits (pi_policy inp)) = Inr j"

text \<open>A slot of a group: the evaluation of the candidate declared there.\<close>

definition slot_ok :: "'v planner_input \<Rightarrow> string \<Rightarrow> string list \<Rightarrow> nat \<Rightarrow> evaluation \<Rightarrow> bool" where
  "slot_ok inp gid ids k e \<longleftrightarrow> ev_group_id e = gid \<and> ev_declared_order e = k \<and> ev_candidate_id e = ids ! k
     \<and> ev_eligible e = (ev_first_exclusion e = None)"

definition entry_ok :: "'v planner_input \<Rightarrow> string list \<Rightarrow> string list \<Rightarrow> ranking_entry \<Rightarrow> bool" where
  "entry_ok inp seen ids e \<longleftrightarrow> re_declared_order e < length ids
     \<and> candidate_by_id (pi_candidates inp) (ids ! re_declared_order e) = Some (re_candidate e)
     \<and> cf_candidate_id (re_candidate e) = ids ! re_declared_order e
     \<and> cf_candidate_id (re_candidate e) \<notin> set seen \<and> evaluated_as inp (re_candidate e) (re_projection e)"

lemma evaluate_declared_ok:
  assumes "evaluate_declared inp seen gid k is = Inr (slots, es)" and "ids = pre @ is" and "length pre = k"
  shows "length slots = length is
    \<and> (\<forall>i < length is. \<forall>e. slots ! i = Some e \<longrightarrow> slot_ok inp gid ids (k + i) e \<and> \<not> ev_eligible e)
    \<and> list_all (entry_ok inp seen ids) es
    \<and> map re_declared_order es = filter (\<lambda>i. slots ! (i - k) = None) [k..<k + length is]"
  using assms
proof (induction inp seen gid k "is" arbitrary: slots es pre rule: evaluate_declared.induct)
  case (2 inp seen gid k i "is")
  obtain c slots' es' where c: "candidate_by_id (pi_candidates inp) i = Some c" and k: "k \<le> u32_max"
    and rest: "evaluate_declared inp seen gid (Suc k) is = Inr (slots', es')"
    and here: "(slots, es) =
      (if i \<in> set seen then (Some (excluded_evaluation c gid k DuplicateCandidate) # slots', es')
       else case evaluate_candidate (pi_request inp) c (po_cost_policy (pi_policy inp)) (po_limits (pi_policy inp)) of
              Inr j \<Rightarrow> (None # slots', \<lparr>re_candidate = c, re_projection = j, re_declared_order = k\<rparr> # es')
            | Inl x \<Rightarrow> (Some (excluded_evaluation c gid k x) # slots', es'))"
    using "2.prems"(1) by (auto simp: res_simps to_u32_def split: if_splits)
  have ids: "ids = (pre @ [i]) @ is" "length (pre @ [i]) = Suc k" using "2.prems"(2,3) by auto
  have IH: "length slots' = length is"
    "\<forall>m < length is. \<forall>e. slots' ! m = Some e \<longrightarrow> slot_ok inp gid ids (Suc k + m) e \<and> \<not> ev_eligible e"
    "list_all (entry_ok inp seen ids) es'"
    "map re_declared_order es' = filter (\<lambda>m. slots' ! (m - Suc k) = None) [Suc k..<Suc k + length is]"
    using "2.IH" [OF rest ids] by auto
  have at: "ids ! k = i" "k < length ids" using "2.prems"(2,3) by auto
  have shift: "filter (\<lambda>m. (s # slots') ! (m - k) = None) [Suc k..<Suc k + length is]
      = filter (\<lambda>m. slots' ! (m - Suc k) = None) [Suc k..<Suc k + length is]" for s
    by (rule filter_cong) (auto simp: nth_Cons')
  have up: "[k..<k + length (i # is)] = k # [Suc k..<Suc k + length is]"
    by (simp add: upt_rec)
  have ex: "slot_ok inp gid ids k (excluded_evaluation c gid k x)" "\<not> ev_eligible (excluded_evaluation c gid k x)" for x
    using candidate_found [OF c] at by (simp_all add: slot_ok_def excluded_evaluation_def)
  have slotsI: "\<forall>m < length (i # is). \<forall>e. (s # slots') ! m = Some e \<longrightarrow> slot_ok inp gid ids (k + m) e \<and> \<not> ev_eligible e"
    if "\<forall>e. s = Some e \<longrightarrow> slot_ok inp gid ids k e \<and> \<not> ev_eligible e" for s
    using that IH(2) by (auto simp: nth_Cons' less_Suc_eq_0_disj)
  have none: "list_all (entry_ok inp seen ids) es' \<and> map re_declared_order es'
      = filter (\<lambda>m. (Some x # slots') ! (m - k) = None) (k # [Suc k..<Suc k + length is])" for x
    using IH(3,4) shift [of "Some x"] by simp
  consider (out) x where "slots = Some (excluded_evaluation c gid k x) # slots'" "es = es'"
    | (elig) j where "i \<notin> set seen" "evaluated_as inp c j" "slots = None # slots'"
        "es = \<lparr>re_candidate = c, re_projection = j, re_declared_order = k\<rparr> # es'"
    using here by (auto split: if_splits sum.splits)
  then show ?case
  proof cases
    case out
    show ?thesis unfolding out up using none [of "excluded_evaluation c gid k x"] IH(1) ex
      by (intro conjI slotsI) simp_all
  next
    case elig
    have "entry_ok inp seen ids \<lparr>re_candidate = c, re_projection = j, re_declared_order = k\<rparr>"
      using elig(1,2) c candidate_found [OF c] at by (simp add: entry_ok_def)
    then show ?thesis unfolding elig(3,4) up using IH(1,3,4) shift [of None] by (intro conjI slotsI) simp_all
  qed
qed simp

lemma write_exclusions_effect:
  "length (write_exclusions gid xs slots) = length slots
   \<and> (\<forall>m < length slots. write_exclusions gid xs slots ! m = slots ! m \<and> m \<notin> set (map (\<lambda>(c, d, x). d) xs)
        \<or> (\<exists>c x. (c, m, x) \<in> set xs \<and> write_exclusions gid xs slots ! m = Some (excluded_evaluation c gid m x)))"
proof (induction xs rule: rev_induct)
  case (snoc y xs)
  obtain c d x where y: "y = (c, d, x)" by (cases y)
  have w: "write_exclusions gid (xs @ [y]) slots
      = (write_exclusions gid xs slots)[d := Some (excluded_evaluation c gid d x)]"
    by (simp add: write_exclusions_def y)
  have "(write_exclusions gid (xs @ [y]) slots ! m = slots ! m \<and> m \<notin> set (map (\<lambda>(c, d, x). d) (xs @ [y])))
      \<or> (\<exists>c x. (c, m, x) \<in> set (xs @ [y])
           \<and> write_exclusions gid (xs @ [y]) slots ! m = Some (excluded_evaluation c gid m x))"
    if "m < length slots" for m
  proof (cases "m = d")
    case True
    then have "write_exclusions gid (xs @ [y]) slots ! m = Some (excluded_evaluation c gid m x)"
      using that snoc by (simp add: w)
    then show ?thesis using True y by auto
  next
    case False
    then have "write_exclusions gid (xs @ [y]) slots ! m = write_exclusions gid xs slots ! m"
      by (simp add: w)
    then show ?thesis using snoc that False y by auto
  qed
  then show ?case using snoc w by simp
qed (simp add: write_exclusions_def)

definition freeze_all :: "string \<Rightarrow> nat \<Rightarrow> ranked_entry list \<Rightarrow> frozen_candidate list" where
  "freeze_all gid n rs = map (\<lambda>(k, e, r). freeze (re_candidate e) gid k (re_projection e) r) (zip [n..<n + length rs] rs)"

lemma freeze_all_Cons:
  "freeze_all gid n ((e, r) # rs) = freeze (re_candidate e) gid n (re_projection e) r # freeze_all gid (Suc n) rs"
  by (simp add: freeze_all_def upt_rec)

lemma freeze_all_ids: "map (\<lambda>f. (fz_group_id f, fz_candidate_id f)) (freeze_all gid n rs) = map (Pair gid) (ranked_ids rs)"
proof (induction rs arbitrary: n)
  case (Cons x rs)
  show ?case by (cases x) (simp add: freeze_all_Cons Cons, simp add: freeze_def ranked_ids_def)
qed (simp add: freeze_all_def ranked_ids_def)

lemma freeze_all_ordinals: "map fz_ordinal (freeze_all gid n rs) = [n..<n + length rs]"
proof (induction rs arbitrary: n)
  case (Cons x rs)
  show ?case by (cases x) (simp add: freeze_all_Cons Cons freeze_def upt_rec)
qed (simp add: freeze_all_def)

lemma freeze_all_in:
  "f \<in> set (freeze_all gid n rs) \<Longrightarrow>
    \<exists>e r k. (e, r) \<in> set rs \<and> f = freeze (re_candidate e) gid k (re_projection e) r"
  by (auto simp: freeze_all_def dest!: set_zip_rightD)

text \<open>Placing the ranked candidates: the frozen list grows by them, and their slots are filled.\<close>

lemma place_ranked_effect:
  assumes "place_ranked gid rs (slots, s) = Inr (slots', s')"
  shows "s' = s\<lparr>ps_seen := List.rev (ranked_ids rs) @ ps_seen s,
               ps_frozen := ps_frozen s @ freeze_all gid (length (ps_frozen s)) rs\<rparr>
    \<and> length slots' = length slots
    \<and> (\<forall>m < length slots. slots' ! m = slots ! m \<and> m \<notin> re_declared_order ` fst ` set rs
        \<or> (\<exists>e \<in> fst ` set rs. re_declared_order e = m
             \<and> slots' ! m = Some (eligible_evaluation (re_candidate e) gid m (re_projection e))))"
  using assms
proof (induction gid rs "(slots, s)" arbitrary: slots s rule: place_ranked.induct)
  case (2 gid e r rs slots s)
  let ?slots = "slots[re_declared_order e := Some (eligible_evaluation (re_candidate e) gid (re_declared_order e) (re_projection e))]"
  let ?f = "freeze (re_candidate e) gid (length (ps_frozen s)) (re_projection e) r"
  let ?s = "s\<lparr>ps_seen := cf_candidate_id (re_candidate e) # ps_seen s, ps_frozen := ps_frozen s @ [?f]\<rparr>"
  have o: "to_u32 (length (ps_frozen s)) = Inr (length (ps_frozen s))"
    and rest: "place_ranked gid rs (?slots, ?s) = Inr (slots', s')"
    using "2.prems" by (auto simp: res_simps to_u32_def Let_def split: if_splits)
  note IH = "2.hyps" [OF refl rest]
  show ?case
  proof (intro conjI)
    show "s' = s\<lparr>ps_seen := List.rev (ranked_ids ((e, r) # rs)) @ ps_seen s,
               ps_frozen := ps_frozen s @ freeze_all gid (length (ps_frozen s)) ((e, r) # rs)\<rparr>"
      using IH by (simp add: freeze_all_Cons ranked_ids_def)
    show "length slots' = length slots" using IH by simp
    show "\<forall>m < length slots. slots' ! m = slots ! m \<and> m \<notin> re_declared_order ` fst ` set ((e, r) # rs)
        \<or> (\<exists>e \<in> fst ` set ((e, r) # rs). re_declared_order e = m
             \<and> slots' ! m = Some (eligible_evaluation (re_candidate e) gid m (re_projection e)))"
    proof (intro allI impI)
      fix m assume m: "m < length slots"
      with IH consider "slots' ! m = ?slots ! m" "m \<notin> re_declared_order ` fst ` set rs"
        | e' where "e' \<in> fst ` set rs" "re_declared_order e' = m"
            "slots' ! m = Some (eligible_evaluation (re_candidate e') gid m (re_projection e'))"
        by (metis (no_types, lifting) length_list_update)
      then show "slots' ! m = slots ! m \<and> m \<notin> re_declared_order ` fst ` set ((e, r) # rs)
          \<or> (\<exists>e \<in> fst ` set ((e, r) # rs). re_declared_order e = m
             \<and> slots' ! m = Some (eligible_evaluation (re_candidate e) gid m (re_projection e)))"
        using m by cases (cases "re_declared_order e = m"; auto)+
    qed
  qed
qed (simp_all add: ranked_ids_def freeze_all_def)

text \<open>A group: where its evaluations and its frozen candidates come from.\<close>

definition frozen_ok :: "'v planner_input \<Rightarrow> frozen_candidate \<Rightarrow> bool" where
  "frozen_ok inp f \<longleftrightarrow> (\<exists>c g j.
     candidate_by_id (pi_candidates inp) (fz_candidate_id f) = Some c
   \<and> group_by_id (po_groups (pi_policy inp)) (fz_group_id f) = Some g
   \<and> fz_candidate_id f \<in> set (mg_candidate_ids g) \<and> evaluated_as inp c j
   \<and> f = freeze c (fz_group_id f) (fz_ordinal f) j (fz_reasons f))"

definition declared_keys :: "'v planner_input \<Rightarrow> string \<Rightarrow> (string \<times> nat \<times> string) list" where
  "declared_keys inp gid =
    (case group_by_id (po_groups (pi_policy inp)) gid of
       None \<Rightarrow> []
     | Some g \<Rightarrow> map (\<lambda>k. (gid, k, mg_candidate_ids g ! k)) [0..<length (mg_candidate_ids g)])"

definition evaluation_key :: "evaluation \<Rightarrow> string \<times> nat \<times> string" where
  "evaluation_key e = (ev_group_id e, ev_declared_order e, ev_candidate_id e)"

definition frozen_key :: "frozen_candidate \<Rightarrow> string \<times> string" where
  "frozen_key f = (fz_group_id f, fz_candidate_id f)"

lemma filled_slots:
  assumes "\<forall>m < length slots. \<exists>e. slots ! m = Some e \<and> P m e"
  shows "length (map the (filter (\<lambda>x. x \<noteq> None) slots)) = length slots
    \<and> (\<forall>m < length slots. P m (map the (filter (\<lambda>x. x \<noteq> None) slots) ! m))"
proof -
  have "filter (\<lambda>x. x \<noteq> None) slots = slots"
    using assms by (auto simp: filter_id_conv in_set_conv_nth) blast
  then show ?thesis using assms by fastforce
qed

lemma ranked_orders:
  assumes "rank_group g es anchor = (ranked, out)"
    and "distinct (map re_declared_order es)"
  shows "fst ` set ranked \<subseteq> set es" "distinct (map re_declared_order (map fst ranked))"
    "re_declared_order ` fst ` set ranked \<union> (\<lambda>(c, d, x). d) ` set out = re_declared_order ` set es"
    "re_declared_order ` fst ` set ranked \<inter> (\<lambda>(c, d, x). d) ` set out = {}"
    "\<forall>(c, d, x) \<in> set out. \<exists>e \<in> set es. re_candidate e = c \<and> re_declared_order e = d"
proof -
  let ?keep = "kept_by (mg_policy g) anchor"
  have m: "mset (map fst ranked) = mset (filter ?keep es)"
    using select_kept [of "mg_policy g" es anchor] ranked_entries [of g es anchor] assms(1) by simp
  have x: "map (\<lambda>(c, d, x). (c, d)) out = map (\<lambda>e. (re_candidate e, re_declared_order e)) (filter (\<lambda>e. \<not> ?keep e) es)"
    using select_excluded [of "mg_policy g" es anchor] ranked_exclusions [of g es anchor] assms(1) by simp
  have s: "fst ` set ranked = set (filter ?keep es)" using mset_eq_setD [OF m] by simp
  have "map snd (map (\<lambda>(c, d, x). (c, d)) out) = map (\<lambda>(c, d, x). d) out" by auto
  then have o: "(\<lambda>(c, d, x). d) ` set out = re_declared_order ` set (filter (\<lambda>e. \<not> ?keep e) es)"
    using arg_cong [OF x, of "\<lambda>l. set (map snd l)"] by (simp add: image_image split_beta)
  show "fst ` set ranked \<subseteq> set es" using s by auto
  have "mset (map re_declared_order (map fst ranked)) = mset (map re_declared_order (filter ?keep es))"
    using arg_cong [OF m, of "image_mset re_declared_order"] by (simp del: mset_filter add: multiset.map_comp)
  then show "distinct (map re_declared_order (map fst ranked))"
    using assms(2) distinct_map_filter by (metis mset_eq_imp_distinct_iff)
  show "re_declared_order ` fst ` set ranked \<union> (\<lambda>(c, d, x). d) ` set out = re_declared_order ` set es"
    unfolding s o by auto
  have "inj_on re_declared_order (set es)" using assms(2) by (simp add: distinct_map)
  then show "re_declared_order ` fst ` set ranked \<inter> (\<lambda>(c, d, x). d) ` set out = {}"
    unfolding s o by (auto dest: inj_onD)
  show "\<forall>(c, d, x) \<in> set out. \<exists>e \<in> set es. re_candidate e = c \<and> re_declared_order e = d"
  proof clarify
    fix c d r assume "(c, d, r) \<in> set out"
    then have "(c, d) \<in> set (map (\<lambda>(c, d, x). (c, d)) out)" by force
    then show "\<exists>e \<in> set es. re_candidate e = c \<and> re_declared_order e = d" unfolding x by auto
  qed
qed

lemma group_slots:
  assumes decl: "evaluate_declared inp seen gid 0 ids = Inr (slots, es)"
    and rank: "rank_group g es anchor = (ranked, out)"
    and place: "place_ranked gid ranked (write_exclusions gid out slots, s) = Inr (slots', s')"
  shows "length slots' = length ids
    \<and> (\<forall>m < length slots'. \<exists>e. slots' ! m = Some e \<and> slot_ok inp gid ids m e
         \<and> ev_eligible e = (m \<in> re_declared_order ` fst ` set ranked))"
    and "\<forall>e \<in> fst ` set ranked. entry_ok inp seen ids e"
    and "distinct (map re_declared_order (map fst ranked))"
proof -
  let ?R = "re_declared_order ` fst ` set ranked" and ?X = "(\<lambda>(c, d, x). d) ` set out"
  have D: "length slots = length ids"
    "\<forall>i < length ids. \<forall>e. slots ! i = Some e \<longrightarrow> slot_ok inp gid ids i e \<and> \<not> ev_eligible e"
    "\<forall>e \<in> set es. entry_ok inp seen ids e"
    "map re_declared_order es = filter (\<lambda>i. slots ! i = None) [0..<length ids]"
    using evaluate_declared_ok [OF decl, of ids "[]"] by (auto simp: list_all_iff)
  have dist: "distinct (map re_declared_order es)" unfolding D(4) by simp
  note R = ranked_orders [OF rank dist]
  have orders: "?R \<union> ?X = {i. i < length ids \<and> slots ! i = None}"
    unfolding R(3) using arg_cong [OF D(4), of set] by auto
  note W = write_exclusions_effect [of gid out slots]
  note P = place_ranked_effect [OF place]
  have placed: "slots' ! m = write_exclusions gid out slots ! m \<and> m \<notin> ?R
      \<or> (\<exists>e \<in> fst ` set ranked. re_declared_order e = m
           \<and> slots' ! m = Some (eligible_evaluation (re_candidate e) gid m (re_projection e)))"
    if "m < length ids" for m
    using conjunct2 [OF conjunct2 [OF P]] W D(1) that by (metis (no_types, lifting))
  have slot: "\<exists>e. slots' ! m = Some e \<and> slot_ok inp gid ids m e \<and> ev_eligible e = (m \<in> ?R)"
    if m: "m < length ids" for m
  proof -
    consider (kept) e where "slots ! m = Some e" "m \<notin> ?R" "m \<notin> ?X"
      | (out) "m \<in> ?X" "m \<notin> ?R" | (ranked) "m \<in> ?R"
    proof (cases "slots ! m")
      case None
      then have "m \<in> ?R \<union> ?X" unfolding orders using m by simp
      then show thesis using that(2,3) by blast
    next
      case (Some e)
      then have "m \<notin> ?R \<union> ?X" unfolding orders by simp
      then show thesis using that(1) [OF Some] by blast
    qed
    then show ?thesis
    proof cases
      case kept
      have "slots' ! m = write_exclusions gid out slots ! m" using placed [OF m] kept(2) by blast
      also have "\<dots> = slots ! m" using W kept(3) m D(1) by force
      finally show ?thesis using kept D(2) m by auto
    next
      case out
      obtain c x where x: "(c, m, x) \<in> set out" "write_exclusions gid out slots ! m = Some (excluded_evaluation c gid m x)"
        using W out(1) m D(1) by (auto simp: image_iff split_beta)
      obtain e where e: "e \<in> set es" "re_candidate e = c" "re_declared_order e = m" using R(5) x(1) by auto
      have "slots' ! m = Some (excluded_evaluation c gid m x)" using placed [OF m] out(2) x(2) by auto
      moreover have "slot_ok inp gid ids m (excluded_evaluation c gid m x)"
        using D(3) e by (auto simp: entry_ok_def slot_ok_def excluded_evaluation_def)
      moreover have "\<not> ev_eligible (excluded_evaluation c gid m x)" by (simp add: excluded_evaluation_def)
      ultimately show ?thesis using out(2) by blast
    next
      case ranked
      obtain e where e: "e \<in> fst ` set ranked" "re_declared_order e = m"
        "slots' ! m = Some (eligible_evaluation (re_candidate e) gid m (re_projection e))"
        using placed [OF m] ranked by blast
      have "slot_ok inp gid ids m (eligible_evaluation (re_candidate e) gid m (re_projection e))"
        using D(3) e R(1) by (auto simp: entry_ok_def slot_ok_def eligible_evaluation_def)
      moreover have "ev_eligible (eligible_evaluation (re_candidate e) gid m (re_projection e))"
        by (simp add: eligible_evaluation_def)
      ultimately show ?thesis using e(3) ranked by blast
    qed
  qed
  show "length slots' = length ids
    \<and> (\<forall>m < length slots'. \<exists>e. slots' ! m = Some e \<and> slot_ok inp gid ids m e
         \<and> ev_eligible e = (m \<in> re_declared_order ` fst ` set ranked))"
    using P W D(1) slot by auto
  show "\<forall>e \<in> fst ` set ranked. entry_ok inp seen ids e" using R(1) D(3) by blast
  show "distinct (map re_declared_order (map fst ranked))" by (fact R(2))
qed

definition group_done :: "'v planner_input \<Rightarrow> nat \<Rightarrow> string \<Rightarrow> model_group \<Rightarrow> ranked_entry list \<Rightarrow> evaluation list
  \<Rightarrow> plan_state \<Rightarrow> plan_state \<Rightarrow> bool" where
  "group_done inp k gid g ranked evs s s' \<longleftrightarrow>
     group_by_id (po_groups (pi_policy inp)) gid = Some g
   \<and> ps_frozen s' = ps_frozen s @ freeze_all gid (length (ps_frozen s)) ranked
   \<and> ps_seen s' = List.rev (ranked_ids ranked) @ ps_seen s
   \<and> ps_groups s' = ps_groups s @ [\<lparr>gp_ordinal = k, gp_group_id = gid, gp_ranked_ids = ranked_ids ranked\<rparr>]
   \<and> ps_evaluations s' = ps_evaluations s @ evs
   \<and> map evaluation_key evs = declared_keys inp gid
   \<and> (\<forall>e \<in> set evs. ev_eligible e \<longleftrightarrow> ev_candidate_id e \<in> set (ranked_ids ranked))
   \<and> distinct (ranked_ids ranked) \<and> set (ranked_ids ranked) \<inter> set (ps_seen s) = {}
   \<and> (\<forall>e \<in> fst ` set ranked. entry_ok inp (ps_seen s) (mg_candidate_ids g) e)"

lemma plan_group_done:
  assumes "plan_group inp k gid s = Inr s'" and "well_referenced inp"
  shows "\<exists>g ranked evs. group_done inp k gid g ranked evs s s'"
proof -
  obtain g slots es anchor ranked out slots' s1 where
    g: "group_by_id (po_groups (pi_policy inp)) gid = Some g"
    and decl: "evaluate_declared inp (ps_seen s) gid 0 (mg_candidate_ids g) = Inr (slots, es)"
    and rank: "rank_group g es anchor = (ranked, out)"
    and place: "place_ranked gid ranked (write_exclusions gid out slots, s) = Inr (slots', s1)"
    and s': "s' = s1\<lparr>ps_evaluations := ps_evaluations s1 @ map the (filter (\<lambda>x. x \<noteq> None) slots'),
        ps_groups := ps_groups s1 @ [\<lparr>gp_ordinal = k, gp_group_id = gid, gp_ranked_ids = ranked_ids ranked\<rparr>]\<rparr>"
    using assms(1)
    by (auto simp: plan_group_def res_simps to_u32_def split_beta simp del: not_None_eq split: if_splits)
      (metis prod.collapse)
  let ?ids = "mg_candidate_ids g"
  define evs where "evs = map the (filter (\<lambda>x. x \<noteq> None) slots')"
  note S = group_slots [OF decl rank place]
  have ids: "distinct ?ids" using assms(2) group_found [OF g] by (auto simp: well_referenced_def)
  have filled: "length evs = length ?ids" "\<forall>m < length ?ids. slot_ok inp gid ?ids m (evs ! m)
      \<and> ev_eligible (evs ! m) = (m \<in> re_declared_order ` fst ` set ranked)"
    using filled_slots [OF conjunct2 [OF S(1)], folded evs_def] unfolding conjunct1 [OF S(1)] by blast+
  have at: "cf_candidate_id (re_candidate e) = ?ids ! re_declared_order e" "re_declared_order e < length ?ids"
    if "e \<in> fst ` set ranked" for e using S(2) that by (auto simp: entry_ok_def)
  have ids_ranked: "ranked_ids ranked = map (\<lambda>e. ?ids ! re_declared_order e) (map fst ranked)"
    using at(1) by (force simp: ranked_ids_def)
  have mem: "m \<in> re_declared_order ` fst ` set ranked \<longleftrightarrow> ?ids ! m \<in> set (ranked_ids ranked)" if "m < length ?ids" for m
  proof -
    have "m = re_declared_order e \<longleftrightarrow> ?ids ! m = ?ids ! re_declared_order e" if "e \<in> fst ` set ranked" for e
      using at(2) [OF that] \<open>m < length ?ids\<close> ids by (simp add: nth_eq_iff_index_eq)
    then have "(\<exists>e \<in> fst ` set ranked. m = re_declared_order e)
        \<longleftrightarrow> (\<exists>e \<in> fst ` set ranked. ?ids ! m = ?ids ! re_declared_order e)" by (rule bex_cong [OF refl])
    then show ?thesis unfolding ids_ranked image_iff by (simp add: image_iff)
  qed
  have "inj_on ((!) ?ids) (set (map re_declared_order (map fst ranked)))"
    using at ids by (auto simp: inj_on_def nth_eq_iff_index_eq)
  then have "distinct (ranked_ids ranked)"
    unfolding ids_ranked using S(3) by (simp add: distinct_map comp_inj_on_iff [symmetric] inj_on_def)
  moreover have "set (ranked_ids ranked) \<inter> set (ps_seen s) = {}"
    using S(2) by (auto simp: ranked_ids_def entry_ok_def)
  moreover have "map evaluation_key evs = declared_keys inp gid"
    by (rule nth_equalityI) (use filled in \<open>simp_all add: declared_keys_def g evaluation_key_def slot_ok_def\<close>)
  moreover have "\<forall>e \<in> set evs. ev_eligible e \<longleftrightarrow> ev_candidate_id e \<in> set (ranked_ids ranked)"
    using filled mem by (metis in_set_conv_nth slot_ok_def)
  ultimately show ?thesis
    unfolding group_done_def
    by (intro exI [of _ g] exI [of _ ranked] exI [of _ evs] conjI)
      (use g s' [folded evs_def] place_ranked_effect [OF place] S(2) in simp_all)
qed

section \<open>The plan loop\<close>

definition plan_ok :: "'v planner_input \<Rightarrow> string list \<Rightarrow> plan_state \<Rightarrow> bool" where
  "plan_ok inp gs s \<longleftrightarrow>
     map gp_group_id (ps_groups s) = gs
   \<and> map gp_ordinal (ps_groups s) = [0..<length gs]
   \<and> map frozen_key (ps_frozen s)
       = concat (map (\<lambda>p. map (Pair (gp_group_id p)) (gp_ranked_ids p)) (ps_groups s))
   \<and> map fz_ordinal (ps_frozen s) = [0..<length (ps_frozen s)]
   \<and> distinct (map fz_candidate_id (ps_frozen s))
   \<and> set (ps_seen s) = set (map fz_candidate_id (ps_frozen s))
   \<and> list_all (frozen_ok inp) (ps_frozen s)
   \<and> map evaluation_key (ps_evaluations s) = concat (map (declared_keys inp) gs)
   \<and> (\<forall>e \<in> set (ps_evaluations s).
        ev_eligible e \<longleftrightarrow> (ev_group_id e, ev_candidate_id e) \<in> set (map frozen_key (ps_frozen s)))"

lemma declared_keys_group: "(g, k, i) \<in> set (declared_keys inp gid) \<Longrightarrow> g = gid"
  by (auto simp: declared_keys_def split: option.splits)

lemma plan_ok_groups:
  assumes "plan_ok inp gs s"
  shows "e \<in> set (ps_evaluations s) \<Longrightarrow> ev_group_id e \<in> set gs"
    and "(g, i) \<in> set (map frozen_key (ps_frozen s)) \<Longrightarrow> g \<in> set gs"
proof -
  assume "e \<in> set (ps_evaluations s)"
  then have "evaluation_key e \<in> set (map evaluation_key (ps_evaluations s))" by simp
  then show "ev_group_id e \<in> set gs"
    using assms unfolding plan_ok_def by (auto simp: evaluation_key_def dest!: declared_keys_group)
next
  assume "(g, i) \<in> set (map frozen_key (ps_frozen s))"
  then show "g \<in> set gs" using assms unfolding plan_ok_def by auto
qed

lemma frozen_key_all: "map frozen_key (freeze_all gid n rs) = map (Pair gid) (ranked_ids rs)"
  using freeze_all_ids [of gid n rs] by (simp add: frozen_key_def [abs_def])

lemma frozen_ids: "map fz_candidate_id fs = map snd (map frozen_key fs)"
  by (simp add: frozen_key_def comp_def)

lemma frozen_ids_all: "map fz_candidate_id (freeze_all gid n rs) = ranked_ids rs"
  by (simp only: frozen_ids frozen_key_all) (simp add: comp_def)

lemma group_done_frozen:
  assumes "group_done inp k gid g ranked evs s s'" and "f \<in> set (freeze_all gid n ranked)"
  shows "frozen_ok inp f"
proof -
  obtain e r k where e: "(e, r) \<in> set ranked" "f = freeze (re_candidate e) gid k (re_projection e) r"
    using freeze_all_in [OF assms(2)] by blast
  then have "entry_ok inp (ps_seen s) (mg_candidate_ids g) e" "group_by_id (po_groups (pi_policy inp)) gid = Some g"
    using assms(1) by (force simp: group_done_def)+
  then show ?thesis
    unfolding frozen_ok_def e(2)
    by (intro exI [of _ "re_candidate e"] exI [of _ g] exI [of _ "re_projection e"])
      (auto simp: entry_ok_def freeze_def)
qed

lemma plan_ok_step:
  assumes ok: "plan_ok inp gs s" and step: "group_done inp (length gs) gid g ranked evs s s'"
    and new: "gid \<notin> set gs"
  shows "plan_ok inp (gs @ [gid]) s'"
proof -
  let ?F = "freeze_all gid (length (ps_frozen s)) ranked"
  have D: "ps_frozen s' = ps_frozen s @ ?F" "ps_seen s' = List.rev (ranked_ids ranked) @ ps_seen s"
    "ps_groups s' = ps_groups s @ [\<lparr>gp_ordinal = length gs, gp_group_id = gid, gp_ranked_ids = ranked_ids ranked\<rparr>]"
    "ps_evaluations s' = ps_evaluations s @ evs" "map evaluation_key evs = declared_keys inp gid"
    "\<forall>e \<in> set evs. ev_eligible e \<longleftrightarrow> ev_candidate_id e \<in> set (ranked_ids ranked)"
    "distinct (ranked_ids ranked)" "set (ranked_ids ranked) \<inter> set (ps_seen s) = {}"
    using step unfolding group_done_def by blast+
  have O: "map gp_group_id (ps_groups s) = gs" "map gp_ordinal (ps_groups s) = [0..<length gs]"
    "map frozen_key (ps_frozen s) = concat (map (\<lambda>p. map (Pair (gp_group_id p)) (gp_ranked_ids p)) (ps_groups s))"
    "map fz_ordinal (ps_frozen s) = [0..<length (ps_frozen s)]"
    "distinct (map fz_candidate_id (ps_frozen s))"
    "set (ps_seen s) = set (map fz_candidate_id (ps_frozen s))"
    "list_all (frozen_ok inp) (ps_frozen s)"
    "map evaluation_key (ps_evaluations s) = concat (map (declared_keys inp) gs)"
    "\<forall>e \<in> set (ps_evaluations s).
        ev_eligible e \<longleftrightarrow> (ev_group_id e, ev_candidate_id e) \<in> set (map frozen_key (ps_frozen s))"
    using ok unfolding plan_ok_def by blast+
  have len: "length ?F = length ranked" by (simp add: freeze_all_def)
  have keys: "set (map frozen_key (ps_frozen s')) = set (map frozen_key (ps_frozen s)) \<union> Pair gid ` set (ranked_ids ranked)"
    unfolding D(1) map_append frozen_key_all by simp
  have old: "ev_group_id e \<noteq> gid" if "e \<in> set (ps_evaluations s)" for e
    using plan_ok_groups(1) [OF ok that] new by blast
  have fresh: "ev_group_id e = gid" if "e \<in> set evs" for e
  proof -
    have "evaluation_key e \<in> set (declared_keys inp gid)" using that D(5) by (metis image_eqI set_map)
    then show ?thesis by (simp add: evaluation_key_def declared_keys_group)
  qed
  have none: "(gid, i) \<notin> set (map frozen_key (ps_frozen s))" for i
    using plan_ok_groups(2) [OF ok] new by blast
  have elig: "\<forall>e \<in> set (ps_evaluations s').
        ev_eligible e \<longleftrightarrow> (ev_group_id e, ev_candidate_id e) \<in> set (map frozen_key (ps_frozen s'))"
    unfolding keys D(4) using O(9) D(6) old fresh none by fastforce
  have frozen: "list_all (frozen_ok inp) ?F"
    using group_done_frozen [OF step] by (auto simp: list_all_iff)
  have ordinals: "map fz_ordinal (ps_frozen s') = [0..<length (ps_frozen s')]"
    unfolding D(1) map_append O(4) freeze_all_ordinals length_append len by (simp flip: upt_add_eq_append)
  have ids: "map fz_candidate_id (ps_frozen s') = map fz_candidate_id (ps_frozen s) @ ranked_ids ranked"
    unfolding D(1) map_append frozen_ids_all ..
  have dist: "distinct (map fz_candidate_id (ps_frozen s'))"
    unfolding ids using O(5) D(7,8) unfolding O(6) by (simp add: Int_commute)
  have seen: "set (ps_seen s') = set (map fz_candidate_id (ps_frozen s'))"
    unfolding ids D(2) using O(6) by auto
  have evk: "map evaluation_key (ps_evaluations s') = concat (map (declared_keys inp) (gs @ [gid]))"
    unfolding D(4) using O(8) D(5) by simp
  have frk: "map frozen_key (ps_frozen s')
       = concat (map (\<lambda>p. map (Pair (gp_group_id p)) (gp_ranked_ids p)) (ps_groups s'))"
    unfolding D(1,3) using O(3) frozen_key_all [of gid "length (ps_frozen s)" ranked] by simp
  show ?thesis
    unfolding plan_ok_def
    using O(1,2,7) D(1,3) frozen by (intro conjI elig ordinals dist seen evk frk) simp_all
qed

lemma plan_loop_ok:
  assumes "plan_loop inp k gs s = Inr s'" and "plan_ok inp pre s" and "length pre = k"
    and "distinct (pre @ gs)" and "well_referenced inp"
  shows "plan_ok inp (pre @ gs) s'"
  using assms
proof (induction inp k gs s arbitrary: pre rule: plan_loop.induct)
  case (2 inp k g gs s)
  obtain s1 where s1: "plan_group inp k g s = Inr s1" and rest: "plan_loop inp (Suc k) gs s1 = Inr s'"
    using "2.prems"(1) by (auto simp: res_simps)
  obtain gr ranked evs where step: "group_done inp k g gr ranked evs s s1"
    using plan_group_done [OF s1 "2.prems"(5)] by blast
  have "plan_ok inp (pre @ [g]) s1"
    using plan_ok_step [OF "2.prems"(2)] step "2.prems"(3,4) by auto
  then have "plan_ok inp ((pre @ [g]) @ gs) s'"
    by (rule "2.IH" [OF rest]) (use "2.prems" in auto)
  then show ?case by simp
qed simp

lemma plan_start_ok: "plan_ok inp [] plan_start"
  by (simp add: plan_ok_def plan_start_def)

end
