(* ===== verification/Planner_Claims.thy ===== *)
theory Planner_Claims
  imports Planner_Properties
begin

text \<open>
  The properties of a plan: soundness of the frozen candidate ledger, the cost boundary, the
  completeness of the evaluations, the isolation of the branches, the ranked order and its only
  exception, the context hold, and that a plan never indexes a map with a missing key.
\<close>

section \<open>The context hold\<close>

text \<open>The hold applied: the preference still names an eligible candidate of a selected group.\<close>

definition hold_applies :: "'v planner_input \<Rightarrow> string list \<Rightarrow> hold_preference \<Rightarrow> candidate_facts \<Rightarrow> projection \<Rightarrow> bool" where
  "hold_applies inp sel hold c j \<longleftrightarrow>
     pi_context_hold inp = Some hold
   \<and> candidate_by_id (pi_candidates inp) (ho_candidate_id hold) = Some c
   \<and> ho_origin_group_id hold \<in> set sel
   \<and> (\<exists>g. group_by_id (po_groups (pi_policy inp)) (ho_origin_group_id hold) = Some g
        \<and> ho_candidate_id hold \<in> set (mg_candidate_ids g))
   \<and> cf_stable_binding_id c = ho_binding_id hold \<and> cf_profile_digest c = ho_profile_digest hold
   \<and> evaluated_as inp c j \<and> pj_reasoning_profile_id j = ho_reasoning_profile_id hold"

lemma map_numbered:
  assumes "\<And>k a. f (u k a) = g a"
  shows "map f (map (\<lambda>(k, a). u k a) (zip [0..<length xs] xs)) = map g xs"
  by (rule nth_equalityI) (simp_all add: assms)

lemma renumber_simps:
  "map frozen_key (renumber fs) = map frozen_key fs" "map fz_ordinal (renumber fs) = [0..<length fs]"
  "map fz_candidate_id (renumber fs) = map fz_candidate_id fs" "length (renumber fs) = length fs"
  unfolding renumber_def
  by (rule map_numbered, simp add: frozen_key_def, rule nth_equalityI, simp_all, rule nth_equalityI, simp_all)

lemma renumber_in: "f \<in> set (renumber fs) \<Longrightarrow> \<exists>f' \<in> set fs. \<exists>k. f = f'\<lparr>fz_ordinal := k\<rparr>"
  by (auto simp: renumber_def dest: set_zip_rightD)

lemma frozen_ok_ordinal: "frozen_ok inp f \<Longrightarrow> frozen_ok inp (f\<lparr>fz_ordinal := k\<rparr>)"
  by (auto simp: frozen_ok_def freeze_def) (metis (no_types, lifting) frozen_candidate.surjective frozen_candidate.update_convs(1))

lemma apply_context_hold_cases:
  assumes "apply_context_hold inp sel h = Inr h'"
  obtains (kept) "hs_frozen h' = hs_frozen h" "hs_evaluations h' = hs_evaluations h"
      "pi_context_hold inp = None \<longrightarrow> hs_reasons h' = hs_reasons h"
      "rs_code ` set (hs_reasons h') \<subseteq> rs_code ` set (hs_reasons h) \<union> {ContextHoldInvalidated}"
    | (held) hold c j evs where "hold_applies inp sel hold c j"
        "hs_frozen h' = renumber (freeze c (ho_origin_group_id hold) 0 j [ContextModelHold]
            # filter (\<lambda>f. fz_candidate_id f \<noteq> ho_candidate_id hold) (hs_frozen h))"
        "hs_evaluations h' = hs_evaluations h @ evs"
        "list_ex (\<lambda>e. ev_candidate_id e = ho_candidate_id hold \<and> ev_group_id e = ho_origin_group_id hold)
            (hs_evaluations h) \<Longrightarrow> evs = []"
        "hs_reasons h' = hs_reasons h @ [reason ContextHoldApplied (Some (ho_origin_group_id hold))]"
proof (cases "pi_context_hold inp")
  case None
  then show ?thesis using assms by (intro kept) (auto simp: apply_context_hold_def)
next
  case (Some hold)
  show ?thesis
  proof (cases "\<exists>g. h' = hold_invalid g h")
    case True
    then show ?thesis using Some by (intro kept) (auto simp: hold_invalid_def reason_def)
  next
    case False
    obtain c g k j where c: "candidate_by_id (pi_candidates inp) (ho_candidate_id hold) = Some c"
      and g: "group_by_id (po_groups (pi_policy inp)) (ho_origin_group_id hold) = Some g"
      and sel: "ho_origin_group_id hold \<in> set sel"
      and k: "position (\<lambda>i. i = ho_candidate_id hold) (mg_candidate_ids g) = Some k"
      and b: "cf_stable_binding_id c = ho_binding_id hold" "cf_profile_digest c = ho_profile_digest hold"
      and j: "evaluated_as inp c j" "pj_reasoning_profile_id j = ho_reasoning_profile_id hold"
      and app: "apply_hold hold c g k j h = Inr h'"
      using assms False Some
      by (auto simp: apply_context_hold_def split: option.splits if_splits sum.splits)
    have "hold_applies inp sel hold c j"
      using Some c g sel b j position_Some [OF k] unfolding hold_applies_def by (auto simp: in_set_conv_nth)
    moreover have "mg_group_id g = ho_origin_group_id hold" using group_found [OF g] by simp
    ultimately show ?thesis
      using app
      by (cases "list_ex (\<lambda>e. ev_candidate_id e = ho_candidate_id hold \<and> ev_group_id e = ho_origin_group_id hold)
          (hs_evaluations h)")
        ((intro held [of hold c j "[]"] held [of hold c j "[eligible_evaluation c (ho_origin_group_id hold) k j]"],
          auto simp: apply_hold_def res_simps Let_def to_u32_def split: if_splits)+)
  qed
qed

section \<open>The parts of a plan\<close>

text \<open>What the output is made of: the groups, the plan state after the last group, the state after the hold.\<close>

definition planned :: "planner_env \<Rightarrow> 'v planner_input \<Rightarrow> planner_output \<Rightarrow> selection \<Rightarrow> plan_state \<Rightarrow> hold_state \<Rightarrow> bool" where
  "planned env inp out sel s h \<longleftrightarrow>
     validate_input env inp = Inr () \<and> select_groups inp = Inr sel
   \<and> plan_ok inp (sl_groups sel) s
   \<and> apply_context_hold inp (sl_groups sel)
       \<lparr>hs_evaluations = ps_evaluations s, hs_frozen = ps_frozen s, hs_reasons = sl_reasons sel\<rparr> = Inr h
   \<and> ou_frozen out = hs_frozen h \<and> ou_evaluations out = hs_evaluations h \<and> ou_groups out = ps_groups s
   \<and> map rs_code (ou_reasons out) = map rs_code (hs_reasons h)
   \<and> ou_branch out = sl_branch sel
   \<and> ou_outcome out = (if hs_frozen h = [] then NoEligibleCandidates else Ready)"

lemma plan_planned:
  assumes "plan env inp = Inr out"
  shows "\<exists>sel s h. planned env inp out sel s h"
proof -
  obtain sel dg s h reasons where p: "validate_input env inp = Inr ()" "select_groups inp = Inr sel"
      "plan_loop inp 0 (sl_groups sel) plan_start = Inr s"
      "apply_context_hold inp (sl_groups sel)
         \<lparr>hs_evaluations = ps_evaluations s, hs_frozen = ps_frozen s, hs_reasons = sl_reasons sel\<rparr> = Inr h"
      "number_reasons (hs_reasons h) = Inr reasons"
    and out: "ou_frozen out = hs_frozen h" "ou_evaluations out = hs_evaluations h" "ou_groups out = ps_groups s"
      "ou_reasons out = reasons" "ou_branch out = sl_branch sel"
      "ou_outcome out = (if hs_frozen h = [] then NoEligibleCandidates else Ready)"
    using assms unfolding plan_def and_then_Inr Let_def output_seal_def by auto
  note V = validated [OF p(1)]
  have "map rs_code reasons = map rs_code (hs_reasons h)"
    using p(5) map_numbered [of rs_code "\<lambda>k r. r\<lparr>rs_ordinal := k\<rparr>" rs_code "hs_reasons h"]
    unfolding number_reasons_def and_then_Inr by simp
  moreover have "plan_ok inp ([] @ sl_groups sel) s"
    by (rule plan_loop_ok [OF p(3) plan_start_ok]) (use selected_groups_exist [OF V(2) p(2)] V(1) in auto)
  ultimately show ?thesis
    unfolding planned_def using p out by (intro exI [of _ sel] exI [of _ s] exI [of _ h]) simp
qed

lemma declared_evaluation:
  assumes "plan_ok inp gs s" and "gid \<in> set gs" and "group_by_id (po_groups (pi_policy inp)) gid = Some g"
    and "i \<in> set (mg_candidate_ids g)"
  shows "list_ex (\<lambda>e. ev_candidate_id e = i \<and> ev_group_id e = gid) (ps_evaluations s)"
proof -
  obtain k where k: "k < length (mg_candidate_ids g)" "mg_candidate_ids g ! k = i" using assms(4) by (auto simp: in_set_conv_nth)
  then have "(gid, k, i) \<in> set (declared_keys inp gid)" using assms(3) by (auto simp: declared_keys_def)
  then have "(gid, k, i) \<in> set (map evaluation_key (ps_evaluations s))"
    using assms(1,2) unfolding plan_ok_def by auto
  then show ?thesis by (auto simp: list_ex_iff evaluation_key_def)
qed

text \<open>The output against the plan state: a hold only moves or inserts its candidate at the head.\<close>

lemma planned_output:
  assumes "planned env inp out sel s h"
  shows "ou_evaluations out = ps_evaluations s"
    and "ou_frozen out = ps_frozen s \<and> ContextHoldApplied \<notin> rs_code ` set (ou_reasons out)
      \<or> (\<exists>hold c j. hold_applies inp (sl_groups sel) hold c j
          \<and> ou_frozen out = renumber (freeze c (ho_origin_group_id hold) 0 j [ContextModelHold]
              # filter (\<lambda>f. fz_candidate_id f \<noteq> ho_candidate_id hold) (ps_frozen s))
          \<and> ContextHoldApplied \<in> rs_code ` set (ou_reasons out))"
proof -
  have A: "apply_context_hold inp (sl_groups sel)
       \<lparr>hs_evaluations = ps_evaluations s, hs_frozen = ps_frozen s, hs_reasons = sl_reasons sel\<rparr> = Inr h"
    and P: "plan_ok inp (sl_groups sel) s" and S: "select_groups inp = Inr sel"
    and out: "ou_frozen out = hs_frozen h" "ou_evaluations out = hs_evaluations h"
      "map rs_code (ou_reasons out) = map rs_code (hs_reasons h)"
    using assms unfolding planned_def by blast+
  have codes: "rs_code ` set (ou_reasons out) = rs_code ` set (hs_reasons h)"
    using arg_cong [OF out(3), of set] by simp
  have none: "ContextHoldApplied \<notin> rs_code ` set (sl_reasons sel)"
    using S by (auto simp: select_groups_def res_simps reason_def split: route.splits free_exhaustion.splits if_splits)
  show "ou_evaluations out = ps_evaluations s"
    using A
  proof (cases rule: apply_context_hold_cases)
    case (held hold c j evs)
    obtain g where "group_by_id (po_groups (pi_policy inp)) (ho_origin_group_id hold) = Some g"
        "ho_candidate_id hold \<in> set (mg_candidate_ids g)" "ho_origin_group_id hold \<in> set (sl_groups sel)"
      using held(1) unfolding hold_applies_def by blast
    then have "evs = []" using declared_evaluation [OF P] held(4) by simp
    then show ?thesis using held(3) out(2) by simp
  qed (simp add: out)
  show "ou_frozen out = ps_frozen s \<and> ContextHoldApplied \<notin> rs_code ` set (ou_reasons out)
      \<or> (\<exists>hold c j. hold_applies inp (sl_groups sel) hold c j
          \<and> ou_frozen out = renumber (freeze c (ho_origin_group_id hold) 0 j [ContextModelHold]
              # filter (\<lambda>f. fz_candidate_id f \<noteq> ho_candidate_id hold) (ps_frozen s))
          \<and> ContextHoldApplied \<in> rs_code ` set (ou_reasons out))"
    using A
  proof (cases rule: apply_context_hold_cases)
    case kept
    then show ?thesis using none codes out(1) by auto
  next
    case (held hold c j evs)
    have "ContextHoldApplied \<in> rs_code ` set (ou_reasons out)" unfolding codes held(5) by (simp add: reason_def)
    then show ?thesis using held(1,2) out(1) by auto
  qed
qed

section \<open>A plan\<close>

text \<open>A custom route over two exact candidates; the hold of the input names the second.\<close>

definition sample_env :: planner_env where
  "sample_env = \<lparr>en_policy_digest = (\<lambda>_. Inr ''pd''), en_profile_digest = (\<lambda>_. Inr ''d''),
     en_strategy_digest = (\<lambda>_. Inr ''sd''), en_facts_digest = (\<lambda>_. Inr ''fd''),
     en_output_digest = (\<lambda>_. Inr ''od''), en_fold_text = (\<lambda>t. t)\<rparr>"

definition sample_group :: model_group where
  "sample_group = \<lparr>mg_group_id = ''g'', mg_policy = Manual, mg_candidate_ids = [''c1'', ''c2'']\<rparr>"

definition sample_policy :: compiled_policy where
  "sample_policy = \<lparr>po_schema_version = ''hiroute.compiled-planner-policy/v1'',
     po_served_model_id = rq_served_model_id sample_request, po_identity = PlanIdentity ''p'' 1,
     po_route = CustomRoute ''g'', po_groups = [sample_group], po_strategy = None, po_cost_policy = StrictFree,
     po_limits = sample_request_limits, po_policy_digest = ''pd''\<rparr>"

definition sample_candidate :: "string \<Rightarrow> candidate_facts" where
  "sample_candidate cid = portable_facts cid Responses Free None"

definition sample_hold :: hold_preference where
  "sample_hold = \<lparr>ho_binding_id = ''b-c2'', ho_candidate_id = ''c2'', ho_profile_digest = ''d'',
     ho_reasoning_profile_id = ''high'', ho_origin_group_id = ''g''\<rparr>"

definition sample_input :: "nat planner_input" where
  "sample_input = \<lparr>pi_schema_version = ''hiroute.planner-input/v1'', pi_request = sample_request,
     pi_correlated_branch = None, pi_classification_decision = None, pi_classification_facts = None,
     pi_context_hold = Some sample_hold, pi_policy = sample_policy,
     pi_candidates = [sample_candidate ''c1'', sample_candidate ''c2'']\<rparr>"

lemma sample_candidate_sel [simp]:
  "cf_candidate_id (sample_candidate i) = i" "cf_stable_binding_id (sample_candidate i) = ''b-'' @ i"
  "cf_profile_digest (sample_candidate i) = ''d''" "cf_cost_class (sample_candidate i) = Free"
  "cf_schema_version (sample_candidate i) = ''hiroute.planner-candidate-facts/v1''"
  "cf_serialized_bytes (sample_candidate i) = 1000" "cf_score (sample_candidate i) = None"
  by (simp_all add: sample_candidate_def portable_facts_def)

lemma sample_hold_sel [simp]:
  "ho_binding_id sample_hold = ''b-c2''" "ho_candidate_id sample_hold = ''c2''"
  "ho_profile_digest sample_hold = ''d''" "ho_reasoning_profile_id sample_hold = ''high''"
  "ho_origin_group_id sample_hold = ''g''"
  by (simp_all add: sample_hold_def)

lemma sample_evaluated: "evaluated_as sample_input (sample_candidate i) sample_projection_of"
proof -
  have c: "sample_candidate i = (portable_facts ''c1'' Responses Free None)
      \<lparr>cf_candidate_id := i, cf_stable_binding_id := ''b-'' @ i\<rparr>"
    by (simp add: sample_candidate_def portable_facts_def)
  have g: "context_gate (c\<lparr>cf_candidate_id := i, cf_stable_binding_id := b\<rparr>) = context_gate c"
    "static_cost_gate (c\<lparr>cf_candidate_id := i, cf_stable_binding_id := b\<rparr>) = static_cost_gate c"
    "(\<lambda>_ :: unit. effective_cost (c\<lparr>cf_candidate_id := i, cf_stable_binding_id := b\<rparr>)) = (\<lambda>_. effective_cost c)" for c :: candidate_facts and b
    by ((rule ext)+, simp add: context_gate_def static_cost_gate_def effective_cost_def Let_def
      cong: option.case_cong cache_cost.case_cong)+
  have "evaluate_candidate q (c\<lparr>cf_candidate_id := i, cf_stable_binding_id := b\<rparr>) p l = evaluate_candidate q c p l"
    for q :: "nat model_request" and c :: candidate_facts and p l b
    using fun_cong [OF g(3)] by (simp add: evaluate_candidate_def g)
  then show ?thesis using sample_eligible by (simp add: c sample_input_def sample_policy_def)
qed

lemma sample_lookups:
  "candidate_by_id (pi_candidates sample_input) ''c1'' = Some (sample_candidate ''c1'')"
  "candidate_by_id (pi_candidates sample_input) ''c2'' = Some (sample_candidate ''c2'')"
  "group_by_id (po_groups (pi_policy sample_input)) ''g'' = Some sample_group"
  by (simp_all add: candidate_by_id_def group_by_id_def sample_input_def sample_policy_def sample_group_def)

lemma sample_validated: "validate_input sample_env sample_input = Inr ()"
proof -
  have "check_identity sample_input = Inr ()"
    by (simp add: check_identity_def sample_input_def sample_policy_def identity_invalid_def fixed_identity_def
        ensure_def sample_request_limits_def sample_request_def)
  moreover have "check_policy_digest sample_env sample_policy = Inr ()"
    by (simp add: check_policy_digest_def recompute_policy_digest_def sample_env_def sample_policy_def ensure_def)
  moreover have "check_groups [sample_group] = Inr ()"
    by (simp add: check_groups_def sample_group_def group_valid_def ensure_def)
  moreover have "check_route sample_env sample_policy = Inr ()"
    by (simp add: check_route_def sample_policy_def sample_group_def require_group_def group_by_id_def manual_def
        distinct_count_def ensure_def)
  moreover have "check_candidates sample_env [] [] [sample_candidate ''c1'', sample_candidate ''c2''] = Inr ()"
    by (simp add: sample_env_def)
  ultimately show ?thesis
    unfolding validate_input_def Let_def run_checks_ok
    by (simp add: sample_input_def ensure_def sample_policy_def check_free_pool_def)
      (simp add: sample_group_def sample_request_def insert_commute)
qed

lemma sample_declared:
  "evaluate_declared sample_input [] ''g'' 0 [''c1'', ''c2''] = Inr ([None, None],
     [\<lparr>re_candidate = sample_candidate ''c1'', re_projection = sample_projection_of, re_declared_order = 0\<rparr>,
      \<lparr>re_candidate = sample_candidate ''c2'', re_projection = sample_projection_of, re_declared_order = 1\<rparr>])"
  by (simp add: sample_lookups sample_evaluated to_u32_def u32_max_def)

lemma sample_planned: "\<exists>out. plan sample_env sample_input = Inr out \<and> map frozen_key (ou_frozen out) = [(''g'', ''c2''), (''g'', ''c1'')]"
proof -
  obtain s where s: "plan_loop sample_input 0 [''g''] plan_start = Inr s"
    and f: "map frozen_key (ps_frozen s) = [(''g'', ''c1''), (''g'', ''c2'')]"
    by (simp add: plan_group_def sample_lookups plan_start_def sample_declared sample_group_def guard_anchor_def
        rank_group_def select_eligible_def Let_def to_u32_def u32_max_def write_exclusions_def frozen_key_def freeze_def
        del: evaluate_declared.simps)
  have sel: "select_groups sample_input = Inr \<lparr>sl_branch = CustomExactOrder, sl_decision = None, sl_facts = None,
      sl_groups = [''g''], sl_reasons = [reason CustomNoClassification None, reason ChoseCustomExactOrder None]\<rparr>"
    by (simp add: select_groups_def sample_input_def sample_policy_def)
  have hold: "apply_context_hold sample_input [''g'']
      \<lparr>hs_evaluations = ps_evaluations s, hs_frozen = ps_frozen s,
       hs_reasons = [reason CustomNoClassification None, reason ChoseCustomExactOrder None]\<rparr>
    = apply_hold sample_hold (sample_candidate ''c2'') sample_group 1 sample_projection_of
        \<lparr>hs_evaluations = ps_evaluations s, hs_frozen = ps_frozen s,
         hs_reasons = [reason CustomNoClassification None, reason ChoseCustomExactOrder None]\<rparr>"
  proof -
    have "pi_context_hold sample_input = Some sample_hold" by (simp add: sample_input_def)
    then show ?thesis
      using sample_evaluated [of "''c2''"]
      by (simp add: apply_context_hold_def sample_lookups) (simp add: sample_group_def sample_projection_of_def)
  qed
  obtain a b where ab: "ps_frozen s = [a, b]" "frozen_key a = (''g'', ''c1'')" "frozen_key b = (''g'', ''c2'')"
    using f by (auto simp: map_eq_Cons_conv)
  have "\<exists>h. apply_context_hold sample_input [''g'']
        \<lparr>hs_evaluations = ps_evaluations s, hs_frozen = ps_frozen s,
         hs_reasons = [reason CustomNoClassification None, reason ChoseCustomExactOrder None]\<rparr> = Inr h
      \<and> map frozen_key (hs_frozen h) = [(''g'', ''c2''), (''g'', ''c1'')] \<and> length (hs_reasons h) = 3"
    unfolding hold using ab
    by (simp add: apply_hold_def to_u32_def u32_max_def Let_def renumber_simps frozen_key_def)
      (simp add: freeze_def sample_group_def)
  then obtain h where h: "apply_context_hold sample_input [''g'']
      \<lparr>hs_evaluations = ps_evaluations s, hs_frozen = ps_frozen s,
       hs_reasons = [reason CustomNoClassification None, reason ChoseCustomExactOrder None]\<rparr> = Inr h"
    "map frozen_key (hs_frozen h) = [(''g'', ''c2''), (''g'', ''c1'')]" "length (hs_reasons h) = 3"
    by (elim exE conjE) (rule that)
  have "to_u32 (length (hs_reasons h) - 1) = Inr 2" unfolding h(3) by (simp add: to_u32_def u32_max_def)
  then obtain rs where "number_reasons (hs_reasons h) = Inr rs" by (simp only: number_reasons_def and_then.simps)
  moreover have "planning_facts_digest sample_env sample_input d fs = Inr ''fd''" for d fs
    by (simp add: planning_facts_digest_def sample_env_def)
  moreover have "output_seal sample_env o1 = Inr (o1\<lparr>ou_output_digest := ''od''\<rparr>)" for o1
    by (simp add: output_seal_def sample_env_def)
  ultimately have "\<exists>o1. plan sample_env sample_input = Inr o1 \<and> ou_frozen o1 = hs_frozen h"
    unfolding plan_def sample_validated sel and_then.simps selection.simps s h(1) Let_def
    by (simp del: renumber_simps)
  then show ?thesis using h(2) by auto
qed

section \<open>Properties\<close>

lemma held_frozen_ok:
  assumes "hold_applies inp sel hold c j"
  shows "frozen_ok inp (freeze c (ho_origin_group_id hold) n j rs)" "cf_candidate_id c = ho_candidate_id hold"
proof -
  show id: "cf_candidate_id c = ho_candidate_id hold"
    using assms candidate_found unfolding hold_applies_def by blast
  show "frozen_ok inp (freeze c (ho_origin_group_id hold) n j rs)"
    using assms id unfolding frozen_ok_def hold_applies_def by (auto simp: freeze_def)
qed

lemma planned_frozen:
  assumes "planned env inp out sel s h"
  shows "distinct (map fz_candidate_id (ou_frozen out))"
    "map fz_ordinal (ou_frozen out) = [0..<length (ou_frozen out)]"
    "f \<in> set (ou_frozen out) \<Longrightarrow> frozen_ok inp f"
    "f \<in> set (ou_frozen out) \<Longrightarrow> fz_group_id f \<in> set (sl_groups sel)"
proof -
  have P: "plan_ok inp (sl_groups sel) s" using assms unfolding planned_def by blast
  note O = P [unfolded plan_ok_def]
  have group: "fz_group_id f \<in> set (sl_groups sel)" if "f \<in> set (ps_frozen s)" for f
    using plan_ok_groups(2) [OF P, of "fz_group_id f" "fz_candidate_id f"] that by (auto simp: frozen_key_def)
  from planned_output(2) [OF assms]
  have "distinct (map fz_candidate_id (ou_frozen out)) \<and> map fz_ordinal (ou_frozen out) = [0..<length (ou_frozen out)]
    \<and> (\<forall>f \<in> set (ou_frozen out). frozen_ok inp f \<and> fz_group_id f \<in> set (sl_groups sel))"
  proof (elim disjE exE conjE)
    assume "ou_frozen out = ps_frozen s"
    then show ?thesis using O group by (simp add: list_all_iff)
  next
    fix hold :: hold_preference and c :: candidate_facts and j
    let ?fs = "freeze c (ho_origin_group_id hold) 0 j [ContextModelHold]
              # filter (\<lambda>f. fz_candidate_id f \<noteq> ho_candidate_id hold) (ps_frozen s)"
    assume hold: "hold_applies inp (sl_groups sel) hold c j" and out: "ou_frozen out = renumber ?fs"
    have id: "fz_candidate_id (freeze c (ho_origin_group_id hold) 0 j [ContextModelHold]) = ho_candidate_id hold"
      using held_frozen_ok(2) [OF hold] by (simp add: freeze_def)
    have "\<forall>f \<in> set ?fs. frozen_ok inp f \<and> fz_group_id f \<in> set (sl_groups sel)"
      using held_frozen_ok(1) [OF hold] O group hold by (auto simp: list_all_iff hold_applies_def freeze_def)
    then have "\<forall>f \<in> set (ou_frozen out). frozen_ok inp f \<and> fz_group_id f \<in> set (sl_groups sel)"
      unfolding out using renumber_in frozen_ok_ordinal by fastforce
    moreover have "distinct (map fz_candidate_id (ou_frozen out))"
      unfolding out renumber_simps(3) using O id by (auto simp: distinct_map_filter)
    ultimately show ?thesis unfolding out renumber_simps(2,4) by blast
  qed
  then show "distinct (map fz_candidate_id (ou_frozen out))"
    "map fz_ordinal (ou_frozen out) = [0..<length (ou_frozen out)]"
    "f \<in> set (ou_frozen out) \<Longrightarrow> frozen_ok inp f"
    "f \<in> set (ou_frozen out) \<Longrightarrow> fz_group_id f \<in> set (sl_groups sel)" by blast+
qed

lemma frozen_class:
  assumes "frozen_ok inp f"
  shows "class_allowed (po_cost_policy (pi_policy inp)) (fz_cost_class f)"
proof -
  obtain c j where "evaluated_as inp c j" "fz_cost_class f = cf_cost_class c"
    using assms unfolding frozen_ok_def by (metis freeze_def frozen_candidate.select_convs(11))
  then show ?thesis using class_allowed_eligible by metis
qed

text \<open>
  C32. The ledger of a plan is sound: its ids are distinct, its ordinals are dense from zero, the
  outcome is ready exactly when it is not empty, and every entry is the projection of a candidate
  of the input that its group declares and that passes every gate for this request.
\<close>

theorem plan_ledger_sound:
  assumes "plan env inp = Inr out"
  shows "distinct (map fz_candidate_id (ou_frozen out))
    \<and> map fz_ordinal (ou_frozen out) = [0..<length (ou_frozen out)]
    \<and> (ou_outcome out = Ready \<longleftrightarrow> ou_frozen out \<noteq> [])
    \<and> (\<forall>f \<in> set (ou_frozen out). frozen_ok inp f)"
proof -
  obtain sel s h where p: "planned env inp out sel s h" using plan_planned [OF assms] by blast
  show ?thesis using planned_frozen [OF p] p by (auto simp: planned_def)
qed

theorem plan_ledger_sound_witness:
  "\<exists>out. plan sample_env sample_input = Inr out \<and> ou_outcome out = Ready \<and> map fz_ordinal (ou_frozen out) = [0, 1]"
proof -
  obtain out where out: "plan sample_env sample_input = Inr out" "map frozen_key (ou_frozen out) = [(''g'', ''c2''), (''g'', ''c1'')]"
    using sample_planned by (elim exE conjE) (rule that)
  have "length (ou_frozen out) = 2" using arg_cong [OF out(2), of length] by simp
  then show ?thesis using plan_ledger_sound [OF out(1)] out(1) by (auto simp: upt_rec numeral_2_eq_2)
qed

text \<open>
  C33. A plan never crosses the cost boundary: every frozen candidate is of a cost class the policy
  allows, and a free-only route freezes free candidates only, whatever hold the request carries.
\<close>

theorem plan_cost_boundary:
  assumes "plan env inp = Inr out"
  shows "(\<forall>f \<in> set (ou_frozen out). class_allowed (po_cost_policy (pi_policy inp)) (fz_cost_class f))
    \<and> (case po_route (pi_policy inp) of FreeFirst _ FreeOnly _ \<Rightarrow> \<forall>f \<in> set (ou_frozen out). fz_cost_class f = Free | _ \<Rightarrow> True)"
proof -
  obtain sel s h where p: "planned env inp out sel s h" using plan_planned [OF assms] by blast
  have allowed: "\<forall>f \<in> set (ou_frozen out). class_allowed (po_cost_policy (pi_policy inp)) (fz_cost_class f)"
    using planned_frozen(3) [OF p] frozen_class by blast
  have "check_route env (pi_policy inp) = Inr ()" using p validated unfolding planned_def by blast
  then have "case po_route (pi_policy inp) of FreeFirst _ FreeOnly _ \<Rightarrow> po_cost_policy (pi_policy inp) = StrictFree | _ \<Rightarrow> True"
    by (auto simp: check_route_def res_simps Let_def split: route.splits free_exhaustion.splits if_splits)
  then show ?thesis using allowed by (auto simp: class_allowed_def split: route.splits free_exhaustion.splits)
qed

theorem plan_cost_boundary_witness:
  "\<exists>out. plan sample_env sample_input = Inr out \<and> ou_frozen out \<noteq> [] \<and> (\<forall>f \<in> set (ou_frozen out). fz_cost_class f = Free)"
proof -
  obtain out where out: "plan sample_env sample_input = Inr out" "map frozen_key (ou_frozen out) = [(''g'', ''c2''), (''g'', ''c1'')]"
    using sample_planned by (elim exE conjE) (rule that)
  have p: "po_cost_policy (pi_policy sample_input) = StrictFree" by (simp add: sample_input_def sample_policy_def)
  have "class_allowed StrictFree (fz_cost_class f)" if "f \<in> set (ou_frozen out)" for f
    using conjunct1 [OF plan_cost_boundary [OF out(1)]] that unfolding p by blast
  then have "\<forall>f \<in> set (ou_frozen out). fz_cost_class f = Free" by (simp add: class_allowed_def)
  moreover have "ou_frozen out \<noteq> []" using arg_cong [OF out(2), of length] by auto
  ultimately show ?thesis using out(1) by metis
qed

text \<open>
  Every declared candidate of the groups a plan chose is accounted for exactly once, in the
  order of declaration, with or without a context hold.
\<close>

theorem plan_evaluations_complete:
  assumes "plan env inp = Inr out"
  shows "map evaluation_key (ou_evaluations out)
      = concat (map (declared_keys inp) (map gp_group_id (ou_groups out)))
    \<and> map gp_ordinal (ou_groups out) = [0..<length (ou_groups out)]
    \<and> distinct (map gp_group_id (ou_groups out))"
proof -
  obtain sel s h where p: "planned env inp out sel s h" using plan_planned [OF assms] by blast
  have O: "plan_ok inp (sl_groups sel) s" "ou_groups out = ps_groups s" using p unfolding planned_def by blast+
  have "distinct (sl_groups sel)"
    using p selected_groups_exist(2) validated(2) unfolding planned_def by blast
  moreover have "length (ps_groups s) = length (sl_groups sel)" using O(1) unfolding plan_ok_def by (metis length_map)
  ultimately show ?thesis
    using planned_output(1) [OF p] O unfolding plan_ok_def by simp
qed

theorem plan_evaluations_complete_witness:
  "\<exists>out. plan sample_env sample_input = Inr out \<and> distinct (map gp_group_id (ou_groups out))
    \<and> map evaluation_key (ou_evaluations out)
      = concat (map (declared_keys sample_input) (map gp_group_id (ou_groups out)))"
proof -
  obtain out where out: "plan sample_env sample_input = Inr out" using sample_planned by (elim exE conjE) (rule that)
  show ?thesis
    using out plan_evaluations_complete [OF out] by metis
qed

text \<open>
  C34. The branches of a smart saving route are isolated: a request judged complex freezes
  candidates of the complex group only, one judged simple only of the simple group and its declared
  fallbacks, and the branch is the one of the validated decision.
\<close>

theorem plan_branch_isolation:
  assumes "plan env inp = Inr out" and "po_route (pi_policy inp) = SmartSaving simple fallbacks complex"
  shows "\<exists>d. pi_classification_decision inp = Some d
    \<and> (bd_branch_id d = COMPLEX_BRANCH_ID \<and> ou_branch out = SmartSavingComplex
          \<and> (\<forall>f \<in> set (ou_frozen out). fz_group_id f = complex)
       \<or> bd_branch_id d = SIMPLE_BRANCH_ID \<and> ou_branch out = SmartSavingSimple
          \<and> (\<forall>f \<in> set (ou_frozen out). fz_group_id f \<in> set (simple # fallbacks)))"
proof -
  obtain sel s h where p: "planned env inp out sel s h" using plan_planned [OF assms(1)] by blast
  then have "select_groups inp = Inr sel" "ou_branch out = sl_branch sel" unfolding planned_def by blast+
  moreover have "\<forall>f \<in> set (ou_frozen out). fz_group_id f \<in> set (sl_groups sel)"
    using planned_frozen(4) [OF p] by blast
  ultimately show ?thesis
    using assms(2)
    by (auto simp: select_groups_def res_simps split: if_splits)
qed

text \<open>
  C35. The ledger follows the ranking of the groups: without an applied hold it is the ranked
  candidates of the groups in order, and an evaluation is eligible exactly when its candidate is
  frozen for its group; an applied hold puts its candidate at the head and keeps the rest in order.
\<close>

theorem plan_ranked_order:
  assumes "plan env inp = Inr out"
  shows "let ranked = concat (map (\<lambda>p. map (Pair (gp_group_id p)) (gp_ranked_ids p)) (ou_groups out))
    in (\<forall>e \<in> set (ou_evaluations out). ev_eligible e \<longleftrightarrow> (ev_group_id e, ev_candidate_id e) \<in> set ranked)
     \<and> (if ContextHoldApplied \<in> rs_code ` set (ou_reasons out)
        then \<exists>hold. pi_context_hold inp = Some hold
          \<and> map frozen_key (ou_frozen out) = (ho_origin_group_id hold, ho_candidate_id hold)
              # filter (\<lambda>k. snd k \<noteq> ho_candidate_id hold) ranked
          \<and> fz_reasoning_profile_id (hd (ou_frozen out)) = ho_reasoning_profile_id hold
          \<and> fz_profile_digest (hd (ou_frozen out)) = ho_profile_digest hold
        else map frozen_key (ou_frozen out) = ranked)"
proof -
  obtain sel s h where p: "planned env inp out sel s h" using plan_planned [OF assms] by blast
  have O: "plan_ok inp (sl_groups sel) s" "ou_groups out = ps_groups s" using p unfolding planned_def by blast+
  let ?R = "concat (map (\<lambda>p. map (Pair (gp_group_id p)) (gp_ranked_ids p)) (ou_groups out))"
  have R1: "map frozen_key (ps_frozen s) = ?R" using O unfolding plan_ok_def by metis
  have "\<forall>e \<in> set (ps_evaluations s). ev_eligible e \<longleftrightarrow> (ev_group_id e, ev_candidate_id e) \<in> set ?R"
    unfolding R1 [symmetric] using O(1) unfolding plan_ok_def by blast
  note R = R1 this
  from planned_output(2) [OF p] show ?thesis
  proof (elim disjE exE conjE)
    assume "ou_frozen out = ps_frozen s" "ContextHoldApplied \<notin> rs_code ` set (ou_reasons out)"
    then show ?thesis using R planned_output(1) [OF p] by simp
  next
    fix hold :: hold_preference and c :: candidate_facts and j
    let ?f = "freeze c (ho_origin_group_id hold) 0 j [ContextModelHold]"
    assume hold: "hold_applies inp (sl_groups sel) hold c j" "ContextHoldApplied \<in> rs_code ` set (ou_reasons out)"
      and out: "ou_frozen out = renumber (?f # filter (\<lambda>f. fz_candidate_id f \<noteq> ho_candidate_id hold) (ps_frozen s))"
    have "map frozen_key (filter (\<lambda>f. fz_candidate_id f \<noteq> ho_candidate_id hold) (ps_frozen s))
        = filter (\<lambda>k. snd k \<noteq> ho_candidate_id hold) ?R"
      unfolding R(1) [symmetric] filter_map by (simp add: frozen_key_def comp_def)
    then have keys: "map frozen_key (ou_frozen out) = (ho_origin_group_id hold, ho_candidate_id hold)
        # filter (\<lambda>k. snd k \<noteq> ho_candidate_id hold) ?R"
      unfolding out renumber_simps(1) using held_frozen_ok(2) [OF hold(1)] by (simp add: frozen_key_def freeze_def)
    have "hd (ou_frozen out) = ?f\<lparr>fz_ordinal := 0\<rparr>" unfolding out by (simp add: renumber_def upt_rec)
    then show ?thesis
      using R(2) planned_output(1) [OF p] keys hold by (auto simp: hold_applies_def freeze_def)
  qed
qed

theorem plan_ranked_order_witness:
  "\<exists>out. plan sample_env sample_input = Inr out
    \<and> (\<forall>e \<in> set (ou_evaluations out). ev_eligible e \<longleftrightarrow> (ev_group_id e, ev_candidate_id e)
         \<in> set (concat (map (\<lambda>p. map (Pair (gp_group_id p)) (gp_ranked_ids p)) (ou_groups out))))"
proof -
  obtain out where out: "plan sample_env sample_input = Inr out" using sample_planned by (elim exE conjE) (rule that)
  show ?thesis by (intro exI conjI, rule out) (use plan_ranked_order [OF out, unfolded Let_def] in blast)
qed

end
