(* ===== verification/Planner_Total.thy ===== *)
theory Planner_Total
  imports Planner_Claims
begin

text \<open>
  A plan is total: after a successful validation and choice of the groups, planning returns an
  output whenever the counts fit the ordinals' width, and it never indexes a map with a missing key.
\<close>

section \<open>Every step succeeds\<close>

lemma to_u32_ok: "n \<le> u32_max \<Longrightarrow> to_u32 n = Inr n"
  by (simp add: to_u32_def)

lemma evaluate_declared_total:
  assumes "set is \<subseteq> set (map cf_candidate_id (pi_candidates inp))" and "k + length is \<le> u32_max"
  shows "\<exists>r. evaluate_declared inp seen gid k is = Inr r"
  using assms
proof (induction inp seen gid k "is" rule: evaluate_declared.induct)
  case (2 inp seen gid k i "is")
  obtain c where "candidate_by_id (pi_candidates inp) i = Some c" using candidate_exists "2.prems"(1) by force
  moreover obtain r where "evaluate_declared inp seen gid (Suc k) is = Inr r" using "2.IH" "2.prems" by auto
  ultimately show ?case using "2.prems"(2) by (cases r) (simp add: to_u32_ok)
qed simp

lemma place_ranked_total:
  "length (ps_frozen s) + length rs \<le> u32_max \<Longrightarrow> \<exists>r. place_ranked gid rs (slots, s) = Inr r"
  by (induction gid rs "(slots, s)" arbitrary: slots s rule: place_ranked.induct) (auto simp: to_u32_ok Let_def)

lemma guard_anchor_total:
  assumes "well_referenced inp" and "g \<in> set (po_groups (pi_policy inp))"
  shows "\<exists>a. guard_anchor inp g = Inr a"
proof -
  have "\<exists>c. candidate_by_id (pi_candidates inp) a = Some c" if "mg_policy g = CheapestWithRatingGuard a gap" for a gap
    using assms candidate_exists that unfolding well_referenced_def by force
  then show ?thesis unfolding guard_anchor_def by (auto split: group_policy.splits)
qed

lemma plan_ok_frozen_few:
  assumes "plan_ok inp gs s"
  shows "length (ps_frozen s) \<le> length (pi_candidates inp)"
proof -
  have "set (map fz_candidate_id (ps_frozen s)) \<subseteq> set (map cf_candidate_id (pi_candidates inp))"
  proof
    fix i assume "i \<in> set (map fz_candidate_id (ps_frozen s))"
    then obtain f where "f \<in> set (ps_frozen s)" "i = fz_candidate_id f" by auto
    moreover have "list_all (frozen_ok inp) (ps_frozen s)" using assms unfolding plan_ok_def by blast
    ultimately obtain c where "candidate_by_id (pi_candidates inp) i = Some c"
      unfolding list_all_iff frozen_ok_def by blast
    then show "i \<in> set (map cf_candidate_id (pi_candidates inp))" using candidate_found by fastforce
  qed
  then have "card (set (map fz_candidate_id (ps_frozen s))) \<le> length (pi_candidates inp)"
    by (metis List.finite_set card_length card_mono length_map order_trans)
  then show ?thesis using assms unfolding plan_ok_def by (metis distinct_card length_map)
qed

lemma group_few:
  assumes "well_referenced inp" and "g \<in> set (po_groups (pi_policy inp))"
  shows "length (mg_candidate_ids g) \<le> length (pi_candidates inp)"
  using assms unfolding well_referenced_def
  by (metis List.finite_set card_length card_mono distinct_card length_map order_trans)

lemma plan_group_total:
  assumes "well_referenced inp" and "plan_ok inp gs s" and "group_by_id (po_groups (pi_policy inp)) gid = Some g"
    and "2 * length (pi_candidates inp) \<le> u32_max" and "k \<le> u32_max"
  shows "\<exists>s'. plan_group inp k gid s = Inr s'"
proof -
  have g: "g \<in> set (po_groups (pi_policy inp))" using group_found [OF assms(3)] by simp
  have few: "length (mg_candidate_ids g) \<le> length (pi_candidates inp)" by (rule group_few [OF assms(1) g])
  obtain slots es where decl: "evaluate_declared inp (ps_seen s) gid 0 (mg_candidate_ids g) = Inr (slots, es)"
    using evaluate_declared_total [of "mg_candidate_ids g" inp 0] assms(1,4) g few
    unfolding well_referenced_def by fastforce
  obtain a where a: "guard_anchor inp g = Inr a" using guard_anchor_total [OF assms(1) g] by blast
  obtain ranked out where rank: "rank_group g es a = (ranked, out)" by fastforce
  have es: "map re_declared_order es = filter (\<lambda>i. slots ! i = None) [0..<length (mg_candidate_ids g)]"
    using evaluate_declared_ok [OF decl, of "mg_candidate_ids g" "[]"] by simp
  have dist: "distinct (map re_declared_order es)" unfolding es by simp
  have "length ranked \<le> length es"
    using arg_cong [OF select_kept [of "mg_policy g" es a], of size] ranked_entries [of g es a] rank
    by (metis fst_conv length_filter_le length_map size_mset)
  also have "length es \<le> length (mg_candidate_ids g)"
    using arg_cong [OF es, of length] by (metis length_filter_le length_map length_upt minus_nat.diff_0)
  finally have "length ranked \<le> length (pi_candidates inp)" using few by simp
  then obtain r where "place_ranked gid ranked (write_exclusions gid out slots, s) = Inr r"
    using place_ranked_total [of s ranked gid] plan_ok_frozen_few [OF assms(2)] assms(4) by fastforce
  then show ?thesis using assms(3,5) decl a rank by (cases r) (simp add: plan_group_def to_u32_ok)
qed

lemma plan_loop_total:
  assumes "well_referenced inp" and "plan_ok inp pre s" and "distinct (pre @ gs)" and "length pre = k"
    and "\<forall>i \<in> set gs. group_by_id (po_groups (pi_policy inp)) i \<noteq> None"
    and "2 * length (pi_candidates inp) \<le> u32_max" and "k + length gs \<le> u32_max"
  shows "\<exists>s'. plan_loop inp k gs s = Inr s'"
  using assms
proof (induction inp k gs s arbitrary: pre rule: plan_loop.induct)
  case (2 inp k g gs s)
  obtain gr where gr: "group_by_id (po_groups (pi_policy inp)) g = Some gr" using "2.prems"(5) by auto
  obtain s1 where s1: "plan_group inp k g s = Inr s1"
    using plan_group_total [OF "2.prems"(1,2) gr "2.prems"(6), of k] "2.prems"(7) by auto
  obtain gr' ranked evs where "group_done inp k g gr' ranked evs s s1"
    using plan_group_done [OF s1 "2.prems"(1)] by blast
  then have "plan_ok inp (pre @ [g]) s1" using plan_ok_step [OF "2.prems"(2)] "2.prems"(3,4) by auto
  then have "\<exists>s'. plan_loop inp (Suc k) gs s1 = Inr s'"
    by (rule "2.IH" [OF "2.prems"(1)]) (use "2.prems" in auto)
  then show ?case using s1 by simp
qed simp

lemma apply_context_hold_total:
  assumes "well_referenced inp" and "length (hs_frozen h) \<le> length (pi_candidates inp)"
    and "2 * length (pi_candidates inp) \<le> u32_max"
  shows "\<exists>h'. apply_context_hold inp sel h = Inr h' \<and> length (hs_reasons h') \<le> Suc (length (hs_reasons h))"
proof -
  have "\<exists>h'. apply_hold hold c g k j h = Inr h' \<and> length (hs_reasons h') \<le> Suc (length (hs_reasons h))"
    if "group_by_id (po_groups (pi_policy inp)) i = Some g" "position P (mg_candidate_ids g) = Some k" for hold c g k j i P
  proof -
    have "k \<le> u32_max"
      using position_Some [OF that(2)] group_few [OF assms(1)] group_found [OF that(1)] assms(3) by fastforce
    moreover have "length (filter Q (hs_frozen h)) \<le> u32_max" for Q
      using length_filter_le [of Q "hs_frozen h"] assms(2,3) by linarith
    ultimately show ?thesis by (simp add: apply_hold_def Let_def to_u32_ok)
  qed
  then show ?thesis
    unfolding apply_context_hold_def
    by (auto simp: hold_invalid_def split: option.splits sum.splits)
qed

lemma selection_few:
  assumes "check_route env (pi_policy inp) = Inr u" and "select_groups inp = Inr sel"
    and "distinct (map mg_group_id (po_groups (pi_policy inp)))"
  shows "length (sl_groups sel) \<le> length (po_groups (pi_policy inp))"
    and "length (sl_reasons sel) \<le> Suc (length (po_groups (pi_policy inp)))"
proof -
  have known: "set (sl_groups sel) \<subseteq> set (map mg_group_id (po_groups (pi_policy inp)))"
    using selected_groups_exist(1) [OF assms(1,2)] group_found by fastforce
  then have "card (set (sl_groups sel)) \<le> card (set (map mg_group_id (po_groups (pi_policy inp))))"
    by (intro card_mono) simp_all
  then show few: "length (sl_groups sel) \<le> length (po_groups (pi_policy inp))"
    using selected_groups_exist(2) [OF assms(1,2)] assms(3) by (metis distinct_card length_map)
  have "length (sl_reasons sel) \<le> Suc (length (sl_groups sel))"
    using assms(2) by (auto simp: select_groups_def res_simps split: route.splits free_exhaustion.splits if_splits)
  then show "length (sl_reasons sel) \<le> Suc (length (po_groups (pi_policy inp)))" using few by simp
qed

text \<open>The whole plan.\<close>

lemma planning_total:
  assumes "validate_input env inp = Inr ()" and "select_groups inp = Inr sel"
    and "is_ok (planning_facts_digest env inp (sl_decision sel) (sl_facts sel))" and "\<forall>o1. is_ok (en_output_digest env o1)"
    and "2 * length (pi_candidates inp) \<le> u32_max" and "length (po_groups (pi_policy inp)) + 2 \<le> u32_max"
  shows "\<exists>out. plan env inp = Inr out"
proof -
  note V = validated [OF assms(1)]
  have groups: "distinct (map mg_group_id (po_groups (pi_policy inp)))"
    using V(4) by (simp add: check_groups_def res_simps)
  note few = selection_few [OF V(2) assms(2) groups] and ex = selected_groups_exist [OF V(2) assms(2)]
  obtain s where s: "plan_loop inp 0 (sl_groups sel) plan_start = Inr s"
    using plan_loop_total [OF V(1) plan_start_ok, of "sl_groups sel" 0] ex few assms(5,6) by auto
  have "plan_ok inp ([] @ sl_groups sel) s"
    by (rule plan_loop_ok [OF s plan_start_ok]) (use ex V(1) in auto)
  note frozen = plan_ok_frozen_few [OF this]
  obtain h where h: "apply_context_hold inp (sl_groups sel)
      \<lparr>hs_evaluations = ps_evaluations s, hs_frozen = ps_frozen s, hs_reasons = sl_reasons sel\<rparr> = Inr h"
    and "length (hs_reasons h) \<le> Suc (length (sl_reasons sel))"
    using apply_context_hold_total [OF V(1) _ assms(5),
        of "\<lparr>hs_evaluations = ps_evaluations s, hs_frozen = ps_frozen s, hs_reasons = sl_reasons sel\<rparr>" "sl_groups sel"] frozen
    by auto
  then have "to_u32 (length (hs_reasons h) - 1) = Inr (length (hs_reasons h) - 1)"
    using few(2) assms(6) by (intro to_u32_ok) linarith
  then obtain rs where rs: "number_reasons (hs_reasons h) = Inr rs" by (simp only: number_reasons_def and_then.simps)
  obtain dg where dg: "planning_facts_digest env inp (sl_decision sel) (sl_facts sel) = Inr dg"
    using assms(3) by (auto simp: is_ok_iff)
  have seal: "\<exists>out. output_seal env o1 = Inr out" for o1
  proof -
    obtain d where "en_output_digest env (o1\<lparr>ou_output_digest := []\<rparr>) = Inr d" using assms(4) by (metis is_ok_iff)
    then show ?thesis by (simp add: output_seal_def Let_def)
  qed
  show ?thesis
    by (simp only: plan_def assms(1,2) dg s h rs and_then.simps Let_def) (rule seal)
qed

section \<open>No missing key\<close>

text \<open>The digests are computed outside; they do not return the panic of the maps.\<close>

definition env_quiet :: "planner_env \<Rightarrow> bool" where
  "env_quiet env \<longleftrightarrow> (\<forall>x. en_policy_digest env x \<noteq> Inl PanicMissingKey)
     \<and> (\<forall>x. en_profile_digest env x \<noteq> Inl PanicMissingKey)
     \<and> (\<forall>x. en_strategy_digest env x \<noteq> Inl PanicMissingKey)
     \<and> (\<forall>x. en_facts_digest env x \<noteq> Inl PanicMissingKey)
     \<and> (\<forall>x. en_output_digest env x \<noteq> Inl PanicMissingKey)"

lemma run_checks_last:
  "run_checks (cs @ [c]) = Inl e \<Longrightarrow> Inl e \<in> set cs \<or> list_all (\<lambda>x. x = Inr ()) cs \<and> c = Inl e"
  by (induction cs rule: run_checks.induct) (auto split: sum.splits)

lemma check_fallbacks_quiet: "check_fallbacks gs simple seen fs \<noteq> Inl PanicMissingKey"
  by (induction gs simple seen fs rule: check_fallbacks.induct) (auto simp: res_simps require_group_def)

lemma check_candidates_quiet:
  "env_quiet env \<Longrightarrow> check_candidates env ids bs cs \<noteq> Inl PanicMissingKey"
  by (induction env ids bs cs rule: check_candidates.induct) (auto simp: res_simps env_quiet_def)

lemma check_references_quiet: "check_references ids gs \<noteq> Inl PanicMissingKey"
  by (induction ids gs rule: check_references.induct) (auto split: option.splits group_policy.splits)

lemma validate_strategy_quiet:
  "env_quiet env \<Longrightarrow> validate_strategy f (en_strategy_digest env) s \<noteq> Inl PanicMissingKey"
  by (auto simp: validate_strategy_def env_quiet_def res_simps split: if_splits sum.splits)

lemma check_route_quiet: "env_quiet env \<Longrightarrow> check_route env p \<noteq> Inl PanicMissingKey"
  using validate_strategy_quiet [of env] check_fallbacks_quiet
  by (auto simp: check_route_def res_simps require_group_def Let_def split: route.splits free_exhaustion.splits if_splits)

lemma any_candidate_quiet:
  "set is \<subseteq> set (map cf_candidate_id cs) \<Longrightarrow> any_candidate P cs is \<noteq> Inl PanicMissingKey"
proof (induction P cs "is" rule: any_candidate.induct)
  case (2 P cs i "is")
  obtain c where "candidate_by_id cs i = Some c" using candidate_exists [of i cs] "2.prems" by auto
  then show ?case using 2 by auto
qed simp

lemma check_free_pool_quiet:
  assumes "check_route env (pi_policy inp) = Inr u"
    and "check_references (map cf_candidate_id (pi_candidates inp)) (po_groups (pi_policy inp)) = Inr v"
  shows "check_free_pool inp \<noteq> Inl PanicMissingKey"
proof (cases "po_route (pi_policy inp)")
  case (FreeFirst free ex mode)
  obtain g where g: "group_by_id (po_groups (pi_policy inp)) free = Some g"
    using assms(1) FreeFirst by (auto simp: check_route_def res_simps require_group_def Let_def split: if_splits)
  have "set (mg_candidate_ids g) \<subseteq> set (map cf_candidate_id (pi_candidates inp))"
    using check_references_known [OF assms(2)] group_found [OF g] by blast
  then show ?thesis
    using any_candidate_quiet FreeFirst g by (auto simp: check_free_pool_def res_simps)
qed (simp_all add: check_free_pool_def)

lemma validate_input_quiet:
  assumes "env_quiet env"
  shows "validate_input env inp \<noteq> Inl PanicMissingKey"
proof
  let ?p = "pi_policy inp" and ?ids = "map cf_candidate_id (pi_candidates inp)"
  let ?cs = "[ensure (pi_schema_version inp = ''hiroute.planner-input/v1''
          \<and> rq_schema_version (pi_request inp) = ''hiroute.model-request-ir/v1'') InputSchema,
       check_identity inp,
       ensure (\<not> (po_cost_policy ?p = BudgetedPaid \<and> rl_paid_budget_ceiling (po_limits ?p) = None))
         (InvalidPolicy ''budgeted paid policy requires a request-owned ceiling''),
       check_policy_digest env ?p, check_groups (po_groups ?p), check_route env ?p,
       check_candidates env [] [] (pi_candidates inp), check_references ?ids (po_groups ?p),
       ensure (set (concat (map mg_candidate_ids (po_groups ?p))) = set ?ids)
         (InvalidPolicy ''candidate facts must exactly match materialized group references'')]"
  assume "validate_input env inp = Inl PanicMissingKey"
  then have "run_checks (?cs @ [check_free_pool inp]) = Inl PanicMissingKey"
    unfolding validate_input_def Let_def append.simps .
  from run_checks_last [OF this] show False
  proof (elim disjE conjE)
    assume "Inl PanicMissingKey \<in> set ?cs"
    moreover have "check_identity inp \<noteq> Inl PanicMissingKey" "check_groups (po_groups ?p) \<noteq> Inl PanicMissingKey"
      "check_policy_digest env ?p \<noteq> Inl PanicMissingKey"
      using assms by (auto simp: check_identity_def check_groups_def check_policy_digest_def recompute_policy_digest_def
          env_quiet_def Let_def res_simps)
    ultimately show False
      using check_route_quiet [OF assms, of ?p] check_candidates_quiet [OF assms, of "[]" "[]" "pi_candidates inp"]
        check_references_quiet [of ?ids "po_groups ?p"]
      by (auto simp: ensure_def split: if_splits)
  next
    assume "list_all (\<lambda>x. x = Inr ()) ?cs" "check_free_pool inp = Inl PanicMissingKey"
    then show False using check_free_pool_quiet [of env inp] by simp
  qed
qed

lemma evaluate_declared_quiet:
  "set is \<subseteq> set (map cf_candidate_id (pi_candidates inp)) \<Longrightarrow> evaluate_declared inp seen gid k is \<noteq> Inl PanicMissingKey"
proof (induction inp seen gid k "is" rule: evaluate_declared.induct)
  case (2 inp seen gid k i "is")
  obtain c where "candidate_by_id (pi_candidates inp) i = Some c"
    using candidate_exists [of i "pi_candidates inp"] "2.prems" by auto
  then show ?case using 2 by (auto simp: res_simps to_u32_def split: if_splits)
qed simp

lemma place_ranked_quiet: "place_ranked gid rs st \<noteq> Inl PanicMissingKey"
  by (induction gid rs st rule: place_ranked.induct) (auto simp: res_simps to_u32_def Let_def split: if_splits)

lemma plan_loop_quiet:
  assumes "well_referenced inp" and "\<forall>i \<in> set gs. group_by_id (po_groups (pi_policy inp)) i \<noteq> None"
  shows "plan_loop inp k gs s \<noteq> Inl PanicMissingKey"
  using assms
proof (induction inp k gs s rule: plan_loop.induct)
  case (2 inp k gid gs s)
  obtain g where g: "group_by_id (po_groups (pi_policy inp)) gid = Some g" using "2.prems"(2) by auto
  have ids: "set (mg_candidate_ids g) \<subseteq> set (map cf_candidate_id (pi_candidates inp))"
    using "2.prems"(1) group_found [OF g] by (auto simp: well_referenced_def)
  obtain a where "guard_anchor inp g = Inr a"
    using guard_anchor_total [OF "2.prems"(1), of g] group_found [OF g] by blast
  then have "plan_group inp k gid s \<noteq> Inl PanicMissingKey"
    using g evaluate_declared_quiet [OF ids] place_ranked_quiet
    by (auto simp: plan_group_def res_simps to_u32_def split: if_splits prod.splits)
  then show ?case using 2 by (auto simp: res_simps)
qed simp

lemma apply_context_hold_quiet: "apply_context_hold inp sel h \<noteq> Inl PanicMissingKey"
  by (auto simp: apply_context_hold_def apply_hold_def res_simps to_u32_def Let_def
      split: option.splits sum.splits if_splits)

section \<open>A smart saving plan\<close>

definition smart_group :: "string \<Rightarrow> string \<Rightarrow> model_group" where
  "smart_group g c = \<lparr>mg_group_id = g, mg_policy = Manual, mg_candidate_ids = [c]\<rparr>"

definition smart_env :: planner_env where
  "smart_env = sample_env\<lparr>en_strategy_digest := length_digest\<rparr>"

definition smart_input :: "nat planner_input" where
  "smart_input = sample_input\<lparr>pi_classification_decision := Some (unresolved_decision sample_strategy),
     pi_classification_facts := Some (tx_facts sample_signals),
     pi_policy := sample_policy\<lparr>po_route := SmartSaving ''s'' [] ''x'', po_strategy := Some sample_strategy,
       po_groups := [smart_group ''s'' ''c1'', smart_group ''x'' ''c2'']\<rparr>\<rparr>"

lemma smart_sel [simp]:
  "po_route (pi_policy smart_input) = SmartSaving ''s'' [] ''x''"
  "po_groups (pi_policy smart_input) = [smart_group ''s'' ''c1'', smart_group ''x'' ''c2'']"
  "pi_candidates smart_input = [sample_candidate ''c1'', sample_candidate ''c2'']"
  by (simp_all add: smart_input_def sample_input_def)

lemma smart_strategy: "validate_strategy (\<lambda>t. t) length_digest sample_strategy = Inr ()"
  by (simp add: validate_strategy_def sample_strategy_def config_identity_ok_def length_digest_def)

lemma smart_validated: "validate_input smart_env smart_input = Inr ()"
proof -
  have "check_identity smart_input = Inr ()"
    by (simp add: check_identity_def smart_input_def sample_input_def sample_policy_def identity_invalid_def
        fixed_identity_def ensure_def sample_request_limits_def sample_request_def)
  moreover have "check_policy_digest smart_env (pi_policy smart_input) = Inr ()"
    by (simp add: check_policy_digest_def recompute_policy_digest_def sample_env_def smart_env_def smart_input_def
        sample_policy_def ensure_def)
  moreover have "check_groups [smart_group ''s'' ''c1'', smart_group ''x'' ''c2''] = Inr ()"
    by (simp add: check_groups_def smart_group_def group_valid_def ensure_def)
  moreover have "check_route smart_env (pi_policy smart_input) = Inr ()"
  proof -
    have "po_strategy (pi_policy smart_input) = Some sample_strategy" "en_fold_text smart_env = (\<lambda>t. t)"
        "en_strategy_digest smart_env = length_digest"
      by (simp_all add: smart_input_def sample_env_def smart_env_def)
    then show ?thesis
      by (simp add: check_route_def smart_strategy require_group_def group_by_id_def distinct_count_def ensure_def
          smart_group_def)
  qed
  moreover have "check_candidates smart_env [] [] [sample_candidate ''c1'', sample_candidate ''c2''] = Inr ()"
    by (simp add: sample_env_def smart_env_def)
  moreover have "pi_schema_version smart_input = ''hiroute.planner-input/v1''"
      "rq_schema_version (pi_request smart_input) = ''hiroute.model-request-ir/v1''"
      "po_cost_policy (pi_policy smart_input) = StrictFree"
    by (simp_all add: smart_input_def sample_input_def sample_request_def sample_policy_def)
  ultimately show ?thesis
    unfolding validate_input_def Let_def run_checks_ok
    by (simp add: ensure_def check_free_pool_def) (simp add: smart_group_def insert_commute)
qed

lemma smart_selected:
  "select_groups smart_input = Inr \<lparr>sl_branch = SmartSavingComplex, sl_decision = Some (unresolved_decision sample_strategy),
     sl_facts = Some (tx_facts sample_signals), sl_groups = [''x''],
     sl_reasons = [reason ChoseComplex None, reason ComplexNoDowngrade None]\<rparr>"
proof -
  have "validate_classification_decision (unresolved_decision sample_strategy) sample_strategy = Inr ()"
    by (simp add: validate_classification_decision_def unresolved_decision_def decision_for_def sample_strategy_def
        ensure_def)
  moreover have "bd_branch_id (unresolved_decision sample_strategy) = COMPLEX_BRANCH_ID"
    by (simp add: unresolved_decision_def decision_for_def)
  moreover have "po_strategy (pi_policy smart_input) = Some sample_strategy"
      "pi_classification_decision smart_input = Some (unresolved_decision sample_strategy)"
      "pi_classification_facts smart_input = Some (tx_facts sample_signals)"
    by (simp_all add: smart_input_def)
  ultimately show ?thesis by (simp add: select_groups_def SIMPLE_BRANCH_ID_def COMPLEX_BRANCH_ID_def)
qed

lemma smart_digests: "is_ok (planning_facts_digest smart_env inp d f)" "\<forall>o1. is_ok (en_output_digest smart_env o1)"
  by (simp_all add: planning_facts_digest_def sample_env_def smart_env_def)

lemma smart_bounds: "2 * length (pi_candidates smart_input) \<le> u32_max" "length (po_groups (pi_policy smart_input)) + 2 \<le> u32_max"
  by (simp_all add: u32_max_def)

lemma smart_planned: "\<exists>out. plan smart_env smart_input = Inr out"
  by (rule planning_total [OF smart_validated smart_selected smart_digests smart_bounds])

section \<open>Properties\<close>

text \<open>
  C36. Planning is total: for a validated input whose groups can be chosen, a plan is returned, with no
  overflow and no missing key. The counts must fit the 32-bit ordinals (twice the candidates, and the
  groups plus two, at most \<open>u32::MAX\<close>), and the two digests, of the planning facts of this input and of
  an output, are assumed to be answered.
\<close>

theorem plan_total:
  assumes "validate_input env inp = Inr ()" and "select_groups inp = Inr sel"
    and "is_ok (planning_facts_digest env inp (sl_decision sel) (sl_facts sel))" and "\<forall>o1. is_ok (en_output_digest env o1)"
    and "2 * length (pi_candidates inp) \<le> u32_max" and "length (po_groups (pi_policy inp)) + 2 \<le> u32_max"
  shows "\<exists>out. plan env inp = Inr out"
  by (rule planning_total [OF assms])

theorem plan_total_witness: "\<exists>out. plan smart_env smart_input = Inr out"
  by (rule plan_total [OF smart_validated smart_selected smart_digests smart_bounds])

text \<open>
  C37. The planner's map indexing never panics: whatever the input, with digests that do not
  themselves panic, a plan is an output or one of the planner's declared errors.
\<close>

theorem plan_never_panics:
  assumes "env_quiet env"
  shows "plan env inp \<noteq> Inl PanicMissingKey"
proof
  assume "plan env inp = Inl PanicMissingKey"
  then consider (valid) "validate_input env inp = Inl PanicMissingKey"
    | (select) "select_groups inp = Inl PanicMissingKey"
    | (digest) x where "en_facts_digest env x = Inl PanicMissingKey"
    | (loop) u sel where "validate_input env inp = Inr u" "select_groups inp = Inr sel"
        "plan_loop inp 0 (sl_groups sel) plan_start = Inl PanicMissingKey"
    | (hold) sel h where "apply_context_hold inp sel h = Inl PanicMissingKey"
    | (number) rs where "number_reasons rs = Inl PanicMissingKey"
    | (out) x where "en_output_digest env x = Inl PanicMissingKey"
    by (auto simp: plan_def res_simps planning_facts_digest_def output_seal_def Let_def)
  then show False
  proof cases
    case select
    then show False
      by (auto simp: select_groups_def validate_classification_decision_def res_simps Let_def
          split: route.splits free_exhaustion.splits if_splits)
  next
    case loop
    note V = validated [OF loop(1)]
    show False
      using plan_loop_quiet [OF V(1) selected_groups_exist(1) [OF V(2) loop(2)]] loop(3) by blast
  next
    case number
    then show False by (auto simp: number_reasons_def res_simps to_u32_def split: if_splits)
  next
    case valid
    then show False using validate_input_quiet [OF assms, of inp] by simp
  next
    case hold
    then show False using apply_context_hold_quiet by metis
  qed (use assms in \<open>simp_all add: env_quiet_def\<close>)
qed

theorem plan_never_panics_witness: "plan smart_env smart_input \<noteq> Inl PanicMissingKey"
  by (rule plan_never_panics) (simp add: env_quiet_def smart_env_def sample_env_def length_digest_def)

theorem plan_branch_isolation_witness:
  "\<exists>out. plan smart_env smart_input = Inr out \<and> ou_branch out = SmartSavingComplex
    \<and> (\<forall>f \<in> set (ou_frozen out). fz_group_id f = ''x'')"
proof -
  obtain out where out: "plan smart_env smart_input = Inr out" using smart_planned by blast
  have "pi_classification_decision smart_input = Some (unresolved_decision sample_strategy)" by (simp add: smart_input_def)
  moreover have "bd_branch_id (unresolved_decision sample_strategy) \<noteq> SIMPLE_BRANCH_ID"
    by (simp add: unresolved_decision_def decision_for_def SIMPLE_BRANCH_ID_def COMPLEX_BRANCH_ID_def)
  ultimately show ?thesis
    using plan_branch_isolation [OF out smart_sel(1)] out by auto
qed

end
