(* ===== verification/Memory_Budget.thy ===== *)
theory Memory_Budget
  imports Prelude
begin

text \<open>
  The hierarchical body-memory budget of \<^verbatim>\<open>gateway-core/src/runtime/body/memory.rs\<close>: one process
  limit, one worker limit and one limit per stream, with live, peak and rejected counters at
  each level and per memory role. \<open>reserve\<close>, \<open>transfer_role\<close> and \<open>release\<close> are the methods of
  the same names, in their order of checks and updates; a method that fails after it has begun
  to write returns the state it leaves behind. The mutex makes each of them atomic, so a run
  of the budget is a sequence of them; \<open>Memory_Ledger\<close> takes all such sequences under Rust's
  ownership rules and proves the accounting exact.
\<close>

section \<open>State\<close>

datatype memory_role =
    RawRequest | ModelIrBacking | AttemptWire | Retry | ResponsePrefix
  | SseFrame | SemanticState | OutputQueue | TransportInflight

definition ALL_roles :: "memory_role list" where
  "ALL_roles = [RawRequest, ModelIrBacking, AttemptWire, Retry, ResponsePrefix,
    SseFrame, SemanticState, OutputQueue, TransportInflight]"

lemma UNIV_role: "UNIV = set ALL_roles"
  by (auto simp: ALL_roles_def intro: memory_role.exhaust)

instantiation memory_role :: finite
begin

instance
  by standard (simp add: UNIV_role)

end

datatype body_error =
    InvalidPlanLimit | InvalidBudgetLimit | BudgetExceeded | UnknownStreamBudget
  | ReservationReleased | BodyLimitExceeded | BodyAfterEos | DuplicateBodyEos
  | PassThroughCannotStore | WrongMemoryRole | LeaseAfterTerminal | LeaseOverflow
  | OutstandingRequestLease usize | AlreadyTerminal | ReleaseProofAlreadyIssued
  | FramingAlreadyCommitted | ContentLengthTransferEncodingConflict
  | InvalidContentLength | ContentLengthMismatch

text \<open>A \<open>[usize; 9]\<close> indexed by \<open>role as usize\<close> is a function of the role.\<close>

type_synonym role_table = "memory_role \<Rightarrow> usize"

record stream_state =
  limit :: usize
  live :: usize
  peak :: usize
  rejected :: usize
  role_live :: role_table
  role_peak :: role_table

type_synonym stream_id = u64

record budget_state =
  process_limit :: usize
  worker_limit :: usize
  process_live :: usize
  worker_live :: usize
  process_peak :: usize
  worker_peak :: usize
  process_rejected :: usize
  worker_rejected :: usize
  process_role_live :: role_table
  process_role_peak :: role_table
  worker_role_live :: role_table
  worker_role_peak :: role_table
  next_stream_id :: stream_id
  streams :: "stream_id \<rightharpoonup> stream_state"

record reservation =
  r_stream :: stream_id
  r_role :: memory_role
  r_bytes :: usize
  r_released :: bool

section \<open>Operations\<close>

definition fresh_tree :: "usize \<Rightarrow> usize \<Rightarrow> budget_state" where
  "fresh_tree pl wl = \<lparr>process_limit = pl, worker_limit = wl, process_live = 0, worker_live = 0,
     process_peak = 0, worker_peak = 0, process_rejected = 0, worker_rejected = 0,
     process_role_live = (\<lambda>_. 0), process_role_peak = (\<lambda>_. 0),
     worker_role_live = (\<lambda>_. 0), worker_role_peak = (\<lambda>_. 0),
     next_stream_id = 0, streams = Map.empty\<rparr>"

definition tree_new :: "usize \<Rightarrow> usize \<Rightarrow> body_error + budget_state" where
  "tree_new pl wl =
    (if pl = 0 \<or> wl = 0 \<or> wl > pl then Inl InvalidBudgetLimit else Inr (fresh_tree pl wl))"

definition fresh_stream :: "usize \<Rightarrow> stream_state" where
  "fresh_stream l = \<lparr>limit = l, live = 0, peak = 0, rejected = 0,
     role_live = (\<lambda>_. 0), role_peak = (\<lambda>_. 0)\<rparr>"

definition stream_inner :: "budget_state \<Rightarrow> usize \<Rightarrow> budget_state \<times> (body_error + stream_id)" where
  "stream_inner s l =
    (if l = 0 \<or> l > worker_limit s then (s, Inl InvalidBudgetLimit)
     else let sid = wrapping_add (next_stream_id s) 1
       in (s\<lparr>next_stream_id := sid, streams := (streams s)(sid \<mapsto> fresh_stream l)\<rparr>, Inr sid))"

text \<open>The \<open>Drop\<close> of the last clone of a stream handle.\<close>

definition drop_handle :: "budget_state \<Rightarrow> stream_id \<Rightarrow> budget_state" where
  "drop_handle s sid =
    (case streams s sid of
       Some st \<Rightarrow> if live st = 0 then s\<lparr>streams := (streams s)(sid := None)\<rparr> else s
     | None \<Rightarrow> s)"

definition count_rejection :: "budget_state \<Rightarrow> stream_id \<Rightarrow> stream_state \<Rightarrow> budget_state" where
  "count_rejection s sid st =
    s\<lparr>process_rejected := wrapping_add (process_rejected s) 1,
      worker_rejected := wrapping_add (worker_rejected s) 1,
      streams := (streams s)(sid \<mapsto> st\<lparr>rejected := wrapping_add (rejected st) 1\<rparr>)\<rparr>"

definition commit_totals :: "budget_state \<Rightarrow> usize \<Rightarrow> usize \<Rightarrow> budget_state" where
  "commit_totals s process_next worker_next =
    s\<lparr>process_live := process_next, worker_live := worker_next,
      process_peak := max (process_peak s) process_next,
      worker_peak := max (worker_peak s) worker_next\<rparr>"

definition raise_role_peaks :: "budget_state \<Rightarrow> memory_role \<Rightarrow> budget_state" where
  "raise_role_peaks s role =
    s\<lparr>process_role_peak := (process_role_peak s)
        (role := max (process_role_peak s role) (process_role_live s role)),
      worker_role_peak := (worker_role_peak s)
        (role := max (worker_role_peak s role) (worker_role_live s role))\<rparr>"

definition charge_stream :: "stream_state \<Rightarrow> memory_role \<Rightarrow> usize \<Rightarrow> usize \<Rightarrow> stream_state" where
  "charge_stream st role stream_next role_next =
    st\<lparr>live := stream_next, peak := max (peak st) stream_next,
       role_live := (role_live st)(role := role_next),
       role_peak := (role_peak st)(role := max (role_peak st role) role_next)\<rparr>"

definition commit_reserve ::
  "budget_state \<Rightarrow> stream_id \<Rightarrow> memory_role \<Rightarrow> usize \<Rightarrow> usize \<Rightarrow> usize \<Rightarrow> usize \<Rightarrow> usize
   \<Rightarrow> budget_state \<times> (body_error + reservation)" where
  "commit_reserve s sid role n process_next worker_next stream_next role_next =
    (let s1 = commit_totals s process_next worker_next in
     case checked_add (process_role_live s1 role) n of
       None \<Rightarrow> (s1, Inl BudgetExceeded)
     | Some p \<Rightarrow>
        let s2 = s1\<lparr>process_role_live := (process_role_live s1)(role := p)\<rparr> in
        (case checked_add (worker_role_live s2 role) n of
           None \<Rightarrow> (s2, Inl BudgetExceeded)
         | Some w \<Rightarrow>
            let s3 = raise_role_peaks
                  (s2\<lparr>worker_role_live := (worker_role_live s2)(role := w)\<rparr>) role in
            (case streams s3 sid of
               None \<Rightarrow> (s3, Inl UnknownStreamBudget)
             | Some st \<Rightarrow>
                (s3\<lparr>streams := (streams s3)(sid \<mapsto> charge_stream st role stream_next role_next)\<rparr>,
                 Inr \<lparr>r_stream = sid, r_role = role, r_bytes = n, r_released = False\<rparr>))))"

definition reserve ::
  "budget_state \<Rightarrow> stream_id \<Rightarrow> memory_role \<Rightarrow> usize \<Rightarrow> budget_state \<times> (body_error + reservation)" where
  "reserve s sid role n =
    (if n = 0 then (s, Inr \<lparr>r_stream = sid, r_role = role, r_bytes = n, r_released = False\<rparr>)
     else case checked_add (process_live s) n of None \<Rightarrow> (s, Inl BudgetExceeded)
     | Some process_next \<Rightarrow> (case checked_add (worker_live s) n of None \<Rightarrow> (s, Inl BudgetExceeded)
     | Some worker_next \<Rightarrow> (case streams s sid of None \<Rightarrow> (s, Inl UnknownStreamBudget)
     | Some st \<Rightarrow> (case checked_add (live st) n of None \<Rightarrow> (s, Inl BudgetExceeded)
     | Some stream_next \<Rightarrow> (case checked_add (role_live st role) n of None \<Rightarrow> (s, Inl BudgetExceeded)
     | Some role_next \<Rightarrow>
        if process_next > process_limit s \<or> worker_next > worker_limit s \<or> stream_next > limit st
        then (count_rejection s sid st, Inl BudgetExceeded)
        else commit_reserve s sid role n process_next worker_next stream_next role_next)))))"

text \<open>\<open>Reservation::transfer_role\<close>; it also updates the reservation it is called on.\<close>

definition move_role :: "budget_state \<Rightarrow> memory_role \<Rightarrow> memory_role \<Rightarrow> usize \<Rightarrow> budget_state" where
  "move_role s old new n =
    (let pl = (process_role_live s)(old := wrapping_sub (process_role_live s old) n);
         wl = (worker_role_live s)(old := wrapping_sub (worker_role_live s old) n)
     in raise_role_peaks
          (s\<lparr>process_role_live := pl(new := wrapping_add (pl new) n),
             worker_role_live := wl(new := wrapping_add (wl new) n)\<rparr>) new)"

definition transfer_role ::
  "budget_state \<Rightarrow> reservation \<Rightarrow> memory_role \<Rightarrow> budget_state \<times> reservation \<times> (body_error + unit)" where
  "transfer_role s r role =
    (if r_released r then (s, r, Inl ReservationReleased)
     else if r_role r = role \<or> r_bytes r = 0 then (s, r\<lparr>r_role := role\<rparr>, Inr ())
     else let s1 = move_role s (r_role r) role (r_bytes r) in
       (case streams s1 (r_stream r) of
          None \<Rightarrow> (s1, r, Inl UnknownStreamBudget)
        | Some st \<Rightarrow>
           let rl = (role_live st)(r_role r := wrapping_sub (role_live st (r_role r)) (r_bytes r)) in
           (case checked_add (rl role) (r_bytes r) of
              None \<Rightarrow> (s1\<lparr>streams := (streams s1)(r_stream r \<mapsto> st\<lparr>role_live := rl\<rparr>)\<rparr>, r, Inl BudgetExceeded)
            | Some m \<Rightarrow>
               (s1\<lparr>streams := (streams s1)(r_stream r \<mapsto>
                   st\<lparr>role_live := rl(role := m),
                      role_peak := (role_peak st)(role := max (role_peak st role) m)\<rparr>)\<rparr>,
                r\<lparr>r_role := role\<rparr>, Inr ()))))"

text \<open>\<open>Reservation::release\<close>, which its \<open>Drop\<close> calls.\<close>

definition release :: "budget_state \<Rightarrow> reservation \<Rightarrow> budget_state \<times> reservation" where
  "release s r =
    (if r_released r then (s, r)
     else let n = r_bytes r; role = r_role r;
       s1 = s\<lparr>process_live := wrapping_sub (process_live s) n,
              worker_live := wrapping_sub (worker_live s) n,
              process_role_live := (process_role_live s)
                (role := wrapping_sub (process_role_live s role) n),
              worker_role_live := (worker_role_live s)
                (role := wrapping_sub (worker_role_live s role) n)\<rparr>;
       s2 = (case streams s1 (r_stream r) of
               Some st \<Rightarrow> s1\<lparr>streams := (streams s1)(r_stream r \<mapsto>
                  st\<lparr>live := wrapping_sub (live st) n,
                     role_live := (role_live st)(role := wrapping_sub (role_live st role) n)\<rparr>)\<rparr>
             | None \<Rightarrow> s1)
       in (s2, r\<lparr>r_released := True\<rparr>))"

section \<open>Snapshots\<close>

record tree_snapshot =
  ts_process_live :: usize
  ts_process_peak :: usize
  ts_worker_live :: usize
  ts_worker_peak :: usize
  ts_active_streams :: usize

definition tree_snapshot_of :: "budget_state \<Rightarrow> tree_snapshot" where
  "tree_snapshot_of s = \<lparr>ts_process_live = process_live s, ts_process_peak = process_peak s,
     ts_worker_live = worker_live s, ts_worker_peak = worker_peak s,
     ts_active_streams = card (dom (streams s))\<rparr>"

record stream_snapshot =
  ss_live :: usize
  ss_peak :: usize
  ss_rejected :: usize
  ss_role_live :: role_table
  ss_role_peak :: role_table

definition snapshot_from_stream :: "stream_state \<Rightarrow> stream_snapshot" where
  "snapshot_from_stream st = \<lparr>ss_live = live st, ss_peak = peak st, ss_rejected = rejected st,
     ss_role_live = role_live st, ss_role_peak = role_peak st\<rparr>"

definition stream_snapshot_of :: "budget_state \<Rightarrow> stream_id \<Rightarrow> body_error + stream_snapshot" where
  "stream_snapshot_of s sid =
    (case streams s sid of None \<Rightarrow> Inl UnknownStreamBudget | Some st \<Rightarrow> Inr (snapshot_from_stream st))"

section \<open>Consistent budgets\<close>

text \<open>
  \<open>budget_wf\<close> is what every operation keeps of a single tree: limits are hierarchical, the role
  tables add up to the live totals, and nothing live exceeds its limit.
\<close>

definition stream_wf :: "usize \<Rightarrow> stream_state \<Rightarrow> bool" where
  "stream_wf wl st \<longleftrightarrow> limit st \<le> wl \<and> live st \<le> limit st \<and> live st \<le> peak st \<and> peak st \<le> limit st
     \<and> (\<Sum>\<rho>\<in>UNIV. role_live st \<rho>) = live st"

definition budget_wf :: "budget_state \<Rightarrow> bool" where
  "budget_wf s \<longleftrightarrow>
     worker_limit s \<le> process_limit s \<and> process_limit s \<le> usize_max
   \<and> worker_live s \<le> worker_limit s \<and> process_live s = worker_live s
   \<and> process_live s \<le> process_peak s \<and> process_peak s \<le> process_limit s
   \<and> worker_live s \<le> worker_peak s \<and> worker_peak s \<le> worker_limit s
   \<and> (\<Sum>\<rho>\<in>UNIV. process_role_live s \<rho>) = process_live s
   \<and> (\<Sum>\<rho>\<in>UNIV. worker_role_live s \<rho>) = worker_live s
   \<and> (\<forall>sid st. streams s sid = Some st \<longrightarrow> stream_wf (worker_limit s) st)"

lemma role_le_sum: "(f :: role_table) \<rho> \<le> (\<Sum>\<rho>\<in>UNIV. f \<rho>)"
  by (rule member_le_sum) auto

lemma sum_role_upd:
  fixes f :: role_table
  shows "(\<Sum>\<rho>\<in>UNIV. if \<rho> = r then v else f \<rho>) = (\<Sum>\<rho>\<in>UNIV. f \<rho>) - f r + v"
proof -
  have "(\<Sum>\<rho>\<in>UNIV. if \<rho> = r then v else f \<rho>) = v + (\<Sum>\<rho>\<in>UNIV - {r}. f \<rho>)"
    by (subst sum.remove [of UNIV r]) (auto intro!: sum.cong)
  moreover have "(\<Sum>\<rho>\<in>UNIV. f \<rho>) = f r + (\<Sum>\<rho>\<in>UNIV - {r}. f \<rho>)"
    by (subst sum.remove [of UNIV r]) auto
  ultimately show ?thesis by simp
qed

lemma budget_wf_roles:
  assumes "budget_wf s"
  shows "process_role_live s \<rho> \<le> process_live s" "worker_role_live s \<rho> \<le> worker_live s"
  using assms role_le_sum [of "process_role_live s" \<rho>] role_le_sum [of "worker_role_live s" \<rho>]
  by (auto simp: budget_wf_def)

lemma stream_wf_role:
  assumes "budget_wf s" "streams s sid = Some st"
  shows "role_live st \<rho> \<le> live st"
proof -
  have "(\<Sum>\<rho>\<in>UNIV. role_live st \<rho>) = live st"
    using assms unfolding budget_wf_def stream_wf_def by blast
  then show ?thesis using role_le_sum [of "role_live st" \<rho>] by simp
qed

lemma stream_wf_limits:
  assumes "budget_wf s" "streams s sid = Some st"
  shows "live st \<le> limit st" "limit st \<le> worker_limit s"
  using assms unfolding budget_wf_def stream_wf_def by blast+

definition charged :: "budget_state \<Rightarrow> stream_id \<Rightarrow> stream_state \<Rightarrow> memory_role \<Rightarrow> usize \<Rightarrow> budget_state" where
  "charged s sid st role n =
    s\<lparr>process_live := process_live s + n, worker_live := worker_live s + n,
      process_peak := max (process_peak s) (process_live s + n),
      worker_peak := max (worker_peak s) (worker_live s + n),
      process_role_live := (process_role_live s)(role := process_role_live s role + n),
      worker_role_live := (worker_role_live s)(role := worker_role_live s role + n),
      process_role_peak := (process_role_peak s)
        (role := max (process_role_peak s role) (process_role_live s role + n)),
      worker_role_peak := (worker_role_peak s)
        (role := max (worker_role_peak s role) (worker_role_live s role + n)),
      streams := (streams s)(sid \<mapsto> charge_stream st role (live st + n) (role_live st role + n))\<rparr>"

definition fits :: "budget_state \<Rightarrow> stream_state \<Rightarrow> usize \<Rightarrow> bool" where
  "fits s st n \<longleftrightarrow> process_live s + n \<le> process_limit s \<and> worker_live s + n \<le> worker_limit s
     \<and> live st + n \<le> limit st"

lemma reserve_zero [simp]:
  "reserve s sid role 0 = (s, Inr \<lparr>r_stream = sid, r_role = role, r_bytes = 0, r_released = False\<rparr>)"
  by (simp add: reserve_def)

lemma reserve_unknown:
  assumes "budget_wf s" "n \<noteq> 0" "streams s sid = None"
  shows "\<exists>e. reserve s sid role n = (s, Inl e)"
  using assms by (auto simp: reserve_def split: option.splits)

lemma reserve_fits:
  assumes wf: "budget_wf s" and n: "n \<noteq> 0" and st: "streams s sid = Some st" and fits: "fits s st n"
  shows "reserve s sid role n =
    (charged s sid st role n, Inr \<lparr>r_stream = sid, r_role = role, r_bytes = n, r_released = False\<rparr>)"
proof -
  have lim: "process_limit s \<le> usize_max" "worker_limit s \<le> usize_max"
    using wf by (auto simp: budget_wf_def)
  have "process_live s + n \<le> usize_max" "worker_live s + n \<le> usize_max" "live st + n \<le> usize_max"
    "role_live st role + n \<le> usize_max" "process_role_live s role + n \<le> usize_max"
    "worker_role_live s role + n \<le> usize_max"
    using fits lim budget_wf_roles [OF wf, of role] stream_wf_role [OF wf st, of role]
      stream_wf_limits [OF wf st]
    by (auto simp: fits_def)
  then show ?thesis
    using n st fits
    by (simp add: reserve_def commit_reserve_def fits_def checked_add_within commit_totals_def
        raise_role_peaks_def charged_def Let_def fun_upd_def)
qed

lemma reserve_refused:
  assumes wf: "budget_wf s" and n: "n \<noteq> 0" and st: "streams s sid = Some st" and "\<not> fits s st n"
  shows "reserve s sid role n = (s, Inl BudgetExceeded)
       \<or> reserve s sid role n = (count_rejection s sid st, Inl BudgetExceeded)"
  using assms by (auto simp: reserve_def fits_def split: option.splits)

lemma stream_wf_charge:
  assumes "stream_wf wl st" "live st + n \<le> limit st"
  shows "stream_wf wl (charge_stream st role (live st + n) (role_live st role + n))"
  using assms role_le_sum [of "role_live st" role]
  by (auto simp: stream_wf_def charge_stream_def sum_role_upd)

lemma budget_wf_charged:
  assumes wf: "budget_wf s" and st: "streams s sid = Some st" and fits: "fits s st n"
  shows "budget_wf (charged s sid st role n)"
proof -
  have "stream_wf (worker_limit s) st" using wf st by (auto simp: budget_wf_def)
  then have "stream_wf (worker_limit s) (charge_stream st role (live st + n) (role_live st role + n))"
    using fits by (auto simp: fits_def intro: stream_wf_charge)
  then show ?thesis
    using wf fits role_le_sum [of "process_role_live s" role] role_le_sum [of "worker_role_live s" role]
    by (auto simp: budget_wf_def charged_def fits_def sum_role_upd)
qed

lemma budget_wf_count_rejection:
  "budget_wf s \<Longrightarrow> streams s sid = Some st \<Longrightarrow> budget_wf (count_rejection s sid st)"
  by (auto simp: budget_wf_def count_rejection_def stream_wf_def)

lemma budget_wf_reserve:
  assumes wf: "budget_wf s"
  shows "budget_wf (fst (reserve s sid role n))"
proof (cases "n = 0")
  case False
  show ?thesis
  proof (cases "streams s sid")
    case None
    then show ?thesis using reserve_unknown [OF wf False None, of role] wf by auto
  next
    case (Some st)
    show ?thesis
    proof (cases "fits s st n")
      case True
      then show ?thesis
        using reserve_fits [OF wf False Some True, of role] budget_wf_charged [OF wf Some True] by simp
    next
      case False': False
      show ?thesis
        using reserve_refused [OF wf False Some False', of role] wf budget_wf_count_rejection [OF wf Some]
        by auto
    qed
  qed
qed (simp add: wf)

text \<open>A reservation is backed when the gauges hold its bytes; then its release is exact.\<close>

definition backed :: "budget_state \<Rightarrow> reservation \<Rightarrow> bool" where
  "backed s r \<longleftrightarrow> \<not> r_released r \<and> (\<exists>st. streams s (r_stream r) = Some st
     \<and> r_bytes r \<le> role_live st (r_role r) \<and> r_bytes r \<le> process_role_live s (r_role r)
     \<and> r_bytes r \<le> worker_role_live s (r_role r))"

definition refund_stream :: "stream_state \<Rightarrow> memory_role \<Rightarrow> usize \<Rightarrow> stream_state" where
  "refund_stream st role n =
     st\<lparr>live := live st - n, role_live := (role_live st)(role := role_live st role - n)\<rparr>"

definition refunded :: "budget_state \<Rightarrow> stream_id \<Rightarrow> stream_state \<Rightarrow> memory_role \<Rightarrow> usize \<Rightarrow> budget_state" where
  "refunded s sid st role n =
    s\<lparr>process_live := process_live s - n, worker_live := worker_live s - n,
      process_role_live := (process_role_live s)(role := process_role_live s role - n),
      worker_role_live := (worker_role_live s)(role := worker_role_live s role - n),
      streams := (streams s)(sid \<mapsto> refund_stream st role n)\<rparr>"

lemma release_backed:
  assumes wf: "budget_wf s" and r: "\<not> r_released r" and st: "streams s (r_stream r) = Some st"
    and le: "r_bytes r \<le> role_live st (r_role r)" "r_bytes r \<le> process_role_live s (r_role r)"
      "r_bytes r \<le> worker_role_live s (r_role r)"
  shows "release s r = (refunded s (r_stream r) st (r_role r) (r_bytes r), r\<lparr>r_released := True\<rparr>)"
proof -
  have "r_bytes r \<le> process_live s" "r_bytes r \<le> worker_live s" "r_bytes r \<le> live st"
    using le budget_wf_roles [OF wf, of "r_role r"] stream_wf_role [OF wf st, of "r_role r"] by auto
  then show ?thesis
    using r st le
    by (simp add: release_def refunded_def refund_stream_def wrapping_sub_within Let_def)
qed

lemma budget_wf_refunded:
  assumes wf: "budget_wf s" and st: "streams s sid = Some st"
    and le: "n \<le> role_live st role" "n \<le> process_role_live s role" "n \<le> worker_role_live s role"
  shows "budget_wf (refunded s sid st role n)"
proof -
  have "stream_wf (worker_limit s) st" using wf st by (auto simp: budget_wf_def)
  then have "stream_wf (worker_limit s) (refund_stream st role n)"
    using le role_le_sum [of "role_live st" role]
    by (auto simp: stream_wf_def refund_stream_def sum_role_upd)
  then show ?thesis
    using wf le role_le_sum [of "process_role_live s" role] role_le_sum [of "worker_role_live s" role]
    by (auto simp: budget_wf_def refunded_def sum_role_upd)
qed

end
