(* ===== verification/Memory_Ledger.thy ===== *)
theory Memory_Ledger
  imports Memory_Budget
begin

text \<open>
  Every run of the memory budget. A \<open>ledger\<close> is the shared budget tree together with the
  reservations and stream handles the rest of the program owns; Rust's ownership makes each of
  the steps below possible only on an owned value, and makes a handle's \<open>Drop\<close> run when neither
  a user nor a reservation holds it any more. The accounting invariant holds in every reachable
  ledger: each gauge is the sum of the owned reservations, never above its limit.
\<close>

section \<open>Runs\<close>

record ledger =
  tree :: budget_state
  owned :: "reservation multiset"
  handles :: "stream_id set"

definition holds_handle :: "reservation multiset \<Rightarrow> stream_id set \<Rightarrow> stream_id \<Rightarrow> bool" where
  "holds_handle M H sid \<longleftrightarrow> sid \<in> H \<or> (\<exists>r \<in># M. r_stream r = sid)"

text \<open>The handle of \<open>sid\<close> is dropped once nothing holds it.\<close>

definition settle :: "budget_state \<Rightarrow> reservation multiset \<Rightarrow> stream_id set \<Rightarrow> stream_id \<Rightarrow> budget_state" where
  "settle t M H sid = (if holds_handle M H sid then t else drop_handle t sid)"

inductive ledger_step :: "ledger \<Rightarrow> ledger \<Rightarrow> bool" where
  Open: "next_stream_id (tree l) < usize_max \<Longrightarrow> stream_inner (tree l) n = (t, Inr sid) \<Longrightarrow>
     ledger_step l (l\<lparr>tree := t, handles := insert sid (handles l)\<rparr>)"
| Open_refused: "stream_inner (tree l) n = (t, Inl e) \<Longrightarrow> ledger_step l (l\<lparr>tree := t\<rparr>)"
| Reserve: "sid \<in> handles l \<Longrightarrow> reserve (tree l) sid role n = (t, Inr r) \<Longrightarrow>
     ledger_step l (l\<lparr>tree := t, owned := add_mset r (owned l)\<rparr>)"
| Reserve_refused: "sid \<in> handles l \<Longrightarrow> reserve (tree l) sid role n = (t, Inl e) \<Longrightarrow>
     ledger_step l (l\<lparr>tree := t\<rparr>)"
| Transfer: "r \<in># owned l \<Longrightarrow> transfer_role (tree l) r role = (t, r', res) \<Longrightarrow>
     ledger_step l (l\<lparr>tree := t, owned := add_mset r' (owned l - {#r#})\<rparr>)"
| Release: "r \<in># owned l \<Longrightarrow> release (tree l) r = (t, r') \<Longrightarrow>
     ledger_step l (l\<lparr>tree := settle t (owned l - {#r#}) (handles l) (r_stream r),
       owned := owned l - {#r#}\<rparr>)"
| Close: "sid \<in> handles l \<Longrightarrow>
     ledger_step l (l\<lparr>tree := settle (tree l) (owned l) (handles l - {sid}) sid,
       handles := handles l - {sid}\<rparr>)"

inductive ledger_run :: "usize \<Rightarrow> usize \<Rightarrow> ledger \<Rightarrow> bool" for pl wl where
  Start: "tree_new pl wl = Inr t \<Longrightarrow> ledger_run pl wl \<lparr>tree = t, owned = {#}, handles = {}\<rparr>"
| Step: "ledger_run pl wl l \<Longrightarrow> ledger_step l l' \<Longrightarrow> ledger_run pl wl l'"

section \<open>Sums over reservations\<close>

definition charge :: "(reservation \<Rightarrow> bool) \<Rightarrow> reservation multiset \<Rightarrow> nat" where
  "charge P M = (\<Sum>r\<in>#M. if P r then r_bytes r else 0)"

lemma charge_empty [simp]: "charge P {#} = 0"
  by (simp add: charge_def)

lemma charge_add [simp]: "charge P (add_mset r M) = (if P r then r_bytes r else 0) + charge P M"
  by (simp add: charge_def)

lemma charge_remove: "r \<in># M \<Longrightarrow> charge P M = (if P r then r_bytes r else 0) + charge P (M - {#r#})"
  by (metis charge_add insert_DiffM)

lemma charge_none: "(\<And>r. r \<in># M \<Longrightarrow> \<not> P r) \<Longrightarrow> charge P M = 0"
  by (induction M) auto

section \<open>The accounting invariant\<close>

definition totals_exact :: "ledger \<Rightarrow> bool" where
  "totals_exact l \<longleftrightarrow>
     process_live (tree l) = charge (\<lambda>_. True) (owned l)
   \<and> worker_live (tree l) = charge (\<lambda>_. True) (owned l)
   \<and> (\<forall>\<rho>. process_role_live (tree l) \<rho> = charge (\<lambda>r. r_role r = \<rho>) (owned l))
   \<and> (\<forall>\<rho>. worker_role_live (tree l) \<rho> = charge (\<lambda>r. r_role r = \<rho>) (owned l))"

definition streams_exact :: "ledger \<Rightarrow> bool" where
  "streams_exact l \<longleftrightarrow> (\<forall>sid st. streams (tree l) sid = Some st \<longrightarrow>
     live st = charge (\<lambda>r. r_stream r = sid) (owned l)
   \<and> (\<forall>\<rho>. role_live st \<rho> = charge (\<lambda>r. r_stream r = sid \<and> r_role r = \<rho>) (owned l)))"

definition ownership_ok :: "ledger \<Rightarrow> bool" where
  "ownership_ok l \<longleftrightarrow>
     (\<forall>r \<in># owned l. \<not> r_released r)
   \<and> (\<forall>sid. streams (tree l) sid \<noteq> None \<longleftrightarrow> holds_handle (owned l) (handles l) sid)
   \<and> (\<forall>sid. streams (tree l) sid \<noteq> None \<longrightarrow> sid \<le> next_stream_id (tree l))
   \<and> next_stream_id (tree l) \<le> usize_max"

definition ledger_inv :: "ledger \<Rightarrow> bool" where
  "ledger_inv l \<longleftrightarrow> budget_wf (tree l) \<and> totals_exact l \<and> streams_exact l \<and> ownership_ok l"

lemmas ledger_inv_defs = ledger_inv_def totals_exact_def streams_exact_def ownership_ok_def

lemma ledger_inv_start:
  assumes "tree_new pl wl = Inr t" "pl \<le> usize_max"
  shows "ledger_inv \<lparr>tree = t, owned = {#}, handles = {}\<rparr>"
  using assms
  by (auto simp: tree_new_def fresh_tree_def ledger_inv_defs budget_wf_def holds_handle_def split: if_splits)

lemma stream_inner_refused: "stream_inner s n = (t, Inl e) \<Longrightarrow> t = s"
  by (auto simp: stream_inner_def Let_def split: if_splits)

lemma inv_open:
  assumes inv: "ledger_inv l" and room: "next_stream_id (tree l) < usize_max"
    and op: "stream_inner (tree l) n = (t, Inr sid)"
  shows "ledger_inv (l\<lparr>tree := t, handles := insert sid (handles l)\<rparr>)"
proof -
  have sid: "sid = Suc (next_stream_id (tree l))" and n: "0 < n" "n \<le> worker_limit (tree l)"
    and t: "t = tree l\<lparr>next_stream_id := sid, streams := (streams (tree l))(sid \<mapsto> fresh_stream n)\<rparr>"
    using op room by (auto simp: stream_inner_def Let_def wrapping_add_within split: if_splits)
  have new: "streams (tree l) sid = None"
    using inv sid unfolding ledger_inv_defs by (metis not_less_eq_eq order_refl)
  then have unheld: "\<not> holds_handle (owned l) (handles l) sid"
    using inv new unfolding ledger_inv_defs by blast
  then have none: "charge (\<lambda>r. r_stream r = sid) (owned l) = 0"
    "\<And>\<rho>. charge (\<lambda>r. r_stream r = sid \<and> r_role r = \<rho>) (owned l) = 0"
    by (auto simp: holds_handle_def intro!: charge_none)
  have wf: "budget_wf t"
    using inv n t by (auto simp: ledger_inv_def budget_wf_def stream_wf_def fresh_stream_def)
  show ?thesis
    using inv t room new none wf
    unfolding ledger_inv_defs holds_handle_def fresh_stream_def sid
    by (auto simp: le_Suc_eq)
qed

lemma handle_stream: "ledger_inv l \<Longrightarrow> sid \<in> handles l \<Longrightarrow> \<exists>st. streams (tree l) sid = Some st"
  unfolding ledger_inv_defs holds_handle_def by blast

lemma inv_reserve:
  assumes inv: "ledger_inv l" and h: "sid \<in> handles l"
    and res: "reserve (tree l) sid role n = (t, Inr r)"
  shows "ledger_inv (l\<lparr>tree := t, owned := add_mset r (owned l)\<rparr>)"
proof (cases "n = 0")
  case True
  then have "t = tree l" "r = \<lparr>r_stream = sid, r_role = role, r_bytes = 0, r_released = False\<rparr>"
    using res by auto
  then show ?thesis using inv h by (auto simp: ledger_inv_defs holds_handle_def)
next
  case False
  obtain st where st: "streams (tree l) sid = Some st" using handle_stream [OF inv h] by blast
  have wf: "budget_wf (tree l)" using inv by (simp add: ledger_inv_def)
  have fits: "fits (tree l) st n"
    using reserve_refused [OF wf False st, of role] res by force
  have t: "t = charged (tree l) sid st role n"
    and r: "r = \<lparr>r_stream = sid, r_role = role, r_bytes = n, r_released = False\<rparr>"
    using reserve_fits [OF wf False st fits, of role] res by auto
  show ?thesis
    using inv h st budget_wf_charged [OF wf st fits, of role] unfolding t r
    by (auto simp: ledger_inv_defs holds_handle_def charged_def charge_stream_def)
qed

lemma inv_reserve_refused:
  assumes inv: "ledger_inv l" and h: "sid \<in> handles l"
    and res: "reserve (tree l) sid role n = (t, Inl e)"
  shows "ledger_inv (l\<lparr>tree := t\<rparr>)"
proof -
  obtain st where st: "streams (tree l) sid = Some st" using handle_stream [OF inv h] by blast
  have wf: "budget_wf (tree l)" using inv by (simp add: ledger_inv_def)
  have n: "n \<noteq> 0" using res by (cases "n = 0") auto
  have "\<not> fits (tree l) st n" using reserve_fits [OF wf n st, of role] res by auto
  then have "t = tree l \<or> t = count_rejection (tree l) sid st"
    using reserve_refused [OF wf n st, of role] res by auto
  moreover have "holds_handle (owned l) (handles l) sid" using h by (simp add: holds_handle_def)
  ultimately show ?thesis
    using inv st budget_wf_count_rejection [OF wf st]
    by (auto simp: ledger_inv_defs count_rejection_def split: if_splits)
qed

section \<open>Release and transfer of an owned reservation\<close>

lemma owned_stream:
  assumes inv: "ledger_inv l" and r: "r \<in># owned l"
  shows "\<exists>st. streams (tree l) (r_stream r) = Some st"
  using inv r unfolding ledger_inv_defs holds_handle_def by blast

lemma owned_backed:
  assumes inv: "ledger_inv l" and r: "r \<in># owned l" and st: "streams (tree l) (r_stream r) = Some st"
  shows "r_bytes r \<le> role_live st (r_role r)" "r_bytes r \<le> process_role_live (tree l) (r_role r)"
    "r_bytes r \<le> worker_role_live (tree l) (r_role r)" "\<not> r_released r"
  using inv r st
    charge_remove [OF r, of "\<lambda>q. r_role q = r_role r"]
    charge_remove [OF r, of "\<lambda>q. r_stream q = r_stream r \<and> r_role q = r_role r"]
  unfolding ledger_inv_defs by auto

lemma release_owned:
  assumes inv: "ledger_inv l" and r: "r \<in># owned l" and st: "streams (tree l) (r_stream r) = Some st"
  shows "release (tree l) r =
    (refunded (tree l) (r_stream r) st (r_role r) (r_bytes r), r\<lparr>r_released := True\<rparr>)"
  using inv owned_backed [OF assms] st by (intro release_backed) (auto simp: ledger_inv_def)

text \<open>The tree after a release, before the handle is settled.\<close>

lemma refunded_exact:
  assumes inv: "ledger_inv l" and r: "r \<in># owned l" and st: "streams (tree l) (r_stream r) = Some st"
  defines "t \<equiv> refunded (tree l) (r_stream r) st (r_role r) (r_bytes r)"
  defines "l' \<equiv> l\<lparr>tree := t, owned := owned l - {#r#}\<rparr>"
  shows "budget_wf t" "totals_exact l'" "streams_exact l'"
proof -
  note rem = charge_remove [OF r]
  show "budget_wf t"
    using inv owned_backed [OF inv r st] st unfolding t_def
    by (intro budget_wf_refunded) (auto simp: ledger_inv_def)
  show "totals_exact l'"
    using inv rem [of "\<lambda>_. True"] rem [of "\<lambda>q. r_role q = _"]
    unfolding l'_def t_def ledger_inv_defs refunded_def by auto
  show "streams_exact l'"
    unfolding streams_exact_def l'_def t_def
  proof (intro allI impI)
    fix sid st'
    assume "streams (tree (l\<lparr>tree := refunded (tree l) (r_stream r) st (r_role r) (r_bytes r),
      owned := owned l - {#r#}\<rparr>)) sid = Some st'"
    then show "live st' = charge (\<lambda>q. r_stream q = sid)
        (owned (l\<lparr>tree := refunded (tree l) (r_stream r) st (r_role r) (r_bytes r), owned := owned l - {#r#}\<rparr>))
      \<and> (\<forall>\<rho>. role_live st' \<rho> = charge (\<lambda>q. r_stream q = sid \<and> r_role q = \<rho>)
        (owned (l\<lparr>tree := refunded (tree l) (r_stream r) st (r_role r) (r_bytes r), owned := owned l - {#r#}\<rparr>)))"
      using inv st rem [of "\<lambda>q. r_stream q = sid"] rem [of "\<lambda>q. r_stream q = sid \<and> r_role q = _"]
      unfolding ledger_inv_defs refunded_def refund_stream_def by (auto split: if_splits)
  qed
qed

lemma settle_keeps:
  assumes wf: "budget_wf (tree l)" and tot: "totals_exact l" and str: "streams_exact l"
    and own: "\<forall>r \<in># owned l. \<not> r_released r" "next_stream_id (tree l) \<le> usize_max"
      "\<And>sid'. streams (tree l) sid' \<noteq> None \<Longrightarrow> sid' \<le> next_stream_id (tree l)"
      "\<And>sid'. sid' \<noteq> sid \<Longrightarrow> streams (tree l) sid' \<noteq> None \<longleftrightarrow> holds_handle (owned l) (handles l) sid'"
      "streams (tree l) sid \<noteq> None"
  shows "ledger_inv (l\<lparr>tree := settle (tree l) (owned l) (handles l) sid\<rparr>)"
proof (cases "holds_handle (owned l) (handles l) sid")
  case True
  then have "\<forall>sid'. streams (tree l) sid' \<noteq> None \<longleftrightarrow> holds_handle (owned l) (handles l) sid'"
    using own(4,5) by metis
  then show ?thesis using True wf tot str own(1-3)
    unfolding ledger_inv_def settle_def ownership_ok_def by (auto simp: totals_exact_def streams_exact_def)
next
  case False
  obtain st where st: "streams (tree l) sid = Some st" using own(5) by auto
  have "charge (\<lambda>r. r_stream r = sid) (owned l) = 0"
    using False by (auto simp: holds_handle_def intro!: charge_none)
  then have "live st = 0" using str st by (simp add: streams_exact_def)
  then have "settle (tree l) (owned l) (handles l) sid = tree l\<lparr>streams := (streams (tree l))(sid := None)\<rparr>"
    using False st by (simp add: settle_def drop_handle_def)
  then show ?thesis using False wf tot str own(1-4)
    unfolding ledger_inv_defs budget_wf_def by auto
qed

lemma inv_release:
  assumes inv: "ledger_inv l" and r: "r \<in># owned l" and rel: "release (tree l) r = (t, r')"
  shows "ledger_inv (l\<lparr>tree := settle t (owned l - {#r#}) (handles l) (r_stream r),
    owned := owned l - {#r#}\<rparr>)"
proof -
  obtain st where st: "streams (tree l) (r_stream r) = Some st" using owned_stream [OF inv r] by blast
  let ?l = "l\<lparr>tree := t, owned := owned l - {#r#}\<rparr>"
  have t: "t = refunded (tree l) (r_stream r) st (r_role r) (r_bytes r)"
    using release_owned [OF inv r st] rel by simp
  note ex = refunded_exact [OF inv r st, folded t]
  have held: "holds_handle (owned l - {#r#}) (handles l) sid' \<longleftrightarrow> holds_handle (owned l) (handles l) sid'"
    if "sid' \<noteq> r_stream r" for sid'
    using that r unfolding holds_handle_def by (metis in_diffD insert_DiffM insert_iff set_mset_add_mset_insert)
  have "ledger_inv (?l\<lparr>tree := settle (tree ?l) (owned ?l) (handles ?l) (r_stream r)\<rparr>)"
    using inv st ex held
    by (intro settle_keeps) (auto simp: t refunded_def ledger_inv_defs dest: in_diffD split: if_splits)
  then show ?thesis by (cases l) simp
qed

lemma inv_close:
  assumes inv: "ledger_inv l" and h: "sid \<in> handles l"
  shows "ledger_inv (l\<lparr>tree := settle (tree l) (owned l) (handles l - {sid}) sid,
    handles := handles l - {sid}\<rparr>)"
proof -
  let ?l = "l\<lparr>handles := handles l - {sid}\<rparr>"
  have "ledger_inv (?l\<lparr>tree := settle (tree ?l) (owned ?l) (handles ?l) sid\<rparr>)"
    using inv handle_stream [OF inv h]
    by (intro settle_keeps) (auto simp: ledger_inv_defs holds_handle_def)
  then show ?thesis by (cases l) simp
qed

section \<open>Transfer\<close>

definition moved :: "budget_state \<Rightarrow> reservation \<Rightarrow> stream_state \<Rightarrow> memory_role \<Rightarrow> budget_state" where
  "moved s r st role =
    (let s1 = move_role s (r_role r) role (r_bytes r);
         rl = (role_live st)(r_role r := role_live st (r_role r) - r_bytes r);
         m = role_live st role + r_bytes r
     in s1\<lparr>streams := (streams s1)(r_stream r \<mapsto> st\<lparr>role_live := rl(role := m),
          role_peak := (role_peak st)(role := max (role_peak st role) m)\<rparr>)\<rparr>)"

lemma role_pair_le:
  assumes "budget_wf s" "a \<noteq> b"
  shows "process_role_live s a + process_role_live s b \<le> process_live s"
    and "worker_role_live s a + worker_role_live s b \<le> worker_live s"
  using assms sum_mono2 [of UNIV "{a, b}" "process_role_live s"]
    sum_mono2 [of UNIV "{a, b}" "worker_role_live s"]
  by (auto simp: budget_wf_def)

lemma stream_role_pair_le:
  assumes "budget_wf s" "streams s sid = Some st" "a \<noteq> b"
  shows "role_live st a + role_live st b \<le> live st"
proof -
  have "(\<Sum>\<rho>\<in>UNIV. role_live st \<rho>) = live st"
    using assms unfolding budget_wf_def stream_wf_def by blast
  then show ?thesis using assms(3) sum_mono2 [of UNIV "{a, b}" "role_live st"] by auto
qed

lemma transfer_owned:
  assumes wf: "budget_wf s" and r: "\<not> r_released r" "r_bytes r \<noteq> 0" "r_role r \<noteq> role"
    and st: "streams s (r_stream r) = Some st"
    and le: "r_bytes r \<le> role_live st (r_role r)" "r_bytes r \<le> process_role_live s (r_role r)"
      "r_bytes r \<le> worker_role_live s (r_role r)"
  shows "transfer_role s r role = (moved s r st role, r\<lparr>r_role := role\<rparr>, Inr ())"
proof -
  have "live st \<le> usize_max"
    using stream_wf_limits [OF wf st] wf by (auto simp: budget_wf_def)
  then have "role_live st role + r_bytes r \<le> usize_max"
    using stream_role_pair_le [OF wf st r(3)] le by simp
  moreover have "streams (move_role s (r_role r) role (r_bytes r)) (r_stream r) = Some st"
    using st by (simp add: move_role_def raise_role_peaks_def Let_def)
  ultimately show ?thesis
    using r le by (simp add: transfer_role_def moved_def Let_def wrapping_sub_within checked_add_within)
qed

lemma move_role_exact:
  assumes wf: "budget_wf s" and le: "n \<le> process_role_live s old" "n \<le> worker_role_live s old"
    and ne: "old \<noteq> new"
  shows "process_role_live (move_role s old new n) =
      (process_role_live s)(old := process_role_live s old - n, new := process_role_live s new + n)"
    and "worker_role_live (move_role s old new n) =
      (worker_role_live s)(old := worker_role_live s old - n, new := worker_role_live s new + n)"
proof -
  have "process_live s \<le> usize_max" "worker_live s \<le> usize_max" using wf by (auto simp: budget_wf_def)
  then have "process_role_live s new + n \<le> usize_max" "worker_role_live s new + n \<le> usize_max"
    using role_pair_le [OF wf ne] le by auto
  then show "process_role_live (move_role s old new n) =
      (process_role_live s)(old := process_role_live s old - n, new := process_role_live s new + n)"
    "worker_role_live (move_role s old new n) =
      (worker_role_live s)(old := worker_role_live s old - n, new := worker_role_live s new + n)"
    using ne le
    by (simp_all add: move_role_def raise_role_peaks_def Let_def wrapping_sub_within wrapping_add_within)
qed

lemma move_role_frame [simp]:
  "process_live (move_role s old new n) = process_live s"
  "worker_live (move_role s old new n) = worker_live s"
  "process_limit (move_role s old new n) = process_limit s"
  "worker_limit (move_role s old new n) = worker_limit s"
  "process_peak (move_role s old new n) = process_peak s"
  "worker_peak (move_role s old new n) = worker_peak s"
  "streams (move_role s old new n) = streams s"
  "next_stream_id (move_role s old new n) = next_stream_id s"
  by (simp_all add: move_role_def raise_role_peaks_def Let_def)

lemma sum_fun_upd:
  fixes f :: role_table
  shows "sum (f(r := v)) UNIV = sum f UNIV - f r + v"
  by (simp add: fun_upd_def sum_role_upd)

lemma sum_role_move:
  fixes f :: role_table
  assumes "a \<noteq> b" "n \<le> f a"
  shows "sum (f(a := f a - n, b := f b + n)) UNIV = sum f UNIV"
proof -
  have "f b \<le> sum (f(a := f a - n)) UNIV" using role_le_sum [of "f(a := f a - n)" b] assms(1) by simp
  then have "sum (f(a := f a - n, b := f b + n)) UNIV = sum (f(a := f a - n)) UNIV + n"
    using assms(1) by (simp only: sum_fun_upd [of _ b]) simp
  then show ?thesis using assms(2) role_le_sum [of f a] by (simp only: sum_fun_upd)
qed

lemma budget_wf_moved:
  assumes wf: "budget_wf s" and ne: "r_role r \<noteq> role"
    and st: "streams s (r_stream r) = Some st"
    and le: "r_bytes r \<le> role_live st (r_role r)" "r_bytes r \<le> process_role_live s (r_role r)"
      "r_bytes r \<le> worker_role_live s (r_role r)"
  shows "budget_wf (moved s r st role)"
proof -
  let ?s = "move_role s (r_role r) role (r_bytes r)"
  have "stream_wf (worker_limit s) st" using wf st by (auto simp: budget_wf_def)
  then have "stream_wf (worker_limit s) (st\<lparr>role_live := (role_live st)
      (r_role r := role_live st (r_role r) - r_bytes r, role := role_live st role + r_bytes r),
      role_peak := (role_peak st)(role := m)\<rparr>)" for m
    using sum_role_move [OF ne, of "r_bytes r" "role_live st"] le by (simp add: stream_wf_def)
  moreover have "(\<Sum>\<rho>\<in>UNIV. process_role_live ?s \<rho>) = process_live s"
    "(\<Sum>\<rho>\<in>UNIV. worker_role_live ?s \<rho>) = worker_live s"
    using wf move_role_exact [OF wf le(2,3) ne] sum_role_move [of _ _ "r_bytes r" "process_role_live s"]
      sum_role_move [of _ _ "r_bytes r" "worker_role_live s"] ne le
    by (simp_all add: budget_wf_def del: fun_upd_apply)
  ultimately show ?thesis
    using wf by (simp add: budget_wf_def moved_def Let_def)
qed

lemma inv_transfer:
  assumes inv: "ledger_inv l" and r: "r \<in># owned l" and tr: "transfer_role (tree l) r role = (t, r', res)"
  shows "ledger_inv (l\<lparr>tree := t, owned := add_mset r' (owned l - {#r#})\<rparr>)"
proof -
  obtain st where st: "streams (tree l) (r_stream r) = Some st" using owned_stream [OF inv r] by blast
  have wf: "budget_wf (tree l)" using inv by (simp add: ledger_inv_def)
  note b = owned_backed [OF inv r st]
  note rem = charge_remove [OF r]
  have held: "holds_handle (add_mset (r\<lparr>r_role := role\<rparr>) (owned l - {#r#})) H sid
      \<longleftrightarrow> holds_handle (owned l) H sid" for H sid
    using r unfolding holds_handle_def
    by (metis (no_types, lifting) insert_DiffM insert_iff reservation.select_convs(1)
        reservation.surjective reservation.update_convs(2) set_mset_add_mset_insert)
  show ?thesis
  proof (cases "r_role r = role \<or> r_bytes r = 0")
    case True
    then have t: "t = tree l" "r' = r\<lparr>r_role := role\<rparr>"
      using tr b(4) by (auto simp: transfer_role_def)
    show ?thesis
    proof (cases "r_role r = role")
      case True
      then have "r' = r" unfolding t(2) by (cases r) simp
      then show ?thesis using inv r unfolding t(1) by (cases l) simp
    next
      case False
      then have "r_bytes r = 0" using \<open>r_role r = role \<or> r_bytes r = 0\<close> by simp
      then have "charge P (add_mset r' (owned l - {#r#})) = charge P (owned l)" for P
        using rem [of P] unfolding t(2) by simp
      note eq = this [unfolded t(2)]
      then show ?thesis
        using inv held b(4) unfolding t ledger_inv_defs
        by (simp add: eq del: charge_add) (auto dest: in_diffD)
    qed
  next
    case False
    then have t: "t = moved (tree l) r st role" "r' = r\<lparr>r_role := role\<rparr>"
      using transfer_owned [OF wf b(4) _ _ st b(1-3), of role] tr by auto
    have wf': "budget_wf t" unfolding t using False by (intro budget_wf_moved [OF wf _ st b(1-3)]) auto
    have ne: "r_role r \<noteq> role" using False by simp
    have tot: "totals_exact (l\<lparr>tree := t, owned := add_mset r' (owned l - {#r#})\<rparr>)"
      using inv False move_role_exact [OF wf b(2,3) ne] rem [of "\<lambda>_. True"] rem [of "\<lambda>q. r_role q = _"]
      unfolding t ledger_inv_defs moved_def Let_def by auto
    have str: "streams_exact (l\<lparr>tree := t, owned := add_mset r' (owned l - {#r#})\<rparr>)"
      using inv False st rem [of "\<lambda>q. r_stream q = _"] rem [of "\<lambda>q. r_stream q = _ \<and> r_role q = _"]
      unfolding t ledger_inv_defs moved_def Let_def by (auto split: if_splits)
    show ?thesis
      using wf' tot str inv held st b(4) unfolding ledger_inv_def ownership_ok_def t moved_def Let_def
      by (auto dest: in_diffD)
  qed
qed

section \<open>Every reachable ledger\<close>

lemma ledger_step_inv: "ledger_step l l' \<Longrightarrow> ledger_inv l \<Longrightarrow> ledger_inv l'"
proof (induction rule: ledger_step.induct)
  case (Open l n t sid)
  then show ?case by (blast intro: inv_open)
next
  case (Open_refused l n t e)
  then have "t = tree l" using stream_inner_refused by blast
  then show ?case using Open_refused.prems by (cases l) simp
next
  case (Reserve sid l role n t r)
  then show ?case by (blast intro: inv_reserve)
next
  case (Reserve_refused sid l role n t e)
  then show ?case by (blast intro: inv_reserve_refused)
next
  case (Transfer r l role t r' res)
  then show ?case by (blast intro: inv_transfer)
next
  case (Release r l t r')
  then show ?case by (blast intro: inv_release)
next
  case (Close sid l)
  then show ?case by (blast intro: inv_close)
qed

definition limits_of :: "budget_state \<Rightarrow> usize \<times> usize" where
  "limits_of s = (process_limit s, worker_limit s)"

lemma limits_stream_inner: "limits_of (fst (stream_inner s n)) = limits_of s"
  by (simp add: stream_inner_def limits_of_def Let_def)

lemma limits_reserve: "limits_of (fst (reserve s sid role n)) = limits_of s"
  by (simp add: reserve_def commit_reserve_def commit_totals_def raise_role_peaks_def
      count_rejection_def limits_of_def Let_def split: option.splits)

lemma limits_transfer: "limits_of (fst (transfer_role s r role)) = limits_of s"
  by (simp add: transfer_role_def move_role_def raise_role_peaks_def limits_of_def Let_def
      split: option.splits)

lemma limits_release: "limits_of (fst (release s r)) = limits_of s"
  by (simp add: release_def limits_of_def Let_def split: option.splits)

lemma limits_settle: "limits_of (settle s M H sid) = limits_of s"
  by (simp add: settle_def drop_handle_def limits_of_def split: option.splits)

lemma ledger_step_limits: "ledger_step l l' \<Longrightarrow> limits_of (tree l') = limits_of (tree l)"
proof (induction rule: ledger_step.induct)
  case (Open l n t sid)
  then show ?case using limits_stream_inner [of "tree l" n] by simp
next
  case (Open_refused l n t e)
  then show ?case using limits_stream_inner [of "tree l" n] by simp
next
  case (Reserve sid l role n t r)
  then show ?case using limits_reserve [of "tree l" sid role n] by simp
next
  case (Reserve_refused sid l role n t e)
  then show ?case using limits_reserve [of "tree l" sid role n] by simp
next
  case (Transfer r l role t r' res)
  then show ?case using limits_transfer [of "tree l" r role] by simp
next
  case (Release r l t r')
  then show ?case using limits_release [of "tree l" r] by (simp add: limits_settle)
next
  case (Close sid l)
  then show ?case by (simp add: limits_settle)
qed

lemma ledger_run_inv:
  "ledger_run pl wl l \<Longrightarrow> pl \<le> usize_max \<Longrightarrow> ledger_inv l \<and> limits_of (tree l) = (pl, wl)"
proof (induction rule: ledger_run.induct)
  case (Start t)
  then have "limits_of t = (pl, wl)" by (auto simp: tree_new_def fresh_tree_def limits_of_def split: if_splits)
  then show ?case using Start ledger_inv_start by simp
next
  case (Step l l')
  then show ?case using ledger_step_inv ledger_step_limits by metis
qed

lemma reserve_iff_fits:
  assumes "budget_wf s" "n \<noteq> 0" "streams s sid = Some st"
  shows "is_ok (snd (reserve s sid role n)) \<longleftrightarrow> fits s st n"
  using reserve_fits [OF assms, of role] reserve_refused [OF assms, of role] by (cases "fits s st n") auto

section \<open>Properties\<close>

text \<open>
  C19. In every state of the memory budget reached by opening streams, reserving, changing roles and
  dropping (fewer than \<open>usize::MAX\<close> streams opened), the process, worker and per-stream live gauges
  are exactly the sums of the bytes of the reservations the program still owns, and so are the gauges of
  each memory role at all three levels; the process, worker and stream gauges are within their limits.
\<close>

theorem budget_exact_and_bounded:
  assumes "ledger_run pl wl l" and "pl \<le> usize_max"
  shows "process_live (tree l) = (\<Sum>r\<in>#owned l. r_bytes r) \<and> process_live (tree l) \<le> pl
    \<and> worker_live (tree l) = (\<Sum>r\<in>#owned l. r_bytes r) \<and> worker_live (tree l) \<le> wl
    \<and> (\<forall>\<rho>. process_role_live (tree l) \<rho> = (\<Sum>r\<in>#owned l. if r_role r = \<rho> then r_bytes r else 0))
    \<and> (\<forall>\<rho>. worker_role_live (tree l) \<rho> = (\<Sum>r\<in>#owned l. if r_role r = \<rho> then r_bytes r else 0))
    \<and> (\<forall>sid st. streams (tree l) sid = Some st \<longrightarrow>
         live st = (\<Sum>r\<in>#owned l. if r_stream r = sid then r_bytes r else 0) \<and> live st \<le> limit st
       \<and> (\<forall>\<rho>. role_live st \<rho> = (\<Sum>r\<in>#owned l. if r_stream r = sid \<and> r_role r = \<rho> then r_bytes r else 0)))"
proof -
  have inv: "ledger_inv l" and lim: "process_limit (tree l) = pl" "worker_limit (tree l) = wl"
    using ledger_run_inv [OF assms] by (auto simp: limits_of_def)
  have wf: "budget_wf (tree l)" using inv by (simp add: ledger_inv_def)
  have "process_live (tree l) \<le> pl" "worker_live (tree l) \<le> wl"
    using wf lim by (auto simp: budget_wf_def)
  then show ?thesis
    using inv stream_wf_limits(1) [OF wf] by (simp add: ledger_inv_defs charge_def)
qed

definition sample_tree :: "budget_state" where
  "sample_tree = fst (stream_inner (fresh_tree 10 5) 5)"

lemmas sample_tree_defs = sample_tree_def stream_inner_def fresh_tree_def Let_def wrapping_add_def

lemma sample_open: "ledger_run 10 5 \<lparr>tree = sample_tree, owned = {#}, handles = {1}\<rparr>"
proof -
  have new: "tree_new 10 5 = Inr (fresh_tree 10 5)" by (simp add: tree_new_def)
  have "stream_inner (fresh_tree 10 5) 5 = (sample_tree, Inr 1)"
    by (simp add: sample_tree_defs)
  moreover have "next_stream_id (fresh_tree 10 5) < usize_max" by (simp add: fresh_tree_def usize_max_def)
  ultimately have "ledger_step \<lparr>tree = fresh_tree 10 5, owned = {#}, handles = {}\<rparr>
      \<lparr>tree = sample_tree, owned = {#}, handles = {1}\<rparr>"
    using ledger_step.Open [of "\<lparr>tree = fresh_tree 10 5, owned = {#}, handles = {}\<rparr>" 5 sample_tree 1]
    by simp
  then show ?thesis using ledger_run.Start [OF new] ledger_run.Step by blast
qed

definition sample_reservation :: reservation where
  "sample_reservation = \<lparr>r_stream = 1, r_role = SseFrame, r_bytes = 3, r_released = False\<rparr>"

lemma sample_reserve:
  "ledger_run 10 5 \<lparr>tree = fst (reserve sample_tree 1 SseFrame 3), owned = {#sample_reservation#}, handles = {1}\<rparr>"
proof -
  have "reserve sample_tree 1 SseFrame 3 = (fst (reserve sample_tree 1 SseFrame 3), Inr sample_reservation)"
    by (simp add: sample_tree_defs sample_reservation_def fresh_stream_def reserve_def commit_reserve_def commit_totals_def
        raise_role_peaks_def checked_add_def usize_max_def)
  then have "ledger_step \<lparr>tree = sample_tree, owned = {#}, handles = {1}\<rparr>
    \<lparr>tree = fst (reserve sample_tree 1 SseFrame 3), owned = {#sample_reservation#}, handles = {1}\<rparr>"
    using ledger_step.Reserve [of 1 "\<lparr>tree = sample_tree, owned = {#}, handles = {1}\<rparr>" SseFrame 3]
    by simp
  then show ?thesis using sample_open ledger_run.Step by blast
qed

theorem budget_exact_and_bounded_witness:
  "process_live (fst (reserve sample_tree 1 SseFrame 3)) = 3 \<and> (3 :: nat) \<le> 10"
proof -
  have "10 \<le> usize_max" by (simp add: usize_max_def)
  from budget_exact_and_bounded [OF sample_reserve this] show ?thesis
    by (simp add: sample_reservation_def)
qed

text \<open>
  No budget leak: once every reservation and every stream handle of a run has been dropped,
  in whatever order, all live gauges are zero and no stream is registered any more.
\<close>

theorem budget_drained:
  assumes "ledger_run pl wl l" and "pl \<le> usize_max" and "owned l = {#}" and "handles l = {}"
  shows "process_live (tree l) = 0 \<and> worker_live (tree l) = 0
    \<and> (\<forall>\<rho>. process_role_live (tree l) \<rho> = 0 \<and> worker_role_live (tree l) \<rho> = 0)
    \<and> ts_active_streams (tree_snapshot_of (tree l)) = 0"
proof -
  have inv: "ledger_inv l" using ledger_run_inv [OF assms(1,2)] by simp
  then have "streams (tree l) = Map.empty"
    using assms(3,4) by (auto simp: ledger_inv_defs holds_handle_def)
  then show ?thesis using inv assms(3) by (simp add: ledger_inv_defs tree_snapshot_of_def)
qed

theorem budget_drained_witness:
  "\<exists>l. ledger_run 10 5 l \<and> next_stream_id (tree l) = 1 \<and> process_live (tree l) = 0
    \<and> ts_active_streams (tree_snapshot_of (tree l)) = 0"
proof -
  let ?t = "settle sample_tree {#} {} 1"
  have "ledger_step \<lparr>tree = sample_tree, owned = {#}, handles = {1}\<rparr> \<lparr>tree = ?t, owned = {#}, handles = {}\<rparr>"
    using ledger_step.Close [of 1 "\<lparr>tree = sample_tree, owned = {#}, handles = {1}\<rparr>"] by simp
  then have run: "ledger_run 10 5 \<lparr>tree = ?t, owned = {#}, handles = {}\<rparr>"
    using sample_open ledger_run.Step by blast
  have "10 \<le> usize_max" by (simp add: usize_max_def)
  from budget_drained [OF run this] show ?thesis
    using run by (intro exI [of _ "\<lparr>tree = ?t, owned = {#}, handles = {}\<rparr>"])
      (simp add: settle_def holds_handle_def drop_handle_def sample_tree_defs fresh_stream_def)
qed

text \<open>
  Admission is exact: for a held stream of a reachable budget, a non-empty reservation is
  granted if and only if it fits under the process, the worker and the stream limit; a refused
  one changes no live gauge, so an error never leaks or frees budget.
\<close>

theorem reserve_admission:
  assumes "ledger_run pl wl l" and "pl \<le> usize_max" and "sid \<in> handles l" and "n \<noteq> 0"
  shows "\<exists>st. streams (tree l) sid = Some st
    \<and> (is_ok (snd (reserve (tree l) sid role n)) \<longleftrightarrow>
        process_live (tree l) + n \<le> pl \<and> worker_live (tree l) + n \<le> wl \<and> live st + n \<le> limit st)
    \<and> (\<not> is_ok (snd (reserve (tree l) sid role n)) \<longrightarrow>
        (let t = fst (reserve (tree l) sid role n) in
          process_live t = process_live (tree l) \<and> worker_live t = worker_live (tree l)
        \<and> process_role_live t = process_role_live (tree l)
        \<and> map_option live \<circ> streams t = map_option live \<circ> streams (tree l)))"
proof -
  have inv: "ledger_inv l" and lim: "process_limit (tree l) = pl" "worker_limit (tree l) = wl"
    using ledger_run_inv [OF assms(1,2)] by (auto simp: limits_of_def)
  have wf: "budget_wf (tree l)" using inv by (simp add: ledger_inv_def)
  obtain st where st: "streams (tree l) sid = Some st" using handle_stream [OF inv assms(3)] by blast
  have iff: "is_ok (snd (reserve (tree l) sid role n)) \<longleftrightarrow> fits (tree l) st n"
    by (rule reserve_iff_fits [OF wf assms(4) st])
  have "fst (reserve (tree l) sid role n) \<in> {tree l, count_rejection (tree l) sid st}"
    if "\<not> fits (tree l) st n"
    using reserve_refused [OF wf assms(4) st that, of role] by auto
  then show ?thesis
    using st iff lim by (auto simp: fits_def count_rejection_def Let_def fun_eq_iff)
qed

theorem reserve_admission_witness:
  "\<exists>st. streams sample_tree 1 = Some st
    \<and> (is_ok (snd (reserve sample_tree 1 SseFrame 6)) \<longleftrightarrow>
        process_live sample_tree + 6 \<le> 10 \<and> worker_live sample_tree + 6 \<le> 5 \<and> live st + 6 \<le> limit st)"
proof -
  have "10 \<le> usize_max" by (simp add: usize_max_def)
  from reserve_admission [OF sample_open this, of 1 6 SseFrame] show ?thesis by auto
qed

text \<open>
  Reserving and then dropping the reservation is the identity on every live gauge of every
  level; in particular the release-build subtractions never wrap.
\<close>

theorem reserve_release_roundtrip:
  assumes "budget_wf s" and "streams s sid = Some st" and "reserve s sid role n = (t, Inr r)"
  shows "\<exists>u. release t r = (u, r\<lparr>r_released := True\<rparr>)
    \<and> process_live u = process_live s \<and> worker_live u = worker_live s
    \<and> process_role_live u = process_role_live s \<and> worker_role_live u = worker_role_live s
    \<and> map_option live \<circ> streams u = map_option live \<circ> streams s
    \<and> map_option role_live \<circ> streams u = map_option role_live \<circ> streams s"
proof (cases "n = 0")
  case True
  then have "t = s" "r = \<lparr>r_stream = sid, r_role = role, r_bytes = 0, r_released = False\<rparr>"
    using assms(3) by auto
  then show ?thesis using assms(2)
    by (auto simp: release_def Let_def wrapping_sub_def fun_eq_iff split: option.splits)
next
  case False
  have fits: "fits s st n"
    using reserve_refused [OF assms(1) False assms(2), of role] assms(3) by force
  have t: "t = charged s sid st role n" "r = \<lparr>r_stream = sid, r_role = role, r_bytes = n, r_released = False\<rparr>"
    using reserve_fits [OF assms(1) False assms(2) fits, of role] assms(3) by auto
  have "release t r = (refunded t sid (charge_stream st role (live st + n) (role_live st role + n)) role n,
      r\<lparr>r_released := True\<rparr>)"
    using release_backed [OF budget_wf_charged [OF assms(1,2) fits, of role], of r
        "charge_stream st role (live st + n) (role_live st role + n)"]
    unfolding t by (simp add: charged_def charge_stream_def)
  then show ?thesis using assms(2)
    by (simp add: refunded_def t(1) charged_def charge_stream_def refund_stream_def fun_eq_iff)
qed

theorem reserve_release_roundtrip_witness:
  "\<exists>u. release (fst (reserve sample_tree 1 SseFrame 3)) sample_reservation
      = (u, sample_reservation\<lparr>r_released := True\<rparr>) \<and> process_live u = 0"
proof -
  have wf: "budget_wf sample_tree"
    using ledger_run_inv [OF sample_open] by (simp add: ledger_inv_def usize_max_def)
  have st: "streams sample_tree 1 = Some (fresh_stream 5)" and zero: "process_live sample_tree = 0"
    by (simp_all add: sample_tree_defs)
  have "reserve sample_tree 1 SseFrame 3 = (fst (reserve sample_tree 1 SseFrame 3), Inr sample_reservation)"
    using reserve_fits [OF wf _ st, of 3 SseFrame]
    by (simp add: fits_def sample_reservation_def sample_tree_defs fresh_stream_def)
  from reserve_release_roundtrip [OF wf st this] show ?thesis using zero by auto
qed

end
