(* ===== verification/Body_Plan.thy ===== *)
theory Body_Plan
  imports Memory_Budget
begin

text \<open>
  Compiled body plans and their per-direction executor
  (\<^verbatim>\<open>gateway-core/src/runtime/body/plan.rs\<close>): which byte limits a body flow has, how each
  transport chunk is admitted before it is copied, and what the end of stream checks against a
  declared length.
\<close>

datatype body_direction = LogicalRequest | AttemptRequest | AttemptResponsePrecommit | AcceptedResponse

record sse_plan =
  sp_max_event_bytes :: usize
  sp_max_pending_bytes :: usize
  sp_max_output_event_bytes :: usize
  sp_ratio_numerator :: usize
  sp_ratio_denominator :: usize
  sp_slack_bytes :: usize

datatype body_plan =
    PassThrough (plan_chunk: usize)
  | StreamingReplay (plan_chunk: usize) (plan_replay: usize)
  | BufferedTransform usize
  | SseFramedStreaming sse_plan

fun plan_valid :: "body_plan \<Rightarrow> bool" where
  "plan_valid (PassThrough c) = (c > 0)"
| "plan_valid (StreamingReplay c r) = (c > 0 \<and> r > 0)"
| "plan_valid (BufferedTransform b) = (b > 0)"
| "plan_valid (SseFramedStreaming p) =
    (sp_max_event_bytes p > 0 \<and> sp_max_pending_bytes p > 0
     \<and> sp_max_pending_bytes p \<ge> sp_max_event_bytes p \<and> sp_max_output_event_bytes p > 0
     \<and> sp_ratio_numerator p > 0 \<and> sp_ratio_denominator p > 0)"

definition plan_validate :: "body_plan \<Rightarrow> body_error + unit" where
  "plan_validate p = ensure (plan_valid p) InvalidPlanLimit"

fun max_chunk_bytes :: "body_plan \<Rightarrow> usize" where
  "max_chunk_bytes (PassThrough c) = c"
| "max_chunk_bytes (StreamingReplay c r) = c"
| "max_chunk_bytes (BufferedTransform b) = b"
| "max_chunk_bytes (SseFramedStreaming p) = sp_max_event_bytes p"

fun max_retained_bytes :: "body_plan \<Rightarrow> usize option" where
  "max_retained_bytes (PassThrough c) = None"
| "max_retained_bytes (StreamingReplay c r) = Some r"
| "max_retained_bytes (BufferedTransform b) = Some b"
| "max_retained_bytes (SseFramedStreaming p) = Some (sp_max_pending_bytes p)"

definition validate_chunk :: "body_plan \<Rightarrow> usize \<Rightarrow> body_error + unit" where
  "validate_chunk p n = ensure (n \<le> max_chunk_bytes p) BodyLimitExceeded"

record plan_executor =
  pe_direction :: body_direction
  pe_plan :: body_plan
  pe_hard_limit :: usize
  pe_observed :: usize
  pe_declared :: "usize option"
  pe_eos :: bool

definition executor_new :: "body_direction \<Rightarrow> body_plan \<Rightarrow> usize \<Rightarrow> body_error + plan_executor" where
  "executor_new d p hard =
    and_then (plan_validate p) (\<lambda>_.
    and_then (ensure (hard \<noteq> 0) InvalidPlanLimit) (\<lambda>_.
      Inr \<lparr>pe_direction = d, pe_plan = p, pe_hard_limit = hard, pe_observed = 0,
           pe_declared = None, pe_eos = False\<rparr>))"

definition total_limit :: "plan_executor \<Rightarrow> usize" where
  "total_limit e = min
    (case pe_plan e of
       PassThrough c \<Rightarrow> pe_hard_limit e
     | StreamingReplay c r \<Rightarrow> r
     | BufferedTransform b \<Rightarrow> b
     | SseFramedStreaming p \<Rightarrow> pe_hard_limit e)
    (pe_hard_limit e)"

definition preflight_content_length :: "plan_executor \<Rightarrow> usize \<Rightarrow> plan_executor \<times> (body_error + unit)" where
  "preflight_content_length e n =
    (if n > total_limit e then (e, Inl BodyLimitExceeded) else (e\<lparr>pe_declared := Some n\<rparr>, Inr ()))"

text \<open>The per-chunk bound: SSE and buffered plans bound events and totals, not transport chunks.\<close>

fun chunk_too_large :: "body_plan \<Rightarrow> usize \<Rightarrow> bool" where
  "chunk_too_large (PassThrough c) n = (n > c)"
| "chunk_too_large (StreamingReplay c r) n = (n > c)"
| "chunk_too_large (BufferedTransform b) n = False"
| "chunk_too_large (SseFramedStreaming p) n = False"

definition admit_chunk :: "plan_executor \<Rightarrow> usize \<Rightarrow> plan_executor \<times> (body_error + unit)" where
  "admit_chunk e n =
    (if pe_eos e then (e, Inl BodyAfterEos)
     else if chunk_too_large (pe_plan e) n then (e, Inl BodyLimitExceeded)
     else case checked_add (pe_observed e) n of
       None \<Rightarrow> (e, Inl BodyLimitExceeded)
     | Some m \<Rightarrow> if m > total_limit e then (e, Inl BodyLimitExceeded)
                 else (e\<lparr>pe_observed := m\<rparr>, Inr ()))"

definition executor_finish :: "plan_executor \<Rightarrow> plan_executor \<times> (body_error + usize)" where
  "executor_finish e =
    (if pe_eos e then (e, Inl DuplicateBodyEos)
     else let e' = e\<lparr>pe_eos := True\<rparr> in
       if (case pe_declared e of None \<Rightarrow> False | Some d \<Rightarrow> d \<noteq> pe_observed e)
       then (e', Inl ContentLengthMismatch) else (e', Inr (pe_observed e)))"

section \<open>The executor as a bounded meter\<close>

definition chunk_admission :: "usize \<Rightarrow> plan_executor \<Rightarrow> plan_executor \<times> bool" where
  "chunk_admission n e = (let (e', r) = admit_chunk e n in (e', is_ok r))"

lemma total_limit_observed [simp]: "total_limit (e\<lparr>pe_observed := n\<rparr>) = total_limit e"
  by (simp add: total_limit_def cong: body_plan.case_cong)

interpretation body_meter: bounded_meter pe_observed total_limit "\<lambda>n. n" chunk_admission
  by unfold_locales
    (auto simp: chunk_admission_def admit_chunk_def split: if_splits option.splits prod.splits)

lemma executor_new_state:
  "executor_new d p hard = Inr e \<Longrightarrow>
    pe_observed e = 0 \<and> pe_declared e = None \<and> \<not> pe_eos e \<and> pe_hard_limit e = hard \<and> pe_plan e = p
    \<and> plan_valid p \<and> hard \<noteq> 0"
  by (auto simp: executor_new_def plan_validate_def res_simps)

lemma chunk_admission_frame:
  "chunk_admission n e = (e', b) \<Longrightarrow> pe_eos e' = pe_eos e \<and> pe_declared e' = pe_declared e"
  by (auto simp: chunk_admission_def admit_chunk_def split: if_splits option.splits prod.splits)

lemma run_admission_frame:
  "run_admit chunk_admission ns e = (e', ms) \<Longrightarrow> pe_eos e' = pe_eos e \<and> pe_declared e' = pe_declared e"
proof (induction ns arbitrary: e e' ms)
  case (Cons n ns)
  obtain t b where t: "chunk_admission n e = (t, b)" by (cases "chunk_admission n e")
  obtain u zs where u: "run_admit chunk_admission ns t = (u, zs)" by (cases "run_admit chunk_admission ns t")
  show ?case using Cons.IH [OF u] Cons.prems t u chunk_admission_frame [OF t] by (auto simp: Let_def)
qed simp

text \<open>
  Body admission: for any sequence of offered chunks, the executor has counted exactly the
  bytes of the chunks it admitted, never more than the plan's total limit, and the end of stream
  succeeds with that count unless a declared Content-Length differs from it.
\<close>

theorem executor_counts_admitted:
  assumes "executor_new d p hard = Inr e" and "run_admit chunk_admission ns e = (e', admitted)"
  shows "pe_observed e' = sum_list admitted \<and> sum_list admitted \<le> total_limit e
    \<and> total_limit e \<le> hard
    \<and> snd (executor_finish e') = Inr (sum_list admitted)
    \<and> (\<forall>len. snd (executor_finish (e'\<lparr>pe_declared := Some len\<rparr>)) =
          (if len = sum_list admitted then Inr len else Inl ContentLengthMismatch))"
proof -
  have used: "pe_observed e' = sum_list admitted"
    using body_meter.run_used [OF assms(2)] executor_new_state [OF assms(1)] by simp
  have "pe_observed e' \<le> total_limit e"
    using body_meter.run_bounded [OF assms(2)] executor_new_state [OF assms(1)] by simp
  moreover have "total_limit e \<le> hard"
    using executor_new_state [OF assms(1)] by (simp add: total_limit_def)
  moreover have "pe_declared e' = None" "\<not> pe_eos e'"
    using run_admission_frame [OF assms(2)] executor_new_state [OF assms(1)] by auto
  ultimately show ?thesis using used by (auto simp: executor_finish_def Let_def)
qed

theorem executor_counts_admitted_witness:
  "\<exists>e e'. executor_new LogicalRequest (StreamingReplay 4 6) 100 = Inr e
    \<and> run_admit chunk_admission [3, 5, 3, 1] e = (e', [3, 3])
    \<and> snd (executor_finish e') = Inr 6"
proof -
  let ?e = "\<lparr>pe_direction = LogicalRequest, pe_plan = StreamingReplay 4 6, pe_hard_limit = 100,
    pe_observed = 0, pe_declared = None, pe_eos = False\<rparr>"
  have new: "executor_new LogicalRequest (StreamingReplay 4 6) 100 = Inr ?e"
    by (simp add: executor_new_def plan_validate_def ensure_def)
  have run: "run_admit chunk_admission [3, 5, 3, 1] ?e = (?e\<lparr>pe_observed := 6\<rparr>, [3, 3])"
    by (simp add: chunk_admission_def admit_chunk_def checked_add_def usize_max_def total_limit_def Let_def)
  show ?thesis using executor_counts_admitted [OF new run] new run by auto
qed

end
