(* ===== verification/Charged_Body.thy ===== *)
theory Charged_Body
  imports Memory_Ledger Body_Plan
begin

text \<open>
  Charged bytes and their owners (second half of \<^verbatim>\<open>gateway-core/src/runtime/body/memory.rs\<close>):
  byte chunks that carry the reservation paying for them, the reserve-before-allocate builder
  and the bounded chunk queue. The operations act on the ledger, so taking a reservation and the
  \<open>Drop\<close> of an owned chunk are the ledger's own steps. \<open>BodyMetadataOwner\<close> (a shared pointer to
  another reservation) and the tracked \<open>Bytes\<close> owner are not modelled; \<open>size_of::<ChargedBytes>()\<close>
  is a parameter.
\<close>

section \<open>Taking and dropping reservations\<close>

definition acquire :: "ledger \<Rightarrow> stream_id \<Rightarrow> memory_role \<Rightarrow> usize \<Rightarrow> ledger \<times> (body_error + reservation)" where
  "acquire l sid role n =
    (case reserve (tree l) sid role n of
       (t, Inl e) \<Rightarrow> (l\<lparr>tree := t\<rparr>, Inl e)
     | (t, Inr r) \<Rightarrow> (l\<lparr>tree := t, owned := add_mset r (owned l)\<rparr>, Inr r))"

definition discard :: "ledger \<Rightarrow> reservation \<Rightarrow> ledger" where
  "discard l r =
    l\<lparr>tree := settle (fst (release (tree l) r)) (owned l - {#r#}) (handles l) (r_stream r),
      owned := owned l - {#r#}\<rparr>"

lemma discard_owned [simp]: "owned (discard l r) = owned l - {#r#}" "handles (discard l r) = handles l"
  by (simp_all add: discard_def)

lemma discard_inv: "ledger_inv l \<Longrightarrow> r \<in># owned l \<Longrightarrow> ledger_inv (discard l r)"
  unfolding discard_def by (rule inv_release) (auto intro: prod_eqI)

lemma acquire_inv:
  "ledger_inv l \<Longrightarrow> sid \<in> handles l \<Longrightarrow> acquire l sid role n = (l', res) \<Longrightarrow> ledger_inv l'"
  by (auto simp: acquire_def inv_reserve inv_reserve_refused split: prod.splits sum.splits)

lemma acquire_handles: "acquire l sid role n = (l', res) \<Longrightarrow> handles l' = handles l"
  by (auto simp: acquire_def split: prod.splits sum.splits)

lemma acquire_owned:
  "acquire l sid role n = (l', Inr r) \<Longrightarrow> owned l' = add_mset r (owned l)"
  "acquire l sid role n = (l', Inl e) \<Longrightarrow> owned l' = owned l"
  by (auto simp: acquire_def split: prod.splits sum.splits)

lemma reserve_made: "reserve s sid role n = (t, Inr r) \<Longrightarrow> r = \<lparr>r_stream = sid, r_role = role, r_bytes = n, r_released = False\<rparr>"
  by (auto simp: reserve_def commit_reserve_def Let_def split: if_splits option.splits)

lemma acquire_made:
  "acquire l sid role n = (l', Inr r) \<Longrightarrow> r = \<lparr>r_stream = sid, r_role = role, r_bytes = n, r_released = False\<rparr>"
  by (auto simp: acquire_def dest: reserve_made split: prod.splits sum.splits)

section \<open>Chunks and builders\<close>

record charged_bytes =
  cb_bytes :: bytes
  cb_reservation :: reservation

definition cb_role :: "charged_bytes \<Rightarrow> memory_role" where
  "cb_role c = r_role (cb_reservation c)"

definition retained_capacity :: "charged_bytes \<Rightarrow> usize" where
  "retained_capacity c = r_bytes (cb_reservation c)"

definition copy_from_opaque ::
  "ledger \<Rightarrow> stream_id \<Rightarrow> memory_role \<Rightarrow> bytes \<Rightarrow> ledger \<times> (body_error + charged_bytes)" where
  "copy_from_opaque l sid role bs =
    (case acquire l sid role (length bs) of
       (l', Inl e) \<Rightarrow> (l', Inl e)
     | (l', Inr r) \<Rightarrow> (l', Inr \<lparr>cb_bytes = bs, cb_reservation = r\<rparr>))"

text \<open>\<open>retained\<close> is the vector's capacity after \<open>shrink_to_fit\<close>, at least its length.\<close>

definition from_exact_vec ::
  "ledger \<Rightarrow> stream_id \<Rightarrow> memory_role \<Rightarrow> bytes \<Rightarrow> usize \<Rightarrow> ledger \<times> (body_error + charged_bytes)" where
  "from_exact_vec l sid role bs retained =
    (case acquire l sid role retained of
       (l', Inl e) \<Rightarrow> (l', Inl e)
     | (l', Inr r) \<Rightarrow> (l', Inr \<lparr>cb_bytes = bs, cb_reservation = r\<rparr>))"

definition drop_chunk :: "ledger \<Rightarrow> charged_bytes \<Rightarrow> ledger" where
  "drop_chunk l c = discard l (cb_reservation c)"

text \<open>\<open>ChargedBytes::transfer_role\<close> consumes the chunk: on an error it is dropped.\<close>

definition cb_transfer_role ::
  "ledger \<Rightarrow> charged_bytes \<Rightarrow> memory_role \<Rightarrow> ledger \<times> (body_error + charged_bytes)" where
  "cb_transfer_role l c role =
    (let r = cb_reservation c; (t, r', res) = transfer_role (tree l) r role;
         l' = l\<lparr>tree := t, owned := add_mset r' (owned l - {#r#})\<rparr>
     in case res of
          Inl e \<Rightarrow> (drop_chunk l' (c\<lparr>cb_reservation := r'\<rparr>), Inl e)
        | Inr _ \<Rightarrow> (l', Inr (c\<lparr>cb_reservation := r'\<rparr>)))"

record bytes_builder =
  bb_bytes :: bytes
  bb_capacity :: usize
  bb_reservation :: reservation

definition builder_new ::
  "ledger \<Rightarrow> stream_id \<Rightarrow> memory_role \<Rightarrow> usize \<Rightarrow> ledger \<times> (body_error + bytes_builder)" where
  "builder_new l sid role n =
    (case acquire l sid role n of
       (l', Inl e) \<Rightarrow> (l', Inl e)
     | (l', Inr r) \<Rightarrow> (l', Inr \<lparr>bb_bytes = [], bb_capacity = n, bb_reservation = r\<rparr>))"

definition extend_from_slice :: "bytes_builder \<Rightarrow> bytes \<Rightarrow> bytes_builder \<times> (body_error + unit)" where
  "extend_from_slice b bs =
    (if saturating_add (length (bb_bytes b)) (length bs) > bb_capacity b then (b, Inl BodyLimitExceeded)
     else (b\<lparr>bb_bytes := bb_bytes b @ bs\<rparr>, Inr ()))"

definition builder_push :: "bytes_builder \<Rightarrow> u8 \<Rightarrow> bytes_builder \<times> (body_error + unit)" where
  "builder_push b x =
    (if length (bb_bytes b) = bb_capacity b then (b, Inl BodyLimitExceeded)
     else (b\<lparr>bb_bytes := bb_bytes b @ [x]\<rparr>, Inr ()))"

definition resize_zeroed :: "bytes_builder \<Rightarrow> usize \<Rightarrow> bytes_builder \<times> (body_error + unit)" where
  "resize_zeroed b n =
    (if n > bb_capacity b then (b, Inl BodyLimitExceeded)
     else (b\<lparr>bb_bytes := take n (bb_bytes b) @ replicate (n - length (bb_bytes b)) (CHR 0x00)\<rparr>, Inr ()))"

definition builder_truncate :: "bytes_builder \<Rightarrow> usize \<Rightarrow> bytes_builder" where
  "builder_truncate b n = b\<lparr>bb_bytes := take n (bb_bytes b)\<rparr>"

definition builder_finish :: "bytes_builder \<Rightarrow> charged_bytes" where
  "builder_finish b = \<lparr>cb_bytes = bb_bytes b, cb_reservation = bb_reservation b\<rparr>"

section \<open>The charged queue\<close>

record charged_queue =
  cq_chunks :: "charged_bytes list"
  cq_role :: memory_role
  cq_max_chunks :: usize
  cq_max_chunk_bytes :: usize
  cq_max_visible_bytes :: usize
  cq_visible_bytes :: usize
  cq_high_water_bytes :: usize
  cq_high_water_chunks :: usize
  cq_metadata :: "reservation option"

definition queue_new ::
  "usize \<Rightarrow> ledger \<Rightarrow> stream_id \<Rightarrow> memory_role \<Rightarrow> body_plan \<Rightarrow> usize \<Rightarrow> usize
   \<Rightarrow> ledger \<times> (body_error + charged_queue)" where
  "queue_new size_of l sid role p hard max_chunks =
    (case plan_validate p of Inl e \<Rightarrow> (l, Inl e) | Inr _ \<Rightarrow>
     if hard = 0 \<or> max_chunks = 0 then (l, Inl InvalidPlanLimit)
     else case checked_mul max_chunks size_of of None \<Rightarrow> (l, Inl BudgetExceeded)
     | Some metadata_bytes \<Rightarrow>
       (case acquire l sid role metadata_bytes of
          (l', Inl e) \<Rightarrow> (l', Inl e)
        | (l', Inr r) \<Rightarrow>
           (l', Inr \<lparr>cq_chunks = [], cq_role = role, cq_max_chunks = max_chunks,
              cq_max_chunk_bytes = min (max_chunk_bytes p) hard,
              cq_max_visible_bytes = min (case max_retained_bytes p of None \<Rightarrow> hard | Some m \<Rightarrow> m) hard,
              cq_visible_bytes = 0, cq_high_water_bytes = 0, cq_high_water_chunks = 0,
              cq_metadata = Some r\<rparr>)))"

definition store_chunk :: "charged_queue \<Rightarrow> charged_bytes \<Rightarrow> usize \<Rightarrow> charged_queue" where
  "store_chunk q c next =
    q\<lparr>cq_visible_bytes := next, cq_chunks := cq_chunks q @ [c],
      cq_high_water_bytes := max (cq_high_water_bytes q) next,
      cq_high_water_chunks := max (cq_high_water_chunks q) (length (cq_chunks q) + 1)\<rparr>"

definition try_store :: "charged_queue \<Rightarrow> charged_bytes \<Rightarrow> body_error + charged_queue" where
  "try_store q c =
    and_then (ensure (cb_role c = cq_role q) WrongMemoryRole) (\<lambda>_.
    and_then (ensure (\<not> (length (cb_bytes c) > cq_max_chunk_bytes q
        \<or> length (cq_chunks q) \<ge> cq_max_chunks q)) BodyLimitExceeded) (\<lambda>_.
    and_then (ok_or BodyLimitExceeded (checked_add (cq_visible_bytes q) (length (cb_bytes c)))) (\<lambda>next.
    and_then (ensure (\<not> next > cq_max_visible_bytes q) BodyLimitExceeded) (\<lambda>_.
      Inr (store_chunk q c next)))))"

text \<open>The chunk is moved into the call: a refused chunk is dropped there, with its reservation.\<close>

definition push_back ::
  "ledger \<Rightarrow> charged_queue \<Rightarrow> charged_bytes \<Rightarrow> ledger \<times> charged_queue \<times> (body_error + unit)" where
  "push_back l q c =
    (case try_store q c of
       Inl e \<Rightarrow> (drop_chunk l c, q, Inl e)
     | Inr q' \<Rightarrow> (l, q', Inr ()))"

definition drop_option :: "ledger \<Rightarrow> reservation option \<Rightarrow> ledger" where
  "drop_option l r = (case r of None \<Rightarrow> l | Some r \<Rightarrow> discard l r)"

definition push_back_growing ::
  "usize \<Rightarrow> ledger \<Rightarrow> stream_id \<Rightarrow> charged_queue \<Rightarrow> charged_bytes
   \<Rightarrow> ledger \<times> charged_queue \<times> (body_error + unit)" where
  "push_back_growing size_of l sid q c =
    (if length (cq_chunks q) = cq_max_chunks q then
       case checked_mul (cq_max_chunks q) 2 of None \<Rightarrow> (drop_chunk l c, q, Inl BodyLimitExceeded)
       | Some capacity \<Rightarrow>
       (case checked_mul capacity size_of of None \<Rightarrow> (drop_chunk l c, q, Inl BodyLimitExceeded)
        | Some n \<Rightarrow>
        (case acquire l sid (cq_role q) n of
           (l', Inl e) \<Rightarrow> (drop_chunk l' c, q, Inl e)
         | (l', Inr r) \<Rightarrow>
            push_back (drop_option l' (cq_metadata q))
              (q\<lparr>cq_metadata := Some r, cq_max_chunks := capacity\<rparr>) c))
     else push_back l q c)"

definition pop_front :: "charged_queue \<Rightarrow> (charged_bytes \<times> charged_queue) option" where
  "pop_front q =
    (case cq_chunks q of
       [] \<Rightarrow> None
     | c # cs \<Rightarrow> Some (c, q\<lparr>cq_chunks := cs,
         cq_visible_bytes := wrapping_sub (cq_visible_bytes q) (length (cb_bytes c))\<rparr>))"

definition clear_and_release :: "ledger \<Rightarrow> charged_queue \<Rightarrow> ledger \<times> charged_queue" where
  "clear_and_release l q =
    (drop_option (fold (\<lambda>c l. drop_chunk l c) (cq_chunks q) l) (cq_metadata q),
     q\<lparr>cq_chunks := [], cq_visible_bytes := 0, cq_metadata := None\<rparr>)"

section \<open>Queue invariant\<close>

definition chunk_bytes :: "charged_bytes list \<Rightarrow> nat" where
  "chunk_bytes cs = sum_list (map (\<lambda>c. length (cb_bytes c)) cs)"

definition queue_wf :: "charged_queue \<Rightarrow> bool" where
  "queue_wf q \<longleftrightarrow>
     cq_visible_bytes q = chunk_bytes (cq_chunks q)
   \<and> cq_visible_bytes q \<le> cq_high_water_bytes q \<and> cq_high_water_bytes q \<le> cq_max_visible_bytes q
   \<and> length (cq_chunks q) \<le> cq_high_water_chunks q \<and> cq_high_water_chunks q \<le> cq_max_chunks q
   \<and> (\<forall>c \<in> set (cq_chunks q). cb_role c = cq_role q \<and> length (cb_bytes c) \<le> cq_max_chunk_bytes q)"

lemma chunk_bytes_simps [simp]:
  "chunk_bytes [] = 0" "chunk_bytes (c # cs) = length (cb_bytes c) + chunk_bytes cs"
  "chunk_bytes (cs @ ds) = chunk_bytes cs + chunk_bytes ds"
  by (simp_all add: chunk_bytes_def)

lemma try_store_ok:
  assumes "try_store q c = Inr q'"
  shows "q' = store_chunk q c (cq_visible_bytes q + length (cb_bytes c))"
    and "cb_role c = cq_role q" "length (cb_bytes c) \<le> cq_max_chunk_bytes q"
    and "length (cq_chunks q) < cq_max_chunks q"
    and "cq_visible_bytes q + length (cb_bytes c) \<le> cq_max_visible_bytes q"
  using assms by (auto simp: try_store_def res_simps)

lemma try_store_wf: "queue_wf q \<Longrightarrow> try_store q c = Inr q' \<Longrightarrow> queue_wf q'"
  using try_store_ok [of q c q'] by (auto simp: queue_wf_def store_chunk_def)

lemma queue_new_made:
  assumes "queue_new size_of l sid role p hard n = (l', Inr q)"
  shows "queue_wf q" "cq_chunks q = []" "cq_role q = role" "cq_max_visible_bytes q \<le> hard"
    "cq_max_chunks q = n"
    "\<exists>r. cq_metadata q = Some r \<and> acquire l sid role (n * size_of) = (l', Inr r)"
  using assms by (auto simp: queue_new_def queue_wf_def split: sum.splits if_splits option.splits prod.splits)

lemma pop_front_wf:
  assumes "queue_wf q" "pop_front q = Some (c, q')"
  shows "queue_wf q'" "cq_chunks q = c # cq_chunks q'" "cq_metadata q' = cq_metadata q"
    "cq_role q' = cq_role q"
  using assms
  by (auto simp: queue_wf_def pop_front_def wrapping_sub_within split: list.splits)

definition store_option :: "charged_bytes \<Rightarrow> charged_queue \<Rightarrow> charged_queue option" where
  "store_option c q = (case try_store q c of Inl _ \<Rightarrow> None | Inr q' \<Rightarrow> Some q')"

interpretation charged_fifo: fifo cq_chunks queue_wf store_option pop_front
proof
  fix q c q'
  assume "queue_wf q" "store_option c q = Some q'"
  then show "cq_chunks q' = cq_chunks q @ [c] \<and> queue_wf q'"
    using try_store_ok [of q c q'] try_store_wf [of q c q']
    by (auto simp: store_option_def store_chunk_def split: sum.splits)
next
  fix q c q'
  assume "queue_wf q" "pop_front q = Some (c, q')"
  then show "cq_chunks q = c # cq_chunks q' \<and> queue_wf q'" using pop_front_wf by blast
next
  fix q
  show "(pop_front q = None) \<longleftrightarrow> (cq_chunks q = [])" by (simp add: pop_front_def split: list.split)
qed

definition store_admission :: "charged_bytes \<Rightarrow> charged_queue \<Rightarrow> charged_queue \<times> bool" where
  "store_admission c q = (case try_store q c of Inl _ \<Rightarrow> (q, False) | Inr q' \<Rightarrow> (q', True))"

interpretation charged_meter: bounded_meter cq_visible_bytes cq_max_visible_bytes
  "\<lambda>c. length (cb_bytes c)" store_admission
proof
  fix c q q'
  assume "store_admission c q = (q', True)"
  then have "try_store q c = Inr q'" by (auto simp: store_admission_def split: sum.splits)
  from try_store_ok(1,5) [OF this]
  show "cq_visible_bytes q' = cq_visible_bytes q + length (cb_bytes c)
      \<and> cq_visible_bytes q' \<le> cq_max_visible_bytes q" by (simp add: store_chunk_def)
next
  fix c q q'
  assume "store_admission c q = (q', False)"
  then show "cq_visible_bytes q' = cq_visible_bytes q" by (auto simp: store_admission_def split: sum.splits)
next
  fix c q q' b
  assume a: "store_admission c q = (q', b)"
  show "cq_max_visible_bytes q' = cq_max_visible_bytes q"
  proof (cases "try_store q c")
    case (Inr q2)
    then have "q' = q2" using a by (simp add: store_admission_def)
    then show ?thesis using try_store_ok(1) [OF Inr] by (simp add: store_chunk_def)
  qed (use a in \<open>simp add: store_admission_def\<close>)
qed

section \<open>Queue operations as transactions on the ledger\<close>

definition queue_reservations :: "charged_queue \<Rightarrow> reservation multiset" where
  "queue_reservations q = mset (map cb_reservation (cq_chunks q))
     + (case cq_metadata q of None \<Rightarrow> {#} | Some r \<Rightarrow> {#r#})"

text \<open>A stream owns the queue's reservations and, apart from them, exactly those in \<open>M\<close>.\<close>

definition holds_queue :: "reservation multiset \<Rightarrow> stream_id \<Rightarrow> ledger \<Rightarrow> charged_queue \<Rightarrow> bool" where
  "holds_queue M sid l q \<longleftrightarrow> ledger_inv l \<and> sid \<in> handles l \<and> queue_wf q
     \<and> owned l = M + queue_reservations q"

datatype queue_op = Offer bytes | OfferGrowing bytes | Take

fun queue_op_step ::
  "usize \<Rightarrow> stream_id \<Rightarrow> queue_op \<Rightarrow> ledger \<times> charged_queue \<Rightarrow> ledger \<times> charged_queue" where
  "queue_op_step size_of sid (Offer bs) (l, q) =
    (case copy_from_opaque l sid (cq_role q) bs of
       (l', Inl e) \<Rightarrow> (l', q)
     | (l', Inr c) \<Rightarrow> (let (l'', q', _) = push_back l' q c in (l'', q')))"
| "queue_op_step size_of sid (OfferGrowing bs) (l, q) =
    (case copy_from_opaque l sid (cq_role q) bs of
       (l', Inl e) \<Rightarrow> (l', q)
     | (l', Inr c) \<Rightarrow> (let (l'', q', _) = push_back_growing size_of l' sid q c in (l'', q')))"
| "queue_op_step size_of sid Take (l, q) =
    (case pop_front q of None \<Rightarrow> (l, q) | Some (c, q') \<Rightarrow> (drop_chunk l c, q'))"

lemma copy_made:
  assumes "copy_from_opaque l sid role bs = (l', Inr c)"
  shows "cb_bytes c = bs" "owned l' = add_mset (cb_reservation c) (owned l)" "handles l' = handles l"
    "r_bytes (cb_reservation c) = length bs" "cb_role c = role"
  using assms acquire_owned acquire_handles
  by (auto simp: copy_from_opaque_def cb_role_def dest: acquire_made split: prod.splits sum.splits)

lemma copy_inv:
  "ledger_inv l \<Longrightarrow> sid \<in> handles l \<Longrightarrow> copy_from_opaque l sid role bs = (l', res) \<Longrightarrow> ledger_inv l'"
  by (auto simp: copy_from_opaque_def dest: acquire_inv split: prod.splits sum.splits)

lemma copy_refused:
  "copy_from_opaque l sid role bs = (l', Inl e) \<Longrightarrow> owned l' = owned l \<and> handles l' = handles l"
  by (auto simp: copy_from_opaque_def dest: acquire_owned acquire_handles split: prod.splits sum.splits)

lemma push_back_holds:
  assumes inv: "ledger_inv l" "sid \<in> handles l" "queue_wf q"
    and own: "owned l = add_mset (cb_reservation c) (M + queue_reservations q)"
    and push: "push_back l q c = (l', q', res)"
  shows "holds_queue M sid l' q'"
proof (cases "try_store q c")
  case (Inl e)
  then have "l' = drop_chunk l c" "q' = q" using push by (auto simp: push_back_def)
  then show ?thesis using inv own discard_inv [OF inv(1), of "cb_reservation c"]
    by (simp add: holds_queue_def drop_chunk_def)
next
  case (Inr q2)
  then have "l' = l" "q' = q2" using push by (auto simp: push_back_def)
  moreover have "queue_reservations q2 = add_mset (cb_reservation c) (queue_reservations q)"
    using try_store_ok(1) [OF Inr] by (simp add: queue_reservations_def store_chunk_def)
  ultimately show ?thesis using inv own try_store_wf [OF inv(3) Inr] by (simp add: holds_queue_def)
qed

lemma push_back_growing_cases:
  assumes "push_back_growing size_of l sid q c = out"
  obtains (Plain) "out = push_back l q c"
  | (Refused) k e where "out = (drop_chunk k c, q, Inl e)"
      "k = l \<or> acquire l sid (cq_role q) (cq_max_chunks q * 2 * size_of) = (k, Inl e)"
  | (Grown) k r where
      "out = push_back (drop_option k (cq_metadata q)) (q\<lparr>cq_metadata := Some r, cq_max_chunks := cq_max_chunks q * 2\<rparr>) c"
      "acquire l sid (cq_role q) (cq_max_chunks q * 2 * size_of) = (k, Inr r)"
  using assms unfolding push_back_growing_def
  by (auto split: if_splits option.splits prod.splits sum.splits)

lemma push_back_growing_holds:
  assumes inv: "ledger_inv l" "sid \<in> handles l" "queue_wf q"
    and own: "owned l = add_mset (cb_reservation c) (M + queue_reservations q)"
    and push: "push_back_growing size_of l sid q c = (l', q', res)"
  shows "holds_queue M sid l' q'"
  using push
proof (cases rule: push_back_growing_cases)
  case Plain
  then show ?thesis using push_back_holds [OF inv own, of l' q' res] by simp
next
  case (Refused k e)
  then have "ledger_inv k" "handles k = handles l" "owned k = owned l"
    using inv acquire_inv [OF inv(1,2)] acquire_owned(2) [of l sid] acquire_handles [of l sid]
    by metis+
  then show ?thesis
    using Refused(1) inv own discard_inv [of k "cb_reservation c"]
    by (simp add: holds_queue_def drop_chunk_def)
next
  case (Grown k r)
  let ?q = "q\<lparr>cq_metadata := Some r, cq_max_chunks := cq_max_chunks q * 2\<rparr>"
  have k: "ledger_inv k" "owned k = add_mset r (owned l)" "handles k = handles l"
    using acquire_inv [OF inv(1,2) Grown(2)] acquire_owned(1) [OF Grown(2)] acquire_handles [OF Grown(2)]
    by auto
  have d: "ledger_inv (drop_option k (cq_metadata q))" "handles (drop_option k (cq_metadata q)) = handles l"
    "owned (drop_option k (cq_metadata q)) = add_mset (cb_reservation c) (M + queue_reservations ?q)"
    using k own by (auto simp: drop_option_def queue_reservations_def intro: discard_inv split: option.splits)
  have "queue_wf ?q" using inv(3) by (auto simp: queue_wf_def)
  then show ?thesis using push_back_holds [OF d(1) _ _ d(3)] d(2) inv(2) Grown(1) by metis
qed

lemma offer_holds:
  assumes h: "holds_queue M sid l q" and cp: "copy_from_opaque l sid (cq_role q) bs = (k, Inr c)"
  shows "ledger_inv k" "sid \<in> handles k" "queue_wf q"
    "owned k = add_mset (cb_reservation c) (M + queue_reservations q)"
  using h copy_made(2,3) [OF cp] copy_inv [OF _ _ cp] by (auto simp: holds_queue_def)

lemma offer_refused:
  assumes h: "holds_queue M sid l q" and cp: "copy_from_opaque l sid (cq_role q) bs = (k, Inl e)"
  shows "holds_queue M sid k q"
  using h copy_refused [OF cp] copy_inv [OF _ _ cp] by (auto simp: holds_queue_def)

lemma queue_op_holds:
  assumes h: "holds_queue M sid l q" and op: "queue_op_step size_of sid x (l, q) = (l', q')"
  shows "holds_queue M sid l' q'"
proof (cases x)
  case (Offer bs)
  obtain k res where cp: "copy_from_opaque l sid (cq_role q) bs = (k, res)" by (cases "copy_from_opaque l sid (cq_role q) bs")
  show ?thesis
  proof (cases res)
    case (Inl e)
    then show ?thesis using offer_refused [OF h, of bs k e] op Offer cp by simp
  next
    case (Inr c)
    obtain l2 q2 r2 where "push_back k q c = (l2, q2, r2)" by (cases "push_back k q c") auto
    then show ?thesis using push_back_holds [OF offer_holds [OF h cp [unfolded Inr]]] op Offer cp Inr by simp
  qed
next
  case (OfferGrowing bs)
  obtain k res where cp: "copy_from_opaque l sid (cq_role q) bs = (k, res)" by (cases "copy_from_opaque l sid (cq_role q) bs")
  show ?thesis
  proof (cases res)
    case (Inl e)
    then show ?thesis using offer_refused [OF h, of bs k e] op OfferGrowing cp by simp
  next
    case (Inr c)
    obtain l2 q2 r2 where "push_back_growing size_of k sid q c = (l2, q2, r2)"
      by (cases "push_back_growing size_of k sid q c") auto
    then show ?thesis
      using push_back_growing_holds [OF offer_holds [OF h cp [unfolded Inr]]] op OfferGrowing cp Inr by simp
  qed
next
  case Take
  show ?thesis
  proof (cases "pop_front q")
    case None
    then show ?thesis using h op Take by simp
  next
    case (Some p)
    then obtain c where c: "pop_front q = Some (c, q')" "l' = drop_chunk l c"
      using op Take by (cases p) auto
    have wf: "queue_wf q" using h by (simp add: holds_queue_def)
    have "queue_reservations q = add_mset (cb_reservation c) (queue_reservations q')"
      using pop_front_wf [OF wf c(1)] by (simp add: queue_reservations_def)
    then show ?thesis
      using h pop_front_wf(1) [OF wf c(1)] discard_inv [of l "cb_reservation c"]
      unfolding c(2) holds_queue_def drop_chunk_def by simp
  qed
qed

lemma queue_ops_hold:
  "holds_queue M sid l q \<Longrightarrow> fold (queue_op_step size_of sid) ops (l, q) = (l', q') \<Longrightarrow> holds_queue M sid l' q'"
proof (induction ops arbitrary: l q)
  case (Cons x ops)
  obtain k p where kp: "queue_op_step size_of sid x (l, q) = (k, p)" by (cases "queue_op_step size_of sid x (l, q)")
  show ?case using Cons.IH [OF queue_op_holds [OF Cons.prems(1) kp]] Cons.prems(2) kp by simp
qed simp

text \<open>The limits of a queue are those of its creation: no operation changes them.\<close>

definition queue_limits :: "charged_queue \<Rightarrow> memory_role \<times> usize \<times> usize" where
  "queue_limits q = (cq_role q, cq_max_chunk_bytes q, cq_max_visible_bytes q)"

lemma queue_new_limits:
  "queue_new size_of l sid role p hard n = (l', Inr q) \<Longrightarrow>
     queue_limits q = (role, min (max_chunk_bytes p) hard,
       min (case max_retained_bytes p of None \<Rightarrow> hard | Some m \<Rightarrow> m) hard)"
  by (auto simp: queue_new_def queue_limits_def split: sum.splits if_splits option.splits prod.splits)

lemma push_back_limits: "push_back l q c = (l', q', res) \<Longrightarrow> queue_limits q' = queue_limits q"
  by (auto simp: push_back_def queue_limits_def store_chunk_def split: sum.splits dest!: try_store_ok(1))

lemma push_back_growing_limits:
  "push_back_growing size_of l sid q c = (l', q', res) \<Longrightarrow> queue_limits q' = queue_limits q"
  by (auto simp: push_back_growing_def queue_limits_def split: if_splits option.splits sum.splits prod.splits
      dest!: push_back_limits)

lemma queue_op_limits: "queue_op_step size_of sid x (l, q) = (l', q') \<Longrightarrow> queue_limits q' = queue_limits q"
  by (cases x)
    (auto simp: pop_front_def queue_limits_def split: sum.splits option.splits list.splits prod.splits
      dest!: push_back_limits push_back_growing_limits)

lemma queue_ops_limits:
  "fold (queue_op_step size_of sid) ops (l, q) = (l', q') \<Longrightarrow> queue_limits q' = queue_limits q"
proof (induction ops arbitrary: l q)
  case (Cons x ops)
  obtain k p where "queue_op_step size_of sid x (l, q) = (k, p)" by (cases "queue_op_step size_of sid x (l, q)")
  then show ?case using Cons.IH [of k p] Cons.prems queue_op_limits by simp
qed simp

lemma drop_chunks:
  assumes "ledger_inv l" "owned l = M + mset (map cb_reservation cs)"
  shows "ledger_inv (fold (\<lambda>c l. drop_chunk l c) cs l) \<and> owned (fold (\<lambda>c l. drop_chunk l c) cs l) = M
    \<and> handles (fold (\<lambda>c l. drop_chunk l c) cs l) = handles l"
  using assms
proof (induction cs arbitrary: l)
  case (Cons c cs)
  have "ledger_inv (drop_chunk l c)" "owned (drop_chunk l c) = M + mset (map cb_reservation cs)"
    using Cons.prems discard_inv [of l "cb_reservation c"] by (auto simp: drop_chunk_def)
  then show ?case using Cons.IH [of "drop_chunk l c"] by (simp add: drop_chunk_def)
qed simp

lemma clear_and_release_owned:
  assumes h: "holds_queue M sid l q" and op: "clear_and_release l q = (l', q')"
  shows "ledger_inv l' \<and> owned l' = M \<and> queue_reservations q' = {#} \<and> cq_chunks q' = []"
proof -
  let ?meta = "case cq_metadata q of None \<Rightarrow> {#} | Some r \<Rightarrow> {#r#}"
  have "owned l = (M + ?meta) + mset (map cb_reservation (cq_chunks q))"
    using h by (simp add: holds_queue_def queue_reservations_def)
  then have d: "ledger_inv (fold (\<lambda>c l. drop_chunk l c) (cq_chunks q) l)"
    "owned (fold (\<lambda>c l. drop_chunk l c) (cq_chunks q) l) = M + ?meta"
    using drop_chunks [of l "M + ?meta"] h by (auto simp: holds_queue_def)
  show ?thesis
    using d op discard_inv [OF d(1)]
    by (auto simp: clear_and_release_def drop_option_def queue_reservations_def split: option.splits)
qed

section \<open>Properties\<close>

lemma run_ops_made:
  assumes "ledger_run pl wl l" "pl \<le> usize_max" "sid \<in> handles l"
    and new: "queue_new size_of l sid role p hard n = (l1, Inr q1)"
  shows "holds_queue (owned l) sid l1 q1"
proof -
  obtain r where r: "cq_metadata q1 = Some r" "acquire l sid role (n * size_of) = (l1, Inr r)"
    using queue_new_made(6) [OF new] by blast
  have inv: "ledger_inv l" using ledger_run_inv [OF assms(1,2)] by simp
  show ?thesis
    using acquire_inv [OF inv assms(3) r(2)] acquire_handles [OF r(2)] acquire_owned(1) [OF r(2)] assms(3)
      queue_new_made(1,2) [OF new] r(1)
    by (simp add: holds_queue_def queue_reservations_def)
qed

text \<open>
  C20. The charged queue leaks nothing and is bounded: after it is created on a stream of a
  reachable budget and any sequence of (growing) pushes of copied chunks, refused ones included,
  and pops, its visible byte count is the size of the chunks it holds, within the hard limit it was
  created with and within what its plan may retain, and every chunk is within both chunk limits and
  has the queue's memory role; the budget has exactly the queue's reservations on top of what was owned
  before, and \<open>clear_and_release\<close> gives every gauge of the process and of the worker back.
\<close>

theorem charged_queue_balanced:
  assumes "ledger_run pl wl l" and "pl \<le> usize_max" and "sid \<in> handles l"
    and "queue_new size_of l sid role p hard n = (l1, Inr q1)"
    and "fold (queue_op_step size_of sid) ops (l1, q1) = (l2, q2)"
    and "clear_and_release l2 q2 = (l3, q3)"
  shows "cq_visible_bytes q2 = (\<Sum>c\<leftarrow>cq_chunks q2. length (cb_bytes c))
    \<and> cq_visible_bytes q2 \<le> cq_max_visible_bytes q2 \<and> cq_visible_bytes q2 \<le> hard
    \<and> (\<forall>m. max_retained_bytes p = Some m \<longrightarrow> cq_visible_bytes q2 \<le> m)
    \<and> (\<forall>c\<in>set (cq_chunks q2). cb_role c = role \<and> length (cb_bytes c) \<le> min (max_chunk_bytes p) hard)
    \<and> length (cq_chunks q2) \<le> cq_max_chunks q2
    \<and> process_live (tree l2) = process_live (tree l) + (\<Sum>r\<in>#queue_reservations q2. r_bytes r)
    \<and> owned l3 = owned l \<and> process_live (tree l3) = process_live (tree l)
    \<and> worker_live (tree l3) = worker_live (tree l)
    \<and> process_role_live (tree l3) = process_role_live (tree l)
    \<and> worker_role_live (tree l3) = worker_role_live (tree l)"
proof -
  have h: "holds_queue (owned l) sid l2 q2"
    using queue_ops_hold [OF run_ops_made [OF assms(1-4)] assms(5)] .
  have inv: "ledger_inv l" using ledger_run_inv [OF assms(1,2)] by simp
  have inv2: "ledger_inv l2" and wf: "queue_wf q2" using h by (auto simp: holds_queue_def)
  have inv3: "ledger_inv l3" and own: "owned l3 = owned l"
    using clear_and_release_owned [OF h assms(6)] by auto
  have "process_live (tree l3) = process_live (tree l)" "worker_live (tree l3) = worker_live (tree l)"
    "process_role_live (tree l3) = process_role_live (tree l)" "worker_role_live (tree l3) = worker_role_live (tree l)"
    using inv inv3 own by (auto simp: ledger_inv_defs)
  moreover have "cq_visible_bytes q2 \<le> cq_max_visible_bytes q2"
    "\<forall>c\<in>set (cq_chunks q2). cb_role c = cq_role q2 \<and> length (cb_bytes c) \<le> cq_max_chunk_bytes q2"
    using wf by (auto simp: queue_wf_def)
  moreover have "cq_role q2 = role" "cq_max_chunk_bytes q2 = min (max_chunk_bytes p) hard"
    "cq_max_visible_bytes q2 = min (case max_retained_bytes p of None \<Rightarrow> hard | Some m \<Rightarrow> m) hard"
    using queue_ops_limits [OF assms(5)] queue_new_limits [OF assms(4)] by (simp_all add: queue_limits_def)
  moreover have "process_live (tree l2) = process_live (tree l) + (\<Sum>r\<in>#queue_reservations q2. r_bytes r)"
    using inv inv2 h by (simp add: ledger_inv_defs holds_queue_def charge_def)
  ultimately show ?thesis using own wf by (auto simp: queue_wf_def chunk_bytes_def)
qed

definition sample_ledger :: ledger where
  "sample_ledger = \<lparr>tree = sample_tree, owned = {#}, handles = {1}\<rparr>"

theorem charged_queue_balanced_witness:
  "\<exists>l1 q1 l2 q2 l3 q3. queue_new 1 sample_ledger 1 SseFrame (PassThrough 2) 4 1 = (l1, Inr q1)
    \<and> fold (queue_op_step 1 1) [Offer ''ab'', OfferGrowing ''c'', Offer ''abc'', Take] (l1, q1) = (l2, q2)
    \<and> clear_and_release l2 q2 = (l3, q3) \<and> process_live (tree l3) = 0"
proof -
  obtain l1 q1 where new: "queue_new 1 sample_ledger 1 SseFrame (PassThrough 2) 4 1 = (l1, Inr q1)"
    by (simp add: queue_new_def plan_validate_def ensure_def checked_mul_def usize_max_def acquire_def
        sample_ledger_def sample_tree_defs fresh_stream_def reserve_def commit_reserve_def
        commit_totals_def raise_role_peaks_def checked_add_def)
  obtain l2 q2 where ops: "fold (queue_op_step 1 1) [Offer ''ab'', OfferGrowing ''c'', Offer ''abc'', Take] (l1, q1) = (l2, q2)"
    by (cases "fold (queue_op_step 1 1) [Offer ''ab'', OfferGrowing ''c'', Offer ''abc'', Take] (l1, q1)")
  obtain l3 q3 where clr: "clear_and_release l2 q2 = (l3, q3)" by (cases "clear_and_release l2 q2")
  have run: "ledger_run 10 5 sample_ledger" using sample_open by (simp add: sample_ledger_def)
  have lim: "10 \<le> usize_max" by (simp add: usize_max_def)
  have h: "1 \<in> handles sample_ledger" by (simp add: sample_ledger_def)
  have "process_live (tree sample_ledger) = 0" by (simp add: sample_ledger_def sample_tree_defs)
  then show ?thesis using charged_queue_balanced [OF run lim h new ops clr] new ops clr by auto
qed

text \<open>
  The charged queue is a FIFO: whatever chunks it accepted come out in the order they were
  pushed, each unchanged.
\<close>

theorem charged_queue_fifo:
  assumes "queue_new size_of l sid role p hard n = (l', Inr q)"
    and "enqueue_all store_option cs q = Some q'"
  shows "drain pop_front (length cs) q' = cs"
  using charged_fifo.fifo_order [OF queue_new_made(1) [OF assms(1)] assms(2), of "length cs"]
    queue_new_made(2) [OF assms(1)] by simp

theorem charged_queue_fifo_witness:
  "\<exists>l' q q'. queue_new 1 sample_ledger 1 SseFrame (PassThrough 2) 4 2 = (l', Inr q)
    \<and> (let cs = [\<lparr>cb_bytes = ''ab'', cb_reservation = sample_reservation\<rparr>,
                 \<lparr>cb_bytes = ''c'', cb_reservation = sample_reservation\<rparr>]
       in enqueue_all store_option cs q = Some q' \<and> drain pop_front (length cs) q' = cs)"
proof -
  let ?cs = "[\<lparr>cb_bytes = ''ab'', cb_reservation = sample_reservation\<rparr>,
    \<lparr>cb_bytes = ''c'', cb_reservation = sample_reservation\<rparr>]"
  have "\<exists>l' q q'. queue_new 1 sample_ledger 1 SseFrame (PassThrough 2) 4 2 = (l', Inr q)
    \<and> enqueue_all store_option ?cs q = Some q'"
    by (simp add: queue_new_def plan_validate_def ensure_def checked_mul_def usize_max_def acquire_def
        sample_ledger_def sample_tree_defs fresh_stream_def reserve_def commit_reserve_def
        commit_totals_def raise_role_peaks_def checked_add_def store_option_def try_store_def
        store_chunk_def cb_role_def sample_reservation_def)
  then show ?thesis using charged_queue_fifo by (metis (no_types, lifting))
qed

end
