(* ===== verification/Body_Framing.thy ===== *)
theory Body_Framing
  imports Charged_Body
begin

text \<open>
  Message framing of a proxied body (\<^verbatim>\<open>gateway-core/src/runtime/body/framing.rs\<close> and
  \<^verbatim>\<open>emission.rs\<close>): what is known of the body length, and how \<open>finalize\<close> rebuilds
  Content-Length and Transfer-Encoding from it exactly once. The \<open>http\<close> crate's header map is
  a parameter: a record of the operations the code calls, with their documented behaviour as
  \<open>header_laws\<close>.
\<close>

section \<open>Header maps\<close>

type_synonym header_name = string
type_synonym header_value = bytes

record 'h header_ops =
  h_get_all :: "header_name \<Rightarrow> 'h \<Rightarrow> header_value list"
  h_remove :: "header_name \<Rightarrow> 'h \<Rightarrow> 'h"
  h_insert :: "header_name \<Rightarrow> header_value \<Rightarrow> 'h \<Rightarrow> 'h"
  h_value :: "string \<Rightarrow> header_value option"

definition contains_key :: "('h, 'z) header_ops_scheme \<Rightarrow> header_name \<Rightarrow> 'h \<Rightarrow> bool" where
  "contains_key H n h \<longleftrightarrow> h_get_all H n h \<noteq> []"

definition visible_ascii :: "char \<Rightarrow> bool" where
  "visible_ascii c \<longleftrightarrow> 32 \<le> (of_char c :: nat) \<and> (of_char c :: nat) < 127"

definition header_laws :: "('h, 'z) header_ops_scheme \<Rightarrow> bool" where
  "header_laws H \<longleftrightarrow>
     (\<forall>n m h. h_get_all H m (h_remove H n h) = (if m = n then [] else h_get_all H m h))
   \<and> (\<forall>n v m h. h_get_all H m (h_insert H n v h) = (if m = n then [v] else h_get_all H m h))
   \<and> (\<forall>s. list_all visible_ascii s \<longrightarrow> h_value H s = Some s)"

definition CONTENT_LENGTH :: header_name where "CONTENT_LENGTH = ''content-length''"
definition TRANSFER_ENCODING :: header_name where "TRANSFER_ENCODING = ''transfer-encoding''"

lemma framing_headers_differ [simp]:
  "CONTENT_LENGTH \<noteq> TRANSFER_ENCODING" "TRANSFER_ENCODING \<noteq> CONTENT_LENGTH"
  by (simp_all add: CONTENT_LENGTH_def TRANSFER_ENCODING_def)

text \<open>\<open>usize::to_string\<close>.\<close>

fun decimal :: "nat \<Rightarrow> string" where
  "decimal n = (if n < 10 then [char_of (48 + n)] else decimal (n div 10) @ [char_of (48 + n mod 10)])"

declare decimal.simps [simp del]

lemma decimal_visible: "list_all visible_ascii (decimal n)"
proof (induction n rule: decimal.induct)
  case (1 n)
  have digit: "visible_ascii (char_of (48 + d))" if "d < 10" for d :: nat
    using that by (simp add: visible_ascii_def of_char_of take_bit_nat_def)
  show ?case
  proof (cases "n < 10")
    case True
    then show ?thesis using digit [of n] by (subst decimal.simps) simp
  next
    case False
    have "visible_ascii (char_of (48 + n mod 10))" by (rule digit) simp
    then show ?thesis using False 1 by (subst decimal.simps) simp
  qed
qed

section \<open>The framing ledger\<close>

datatype body_length_knowledge = Unchanged | Exact usize | Unknown
datatype http_framing = Http1 | Http2

record framing_ledger =
  fl_knowledge :: body_length_knowledge
  framing_headers_mutated :: bool
  fl_committed :: bool

definition framing_default :: framing_ledger where
  "framing_default = \<lparr>fl_knowledge = Unchanged, framing_headers_mutated = False, fl_committed = False\<rparr>"

definition ensure_held :: "framing_ledger \<Rightarrow> body_error + unit" where
  "ensure_held f = ensure (\<not> fl_committed f) FramingAlreadyCommitted"

definition record_header_mutation :: "header_name \<Rightarrow> framing_ledger \<Rightarrow> framing_ledger" where
  "record_header_mutation n f =
    (if fl_committed f then f
     else if n = CONTENT_LENGTH \<or> n = TRANSFER_ENCODING
     then f\<lparr>framing_headers_mutated := True, fl_knowledge := Unknown\<rparr> else f)"

definition pass_through :: "framing_ledger \<Rightarrow> framing_ledger \<times> (body_error + unit)" where
  "pass_through f = (f, ensure_held f)"

definition streaming_transform :: "framing_ledger \<Rightarrow> framing_ledger \<times> (body_error + unit)" where
  "streaming_transform f =
    (case ensure_held f of Inl e \<Rightarrow> (f, Inl e) | Inr _ \<Rightarrow> (f\<lparr>fl_knowledge := Unknown\<rparr>, Inr ()))"

definition buffered_eos :: "usize \<Rightarrow> framing_ledger \<Rightarrow> framing_ledger \<times> (body_error + unit)" where
  "buffered_eos n f =
    (case ensure_held f of Inl e \<Rightarrow> (f, Inl e) | Inr _ \<Rightarrow> (f\<lparr>fl_knowledge := Exact n\<rparr>, Inr ()))"

definition body_transformed :: "framing_ledger \<Rightarrow> framing_ledger" where
  "body_transformed f = (if \<not> fl_committed f then f\<lparr>fl_knowledge := Unknown\<rparr> else f)"

text \<open>A status is its code; informational is 1xx.\<close>

definition body_forbidden :: "bool \<Rightarrow> nat option \<Rightarrow> bool" where
  "body_forbidden is_head status \<longleftrightarrow> is_head \<or>
    (case status of None \<Rightarrow> False | Some c \<Rightarrow> 100 \<le> c \<and> c < 200 \<or> c = 204 \<or> c = 304)"

definition strip_framing :: "('h, 'z) header_ops_scheme \<Rightarrow> framing_ledger \<Rightarrow> 'h \<Rightarrow> body_error + 'h" where
  "strip_framing H f h =
    (if framing_headers_mutated f
     then Inr (h_remove H TRANSFER_ENCODING (h_remove H CONTENT_LENGTH h))
     else if contains_key H CONTENT_LENGTH h \<and> contains_key H TRANSFER_ENCODING h
     then Inl ContentLengthTransferEncodingConflict else Inr h)"

text \<open>The framing headers of a message that may carry a body; they are written in place.\<close>

definition length_headers ::
  "('h, 'z) header_ops_scheme \<Rightarrow> body_length_knowledge \<Rightarrow> http_framing \<Rightarrow> 'h \<Rightarrow> 'h \<times> (body_error + unit)" where
  "length_headers H k p h =
    (case k of
       Unchanged \<Rightarrow> (if p = Http2 then h_remove H TRANSFER_ENCODING h else h, Inr ())
     | Exact n \<Rightarrow>
        let h' = h_remove H TRANSFER_ENCODING h in
        (case h_value H (decimal n) of
           None \<Rightarrow> (h', Inl InvalidContentLength)
         | Some v \<Rightarrow> (h_insert H CONTENT_LENGTH v h', Inr ()))
     | Unknown \<Rightarrow>
        let h' = h_remove H CONTENT_LENGTH h in
        (case p of
           Http1 \<Rightarrow> h_insert H TRANSFER_ENCODING ''chunked'' h'
         | Http2 \<Rightarrow> h_remove H TRANSFER_ENCODING h', Inr ()))"

definition finalize ::
  "('h, 'z) header_ops_scheme \<Rightarrow> framing_ledger \<Rightarrow> 'h \<Rightarrow> http_framing \<Rightarrow> bool \<Rightarrow> nat option
   \<Rightarrow> framing_ledger \<times> 'h \<times> (body_error + unit)" where
  "finalize H f h p is_head status =
    (case ensure_held f of Inl e \<Rightarrow> (f, h, Inl e) | Inr _ \<Rightarrow>
     (case strip_framing H f h of Inl e \<Rightarrow> (f, h, Inl e) | Inr h1 \<Rightarrow>
      if body_forbidden is_head status
      then (f\<lparr>fl_committed := True\<rparr>, h_remove H CONTENT_LENGTH (h_remove H TRANSFER_ENCODING h1), Inr ())
      else (case length_headers H (fl_knowledge f) p h1 of
         (h2, Inl e) \<Rightarrow> (f, h2, Inl e)
       | (h2, Inr _) \<Rightarrow> (f\<lparr>fl_committed := True\<rparr>, h2, Inr ()))))"

section \<open>The body emitter\<close>

record body_emitter =
  be_ledger :: framing_ledger
  be_output :: "charged_bytes list"

definition emitter_new :: body_emitter where
  "emitter_new = \<lparr>be_ledger = framing_default, be_output = []\<rparr>"

definition emitter_pass ::
  "ledger \<Rightarrow> body_emitter \<Rightarrow> charged_bytes \<Rightarrow> ledger \<times> body_emitter \<times> (body_error + unit)" where
  "emitter_pass l b c =
    (case pass_through (be_ledger b) of
       (f, Inl e) \<Rightarrow> (drop_chunk l c, b\<lparr>be_ledger := f\<rparr>, Inl e)
     | (f, Inr _) \<Rightarrow> (l, b\<lparr>be_ledger := f, be_output := be_output b @ [c]\<rparr>, Inr ()))"

definition emitter_drop_unit ::
  "ledger \<Rightarrow> body_emitter \<Rightarrow> charged_bytes \<Rightarrow> ledger \<times> body_emitter \<times> (body_error + unit)" where
  "emitter_drop_unit l b c =
    (let (f, r) = streaming_transform (be_ledger b) in (drop_chunk l c, b\<lparr>be_ledger := f\<rparr>, r))"

definition emit_transformed ::
  "ledger \<Rightarrow> body_emitter \<Rightarrow> charged_bytes \<Rightarrow> ledger \<times> body_emitter \<times> (body_error + unit)" where
  "emit_transformed l b c =
    (case streaming_transform (be_ledger b) of
       (f, Inl e) \<Rightarrow> (drop_chunk l c, b\<lparr>be_ledger := f\<rparr>, Inl e)
     | (f, Inr _) \<Rightarrow> (l, b\<lparr>be_ledger := f, be_output := be_output b @ [c]\<rparr>, Inr ()))"

definition complete_buffered :: "body_emitter \<Rightarrow> body_emitter \<times> (body_error + unit)" where
  "complete_buffered b =
    (let exact = fold (\<lambda>c n. wrapping_add n (length (cb_bytes c))) (be_output b) 0;
         (f, r) = buffered_eos exact (be_ledger b)
     in (b\<lparr>be_ledger := f\<rparr>, r))"

section \<open>What finalize leaves in the headers\<close>

lemma header_law_simps:
  assumes "header_laws H"
  shows "h_get_all H m (h_remove H n h) = (if m = n then [] else h_get_all H m h)"
    and "h_get_all H m (h_insert H n v h) = (if m = n then [v] else h_get_all H m h)"
    and "h_value H (decimal k) = Some (decimal k)"
  using assms decimal_visible by (auto simp: header_laws_def)

lemma finalize_ok_cases:
  assumes "finalize H f h p is_head status = (f', h', Inr u)"
  obtains h1 where "\<not> fl_committed f" "f' = f\<lparr>fl_committed := True\<rparr>" "strip_framing H f h = Inr h1"
    "if body_forbidden is_head status
     then h' = h_remove H CONTENT_LENGTH (h_remove H TRANSFER_ENCODING h1)
     else length_headers H (fl_knowledge f) p h1 = (h', Inr ())"
  using assms unfolding finalize_def ensure_held_def ensure_def
  by (auto split: if_splits sum.splits prod.splits)

lemma strip_framing_exclusive:
  assumes "header_laws H" "strip_framing H f h = Inr h1"
  shows "\<not> (contains_key H CONTENT_LENGTH h1 \<and> contains_key H TRANSFER_ENCODING h1)"
    and "n \<notin> {CONTENT_LENGTH, TRANSFER_ENCODING} \<Longrightarrow> h_get_all H n h1 = h_get_all H n h"
  using assms(2) header_law_simps [OF assms(1)]
  by (auto simp: strip_framing_def contains_key_def split: if_splits)

lemma length_headers_exclusive:
  assumes "header_laws H" "length_headers H k p h1 = (h2, Inr ())"
    and "\<not> (contains_key H CONTENT_LENGTH h1 \<and> contains_key H TRANSFER_ENCODING h1)"
  shows "\<not> (contains_key H CONTENT_LENGTH h2 \<and> contains_key H TRANSFER_ENCODING h2)"
    and "p = Http2 \<Longrightarrow> \<not> contains_key H TRANSFER_ENCODING h2"
    and "k = Exact n \<Longrightarrow> h_get_all H CONTENT_LENGTH h2 = [decimal n] \<and> \<not> contains_key H TRANSFER_ENCODING h2"
    and "k = Unknown \<Longrightarrow> \<not> contains_key H CONTENT_LENGTH h2
           \<and> (p = Http1 \<longrightarrow> h_get_all H TRANSFER_ENCODING h2 = [''chunked''])"
    and "m \<notin> {CONTENT_LENGTH, TRANSFER_ENCODING} \<Longrightarrow> h_get_all H m h2 = h_get_all H m h1"
  using assms(2,3) header_law_simps [OF assms(1)]
  by (auto simp: length_headers_def contains_key_def Let_def
      split: body_length_knowledge.splits http_framing.splits option.splits if_splits)

lemma sum_chunks_wrapping:
  "n + chunk_bytes cs \<le> usize_max \<Longrightarrow>
    fold (\<lambda>c n. wrapping_add n (length (cb_bytes c))) cs n = n + chunk_bytes cs"
  by (induction cs arbitrary: n) (auto simp: wrapping_add_within)

section \<open>Properties\<close>

definition alist_headers :: "(header_name \<times> header_value) list header_ops" where
  "alist_headers = \<lparr>h_get_all = (\<lambda>n h. map snd (filter (\<lambda>e. fst e = n) h)),
     h_remove = (\<lambda>n h. filter (\<lambda>e. fst e \<noteq> n) h),
     h_insert = (\<lambda>n v h. filter (\<lambda>e. fst e \<noteq> n) h @ [(n, v)]),
     h_value = (\<lambda>s. if list_all visible_ascii s then Some s else None)\<rparr>"

lemma alist_header_laws: "header_laws alist_headers"
proof -
  have "filter (\<lambda>e. fst e = m) (filter (\<lambda>e. fst e \<noteq> n) h) = (if m = n then [] else filter (\<lambda>e. fst e = m) h)"
    for m n :: header_name and h :: "(header_name \<times> header_value) list"
    by (induction h) auto
  then show ?thesis by (simp add: header_laws_def alist_headers_def)
qed

text \<open>
  C21. A finalised message is never ambiguous about its length: it does not carry Content-Length
  and Transfer-Encoding together, HTTP/2 and bodiless messages carry no Transfer-Encoding, the
  latter no Content-Length either, an exact length is announced as such, an unknown one is
  chunked under HTTP/1, and no other header is touched.
\<close>

theorem finalize_unambiguous:
  assumes "header_laws H" and "finalize H f h p is_head status = (f', h', Inr u)"
  shows "\<not> (contains_key H CONTENT_LENGTH h' \<and> contains_key H TRANSFER_ENCODING h')
    \<and> (p = Http2 \<or> body_forbidden is_head status \<longrightarrow> \<not> contains_key H TRANSFER_ENCODING h')
    \<and> (body_forbidden is_head status \<longrightarrow> \<not> contains_key H CONTENT_LENGTH h')
    \<and> (\<forall>n. fl_knowledge f = Exact n \<and> \<not> body_forbidden is_head status \<longrightarrow>
          h_get_all H CONTENT_LENGTH h' = [decimal n])
    \<and> (fl_knowledge f = Unknown \<and> p = Http1 \<and> \<not> body_forbidden is_head status \<longrightarrow>
          h_get_all H TRANSFER_ENCODING h' = [''chunked''])
    \<and> (\<forall>n. n \<noteq> CONTENT_LENGTH \<and> n \<noteq> TRANSFER_ENCODING \<longrightarrow> h_get_all H n h' = h_get_all H n h)"
  using assms(2)
proof (cases rule: finalize_ok_cases)
  case (1 h1)
  note strip = strip_framing_exclusive [OF assms(1) 1(3)]
  show ?thesis
  proof (cases "body_forbidden is_head status")
    case True
    then show ?thesis using 1(4) strip header_law_simps [OF assms(1)] by (simp add: contains_key_def)
  next
    case False
    then have "length_headers H (fl_knowledge f) p h1 = (h', Inr ())" using 1(4) by simp
    note len = length_headers_exclusive [OF assms(1) this strip(1)]
    show ?thesis using len strip(2) False by auto
  qed
qed

theorem finalize_unambiguous_witness:
  "\<exists>f' h'. finalize alist_headers (fst (buffered_eos 12 framing_default))
      [(TRANSFER_ENCODING, ''chunked'')] Http1 False (Some 200) = (f', h', Inr ())
    \<and> h_get_all alist_headers CONTENT_LENGTH h' = [decimal 12]
    \<and> h_get_all alist_headers TRANSFER_ENCODING h' = []"
proof -
  let ?f = "fst (buffered_eos 12 framing_default)"
  let ?h = "[(TRANSFER_ENCODING, ''chunked'')]"
  have f: "?f = \<lparr>fl_knowledge = Exact 12, framing_headers_mutated = False, fl_committed = False\<rparr>"
    by (simp add: buffered_eos_def ensure_held_def ensure_def framing_default_def)
  have nf: "\<not> body_forbidden False (Some 200)" by (simp add: body_forbidden_def)
  obtain f' h' where fin: "finalize alist_headers ?f ?h Http1 False (Some 200) = (f', h', Inr ())"
    using decimal_visible [of 12] nf
    by (simp add: f finalize_def ensure_held_def ensure_def strip_framing_def
        length_headers_def contains_key_def alist_headers_def)
  note fz = finalize_unambiguous [OF alist_header_laws fin]
  have cl: "h_get_all alist_headers CONTENT_LENGTH h' = [decimal 12]" using fz nf by (simp add: f)
  then have "h_get_all alist_headers TRANSFER_ENCODING h' = []" using fz by (simp add: contains_key_def)
  then show ?thesis using fin cl by blast
qed

datatype emit_op = Pass charged_bytes | Drop_unit charged_bytes | Transformed charged_bytes

fun emit_step :: "emit_op \<Rightarrow> ledger \<times> body_emitter \<Rightarrow> ledger \<times> body_emitter" where
  "emit_step (Pass c) (l, b) = (let (l', b', _) = emitter_pass l b c in (l', b'))"
| "emit_step (Drop_unit c) (l, b) = (let (l', b', _) = emitter_drop_unit l b c in (l', b'))"
| "emit_step (Transformed c) (l, b) = (let (l', b', _) = emit_transformed l b c in (l', b'))"

fun emitted_by :: "emit_op \<Rightarrow> charged_bytes list" where
  "emitted_by (Pass c) = [c]"
| "emitted_by (Drop_unit c) = []"
| "emitted_by (Transformed c) = [c]"

lemma emit_step_held:
  assumes "\<not> fl_committed (be_ledger b)" "emit_step x (l, b) = (l', b')"
  shows "\<not> fl_committed (be_ledger b') \<and> be_output b' = be_output b @ emitted_by x
    \<and> framing_headers_mutated (be_ledger b') = framing_headers_mutated (be_ledger b)"
  using assms
  by (cases x) (auto simp: emitter_pass_def emitter_drop_unit_def emit_transformed_def pass_through_def
      streaming_transform_def ensure_held_def ensure_def)

lemma emit_steps_held:
  assumes "\<not> fl_committed (be_ledger b)" "fold emit_step xs (l, b) = (l', b')"
  shows "\<not> fl_committed (be_ledger b') \<and> be_output b' = be_output b @ concat (map emitted_by xs)
    \<and> framing_headers_mutated (be_ledger b') = framing_headers_mutated (be_ledger b)"
  using assms
proof (induction xs arbitrary: l b)
  case (Cons x xs)
  obtain k d where kd: "emit_step x (l, b) = (k, d)" by (cases "emit_step x (l, b)")
  have s: "\<not> fl_committed (be_ledger d)" "be_output d = be_output b @ emitted_by x"
    "framing_headers_mutated (be_ledger d) = framing_headers_mutated (be_ledger b)"
    using emit_step_held [OF Cons.prems(1) kd] by auto
  show ?case using Cons.IH [OF s(1), of k] Cons.prems(2) kd s(2,3) by simp
qed simp

text \<open>
  A buffered transform announces exactly what it emits: after any sequence of passed,
  dropped and transformed chunks, \<open>complete_buffered\<close> and \<open>finalize\<close> succeed and Content-Length is
  the decimal size of the output, while the filter-visible headers had at most one of the two
  framing headers; a second \<open>finalize\<close> is refused.
\<close>

theorem buffered_content_length:
  assumes "header_laws H" and "fold emit_step xs (l, emitter_new) = (l', b)"
    and "chunk_bytes (be_output b) \<le> usize_max"
    and "\<not> (contains_key H CONTENT_LENGTH h \<and> contains_key H TRANSFER_ENCODING h)"
    and "\<not> body_forbidden is_head status"
  shows "\<exists>f' h'. snd (complete_buffered b) = Inr ()
    \<and> finalize H (be_ledger (fst (complete_buffered b))) h p is_head status = (f', h', Inr ())
    \<and> h_get_all H CONTENT_LENGTH h' = [decimal (\<Sum>c\<leftarrow>concat (map emitted_by xs). length (cb_bytes c))]
    \<and> (\<forall>g q hd st. finalize H f' g q hd st = (f', g, Inl FramingAlreadyCommitted))"
proof -
  have b: "\<not> fl_committed (be_ledger b)" "be_output b = concat (map emitted_by xs)"
    "\<not> framing_headers_mutated (be_ledger b)"
    using emit_steps_held [OF _ assms(2)] by (auto simp: emitter_new_def framing_default_def)
  have out: "chunk_bytes (be_output b) = (\<Sum>c\<leftarrow>concat (map emitted_by xs). length (cb_bytes c))"
    by (simp add: b(2) chunk_bytes_def)
  have comp: "complete_buffered b =
      (b\<lparr>be_ledger := (be_ledger b)\<lparr>fl_knowledge := Exact (chunk_bytes (be_output b))\<rparr>\<rparr>, Inr ())"
    using b(1) sum_chunks_wrapping [of 0] assms(3)
    by (simp add: complete_buffered_def buffered_eos_def ensure_held_def ensure_def)
  show ?thesis
    using b assms(4,5) header_law_simps [OF assms(1)] unfolding comp out [symmetric]
    by (simp add: finalize_def ensure_held_def ensure_def strip_framing_def length_headers_def)
qed

theorem buffered_content_length_witness:
  "\<exists>f' h'. finalize alist_headers
      (be_ledger (fst (complete_buffered (snd (fold emit_step
        [Transformed \<lparr>cb_bytes = ''ab'', cb_reservation = sample_reservation\<rparr>,
         Drop_unit \<lparr>cb_bytes = ''xyz'', cb_reservation = sample_reservation\<rparr>]
        (sample_ledger, emitter_new)))))) [] Http1 False None = (f', h', Inr ())
    \<and> h_get_all alist_headers CONTENT_LENGTH h' = [decimal 2]"
proof -
  let ?xs = "[Transformed \<lparr>cb_bytes = ''ab'', cb_reservation = sample_reservation\<rparr>,
    Drop_unit \<lparr>cb_bytes = ''xyz'', cb_reservation = sample_reservation\<rparr>]"
  obtain l' b where run: "fold emit_step ?xs (sample_ledger, emitter_new) = (l', b)"
    by (cases "fold emit_step ?xs (sample_ledger, emitter_new)")
  have "be_output b = concat (map emitted_by ?xs)"
    using emit_steps_held [OF _ run] by (simp add: emitter_new_def framing_default_def)
  then have le: "chunk_bytes (be_output b) \<le> usize_max" by (simp add: usize_max_def)
  have free: "\<not> (contains_key alist_headers CONTENT_LENGTH [] \<and> contains_key alist_headers TRANSFER_ENCODING [])"
    by (simp add: contains_key_def alist_headers_def)
  have nf: "\<not> body_forbidden False None" by (simp add: body_forbidden_def)
  from buffered_content_length [OF alist_header_laws run le free nf, of Http1] show ?thesis
    unfolding run by (auto simp: numeral_2_eq_2)
qed

end
