(* ===== verification/Request_Body.thy ===== *)
theory Request_Body
  imports Charged_Body
begin

text \<open>
  Request body ownership (\<^verbatim>\<open>gateway-core/src/runtime/body/request.rs\<close>): the raw store that
  retains a request for replay, its transfer into model backing, and the lease book that lets the
  request's memory go only when no body lease is outstanding.
\<close>

section \<open>The raw body store\<close>

record raw_store =
  rs_plan :: body_plan
  rs_chunks :: "charged_bytes list"
  rs_visible_bytes :: usize

definition store_new :: "body_plan \<Rightarrow> body_error + raw_store" where
  "store_new p =
    and_then (plan_validate p) (\<lambda>_.
      case p of PassThrough c \<Rightarrow> Inl PassThroughCannotStore
      | _ \<Rightarrow> Inr \<lparr>rs_plan = p, rs_chunks = [], rs_visible_bytes = 0\<rparr>)"

fun store_limit :: "body_plan \<Rightarrow> body_error + usize" where
  "store_limit (StreamingReplay c r) = Inr r"
| "store_limit (BufferedTransform b) = Inr b"
| "store_limit (SseFramedStreaming p) = Inr (sp_max_pending_bytes p)"
| "store_limit (PassThrough c) = Inl PassThroughCannotStore"

definition try_retain :: "raw_store \<Rightarrow> charged_bytes \<Rightarrow> body_error + raw_store" where
  "try_retain s c =
    and_then (ensure (cb_role c = RawRequest) WrongMemoryRole) (\<lambda>_.
    and_then (ok_or BodyLimitExceeded (checked_add (rs_visible_bytes s) (length (cb_bytes c)))) (\<lambda>next.
    and_then (store_limit (rs_plan s)) (\<lambda>lim.
    and_then (ensure (\<not> next > lim) BodyLimitExceeded) (\<lambda>_.
      Inr (s\<lparr>rs_visible_bytes := next, rs_chunks := rs_chunks s @ [c]\<rparr>)))))"

definition store_push ::
  "ledger \<Rightarrow> raw_store \<Rightarrow> charged_bytes \<Rightarrow> ledger \<times> raw_store \<times> (body_error + unit)" where
  "store_push l s c =
    (case try_retain s c of
       Inl e \<Rightarrow> (drop_chunk l c, s, Inl e)
     | Inr s' \<Rightarrow> (l, s', Inr ()))"

text \<open>
  The collected transfer stops at the first failure; the chunks already transferred and those not
  yet reached are dropped.
\<close>

fun transfer_all ::
  "ledger \<Rightarrow> memory_role \<Rightarrow> charged_bytes list \<Rightarrow> charged_bytes list \<Rightarrow> ledger \<times> (body_error + charged_bytes list)" where
  "transfer_all l role acc [] = (l, Inr acc)"
| "transfer_all l role acc (c # cs) =
    (case cb_transfer_role l c role of
       (l', Inl e) \<Rightarrow> (fold (\<lambda>c l. drop_chunk l c) (acc @ cs) l', Inl e)
     | (l', Inr c') \<Rightarrow> transfer_all l' role (acc @ [c']) cs)"

record model_backing =
  mb_chunks :: "charged_bytes list"
  mb_visible_bytes :: usize

definition into_model_backing :: "ledger \<Rightarrow> raw_store \<Rightarrow> ledger \<times> (body_error + model_backing)" where
  "into_model_backing l s =
    (case transfer_all l ModelIrBacking [] (rs_chunks s) of
       (l', Inl e) \<Rightarrow> (l', Inl e)
     | (l', Inr cs) \<Rightarrow> (l', Inr \<lparr>mb_chunks = cs, mb_visible_bytes = rs_visible_bytes s\<rparr>))"

section \<open>The lease book\<close>

record lease_state =
  outstanding :: usize
  terminal :: bool
  proof_issued :: bool

definition lease_book_new :: lease_state where
  "lease_book_new = \<lparr>outstanding = 0, terminal = False, proof_issued = False\<rparr>"

definition lease_acquire :: "lease_state \<Rightarrow> lease_state \<times> (body_error + unit)" where
  "lease_acquire s =
    (if terminal s \<or> proof_issued s then (s, Inl LeaseAfterTerminal)
     else case checked_add (outstanding s) 1 of
       None \<Rightarrow> (s, Inl LeaseOverflow)
     | Some n \<Rightarrow> (s\<lparr>outstanding := n\<rparr>, Inr ()))"

definition lease_zero_for_continue :: "lease_state \<Rightarrow> body_error + unit" where
  "lease_zero_for_continue s =
    (if outstanding s \<noteq> 0 then Inl (OutstandingRequestLease (outstanding s))
     else if terminal s then Inl AlreadyTerminal else Inr ())"

definition mark_terminal_and_release_ready :: "lease_state \<Rightarrow> lease_state \<times> (body_error + unit)" where
  "mark_terminal_and_release_ready s =
    (if outstanding s \<noteq> 0 then (s, Inl (OutstandingRequestLease (outstanding s)))
     else if proof_issued s then (s, Inl ReleaseProofAlreadyIssued)
     else (s\<lparr>terminal := True, proof_issued := True\<rparr>, Inr ()))"

text \<open>\<open>RequestBodyLease::release_once\<close> on a lease with the given \<open>released\<close> flag.\<close>

definition release_once :: "lease_state \<Rightarrow> bool \<Rightarrow> lease_state \<times> bool" where
  "release_once s released =
    (if released then (s, True) else (s\<lparr>outstanding := wrapping_sub (outstanding s) 1\<rparr>, True))"

text \<open>
  Runs of the book: \<open>live\<close> counts the leases not yet released, \<open>ready\<close> the release proofs handed
  out. A lease is a linear value whose \<open>Drop\<close> releases it, so a release step takes a live one.
\<close>

record lease_world =
  book :: lease_state
  live_leases :: nat
  ready :: nat

inductive lease_step :: "lease_world \<Rightarrow> lease_world \<Rightarrow> bool" where
  Acquired: "lease_acquire (book w) = (b, Inr ()) \<Longrightarrow>
     lease_step w (w\<lparr>book := b, live_leases := live_leases w + 1\<rparr>)"
| Refused: "lease_acquire (book w) = (b, Inl e) \<Longrightarrow> lease_step w (w\<lparr>book := b\<rparr>)"
| Released: "live_leases w = Suc n \<Longrightarrow> release_once (book w) False = (b, True) \<Longrightarrow>
     lease_step w (w\<lparr>book := b, live_leases := n\<rparr>)"
| Ready: "mark_terminal_and_release_ready (book w) = (b, Inr ()) \<Longrightarrow>
     lease_step w (w\<lparr>book := b, ready := ready w + 1\<rparr>)"
| Not_ready: "mark_terminal_and_release_ready (book w) = (b, Inl e) \<Longrightarrow> lease_step w (w\<lparr>book := b\<rparr>)"

inductive lease_run :: "lease_world \<Rightarrow> bool" where
  Fresh: "lease_run \<lparr>book = lease_book_new, live_leases = 0, ready = 0\<rparr>"
| Then: "lease_run w \<Longrightarrow> lease_step w w' \<Longrightarrow> lease_run w'"

lemmas lease_defs = lease_acquire_def mark_terminal_and_release_ready_def release_once_def

definition lease_inv :: "lease_world \<Rightarrow> bool" where
  "lease_inv w \<longleftrightarrow> outstanding (book w) = live_leases w \<and> live_leases w \<le> usize_max
     \<and> ready w = (if proof_issued (book w) then 1 else 0)
     \<and> (terminal (book w) = proof_issued (book w))
     \<and> (proof_issued (book w) \<longrightarrow> live_leases w = 0)"

lemma lease_step_inv: "lease_step w w' \<Longrightarrow> lease_inv w \<Longrightarrow> lease_inv w'"
proof (induction rule: lease_step.induct)
  case (Released w n b)
  then show ?case by (auto simp: lease_defs lease_inv_def wrapping_sub_def)
qed (auto simp: lease_defs lease_inv_def split: if_splits option.splits)

lemma lease_run_inv: "lease_run w \<Longrightarrow> lease_inv w"
proof (induction rule: lease_run.induct)
  case Fresh
  then show ?case by (simp add: lease_inv_def lease_book_new_def)
next
  case (Then w w')
  then show ?case by (blast intro: lease_step_inv)
qed

section \<open>The store keeps what it was given\<close>

definition store_wf :: "raw_store \<Rightarrow> bool" where
  "store_wf s \<longleftrightarrow> rs_visible_bytes s = chunk_bytes (rs_chunks s)
     \<and> (\<exists>lim. store_limit (rs_plan s) = Inr lim \<and> rs_visible_bytes s \<le> lim)
     \<and> (\<forall>c \<in> set (rs_chunks s). cb_role c = RawRequest)"

lemma store_new_wf: "store_new p = Inr s \<Longrightarrow> store_wf s \<and> rs_chunks s = []"
  by (auto simp: store_new_def store_wf_def res_simps split: body_plan.splits)

lemma try_retain_ok:
  assumes "try_retain s c = Inr s'" "store_wf s"
  shows "store_wf s'" "rs_chunks s' = rs_chunks s @ [c]"
  using assms by (auto simp: try_retain_def store_wf_def res_simps)

definition retain_option :: "charged_bytes \<Rightarrow> raw_store \<Rightarrow> raw_store option" where
  "retain_option c s = (case try_retain s c of Inl _ \<Rightarrow> None | Inr s' \<Rightarrow> Some s')"

lemma retain_option_Some: "retain_option c s = Some k \<longleftrightarrow> try_retain s c = Inr k"
  by (auto simp: retain_option_def split: sum.splits)

lemma retain_all:
  "enqueue_all retain_option cs s = Some s' \<Longrightarrow> store_wf s \<Longrightarrow>
    store_wf s' \<and> rs_chunks s' = rs_chunks s @ cs"
proof (induction cs arbitrary: s)
  case (Cons c cs)
  then obtain k where k: "try_retain s c = Inr k" "enqueue_all retain_option cs k = Some s'"
    by (auto simp: retain_option_Some split: option.splits)
  show ?case using Cons.IH [OF k(2) try_retain_ok(1) [OF k(1) Cons.prems(2)]]
    try_retain_ok(2) [OF k(1) Cons.prems(2)] by simp
qed simp

lemma transfer_owned_chunk:
  assumes inv: "ledger_inv l" and own: "cb_reservation c \<in># owned l"
    and tr: "cb_transfer_role l c role = (l', res)"
  shows "\<exists>c'. res = Inr c' \<and> cb_bytes c' = cb_bytes c \<and> cb_role c' = role \<and> ledger_inv l'
    \<and> r_bytes (cb_reservation c') = r_bytes (cb_reservation c)
    \<and> owned l' = add_mset (cb_reservation c') (owned l - {#cb_reservation c#})"
proof -
  let ?r = "cb_reservation c"
  obtain st where st: "streams (tree l) (r_stream ?r) = Some st" using owned_stream [OF inv own] by blast
  have wf: "budget_wf (tree l)" using inv by (simp add: ledger_inv_def)
  note b = owned_backed [OF inv own st]
  obtain t where t: "transfer_role (tree l) ?r role = (t, ?r\<lparr>r_role := role\<rparr>, Inr ())"
  proof (cases "r_role ?r = role \<or> r_bytes ?r = 0")
    case True
    then show ?thesis using that b(4) by (auto simp: transfer_role_def)
  next
    case False
    then show ?thesis using that transfer_owned [OF wf b(4) _ _ st b(1-3), of role] by auto
  qed
  have "ledger_inv (l\<lparr>tree := t, owned := add_mset (?r\<lparr>r_role := role\<rparr>) (owned l - {#?r#})\<rparr>)"
    by (rule inv_transfer [OF inv own t])
  then show ?thesis using tr t by (auto simp: cb_transfer_role_def cb_role_def Let_def)
qed

lemma transfer_all_owned:
  assumes "ledger_inv l" "mset (map cb_reservation cs) \<subseteq># owned l"
  shows "\<exists>l' ds. transfer_all l role acc cs = (l', Inr (acc @ ds))
    \<and> map cb_bytes ds = map cb_bytes cs \<and> list_all (\<lambda>c. cb_role c = role) ds \<and> ledger_inv l'
    \<and> charge (\<lambda>_. True) (owned l') = charge (\<lambda>_. True) (owned l)"
  using assms
proof (induction cs arbitrary: l acc)
  case (Cons c cs)
  have own: "cb_reservation c \<in># owned l" using Cons.prems(2) by (auto dest: mset_subset_eqD)
  obtain k res where k: "cb_transfer_role l c role = (k, res)" by (cases "cb_transfer_role l c role")
  obtain c' where c': "res = Inr c'" "cb_bytes c' = cb_bytes c" "cb_role c' = role" "ledger_inv k"
    "r_bytes (cb_reservation c') = r_bytes (cb_reservation c)"
    "owned k = add_mset (cb_reservation c') (owned l - {#cb_reservation c#})"
    using transfer_owned_chunk [OF Cons.prems(1) own k] by blast
  have "mset (map cb_reservation cs) \<subseteq># owned l - {#cb_reservation c#}"
    using Cons.prems(2) by (simp add: insert_subset_eq_iff)
  then have sub: "mset (map cb_reservation cs) \<subseteq># owned k"
    unfolding c'(6) by (rule subset_mset.order_trans) simp
  have "charge (\<lambda>_. True) (owned k) = charge (\<lambda>_. True) (owned l)"
    using charge_remove [OF own, of "\<lambda>_. True"] c'(5) by (simp add: c'(6))
  then show ?case using Cons.IH [OF c'(4) sub, of "acc @ [c']"] c'(1-3) k by auto
qed simp

section \<open>Properties\<close>

text \<open>
  C22. Request replay: a store that accepted a sequence of chunks holds exactly these bytes in
  order, within the plan's replay limit, and turning it into model backing succeeds on every
  consistent budget, keeps every byte, moves every charge to the model role and changes the
  charged total not at all.
\<close>

theorem replay_store_transfer:
  assumes "store_new p = Inr s" and "enqueue_all retain_option cs s = Some s'"
    and "ledger_inv l" and "mset (map cb_reservation cs) \<subseteq># owned l"
  shows "\<exists>l' m. into_model_backing l s' = (l', Inr m)
    \<and> map cb_bytes (mb_chunks m) = map cb_bytes cs
    \<and> mb_visible_bytes m = (\<Sum>c\<leftarrow>cs. length (cb_bytes c))
    \<and> list_all (\<lambda>c. cb_role c = ModelIrBacking) (mb_chunks m)
    \<and> process_live (tree l') = process_live (tree l) \<and> ledger_inv l'
    \<and> (\<exists>lim. store_limit p = Inr lim \<and> mb_visible_bytes m \<le> lim)"
proof -
  have s: "store_wf s" "rs_chunks s = []" using store_new_wf [OF assms(1)] by auto
  have s': "store_wf s'" "rs_chunks s' = cs" using retain_all [OF assms(2) s(1)] s(2) by auto
  have plan: "enqueue_all retain_option xs u = Some v \<Longrightarrow> rs_plan v = rs_plan u" for xs u v
    by (induction xs arbitrary: u)
      (fastforce simp: retain_option_Some try_retain_def res_simps split: option.splits)+
  have p: "rs_plan s' = p"
    using plan [OF assms(2)] assms(1) by (auto simp: store_new_def res_simps split: body_plan.splits)
  obtain l' ds where t: "transfer_all l ModelIrBacking [] cs = (l', Inr ds)"
    "map cb_bytes ds = map cb_bytes cs" "list_all (\<lambda>c. cb_role c = ModelIrBacking) ds" "ledger_inv l'"
    "charge (\<lambda>_. True) (owned l') = charge (\<lambda>_. True) (owned l)"
    using transfer_all_owned [OF assms(3,4), of ModelIrBacking "[]"] by auto
  have "process_live (tree l') = process_live (tree l)"
    using t(4,5) assms(3) by (simp add: ledger_inv_defs)
  then show ?thesis using t s' p
    by (auto simp: into_model_backing_def store_wf_def chunk_bytes_def)
qed

definition replay_chunk :: charged_bytes where
  "replay_chunk = \<lparr>cb_bytes = ''abc'', cb_reservation =
     \<lparr>r_stream = 1, r_role = RawRequest, r_bytes = 3, r_released = False\<rparr>\<rparr>"

theorem replay_store_transfer_witness:
  "\<exists>s s' l l' m. store_new (StreamingReplay 4 6) = Inr s
    \<and> enqueue_all retain_option [replay_chunk] s = Some s'
    \<and> copy_from_opaque sample_ledger 1 RawRequest ''abc'' = (l, Inr replay_chunk)
    \<and> into_model_backing l s' = (l', Inr m) \<and> map cb_bytes (mb_chunks m) = [''abc'']"
proof -
  obtain s s' where s: "store_new (StreamingReplay 4 6) = Inr s"
    "enqueue_all retain_option [replay_chunk] s = Some s'"
    by (simp add: store_new_def plan_validate_def ensure_def retain_option_def try_retain_def
        replay_chunk_def cb_role_def checked_add_def usize_max_def)
  obtain l where l: "copy_from_opaque sample_ledger 1 RawRequest ''abc'' = (l, Inr replay_chunk)"
    by (simp add: copy_from_opaque_def acquire_def sample_ledger_def sample_tree_defs fresh_stream_def
        reserve_def commit_reserve_def commit_totals_def raise_role_peaks_def checked_add_def
        usize_max_def replay_chunk_def)
  have "ledger_inv sample_ledger"
    using ledger_run_inv [OF sample_open] by (simp add: sample_ledger_def usize_max_def)
  then have inv: "ledger_inv l" using copy_inv [OF _ _ l] by (simp add: sample_ledger_def)
  have own: "mset (map cb_reservation [replay_chunk]) \<subseteq># owned l" using copy_made(2) [OF l] by simp
  have b: "cb_bytes replay_chunk = ''abc''" by (simp add: replay_chunk_def)
  from replay_store_transfer [OF s inv own] obtain l' m where
    "into_model_backing l s' = (l', Inr m)" "map cb_bytes (mb_chunks m) = [''abc'']"
    by (auto simp: b)
  then show ?thesis using s l by (intro exI conjI)
qed

text \<open>
  The request's memory is let go once and only when unused: in every run of the lease book at
  most one release proof is handed out, the counter is the number of live leases (it never
  underflows), and after the proof no lease is live and none can be taken.
\<close>

theorem release_proof_unique:
  assumes "lease_run w"
  shows "ready w \<le> 1 \<and> outstanding (book w) = live_leases w
    \<and> (ready w = 1 \<longrightarrow> live_leases w = 0 \<and> snd (lease_acquire (book w)) = Inl LeaseAfterTerminal
        \<and> snd (mark_terminal_and_release_ready (book w)) = Inl ReleaseProofAlreadyIssued)
    \<and> (ready w = 0 \<longrightarrow> (is_ok (lease_zero_for_continue (book w)) \<longleftrightarrow> live_leases w = 0))"
  using lease_run_inv [OF assms]
  by (auto simp: lease_inv_def lease_defs lease_zero_for_continue_def split: if_splits)

theorem release_proof_unique_witness:
  "lease_run \<lparr>book = \<lparr>outstanding = 0, terminal = True, proof_issued = True\<rparr>, live_leases = 0, ready = 1\<rparr>
    \<and> snd (lease_acquire \<lparr>outstanding = 0, terminal = True, proof_issued = True\<rparr>) = Inl LeaseAfterTerminal"
proof -
  let ?w = "\<lparr>book = lease_book_new, live_leases = 0, ready = 0\<rparr>"
  have "lease_step ?w (?w\<lparr>book := \<lparr>outstanding = 0, terminal = True, proof_issued = True\<rparr>, ready := ready ?w + 1\<rparr>)"
    by (rule lease_step.Ready) (simp add: lease_defs lease_book_new_def)
  then have run: "lease_run \<lparr>book = \<lparr>outstanding = 0, terminal = True, proof_issued = True\<rparr>, live_leases = 0, ready = 1\<rparr>"
    using lease_run.Then [OF lease_run.Fresh] by simp
  from release_proof_unique [OF run] show ?thesis using run by simp
qed

end
