(* ===== verification/Sse_Event.thy ===== *)
theory Sse_Event
  imports Charged_Body
begin

text \<open>
  Server-sent events as the gateway sees them (\<^verbatim>\<open>gateway-core/src/runtime/sse/event.rs\<close>, the
  error type of \<^verbatim>\<open>semantic.rs\<close> and the limits of \<^verbatim>\<open>framer.rs\<close>): the field iterator of an
  event, its type, id, retry and data, and the bounded emitter a visitor decides through.
\<close>

datatype sse_error =
    InvalidLimits | FramerFailed | EventLimit | PendingLimit | OutputLimit | SseBudgetExceeded
  | IncompleteEventAtEof | NoEmitterDecision | EmitterAlreadyDecided | HandoffCapacityExceeded
  | NeedDrain | DrainRequired | UnknownSequence u64 | SequenceAlreadyDecoded u64
  | SequenceNotInFlight u64 | SequenceStillInFlight u64 | DecodedHandoffWithoutRaw
  | InvalidMailboxCapacity | InvalidSplit | SemanticReplacementNotAuthorized
  | TransformSequenceMismatch

datatype eof_policy = Strict | DropIncompleteObserver | ProviderFinalEvent

record sse_limits =
  max_event_bytes :: usize
  max_pending_bytes :: usize
  max_output_event_bytes :: usize
  expansion_ratio_numerator :: usize
  expansion_ratio_denominator :: usize
  expansion_slack_bytes :: usize
  retained_capacity_threshold :: usize
  eof_policy_of :: eof_policy

definition limits_validate :: "sse_limits \<Rightarrow> sse_error + unit" where
  "limits_validate L = ensure
    (\<not> (max_event_bytes L = 0 \<or> max_pending_bytes L = 0 \<or> max_pending_bytes L < max_event_bytes L
      \<or> max_output_event_bytes L = 0 \<or> expansion_ratio_numerator L = 0
      \<or> expansion_ratio_denominator L = 0 \<or> retained_capacity_threshold L = 0)) InvalidLimits"

text \<open>The budget's errors are all reported as a rejected allocation.\<close>

fun as_budget_error :: "body_error + 'a \<Rightarrow> sse_error + 'a" where
  "as_budget_error (Inl _) = Inl SseBudgetExceeded"
| "as_budget_error (Inr x) = Inr x"

section \<open>Fields\<close>

definition UTF8_BOM :: bytes where "UTF8_BOM = [CHR 0xEF, CHR 0xBB, CHR 0xBF]"

record event_view =
  ev_raw :: bytes
  ev_strip_bom :: bool

record sse_field =
  sf_name :: bytes
  sf_value :: bytes
  sf_comment :: bool

definition is_eol :: "u8 \<Rightarrow> bool" where
  "is_eol c \<longleftrightarrow> c = CR \<or> c = LF"

text \<open>The rest of the buffer after a line's terminator: CRLF, CR or LF.\<close>

fun skip_eol :: "bytes \<Rightarrow> bytes" where
  "skip_eol [] = []"
| "skip_eol (c # cs) =
    (if c = CR then (case cs of d # ds \<Rightarrow> if d = LF then ds else cs | [] \<Rightarrow> []) else cs)"

definition strip_space :: "bytes \<Rightarrow> bytes" where
  "strip_space v = (case v of c # cs \<Rightarrow> if c = CHR '' '' then cs else v | [] \<Rightarrow> [])"

definition parse_line :: "bytes \<Rightarrow> sse_field" where
  "parse_line line =
    (if starts_with line '':'' then \<lparr>sf_name = [], sf_value = strip_space (tl line), sf_comment = True\<rparr>
     else case position (\<lambda>b. b = CHR '':'') line of
       Some colon \<Rightarrow> \<lparr>sf_name = take colon line, sf_value = strip_space (drop (colon + 1) line), sf_comment = False\<rparr>
     | None \<Rightarrow> \<lparr>sf_name = line, sf_value = [], sf_comment = False\<rparr>)"


lemma length_skip_eol: "xs \<noteq> [] \<Longrightarrow> length (skip_eol xs) < length xs"
  by (cases xs) (auto split: list.splits)

text \<open>
  \<open>SseFieldIter\<close> run to its end over the bytes from the cursor on. The cursor always moves past a
  line, so the recursion ends.
\<close>

function field_list :: "bytes \<Rightarrow> sse_field list" where
  "field_list bs =
    (if bs = [] then []
     else let line = takeWhile (\<lambda>c. \<not> is_eol c) bs;
              rest = skip_eol (dropWhile (\<lambda>c. \<not> is_eol c) bs)
       in if line = [] then field_list rest else parse_line line # field_list rest)"
  by auto

lemma field_rest_shorter:
  assumes "bs \<noteq> []"
  shows "length (skip_eol (dropWhile (\<lambda>c. \<not> is_eol c) bs)) < length bs"
proof (cases "dropWhile (\<lambda>c. \<not> is_eol c) bs")
  case (Cons c cs)
  then have "length (skip_eol (c # cs)) < length (c # cs)" by (intro length_skip_eol) simp
  also have "length (c # cs) \<le> length bs" using Cons by (metis length_dropWhile_le)
  finally show ?thesis using Cons by simp
next
  case Nil
  then show ?thesis unfolding Nil using assms by simp
qed

termination field_list
  by (relation "measure length") (simp_all add: field_rest_shorter)

declare field_list.simps [simp del]

definition view_fields :: "event_view \<Rightarrow> sse_field list" where
  "view_fields v = field_list (if ev_strip_bom v then drop (length UTF8_BOM) (ev_raw v) else ev_raw v)"

fun last_value :: "(sse_field \<Rightarrow> 'a option) \<Rightarrow> sse_field list \<Rightarrow> 'a option \<Rightarrow> 'a option" where
  "last_value f [] acc = acc"
| "last_value f (x # xs) acc = last_value f xs (case f x of None \<Rightarrow> acc | Some v \<Rightarrow> Some v)"

definition event_type :: "event_view \<Rightarrow> bytes option" where
  "event_type v = last_value (\<lambda>f. if sf_name f = ''event'' then Some (sf_value f) else None) (view_fields v) None"

definition event_id :: "event_view \<Rightarrow> bytes option" where
  "event_id v = last_value
    (\<lambda>f. if sf_name f = ''id'' \<and> CHR 0x00 \<notin> set (sf_value f) then Some (sf_value f) else None) (view_fields v) None"

definition ascii_digit :: "u8 \<Rightarrow> bool" where
  "ascii_digit c \<longleftrightarrow> 48 \<le> (of_char c :: nat) \<and> (of_char c :: nat) \<le> 57"

fun fold_digits :: "u64 \<Rightarrow> bytes \<Rightarrow> u64 option" where
  "fold_digits n [] = Some n"
| "fold_digits n (c # cs) =
    (case checked_mul n 10 of None \<Rightarrow> None
     | Some m \<Rightarrow> (case checked_add m (of_char c - 48) of None \<Rightarrow> None | Some k \<Rightarrow> fold_digits k cs))"

definition parse_ascii_u64 :: "bytes \<Rightarrow> u64 option" where
  "parse_ascii_u64 bs = (if bs = [] \<or> \<not> list_all ascii_digit bs then None else fold_digits 0 bs)"

definition event_retry :: "event_view \<Rightarrow> u64 option" where
  "event_retry v = last_value (\<lambda>f. if sf_name f = ''retry'' then parse_ascii_u64 (sf_value f) else None) (view_fields v) None"

section \<open>Event data\<close>

datatype sse_data = Borrowed bytes | OwnedData charged_bytes

fun data_bytes :: "sse_data \<Rightarrow> bytes" where
  "data_bytes (Borrowed b) = b"
| "data_bytes (OwnedData c) = cb_bytes c"

definition data_values :: "event_view \<Rightarrow> bytes list" where
  "data_values v = map sf_value (filter (\<lambda>f. sf_name f = ''data'') (view_fields v))"

definition add_line :: "bytes \<Rightarrow> usize option \<Rightarrow> usize option" where
  "add_line v acc = (case acc of None \<Rightarrow> None | Some n \<Rightarrow> checked_add n (wrapping_add (length v) 1))"

definition joined_capacity :: "bytes \<Rightarrow> bytes \<Rightarrow> bytes list \<Rightarrow> usize option" where
  "joined_capacity first second rest =
    (case checked_add (length first) (saturating_add (length second) 1) of
       None \<Rightarrow> None
     | Some n \<Rightarrow> fold add_line rest (Some n))"

text \<open>Appending to the builder; every failure is a rejected allocation and drops the builder.\<close>

fun append_values :: "bytes_builder \<Rightarrow> bytes list \<Rightarrow> bytes_builder + bytes_builder" where
  "append_values b [] = Inr b"
| "append_values b (v # vs) =
    (case builder_push b LF of (b1, Inl _) \<Rightarrow> Inl b1
     | (b1, Inr _) \<Rightarrow> (case extend_from_slice b1 v of (b2, Inl _) \<Rightarrow> Inl b2 | (b2, Inr _) \<Rightarrow> append_values b2 vs))"

definition event_data :: "event_view \<Rightarrow> ledger \<Rightarrow> stream_id \<Rightarrow> ledger \<times> (sse_error + sse_data)" where
  "event_data v l sid =
    (case data_values v of
       [] \<Rightarrow> (l, Inr (Borrowed []))
     | [first] \<Rightarrow> (l, Inr (Borrowed first))
     | first # second # rest \<Rightarrow>
        (case joined_capacity first second rest of
           None \<Rightarrow> (l, Inl SseBudgetExceeded)
         | Some capacity \<Rightarrow>
            (case builder_new l sid SemanticState capacity of
               (l1, Inl _) \<Rightarrow> (l1, Inl SseBudgetExceeded)
             | (l1, Inr b) \<Rightarrow>
                (case extend_from_slice b first of
                   (b1, Inl _) \<Rightarrow> (discard l1 (bb_reservation b1), Inl SseBudgetExceeded)
                 | (b1, Inr _) \<Rightarrow>
                    (case append_values b1 (second # rest) of
                       Inl b2 \<Rightarrow> (discard l1 (bb_reservation b2), Inl SseBudgetExceeded)
                     | Inr b2 \<Rightarrow> (l1, Inr (OwnedData (builder_finish b2))))))))"

definition promote :: "event_view \<Rightarrow> ledger \<Rightarrow> stream_id \<Rightarrow> ledger \<times> (sse_error + charged_bytes)" where
  "promote v l sid =
    (let (l', r) = copy_from_opaque l sid SseFrame (ev_raw v) in (l', as_budget_error r))"

section \<open>The bounded emitter\<close>

text \<open>
  The sink is a parameter: its state and its two methods, each of which may refuse with an error.
  The emitter carries the sink and the budget the visitor works on.
\<close>

record 'k sink_ops =
  sink_borrowed :: "bytes \<Rightarrow> 'k \<Rightarrow> 'k \<times> (sse_error + unit)"
  sink_owned :: "charged_bytes \<Rightarrow> 'k \<Rightarrow> 'k \<times> (sse_error + unit)"

record 'k emitter =
  em_raw :: bytes
  em_limits :: sse_limits
  em_stream :: stream_id
  em_ledger :: ledger
  em_sink :: 'k
  em_emitted :: usize
  em_emitted_bytes :: usize
  em_decided :: bool

definition pass_raw :: "'k sink_ops \<Rightarrow> 'k emitter \<Rightarrow> 'k emitter \<times> (sse_error + unit)" where
  "pass_raw K m =
    (if em_decided m then (m, Inl EmitterAlreadyDecided)
     else case sink_borrowed K (em_raw m) (em_sink m) of
       (k, Inl e) \<Rightarrow> (m\<lparr>em_sink := k\<rparr>, Inl e)
     | (k, Inr _) \<Rightarrow> (m\<lparr>em_sink := k, em_decided := True\<rparr>, Inr ()))"

definition drop_event :: "'k emitter \<Rightarrow> 'k emitter \<times> (sse_error + unit)" where
  "drop_event m =
    (if em_decided m then (m, Inl EmitterAlreadyDecided) else (m\<lparr>em_decided := True\<rparr>, Inr ()))"

definition event_limit :: "'k emitter \<Rightarrow> usize" where
  "event_limit m = saturating_add
    (saturating_mul (length (em_raw m)) (expansion_ratio_numerator (em_limits m))
       div expansion_ratio_denominator (em_limits m))
    (expansion_slack_bytes (em_limits m))"

definition output_room :: "'k emitter \<Rightarrow> usize \<Rightarrow> sse_error + usize" where
  "output_room m n =
    and_then (ok_or OutputLimit (checked_add (em_emitted_bytes m) n)) (\<lambda>next.
      if next > event_limit m \<or> next > max_output_event_bytes (em_limits m) then Inl OutputLimit else Inr next)"

definition output_builder :: "'k emitter \<Rightarrow> usize \<Rightarrow> 'k emitter \<times> (sse_error + bytes_builder)" where
  "output_builder m capacity =
    (case output_room m capacity of
       Inl e \<Rightarrow> (m, Inl e)
     | Inr _ \<Rightarrow> (let (l, r) = builder_new (em_ledger m) (em_stream m) OutputQueue capacity
                 in (m\<lparr>em_ledger := l\<rparr>, as_budget_error r)))"

definition emit_owned :: "'k sink_ops \<Rightarrow> 'k emitter \<Rightarrow> charged_bytes \<Rightarrow> 'k emitter \<times> (sse_error + unit)" where
  "emit_owned K m c =
    (let refuse = (\<lambda>e. (m\<lparr>em_ledger := drop_chunk (em_ledger m) c\<rparr>, Inl e)) in
     if em_decided m \<and> em_emitted m = 0 then refuse EmitterAlreadyDecided
     else case output_room m (length (cb_bytes c)) of
       Inl e \<Rightarrow> refuse e
     | Inr next \<Rightarrow>
        if cb_role c \<noteq> OutputQueue then refuse SseBudgetExceeded
        else (case sink_owned K c (em_sink m) of
           (k, Inl e) \<Rightarrow> (m\<lparr>em_sink := k\<rparr>, Inl e)
         | (k, Inr _) \<Rightarrow> (m\<lparr>em_sink := k, em_emitted := wrapping_add (em_emitted m) 1,
             em_emitted_bytes := next, em_decided := True\<rparr>, Inr ())))"

section \<open>Numbers\<close>

fun digits_value :: "nat \<Rightarrow> bytes \<Rightarrow> nat" where
  "digits_value n [] = n"
| "digits_value n (c # cs) = digits_value (n * 10 + (of_char c - 48)) cs"

lemma digits_value_ge: "n \<le> digits_value n cs"
proof (induction cs arbitrary: n)
  case (Cons c cs)
  have "n \<le> n * 10 + (of_char c - 48)" by simp
  also have "\<dots> \<le> digits_value (n * 10 + (of_char c - 48)) cs" by (rule Cons.IH)
  finally show ?case by simp
qed simp

lemma fold_digits_value:
  "n \<le> usize_max \<Longrightarrow>
    fold_digits n cs = (if digits_value n cs \<le> usize_max then Some (digits_value n cs) else None)"
proof (induction cs arbitrary: n)
  case (Cons c cs)
  define d :: nat where "d = of_char c - 48"
  show ?case
  proof (cases "n * 10 + d \<le> usize_max")
    case True
    then have "n * 10 \<le> usize_max" by linarith
    then show ?thesis using True Cons.IH [OF True] by (simp add: checked_mul_def checked_add_def d_def [symmetric])
  next
    case False
    then have "\<not> digits_value (n * 10 + d) cs \<le> usize_max" using digits_value_ge [of "n * 10 + d" cs] by linarith
    then show ?thesis using False by (simp add: checked_mul_def checked_add_def d_def [symmetric])
  qed
qed simp

section \<open>Field iteration and line structure\<close>

definition eol_free :: "bytes \<Rightarrow> bool" where
  "eol_free bs \<longleftrightarrow> list_all (\<lambda>c. \<not> is_eol c) bs"

lemma field_list_eol: "is_eol c \<Longrightarrow> field_list (c # cs) = field_list (skip_eol (c # cs))"
  by (subst field_list.simps) simp

lemma field_list_line:
  assumes "eol_free line" "line \<noteq> []"
  shows "field_list (line @ LF # cs) = parse_line line # field_list cs"
proof -
  have lf: "is_eol LF" by (simp add: is_eol_def)
  have "takeWhile (\<lambda>c. \<not> is_eol c) (line @ LF # cs) = line"
    "dropWhile (\<lambda>c. \<not> is_eol c) (line @ LF # cs) = LF # cs"
    using assms(1) lf by (induction line) (auto simp: eol_free_def)
  then show ?thesis using assms(2) by (subst field_list.simps) (simp add: Let_def)
qed

lemma field_list_blank: "field_list (LF # cs) = field_list cs"
  by (subst field_list_eol) (simp_all add: is_eol_def)

text \<open>A well-formed event as a provider writes it: one \<open>name: value\<close> line per field and a blank line.\<close>

definition encode_field :: "bytes \<times> bytes \<Rightarrow> bytes" where
  "encode_field f = fst f @ '': '' @ snd f @ [LF]"

definition encode_event :: "(bytes \<times> bytes) list \<Rightarrow> bytes" where
  "encode_event fs = concat (map encode_field fs) @ [LF]"

definition name_ok :: "bytes \<Rightarrow> bool" where
  "name_ok n \<longleftrightarrow> n \<noteq> [] \<and> eol_free n \<and> CHR '':'' \<notin> set n"

lemma position_append: "\<forall>x \<in> set xs. \<not> P x \<Longrightarrow> P y \<Longrightarrow> position P (xs @ y # ys) = Some (length xs)"
  by (induction xs) auto

lemma parse_line_field:
  assumes "name_ok n"
  shows "parse_line (n @ '': '' @ v) = \<lparr>sf_name = n, sf_value = v, sf_comment = False\<rparr>"
proof -
  obtain c cs where n: "n = c # cs" using assms by (cases n) (auto simp: name_ok_def)
  have "c \<noteq> CHR '':''" using assms n by (auto simp: name_ok_def)
  moreover have "position (\<lambda>b. b = CHR '':'') (n @ CHR '':'' # CHR '' '' # v) = Some (length n)"
    using assms by (intro position_append) (auto simp: name_ok_def)
  ultimately show ?thesis
    using n by (simp add: parse_line_def strip_space_def)
qed

lemma eol_free_field: "name_ok n \<Longrightarrow> eol_free v \<Longrightarrow> eol_free (n @ '': '' @ v)"
  by (simp add: eol_free_def name_ok_def is_eol_def CR_def LF_def)

lemma field_list_encode:
  assumes "\<forall>(n, v) \<in> set fs. name_ok n \<and> eol_free v"
  shows "field_list (encode_event fs) = map (\<lambda>(n, v). \<lparr>sf_name = n, sf_value = v, sf_comment = False\<rparr>) fs"
  using assms
proof (induction fs)
  case Nil
  show ?case by (simp add: encode_event_def field_list_blank field_list.simps [of "[]"])
next
  case (Cons f fs)
  obtain n v where f: "f = (n, v)" by (cases f)
  have ok: "name_ok n" "eol_free v" using Cons.prems f by auto
  have eq: "encode_event (f # fs) = (n @ '': '' @ v) @ LF # encode_event fs"
    by (simp add: encode_event_def encode_field_def f)
  show ?case unfolding eq
    using field_list_line [OF eol_free_field [OF ok]] parse_line_field [OF ok(1)] Cons.IH Cons.prems f
    by simp
qed

section \<open>Joining data lines\<close>

definition join_lf :: "bytes list \<Rightarrow> bytes" where
  "join_lf vs = (case vs of [] \<Rightarrow> [] | v # vs \<Rightarrow> v @ concat (map (\<lambda>u. LF # u) vs))"

lemma append_values_ok:
  assumes "length (bb_bytes b) + sum_list (map (\<lambda>v. length v + 1) vs) \<le> bb_capacity b"
    and "bb_capacity b \<le> usize_max"
  shows "append_values b vs = Inr (b\<lparr>bb_bytes := bb_bytes b @ concat (map (\<lambda>u. LF # u) vs)\<rparr>)"
  using assms
  by (induction vs arbitrary: b)
    (auto simp: builder_push_def extend_from_slice_def saturating_add_within)

lemma fold_capacity_None: "fold add_line vs None = None"
  by (induction vs) (auto simp: add_line_def)

lemma fold_capacity:
  assumes "fold add_line vs (Some n) = Some m" "\<forall>v \<in> set vs. length v < usize_max" "n \<le> usize_max"
  shows "m = n + sum_list (map (\<lambda>v. length v + 1) vs) \<and> m \<le> usize_max"
  using assms
proof (induction vs arbitrary: n)
  case (Cons v vs)
  have step: "fold add_line vs (add_line v (Some n)) = Some m" using Cons.prems(1) by simp
  then obtain k where "add_line v (Some n) = Some k"
    using fold_capacity_None by (cases "add_line v (Some n)") auto
  then have k: "checked_add n (wrapping_add (length v) 1) = Some k" by (simp add: add_line_def)
  then have k': "k = n + (length v + 1)" "k \<le> usize_max"
    using Cons.prems(2) by (auto simp: wrapping_add_within)
  then show ?case using Cons.IH [of k] Cons.prems(2) step k
    by (simp add: \<open>add_line v (Some n) = Some k\<close>)
qed auto

lemma event_data_joined:
  assumes "event_data v l sid = (l', Inr d)" "\<forall>u \<in> set (data_values v). length u < usize_max"
  shows "data_bytes d = join_lf (data_values v)"
proof -
  consider "data_values v = []" | x where "data_values v = [x]"
    | x y zs where "data_values v = x # y # zs"
    by (cases "data_values v" rule: remdups_adj.cases) auto
  then show ?thesis
  proof cases
    case (3 x y zs)
    obtain n where n: "joined_capacity x y zs = Some n"
      using assms(1) 3 by (auto simp: event_data_def split: option.splits)
    obtain l1 b where b: "builder_new l sid SemanticState n = (l1, Inr b)"
      using assms(1) 3 n by (auto simp: event_data_def split: prod.splits sum.splits)
    have b': "bb_bytes b = []" "bb_capacity b = n"
      using b by (auto simp: builder_new_def split: prod.splits sum.splits)
    have y: "length y + 1 \<le> usize_max" using assms(2) 3 by auto
    obtain k where k: "checked_add (length x) (saturating_add (length y) 1) = Some k"
      using n by (auto simp: joined_capacity_def split: option.splits)
    then have k': "k = length x + (length y + 1)" "k \<le> usize_max"
      using y by (auto simp: saturating_add_within)
    have "fold add_line zs (Some k) = Some n" using n k by (simp add: joined_capacity_def del: checked_add_Some)
    then have "n = k + sum_list (map (\<lambda>v. length v + 1) zs)" "n \<le> usize_max"
      using k'(2) fold_capacity [of zs k n] assms(2) 3 by auto
    note cap = this k'
    have "extend_from_slice b x = (b\<lparr>bb_bytes := x\<rparr>, Inr ())"
      using b' cap by (simp add: extend_from_slice_def saturating_add_within)
    moreover have "append_values (b\<lparr>bb_bytes := x\<rparr>) (y # zs)
        = Inr (b\<lparr>bb_bytes := x @ concat (map (\<lambda>u. LF # u) (y # zs))\<rparr>)"
      using append_values_ok [of "b\<lparr>bb_bytes := x\<rparr>" "y # zs"] b' cap by simp
    ultimately show ?thesis
      using assms(1) 3 n b by (auto simp: event_data_def join_lf_def builder_finish_def)
  qed (use assms in \<open>auto simp: event_data_def join_lf_def\<close>)
qed

section \<open>The emitter as a bounded meter\<close>

definition emit_admission :: "'k sink_ops \<Rightarrow> charged_bytes \<Rightarrow> 'k emitter \<Rightarrow> 'k emitter \<times> bool" where
  "emit_admission K c m = (let (m', r) = emit_owned K m c in (m', is_ok r))"

definition output_cap :: "'k emitter \<Rightarrow> usize" where
  "output_cap m = min (event_limit m) (max_output_event_bytes (em_limits m))"

lemma emit_owned_cases:
  assumes "emit_owned K m c = (m', r)"
  obtains (Refused) e where "r = Inl e" "m' = m\<lparr>em_ledger := drop_chunk (em_ledger m) c\<rparr>"
  | (Sink_refused) e k where "r = Inl e" "m' = m\<lparr>em_sink := k\<rparr>"
  | (Accepted) k where "r = Inr ()" "output_room m (length (cb_bytes c)) = Inr (em_emitted_bytes m + length (cb_bytes c))"
      "\<not> (em_decided m \<and> em_emitted m = 0)" "cb_role c = OutputQueue" "sink_owned K c (em_sink m) = (k, Inr ())"
      "m' = m\<lparr>em_sink := k, em_emitted := wrapping_add (em_emitted m) 1,
         em_emitted_bytes := em_emitted_bytes m + length (cb_bytes c), em_decided := True\<rparr>"
proof (cases "em_decided m \<and> em_emitted m = 0")
  case True
  then show thesis using assms Refused [of EmitterAlreadyDecided] by (simp add: emit_owned_def)
next
  case open_event: False
  show thesis
  proof (cases "output_room m (length (cb_bytes c))")
    case (Inl e)
    then show thesis using assms open_event Refused [of e] by (simp add: emit_owned_def)
  next
    case (Inr nxt)
    then have n: "nxt = em_emitted_bytes m + length (cb_bytes c)"
      by (auto simp: output_room_def res_simps split: if_splits)
    show thesis
    proof (cases "cb_role c = OutputQueue")
      case False
      then show thesis using assms open_event Inr Refused [of SseBudgetExceeded] by (simp add: emit_owned_def)
    next
      case role: True
      obtain k s where k: "sink_owned K c (em_sink m) = (k, s)" by (cases "sink_owned K c (em_sink m)")
      show thesis
      proof (cases s)
        case (Inl e)
        then show thesis using assms open_event Inr role k Sink_refused [of e k] \<open>output_room m _ = _\<close>
          by (simp add: emit_owned_def)
      next
        case (Inr u)
        then show thesis using assms open_event role k n Accepted [of k] \<open>output_room m _ = _\<close>
          by (simp add: emit_owned_def)
      qed
    qed
  qed
qed

interpretation emitter_meter: bounded_meter em_emitted_bytes output_cap "\<lambda>c. length (cb_bytes c)" "emit_admission K"
proof
  fix c and m m' :: "'a emitter"
  assume "emit_admission K c m = (m', True)"
  then have "emit_owned K m c = (m', Inr ())"
    by (auto simp: emit_admission_def is_ok_iff split: prod.splits)
  then show "em_emitted_bytes m' = em_emitted_bytes m + length (cb_bytes c) \<and> em_emitted_bytes m' \<le> output_cap m"
    by (cases rule: emit_owned_cases) (auto simp: output_room_def output_cap_def res_simps split: if_splits)
next
  fix c and m m' :: "'a emitter"
  assume "emit_admission K c m = (m', False)"
  then obtain r where "emit_owned K m c = (m', r)" "\<not> is_ok r"
    by (auto simp: emit_admission_def split: prod.splits)
  then obtain e where "emit_owned K m c = (m', Inl e)" by (auto simp: not_ok_iff)
  then show "em_emitted_bytes m' = em_emitted_bytes m" by (cases rule: emit_owned_cases) auto
next
  fix c b and m m' :: "'a emitter"
  assume "emit_admission K c m = (m', b)"
  then obtain r where "emit_owned K m c = (m', r)" by (auto simp: emit_admission_def split: prod.splits)
  then show "output_cap m' = output_cap m"
    by (cases rule: emit_owned_cases) (auto simp: output_cap_def event_limit_def)
qed

section \<open>Properties\<close>

text \<open>
  C23. Fields round-trip: for an event written as \<open>name: value\<close> lines ended by a blank line, the
  field iterator yields exactly those fields in order, and the event's data is the newline-joined
  list of its data values, whether it could be borrowed or had to be built.
\<close>

theorem event_fields_roundtrip:
  assumes "\<forall>(n, v) \<in> set fs. name_ok n \<and> eol_free v \<and> length v < usize_max"
    and "event_data \<lparr>ev_raw = encode_event fs, ev_strip_bom = False\<rparr> l sid = (l', Inr d)"
  shows "view_fields \<lparr>ev_raw = encode_event fs, ev_strip_bom = False\<rparr>
      = map (\<lambda>(n, v). \<lparr>sf_name = n, sf_value = v, sf_comment = False\<rparr>) fs
    \<and> data_bytes d = join_lf (map snd (filter (\<lambda>f. fst f = ''data'') fs))"
proof -
  let ?v = "\<lparr>ev_raw = encode_event fs, ev_strip_bom = False\<rparr>"
  have f: "view_fields ?v = map (\<lambda>(n, v). \<lparr>sf_name = n, sf_value = v, sf_comment = False\<rparr>) fs"
    using field_list_encode [of fs] assms(1) by (auto simp: view_fields_def)
  have "map sf_value (filter (\<lambda>f. sf_name f = ''data'')
      (map (\<lambda>(n, v). \<lparr>sf_name = n, sf_value = v, sf_comment = False\<rparr>) fs))
      = map snd (filter (\<lambda>f. fst f = ''data'') fs)"
    by (induction fs) auto
  then have dv: "data_values ?v = map snd (filter (\<lambda>f. fst f = ''data'') fs)"
    by (simp add: data_values_def f)
  then have "\<forall>u \<in> set (data_values ?v). length u < usize_max" using assms(1) by auto
  then show ?thesis using f event_data_joined [OF assms(2)] dv by simp
qed

theorem event_fields_roundtrip_witness:
  "\<exists>l' d. event_data \<lparr>ev_raw = encode_event [(''data'', ''a''), (''id'', ''7''), (''data'', ''b'')], ev_strip_bom = False\<rparr>
      sample_ledger 1 = (l', Inr d) \<and> data_bytes d = [CHR ''a'', LF, CHR ''b'']"
proof -
  let ?fs = "[(''data'', ''a''), (''id'', ''7''), (''data'', ''b'')]"
  have ok: "\<forall>(n, v) \<in> set ?fs. name_ok n \<and> eol_free v \<and> length v < usize_max"
    by (simp add: name_ok_def eol_free_def is_eol_def CR_def LF_def usize_max_def)
  have "data_values \<lparr>ev_raw = encode_event ?fs, ev_strip_bom = False\<rparr> = [''a'', ''b'']"
    using field_list_encode [of ?fs] ok by (simp add: data_values_def view_fields_def)
  then obtain l' d where run: "event_data \<lparr>ev_raw = encode_event ?fs, ev_strip_bom = False\<rparr> sample_ledger 1 = (l', Inr d)"
    by (simp add: event_data_def joined_capacity_def checked_add_def saturating_add_def usize_max_def
        builder_new_def acquire_def sample_ledger_def sample_tree_defs fresh_stream_def reserve_def
        commit_reserve_def commit_totals_def raise_role_peaks_def extend_from_slice_def builder_push_def)
  from event_fields_roundtrip [OF ok run] show ?thesis using run by (auto simp: join_lf_def)
qed

text \<open>
  Output expansion is bounded: whatever chunks a visitor offers for one event, the bytes the
  emitter hands to the sink are exactly those of the accepted chunks and never exceed the
  expansion ratio plus slack, nor the absolute output limit.
\<close>

theorem emitted_output_bounded:
  assumes "run_admit (emit_admission K) cs m = (m', accepted)" and "em_emitted_bytes m = 0"
    and "em_raw m = raw" and "em_limits m = L"
  shows "(\<Sum>c\<leftarrow>accepted. length (cb_bytes c)) = em_emitted_bytes m'
    \<and> em_emitted_bytes m' \<le> max_output_event_bytes L
    \<and> em_emitted_bytes m' \<le> length raw * expansion_ratio_numerator L div expansion_ratio_denominator L
        + expansion_slack_bytes L"
proof -
  have "em_emitted_bytes m' = (\<Sum>c\<leftarrow>accepted. length (cb_bytes c))"
    using emitter_meter.run_used [OF assms(1)] assms(2) by simp
  moreover have "em_emitted_bytes m' \<le> output_cap m"
    using emitter_meter.run_bounded [OF assms(1)] emitter_meter.run_cap [OF assms(1)] assms(2) by simp
  moreover have "event_limit m \<le> length raw * expansion_ratio_numerator L div expansion_ratio_denominator L
      + expansion_slack_bytes L"
    using assms(3,4)
    by (simp add: event_limit_def saturating_add_def saturating_mul_def min_le_iff_disj div_le_mono)
  ultimately show ?thesis using assms(4) by (simp add: output_cap_def)
qed

definition sample_limits :: sse_limits where
  "sample_limits = \<lparr>max_event_bytes = 8, max_pending_bytes = 8, max_output_event_bytes = 4,
     expansion_ratio_numerator = 1, expansion_ratio_denominator = 1, expansion_slack_bytes = 1,
     retained_capacity_threshold = 4, eof_policy_of = Strict\<rparr>"

definition list_sink :: "bytes list sink_ops" where
  "list_sink = \<lparr>sink_borrowed = (\<lambda>b k. (k @ [b], Inr ())), sink_owned = (\<lambda>c k. (k @ [cb_bytes c], Inr ()))\<rparr>"

definition output_chunk :: "bytes \<Rightarrow> charged_bytes" where
  "output_chunk b = \<lparr>cb_bytes = b, cb_reservation =
     \<lparr>r_stream = 1, r_role = OutputQueue, r_bytes = length b, r_released = False\<rparr>\<rparr>"

theorem emitted_output_bounded_witness:
  "\<exists>m'. run_admit (emit_admission list_sink) [output_chunk ''ab'', output_chunk ''cde'', output_chunk ''f'']
      \<lparr>em_raw = ''xy'', em_limits = sample_limits, em_stream = 1, em_ledger = sample_ledger, em_sink = [],
       em_emitted = 0, em_emitted_bytes = 0, em_decided = False\<rparr> = (m', [output_chunk ''ab'', output_chunk ''f''])
    \<and> em_emitted_bytes m' = 3"
proof -
  let ?m = "\<lparr>em_raw = ''xy'', em_limits = sample_limits, em_stream = 1, em_ledger = sample_ledger, em_sink = [],
    em_emitted = 0, em_emitted_bytes = 0, em_decided = False\<rparr>"
  obtain m' where run: "run_admit (emit_admission list_sink) [output_chunk ''ab'', output_chunk ''cde'', output_chunk ''f''] ?m
      = (m', [output_chunk ''ab'', output_chunk ''f''])"
    by (simp add: emit_admission_def emit_owned_def output_room_def event_limit_def sample_limits_def
        output_chunk_def list_sink_def cb_role_def checked_add_def saturating_add_def saturating_mul_def
        usize_max_def wrapping_add_def Let_def)
  from emitted_output_bounded [OF run _ refl refl] have "em_emitted_bytes m' = 3" by (simp add: output_chunk_def)
  then show ?thesis using run by blast
qed

end
