(* ===== verification/Sse_Framer.thy ===== *)
theory Sse_Framer
  imports Sse_Event
begin

text \<open>
  The incremental SSE framer (\<^verbatim>\<open>gateway-core/src/runtime/sse/framer.rs\<close>): scanning for event
  boundaries across transport chunks, the charged buffer of an unfinished event, and feeding,
  resuming and ending a stream. The visitor is a parameter \<open>on_event\<close>, a function on its own state
  and the emitter; the budget ledger, the visitor and the sink travel together as a world. A
  vector's capacity is what \<open>with_capacity\<close> was asked for.
\<close>

section \<open>Scanning\<close>

record scan_state =
  at_line_start :: bool
  pending_cr_blank :: "bool option"

definition scan_default :: scan_state where
  "scan_default = \<lparr>at_line_start = True, pending_cr_blank = None\<rparr>"

definition advance :: "nat \<Rightarrow> scan_state \<times> nat \<times> bool \<Rightarrow> scan_state \<times> nat \<times> bool" where
  "advance k r = (let (st, n, found) = r in (st, k + n, found))"

text \<open>
  The main loop of \<open>next_boundary\<close> on the bytes from the cursor on, at the given value of
  \<open>at_line_start\<close>. The result is the scan state left, how far the cursor (and the scanned-bytes
  counter, which moves with it) went, and whether it stopped at an event boundary.
\<close>

fun scan_loop :: "bool \<Rightarrow> bytes \<Rightarrow> scan_state \<times> nat \<times> bool" where
  "scan_loop b [] = (\<lparr>at_line_start = b, pending_cr_blank = None\<rparr>, 0, False)"
| "scan_loop b [c] =
    (if c = CR then (\<lparr>at_line_start = b, pending_cr_blank = Some b\<rparr>, 1, False)
     else if c = LF then (scan_default, 1, b)
     else (\<lparr>at_line_start = False, pending_cr_blank = None\<rparr>, 1, False))"
| "scan_loop b (c # d # ds) =
    (if c = CR then
       (if d = LF then (if b then (scan_default, 2, True) else advance 2 (scan_loop True ds))
        else (if b then (scan_default, 1, True) else advance 1 (scan_loop True (d # ds))))
     else if c = LF then (if b then (scan_default, 1, True) else advance 1 (scan_loop True (d # ds)))
     else advance 1 (scan_loop False (d # ds)))"

definition next_boundary :: "scan_state \<Rightarrow> bytes \<Rightarrow> scan_state \<times> nat \<times> bool" where
  "next_boundary st bs =
    (case pending_cr_blank st of
       None \<Rightarrow> scan_loop (at_line_start st) bs
     | Some was_blank \<Rightarrow>
        (case bs of
           [] \<Rightarrow> (st, 0, False)
         | c # cs \<Rightarrow>
            if c = LF then (if was_blank then (scan_default, 1, True) else advance 1 (scan_loop True cs))
            else (if was_blank then (scan_default, 0, True) else scan_loop True bs)))"

definition finish_boundary_at_eof :: "scan_state \<Rightarrow> scan_state \<times> bool" where
  "finish_boundary_at_eof st =
    (scan_default, case pending_cr_blank st of None \<Rightarrow> False | Some b \<Rightarrow> b)"

section \<open>State\<close>

record sse_complexity =
  scanned_bytes :: usize
  copied_bytes :: usize
  allocations :: usize
  promoted_events :: usize

record pending_buffer =
  pb_bytes :: bytes
  pb_capacity :: usize
  pb_charge :: "reservation option"

record deferred_input =
  di_bytes :: charged_bytes
  di_end_stream :: bool

record sse_framer =
  fr_limits :: sse_limits
  fr_stream :: stream_id
  fr_pending :: pending_buffer
  fr_pending_scan :: scan_state
  fr_pending_complete :: bool
  fr_pending_complete_end_stream :: bool
  fr_deferred :: "deferred_input option"
  fr_first_event :: bool
  fr_failed :: bool
  fr_complexity :: sse_complexity

record ('v, 'k) fworld =
  w_visitor :: 'v
  w_sink :: 'k
  w_ledger :: ledger

type_synonym ('v, 'k) visitor =
  "event_view \<Rightarrow> 'v \<Rightarrow> 'k emitter \<Rightarrow> 'v \<times> 'k emitter \<times> (sse_error + unit)"

datatype feed_progress = ProgressComplete | ProgressNeedDrain usize
datatype feed_outcome = FeedComplete | FeedNeedDrain usize

definition pending_new :: pending_buffer where
  "pending_new = \<lparr>pb_bytes = [], pb_capacity = 0, pb_charge = None\<rparr>"

definition framer_new :: "sse_limits \<Rightarrow> stream_id \<Rightarrow> sse_error + sse_framer" where
  "framer_new L sid =
    and_then (limits_validate L) (\<lambda>_.
      Inr \<lparr>fr_limits = L, fr_stream = sid, fr_pending = pending_new, fr_pending_scan = scan_default,
        fr_pending_complete = False, fr_pending_complete_end_stream = False, fr_deferred = None,
        fr_first_event = True, fr_failed = False,
        fr_complexity = \<lparr>scanned_bytes = 0, copied_bytes = 0, allocations = 0, promoted_events = 0\<rparr>\<rparr>)"

section \<open>The pending buffer\<close>

definition pending_append ::
  "pending_buffer \<Rightarrow> bytes \<Rightarrow> sse_limits \<Rightarrow> stream_id \<Rightarrow> ledger \<Rightarrow> sse_complexity
   \<Rightarrow> pending_buffer \<times> ledger \<times> sse_complexity \<times> (sse_error + unit)" where
  "pending_append p input L sid l cx =
    (case checked_add (length (pb_bytes p)) (length input) of
       None \<Rightarrow> (p, l, cx, Inl PendingLimit)
     | Some required \<Rightarrow>
        if required > max_pending_bytes L \<or> required > max_event_bytes L then (p, l, cx, Inl PendingLimit)
        else if required > pb_capacity p then
          let capacity = min (max required (max (saturating_mul (pb_capacity p) 2) 1)) (max_pending_bytes L) in
          (case acquire l sid SseFrame capacity of
             (l', Inl _) \<Rightarrow> (p, l', cx, Inl SseBudgetExceeded)
           | (l', Inr r) \<Rightarrow>
              (\<lparr>pb_bytes = pb_bytes p @ input, pb_capacity = capacity, pb_charge = Some r\<rparr>,
               drop_option l' (pb_charge p),
               cx\<lparr>copied_bytes := wrapping_add (copied_bytes cx) (length (pb_bytes p) + length input),
                  allocations := wrapping_add (allocations cx) 1\<rparr>, Inr ()))
        else (p\<lparr>pb_bytes := pb_bytes p @ input\<rparr>, l,
              cx\<lparr>copied_bytes := wrapping_add (copied_bytes cx) (length input)\<rparr>, Inr ()))"

definition pending_release :: "pending_buffer \<Rightarrow> ledger \<Rightarrow> pending_buffer \<times> ledger" where
  "pending_release p l = (pending_new, drop_option l (pb_charge p))"

definition clear_event :: "pending_buffer \<Rightarrow> usize \<Rightarrow> ledger \<Rightarrow> pending_buffer \<times> ledger" where
  "clear_event p threshold l =
    (if pb_capacity p > threshold then pending_release p l else (p\<lparr>pb_bytes := []\<rparr>, l))"

section \<open>Dispatch\<close>

definition dispatch_event ::
  "('v, 'k) visitor \<Rightarrow> bytes \<Rightarrow> bool \<Rightarrow> sse_limits \<Rightarrow> stream_id \<Rightarrow> ('v, 'k) fworld \<Rightarrow> sse_complexity
   \<Rightarrow> ('v, 'k) fworld \<times> sse_complexity \<times> (sse_error + unit)" where
  "dispatch_event on_event raw first L sid w cx =
    (let view = \<lparr>ev_raw = raw, ev_strip_bom = first \<and> starts_with raw UTF8_BOM\<rparr>;
         m = \<lparr>em_raw = raw, em_limits = L, em_stream = sid, em_ledger = w_ledger w, em_sink = w_sink w,
              em_emitted = 0, em_emitted_bytes = 0, em_decided = False\<rparr>;
         (v', m', r) = on_event view (w_visitor w) m;
         w' = \<lparr>w_visitor = v', w_sink = em_sink m', w_ledger = em_ledger m'\<rparr>
     in case r of
          Inl e \<Rightarrow> (w', cx, Inl e)
        | Inr _ \<Rightarrow>
           if \<not> em_decided m' then (w', cx, Inl NoEmitterDecision)
           else (w', cx\<lparr>promoted_events := wrapping_add (promoted_events cx) (em_emitted m')\<rparr>, Inr ()))"

text \<open>Every dispatch of the framer: on success the next event is no longer the first.\<close>

definition dispatch ::
  "('v, 'k) visitor \<Rightarrow> bytes \<Rightarrow> sse_framer \<Rightarrow> ('v, 'k) fworld
   \<Rightarrow> sse_framer \<times> ('v, 'k) fworld \<times> (sse_error + unit)" where
  "dispatch on_event raw fr w =
    (case dispatch_event on_event raw (fr_first_event fr) (fr_limits fr) (fr_stream fr) w (fr_complexity fr) of
       (w', cx, Inl e) \<Rightarrow> (fr\<lparr>fr_complexity := cx\<rparr>, w', Inl e)
     | (w', cx, Inr _) \<Rightarrow> (fr\<lparr>fr_complexity := cx, fr_first_event := False\<rparr>, w', Inr ()))"

definition count_scanned :: "nat \<Rightarrow> sse_framer \<Rightarrow> sse_framer" where
  "count_scanned n fr = fr\<lparr>fr_complexity := (fr_complexity fr)
     \<lparr>scanned_bytes := wrapping_add (scanned_bytes (fr_complexity fr)) n\<rparr>\<rparr>"

definition append_pending ::
  "bytes \<Rightarrow> sse_framer \<Rightarrow> ('v, 'k) fworld \<Rightarrow> sse_framer \<times> ('v, 'k) fworld \<times> (sse_error + unit)" where
  "append_pending input fr w =
    (let (p, l, cx, r) = pending_append (fr_pending fr) input (fr_limits fr) (fr_stream fr) (w_ledger w) (fr_complexity fr)
     in (fr\<lparr>fr_pending := p, fr_complexity := cx\<rparr>, w\<lparr>w_ledger := l\<rparr>, r))"

definition clear_pending_event :: "sse_framer \<Rightarrow> ('v, 'k) fworld \<Rightarrow> sse_framer \<times> ('v, 'k) fworld" where
  "clear_pending_event fr w =
    (let (p, l) = clear_event (fr_pending fr) (retained_capacity_threshold (fr_limits fr)) (w_ledger w)
     in (fr\<lparr>fr_pending := p, fr_pending_scan := scan_default\<rparr>, w\<lparr>w_ledger := l\<rparr>))"

definition release_pending :: "sse_framer \<Rightarrow> ('v, 'k) fworld \<Rightarrow> sse_framer \<times> ('v, 'k) fworld" where
  "release_pending fr w =
    (let (p, l) = pending_release (fr_pending fr) (w_ledger w)
     in (fr\<lparr>fr_pending := p\<rparr>, w\<lparr>w_ledger := l\<rparr>))"

section \<open>Scanner facts\<close>

lemma advance_simps [simp]:
  "advance k (st, n, f) = (st, k + n, f)" "advance 0 r = r" "advance j (advance k r) = advance (j + k) r"
  by (auto simp: advance_def split: prod.splits)

lemma scan_default_sel [simp]: "at_line_start scan_default" "pending_cr_blank scan_default = None"
  by (simp_all add: scan_default_def)

lemma next_boundary_default [simp]: "next_boundary scan_default bs = scan_loop True bs"
  by (simp add: next_boundary_def)

lemma advance_eq: "advance k r = (st, n, f) \<longleftrightarrow> (\<exists>m. r = (st, m, f) \<and> n = k + m)"
  by (cases r) (auto simp: advance_def)

lemma scan_loop_found: "scan_loop b bs = (st, n, True) \<Longrightarrow> st = scan_default \<and> 0 < n \<and> n \<le> length bs"
proof (induction b bs arbitrary: n rule: scan_loop.induct)
  case (3 b c d ds)
  then show ?case by (auto simp: advance_eq split: if_splits)
qed (auto simp: scan_default_def split: if_splits)

lemma next_boundary_found:
  "next_boundary st bs = (st', n, True) \<Longrightarrow>
    st' = scan_default \<and> n \<le> length bs \<and> (n = 0 \<longrightarrow> pending_cr_blank st \<noteq> None)"
  by (auto simp: next_boundary_def advance_eq dest!: scan_loop_found split: option.splits list.splits if_splits)

section \<open>Feeding\<close>

text \<open>
  \<open>feed_direct\<close> from an event start on: \<open>rest\<close> are the bytes of the chunk from \<open>event_start\<close>,
  which is where the cursor is at the head of the loop, and \<open>off\<close> is \<open>event_start\<close> itself.
\<close>

function direct_loop ::
  "('v, 'k) visitor \<Rightarrow> sse_framer \<Rightarrow> ('v, 'k) fworld \<Rightarrow> scan_state \<Rightarrow> bytes \<Rightarrow> usize
   \<Rightarrow> sse_framer \<times> ('v, 'k) fworld \<times> (sse_error + feed_progress)" where
  "direct_loop on_event fr w scan rest off =
    (let (scan', n, found) = next_boundary scan rest; fr1 = count_scanned n fr in
     if \<not> found then
       (if rest = [] then (fr1, w, Inr ProgressComplete)
        else case append_pending rest fr1 w of
          (fr2, w2, Inl e) \<Rightarrow> (fr2, w2, Inl e)
        | (fr2, w2, Inr _) \<Rightarrow> (fr2\<lparr>fr_pending_scan := scan'\<rparr>, w2, Inr ProgressComplete))
     else if n > max_event_bytes (fr_limits fr) then (fr1, w, Inl EventLimit)
     else (case dispatch on_event (take n rest) fr1 w of
         (fr2, w2, Inl e) \<Rightarrow>
           (fr2, w2, if e = NeedDrain then Inr (ProgressNeedDrain off) else Inl e)
       | (fr2, w2, Inr _) \<Rightarrow> direct_loop on_event fr2 w2 scan' (drop n rest) (off + n)))"
  by pat_completeness auto

termination direct_loop
proof (relation "measure (\<lambda>(on_event, fr, w, scan, rest, off).
    2 * length rest + (if pending_cr_blank scan = None then 0 else 1))")
  fix on_event :: "('v, 'k) visitor" and fr w scan rest off x scan' y n found fr1 z fr2 za w2 b u
  assume "x = next_boundary scan rest" and nb: "(scan', y) = x" "(n, found) = y" and "\<not> \<not> found"
  then have "next_boundary scan rest = (scan', n, True)" by simp
  from next_boundary_found [OF this]
  show "((on_event, fr2, w2, scan', drop n rest, off + n), on_event, fr, w, scan, rest, off)
      \<in> measure (\<lambda>(on_event, fr, w, scan, rest, off).
          2 * length rest + (if pending_cr_blank scan = None then 0 else 1))"
    by (cases "n = 0") auto
qed simp

declare direct_loop.simps [simp del]

definition feed_direct ::
  "('v, 'k) visitor \<Rightarrow> bytes \<Rightarrow> sse_framer \<Rightarrow> ('v, 'k) fworld
   \<Rightarrow> sse_framer \<times> ('v, 'k) fworld \<times> (sse_error + feed_progress)" where
  "feed_direct on_event data fr w = direct_loop on_event fr w scan_default data 0"

definition feed_after_pending ::
  "('v, 'k) visitor \<Rightarrow> bytes \<Rightarrow> bool \<Rightarrow> sse_framer \<Rightarrow> ('v, 'k) fworld
   \<Rightarrow> sse_framer \<times> ('v, 'k) fworld \<times> (sse_error + feed_progress)" where
  "feed_after_pending on_event data end_stream fr w =
    (let (scan', n, found) = next_boundary (fr_pending_scan fr) data;
         fr1 = (count_scanned n fr)\<lparr>fr_pending_scan := scan'\<rparr>;
         append_end = (if found then n else length data) in
     case checked_add (length (pb_bytes (fr_pending fr1))) append_end of
       None \<Rightarrow> (fr1, w, Inl EventLimit)
     | Some event_bytes \<Rightarrow>
        if event_bytes > max_event_bytes (fr_limits fr1) then (fr1, w, Inl EventLimit)
        else (case append_pending (take append_end data) fr1 w of
            (fr2, w2, Inl e) \<Rightarrow> (fr2, w2, Inl e)
          | (fr2, w2, Inr _) \<Rightarrow>
             if \<not> found then (fr2, w2, Inr ProgressComplete)
             else (case dispatch on_event (pb_bytes (fr_pending fr2)) fr2 w2 of
                 (fr3, w3, Inl e) \<Rightarrow>
                   if e = NeedDrain
                   then (fr3\<lparr>fr_pending_complete := True,
                             fr_pending_complete_end_stream := end_stream \<and> n = length data\<rparr>,
                         w3, Inr (ProgressNeedDrain n))
                   else (fr3, w3, Inl e)
               | (fr3, w3, Inr _) \<Rightarrow>
                   (let (fr4, w4) = clear_pending_event fr3 w3 in
                    case feed_direct on_event (drop n data) fr4 w4 of
                      (fr5, w5, Inr (ProgressNeedDrain retain_from)) \<Rightarrow>
                        (fr5, w5, Inr (ProgressNeedDrain (n + retain_from)))
                    | (fr5, w5, r) \<Rightarrow> (fr5, w5, r)))))"

definition finish_eof ::
  "('v, 'k) visitor \<Rightarrow> sse_framer \<Rightarrow> ('v, 'k) fworld
   \<Rightarrow> sse_framer \<times> ('v, 'k) fworld \<times> (sse_error + feed_progress)" where
  "finish_eof on_event fr w =
    (if pb_bytes (fr_pending fr) = [] then (fr, w, Inr ProgressComplete)
     else let (scan', boundary) = finish_boundary_at_eof (fr_pending_scan fr);
              fr1 = fr\<lparr>fr_pending_scan := scan'\<rparr> in
       if boundary then
         (case dispatch on_event (pb_bytes (fr_pending fr1)) fr1 w of
            (fr2, w2, Inl e) \<Rightarrow>
              if e = NeedDrain
              then (fr2\<lparr>fr_pending_complete := True\<rparr>, w2, Inr (ProgressNeedDrain (length (pb_bytes (fr_pending fr2)))))
              else (fr2, w2, Inl e)
          | (fr2, w2, Inr _) \<Rightarrow>
              (let (fr3, w3) = release_pending fr2 w2 in (fr3, w3, Inr ProgressComplete)))
       else (case eof_policy_of (fr_limits fr) of
          Strict \<Rightarrow> (fr1, w, Inl IncompleteEventAtEof)
        | DropIncompleteObserver \<Rightarrow>
            (let (fr2, w2) = release_pending fr1 w in
             (fr2\<lparr>fr_pending_scan := scan_default\<rparr>, w2, Inr ProgressComplete))
        | ProviderFinalEvent \<Rightarrow>
            (case dispatch on_event (pb_bytes (fr_pending fr1)) fr1 w of
               (fr2, w2, Inl e) \<Rightarrow>
                 if e = NeedDrain
                 then (fr2\<lparr>fr_pending_complete := True\<rparr>, w2, Inr (ProgressNeedDrain (length (pb_bytes (fr_pending fr2)))))
                 else (fr2, w2, Inl e)
             | (fr2, w2, Inr _) \<Rightarrow>
                 (let (fr3, w3) = release_pending fr2 w2 in
                  (fr3\<lparr>fr_pending_scan := scan_default\<rparr>, w3, Inr ProgressComplete)))))"

text \<open>
  The input is owned: it is dropped when the call is over, unless it is kept whole as the
  deferred input.
\<close>

definition drop_input :: "charged_bytes \<Rightarrow> ('v, 'k) fworld \<Rightarrow> ('v, 'k) fworld" where
  "drop_input c w = w\<lparr>w_ledger := drop_chunk (w_ledger w) c\<rparr>"

definition retain_input ::
  "charged_bytes \<Rightarrow> usize \<Rightarrow> sse_framer \<Rightarrow> ('v, 'k) fworld \<Rightarrow> ('v, 'k) fworld \<times> (sse_error + charged_bytes)" where
  "retain_input input retain_from fr w =
    (if retain_from = 0 then
       (let (l, r) = cb_transfer_role (w_ledger w) input SseFrame in (w\<lparr>w_ledger := l\<rparr>, as_budget_error r))
     else
       (let (l, r) = copy_from_opaque (w_ledger w) (fr_stream fr) SseFrame (drop retain_from (cb_bytes input))
        in (drop_input input (w\<lparr>w_ledger := l\<rparr>), as_budget_error r)))"

definition process_owned ::
  "('v, 'k) visitor \<Rightarrow> charged_bytes \<Rightarrow> bool \<Rightarrow> sse_framer \<Rightarrow> ('v, 'k) fworld
   \<Rightarrow> sse_framer \<times> ('v, 'k) fworld \<times> (sse_error + feed_outcome)" where
  "process_owned on_event input end_stream fr w =
    (case (if pb_bytes (fr_pending fr) = [] then feed_direct on_event (cb_bytes input) fr w
           else feed_after_pending on_event (cb_bytes input) end_stream fr w) of
       (fr1, w1, Inl e) \<Rightarrow> (fr1, drop_input input w1, Inl e)
     | (fr1, w1, Inr (ProgressNeedDrain retain_from)) \<Rightarrow>
        if retain_from < length (cb_bytes input) then
          (case retain_input input retain_from fr1 w1 of
             (w2, Inl e) \<Rightarrow> (fr1, w2, Inl e)
           | (w2, Inr kept) \<Rightarrow>
              (fr1\<lparr>fr_deferred := Some \<lparr>di_bytes = kept, di_end_stream = end_stream\<rparr>\<rparr>, w2,
               Inr (FeedNeedDrain retain_from)))
        else
          (if end_stream then fr1\<lparr>fr_pending_complete_end_stream := True\<rparr> else fr1,
           drop_input input w1, Inr (FeedNeedDrain retain_from))
     | (fr1, w1, Inr ProgressComplete) \<Rightarrow>
        if end_stream then
          (case finish_eof on_event fr1 w1 of
             (fr2, w2, Inl e) \<Rightarrow> (fr2, drop_input input w2, Inl e)
           | (fr2, w2, Inr ProgressComplete) \<Rightarrow> (fr2, drop_input input w2, Inr FeedComplete)
           | (fr2, w2, Inr (ProgressNeedDrain _)) \<Rightarrow>
               (fr2\<lparr>fr_pending_complete_end_stream := True\<rparr>, drop_input input w2,
                Inr (FeedNeedDrain (length (cb_bytes input)))))
        else (fr1, drop_input input w1, Inr FeedComplete))"

definition drop_deferred :: "deferred_input option \<Rightarrow> ('v, 'k) fworld \<Rightarrow> ('v, 'k) fworld" where
  "drop_deferred d w = (case d of None \<Rightarrow> w | Some d \<Rightarrow> drop_input (di_bytes d) w)"

definition discard_partial :: "sse_framer \<Rightarrow> ('v, 'k) fworld \<Rightarrow> sse_framer \<times> ('v, 'k) fworld" where
  "discard_partial fr w =
    (let (fr1, w1) = release_pending fr w in
     (fr1\<lparr>fr_pending_scan := scan_default, fr_pending_complete := False,
          fr_pending_complete_end_stream := False, fr_deferred := None\<rparr>,
      drop_deferred (fr_deferred fr1) w1))"

definition fail_terminal :: "sse_framer \<Rightarrow> ('v, 'k) fworld \<Rightarrow> sse_framer \<times> ('v, 'k) fworld" where
  "fail_terminal fr w = discard_partial (fr\<lparr>fr_failed := True\<rparr>) w"

definition framer_reset :: "sse_framer \<Rightarrow> ('v, 'k) fworld \<Rightarrow> sse_framer \<times> ('v, 'k) fworld" where
  "framer_reset fr w =
    (let (fr1, w1) = discard_partial fr w in (fr1\<lparr>fr_first_event := True\<rparr>, w1))"

definition or_fail ::
  "sse_framer \<times> ('v, 'k) fworld \<times> (sse_error + feed_outcome)
   \<Rightarrow> sse_framer \<times> ('v, 'k) fworld \<times> (sse_error + feed_outcome)" where
  "or_fail x =
    (case x of
       (fr, w, Inr r) \<Rightarrow> (fr, w, Inr r)
     | (fr, w, Inl e) \<Rightarrow> (let (fr', w') = fail_terminal fr w in (fr', w', Inl e)))"

definition needs_drain :: "sse_framer \<Rightarrow> bool" where
  "needs_drain fr \<longleftrightarrow> fr_pending_complete fr \<or> fr_deferred fr \<noteq> None"

definition feed ::
  "('v, 'k) visitor \<Rightarrow> charged_bytes \<Rightarrow> bool \<Rightarrow> sse_framer \<Rightarrow> ('v, 'k) fworld
   \<Rightarrow> sse_framer \<times> ('v, 'k) fworld \<times> (sse_error + feed_outcome)" where
  "feed on_event input end_stream fr w =
    (if fr_failed fr then (fr, drop_input input w, Inl FramerFailed)
     else if needs_drain fr then (fr, drop_input input w, Inl DrainRequired)
     else or_fail (process_owned on_event input end_stream fr w))"

definition resume_deferred ::
  "('v, 'k) visitor \<Rightarrow> sse_framer \<Rightarrow> ('v, 'k) fworld
   \<Rightarrow> sse_framer \<times> ('v, 'k) fworld \<times> (sse_error + feed_outcome)" where
  "resume_deferred on_event fr w =
    (case fr_deferred fr of
       None \<Rightarrow> (fr, w, Inr FeedComplete)
     | Some d \<Rightarrow> process_owned on_event (di_bytes d) (di_end_stream d) (fr\<lparr>fr_deferred := None\<rparr>) w)"

definition resume_pending ::
  "('v, 'k) visitor \<Rightarrow> sse_framer \<Rightarrow> ('v, 'k) fworld
   \<Rightarrow> sse_framer \<times> ('v, 'k) fworld \<times> (sse_error + feed_outcome)" where
  "resume_pending on_event fr w =
    (case dispatch on_event (pb_bytes (fr_pending fr)) fr w of
       (fr1, w1, Inl e) \<Rightarrow> (fr1, w1, if e = NeedDrain then Inr (FeedNeedDrain 0) else Inl e)
     | (fr1, w1, Inr _) \<Rightarrow>
        (let (fr2, w2) = clear_pending_event fr1 w1;
             fr3 = fr2\<lparr>fr_pending_complete := False, fr_pending_complete_end_stream := False\<rparr> in
         if fr_pending_complete_end_stream fr2 then (fr3, w2, Inr FeedComplete)
         else resume_deferred on_event fr3 w2))"

definition resume ::
  "('v, 'k) visitor \<Rightarrow> sse_framer \<Rightarrow> ('v, 'k) fworld
   \<Rightarrow> sse_framer \<times> ('v, 'k) fworld \<times> (sse_error + feed_outcome)" where
  "resume on_event fr w =
    (if fr_failed fr then (fr, w, Inl FramerFailed)
     else or_fail (if fr_pending_complete fr then resume_pending on_event fr w
                   else resume_deferred on_event fr w))"

end
