(* ===== verification/Sse_Delivery.thy ===== *)
theory Sse_Delivery
  imports Sse_Framer
begin

text \<open>
  What the SSE framer delivers. The reference is \<open>split_events\<close> on the whole byte stream: cut at
  every event boundary, keep the unfinished rest. The framer, fed the same bytes in any chunks and
  interrupted by any number of blocked hand-offs, hands the visitor exactly these events, each
  once and in order.
\<close>

section \<open>The reference: one scan of the whole stream\<close>

function split_events :: "bytes \<Rightarrow> bytes list \<times> bytes" where
  "split_events bs =
    (let (st, n, found) = scan_loop True bs in
     if found then (let (es, r) = split_events (drop n bs) in (take n bs # es, r)) else ([], bs))"
  by pat_completeness auto

termination split_events
proof (relation "measure length")
  fix bs :: bytes and x st y n found
  assume "x = scan_loop True bs" "(st, y) = x" "(n, found) = y" found
  then have "scan_loop True bs = (st, n, True)" by simp
  from scan_loop_found [OF this] show "(drop n bs, bs) \<in> measure length" by auto
qed simp

declare split_events.simps [simp del]

lemma split_found:
  "scan_loop True bs = (st, n, True) \<Longrightarrow>
    split_events bs = (take n bs # fst (split_events (drop n bs)), snd (split_events (drop n bs)))"
  by (subst split_events.simps) (simp add: split_beta)

lemma split_unfinished: "scan_loop True bs = (st, n, False) \<Longrightarrow> split_events bs = ([], bs)"
  by (subst split_events.simps) simp

lemma split_Nil [simp]: "split_events [] = ([], [])"
  by (rule split_unfinished) simp

text \<open>Scanning a prefix without a boundary, and going on from the state it leaves.\<close>

lemma scan_loop_more:
  "scan_loop b p = (st, n, False) \<Longrightarrow>
    n = length p \<and> scan_loop b (p @ d) = advance (length p) (next_boundary st d)"
proof (induction b p arbitrary: st n rule: scan_loop.induct)
  case (1 b)
  then show ?case by (auto simp: next_boundary_def)
next
  case (2 b c)
  show ?case
  proof (cases d)
    case Nil
    then show ?thesis using 2 by (auto simp: next_boundary_def split: if_splits)
  next
    case (Cons x xs)
    then show ?thesis using 2 by (auto simp: next_boundary_def numeral_2_eq_2 split: if_splits)
  qed
next
  case (3 b c e ds)
  consider "c = CR" "e = LF" | "c = CR" "e \<noteq> LF" | "c = LF" | "c \<noteq> CR" "c \<noteq> LF" by blast
  then show ?case
  proof cases
    case 1
    then obtain m where m: "scan_loop True ds = (st, m, False)" "\<not> b" "n = 2 + m"
      using 3 by (auto simp: advance_eq split: if_splits)
    then show ?thesis using 3(1) [OF 1] 1 by (simp add: numeral_2_eq_2)
  next
    case 2
    then obtain m where m: "scan_loop True (e # ds) = (st, m, False)" "\<not> b" "n = 1 + m"
      using 3 by (auto simp: advance_eq split: if_splits)
    then show ?thesis using 3(2) [OF 2] 2 by simp
  next
    case lf: 3
    then obtain m where m: "scan_loop True (e # ds) = (st, m, False)" "\<not> b" "n = 1 + m"
      using 3 by (auto simp: advance_eq split: if_splits)
    then show ?thesis using 3(3) lf by simp
  next
    case 4
    then obtain m where m: "scan_loop False (e # ds) = (st, m, False)" "n = 1 + m"
      using 3 by (auto simp: advance_eq split: if_splits)
    then show ?thesis using 3(4) 4 by simp
  qed
qed

text \<open>A boundary found does not depend on what follows.\<close>

lemma scan_loop_prefix: "scan_loop b p = (st, n, True) \<Longrightarrow> scan_loop b (p @ d) = (st, n, True)"
proof (induction b p arbitrary: n rule: scan_loop.induct)
  case (2 b c)
  then show ?case by (cases d) (auto simp: scan_default_def split: if_splits)
next
  case (3 b c e ds)
  then show ?case by (auto simp: advance_eq split: if_splits)
qed simp

lemma split_append:
  "split_events (s @ d) =
    (fst (split_events s) @ fst (split_events (snd (split_events s) @ d)),
     snd (split_events (snd (split_events s) @ d)))"
proof (induction s rule: split_events.induct)
  case (1 s)
  obtain st n found where sc: "scan_loop True s = (st, n, found)" by (cases "scan_loop True s")
  show ?case
  proof (cases found)
    case True
    then have f: "scan_loop True s = (st, n, True)" using sc by simp
    have n: "n \<le> length s" using scan_loop_found [OF f] by simp
    have "scan_loop True (s @ d) = (st, n, True)" by (rule scan_loop_prefix [OF f])
    from split_found [OF this] split_found [OF f] show ?thesis using 1 [of "(st, n, found)"] sc True n by simp
  next
    case False
    then have "split_events s = ([], s)" using sc split_unfinished by simp
    then show ?thesis by simp
  qed
qed

lemma split_rest: "scan_loop True (snd (split_events s)) = (st, n, found) \<Longrightarrow> \<not> found"
proof (induction s rule: split_events.induct)
  case (1 s)
  obtain st' n' found' where sc: "scan_loop True s = (st', n', found')" by (cases "scan_loop True s")
  show ?case
  proof (cases found')
    case True
    then show ?thesis using 1 sc split_found [of s st' n'] by simp
  next
    case False
    then show ?thesis using 1(2) sc split_unfinished by simp
  qed
qed

definition unfinished_at :: "bytes \<Rightarrow> scan_state \<Rightarrow> bool" where
  "unfinished_at p st \<longleftrightarrow> scan_loop True p = (st, length p, False)"

lemma unfinished_more_found:
  assumes "unfinished_at p st" "next_boundary st d = (st', n, True)"
  shows "split_events (p @ d) = ((p @ take n d) # fst (split_events (drop n d)), snd (split_events (drop n d)))"
    and "n \<le> length d"
proof -
  have "scan_loop True (p @ d) = (st', length p + n, True)"
    using scan_loop_more [of True p st "length p" d] assms by (simp add: unfinished_at_def)
  from split_found [OF this] show "split_events (p @ d) =
      ((p @ take n d) # fst (split_events (drop n d)), snd (split_events (drop n d)))" by simp
  show "n \<le> length d" using next_boundary_found [OF assms(2)] by simp
qed

lemma unfinished_more:
  assumes "unfinished_at p st" "next_boundary st d = (st', n, False)"
  shows "split_events (p @ d) = ([], p @ d)" "unfinished_at (p @ d) st'"
proof -
  have sc: "scan_loop True (p @ d) = (st', length p + n, False)"
    using scan_loop_more [of True p st "length p" d] assms by (simp add: unfinished_at_def)
  then show "split_events (p @ d) = ([], p @ d)" by (rule split_unfinished)
  have "length p + n = length (p @ d)" using scan_loop_more [OF sc] by simp
  then show "unfinished_at (p @ d) st'" using sc by (simp add: unfinished_at_def)
qed

text \<open>What the end of the stream makes of an unfinished rest.\<close>

definition final_events :: "eof_policy \<Rightarrow> bytes \<Rightarrow> bytes list" where
  "final_events pol r =
    (if r = [] then []
     else if snd (finish_boundary_at_eof (fst (scan_loop True r))) \<or> pol = ProviderFinalEvent then [r] else [])"

definition stream_events :: "eof_policy \<Rightarrow> bytes \<Rightarrow> bool \<Rightarrow> bytes list" where
  "stream_events pol s ended =
    fst (split_events s) @ (if ended then final_events pol (snd (split_events s)) else [])"

section \<open>Visitors that keep a log\<close>

definition logs :: "('v \<Rightarrow> bytes list) \<Rightarrow> ('v, 'k) visitor \<Rightarrow> bool" where
  "logs log f \<longleftrightarrow> (\<forall>view v m v' m' r. f view v m = (v', m', r) \<longrightarrow>
     log v' = (case r of Inl _ \<Rightarrow> log v | Inr _ \<Rightarrow> log v @ [ev_raw view]))"

lemma logsD:
  "logs log f \<Longrightarrow> f view v m = (v', m', Inr u) \<Longrightarrow> log v' = log v @ [ev_raw view]"
  "logs log f \<Longrightarrow> f view v m = (v', m', Inl e) \<Longrightarrow> log v' = log v"
  by (auto simp: logs_def)

definition steady :: "sse_framer \<Rightarrow> sse_framer \<Rightarrow> bool" where
  "steady fr fr' \<longleftrightarrow> fr_limits fr' = fr_limits fr \<and> fr_stream fr' = fr_stream fr
     \<and> fr_pending_complete fr' = fr_pending_complete fr
     \<and> fr_pending_complete_end_stream fr' = fr_pending_complete_end_stream fr
     \<and> fr_deferred fr' = fr_deferred fr \<and> fr_failed fr' = fr_failed fr"

lemma steady_refl [simp]: "steady fr fr"
  by (simp add: steady_def)

lemma steady_trans: "steady a b \<Longrightarrow> steady b c \<Longrightarrow> steady a c"
  by (simp add: steady_def)

lemma dispatch_ok:
  assumes "logs log f" "dispatch f raw fr w = (fr', w', Inr u)"
  shows "log (w_visitor w') = log (w_visitor w) @ [raw]" "steady fr fr'"
    "fr_pending fr' = fr_pending fr" "fr_pending_scan fr' = fr_pending_scan fr"
  using assms
  by (auto simp: dispatch_def dispatch_event_def steady_def Let_def dest: logsD [OF assms(1)]
      split: prod.splits sum.splits if_splits)

lemma dispatch_blocked:
  assumes "logs log f" "dispatch f raw fr w = (fr', w', Inl NeedDrain)"
  shows "log (w_visitor w') = log (w_visitor w)" "steady fr fr'"
    "fr_pending fr' = fr_pending fr" "fr_pending_scan fr' = fr_pending_scan fr"
  using assms
  by (auto simp: dispatch_def dispatch_event_def steady_def Let_def dest: logsD [OF assms(1)]
      split: prod.splits sum.splits if_splits)

lemma append_pending_ok:
  assumes "append_pending input fr w = (fr', w', Inr u)"
  shows "pb_bytes (fr_pending fr') = pb_bytes (fr_pending fr) @ input" "steady fr fr'"
    "fr_pending_scan fr' = fr_pending_scan fr" "w_visitor w' = w_visitor w"
  using assms
  by (auto simp: append_pending_def pending_append_def steady_def Let_def
      split: prod.splits option.splits sum.splits if_splits)

lemma count_scanned_sel [simp]:
  "steady fr (count_scanned n fr)" "fr_pending (count_scanned n fr) = fr_pending fr"
  "fr_pending_scan (count_scanned n fr) = fr_pending_scan fr"
  by (simp_all add: count_scanned_def steady_def)

lemma clear_pending_event_ok:
  assumes "clear_pending_event fr w = (fr', w')"
  shows "pb_bytes (fr_pending fr') = []" "fr_pending_scan fr' = scan_default" "steady fr fr'"
    "w_visitor w' = w_visitor w"
  using assms
  by (auto simp: clear_pending_event_def clear_event_def pending_release_def pending_new_def steady_def
      split: prod.splits if_splits)

lemma release_pending_ok:
  assumes "release_pending fr w = (fr', w')"
  shows "pb_bytes (fr_pending fr') = []" "steady fr fr'" "w_visitor w' = w_visitor w"
    "fr_pending_scan fr' = fr_pending_scan fr"
  using assms by (auto simp: release_pending_def pending_release_def pending_new_def steady_def)

section \<open>One pass over a chunk\<close>

definition pending_bytes :: "sse_framer \<Rightarrow> bytes" where
  "pending_bytes fr = pb_bytes (fr_pending fr)"

text \<open>The scan state fits the pending bytes; irrelevant when there are none.\<close>

definition pending_ok :: "sse_framer \<Rightarrow> bool" where
  "pending_ok fr \<longleftrightarrow> (pending_bytes fr = [] \<or> unfinished_at (pending_bytes fr) (fr_pending_scan fr))"

lemma direct_loop_delivers:
  fixes f :: "('v, 'k) visitor"
  assumes logs: "logs log f" and empty: "pending_bytes fr = []"
    and run: "direct_loop f fr w scan_default rest off = (fr', w', Inr out)"
  shows "steady fr fr' \<and>
    (case out of
       ProgressComplete \<Rightarrow> log (w_visitor w') = log (w_visitor w) @ fst (split_events rest)
         \<and> pending_bytes fr' = snd (split_events rest) \<and> pending_ok fr'
     | ProgressNeedDrain k \<Rightarrow> \<exists>es. off \<le> k \<and> k - off < length rest \<and> pending_bytes fr' = []
         \<and> log (w_visitor w') = log (w_visitor w) @ es
         \<and> split_events rest = (es @ fst (split_events (drop (k - off) rest)), snd (split_events (drop (k - off) rest))))"
  using empty run
proof (induction "length rest" arbitrary: fr w rest off rule: less_induct)
  case less
  obtain scan' n found where nb: "scan_loop True rest = (scan', n, found)" by (cases "scan_loop True rest")
  show ?case
  proof (cases found)
    case False
    then have nb: "scan_loop True rest = (scan', n, False)" using nb by simp
    have split: "split_events rest = ([], rest)" by (rule split_unfinished [OF nb])
    have un: "unfinished_at rest scan'"
      using nb scan_loop_more [OF nb, of "[]"] by (simp add: unfinished_at_def)
    show ?thesis
    proof (cases "rest = []")
      case True
      then have "fr' = count_scanned n fr" "w' = w" "out = ProgressComplete"
        using less(3) nb by (auto simp: direct_loop.simps [of f fr])
      then show ?thesis using less(2) split True by (simp add: pending_bytes_def pending_ok_def)
    next
      case ne: False
      obtain fr2 w2 r where ap: "append_pending rest (count_scanned n fr) w = (fr2, w2, r)"
        by (cases "append_pending rest (count_scanned n fr) w") auto
      have "\<exists>u. r = Inr u" and eqs: "fr' = fr2\<lparr>fr_pending_scan := scan'\<rparr>" "w' = w2" "out = ProgressComplete"
        using less(3) nb ne ap by (auto simp: direct_loop.simps [of f fr] split: sum.splits)
      then obtain u where r: "append_pending rest (count_scanned n fr) w = (fr2, w2, Inr u)" using ap by auto
      note a = append_pending_ok [OF r]
      have "pb_bytes (fr_pending fr2) = rest" using a(1) less(2) by (simp add: pending_bytes_def)
      moreover have "steady fr fr2" using a(2) count_scanned_sel(1) steady_trans by blast
      ultimately show ?thesis
        using a(4) split un unfolding eqs by (simp add: pending_bytes_def pending_ok_def steady_def)
    qed
  next
    case True
    then have nb: "scan_loop True rest = (scan', n, True)" using nb by simp
    have n: "0 < n" "n \<le> length rest" "scan' = scan_default" using scan_loop_found [OF nb] by auto
    note split = split_found [OF nb]
    obtain fr2 w2 r where dp: "dispatch f (take n rest) (count_scanned n fr) w = (fr2, w2, r)"
      by (cases "dispatch f (take n rest) (count_scanned n fr) w") auto
    have lim: "\<not> n > max_event_bytes (fr_limits fr)"
      using less(3) nb by (auto simp: direct_loop.simps [of f fr])
    show ?thesis
    proof (cases r)
      case (Inl e)
      then have e: "e = NeedDrain" and eqs: "fr' = fr2" "w' = w2" "out = ProgressNeedDrain off"
        using less(3) nb dp lim by (auto simp: direct_loop.simps [of f fr] count_scanned_def split: if_splits)
      note b = dispatch_blocked [OF logs, of "take n rest" "count_scanned n fr" w fr2 w2]
      have "steady fr fr2" using b(2) dp Inl e count_scanned_sel(1) steady_trans by blast
      then show ?thesis
        using b dp Inl e less(2) n eqs by (auto simp: pending_bytes_def)
    next
      case (Inr u)
      then have go: "direct_loop f fr2 w2 scan_default (drop n rest) (off + n) = (fr', w', Inr out)"
        using less(3) nb dp lim n(3) by (simp add: direct_loop.simps [of f fr] count_scanned_def)
      note d = dispatch_ok [OF logs dp [unfolded Inr]]
      have st: "steady fr fr2" using d(2) count_scanned_sel(1) steady_trans by blast
      have "pending_bytes fr2 = []" using d(3) less(2) by (simp add: pending_bytes_def)
      from less(1) [OF _ this go] n
      have ih: "steady fr2 fr'" "case out of
          ProgressComplete \<Rightarrow> log (w_visitor w') = log (w_visitor w2) @ fst (split_events (drop n rest))
            \<and> pending_bytes fr' = snd (split_events (drop n rest)) \<and> pending_ok fr'
        | ProgressNeedDrain k \<Rightarrow> \<exists>es. off + n \<le> k \<and> k - (off + n) < length (drop n rest) \<and> pending_bytes fr' = []
            \<and> log (w_visitor w') = log (w_visitor w2) @ es
            \<and> split_events (drop n rest) = (es @ fst (split_events (drop (k - (off + n)) (drop n rest))),
                 snd (split_events (drop (k - (off + n)) (drop n rest))))"
        by auto
      show ?thesis
      proof (cases out)
        case ProgressComplete
        then show ?thesis using ih d(1) split steady_trans [OF st ih(1)] by simp
      next
        case (ProgressNeedDrain k)
        then obtain es where es: "off + n \<le> k" "k - (off + n) < length (drop n rest)" "pending_bytes fr' = []"
            "log (w_visitor w') = log (w_visitor w2) @ es"
            "split_events (drop n rest) = (es @ fst (split_events (drop (k - (off + n)) (drop n rest))),
                 snd (split_events (drop (k - (off + n)) (drop n rest))))"
          using ih(2) by auto
        have dd: "drop (k - (off + n)) (drop n rest) = drop (k - off) rest" using es(1) by simp
        have "off \<le> k" "k - off < length rest" using es(1,2) n by auto
        moreover have "log (w_visitor w') = log (w_visitor w) @ (take n rest # es)" using es(4) d(1) by simp
        moreover have "split_events rest = ((take n rest # es) @ fst (split_events (drop (k - off) rest)),
            snd (split_events (drop (k - off) rest)))"
          using split es(5) unfolding dd by simp
        ultimately show ?thesis using ProgressNeedDrain es(3) steady_trans [OF st ih(1)] by auto
      qed
    qed
  qed
qed

text \<open>
  The obligations after a call that took the bytes \<open>u\<close> (pending ones included) with end flag
  \<open>es\<close> and delivered \<open>ds\<close> of them: what the framer still holds accounts for the rest.
\<close>

definition deferred_events :: "eof_policy \<Rightarrow> sse_framer \<Rightarrow> bytes list" where
  "deferred_events pol fr =
    (case fr_deferred fr of None \<Rightarrow> []
     | Some d \<Rightarrow> stream_events pol (cb_bytes (di_bytes d)) (di_end_stream d))"

definition outstanding_events :: "eof_policy \<Rightarrow> sse_framer \<Rightarrow> bytes list" where
  "outstanding_events pol fr =
    (if fr_pending_complete fr
     then pending_bytes fr # (if fr_pending_complete_end_stream fr then [] else deferred_events pol fr)
     else deferred_events pol fr)"

definition rest_held :: "sse_framer \<Rightarrow> bytes" where
  "rest_held fr =
    (case fr_deferred fr of
       Some d \<Rightarrow> snd (split_events (cb_bytes (di_bytes d)))
     | None \<Rightarrow> if fr_pending_complete fr then [] else pending_bytes fr)"

definition flags_ok :: "sse_framer \<Rightarrow> bool \<Rightarrow> bool" where
  "flags_ok fr es \<longleftrightarrow>
     (case fr_deferred fr of
        Some d \<Rightarrow> di_end_stream d = es \<and> \<not> fr_pending_complete_end_stream fr
          \<and> (fr_pending_complete fr \<or> pending_bytes fr = [])
      | None \<Rightarrow> fr_pending_complete_end_stream fr = (es \<and> fr_pending_complete fr))
   \<and> (needs_drain fr \<or> pending_ok fr)"

definition held_ok :: "sse_framer \<Rightarrow> bytes \<Rightarrow> bool \<Rightarrow> bool" where
  "held_ok fr u es \<longleftrightarrow> (es \<or> snd (split_events u) = rest_held fr) \<and> flags_ok fr es"

definition framer_ok :: "sse_framer \<Rightarrow> bytes list \<Rightarrow> bytes \<Rightarrow> bool \<Rightarrow> bool" where
  "framer_ok fr ds u es \<longleftrightarrow> held_ok fr u es
     \<and> stream_events (eof_policy_of (fr_limits fr)) u es = ds @ outstanding_events (eof_policy_of (fr_limits fr)) fr"

definition idle :: "sse_framer \<Rightarrow> bool" where
  "idle fr \<longleftrightarrow> \<not> fr_pending_complete fr \<and> \<not> fr_pending_complete_end_stream fr \<and> fr_deferred fr = None"

text \<open>
  The two entry points of a chunk establish the same facts: delivered events, then either the
  unfinished tail is pending, or the blocked event starts the suffix to retain, or the blocked
  event has been completed in the pending buffer.
\<close>

definition chunk_result ::
  "sse_framer \<Rightarrow> bytes \<Rightarrow> bytes \<Rightarrow> bool \<Rightarrow> sse_framer \<Rightarrow> bytes list \<Rightarrow> feed_progress \<Rightarrow> bool" where
  "chunk_result fr p d es fr' ds out \<longleftrightarrow>
     fr_limits fr' = fr_limits fr \<and> fr_stream fr' = fr_stream fr \<and> fr_deferred fr' = None
   \<and> fr_failed fr' = fr_failed fr
   \<and> (case out of
        ProgressComplete \<Rightarrow> idle fr' \<and> ds = fst (split_events (p @ d))
          \<and> pending_bytes fr' = snd (split_events (p @ d)) \<and> pending_ok fr'
      | ProgressNeedDrain k \<Rightarrow> k \<le> length d \<and>
          (if fr_pending_complete fr'
           then ds = [] \<and> fr_pending_complete_end_stream fr' = (es \<and> k = length d)
             \<and> split_events (p @ d) = (pending_bytes fr' # fst (split_events (drop k d)), snd (split_events (drop k d)))
           else k < length d \<and> \<not> fr_pending_complete_end_stream fr' \<and> pending_bytes fr' = []
             \<and> split_events (p @ d) = (ds @ fst (split_events (drop k d)), snd (split_events (drop k d)))))"

lemma feed_direct_result:
  assumes "logs log f" "pending_bytes fr = []" "idle fr" "feed_direct f d fr w = (fr', w', Inr out)"
  shows "\<exists>ds. log (w_visitor w') = log (w_visitor w) @ ds \<and> chunk_result fr [] d es fr' ds out"
  using direct_loop_delivers [OF assms(1,2) assms(4) [unfolded feed_direct_def]] assms(3)
  by (cases out) (auto simp: chunk_result_def steady_def idle_def)

definition completed ::
  "('v, 'k) visitor \<Rightarrow> bytes \<Rightarrow> bool \<Rightarrow> nat \<Rightarrow> sse_framer \<Rightarrow> ('v, 'k) fworld
   \<Rightarrow> sse_framer \<Rightarrow> ('v, 'k) fworld \<Rightarrow> feed_progress \<Rightarrow> bool" where
  "completed f d es n fr2 w2 fr' w' out \<longleftrightarrow>
     (case dispatch f (pb_bytes (fr_pending fr2)) fr2 w2 of
        (fr3, w3, Inl e) \<Rightarrow> e = NeedDrain \<and> w' = w3 \<and> out = ProgressNeedDrain n \<and>
          fr' = fr3\<lparr>fr_pending_complete := True, fr_pending_complete_end_stream := es \<and> n = length d\<rparr>
      | (fr3, w3, Inr _) \<Rightarrow> (\<exists>fr4 w4 out4. clear_pending_event fr3 w3 = (fr4, w4)
          \<and> feed_direct f (drop n d) fr4 w4 = (fr', w', Inr out4)
          \<and> out = (case out4 of ProgressNeedDrain k \<Rightarrow> ProgressNeedDrain (n + k) | _ \<Rightarrow> out4)))"

lemma feed_after_pending_split:
  fixes f :: "('v, 'k) visitor"
  assumes "feed_after_pending f d es fr w = (fr', w', Inr out)"
    and "next_boundary (fr_pending_scan fr) d = (scan', n, found)"
  shows "\<exists>fr2 w2. append_pending (take (if found then n else length d) d)
      ((count_scanned n fr)\<lparr>fr_pending_scan := scan'\<rparr>) w = (fr2, w2, Inr ())
    \<and> (\<not> found \<longrightarrow> (fr', w', out) = (fr2, w2, ProgressComplete))
    \<and> (found \<longrightarrow> completed f d es n fr2 w2 fr' w' out)"
proof -
  let ?fr1 = "(count_scanned n fr)\<lparr>fr_pending_scan := scan'\<rparr>"
  obtain fr2 w2 r where ap: "append_pending (take (if found then n else length d) d) ?fr1 w = (fr2, w2, r)"
    by (cases "append_pending (take (if found then n else length d) d) ?fr1 w") auto
  then have r: "r = Inr ()"
    using assms by (auto simp: feed_after_pending_def Let_def split: option.splits if_splits sum.splits)
  obtain fr3 w3 r3 where dp: "dispatch f (pb_bytes (fr_pending fr2)) fr2 w2 = (fr3, w3, r3)"
    by (cases "dispatch f (pb_bytes (fr_pending fr2)) fr2 w2") auto
  obtain fr4 w4 where cl: "clear_pending_event fr3 w3 = (fr4, w4)" by (cases "clear_pending_event fr3 w3")
  have "append_pending (take (if found then n else length d) d) ?fr1 w = (fr2, w2, Inr ())" using ap r by simp
  moreover have "\<not> found \<longrightarrow> (fr', w', out) = (fr2, w2, ProgressComplete)"
  proof
    assume "\<not> found"
    then show "(fr', w', out) = (fr2, w2, ProgressComplete)"
      using assms ap r by (auto simp: feed_after_pending_def Let_def split: option.splits if_splits)
  qed
  moreover have "found \<longrightarrow> completed f d es n fr2 w2 fr' w' out"
  proof
    assume found
    then show "completed f d es n fr2 w2 fr' w' out"
      using assms ap r dp cl
      by (cases r3) (auto simp: completed_def feed_after_pending_def Let_def split: option.splits if_splits prod.splits
          sum.splits feed_progress.splits)
  qed
  ultimately show ?thesis by blast
qed

lemma feed_after_pending_result:
  assumes "logs log f" "idle fr" "pending_ok fr" "pending_bytes fr \<noteq> []"
    and run: "feed_after_pending f d es fr w = (fr', w', Inr out)"
  shows "\<exists>ds. log (w_visitor w') = log (w_visitor w) @ ds \<and> chunk_result fr (pending_bytes fr) d es fr' ds out"
proof -
  let ?p = "pending_bytes fr"
  have un: "unfinished_at ?p (fr_pending_scan fr)" using assms(3,4) by (simp add: pending_ok_def)
  obtain scan' n found where nb: "next_boundary (fr_pending_scan fr) d = (scan', n, found)"
    by (cases "next_boundary (fr_pending_scan fr) d") auto
  obtain fr2 w2 where
    ap: "append_pending (take (if found then n else length d) d) ((count_scanned n fr)\<lparr>fr_pending_scan := scan'\<rparr>) w
        = (fr2, w2, Inr ())"
    and nf: "\<not> found \<Longrightarrow> (fr', w', out) = (fr2, w2, ProgressComplete)"
    and fd: "found \<Longrightarrow> completed f d es n fr2 w2 fr' w' out"
    using feed_after_pending_split [OF run nb] by blast
  note a = append_pending_ok [OF ap]
  have st2: "steady fr fr2" using a(2) by (simp add: steady_def count_scanned_def)
  show ?thesis
  proof (cases found)
    case False
    have b: "pending_bytes fr2 = ?p @ d" "fr_pending_scan fr2 = scan'"
      using a(1,3) False by (auto simp: pending_bytes_def)
    note m = unfinished_more [OF un nb [unfolded False [THEN eq_False [THEN iffD2]]]]
    have "chunk_result fr ?p d es fr2 [] ProgressComplete"
      using m b st2 assms(2) by (simp add: chunk_result_def steady_def idle_def pending_ok_def)
    then show ?thesis using nf [OF False] a(4) by auto
  next
    case True
    note nb = nb [unfolded True [THEN eq_True [THEN iffD2]]]
    note m = unfinished_more_found [OF un nb]
    have b: "pending_bytes fr2 = ?p @ take n d" using a(1) True by (simp add: pending_bytes_def)
    obtain fr3 w3 r3 where dp: "dispatch f (pending_bytes fr2) fr2 w2 = (fr3, w3, r3)"
      by (cases "dispatch f (pending_bytes fr2) fr2 w2") auto
    show ?thesis
    proof (cases r3)
      case (Inl e)
      then have e: "e = NeedDrain" "w' = w3" "out = ProgressNeedDrain n"
        "fr' = fr3\<lparr>fr_pending_complete := True, fr_pending_complete_end_stream := es \<and> n = length d\<rparr>"
        using fd [OF True] dp by (auto simp: completed_def pending_bytes_def)
      note bl = dispatch_blocked [OF assms(1) dp [unfolded Inl e(1)]]
      have "chunk_result fr ?p d es fr' [] out"
        using m b bl st2 assms(2) unfolding e
        by (simp add: chunk_result_def steady_def idle_def pending_bytes_def)
      then show ?thesis using bl(1) a(4) e(2) by auto
    next
      case (Inr u)
      note d = dispatch_ok [OF assms(1) dp [unfolded Inr]]
      obtain fr4 w4 out4 where cl: "clear_pending_event fr3 w3 = (fr4, w4)"
        and go: "feed_direct f (drop n d) fr4 w4 = (fr', w', Inr out4)"
        and out: "out = (case out4 of ProgressNeedDrain k \<Rightarrow> ProgressNeedDrain (n + k) | _ \<Rightarrow> out4)"
        using fd [OF True] dp Inr by (auto simp: completed_def pending_bytes_def)
      note c = clear_pending_event_ok [OF cl]
      have st4: "steady fr fr4" using st2 d(2) c(3) steady_trans by blast
      have "pending_bytes fr4 = []" "idle fr4" using c(1) st4 assms(2) by (auto simp: pending_bytes_def steady_def idle_def)
      from feed_direct_result [OF assms(1) this go, of es] obtain ds where
        ds: "log (w_visitor w') = log (w_visitor w4) @ ds" "chunk_result fr4 [] (drop n d) es fr' ds out4" by blast
      have lg: "log (w_visitor w') = log (w_visitor w) @ ((?p @ take n d) # ds)"
        using ds(1) c(4) d(1) a(4) b by simp
      have "\<not> fr_pending_complete fr'"
        using direct_loop_delivers [OF assms(1) \<open>pending_bytes fr4 = []\<close> go [unfolded feed_direct_def]] \<open>idle fr4\<close>
        by (simp add: steady_def idle_def)
      then have "chunk_result fr ?p d es fr' ((?p @ take n d) # ds) out"
        using ds(2) m st4 out
        by (cases out4) (auto simp: chunk_result_def steady_def idle_def add.commute)
      then show ?thesis using lg by blast
    qed
  qed
qed

section \<open>End of stream and whole calls\<close>

lemma finish_eof_result:
  assumes "logs log f" "idle fr" "pending_ok fr" "finish_eof f fr w = (fr', w', Inr out)"
  shows "fr_limits fr' = fr_limits fr \<and> fr_failed fr' = fr_failed fr \<and> fr_deferred fr' = None
    \<and> \<not> fr_pending_complete_end_stream fr' \<and>
    (case out of
       ProgressComplete \<Rightarrow> \<not> fr_pending_complete fr' \<and> pending_bytes fr' = []
         \<and> log (w_visitor w') = log (w_visitor w) @ final_events (eof_policy_of (fr_limits fr)) (pending_bytes fr)
     | ProgressNeedDrain _ \<Rightarrow> fr_pending_complete fr' \<and> pending_bytes fr' = pending_bytes fr
         \<and> log (w_visitor w') = log (w_visitor w)
         \<and> final_events (eof_policy_of (fr_limits fr)) (pending_bytes fr) = [pending_bytes fr])"
proof (cases "pending_bytes fr = []")
  case True
  then show ?thesis using assms(2,4) by (auto simp: finish_eof_def idle_def pending_bytes_def final_events_def)
next
  case False
  let ?b = "snd (finish_boundary_at_eof (fr_pending_scan fr))"
  let ?pol = "eof_policy_of (fr_limits fr)"
  let ?fr1 = "fr\<lparr>fr_pending_scan := fst (finish_boundary_at_eof (fr_pending_scan fr))\<rparr>"
  have un: "scan_loop True (pending_bytes fr) = (fr_pending_scan fr, length (pending_bytes fr), False)"
    using assms(3) False by (simp add: pending_ok_def unfinished_at_def)
  have fin: "final_events ?pol (pending_bytes fr) = (if ?b \<or> ?pol = ProviderFinalEvent then [pending_bytes fr] else [])"
    using False un by (simp add: final_events_def)
  obtain fr2 w2 r where dp: "dispatch f (pending_bytes fr) ?fr1 w = (fr2, w2, r)"
    by (cases "dispatch f (pending_bytes fr) ?fr1 w") auto
  obtain fr3 w3 where rl: "release_pending fr2 w2 = (fr3, w3)" by (cases "release_pending fr2 w2")
  obtain fr4 w4 where rl': "release_pending ?fr1 w = (fr4, w4)" by (cases "release_pending ?fr1 w")
  show ?thesis
  proof (cases "?b \<or> ?pol = ProviderFinalEvent")
    case True
    show ?thesis
    proof (cases r)
      case (Inl e)
      then have e: "e = NeedDrain" "w' = w2" "fr' = fr2\<lparr>fr_pending_complete := True\<rparr>" "\<exists>k. out = ProgressNeedDrain k"
        using assms(4) False True dp
        by (auto simp: finish_eof_def pending_bytes_def Let_def split: prod.splits if_splits)
      note b = dispatch_blocked [OF assms(1) dp [unfolded Inl e(1)]]
      show ?thesis using b e fin True assms(2) by (auto simp: pending_bytes_def steady_def idle_def)
    next
      case (Inr u)
      note d = dispatch_ok [OF assms(1) dp [unfolded Inr]]
      note c = release_pending_ok [OF rl]
      have e: "w' = w3" "out = ProgressComplete" "pending_bytes fr' = pending_bytes fr3" "steady fr3 fr'"
        using assms(4) False True dp Inr rl
        by (auto simp: finish_eof_def pending_bytes_def Let_def steady_def split: prod.splits if_splits)
      show ?thesis
        using d c e fin True assms(2) by (simp add: pending_bytes_def steady_def idle_def)
    qed
  next
    case no: False
    note c = release_pending_ok [OF rl']
    have "?pol = DropIncompleteObserver \<and> w' = w4 \<and> out = ProgressComplete
        \<and> pending_bytes fr' = pending_bytes fr4 \<and> steady fr4 fr'"
      using assms(4) False no rl'
      by (auto simp: finish_eof_def pending_bytes_def Let_def steady_def split: prod.splits if_splits eof_policy.splits)
    then show ?thesis using c fin no assms(2) by (simp add: pending_bytes_def steady_def idle_def)
  qed
qed

lemma cb_transfer_bytes: "cb_transfer_role l c role = (l', Inr c') \<Longrightarrow> cb_bytes c' = cb_bytes c"
  by (auto simp: cb_transfer_role_def Let_def split: prod.splits sum.splits)

lemma as_budget_error_Inr: "as_budget_error r = Inr x \<longleftrightarrow> r = Inr x"
  by (cases r) auto

lemma retain_input_ok:
  assumes "retain_input input k fr w = (w', Inr kept)"
  shows "cb_bytes kept = drop k (cb_bytes input)" "w_visitor w' = w_visitor w"
  using assms
  by (auto simp: retain_input_def drop_input_def as_budget_error_Inr
      dest: cb_transfer_bytes copy_made(1) split: if_splits prod.splits)

lemma drop_input_visitor [simp]: "w_visitor (drop_input c w) = w_visitor w"
  by (simp add: drop_input_def)

lemma process_chunk:
  assumes "logs log f" "idle fr" "pending_ok fr"
    and "(if pb_bytes (fr_pending fr) = [] then feed_direct f d fr w
          else feed_after_pending f d es fr w) = (fr1, w1, Inr out)"
  shows "\<exists>ds. log (w_visitor w1) = log (w_visitor w) @ ds \<and> chunk_result fr (pending_bytes fr) d es fr1 ds out"
proof (cases "pb_bytes (fr_pending fr) = []")
  case True
  then have e: "pending_bytes fr = []" by (simp add: pending_bytes_def)
  show ?thesis using feed_direct_result [OF assms(1) e assms(2)] assms(4) True unfolding e by simp
next
  case False
  then show ?thesis using feed_after_pending_result [OF assms(1-3)] assms(4) by (simp add: pending_bytes_def)
qed

lemma process_owned_deferred:
  assumes c: "chunk_result fr p (cb_bytes input) es fr1 ds (ProgressNeedDrain k)"
    and k: "k < length (cb_bytes input)" "cb_bytes kept = drop k (cb_bytes input)"
  shows "framer_ok (fr1\<lparr>fr_deferred := Some \<lparr>di_bytes = kept, di_end_stream = es\<rparr>\<rparr>) ds (p @ cb_bytes input) es"
  using c k
  by (cases "fr_pending_complete fr1")
    (auto simp: chunk_result_def framer_ok_def held_ok_def flags_ok_def rest_held_def outstanding_events_def
      deferred_events_def stream_events_def needs_drain_def pending_bytes_def)

lemma process_owned_at_boundary:
  assumes c: "chunk_result fr p d es fr1 ds (ProgressNeedDrain k)" and k: "\<not> k < length d"
    and fr': "fr' = (if es then fr1\<lparr>fr_pending_complete_end_stream := True\<rparr> else fr1)"
  shows "framer_ok fr' ds (p @ d) es"
proof -
  have pc: "fr_pending_complete fr1" and "k = length d" using c k by (auto simp: chunk_result_def split: if_splits)
  then show ?thesis using c fr'
    by (auto simp: chunk_result_def framer_ok_def held_ok_def flags_ok_def rest_held_def outstanding_events_def
        deferred_events_def stream_events_def needs_drain_def pending_bytes_def final_events_def)
qed

lemma process_owned_result:
  assumes logs: "logs log f" and "idle fr" "pending_ok fr"
    and run: "process_owned f input es fr w = (fr', w', Inr out)"
  shows "\<exists>ds. log (w_visitor w') = log (w_visitor w) @ ds
    \<and> framer_ok fr' ds (pending_bytes fr @ cb_bytes input) es
    \<and> fr_limits fr' = fr_limits fr \<and> fr_failed fr' = fr_failed fr
    \<and> (out = FeedComplete \<longrightarrow> \<not> needs_drain fr')"
proof -
  let ?d = "cb_bytes input"
  let ?u = "pending_bytes fr @ ?d"
  obtain fr1 w1 r1 where step: "(if pb_bytes (fr_pending fr) = [] then feed_direct f ?d fr w
      else feed_after_pending f ?d es fr w) = (fr1, w1, r1)"
    by (metis prod_cases3)
  note run' = run [unfolded process_owned_def step]
  obtain p1 where r1: "r1 = Inr p1" using run' by (cases r1) auto
  obtain ds where ds: "log (w_visitor w1) = log (w_visitor w) @ ds"
    and c: "chunk_result fr (pending_bytes fr) ?d es fr1 ds p1"
    using process_chunk [OF assms(1-3) step [unfolded r1]] by blast
  have lim: "fr_limits fr1 = fr_limits fr" "fr_failed fr1 = fr_failed fr" using c by (auto simp: chunk_result_def)
  show ?thesis
  proof (cases p1)
    case (ProgressNeedDrain k)
    note c = c [unfolded ProgressNeedDrain]
    show ?thesis
    proof (cases "k < length ?d")
      case True
      then obtain kept where kept: "retain_input input k fr1 w1 = (w', Inr kept)"
        and fr': "fr' = fr1\<lparr>fr_deferred := Some \<lparr>di_bytes = kept, di_end_stream = es\<rparr>\<rparr>" "out = FeedNeedDrain k"
        using run' r1 ProgressNeedDrain by (auto split: prod.splits sum.splits)
      show ?thesis
        using process_owned_deferred [OF c True retain_input_ok(1) [OF kept]] retain_input_ok(2) [OF kept]
          ds lim fr' by auto
    next
      case False
      then have fr': "fr' = (if es then fr1\<lparr>fr_pending_complete_end_stream := True\<rparr> else fr1)"
        "w' = drop_input input w1" "out = FeedNeedDrain k"
        using run' r1 ProgressNeedDrain by auto
      show ?thesis using process_owned_at_boundary [OF c False fr'(1)] ds lim fr' by auto
    qed
  next
    case ProgressComplete
    note c = c [unfolded ProgressComplete]
    have fin: "idle fr1" "pending_ok fr1" "ds = fst (split_events ?u)" "pending_bytes fr1 = snd (split_events ?u)"
      using c by (auto simp: chunk_result_def)
    show ?thesis
    proof (cases es)
      case False
      then have "fr' = fr1" "w' = drop_input input w1" "out = FeedComplete"
        using run' r1 ProgressComplete by auto
      then show ?thesis using fin ds lim False
        by (auto simp: framer_ok_def held_ok_def flags_ok_def rest_held_def outstanding_events_def deferred_events_def
            stream_events_def needs_drain_def idle_def)
    next
      case True
      obtain fr2 w2 p2 where fe: "finish_eof f fr1 w1 = (fr2, w2, Inr p2)"
        using run' r1 ProgressComplete True by (auto split: prod.splits sum.splits)
      note e = finish_eof_result [OF logs fin(1,2) fe]
      show ?thesis
      proof (cases p2)
        case ProgressComplete
        then have eqs: "fr' = fr2" "w' = drop_input input w2" "out = FeedComplete"
          using run' r1 \<open>p1 = _\<close> True fe by auto
        have "log (w_visitor w') = log (w_visitor w) @ (ds @ final_events (eof_policy_of (fr_limits fr1)) (pending_bytes fr1))"
          using e ds ProgressComplete eqs by simp
        moreover have "framer_ok fr' (ds @ final_events (eof_policy_of (fr_limits fr1)) (pending_bytes fr1)) ?u es"
          using e fin True ProgressComplete eqs
          by (auto simp: framer_ok_def held_ok_def flags_ok_def rest_held_def outstanding_events_def deferred_events_def
              stream_events_def needs_drain_def pending_ok_def)
        ultimately show ?thesis using e eqs lim ProgressComplete by (auto simp: needs_drain_def)
      next
        case (ProgressNeedDrain k)
        then have eqs: "fr' = fr2\<lparr>fr_pending_complete_end_stream := True\<rparr>" "w' = drop_input input w2"
          "out = FeedNeedDrain (length ?d)"
          using run' r1 \<open>p1 = _\<close> True fe by auto
        have "framer_ok fr' ds ?u es"
          using e fin True ProgressNeedDrain eqs
          by (auto simp: framer_ok_def held_ok_def flags_ok_def rest_held_def outstanding_events_def deferred_events_def
              stream_events_def needs_drain_def pending_bytes_def)
        then show ?thesis using e eqs lim ds ProgressNeedDrain by auto
      qed
    qed
  qed
qed

lemma or_fail_Inr: "or_fail x = (fr', w', Inr out) \<longleftrightarrow> x = (fr', w', Inr out)"
  by (cases x) (auto simp: or_fail_def Let_def split: prod.splits sum.splits)

text \<open>Feeding: the events of the longer stream are those already delivered and those of the new part.\<close>

lemma stream_events_append:
  "stream_events pol (s @ d) es =
    fst (split_events s) @ stream_events pol (snd (split_events s) @ d) es"
  by (simp add: stream_events_def split_append [of s d])

lemma split_rest_append:
  "snd (split_events (s @ d)) = snd (split_events (snd (split_events s) @ d))"
  by (simp add: split_append [of s d])

lemma framer_ok_shift:
  assumes "framer_ok fr ds' u es" and "es \<or> snd (split_events s) = snd (split_events u)"
    and "stream_events (eof_policy_of (fr_limits fr)) s es = ds @ stream_events (eof_policy_of (fr_limits fr)) u es"
  shows "framer_ok fr (ds @ ds') s es"
  using assms by (auto simp: framer_ok_def held_ok_def)

lemma framer_ok_cong:
  assumes "steady fr fr'" "fr_pending fr' = fr_pending fr" "fr_pending_scan fr' = fr_pending_scan fr"
  shows "framer_ok fr' ds s es \<longleftrightarrow> framer_ok fr ds s es"
proof -
  have "pending_bytes fr' = pending_bytes fr" using assms(2) by (simp add: pending_bytes_def)
  then have "rest_held fr' = rest_held fr" "flags_ok fr' es = flags_ok fr es"
    "outstanding_events pol fr' = outstanding_events pol fr" for pol
    using assms
    by (simp_all add: steady_def rest_held_def flags_ok_def needs_drain_def pending_ok_def
        outstanding_events_def deferred_events_def cong: option.case_cong)
  then show ?thesis using assms(1) by (simp add: framer_ok_def held_ok_def steady_def)
qed

lemma framer_ok_events:
  "framer_ok fr ds s es \<Longrightarrow>
    stream_events (eof_policy_of (fr_limits fr)) s es = ds @ outstanding_events (eof_policy_of (fr_limits fr)) fr"
  by (simp add: framer_ok_def)

lemma framer_ok_rest: "framer_ok fr ds s es \<Longrightarrow> es \<or> snd (split_events s) = rest_held fr"
  by (simp add: framer_ok_def held_ok_def)

lemma framer_ok_deferred:
  "framer_ok fr ds s es \<Longrightarrow> fr_deferred fr = Some d \<Longrightarrow>
    di_end_stream d = es \<and> \<not> fr_pending_complete_end_stream fr
    \<and> (fr_pending_complete fr \<or> pending_bytes fr = [])"
  by (simp add: framer_ok_def held_ok_def flags_ok_def)

text \<open>The completed pending event is delivered and cleared.\<close>

lemma framer_ok_deliver:
  assumes ok: "framer_ok fr ds s es" and pc: "fr_pending_complete fr"
    and same: "fr_limits fr' = fr_limits fr" "fr_deferred fr' = fr_deferred fr"
    and cleared: "\<not> fr_pending_complete fr'" "\<not> fr_pending_complete_end_stream fr'" "pending_bytes fr' = []"
  shows "framer_ok fr' (ds @ [pending_bytes fr]) s es"
proof (cases "fr_deferred fr")
  case None
  then show ?thesis
    using framer_ok_events [OF ok] framer_ok_rest [OF ok] pc same cleared
    by (simp add: framer_ok_def held_ok_def flags_ok_def outstanding_events_def deferred_events_def rest_held_def
        pending_ok_def split: if_splits)
next
  case (Some d)
  then show ?thesis
    using framer_ok_events [OF ok] framer_ok_rest [OF ok] framer_ok_deferred [OF ok Some] pc same cleared
    by (simp add: framer_ok_def held_ok_def flags_ok_def outstanding_events_def deferred_events_def rest_held_def
        needs_drain_def)
qed

lemma framer_ok_extend:
  assumes "framer_ok fr ds (snd (split_events s) @ d) es"
  shows "framer_ok fr (fst (split_events s) @ ds) (s @ d) es"
  using assms by (simp add: framer_ok_def held_ok_def stream_events_append [of _ s] split_rest_append [of s])

lemma feed_result:
  assumes logs: "logs log f" and ok: "framer_ok fr ds s False"
    and run: "feed f input es fr w = (fr', w', Inr out)"
  shows "\<exists>es'. log (w_visitor w') = log (w_visitor w) @ es'
    \<and> framer_ok fr' (ds @ es') (s @ cb_bytes input) es
    \<and> fr_limits fr' = fr_limits fr \<and> (out = FeedComplete \<longrightarrow> \<not> needs_drain fr')"
proof -
  have nd: "\<not> needs_drain fr" and go: "process_owned f input es fr w = (fr', w', Inr out)"
    using run by (auto simp: feed_def or_fail_Inr split: if_splits)
  have "\<not> fr_pending_complete_end_stream fr"
    using ok nd by (simp add: framer_ok_def held_ok_def flags_ok_def needs_drain_def)
  then have idle: "idle fr" "pending_ok fr" and rest: "snd (split_events s) = pending_bytes fr"
    and ds: "ds = fst (split_events s)"
    using nd ok by (auto simp: idle_def needs_drain_def framer_ok_def held_ok_def flags_ok_def rest_held_def
        stream_events_def outstanding_events_def deferred_events_def)
  show ?thesis
    using process_owned_result [OF logs idle go] framer_ok_extend [of fr' _ s "cb_bytes input" es]
    unfolding rest ds by blast
qed

lemma resume_deferred_result:
  assumes logs: "logs log f" and ok: "framer_ok fr ds s es"
    and pc: "\<not> fr_pending_complete fr" "\<not> fr_pending_complete_end_stream fr"
    and run: "resume_deferred f fr w = (fr', w', Inr out)"
  shows "\<exists>es'. log (w_visitor w') = log (w_visitor w) @ es' \<and> framer_ok fr' (ds @ es') s es
    \<and> fr_limits fr' = fr_limits fr \<and> (out = FeedComplete \<longrightarrow> \<not> needs_drain fr')"
proof (cases "fr_deferred fr")
  case None
  then show ?thesis using run ok pc by (auto simp: resume_deferred_def needs_drain_def)
next
  case (Some d)
  let ?fr = "fr\<lparr>fr_deferred := None\<rparr>"
  have d: "di_end_stream d = es" "pending_bytes fr = []" using framer_ok_deferred [OF ok Some] pc by auto
  have go: "process_owned f (di_bytes d) es ?fr w = (fr', w', Inr out)"
    using run Some d(1) by (simp add: resume_deferred_def)
  have pend: "pending_bytes ?fr = []" using d(2) by (simp add: pending_bytes_def)
  then have idle: "idle ?fr" "pending_ok ?fr" using pc by (simp_all add: idle_def pending_ok_def)
  from process_owned_result [OF logs idle go] obtain ds' where
    ds': "log (w_visitor w') = log (w_visitor w) @ ds'" "framer_ok fr' ds' (cb_bytes (di_bytes d)) es"
    "fr_limits fr' = fr_limits fr" "out = FeedComplete \<longrightarrow> \<not> needs_drain fr'"
    unfolding pend by auto
  have "framer_ok fr' (ds @ ds') s es"
    using framer_ok_shift [OF ds'(2)] framer_ok_events [OF ok] framer_ok_rest [OF ok] ds'(3) Some d pc
    by (simp add: rest_held_def outstanding_events_def deferred_events_def)
  then show ?thesis using ds' by blast
qed

lemma resume_pending_result:
  assumes logs: "logs log f" and ok: "framer_ok fr ds s es" and pc: "fr_pending_complete fr"
    and run: "resume_pending f fr w = (fr', w', Inr out)"
  shows "\<exists>es'. log (w_visitor w') = log (w_visitor w) @ es' \<and> framer_ok fr' (ds @ es') s es
    \<and> fr_limits fr' = fr_limits fr \<and> (out = FeedComplete \<longrightarrow> \<not> needs_drain fr')"
proof -
  obtain fr1 w1 r where dp: "dispatch f (pending_bytes fr) fr w = (fr1, w1, r)"
    by (cases "dispatch f (pending_bytes fr) fr w") auto
  note run' = run [unfolded resume_pending_def dp [unfolded pending_bytes_def]]
  show ?thesis
  proof (cases r)
    case (Inl e)
    then have e: "e = NeedDrain" "fr' = fr1" "w' = w1" "out = FeedNeedDrain 0" using run' by (auto split: if_splits)
    note b = dispatch_blocked [OF logs dp [unfolded Inl e(1)]]
    have "framer_ok fr' ds s es" using ok framer_ok_cong [OF b(2-4)] by (simp add: e(2))
    then show ?thesis using b e by (auto simp: steady_def)
  next
    case (Inr u)
    note d = dispatch_ok [OF logs dp [unfolded Inr]]
    obtain fr2 w2 where cl: "clear_pending_event fr1 w1 = (fr2, w2)" by (cases "clear_pending_event fr1 w1")
    note c = clear_pending_event_ok [OF cl]
    have st: "steady fr fr2" using d(2) c(3) steady_trans by blast
    let ?fr3 = "fr2\<lparr>fr_pending_complete := False, fr_pending_complete_end_stream := False\<rparr>"
    have lg: "log (w_visitor w2) = log (w_visitor w) @ [pending_bytes fr]" using d(1) c(4) by simp
    have ok3: "framer_ok ?fr3 (ds @ [pending_bytes fr]) s es"
      using st c(1) by (intro framer_ok_deliver [OF ok pc]) (auto simp: steady_def pending_bytes_def)
    show ?thesis
    proof (cases "fr_pending_complete_end_stream fr2")
      case True
      then have e: "fr' = ?fr3" "w' = w2" "out = FeedComplete" using run' Inr cl by auto
      have "fr_pending_complete_end_stream fr" using True st by (simp add: steady_def)
      then have "fr_deferred fr = None" using framer_ok_deferred [OF ok] by (cases "fr_deferred fr") auto
      then have "\<not> needs_drain ?fr3" using st by (simp add: needs_drain_def steady_def)
      then show ?thesis using lg e st ok3 by (auto simp: steady_def)
    next
      case False
      then have go: "resume_deferred f ?fr3 w2 = (fr', w', Inr out)" using run' Inr cl by simp
      from resume_deferred_result [OF logs ok3 _ _ go] obtain es' where
        "log (w_visitor w') = log (w_visitor w2) @ es'" "framer_ok fr' ((ds @ [pending_bytes fr]) @ es') s es"
        "fr_limits fr' = fr_limits fr2" "out = FeedComplete \<longrightarrow> \<not> needs_drain fr'" by auto
      then show ?thesis using lg st by (auto simp: steady_def)
    qed
  qed
qed

lemma resume_result:
  assumes logs: "logs log f" and ok: "framer_ok fr ds s es" and run: "resume f fr w = (fr', w', Inr out)"
  shows "\<exists>es'. log (w_visitor w') = log (w_visitor w) @ es' \<and> framer_ok fr' (ds @ es') s es
    \<and> fr_limits fr' = fr_limits fr \<and> (out = FeedComplete \<longrightarrow> \<not> needs_drain fr')"
proof (cases "fr_pending_complete fr")
  case True
  then show ?thesis using resume_pending_result [OF logs ok True] run
    by (simp add: resume_def or_fail_Inr split: if_splits)
next
  case False
  moreover have "\<not> fr_pending_complete_end_stream fr"
    using False ok by (auto simp: framer_ok_def held_ok_def flags_ok_def split: option.splits)
  ultimately show ?thesis using resume_deferred_result [OF logs ok] run
    by (simp add: resume_def or_fail_Inr split: if_splits)
qed

section \<open>Runs\<close>

text \<open>
  A stream's life: chunks are fed, the last with the end flag, blocked hand-offs are resumed, and
  in between the rest of the program may use the sink and the budget (not the visitor's log).
  \<open>s\<close> is all that was fed.
\<close>

inductive sse_run ::
  "('v, 'k) visitor \<Rightarrow> sse_limits \<Rightarrow> ('v, 'k) fworld \<Rightarrow> sse_framer \<Rightarrow> ('v, 'k) fworld \<Rightarrow> bytes \<Rightarrow> bool \<Rightarrow> bool"
  for f L w0 where
  Begin: "framer_new L sid = Inr fr \<Longrightarrow> sse_run f L w0 fr w0 [] False"
| Feed: "sse_run f L w0 fr w s False \<Longrightarrow> feed f input es fr w = (fr', w', Inr out) \<Longrightarrow>
    sse_run f L w0 fr' w' (s @ cb_bytes input) es"
| Resume: "sse_run f L w0 fr w s es \<Longrightarrow> resume f fr w = (fr', w', Inr out) \<Longrightarrow> sse_run f L w0 fr' w' s es"
| Other: "sse_run f L w0 fr w s es \<Longrightarrow> w_visitor w' = w_visitor w \<Longrightarrow> sse_run f L w0 fr w' s es"

lemma framer_new_ok: "framer_new L sid = Inr fr \<Longrightarrow> framer_ok fr [] [] False \<and> fr_limits fr = L"
  by (auto simp: framer_new_def res_simps framer_ok_def held_ok_def flags_ok_def rest_held_def outstanding_events_def
      deferred_events_def stream_events_def needs_drain_def pending_ok_def pending_bytes_def pending_new_def)

lemma sse_run_ok:
  assumes "sse_run f L w0 fr w s es" and logs: "logs log f"
  shows "\<exists>ds. log (w_visitor w) = log (w_visitor w0) @ ds \<and> framer_ok fr ds s es \<and> fr_limits fr = L"
  using assms(1)
proof (induction rule: sse_run.induct)
  case (Begin sid fr)
  then show ?case using framer_new_ok by force
next
  case (Feed fr w s input es fr' w' out)
  then obtain ds where "log (w_visitor w) = log (w_visitor w0) @ ds" "framer_ok fr ds s False" "fr_limits fr = L" by blast
  then show ?case using feed_result [OF logs _ Feed.hyps(2)] by fastforce
next
  case (Resume fr w s es fr' w' out)
  then obtain ds where "log (w_visitor w) = log (w_visitor w0) @ ds" "framer_ok fr ds s es" "fr_limits fr = L" by blast
  then show ?case using resume_result [OF logs _ Resume.hyps(2)] by fastforce
next
  case (Other fr w s es w')
  then show ?case by simp
qed

section \<open>Encoded events are events\<close>

lemma scan_line:
  assumes "eol_free line" "line \<noteq> []"
  shows "scan_loop b (line @ LF # rest) = advance (length line + 1) (scan_loop True rest)"
  using assms
proof (induction line arbitrary: b)
  case (Cons c line)
  have c: "c \<noteq> CR" "c \<noteq> LF" "eol_free line" using Cons.prems(1) by (auto simp: eol_free_def is_eol_def)
  show ?case
  proof (cases line)
    case Nil
    then show ?thesis using c by (cases rest) auto
  next
    case (Cons d ds)
    then show ?thesis using c Cons.IH [OF c(3), of False] by simp
  qed
qed simp

lemma scan_encode:
  assumes "\<forall>(n, v) \<in> set fs. name_ok n \<and> eol_free v"
  shows "scan_loop True (encode_event fs @ rest) = (scan_default, length (encode_event fs), True)"
  using assms
proof (induction fs)
  case Nil
  show ?case by (cases rest) (auto simp: encode_event_def scan_default_def)
next
  case (Cons f fs)
  obtain n v where f: "f = (n, v)" by (cases f)
  have ok: "name_ok n" "eol_free v" using Cons.prems f by auto
  have eq: "encode_event (f # fs) = (n @ '': '' @ v) @ LF # encode_event fs"
    by (simp add: encode_event_def encode_field_def f)
  have "scan_loop True ((n @ '': '' @ v) @ LF # (encode_event fs @ rest)) =
      advance (length (n @ '': '' @ v) + 1) (scan_loop True (encode_event fs @ rest))"
    by (rule scan_line [OF eol_free_field [OF ok]]) simp
  then show ?case using Cons unfolding eq by simp
qed

definition event_fields_ok :: "(bytes \<times> bytes) list \<Rightarrow> bool" where
  "event_fields_ok fs \<longleftrightarrow> (\<forall>(n, v) \<in> set fs. name_ok n \<and> eol_free v)"

lemma split_encoded:
  "list_all event_fields_ok evs \<Longrightarrow> split_events (concat (map encode_event evs)) = (map encode_event evs, [])"
proof (induction evs)
  case (Cons fs evs)
  have "scan_loop True (encode_event fs @ concat (map encode_event evs)) = (scan_default, length (encode_event fs), True)"
    using Cons.prems by (intro scan_encode) (auto simp: event_fields_ok_def)
  from split_found [OF this] show ?case using Cons by simp
qed simp

section \<open>Limits\<close>

text \<open>A visitor's trace also holds events whose call failed.\<close>

definition traces :: "('v \<Rightarrow> bytes list) \<Rightarrow> ('v, 'k) visitor \<Rightarrow> bool" where
  "traces log f \<longleftrightarrow> (\<forall>view v m v' m' r. f view v m = (v', m', r) \<longrightarrow> log v' \<in> {log v, log v @ [ev_raw view]})"

lemma tracesD: "traces log f \<Longrightarrow> f view v m = (v', m', r) \<Longrightarrow> log v' = log v \<or> log v' = log v @ [ev_raw view]"
  unfolding traces_def by blast

text \<open>Holds after every operation, whatever its outcome.\<close>

definition within_limits :: "('v \<Rightarrow> bytes list) \<Rightarrow> sse_framer \<Rightarrow> ('v, 'k) fworld \<Rightarrow> bool" where
  "within_limits log fr w \<longleftrightarrow>
     (\<forall>e \<in> set (log (w_visitor w)). length e \<le> max_event_bytes (fr_limits fr))
   \<and> length (pending_bytes fr) \<le> max_event_bytes (fr_limits fr)
   \<and> length (pending_bytes fr) \<le> pb_capacity (fr_pending fr)
   \<and> pb_capacity (fr_pending fr) \<le> max_pending_bytes (fr_limits fr)"

lemma within_cong:
  assumes "within_limits log fr w" "fr_limits fr' = fr_limits fr" "fr_pending fr' = fr_pending fr"
    "w_visitor w' = w_visitor w"
  shows "within_limits log fr' w'"
  using assms by (simp add: within_limits_def pending_bytes_def)

lemma dispatch_within:
  assumes "traces log f" "within_limits log fr w" "length raw \<le> max_event_bytes (fr_limits fr)"
    "dispatch f raw fr w = (fr', w', r)"
  shows "within_limits log fr' w' \<and> fr_limits fr' = fr_limits fr \<and> fr_pending fr' = fr_pending fr"
proof -
  have "log (w_visitor w') \<in> {log (w_visitor w), log (w_visitor w) @ [raw]}"
    "fr_limits fr' = fr_limits fr" "fr_pending fr' = fr_pending fr"
    using assms(4) by (auto simp: dispatch_def dispatch_event_def Let_def dest!: tracesD [OF assms(1)]
        split: prod.splits sum.splits if_splits)
  then show ?thesis using assms(2,3) by (auto simp: within_limits_def pending_bytes_def)
qed

lemma append_within:
  assumes "within_limits log fr w" "append_pending d fr w = (fr', w', r)"
  shows "within_limits log fr' w' \<and> fr_limits fr' = fr_limits fr"
  using assms
  by (auto simp: append_pending_def pending_append_def within_limits_def pending_bytes_def Let_def
      split: prod.splits option.splits sum.splits if_splits)

lemma clear_within:
  assumes "within_limits log fr w" "clear_pending_event fr w = (fr', w')"
  shows "within_limits log fr' w' \<and> fr_limits fr' = fr_limits fr"
  using assms
  by (auto simp: clear_pending_event_def clear_event_def pending_release_def pending_new_def
      within_limits_def pending_bytes_def split: prod.splits if_splits)

lemma release_within:
  assumes "within_limits log fr w" "release_pending fr w = (fr', w')"
  shows "within_limits log fr' w' \<and> fr_limits fr' = fr_limits fr"
  using assms
  by (auto simp: release_pending_def pending_release_def pending_new_def within_limits_def pending_bytes_def)

lemma count_within:
  assumes "within_limits log fr w"
  shows "within_limits log (count_scanned n fr) w" "fr_limits (count_scanned n fr) = fr_limits fr"
  using assms by (simp_all add: within_limits_def pending_bytes_def count_scanned_def)

lemma direct_loop_within:
  "direct_loop f fr w scan rest off = (fr', w', r) \<Longrightarrow> traces log f \<Longrightarrow> within_limits log fr w \<Longrightarrow>
    within_limits log fr' w' \<and> fr_limits fr' = fr_limits fr"
proof (induction f fr w scan rest off arbitrary: fr' w' r rule: direct_loop.induct)
  case (1 f fr w scan rest off)
  obtain scan' n found where nb: "next_boundary scan rest = (scan', n, found)"
    by (cases "next_boundary scan rest") auto
  let ?fr1 = "count_scanned n fr"
  note c = count_within [OF 1(4), of n]
  show ?case
  proof (cases found)
    case False
    show ?thesis
    proof (cases "rest = []")
      case True
      then show ?thesis using 1(2) nb False c by (auto simp: direct_loop.simps [of f fr])
    next
      case ne: False
      obtain fr2 w2 r2 where ap: "append_pending rest ?fr1 w = (fr2, w2, r2)"
        by (cases "append_pending rest ?fr1 w") auto
      have "fr_limits fr' = fr_limits fr2 \<and> fr_pending fr' = fr_pending fr2 \<and> w' = w2"
        using 1(2) nb False ne ap by (cases r2) (auto simp: direct_loop.simps [of f fr])
      then show ?thesis using append_within [OF c(1) ap] c(2) within_cong by (metis (no_types, lifting))
    qed
  next
    case True
    show ?thesis
    proof (cases "n > max_event_bytes (fr_limits ?fr1)")
      case big: True
      then show ?thesis using 1(2) nb True c by (auto simp: direct_loop.simps [of f fr])
    next
      case small: False
      obtain fr2 w2 r2 where dp: "dispatch f (take n rest) ?fr1 w = (fr2, w2, r2)"
        by (cases "dispatch f (take n rest) ?fr1 w") auto
      have d: "within_limits log fr2 w2" "fr_limits fr2 = fr_limits fr"
        using dispatch_within [OF 1(3) c(1) _ dp] small c(2) by auto
      have lim: "\<not> n > max_event_bytes (fr_limits fr)" using small c(2) by simp
      show ?thesis
      proof (cases r2)
        case (Inl e)
        then show ?thesis using 1(2) nb True lim dp d c(2) by (auto simp: direct_loop.simps [of f fr])
      next
        case (Inr u)
        then have "direct_loop f fr2 w2 scan' (drop n rest) (off + n) = (fr', w', r)"
          using 1(2) nb True lim dp c(2) by (simp add: direct_loop.simps [of f fr])
        then show ?thesis using 1(1) [OF nb [symmetric] refl refl refl _ lim dp [symmetric] refl Inr] True 1(3) d by auto
      qed
    qed
  qed
qed

lemma within_pending: "within_limits log fr w \<Longrightarrow> length (pb_bytes (fr_pending fr)) \<le> max_event_bytes (fr_limits fr)"
  by (simp add: within_limits_def pending_bytes_def)

lemma feed_after_pending_within:
  assumes logs: "traces log f" and lim: "within_limits log fr w"
    and run: "feed_after_pending f d es fr w = (fr', w', r)"
  shows "within_limits log fr' w' \<and> fr_limits fr' = fr_limits fr"
proof -
  obtain scan' n found where nb: "next_boundary (fr_pending_scan fr) d = (scan', n, found)"
    by (cases "next_boundary (fr_pending_scan fr) d") auto
  let ?fr1 = "(count_scanned n fr)\<lparr>fr_pending_scan := scan'\<rparr>"
  let ?in = "take (if found then n else length d) d"
  have c: "within_limits log ?fr1 w" "fr_limits ?fr1 = fr_limits fr"
    using lim by (simp_all add: within_limits_def pending_bytes_def count_scanned_def)
  obtain fr2 w2 r2 where ap: "append_pending ?in ?fr1 w = (fr2, w2, r2)" by (cases "append_pending ?in ?fr1 w") auto
  have a: "within_limits log fr2 w2" "fr_limits fr2 = fr_limits fr" using append_within [OF c(1) ap] c(2) by auto
  obtain fr3 w3 r3 where dp: "dispatch f (pb_bytes (fr_pending fr2)) fr2 w2 = (fr3, w3, r3)"
    by (cases "dispatch f (pb_bytes (fr_pending fr2)) fr2 w2") auto
  have b: "within_limits log fr3 w3" "fr_limits fr3 = fr_limits fr"
    using dispatch_within [OF logs a(1) within_pending [OF a(1)] dp] a(2) by auto
  obtain fr4 w4 where cl: "clear_pending_event fr3 w3 = (fr4, w4)" by (cases "clear_pending_event fr3 w3")
  have e: "within_limits log fr4 w4" "fr_limits fr4 = fr_limits fr" using clear_within [OF b(1) cl] b(2) by auto
  obtain fr5 w5 r5 where fd: "feed_direct f (drop n d) fr4 w4 = (fr5, w5, r5)"
    by (cases "feed_direct f (drop n d) fr4 w4") auto
  have g: "within_limits log fr5 w5" "fr_limits fr5 = fr_limits fr"
    using direct_loop_within [OF fd [unfolded feed_direct_def] logs e(1)] e(2) by auto
  have "(fr', w') \<in> {(?fr1, w), (fr2, w2), (fr3, w3), (fr5, w5)}
    \<or> w' = w3 \<and> fr_limits fr' = fr_limits fr3 \<and> fr_pending fr' = fr_pending fr3"
    using run nb ap dp cl fd
    by (auto simp: feed_after_pending_def Let_def split: option.splits if_splits sum.splits prod.splits
        feed_progress.splits)
  then show ?thesis using c a b g within_cong [OF b(1), of fr' w'] by auto
qed

text \<open>What the end of a stream leaves: the state before it, after a hand-off, or after a release.\<close>

lemma finish_eof_leaves:
  assumes "finish_eof f fr w = (fr', w', r)"
    and "dispatch f (pb_bytes (fr_pending fr)) (fr\<lparr>fr_pending_scan := fst (finish_boundary_at_eof (fr_pending_scan fr))\<rparr>) w
      = (fr2, w2, r2)"
    and "release_pending fr2 w2 = (fr3, w3)"
    and "release_pending (fr\<lparr>fr_pending_scan := fst (finish_boundary_at_eof (fr_pending_scan fr))\<rparr>) w = (fr4, w4)"
  shows "(w', fr_pending fr', fr_limits fr') \<in> {(w, fr_pending fr, fr_limits fr), (w2, fr_pending fr2, fr_limits fr2),
    (w3, fr_pending fr3, fr_limits fr3), (w4, fr_pending fr4, fr_limits fr4)}"
proof (cases "pb_bytes (fr_pending fr) = []")
  case True
  then show ?thesis using assms(1) by (simp add: finish_eof_def)
next
  case False
  obtain scan' boundary where b: "finish_boundary_at_eof (fr_pending_scan fr) = (scan', boundary)"
    by (cases "finish_boundary_at_eof (fr_pending_scan fr)")
  have f: "fst (finish_boundary_at_eof (fr_pending_scan fr)) = scan'" by (simp add: b)
  have run: "finish_eof f fr w = (fr', w', r)" and dp: "dispatch f (pb_bytes (fr_pending fr)) (fr\<lparr>fr_pending_scan := scan'\<rparr>) w = (fr2, w2, r2)"
    and rl: "release_pending fr2 w2 = (fr3, w3)" "release_pending (fr\<lparr>fr_pending_scan := scan'\<rparr>) w = (fr4, w4)"
    using assms by (simp_all add: f)
  let ?out = "if boundary \<or> eof_policy_of (fr_limits fr) = ProviderFinalEvent then
      (case r2 of
         Inl e \<Rightarrow> if e = NeedDrain
           then (fr2\<lparr>fr_pending_complete := True\<rparr>, w2, Inr (ProgressNeedDrain (length (pb_bytes (fr_pending fr2)))))
           else (fr2, w2, Inl e)
       | Inr _ \<Rightarrow> (if boundary then fr3 else fr3\<lparr>fr_pending_scan := scan_default\<rparr>, w3, Inr ProgressComplete))
    else if eof_policy_of (fr_limits fr) = Strict then (fr\<lparr>fr_pending_scan := scan'\<rparr>, w, Inl IncompleteEventAtEof)
    else (fr4\<lparr>fr_pending_scan := scan_default\<rparr>, w4, Inr ProgressComplete)"
  have "finish_eof f fr w = ?out"
    by (cases "eof_policy_of (fr_limits fr)"; cases r2) (simp_all add: finish_eof_def b False dp rl Let_def)
  then have "?out = (fr', w', r)" using run by simp
  then show ?thesis by (auto split: if_splits sum.splits)
qed

lemma finish_eof_within:
  assumes logs: "traces log f" and lim: "within_limits log fr w" and run: "finish_eof f fr w = (fr', w', r)"
  shows "within_limits log fr' w' \<and> fr_limits fr' = fr_limits fr"
proof -
  let ?fr1 = "fr\<lparr>fr_pending_scan := fst (finish_boundary_at_eof (fr_pending_scan fr))\<rparr>"
  have c: "within_limits log ?fr1 w" using lim by (simp add: within_limits_def pending_bytes_def)
  obtain fr2 w2 r2 where dp: "dispatch f (pb_bytes (fr_pending ?fr1)) ?fr1 w = (fr2, w2, r2)"
    by (cases "dispatch f (pb_bytes (fr_pending ?fr1)) ?fr1 w") auto
  have b: "within_limits log fr2 w2" "fr_limits fr2 = fr_limits fr"
    using dispatch_within [OF logs c within_pending [OF c] dp] by auto
  obtain fr3 w3 where rl: "release_pending fr2 w2 = (fr3, w3)" by (cases "release_pending fr2 w2")
  obtain fr4 w4 where rl': "release_pending ?fr1 w = (fr4, w4)" by (cases "release_pending ?fr1 w")
  have d: "within_limits log fr3 w3" "fr_limits fr3 = fr_limits fr" "within_limits log fr4 w4" "fr_limits fr4 = fr_limits fr"
    using release_within [OF b(1) rl] release_within [OF c rl'] b(2) by auto
  have "(w', fr_pending fr', fr_limits fr') \<in> {(w, fr_pending fr, fr_limits fr), (w2, fr_pending fr2, fr_limits fr2),
    (w3, fr_pending fr3, fr_limits fr3), (w4, fr_pending fr4, fr_limits fr4)}"
    by (rule finish_eof_leaves [OF run _ rl rl']) (use dp in simp)
  then show ?thesis
    using within_cong [OF lim, of fr' w'] within_cong [OF b(1), of fr' w'] within_cong [OF d(1), of fr' w']
      within_cong [OF d(3), of fr' w'] b(2) d(2,4) by auto
qed

end
