(* ===== verification/Sse_Properties.thy ===== *)
theory Sse_Properties
  imports Sse_Delivery
begin

text \<open>
  The properties of the SSE framer: exactly-once delivery under any chunking and any number of
  blocked hand-offs, the limits, terminal failure, and progress.
\<close>

section \<open>Limits of whole calls\<close>

lemma process_owned_within:
  assumes logs: "traces log f" and lim: "within_limits log fr w"
    and run: "process_owned f input es fr w = (fr', w', r)"
  shows "within_limits log fr' w' \<and> fr_limits fr' = fr_limits fr"
proof -
  obtain fr1 w1 r1 where step: "(if pb_bytes (fr_pending fr) = [] then feed_direct f (cb_bytes input) fr w
      else feed_after_pending f (cb_bytes input) es fr w) = (fr1, w1, r1)"
    by (metis prod_cases3)
  have a: "within_limits log fr1 w1" "fr_limits fr1 = fr_limits fr"
    using step direct_loop_within [OF _ logs lim] feed_after_pending_within [OF logs lim]
    by (auto simp: feed_direct_def split: if_splits)
  obtain fr2 w2 r2 where fe: "finish_eof f fr1 w1 = (fr2, w2, r2)" by (cases "finish_eof f fr1 w1") auto
  have b: "within_limits log fr2 w2" "fr_limits fr2 = fr_limits fr"
    using finish_eof_within [OF logs a(1) fe] a(2) by auto
  have keep: "w_visitor w'' = w_visitor w1" if "retain_input input k fr1 w1 = (w'', x)" for k w'' x
    using that by (auto simp: retain_input_def drop_input_def split: if_splits prod.splits)
  note run' = run [unfolded process_owned_def step]
  have "fr_limits fr' = fr_limits fr1 \<and> fr_pending fr' = fr_pending fr1 \<and> w_visitor w' = w_visitor w1
    \<or> fr_limits fr' = fr_limits fr2 \<and> fr_pending fr' = fr_pending fr2 \<and> w_visitor w' = w_visitor w2"
  proof (cases r1)
    case (Inr p)
    then show ?thesis using run' fe keep
      by (cases p) (auto split: if_splits prod.splits sum.splits feed_progress.splits)
  qed (use run' in auto)
  then show ?thesis using a b within_cong [OF a(1)] within_cong [OF b(1)] by metis
qed

lemma discard_within:
  assumes "within_limits log fr w" "discard_partial fr w = (fr', w')"
  shows "within_limits log fr' w' \<and> fr_limits fr' = fr_limits fr"
proof -
  obtain fr1 w1 where r: "release_pending fr w = (fr1, w1)" by (cases "release_pending fr w")
  have "fr_limits fr' = fr_limits fr1" "fr_pending fr' = fr_pending fr1" "w_visitor w' = w_visitor w1"
    using assms(2) r by (auto simp: discard_partial_def drop_deferred_def split: option.splits)
  then show ?thesis using release_within [OF assms(1) r] within_cong by metis
qed

lemma or_fail_within:
  assumes "within_limits log fr w" "or_fail (fr, w, x) = (fr', w', r)"
  shows "within_limits log fr' w' \<and> fr_limits fr' = fr_limits fr"
proof (cases x)
  case (Inl e)
  have "within_limits log (fr\<lparr>fr_failed := True\<rparr>) w" using assms(1) by (simp add: within_limits_def pending_bytes_def)
  moreover have "discard_partial (fr\<lparr>fr_failed := True\<rparr>) w = (fr', w')"
    using assms(2) Inl by (simp add: or_fail_def fail_terminal_def split_beta prod_eq_iff)
  ultimately show ?thesis using discard_within [of log "fr\<lparr>fr_failed := True\<rparr>" w fr' w'] by simp
qed (use assms in \<open>simp add: or_fail_def\<close>)

lemma feed_within:
  assumes logs: "traces log f" and lim: "within_limits log fr w" and run: "feed f input es fr w = (fr', w', r)"
  shows "within_limits log fr' w' \<and> fr_limits fr' = fr_limits fr"
proof (cases "fr_failed fr \<or> needs_drain fr")
  case True
  then have "fr' = fr" "w' = drop_input input w" using run by (auto simp: feed_def split: if_splits)
  then show ?thesis using lim by (simp add: within_limits_def)
next
  case False
  obtain fr1 w1 x where po: "process_owned f input es fr w = (fr1, w1, x)"
    by (cases "process_owned f input es fr w") auto
  have "or_fail (fr1, w1, x) = (fr', w', r)" using run False po by (simp add: feed_def)
  then show ?thesis
    using process_owned_within [OF logs lim po] or_fail_within [of log fr1 w1 x fr' w' r] by simp
qed

lemma resume_deferred_within:
  assumes logs: "traces log f" and lim: "within_limits log fr w" and run: "resume_deferred f fr w = (fr', w', r)"
  shows "within_limits log fr' w' \<and> fr_limits fr' = fr_limits fr"
proof (cases "fr_deferred fr")
  case (Some d)
  have "within_limits log (fr\<lparr>fr_deferred := None\<rparr>) w" using lim by (simp add: within_limits_def pending_bytes_def)
  from process_owned_within [OF logs this, of "di_bytes d" "di_end_stream d" fr' w' r] show ?thesis
    using run Some by (simp add: resume_deferred_def)
qed (use assms in \<open>simp add: resume_deferred_def\<close>)

lemma resume_pending_within:
  assumes logs: "traces log f" and lim: "within_limits log fr w" and run: "resume_pending f fr w = (fr', w', r)"
  shows "within_limits log fr' w' \<and> fr_limits fr' = fr_limits fr"
proof -
  obtain fr1 w1 x where dp: "dispatch f (pb_bytes (fr_pending fr)) fr w = (fr1, w1, x)"
    by (cases "dispatch f (pb_bytes (fr_pending fr)) fr w") auto
  have a: "within_limits log fr1 w1" "fr_limits fr1 = fr_limits fr"
    using dispatch_within [OF logs lim within_pending [OF lim] dp] by auto
  note run' = run [unfolded resume_pending_def dp]
  show ?thesis
  proof (cases x)
    case (Inl e)
    then show ?thesis using run' a by auto
  next
    case (Inr u)
    obtain fr2 w2 where cl: "clear_pending_event fr1 w1 = (fr2, w2)" by (cases "clear_pending_event fr1 w1")
    let ?fr3 = "fr2\<lparr>fr_pending_complete := False, fr_pending_complete_end_stream := False\<rparr>"
    have b: "within_limits log ?fr3 w2" "fr_limits ?fr3 = fr_limits fr"
      using clear_within [OF a(1) cl] a(2) by (auto simp: within_limits_def pending_bytes_def)
    show ?thesis using run' Inr cl b resume_deferred_within [OF logs b(1), of fr' w' r]
      by (auto simp: Let_def split: if_splits)
  qed
qed

lemma resume_within:
  assumes logs: "traces log f" and lim: "within_limits log fr w" and run: "resume f fr w = (fr', w', r)"
  shows "within_limits log fr' w' \<and> fr_limits fr' = fr_limits fr"
proof (cases "fr_failed fr")
  case True
  then show ?thesis using run lim by (simp add: resume_def)
next
  case False
  obtain fr1 w1 x where st: "(if fr_pending_complete fr then resume_pending f fr w
      else resume_deferred f fr w) = (fr1, w1, x)" by (metis prod_cases3)
  then have "within_limits log fr1 w1 \<and> fr_limits fr1 = fr_limits fr"
    using resume_pending_within [OF logs lim, of fr1 w1 x] resume_deferred_within [OF logs lim, of fr1 w1 x]
    by (cases "fr_pending_complete fr") simp_all
  moreover have "or_fail (fr1, w1, x) = (fr', w', r)" using run False st by (simp add: resume_def)
  ultimately show ?thesis using or_fail_within [of log fr1 w1 x fr' w' r] by simp
qed

text \<open>
  Any use of a framer: its calls in any order, the failed and refused ones included, and in between
  anything that leaves the visitor's own state.
\<close>

inductive framer_use ::
  "('v, 'k) visitor \<Rightarrow> sse_limits \<Rightarrow> ('v, 'k) fworld \<Rightarrow> sse_framer \<Rightarrow> ('v, 'k) fworld \<Rightarrow> bool"
  for f L w0 where
  New: "framer_new L sid = Inr fr \<Longrightarrow> framer_use f L w0 fr w0"
| Feed: "framer_use f L w0 fr w \<Longrightarrow> feed f input es fr w = (fr', w', r) \<Longrightarrow> framer_use f L w0 fr' w'"
| Resume: "framer_use f L w0 fr w \<Longrightarrow> resume f fr w = (fr', w', r) \<Longrightarrow> framer_use f L w0 fr' w'"
| Reset: "framer_use f L w0 fr w \<Longrightarrow> framer_reset fr w = (fr', w') \<Longrightarrow> framer_use f L w0 fr' w'"
| Other: "framer_use f L w0 fr w \<Longrightarrow> w_visitor w' = w_visitor w \<Longrightarrow> framer_use f L w0 fr w'"

text \<open>A visitor that also records every event it is handed, whatever it answers.\<close>

definition recording :: "('v, 'k) visitor \<Rightarrow> ('v \<times> bytes list, 'k) visitor" where
  "recording f view vh m =
    (let (v', m', r) = f view (fst vh) m in ((v', snd vh @ [ev_raw view]), m', r))"

lemma recording_traces: "traces snd (recording f)"
  by (auto simp: traces_def recording_def split: prod.splits)

lemma framer_use_within:
  assumes "framer_use f L w0 fr w" and trc: "traces log f" and "log (w_visitor w0) = []"
  shows "within_limits log fr w \<and> fr_limits fr = L"
  using assms(1)
proof (induction rule: framer_use.induct)
  case (New sid fr)
  then show ?case using assms(3)
    by (auto simp: framer_new_def res_simps within_limits_def pending_bytes_def pending_new_def)
next
  case (Feed fr w input es fr' w' r)
  then show ?case using feed_within [OF trc] by metis
next
  case (Resume fr w fr' w' r)
  then show ?case using resume_within [OF trc] by metis
next
  case (Reset fr w fr' w')
  obtain fr1 w1 where d: "discard_partial fr w = (fr1, w1)" by (cases "discard_partial fr w")
  have "fr' = fr1\<lparr>fr_first_event := True\<rparr>" "w' = w1" using Reset.hyps(2) d by (auto simp: framer_reset_def)
  then show ?case using discard_within [OF _ d] Reset.IH by (auto simp: within_limits_def pending_bytes_def)
next
  case (Other fr w w')
  then show ?case by (auto simp: within_limits_def)
qed

lemma nothing_outstanding:
  "\<not> needs_drain fr \<Longrightarrow> outstanding_events pol fr = [] \<and> rest_held fr = pending_bytes fr"
  by (simp add: outstanding_events_def deferred_events_def rest_held_def needs_drain_def)

section \<open>Properties\<close>

text \<open>
  C24. Exactly once, in order: however the stream \<open>s\<close> was cut into chunks and however often the
  visitor asked to be drained and was resumed, what the visitor has accepted is a prefix of the
  events of the whole stream, and when nothing awaits a drain it is all of them, the final
  unfinished event included or not as the end-of-stream policy says.
\<close>

theorem sse_exactly_once:
  assumes "sse_run f L w0 fr w s ended" and "logs log f" and "log (w_visitor w0) = []"
  shows "(\<exists>later. stream_events (eof_policy_of L) s ended = log (w_visitor w) @ later)
    \<and> (needs_drain fr \<or> log (w_visitor w) = stream_events (eof_policy_of L) s ended)
    \<and> (needs_drain fr \<or> ended \<or> pending_bytes fr = snd (split_events s))"
proof -
  obtain ds where ds: "log (w_visitor w) = ds" "framer_ok fr ds s ended" "fr_limits fr = L"
    using sse_run_ok [OF assms(1,2)] assms(3) by auto
  show ?thesis using framer_ok_events [OF ds(2)] framer_ok_rest [OF ds(2)] ds(1,3) nothing_outstanding [of fr]
    by auto
qed

definition log_visitor :: "(bytes list, bytes list) visitor" where
  "log_visitor view v m =
    (let (m', r) = pass_raw list_sink m in (case r of Inl e \<Rightarrow> (v, m', r) | Inr _ \<Rightarrow> (v @ [ev_raw view], m', r)))"

lemma log_visitor_logs: "logs (\<lambda>v. v) log_visitor"
  by (auto simp: logs_def log_visitor_def Let_def split: prod.splits sum.splits)

definition sample_world :: "(bytes list, bytes list) fworld" where
  "sample_world = \<lparr>w_visitor = [], w_sink = [], w_ledger = sample_ledger\<rparr>"

definition raw_chunk :: "bytes \<Rightarrow> charged_bytes" where
  "raw_chunk b = \<lparr>cb_bytes = b, cb_reservation = \<lparr>r_stream = 1, r_role = TransportInflight, r_bytes = 0, r_released = False\<rparr>\<rparr>"

lemmas sse_eval = framer_new_def limits_validate_def ensure_def sample_limits_def feed_def needs_drain_def
  process_owned_def pending_new_def feed_direct_def direct_loop.simps dispatch_def dispatch_event_def
  log_visitor_def pass_raw_def list_sink_def count_scanned_def or_fail_def sample_world_def raw_chunk_def
  LF_def CR_def Let_def

lemma sample_run:
  "\<exists>fr w. sse_run log_visitor sample_limits sample_world fr w ([CHR ''a'', LF, LF] @ [LF]) False \<and> \<not> needs_drain fr"
proof -
  obtain fr0 where new: "framer_new sample_limits 1 = Inr fr0"
    by (simp add: framer_new_def limits_validate_def ensure_def sample_limits_def)
  obtain fr1 w1 where f1: "feed log_visitor (raw_chunk [CHR ''a'', LF, LF]) False fr0 sample_world = (fr1, w1, Inr FeedComplete)"
    and i1: "pb_bytes (fr_pending fr1) = []" "\<not> fr_failed fr1" "\<not> needs_drain fr1" "fr_limits fr1 = sample_limits"
    using new by (auto simp: sse_eval)
  obtain fr2 w2 where f2: "feed log_visitor (raw_chunk [LF]) False fr1 w1 = (fr2, w2, Inr FeedComplete)"
    and i2: "\<not> needs_drain fr2"
    using i1 by (auto simp: sse_eval)
  have "sse_run log_visitor sample_limits sample_world fr1 w1 ([] @ cb_bytes (raw_chunk [CHR ''a'', LF, LF])) False"
    by (rule sse_run.Feed [OF sse_run.Begin [OF new] f1])
  from sse_run.Feed [OF this f2] show ?thesis using i2 by (auto simp: raw_chunk_def)
qed

theorem sse_exactly_once_witness:
  "\<exists>fr w. sse_run log_visitor sample_limits sample_world fr w ([CHR ''a'', LF, LF] @ [LF]) False
    \<and> w_visitor w = stream_events Strict ([CHR ''a'', LF, LF] @ [LF]) False"
proof -
  obtain fr w where run: "sse_run log_visitor sample_limits sample_world fr w ([CHR ''a'', LF, LF] @ [LF]) False"
    and nd: "\<not> needs_drain fr" using sample_run by blast
  have "w_visitor sample_world = []" by (simp add: sample_world_def)
  from sse_exactly_once [OF run log_visitor_logs this] nd run show ?thesis
    by (auto simp: sample_limits_def)
qed

text \<open>
  No corruption of well-formed streams: a stream that is a sequence of encoded events reaches
  the visitor as exactly these events, whatever the chunk boundaries, and nothing is left over.
\<close>

theorem encoded_stream_delivered:
  assumes "sse_run f L w0 fr w (concat (map encode_event evs)) ended" and "logs log f"
    and "log (w_visitor w0) = []" and "list_all event_fields_ok evs" and "\<not> needs_drain fr"
  shows "log (w_visitor w) = map encode_event evs \<and> (ended \<or> pending_bytes fr = [])"
proof -
  obtain ds where ds: "log (w_visitor w) = ds" "framer_ok fr ds (concat (map encode_event evs)) ended"
    using sse_run_ok [OF assms(1,2)] assms(3) by auto
  show ?thesis
    using framer_ok_events [OF ds(2)] framer_ok_rest [OF ds(2)] ds(1) nothing_outstanding [OF assms(5)]
      split_encoded [OF assms(4)]
    by (auto simp: stream_events_def final_events_def)
qed

text \<open>
  Progress: a visitor that accepts every event, a chunk that ends at an event boundary, and events
  within the limit.
\<close>

definition accepting :: "('v, 'k) visitor \<Rightarrow> bool" where
  "accepting f \<longleftrightarrow> (\<forall>view v m. em_decided m \<or> (\<exists>v' m'. f view v m = (v', m', Inr ()) \<and> em_decided m'))"

lemma dispatch_accepting:
  assumes "accepting f"
  shows "\<exists>fr' w'. dispatch f raw fr w = (fr', w', Inr ()) \<and> fr_limits fr' = fr_limits fr
    \<and> fr_pending fr' = fr_pending fr \<and> fr_pending_complete fr' = fr_pending_complete fr
    \<and> fr_deferred fr' = fr_deferred fr"
proof -
  let ?view = "\<lparr>ev_raw = raw, ev_strip_bom = fr_first_event fr \<and> starts_with raw UTF8_BOM\<rparr>"
  let ?m = "\<lparr>em_raw = raw, em_limits = fr_limits fr, em_stream = fr_stream fr, em_ledger = w_ledger w,
    em_sink = w_sink w, em_emitted = 0, em_emitted_bytes = 0, em_decided = False\<rparr>"
  obtain v' m' where "f ?view (w_visitor w) ?m = (v', m', Inr ())" "em_decided m'"
    using assms by (force simp: accepting_def)
  then show ?thesis by (simp add: dispatch_def dispatch_event_def Let_def)
qed

lemma direct_loop_progress:
  assumes acc: "accepting f" and ends: "snd (split_events rest) = []"
    and small: "\<forall>e \<in> set (fst (split_events rest)). length e \<le> max_event_bytes (fr_limits fr)"
  shows "\<exists>fr' w'. direct_loop f fr w scan_default rest off = (fr', w', Inr ProgressComplete)
    \<and> fr_pending fr' = fr_pending fr \<and> fr_pending_complete fr' = fr_pending_complete fr
    \<and> fr_deferred fr' = fr_deferred fr"
  using ends small
proof (induction "length rest" arbitrary: fr w rest off rule: less_induct)
  case less
  obtain scan' n found where nb: "scan_loop True rest = (scan', n, found)" by (cases "scan_loop True rest")
  show ?case
  proof (cases found)
    case False
    then have "rest = []" using less(2) split_unfinished nb by auto
    then show ?thesis using nb False by (simp add: direct_loop.simps [of f fr] count_scanned_def)
  next
    case True
    then have nb: "scan_loop True rest = (scan', n, True)" using nb by simp
    have n: "0 < n" "n \<le> length rest" "scan' = scan_default" using scan_loop_found [OF nb] by auto
    note split = split_found [OF nb]
    have le: "n \<le> max_event_bytes (fr_limits fr)" using less(3) split n by simp
    obtain fr2 w2 where d: "dispatch f (take n rest) (count_scanned n fr) w = (fr2, w2, Inr ())"
      "fr_limits fr2 = fr_limits fr" "fr_pending fr2 = fr_pending fr"
      "fr_pending_complete fr2 = fr_pending_complete fr" "fr_deferred fr2 = fr_deferred fr"
      using dispatch_accepting [OF acc, of "take n rest" "count_scanned n fr" w] by (auto simp: count_scanned_def)
    have "direct_loop f fr w scan_default rest off = direct_loop f fr2 w2 scan_default (drop n rest) (off + n)"
      using nb n(3) le d(1) by (simp add: direct_loop.simps [of f fr] count_scanned_def)
    moreover have "length (drop n rest) < length rest" using n by simp
    ultimately show ?thesis using less(1) [of "drop n rest" fr2 w2 "off + n"] less(2,3) split d by auto
  qed
qed

text \<open>
  Progress without memory: if no event is pending, the chunk consists of whole events within
  the event limit and the visitor accepts each, \<open>feed\<close> completes, and the framer has taken no
  buffer and no reservation.
\<close>

theorem whole_events_complete:
  assumes "accepting f" and "\<not> fr_failed fr" and "\<not> needs_drain fr" and "pending_bytes fr = []"
    and "snd (split_events (cb_bytes input)) = []"
    and "\<forall>e \<in> set (fst (split_events (cb_bytes input))). length e \<le> max_event_bytes (fr_limits fr)"
  shows "\<exists>fr' w'. feed f input ended fr w = (fr', w', Inr FeedComplete)
    \<and> fr_pending fr' = fr_pending fr \<and> \<not> needs_drain fr'"
proof -
  obtain fr1 w1 where d: "direct_loop f fr w scan_default (cb_bytes input) 0 = (fr1, w1, Inr ProgressComplete)"
    "fr_pending fr1 = fr_pending fr" "fr_pending_complete fr1 = fr_pending_complete fr" "fr_deferred fr1 = fr_deferred fr"
    using direct_loop_progress [OF assms(1,5,6)] by blast
  have e: "pb_bytes (fr_pending fr) = []" using assms(4) by (simp add: pending_bytes_def)
  then show ?thesis using d assms(2,3)
    by (auto simp: feed_def process_owned_def feed_direct_def finish_eof_def or_fail_def needs_drain_def)
qed

lemma log_visitor_accepting: "accepting log_visitor"
  by (simp add: accepting_def log_visitor_def pass_raw_def list_sink_def)

theorem whole_events_complete_witness:
  "\<exists>fr fr' w'. framer_new sample_limits 1 = Inr fr
    \<and> feed log_visitor (raw_chunk [CHR ''a'', LF, LF, LF]) False fr sample_world = (fr', w', Inr FeedComplete)
    \<and> fr_pending fr' = pending_new"
proof -
  let ?c = "raw_chunk [CHR ''a'', LF, LF, LF]"
  obtain fr where new: "framer_new sample_limits 1 = Inr fr" and fr: "\<not> fr_failed fr" "\<not> needs_drain fr"
    "fr_pending fr = pending_new" "fr_limits fr = sample_limits"
    by (simp add: framer_new_def limits_validate_def ensure_def sample_limits_def needs_drain_def)
  have sp: "split_events (cb_bytes ?c) = ([[CHR ''a'', LF, LF], [LF]], [])"
    by (simp add: raw_chunk_def split_events.simps LF_def CR_def)
  have p: "pending_bytes fr = []" using fr(3) by (simp add: pending_bytes_def pending_new_def)
  have small: "\<forall>e \<in> set (fst (split_events (cb_bytes ?c))). length e \<le> max_event_bytes (fr_limits fr)"
    using sp fr(4) by (simp add: sample_limits_def)
  from whole_events_complete [OF log_visitor_accepting fr(1,2) p _ small, of False sample_world] sp
  show ?thesis using new fr(3) by auto
qed

theorem encoded_stream_delivered_witness:
  "\<exists>fr w. sse_run log_visitor sample_limits sample_world fr w (concat (map encode_event [[(''a'', ''b'')], []])) False
    \<and> w_visitor w = map encode_event [[(''a'', ''b'')], []]"
proof -
  let ?evs = "[[(''a'', ''b'')], []]"
  let ?c = "raw_chunk (concat (map encode_event ?evs))"
  have ok: "list_all event_fields_ok ?evs"
    by (simp add: event_fields_ok_def name_ok_def eol_free_def is_eol_def CR_def LF_def)
  obtain fr where new: "framer_new sample_limits 1 = Inr fr" and fr: "\<not> fr_failed fr" "\<not> needs_drain fr"
    "pending_bytes fr = []" "fr_limits fr = sample_limits"
    by (simp add: framer_new_def limits_validate_def ensure_def sample_limits_def needs_drain_def
        pending_bytes_def pending_new_def)
  have cb: "cb_bytes ?c = concat (map encode_event ?evs)" by (simp add: raw_chunk_def)
  have sp: "split_events (cb_bytes ?c) = (map encode_event ?evs, [])" unfolding cb by (rule split_encoded [OF ok])
  have "\<exists>fr' w'. direct_loop log_visitor fr sample_world scan_default (cb_bytes ?c) 0 = (fr', w', Inr ProgressComplete)
    \<and> fr_pending fr' = fr_pending fr \<and> fr_pending_complete fr' = fr_pending_complete fr
    \<and> fr_deferred fr' = fr_deferred fr"
    by (rule direct_loop_progress [OF log_visitor_accepting])
      (simp_all only: sp, simp_all add: fr(4) sample_limits_def encode_event_def encode_field_def)
  then obtain fr' w' where f: "feed log_visitor ?c False fr sample_world = (fr', w', Inr FeedComplete)" "\<not> needs_drain fr'"
    using fr by (auto simp: feed_def process_owned_def feed_direct_def or_fail_def needs_drain_def pending_bytes_def)
  have run: "sse_run log_visitor sample_limits sample_world fr' w' (concat (map encode_event ?evs)) False"
    using sse_run.Feed [OF sse_run.Begin [OF new] f(1)] unfolding cb by simp
  have "w_visitor sample_world = []" by (simp add: sample_world_def)
  from encoded_stream_delivered [OF run log_visitor_logs this ok f(2)] run show ?thesis by blast
qed

text \<open>
  C25. Limits: whatever calls are made on a framer, failed and refused ones included, and whatever its
  visitor answers, no event longer than the event limit is ever handed to the visitor, the retained
  partial event is within that limit too, and the capacity of its buffer within the pending limit.
\<close>

theorem framer_within_limits:
  assumes "framer_use (recording f) L w0 fr w" and "snd (w_visitor w0) = []"
  shows "list_all (\<lambda>e. length e \<le> max_event_bytes L) (snd (w_visitor w))
    \<and> length (pending_bytes fr) \<le> max_event_bytes L
    \<and> length (pending_bytes fr) \<le> pb_capacity (fr_pending fr)
    \<and> pb_capacity (fr_pending fr) \<le> max_pending_bytes L"
  using framer_use_within [OF assms(1) recording_traces assms(2)] by (auto simp: within_limits_def list_all_iff)

definition recorded_world :: "(bytes list \<times> bytes list, bytes list) fworld" where
  "recorded_world = \<lparr>w_visitor = ([], []), w_sink = [], w_ledger = sample_ledger\<rparr>"

text \<open>A visitor that refuses every event: the call fails, and the event it was handed is recorded.\<close>

definition failing_visitor :: "(bytes list, bytes list) visitor" where
  "failing_visitor view v m = (v, m, Inl NoEmitterDecision)"

theorem framer_within_limits_witness:
  "\<exists>fr w. framer_use (recording failing_visitor) sample_limits recorded_world fr w
    \<and> snd (w_visitor w) = [[CHR ''a'', LF, LF]] \<and> length [CHR ''a'', LF, LF] \<le> max_event_bytes sample_limits"
proof -
  obtain fr0 where new: "framer_new sample_limits 1 = Inr fr0"
    by (simp add: framer_new_def limits_validate_def ensure_def sample_limits_def)
  obtain fr1 w1 where f1: "feed (recording failing_visitor) (raw_chunk [CHR ''a'', LF, LF]) False fr0 recorded_world
      = (fr1, w1, Inl NoEmitterDecision)" and v: "snd (w_visitor w1) = [[CHR ''a'', LF, LF]]"
    using new by (auto simp: sse_eval recording_def failing_visitor_def recorded_world_def fail_terminal_def
        discard_partial_def release_pending_def pending_release_def drop_deferred_def drop_input_def)
  have run: "framer_use (recording failing_visitor) sample_limits recorded_world fr1 w1"
    by (rule framer_use.Feed [OF framer_use.New [OF new] f1])
  moreover have "snd (w_visitor recorded_world) = []" by (simp add: recorded_world_def)
  from framer_within_limits [OF run this] v
  have "length [CHR ''a'', LF, LF] \<le> max_event_bytes sample_limits" by simp
  ultimately show ?thesis using v by blast
qed

lemma discard_partial_state:
  assumes "discard_partial fr w = (fr', w')"
  shows "fr_pending fr' = pending_new \<and> fr_deferred fr' = None \<and> \<not> needs_drain fr' \<and> fr_failed fr' = fr_failed fr"
  using assms
  by (auto simp: discard_partial_def release_pending_def pending_release_def needs_drain_def)

text \<open>
  Failure is terminal: a feed that fails inside leaves the framer failed with no buffered
  bytes, charge or deferred input; from then on, also after a reset, every feed and resume is
  refused with the same error and never reaches the visitor or the sink.
\<close>

theorem framer_failure_terminal:
  assumes "feed f input es fr w = (fr1, w1, Inl e)" and "\<not> needs_drain fr" and "framer_reset fr1 w1 = (fr2, w2)"
  shows "fr_failed fr1 \<and> fr_failed fr2
    \<and> (fr_failed fr \<or> fr_pending fr1 = pending_new \<and> fr_deferred fr1 = None)
    \<and> feed f input' es' fr2 w2 = (fr2, drop_input input' w2, Inl FramerFailed)
    \<and> resume f fr2 w2 = (fr2, w2, Inl FramerFailed)
    \<and> w_visitor (drop_input input' w2) = w_visitor w2 \<and> w_sink (drop_input input' w2) = w_sink w2"
proof -
  have 1: "fr_failed fr1 \<and> (fr_failed fr \<or> fr_pending fr1 = pending_new \<and> fr_deferred fr1 = None)"
  proof (cases "fr_failed fr")
    case True
    then show ?thesis using assms(1) by (simp add: feed_def)
  next
    case False
    obtain fr0 w0 x where po: "process_owned f input es fr w = (fr0, w0, x)"
      by (cases "process_owned f input es fr w") auto
    then have "or_fail (fr0, w0, x) = (fr1, w1, Inl e)" using assms(1,2) False by (simp add: feed_def)
    then have "discard_partial (fr0\<lparr>fr_failed := True\<rparr>) w0 = (fr1, w1)"
      by (cases x) (auto simp: or_fail_def fail_terminal_def split: prod.splits)
    from discard_partial_state [OF this] show ?thesis by simp
  qed
  obtain fr3 w3 where d: "discard_partial fr1 w1 = (fr3, w3)" by (cases "discard_partial fr1 w1")
  then have "fr_failed fr2" using assms(3) discard_partial_state [OF d] 1 by (auto simp: framer_reset_def)
  then show ?thesis using 1 by (simp add: feed_def resume_def drop_input_def)
qed

theorem framer_failure_terminal_witness:
  "\<exists>fr fr1 w1 fr2 w2. framer_new sample_limits 1 = Inr fr
    \<and> feed log_visitor (raw_chunk ''abcdefghijkl'') False fr sample_world = (fr1, w1, Inl PendingLimit)
    \<and> framer_reset fr1 w1 = (fr2, w2) \<and> resume log_visitor fr2 w2 = (fr2, w2, Inl FramerFailed)"
proof -
  obtain fr where new: "framer_new sample_limits 1 = Inr fr" and nd: "\<not> needs_drain fr"
    by (simp add: framer_new_def limits_validate_def ensure_def sample_limits_def needs_drain_def)
  obtain fr1 w1 where f: "feed log_visitor (raw_chunk ''abcdefghijkl'') False fr sample_world = (fr1, w1, Inl PendingLimit)"
    using new by (auto simp: sse_eval append_pending_def pending_append_def checked_add_def usize_max_def
        fail_terminal_def discard_partial_def release_pending_def pending_release_def drop_deferred_def)
  obtain fr2 w2 where r: "framer_reset fr1 w1 = (fr2, w2)" by (cases "framer_reset fr1 w1")
  from framer_failure_terminal [OF f nd r] new f r show ?thesis by blast
qed

end
