(* ===== verification/Sse_Precommit.thy ===== *)
theory Sse_Precommit
  imports Sse_Event "HOL-Library.Sublist"
begin

text \<open>
  The response before it is accepted (\<^verbatim>\<open>gateway-core/src/runtime/sse/precommit.rs\<close> and
  \<^verbatim>\<open>semantic.rs\<close>): the sequence-numbered prefix of owned events whose raw owner moves to the
  classifier and comes back decoded, its hand-off when the attempt is accepted, the bounded
  response mailbox, and encoded output units with their semantic provenance. Element sizes are
  parameters.
\<close>

datatype semantic_provenance = NonSemantic | ProducesSemantic

fun merge_provenance :: "semantic_provenance \<Rightarrow> semantic_provenance \<Rightarrow> semantic_provenance" where
  "merge_provenance a b = (if a = ProducesSemantic \<or> b = ProducesSemantic then ProducesSemantic else NonSemantic)"

section \<open>The precommit prefix\<close>

datatype 'd precommit_record =
    Raw charged_bytes semantic_provenance
  | InFlight usize semantic_provenance
  | Decoded 'd usize semantic_provenance

record 'd precommit =
  next_sequence :: u64
  records :: "(u64 \<times> 'd precommit_record) list"
  pc_capacity :: usize
  pc_metadata :: "reservation option"

definition precommit_new :: "'d precommit" where
  "precommit_new = \<lparr>next_sequence = 0, records = [], pc_capacity = usize_max, pc_metadata = None\<rparr>"

definition precommit_new_budgeted ::
  "usize \<Rightarrow> usize \<Rightarrow> ledger \<Rightarrow> stream_id \<Rightarrow> ledger \<times> (sse_error + 'd precommit)" where
  "precommit_new_budgeted size_of capacity l sid =
    (if capacity = 0 then (l, Inl InvalidMailboxCapacity)
     else case checked_mul capacity size_of of None \<Rightarrow> (l, Inl SseBudgetExceeded)
     | Some n \<Rightarrow> (case acquire l sid ResponsePrefix n of
         (l', Inl _) \<Rightarrow> (l', Inl SseBudgetExceeded)
       | (l', Inr r) \<Rightarrow> (l', Inr \<lparr>next_sequence = 0, records = [], pc_capacity = capacity, pc_metadata = Some r\<rparr>)))"

text \<open>A refused event is dropped with its charge.\<close>

definition push_raw ::
  "ledger \<Rightarrow> 'd precommit \<Rightarrow> charged_bytes \<Rightarrow> semantic_provenance \<Rightarrow> ledger \<times> 'd precommit \<times> (sse_error + u64)" where
  "push_raw l s event p =
    (if length (records s) = pc_capacity s then (drop_chunk l event, s, Inl HandoffCapacityExceeded)
     else (l, s\<lparr>next_sequence := wrapping_add (next_sequence s) 1,
                records := records s @ [(next_sequence s, Raw event p)]\<rparr>, Inr (next_sequence s)))"

definition find_record :: "'d precommit \<Rightarrow> u64 \<Rightarrow> nat option" where
  "find_record s n = position (\<lambda>r. fst r = n) (records s)"

definition take_raw :: "'d precommit \<Rightarrow> u64 \<Rightarrow> 'd precommit \<times> (sse_error + charged_bytes \<times> semantic_provenance)" where
  "take_raw s n =
    (case find_record s n of None \<Rightarrow> (s, Inl (UnknownSequence n))
     | Some i \<Rightarrow>
       (case snd (records s ! i) of
          Raw event p \<Rightarrow>
            (s\<lparr>records := (records s)[i := (n, InFlight (length (cb_bytes event)) p)]\<rparr>, Inr (event, p))
        | _ \<Rightarrow> (s, Inl (SequenceAlreadyDecoded n))))"

definition mark_decoded :: "'d precommit \<Rightarrow> u64 \<Rightarrow> 'd \<Rightarrow> 'd precommit \<times> (sse_error + unit)" where
  "mark_decoded s n d =
    (case find_record s n of None \<Rightarrow> (s, Inl (UnknownSequence n))
     | Some i \<Rightarrow>
       (case snd (records s ! i) of
          InFlight k p \<Rightarrow> (s\<lparr>records := (records s)[i := (n, Decoded d k p)]\<rparr>, Inr ())
        | Raw _ _ \<Rightarrow> (s, Inl (SequenceNotInFlight n))
        | Decoded _ _ _ \<Rightarrow> (s, Inl (SequenceAlreadyDecoded n))))"

definition remove_at :: "nat \<Rightarrow> 'a list \<Rightarrow> 'a list" where
  "remove_at i xs = take i xs @ drop (Suc i) xs"

definition drop_inflight :: "'d precommit \<Rightarrow> u64 \<Rightarrow> 'd precommit \<times> (sse_error + unit)" where
  "drop_inflight s n =
    (case find_record s n of None \<Rightarrow> (s, Inl (UnknownSequence n))
     | Some i \<Rightarrow>
       (case snd (records s ! i) of
          InFlight _ _ \<Rightarrow> (s\<lparr>records := remove_at i (records s)\<rparr>, Inr ())
        | _ \<Rightarrow> (s, Inl (SequenceNotInFlight n))))"

fun is_inflight :: "'d precommit_record \<Rightarrow> bool" where
  "is_inflight (InFlight _ _) = True"
| "is_inflight _ = False"

datatype 'd accepted_event =
    NeedsDecode u64 charged_bytes semantic_provenance
  | AlreadyDecoded u64 'd usize semantic_provenance

text \<open>The hand-off's iterator; an in-flight record cannot reach it.\<close>

fun handoff_events :: "(u64 \<times> 'd precommit_record) list \<Rightarrow> 'd accepted_event option list" where
  "handoff_events [] = []"
| "handoff_events ((n, Raw e p) # rs) = Some (NeedsDecode n e p) # handoff_events rs"
| "handoff_events ((n, InFlight k p) # rs) = None # handoff_events rs"
| "handoff_events ((n, Decoded d k p) # rs) = Some (AlreadyDecoded n d k p) # handoff_events rs"

definition publish_accept :: "'d precommit \<Rightarrow> sse_error + (u64 \<times> 'd precommit_record) list" where
  "publish_accept s =
    (case find (\<lambda>r. is_inflight (snd r)) (records s) of
       Some r \<Rightarrow> Inl (SequenceStillInFlight (fst r))
     | None \<Rightarrow> Inr (records s))"

fun drop_record :: "u64 \<times> 'd precommit_record \<Rightarrow> ledger \<Rightarrow> ledger" where
  "drop_record (n, Raw e p) l = drop_chunk l e"
| "drop_record (n, _) l = l"

definition publish_non_accept :: "ledger \<Rightarrow> 'd precommit \<Rightarrow> ledger" where
  "publish_non_accept l s = drop_option (fold drop_record (records s) l) (pc_metadata s)"

section \<open>The response mailbox\<close>

record 'a mailbox =
  mb_capacity :: usize
  mb_queue :: "'a list"

definition mailbox_new :: "usize \<Rightarrow> sse_error + 'a mailbox" where
  "mailbox_new c = (if c = 0 then Inl InvalidMailboxCapacity else Inr \<lparr>mb_capacity = c, mb_queue = []\<rparr>)"

text \<open>A full mailbox gives the item back.\<close>

definition try_push :: "'a mailbox \<Rightarrow> 'a \<Rightarrow> 'a mailbox \<times> ('a + unit)" where
  "try_push m x =
    (if length (mb_queue m) = mb_capacity m then (m, Inl x)
     else (m\<lparr>mb_queue := mb_queue m @ [x]\<rparr>, Inr ()))"

definition mailbox_pop :: "'a mailbox \<Rightarrow> ('a \<times> 'a mailbox) option" where
  "mailbox_pop m = (case mb_queue m of [] \<Rightarrow> None | x # xs \<Rightarrow> Some (x, m\<lparr>mb_queue := xs\<rparr>))"

definition mailbox_ok :: "'a mailbox \<Rightarrow> bool" where
  "mailbox_ok m \<longleftrightarrow> length (mb_queue m) \<le> mb_capacity m"

definition push_option :: "'a \<Rightarrow> 'a mailbox \<Rightarrow> 'a mailbox option" where
  "push_option x m = (case try_push m x of (m', Inr _) \<Rightarrow> Some m' | _ \<Rightarrow> None)"

interpretation mailbox_fifo: fifo mb_queue mailbox_ok push_option mailbox_pop
  by unfold_locales
    (auto simp: push_option_def try_push_def mailbox_ok_def mailbox_pop_def split: if_splits list.splits)

section \<open>Encoded output units\<close>

record output_unit =
  ou_bytes :: charged_bytes
  ou_provenance :: semantic_provenance

definition drop_unit :: "ledger \<Rightarrow> output_unit \<Rightarrow> ledger" where
  "drop_unit l u = drop_chunk l (ou_bytes u)"

definition split_unit ::
  "output_unit \<Rightarrow> ledger \<Rightarrow> stream_id \<Rightarrow> usize \<Rightarrow> ledger \<times> (sse_error + output_unit \<times> output_unit)" where
  "split_unit u l sid at =
    (if at > length (cb_bytes (ou_bytes u)) then (drop_unit l u, Inl InvalidSplit)
     else case copy_from_opaque l sid OutputQueue (take at (cb_bytes (ou_bytes u))) of
       (l1, Inl _) \<Rightarrow> (drop_unit l1 u, Inl SseBudgetExceeded)
     | (l1, Inr left) \<Rightarrow>
        (case copy_from_opaque l1 sid OutputQueue (drop at (cb_bytes (ou_bytes u))) of
           (l2, Inl _) \<Rightarrow> (drop_unit (drop_chunk l2 left) u, Inl SseBudgetExceeded)
         | (l2, Inr right) \<Rightarrow>
            (drop_unit l2 u,
             Inr (\<lparr>ou_bytes = left, ou_provenance = ou_provenance u\<rparr>,
                  \<lparr>ou_bytes = right, ou_provenance = ou_provenance u\<rparr>))))"

definition merge_units ::
  "output_unit \<Rightarrow> output_unit \<Rightarrow> ledger \<Rightarrow> stream_id \<Rightarrow> ledger \<times> (sse_error + output_unit)" where
  "merge_units a b l sid =
    (let done = (\<lambda>l. drop_unit (drop_unit l a) b); x = cb_bytes (ou_bytes a); y = cb_bytes (ou_bytes b) in
     case checked_add (length x) (length y) of None \<Rightarrow> (done l, Inl SseBudgetExceeded)
     | Some capacity \<Rightarrow>
       (case builder_new l sid OutputQueue capacity of
          (l1, Inl _) \<Rightarrow> (done l1, Inl SseBudgetExceeded)
        | (l1, Inr b0) \<Rightarrow>
           (case extend_from_slice b0 x of
              (b1, Inl _) \<Rightarrow> (done (discard l1 (bb_reservation b1)), Inl SseBudgetExceeded)
            | (b1, Inr _) \<Rightarrow>
               (case extend_from_slice b1 y of
                  (b2, Inl _) \<Rightarrow> (done (discard l1 (bb_reservation b2)), Inl SseBudgetExceeded)
                | (b2, Inr _) \<Rightarrow>
                   (done l1, Inr \<lparr>ou_bytes = builder_finish b2,
                      ou_provenance = merge_provenance (ou_provenance a) (ou_provenance b)\<rparr>)))))"

definition replace_inheriting :: "output_unit \<Rightarrow> charged_bytes \<Rightarrow> ledger \<Rightarrow> ledger \<times> output_unit" where
  "replace_inheriting u c l = (drop_unit l u, \<lparr>ou_bytes = c, ou_provenance = ou_provenance u\<rparr>)"

definition replace_authorized ::
  "output_unit \<Rightarrow> charged_bytes \<Rightarrow> semantic_provenance \<Rightarrow> bool \<Rightarrow> ledger \<Rightarrow> ledger \<times> (sse_error + output_unit)" where
  "replace_authorized u c p authorized l =
    (if \<not> authorized then (drop_unit (drop_chunk l c) u, Inl SemanticReplacementNotAuthorized)
     else (drop_unit l u, Inr \<lparr>ou_bytes = c, ou_provenance = p\<rparr>))"

section \<open>Runs of the prefix\<close>

fun provenance_of :: "'d precommit_record \<Rightarrow> semantic_provenance" where
  "provenance_of (Raw _ p) = p"
| "provenance_of (InFlight _ p) = p"
| "provenance_of (Decoded _ _ p) = p"

definition keys :: "(u64 \<times> 'd precommit_record) list \<Rightarrow> (u64 \<times> semantic_provenance) list" where
  "keys rs = map (\<lambda>r. (fst r, provenance_of (snd r))) rs"

fun event_key :: "'d accepted_event \<Rightarrow> u64 \<times> semantic_provenance" where
  "event_key (NeedsDecode n _ p) = (n, p)"
| "event_key (AlreadyDecoded n _ _ p) = (n, p)"

text \<open>\<open>pushed\<close> is the history: the sequence number and provenance of every event pushed.\<close>

inductive precommit_run :: "'d precommit \<Rightarrow> (u64 \<times> semantic_provenance) list \<Rightarrow> bool" where
  New: "next_sequence s = 0 \<Longrightarrow> records s = [] \<Longrightarrow> precommit_run s []"
| Push: "precommit_run s pushed \<Longrightarrow> push_raw l s e p = (l', s', Inr n) \<Longrightarrow> precommit_run s' (pushed @ [(n, p)])"
| Take: "precommit_run s pushed \<Longrightarrow> take_raw s n = (s', Inr x) \<Longrightarrow> precommit_run s' pushed"
| Mark: "precommit_run s pushed \<Longrightarrow> mark_decoded s n d = (s', Inr ()) \<Longrightarrow> precommit_run s' pushed"
| Drop: "precommit_run s pushed \<Longrightarrow> drop_inflight s n = (s', Inr ()) \<Longrightarrow> precommit_run s' pushed"

lemma find_record_Some:
  "find_record s n = Some i \<Longrightarrow> i < length (records s) \<and> fst (records s ! i) = n"
  using position_Some by (fastforce simp: find_record_def)

lemma keys_update:
  assumes "i < length rs" "fst (rs ! i) = n" "provenance_of (snd (rs ! i)) = provenance_of r"
  shows "keys (rs[i := (n, r)]) = keys rs"
proof -
  have "(n, provenance_of r) = keys rs ! i" using assms by (simp add: keys_def)
  then show ?thesis by (simp add: keys_def map_update)
qed

lemma take_raw_ok:
  assumes "take_raw s n = (s', Inr (e, p))"
  obtains i where "find_record s n = Some i" "snd (records s ! i) = Raw e p"
    "s' = s\<lparr>records := (records s)[i := (n, InFlight (length (cb_bytes e)) p)]\<rparr>"
  using assms by (auto simp: take_raw_def split: option.splits precommit_record.splits)

lemma mark_decoded_ok:
  assumes "mark_decoded s n d = (s', Inr ())"
  obtains i k p where "find_record s n = Some i" "snd (records s ! i) = InFlight k p"
    "s' = s\<lparr>records := (records s)[i := (n, Decoded d k p)]\<rparr>"
  using assms by (auto simp: mark_decoded_def split: option.splits precommit_record.splits)

lemma drop_inflight_ok:
  assumes "drop_inflight s n = (s', Inr ())"
  obtains i k p where "find_record s n = Some i" "snd (records s ! i) = InFlight k p"
    "s' = s\<lparr>records := remove_at i (records s)\<rparr>"
  using assms by (auto simp: drop_inflight_def split: option.splits precommit_record.splits)

lemma subseq_remove_at: "subseq (remove_at i xs) xs"
proof -
  have "subseq (drop (Suc i) xs) (drop i xs)"
    by (cases "drop i xs") (auto simp: drop_Suc drop_tl intro: list_emb_Cons)
  then have "subseq (take i xs @ drop (Suc i) xs) (take i xs @ drop i xs)"
    by (intro list_emb_append_mono) auto
  then show ?thesis by (simp add: remove_at_def)
qed

lemma keys_remove_at: "keys (remove_at i rs) = remove_at i (keys rs)"
  by (simp add: keys_def remove_at_def take_map drop_map)

lemma precommit_run_keys:
  "precommit_run s pushed \<Longrightarrow> length pushed \<le> usize_max \<Longrightarrow>
    next_sequence s = length pushed \<and> map fst pushed = [0..<length pushed] \<and> subseq (keys (records s)) pushed"
proof (induction rule: precommit_run.induct)
  case (New s)
  then show ?case by (simp add: keys_def)
next
  case (Push s pushed l e p l' s' n)
  then show ?case
    by (auto simp: push_raw_def keys_def wrapping_add_within split: if_splits intro!: list_emb_append_mono)
next
  case (Take s pushed n s' x)
  obtain e p where "x = (e, p)" by (cases x)
  with Take.hyps(2) have "take_raw s n = (s', Inr (e, p))" by simp
  then obtain i where i: "find_record s n = Some i" "snd (records s ! i) = Raw e p"
    "s' = s\<lparr>records := (records s)[i := (n, InFlight (length (cb_bytes e)) p)]\<rparr>" by (rule take_raw_ok)
  then show ?case using Take find_record_Some [OF i(1)] keys_update [of i "records s" n] by simp
next
  case (Mark s pushed n d s')
  from Mark.hyps(2) obtain i k p where i: "find_record s n = Some i" "snd (records s ! i) = InFlight k p"
    "s' = s\<lparr>records := (records s)[i := (n, Decoded d k p)]\<rparr>" by (rule mark_decoded_ok)
  then show ?case using Mark find_record_Some [OF i(1)] keys_update [of i "records s" n] by simp
next
  case (Drop s pushed n s')
  from Drop.hyps(2) obtain i k p where i: "s' = s\<lparr>records := remove_at i (records s)\<rparr>" by (rule drop_inflight_ok)
  have "subseq (keys (records s')) (keys (records s))" unfolding i by (simp add: keys_remove_at subseq_remove_at)
  then show ?case using Drop i subseq_order.trans by auto
qed

lemma handoff_keys:
  "\<forall>r \<in> set rs. \<not> is_inflight (snd r) \<Longrightarrow>
    \<exists>es. handoff_events rs = map Some es \<and> map event_key es = keys rs"
proof (induction rs rule: handoff_events.induct)
  case (2 n e p rs)
  then obtain es where "handoff_events rs = map Some es" "map event_key es = keys rs" by auto
  then show ?case by (intro exI [of _ "NeedsDecode n e p # es"]) (simp add: keys_def)
next
  case (4 n d k p rs)
  then obtain es where "handoff_events rs = map Some es" "map event_key es = keys rs" by auto
  then show ?case by (intro exI [of _ "AlreadyDecoded n d k p # es"]) (simp add: keys_def)
qed (simp_all add: keys_def)

lemma distinct_subseq: "subseq xs ys \<Longrightarrow> distinct ys \<Longrightarrow> distinct xs"
  by (induction rule: list_emb.induct) (auto dest: list_emb_set)

lemma find_None_all: "find P xs = None \<longleftrightarrow> (\<forall>x \<in> set xs. \<not> P x)"
  by (induction xs) auto

section \<open>Properties\<close>

text \<open>
  The accepted hand-off is faithful: whatever pushes, classifications and drops happened, an
  accepted prefix yields an event for every record (none in flight), with distinct sequence
  numbers and the provenances they were pushed with, in push order.
\<close>

theorem handoff_faithful:
  assumes "precommit_run s pushed" and "length pushed \<le> usize_max" and "publish_accept s = Inr rs"
  shows "\<exists>es. handoff_events rs = map Some es \<and> length es = length (records s)
    \<and> subseq (map event_key es) pushed \<and> map fst pushed = [0..<length pushed]
    \<and> distinct (map (\<lambda>e. fst (event_key e)) es)"
proof -
  have rs: "rs = records s" "\<forall>r \<in> set rs. \<not> is_inflight (snd r)"
    using assms(3) by (auto simp: publish_accept_def find_None_all split: option.splits)
  obtain es where es: "handoff_events rs = map Some es" "map event_key es = keys rs"
    using handoff_keys [OF rs(2)] by blast
  have run: "map fst pushed = [0..<length pushed]" "subseq (map event_key es) pushed"
    using precommit_run_keys [OF assms(1,2)] es(2) rs(1) by auto
  have "subseq (map fst (map event_key es)) (map fst pushed)" by (rule subseq_map [OF run(2)])
  then have "distinct (map fst (map event_key es))" unfolding run(1) by (rule distinct_subseq) simp
  moreover have "length es = length (records s)" using arg_cong [OF es(2), of length] rs(1) by (simp add: keys_def)
  ultimately show ?thesis using es(1) run by (auto simp: comp_def)
qed

definition sample_prefix :: "nat precommit" where
  "sample_prefix = \<lparr>next_sequence = 2, records = [(0, Decoded 9 2 NonSemantic), (1, Raw (output_chunk ''c'') ProducesSemantic)],
     pc_capacity = usize_max, pc_metadata = None\<rparr>"

lemma sample_prefix_run: "precommit_run sample_prefix [(0, NonSemantic), (1, ProducesSemantic)]"
proof -
  let ?e = "output_chunk ''ab''" and ?f = "output_chunk ''c''"
  have 0: "precommit_run (precommit_new :: nat precommit) []"
    by (rule precommit_run.New) (simp_all add: precommit_new_def)
  have 1: "precommit_run ((precommit_new :: nat precommit)\<lparr>next_sequence := 1, records := [(0, Raw ?e NonSemantic)]\<rparr>) [(0, NonSemantic)]"
    using precommit_run.Push [OF 0, of sample_ledger ?e NonSemantic sample_ledger
        "precommit_new\<lparr>next_sequence := 1, records := [(0, Raw ?e NonSemantic)]\<rparr>" 0]
    by (simp add: push_raw_def precommit_new_def wrapping_add_def usize_max_def)
  have 2: "precommit_run ((precommit_new :: nat precommit)\<lparr>next_sequence := 2, records := [(0, Raw ?e NonSemantic), (1, Raw ?f ProducesSemantic)]\<rparr>)
      [(0, NonSemantic), (1, ProducesSemantic)]"
    using precommit_run.Push [OF 1, of sample_ledger ?f ProducesSemantic sample_ledger
        "precommit_new\<lparr>next_sequence := 2, records := [(0, Raw ?e NonSemantic), (1, Raw ?f ProducesSemantic)]\<rparr>" 1]
    by (simp add: push_raw_def precommit_new_def wrapping_add_def usize_max_def)
  have 3: "precommit_run ((precommit_new :: nat precommit)\<lparr>next_sequence := 2, records := [(0, InFlight 2 NonSemantic), (1, Raw ?f ProducesSemantic)]\<rparr>)
      [(0, NonSemantic), (1, ProducesSemantic)]"
    using precommit_run.Take [OF 2, of 0 "precommit_new\<lparr>next_sequence := 2,
        records := [(0, InFlight 2 NonSemantic), (1, Raw ?f ProducesSemantic)]\<rparr>" "(?e, NonSemantic)"]
    by (simp add: take_raw_def find_record_def output_chunk_def)
  show ?thesis
    using precommit_run.Mark [OF 3, of 0 9 sample_prefix]
    by (simp add: mark_decoded_def find_record_def sample_prefix_def precommit_new_def)
qed

theorem handoff_faithful_witness:
  "\<exists>es. handoff_events (records sample_prefix) = map Some es \<and> length es = 2
    \<and> distinct (map (\<lambda>e. fst (event_key e)) es)"
proof -
  have pub: "publish_accept sample_prefix = Inr (records sample_prefix)"
    by (simp add: publish_accept_def sample_prefix_def)
  have le: "length [(0, NonSemantic), (1 :: u64, ProducesSemantic)] \<le> usize_max" by (simp add: usize_max_def)
  have "length (records sample_prefix) = 2" by (simp add: sample_prefix_def)
  then show ?thesis using handoff_faithful [OF sample_prefix_run le pub] by auto
qed

text \<open>
  Classification is exclusive: while the classifier owns an event the prefix cannot be
  published and the event cannot be taken again, and handing the decoded form back keeps its
  position, its source size and its provenance.
\<close>

theorem classification_exclusive:
  assumes "take_raw s n = (s', Inr (e, p))"
  shows "(\<exists>m. publish_accept s' = Inl (SequenceStillInFlight m))
    \<and> snd (take_raw s' n) = Inl (SequenceAlreadyDecoded n)
    \<and> (\<exists>i s''. find_record s n = Some i \<and> mark_decoded s' n d = (s'', Inr ())
        \<and> records s'' = (records s)[i := (n, Decoded d (length (cb_bytes e)) p)])"
proof -
  from assms obtain i where i: "find_record s n = Some i" "snd (records s ! i) = Raw e p"
    "s' = s\<lparr>records := (records s)[i := (n, InFlight (length (cb_bytes e)) p)]\<rparr>" by (rule take_raw_ok)
  have lt: "i < length (records s)" "fst (records s ! i) = n" using find_record_Some [OF i(1)] by auto
  have "map fst (records s') = map fst (records s)"
    unfolding i(3) using lt by (simp add: map_update list_update_id [of "map fst (records s)" i, simplified])
      (metis list_update_id length_map nth_map)
  moreover have "position (\<lambda>r. fst r = n) xs = position (\<lambda>m. m = n) (map fst xs)"
    for xs :: "(u64 \<times> 'a precommit_record) list" by (induction xs) auto
  ultimately have fr: "find_record s' n = Some i" using i(1) by (simp add: find_record_def)
  have at: "records s' ! i = (n, InFlight (length (cb_bytes e)) p)" using i(3) lt by simp
  have "find (\<lambda>r. is_inflight (snd r)) (records s') \<noteq> None"
    unfolding find_None_all using at lt(1) i(3) by (force simp: in_set_conv_nth)
  then show ?thesis using fr at i by (auto simp: publish_accept_def take_raw_def mark_decoded_def)
qed

theorem classification_exclusive_witness:
  "\<exists>s'. take_raw sample_prefix 1 = (s', Inr (output_chunk ''c'', ProducesSemantic))
    \<and> snd (take_raw s' 1) = Inl (SequenceAlreadyDecoded 1)"
proof -
  obtain s' where t: "take_raw sample_prefix 1 = (s', Inr (output_chunk ''c'', ProducesSemantic))"
    by (simp add: take_raw_def find_record_def sample_prefix_def)
  from classification_exclusive [OF t] t show ?thesis by blast
qed

lemma extend_twice:
  assumes "bb_bytes b = []" "bb_capacity b = length x + length y" "length x + length y \<le> usize_max"
  shows "extend_from_slice b x = (b\<lparr>bb_bytes := x\<rparr>, Inr ())"
    "extend_from_slice (b\<lparr>bb_bytes := x\<rparr>) y = (b\<lparr>bb_bytes := x @ y\<rparr>, Inr ())"
  using assms by (simp_all add: extend_from_slice_def saturating_add_within)

lemma merge_units_ok:
  assumes "merge_units a b l sid = (l', Inr m)"
  shows "cb_bytes (ou_bytes m) = cb_bytes (ou_bytes a) @ cb_bytes (ou_bytes b)
    \<and> ou_provenance m = merge_provenance (ou_provenance a) (ou_provenance b)"
proof -
  let ?x = "cb_bytes (ou_bytes a)" and ?y = "cb_bytes (ou_bytes b)"
  have le: "length ?x + length ?y \<le> usize_max"
    using assms by (auto simp: merge_units_def Let_def split: option.splits)
  obtain l1 r1 where r1: "builder_new l sid OutputQueue (length ?x + length ?y) = (l1, r1)"
    by (cases "builder_new l sid OutputQueue (length ?x + length ?y)")
  then obtain b0 where b0: "builder_new l sid OutputQueue (length ?x + length ?y) = (l1, Inr b0)"
    using assms le by (cases r1) (auto simp: merge_units_def checked_add_def Let_def)
  then have "bb_bytes b0 = []" "bb_capacity b0 = length ?x + length ?y"
    by (auto simp: builder_new_def split: prod.splits sum.splits)
  note ext = extend_twice [OF this le]
  show ?thesis using assms le b0 ext by (auto simp: merge_units_def checked_add_def builder_finish_def Let_def)
qed

lemma split_unit_ok:
  assumes "split_unit u l sid at = (l1, Inr (a, b))"
  shows "cb_bytes (ou_bytes a) = take at (cb_bytes (ou_bytes u))" "cb_bytes (ou_bytes b) = drop at (cb_bytes (ou_bytes u))"
    "ou_provenance a = ou_provenance u" "ou_provenance b = ou_provenance u"
  using assms by (auto simp: split_unit_def dest: copy_made(1) split: if_splits prod.splits sum.splits)

text \<open>
  Splitting an output unit and merging the parts gives its bytes and provenance back, and the
  merge of any two units is semantic if and only if one of them is.
\<close>

theorem split_merge_roundtrip:
  assumes "split_unit u l sid at = (l1, Inr (a, b))" and "merge_units a b l2 sid2 = (l3, Inr m)"
  shows "cb_bytes (ou_bytes m) = cb_bytes (ou_bytes u) \<and> ou_provenance m = ou_provenance u
    \<and> (\<forall>x y k n k' z. merge_units x y k n = (k', Inr z) \<longrightarrow>
        (ou_provenance z = ProducesSemantic \<longleftrightarrow> ou_provenance x = ProducesSemantic \<or> ou_provenance y = ProducesSemantic))"
proof -
  have p: "ou_provenance u = ProducesSemantic \<or> ou_provenance u = NonSemantic"
    by (cases "ou_provenance u") auto
  show ?thesis
    using split_unit_ok [OF assms(1)] merge_units_ok [OF assms(2)] p merge_units_ok by auto
qed

theorem split_merge_roundtrip_witness:
  "\<exists>l1 a b l3 m. split_unit \<lparr>ou_bytes = output_chunk ''ab'', ou_provenance = ProducesSemantic\<rparr> sample_ledger 1 1 = (l1, Inr (a, b))
    \<and> merge_units a b sample_ledger 1 = (l3, Inr m) \<and> cb_bytes (ou_bytes m) = ''ab''"
proof -
  let ?u = "\<lparr>ou_bytes = output_chunk ''ab'', ou_provenance = ProducesSemantic\<rparr>"
  obtain l1 a b where s: "split_unit ?u sample_ledger 1 1 = (l1, Inr (a, b))"
    by (simp add: split_unit_def output_chunk_def copy_from_opaque_def acquire_def sample_ledger_def sample_tree_defs
        fresh_stream_def reserve_def commit_reserve_def commit_totals_def raise_role_peaks_def checked_add_def
        usize_max_def charge_stream_def)
  have ab: "cb_bytes (ou_bytes a) = ''a''" "cb_bytes (ou_bytes b) = ''b''"
    using split_unit_ok [OF s] by (simp_all add: output_chunk_def)
  obtain l3 m where m: "merge_units a b sample_ledger 1 = (l3, Inr m)"
    by (simp add: merge_units_def ab builder_new_def extend_from_slice_def saturating_add_def acquire_def
        sample_ledger_def sample_tree_defs fresh_stream_def reserve_def commit_reserve_def commit_totals_def
        raise_role_peaks_def checked_add_def usize_max_def charge_stream_def Let_def)
  from split_merge_roundtrip [OF s m] have "cb_bytes (ou_bytes m) = ''ab''" by (simp add: output_chunk_def)
  then show ?thesis using s m by (intro exI conjI)
qed

end
