(* ===== verification/Scopes.thy ===== *)
theory Scopes
  imports Prelude
begin

text \<open>
  The scope supervisor (\<^verbatim>\<open>gateway-core/src/runtime/scope.rs\<close>): one logical request, any number
  of route attempts of which one is active at a time, at most one accepted response. A guard is a
  linear value; its \<open>finalize\<close> and its \<open>Drop\<close> both run \<open>finalize_once\<close>. The methods are taken as
  atomic: the task that owns a request calls them one after the other.
\<close>

datatype scope_kind = LogicalRequestScope | RouteAttemptScope | AcceptedResponseScope

datatype scope_error = LogicalAlreadyStarted | LogicalNotStarted | AttemptStillActive | AcceptedAlreadyStarted

record scope_state =
  next_id :: u64
  logical_started :: bool
  logical_finalized :: usize
  active_attempt :: bool
  attempt_started :: usize
  attempt_finalized :: usize
  accepted_started :: bool
  accepted_finalized :: usize

definition scope_default :: scope_state where
  "scope_default = \<lparr>next_id = 0, logical_started = False, logical_finalized = 0, active_attempt = False,
     attempt_started = 0, attempt_finalized = 0, accepted_started = False, accepted_finalized = 0\<rparr>"

record scope_guard =
  sg_id :: u64
  sg_kind :: scope_kind
  sg_finalized :: bool

definition new_guard :: "scope_kind \<Rightarrow> scope_state \<Rightarrow> scope_state \<times> scope_guard" where
  "new_guard k s =
    (s\<lparr>next_id := wrapping_add (next_id s) 1\<rparr>,
     \<lparr>sg_id = wrapping_add (next_id s) 1, sg_kind = k, sg_finalized = False\<rparr>)"

definition begin_logical :: "scope_state \<Rightarrow> scope_state \<times> (scope_error + scope_guard)" where
  "begin_logical s =
    (if logical_started s then (s, Inl LogicalAlreadyStarted)
     else let (s', g) = new_guard LogicalRequestScope (s\<lparr>logical_started := True\<rparr>) in (s', Inr g))"

definition begin_attempt :: "scope_state \<Rightarrow> scope_state \<times> (scope_error + scope_guard)" where
  "begin_attempt s =
    (if \<not> logical_started s then (s, Inl LogicalNotStarted)
     else if accepted_started s then (s, Inl AcceptedAlreadyStarted)
     else if active_attempt s then (s, Inl AttemptStillActive)
     else let (s', g) = new_guard RouteAttemptScope
            (s\<lparr>active_attempt := True, attempt_started := wrapping_add (attempt_started s) 1\<rparr>)
          in (s', Inr g))"

definition begin_accepted :: "scope_state \<Rightarrow> scope_state \<times> (scope_error + scope_guard)" where
  "begin_accepted s =
    (if active_attempt s then (s, Inl AttemptStillActive)
     else if accepted_started s then (s, Inl AcceptedAlreadyStarted)
     else let (s', g) = new_guard AcceptedResponseScope (s\<lparr>accepted_started := True\<rparr>) in (s', Inr g))"

definition finalize_once :: "scope_state \<Rightarrow> scope_guard \<Rightarrow> scope_state \<times> scope_guard" where
  "finalize_once s g =
    (if sg_finalized g then (s, g)
     else (case sg_kind g of
         LogicalRequestScope \<Rightarrow> s\<lparr>logical_finalized := wrapping_add (logical_finalized s) 1\<rparr>
       | RouteAttemptScope \<Rightarrow>
           s\<lparr>attempt_finalized := wrapping_add (attempt_finalized s) 1, active_attempt := False\<rparr>
       | AcceptedResponseScope \<Rightarrow> s\<lparr>accepted_finalized := wrapping_add (accepted_finalized s) 1\<rparr>,
       g\<lparr>sg_finalized := True\<rparr>))"

text \<open>\<open>finalize\<close> consumes the guard, whose \<open>Drop\<close> then runs \<open>finalize_once\<close> again.\<close>

definition finalize_guard :: "scope_state \<Rightarrow> scope_guard \<Rightarrow> scope_state" where
  "finalize_guard s g = (let (s', g') = finalize_once s g in fst (finalize_once s' g'))"

record scope_counts =
  c_logical_finalized :: usize
  c_attempts_started :: usize
  c_attempts_finalized :: usize
  c_accepted_started :: usize
  c_accepted_finalized :: usize

definition counts :: "scope_state \<Rightarrow> scope_counts" where
  "counts s = \<lparr>c_logical_finalized = logical_finalized s, c_attempts_started = attempt_started s,
     c_attempts_finalized = attempt_finalized s, c_accepted_started = (if accepted_started s then 1 else 0),
     c_accepted_finalized = accepted_finalized s\<rparr>"

section \<open>Runs\<close>

text \<open>\<open>issued\<close> lists all guards handed out, newest first; \<open>live\<close> those not yet finalised.\<close>

record scope_world =
  sup :: scope_state
  issued :: "(u64 \<times> scope_kind) list"
  live_guards :: "scope_guard list"

inductive scope_step :: "scope_world \<Rightarrow> scope_world \<Rightarrow> bool" where
  Begun: "begin_op \<in> {begin_logical, begin_attempt, begin_accepted} \<Longrightarrow> begin_op (sup w) = (s, Inr g) \<Longrightarrow>
     scope_step w (w\<lparr>sup := s, issued := (sg_id g, sg_kind g) # issued w, live_guards := g # live_guards w\<rparr>)"
| Refused: "begin_op \<in> {begin_logical, begin_attempt, begin_accepted} \<Longrightarrow> begin_op (sup w) = (s, Inl e) \<Longrightarrow>
     scope_step w (w\<lparr>sup := s\<rparr>)"
| Finalized: "live_guards w = gs @ g # hs \<Longrightarrow>
     scope_step w (w\<lparr>sup := finalize_guard (sup w) g, live_guards := gs @ hs\<rparr>)"

inductive scope_run :: "scope_world \<Rightarrow> bool" where
  Fresh: "scope_run \<lparr>sup = scope_default, issued = [], live_guards = []\<rparr>"
| Then: "scope_run w \<Longrightarrow> scope_step w w' \<Longrightarrow> scope_run w'"

definition issued_of :: "scope_kind \<Rightarrow> scope_world \<Rightarrow> nat" where
  "issued_of k w = length (filter (\<lambda>i. snd i = k) (issued w))"

definition live_of :: "scope_kind \<Rightarrow> scope_world \<Rightarrow> nat" where
  "live_of k w = length (filter (\<lambda>g. sg_kind g = k) (live_guards w))"

definition scope_inv :: "scope_world \<Rightarrow> bool" where
  "scope_inv w \<longleftrightarrow>
     (let s = sup w in
       next_id s = length (issued w) \<and> map fst (issued w) = rev [1..<Suc (length (issued w))]
     \<and> list_all (\<lambda>g. \<not> sg_finalized g) (live_guards w)
     \<and> issued_of LogicalRequestScope w = (if logical_started s then 1 else 0)
     \<and> issued_of AcceptedResponseScope w = (if accepted_started s then 1 else 0)
     \<and> issued_of RouteAttemptScope w = attempt_started s
     \<and> live_of RouteAttemptScope w = (if active_attempt s then 1 else 0)
     \<and> attempt_started s = attempt_finalized s + live_of RouteAttemptScope w
     \<and> issued_of LogicalRequestScope w = logical_finalized s + live_of LogicalRequestScope w
     \<and> issued_of AcceptedResponseScope w = accepted_finalized s + live_of AcceptedResponseScope w
     \<and> (attempt_started s = 0 \<or> logical_started s))"

lemmas begin_defs = begin_logical_def begin_attempt_def begin_accepted_def new_guard_def

lemma finalize_guard_once: "\<not> sg_finalized g \<Longrightarrow> finalize_guard s g = fst (finalize_once s g)"
  by (simp add: finalize_guard_def finalize_once_def)

lemma issued_attempts_le: "issued_of k w \<le> length (issued w)"
  by (simp add: issued_of_def)

lemma scope_inv_begun:
  assumes inv: "scope_inv w" and op: "begin_op \<in> {begin_logical, begin_attempt, begin_accepted}"
    and run: "begin_op (sup w) = (s, Inr g)" and room: "length (issued w) < usize_max"
  shows "scope_inv (w\<lparr>sup := s, issued := (sg_id g, sg_kind g) # issued w, live_guards := g # live_guards w\<rparr>)"
proof -
  have att: "attempt_started (sup w) < usize_max"
    using inv issued_attempts_le [of RouteAttemptScope w] room by (simp add: scope_inv_def Let_def)
  have nid: "next_id (sup w) < usize_max" using inv room by (simp add: scope_inv_def Let_def)
  have ids: "rev [Suc 0..<Suc (Suc n)] = Suc n # rev [Suc 0..<Suc n]" for n by simp
  have sum: "wrapping_add a 1 = Suc a" if "a < usize_max" for a using that by (simp add: wrapping_add_within)
  note parts = inv [unfolded scope_inv_def Let_def issued_of_def live_of_def]
  consider (L) "begin_op = begin_logical" | (T) "begin_op = begin_attempt" | (A) "begin_op = begin_accepted"
    using op by auto
  then show ?thesis
  proof cases
    case L
    then have s: "\<not> logical_started (sup w)" "s = (sup w)\<lparr>logical_started := True, next_id := Suc (next_id (sup w))\<rparr>"
      "sg_id g = Suc (next_id (sup w))" "sg_kind g = LogicalRequestScope" "\<not> sg_finalized g"
      using run sum [OF nid] by (auto simp: begin_defs split: if_splits)
    show ?thesis using parts s by (auto simp: scope_inv_def issued_of_def live_of_def ids simp del: upt_Suc)
  next
    case T
    then have s: "logical_started (sup w)" "\<not> active_attempt (sup w)"
      "s = (sup w)\<lparr>active_attempt := True, attempt_started := Suc (attempt_started (sup w)), next_id := Suc (next_id (sup w))\<rparr>"
      "sg_id g = Suc (next_id (sup w))" "sg_kind g = RouteAttemptScope" "\<not> sg_finalized g"
      using run sum [OF nid] sum [OF att] by (auto simp: begin_defs split: if_splits)
    show ?thesis using parts s by (auto simp: scope_inv_def issued_of_def live_of_def ids simp del: upt_Suc)
  next
    case A
    then have s: "\<not> accepted_started (sup w)" "s = (sup w)\<lparr>accepted_started := True, next_id := Suc (next_id (sup w))\<rparr>"
      "sg_id g = Suc (next_id (sup w))" "sg_kind g = AcceptedResponseScope" "\<not> sg_finalized g"
      using run sum [OF nid] by (auto simp: begin_defs split: if_splits)
    show ?thesis using parts s by (auto simp: scope_inv_def issued_of_def live_of_def ids simp del: upt_Suc)
  qed
qed

lemma scope_inv_finalized:
  assumes inv: "scope_inv w" and live: "live_guards w = gs @ g # hs" and room: "length (issued w) \<le> usize_max"
  shows "scope_inv (w\<lparr>sup := finalize_guard (sup w) g, live_guards := gs @ hs\<rparr>)"
proof -
  have nf: "\<not> sg_finalized g" using inv live by (simp add: scope_inv_def Let_def)
  have le: "issued_of k w \<le> usize_max" for k using issued_attempts_le [of k w] room by simp
  show ?thesis
    using inv live nf le [of LogicalRequestScope] le [of RouteAttemptScope] le [of AcceptedResponseScope]
    by (cases "sg_kind g")
      (auto simp: scope_inv_def Let_def finalize_guard_once finalize_once_def issued_of_def live_of_def
        wrapping_add_within split: if_splits)
qed

lemma scope_step_issued: "scope_step w w' \<Longrightarrow> length (issued w) \<le> length (issued w')"
  by (auto elim: scope_step.cases)

lemma scope_run_inv: "scope_run w \<Longrightarrow> length (issued w) \<le> usize_max \<Longrightarrow> scope_inv w"
proof (induction rule: scope_run.induct)
  case Fresh
  then show ?case by (simp add: scope_inv_def scope_default_def issued_of_def live_of_def)
next
  case (Then w w')
  have inv: "scope_inv w" using Then scope_step_issued [OF Then.hyps(2)] by simp
  from Then.hyps(2) show ?case
  proof cases
    case (Begun begin_op s g)
    then show ?thesis using scope_inv_begun [OF inv] Then.prems by simp
  next
    case (Refused begin_op s e)
    then have "s = sup w" by (auto simp: begin_defs split: if_splits)
    then show ?thesis using inv Refused(1) by simp
  next
    case (Finalized gs g hs)
    then show ?thesis using scope_inv_finalized [OF inv Finalized(2)] Then.prems by simp
  qed
qed

section \<open>Properties\<close>

text \<open>
  C26. Scope cardinality: in every run of the supervisor the guards handed out are at most one
  logical request and at most one accepted response, at most one attempt is live, every
  attempt not live has been finalised exactly once, ids are distinct, no attempt exists without a
  logical request, and once a response is accepted or an attempt is live no attempt can begin.
\<close>

theorem scope_cardinality:
  assumes "scope_run w" and "length (issued w) \<le> usize_max"
  shows "issued_of LogicalRequestScope w \<le> 1 \<and> issued_of AcceptedResponseScope w \<le> 1
    \<and> live_of RouteAttemptScope w \<le> 1
    \<and> issued_of RouteAttemptScope w = c_attempts_finalized (counts (sup w)) + live_of RouteAttemptScope w
    \<and> distinct (map fst (issued w))
    \<and> (issued_of RouteAttemptScope w = 0 \<or> issued_of LogicalRequestScope w = 1)
    \<and> (live_of RouteAttemptScope w = 1 \<or> issued_of AcceptedResponseScope w = 1 \<longrightarrow>
        \<not> is_ok (snd (begin_attempt (sup w))))
    \<and> (live_of RouteAttemptScope w = 1 \<longrightarrow> \<not> is_ok (snd (begin_accepted (sup w))))"
proof -
  have inv: "scope_inv w" by (rule scope_run_inv [OF assms])
  then have "distinct (map fst (issued w))" by (simp add: scope_inv_def Let_def del: upt_Suc)
  then show ?thesis using inv
    by (auto simp: scope_inv_def Let_def counts_def begin_attempt_def begin_accepted_def
        simp del: upt_Suc split: if_splits)
qed

lemma scope_sample:
  "scope_run \<lparr>sup = scope_default\<lparr>next_id := 2, logical_started := True, active_attempt := True, attempt_started := 1\<rparr>,
     issued = [(2, RouteAttemptScope), (1, LogicalRequestScope)],
     live_guards = [\<lparr>sg_id = 2, sg_kind = RouteAttemptScope, sg_finalized = False\<rparr>,
       \<lparr>sg_id = 1, sg_kind = LogicalRequestScope, sg_finalized = False\<rparr>]\<rparr>"
proof -
  let ?w0 = "\<lparr>sup = scope_default, issued = [], live_guards = []\<rparr>"
  let ?g1 = "\<lparr>sg_id = 1, sg_kind = LogicalRequestScope, sg_finalized = False\<rparr>"
  let ?s1 = "scope_default\<lparr>next_id := 1, logical_started := True\<rparr>"
  let ?w1 = "\<lparr>sup = ?s1, issued = [(1, LogicalRequestScope)], live_guards = [?g1]\<rparr>"
  have b1: "begin_logical (sup ?w0) = (?s1, Inr ?g1)"
    by (simp add: begin_defs scope_default_def wrapping_add_def)
  have "scope_step ?w0 ?w1" using scope_step.Begun [where begin_op = begin_logical, OF _ b1] by simp
  then have r1: "scope_run ?w1" using scope_run.Then [OF scope_run.Fresh] by blast
  let ?g2 = "\<lparr>sg_id = 2, sg_kind = RouteAttemptScope, sg_finalized = False\<rparr>"
  let ?s2 = "scope_default\<lparr>next_id := 2, logical_started := True, active_attempt := True, attempt_started := 1\<rparr>"
  have b2: "begin_attempt (sup ?w1) = (?s2, Inr ?g2)"
    by (simp add: begin_defs scope_default_def wrapping_add_def)
  have "scope_step ?w1 \<lparr>sup = ?s2, issued = [(2, RouteAttemptScope), (1, LogicalRequestScope)], live_guards = [?g2, ?g1]\<rparr>"
    using scope_step.Begun [where begin_op = begin_attempt, OF _ b2] by simp
  then show ?thesis using scope_run.Then [OF r1] by blast
qed

theorem scope_cardinality_witness:
  "\<exists>w. scope_run w \<and> live_of RouteAttemptScope w = 1 \<and> \<not> is_ok (snd (begin_attempt (sup w)))
    \<and> \<not> is_ok (snd (begin_accepted (sup w)))"
proof -
  obtain w where run: "scope_run w" and two: "length (issued w) = 2" and live: "live_of RouteAttemptScope w = 1"
    using scope_sample by (force simp: live_of_def)
  have "length (issued w) \<le> usize_max" using two by (simp add: usize_max_def)
  from scope_cardinality [OF run this] run live show ?thesis by blast
qed

end
