(* ===== verification/Attempt_Gate.thy ===== *)
theory Attempt_Gate
  imports Body_Framing Sse_Precommit
begin

text \<open>
  The vocabulary of one route attempt (\<^verbatim>\<open>gateway-core/src/runtime/attempt/gate.rs\<close>,
  \<^verbatim>\<open>error.rs\<close>, \<^verbatim>\<open>transport.rs\<close>, \<^verbatim>\<open>exchange.rs\<close>): commit fences, writer states, permits, the
  prepared request body with its sequential reader contract, the two-part response window and
  the attempt's clock. Error payload texts are kept as strings.
\<close>

section \<open>Errors\<close>

datatype attempt_error =
    InvalidTarget string | ZeroWriteQuantum | ZeroPrecommitCapacity | InvalidCleanupTimeout
  | InvalidBodyPlan string | RequestChunkExceedsWriteQuantum | SequentialBodyFilterUnsupported
  | SequentialBodyContractViolation | DuplexWriteUnsupported | MissingPendingDuplexWrite
  | ConnectFailed | ConnectTimeout | RequestWriteTimeout | FirstByteTimeout | StreamIdleTimeout
  | Transport string | ReconnectAfterCommit | SyntheticReplyAfterUpstreamStart | PreexchangeAccept
  | FenceAlreadyAdvanced | FenceNotStarted | ExchangeFinalized | NoDispositionCandidate
  | DispositionAlreadyPublished | AcceptWasNotBlocked | BlockedAcceptMustBecomeNonAccept
  | InvalidDispositionPermit | AcceptLivenessChanged | DeadlineExceeded | Cancelled
  | CleanupTimeout | AcceptedResponseNotReady | DispositionAfterDownstreamCommit
  | DownstreamWriteBeforeDisposition | AcceptedResponseScopeAlreadyCreated
  | AcceptedResponseScopeNotCreated | DownstreamHeaderNotCommitted
  | ContinueCannotWriteDownstream | AttemptBody body_error

text \<open>\<open>#[from] BodyError\<close>: the question mark converts.\<close>

fun lift_body :: "body_error + 'a \<Rightarrow> attempt_error + 'a" where
  "lift_body (Inl e) = Inl (AttemptBody e)"
| "lift_body (Inr x) = Inr x"

lemma lift_body_Inr [res_simps]: "lift_body r = Inr x \<longleftrightarrow> r = Inr x"
  by (cases r) auto

section \<open>Fences, states, permits\<close>

datatype commit_fence = Clear | WriteStartedMayHaveCommitted | WriteConfirmed

definition fence_begin_write :: "commit_fence \<Rightarrow> attempt_error + commit_fence" where
  "fence_begin_write f =
    (if f \<noteq> Clear then Inl FenceAlreadyAdvanced else Inr WriteStartedMayHaveCommitted)"

definition fence_confirm :: "commit_fence \<Rightarrow> attempt_error + commit_fence" where
  "fence_confirm f =
    (if f \<noteq> WriteStartedMayHaveCommitted then Inl FenceNotStarted else Inr WriteConfirmed)"

datatype writer_state =
    NotStarted | HeaderWriteStarted | HeaderWritten | BodyWriting | EosWriting
  | QuiescedNormalEos | Cancelling | QuiescedCancelReset

datatype disposition = Accept | Continue | Terminate

datatype accept_blocked_reason = WriterNotNormalEos | BlockedDeadline | BlockedCancelled | ResponseNotLive

datatype request_close_mode = NormalEos | CancelReset

type_synonym request_id = u64
type_synonym attempt_id = u64
type_synonym generation = u64

record permit =
  pm_request :: request_id
  pm_attempt :: attempt_id
  pm_generation :: generation
  pm_disposition :: disposition
  pm_nonce :: u64
  pm_header_fence :: commit_fence
  pm_semantic_fence :: commit_fence
  pm_scope_created :: bool

datatype writer_gate =
    ReadyToPublishAccept request_close_mode permit
  | ReadyToPublishNonAccept request_close_mode permit
  | AcceptBlocked accept_blocked_reason

record published_disposition =
  pd_request :: request_id
  pd_attempt :: attempt_id
  pd_generation :: generation
  pd_disposition :: disposition

text \<open>\<open>PreexchangeDispositionGate\<close>: a candidate that failed before an exchange existed.\<close>

record preexchange_gate =
  pg_request :: request_id
  pg_attempt :: attempt_id
  pg_generation :: generation

definition preexchange_publish :: "preexchange_gate \<Rightarrow> disposition \<Rightarrow> attempt_error + published_disposition" where
  "preexchange_publish g d =
    (if d = Accept then Inl PreexchangeAccept
     else Inr \<lparr>pd_request = pg_request g, pd_attempt = pg_attempt g, pd_generation = pg_generation g,
               pd_disposition = d\<rparr>)"

section \<open>The prepared request body\<close>

text \<open>
  A queue holds the charged chunks' bytes. A sequential reader is code behind a trait: it stands
  here as the list of what its successive \<open>next_chunk\<close> calls return, ending in \<open>None\<close>.
  The role transfer of a chunk on its way to the transport cannot fail for a chunk the ledger
  owns (\<open>transfer_owned_chunk\<close> in \<^verbatim>\<open>Request_Body\<close>).
\<close>

datatype body_source = QueueSource "bytes list" | SequentialSource "(attempt_error + bytes option) list"

record prepared_body =
  pb_source :: "body_source option"
  sequential_remaining :: "usize option"
  sequential_quantum :: "usize option"
  pb_lease :: bool

definition body_new :: "bytes list \<Rightarrow> bool list \<Rightarrow> attempt_error + prepared_body" where
  "body_new chunks is_attempt_wire =
    (if list_ex Not is_attempt_wire then Inl (AttemptBody WrongMemoryRole)
     else Inr \<lparr>pb_source = Some (QueueSource chunks), sequential_remaining = None, sequential_quantum = None,
               pb_lease = True\<rparr>)"

definition body_from_reader ::
  "usize \<Rightarrow> usize \<Rightarrow> (attempt_error + bytes option) list \<Rightarrow> attempt_error + prepared_body" where
  "body_from_reader visible quantum reader =
    (if quantum = 0 then Inl RequestChunkExceedsWriteQuantum
     else Inr \<lparr>pb_source = Some (SequentialSource reader), sequential_remaining = Some visible,
               sequential_quantum = Some quantum, pb_lease = True\<rparr>)"

definition unwrap_or_zero :: "usize option \<Rightarrow> usize" where
  "unwrap_or_zero m = (case m of None \<Rightarrow> 0 | Some n \<Rightarrow> n)"

definition visible_bytes :: "prepared_body \<Rightarrow> usize" where
  "visible_bytes b =
    (case pb_source b of
       Some (QueueSource cs) \<Rightarrow> sum_list (map length cs)
     | Some (SequentialSource _) \<Rightarrow> unwrap_or_zero (sequential_remaining b)
     | None \<Rightarrow> 0)"

definition body_max_chunk_bytes :: "prepared_body \<Rightarrow> usize" where
  "body_max_chunk_bytes b =
    (case pb_source b of
       Some (QueueSource cs) \<Rightarrow> (if cs = [] then 1 else fold max (map length cs) 0)
     | Some (SequentialSource _) \<Rightarrow> unwrap_or_zero (sequential_quantum b)
     | None \<Rightarrow> 0)"

text \<open>The admission loop of \<open>validate_body_plan\<close>; its quantum is not zero.\<close>

function admit_in_quanta :: "usize \<Rightarrow> usize \<Rightarrow> plan_executor \<Rightarrow> plan_executor \<times> (body_error + unit)" where
  "admit_in_quanta quantum remaining ex =
    (if remaining = 0 \<or> quantum = 0 then (ex, Inr ())
     else case admit_chunk ex (min remaining quantum) of
         (ex', Inl e) \<Rightarrow> (ex', Inl e)
       | (ex', Inr _) \<Rightarrow> admit_in_quanta quantum (remaining - min remaining quantum) ex')"
  by pat_completeness auto
termination by (relation "measure (\<lambda>(q, r, ex). r)") auto

declare admit_in_quanta.simps [simp del]

definition validate_body_plan :: "prepared_body \<Rightarrow> plan_executor \<Rightarrow> plan_executor \<times> (attempt_error + unit)" where
  "validate_body_plan b ex =
    (if visible_bytes b \<noteq> 0 \<and> body_max_chunk_bytes b = 0 then (ex, Inl RequestChunkExceedsWriteQuantum)
     else case admit_in_quanta (body_max_chunk_bytes b) (visible_bytes b) ex of
         (ex', Inl e) \<Rightarrow> (ex', Inl (AttemptBody e))
       | (ex', Inr _) \<Rightarrow>
          (case executor_finish ex' of
             (ex'', Inl e) \<Rightarrow> (ex'', Inl (AttemptBody e))
           | (ex'', Inr _) \<Rightarrow> (ex'', Inr ())))"

definition take_filter_chunks :: "prepared_body \<Rightarrow> prepared_body \<times> (attempt_error + bytes list)" where
  "take_filter_chunks b =
    (case pb_source b of
       Some (QueueSource cs) \<Rightarrow> (b\<lparr>pb_source := None\<rparr>, Inr cs)
     | Some (SequentialSource r) \<Rightarrow> (b, Inl SequentialBodyFilterUnsupported)
     | None \<Rightarrow> (b, Inl SequentialBodyFilterUnsupported))"

definition replace_filter_chunks ::
  "prepared_body \<Rightarrow> bytes list \<Rightarrow> bool list \<Rightarrow> prepared_body \<times> (attempt_error + unit)" where
  "replace_filter_chunks b chunks is_attempt_wire =
    (if pb_source b \<noteq> None \<or> list_ex Not is_attempt_wire then (b, Inl (AttemptBody WrongMemoryRole))
     else (b\<lparr>pb_source := Some (QueueSource chunks), sequential_remaining := None, sequential_quantum := None\<rparr>,
           Inr ()))"

definition reader_next :: "(attempt_error + bytes option) list \<Rightarrow>
    (attempt_error + bytes option) \<times> (attempt_error + bytes option) list" where
  "reader_next r = (case r of [] \<Rightarrow> (Inr None, []) | a # r' \<Rightarrow> (a, r'))"

definition begin_next_send :: "prepared_body \<Rightarrow> prepared_body \<times> (attempt_error + bytes option)" where
  "begin_next_send b =
    (case pb_source b of
       Some (QueueSource []) \<Rightarrow> (b, Inr None)
     | Some (QueueSource (c # cs)) \<Rightarrow> (b\<lparr>pb_source := Some (QueueSource cs)\<rparr>, Inr (Some c))
     | Some (SequentialSource r) \<Rightarrow>
        (let (a, r') = reader_next r; b' = b\<lparr>pb_source := Some (SequentialSource r')\<rparr>
         in case a of Inl e \<Rightarrow> (b', Inl e)
          | Inr chunk \<Rightarrow>
            (case (sequential_quantum b, sequential_remaining b) of
               (Some quantum, Some remaining) \<Rightarrow>
                (case chunk of
                   Some c \<Rightarrow>
                    if c = [] \<or> length c > quantum \<or> length c > remaining
                    then (b', Inl SequentialBodyContractViolation)
                    else (b'\<lparr>sequential_remaining := Some (remaining - length c)\<rparr>, Inr (Some c))
                 | None \<Rightarrow>
                    if remaining \<noteq> 0 then (b', Inl SequentialBodyContractViolation) else (b', Inr None))
             | _ \<Rightarrow> (b', Inl SequentialBodyContractViolation)))
     | None \<Rightarrow> (b, Inr None))"

definition body_release :: "prepared_body \<Rightarrow> prepared_body" where
  "body_release b = \<lparr>pb_source = None, sequential_remaining = None, sequential_quantum = None, pb_lease = False\<rparr>"

section \<open>The response window\<close>

datatype 'h precommit_event =
    ResponseHead nat 'h
  | PrecommitBody bytes
  | PrecommitSse u64 bytes semantic_provenance
  | PrecommitEnd

record 'e window =
  pw_first :: "'e option"
  pw_overflow :: "'e list"

definition window_new :: "'e window" where
  "window_new = \<lparr>pw_first = None, pw_overflow = []\<rparr>"

definition window_len :: "'e window \<Rightarrow> nat" where
  "window_len w = (if pw_first w = None then 0 else 1) + length (pw_overflow w)"

definition push_back :: "'e \<Rightarrow> 'e window \<Rightarrow> 'e window" where
  "push_back x w =
    (if pw_first w = None then w\<lparr>pw_first := Some x\<rparr> else w\<lparr>pw_overflow := pw_overflow w @ [x]\<rparr>)"

definition pop_front :: "'e window \<Rightarrow> ('e \<times> 'e window) option" where
  "pop_front w =
    (case pw_first w of None \<Rightarrow> None
     | Some x \<Rightarrow> Some (x, (case pw_overflow w of
           [] \<Rightarrow> \<lparr>pw_first = None, pw_overflow = []\<rparr>
         | y # ys \<Rightarrow> \<lparr>pw_first = Some y, pw_overflow = ys\<rparr>)))"

definition window_contents :: "'e window \<Rightarrow> 'e list" where
  "window_contents w = (case pw_first w of None \<Rightarrow> [] | Some x \<Rightarrow> [x]) @ pw_overflow w"

definition window_ok :: "'e window \<Rightarrow> bool" where
  "window_ok w \<longleftrightarrow> (pw_first w = None \<longrightarrow> pw_overflow w = [])"

lemma window_len_contents: "window_len w = length (window_contents w)"
  by (simp add: window_len_def window_contents_def split: option.splits)

interpretation window_fifo: fifo window_contents window_ok "\<lambda>x w. Some (push_back x w)" pop_front
  by unfold_locales
    (auto simp: window_contents_def window_ok_def push_back_def pop_front_def split: option.splits list.splits)

section \<open>The attempt's clock\<close>

text \<open>
  Instants and durations are nanosecond counts. \<open>instant_add\<close> is \<open>checked_add\<close>, durations
  add and subtract saturating.
\<close>

type_synonym instant = nat
type_synonym duration = nat

datatype timeout_kind = KConnect | KRequestWrite | KFirstByte | KStreamIdle | KAttemptDeadline

record timeouts =
  to_request_write :: duration
  to_first_byte :: duration
  to_stream_idle :: duration

record attempt_clock =
  ac_timeouts :: timeouts
  attempt_deadline :: instant
  attempt_started_at :: instant
  request_write_started_at :: "instant option"
  first_upstream_receipt_at :: "instant option"
  last_upstream_progress_at :: "instant option"
  local_read_suppressed :: duration
  suppression_observed :: duration
  idle_suppression_credit :: duration
  upstream_body_bytes :: u64
  ac_timeout_kind :: "timeout_kind option"

definition or_deadline :: "instant option \<Rightarrow> instant \<Rightarrow> instant" where
  "or_deadline m d = (case m of None \<Rightarrow> d | Some t \<Rightarrow> t)"

definition ensure_request_write_deadline :: "instant \<Rightarrow> attempt_clock \<Rightarrow> attempt_clock \<times> instant" where
  "ensure_request_write_deadline now c =
    (let started = (case request_write_started_at c of None \<Rightarrow> now | Some t \<Rightarrow> t)
     in (c\<lparr>request_write_started_at := Some started\<rparr>,
         min (attempt_deadline c)
           (or_deadline (checked_add started (to_request_write (ac_timeouts c))) (attempt_deadline c))))"

text \<open>The source's \<open>expect\<close> is the \<open>None\<close> branch, which the callers exclude.\<close>

definition request_write_timeout_error :: "attempt_clock \<Rightarrow> attempt_clock \<times> attempt_error" where
  "request_write_timeout_error c =
    (case request_write_started_at c of
       None \<Rightarrow> (c\<lparr>ac_timeout_kind := Some KAttemptDeadline\<rparr>, DeadlineExceeded)
     | Some started \<Rightarrow>
       let phase = checked_add started (to_request_write (ac_timeouts c))
       in if (case phase of None \<Rightarrow> True | Some t \<Rightarrow> attempt_deadline c \<le> t)
          then (c\<lparr>ac_timeout_kind := Some KAttemptDeadline\<rparr>, DeadlineExceeded)
          else (c\<lparr>ac_timeout_kind := Some KRequestWrite\<rparr>, RequestWriteTimeout))"

definition record_timeout_error :: "attempt_error \<Rightarrow> attempt_clock \<Rightarrow> attempt_clock" where
  "record_timeout_error e c =
    (case e of
       ConnectTimeout \<Rightarrow> c\<lparr>ac_timeout_kind := Some KConnect\<rparr>
     | RequestWriteTimeout \<Rightarrow> c\<lparr>ac_timeout_kind := Some KRequestWrite\<rparr>
     | FirstByteTimeout \<Rightarrow> c\<lparr>ac_timeout_kind := Some KFirstByte\<rparr>
     | StreamIdleTimeout \<Rightarrow> c\<lparr>ac_timeout_kind := Some KStreamIdle\<rparr>
     | DeadlineExceeded \<Rightarrow> c\<lparr>ac_timeout_kind := Some KAttemptDeadline\<rparr>
     | _ \<Rightarrow> c)"

definition precommit_wait_deadline :: "attempt_clock \<Rightarrow> instant \<Rightarrow> instant \<times> timeout_kind \<times> attempt_error" where
  "precommit_wait_deadline c caller =
    (let absolute = min caller (attempt_deadline c);
         (phase, kind, err) =
           (case last_upstream_progress_at c of
              Some progress \<Rightarrow>
               (or_deadline (checked_add progress
                  (saturating_add (idle_suppression_credit c) (to_stream_idle (ac_timeouts c)))) absolute,
                KStreamIdle, StreamIdleTimeout)
            | None \<Rightarrow>
               (or_deadline (checked_add (or_deadline (request_write_started_at c) (attempt_started_at c))
                  (to_first_byte (ac_timeouts c))) absolute,
                KFirstByte, FirstByteTimeout))
     in if absolute \<le> phase then (absolute, KAttemptDeadline, DeadlineExceeded) else (phase, kind, err))"

definition refresh_suppression :: "duration option \<Rightarrow> attempt_clock \<Rightarrow> attempt_clock \<times> bool" where
  "refresh_suppression sup_total c =
    (case sup_total of None \<Rightarrow> (c, False)
     | Some t \<Rightarrow>
       let delta = t - suppression_observed c;
           c1 = c\<lparr>suppression_observed := t,
                  local_read_suppressed := saturating_add (local_read_suppressed c) delta\<rparr>
       in (if last_upstream_progress_at c1 \<noteq> None
           then c1\<lparr>idle_suppression_credit := saturating_add (idle_suppression_credit c1) delta\<rparr> else c1,
           True))"

text \<open>The accounting half of \<open>charge_precommit_receipt\<close>.\<close>

datatype 'h transport_precommit = TransportHead nat 'h | TransportBody bytes | TransportEnd

record 'h receipt =
  rc_event :: "'h transport_precommit"
  rc_received_at :: instant
  rc_suppressed :: duration
  rc_total :: "duration option"

definition receive_at :: "duration option \<Rightarrow> 'h receipt \<Rightarrow> attempt_clock \<Rightarrow> attempt_clock" where
  "receive_at sup_total r c =
    (let (c1, accounts) = refresh_suppression sup_total c;
         c2 = (if \<not> accounts then c1\<lparr>local_read_suppressed :=
                  saturating_add (local_read_suppressed c1) (rc_suppressed r)\<rparr> else c1);
         after = (if accounts then (case rc_total r of None \<Rightarrow> 0 | Some anchor \<Rightarrow> suppression_observed c2 - anchor) else 0);
         c3 = (if first_upstream_receipt_at c2 = None then c2\<lparr>first_upstream_receipt_at := Some (rc_received_at r)\<rparr> else c2);
         c4 = c3\<lparr>last_upstream_progress_at := Some (rc_received_at r), idle_suppression_credit := after\<rparr>
     in (case rc_event r of
           TransportBody bs \<Rightarrow> c4\<lparr>upstream_body_bytes := saturating_add (upstream_body_bytes c4) (length bs)\<rparr>
         | _ \<Rightarrow> c4))"

end
