(* ===== verification/Attempt_Exchange.thy ===== *)
theory Attempt_Exchange
  imports Attempt_Gate
begin

text \<open>
  One semantic upstream exchange (\<^verbatim>\<open>gateway-core/src/runtime/attempt/exchange.rs\<close> with
  \<^verbatim>\<open>constructor.rs\<close>, \<^verbatim>\<open>io.rs\<close>, \<^verbatim>\<open>disposition.rs\<close>, \<^verbatim>\<open>cleanup.rs\<close>).
  Asynchronous operations become functions of the answers their awaits receive: a cancelled or
  timed-out \<open>select\<close>, a failed or completed transport call, the polls of a duplex write. A
  future dropped at an await leaves the state its cancelled branch leaves. \<open>x_log\<close> records every
  transport call made and every one the transport completed. The memory reservations of the
  exchange (modelled in \<^verbatim>\<open>Charged_Body\<close>) and its telemetry are left out: a reservation's
  answer is an input of the step that asks for it.
\<close>

section \<open>State\<close>

datatype 'h transport_call =
    ConnectTo nat | WriteHead 'h | WriteBody bytes | PollWriteBody bytes
  | FinishBody | PollFinishBody | ResetStream | FinishAccepted bool

datatype 'h transport_event = Called "'h transport_call" | Completed "'h transport_call"

record 'h exchange =
  x_request :: request_id
  x_attempt :: attempt_id
  x_generation :: generation
  x_addresses :: "nat list"
  x_connect_timeout :: duration
  x_protocol :: http_framing
  x_duplex :: bool
  x_transport :: bool
  x_headers :: 'h
  x_body :: prepared_body
  semantic_upstream_calls :: usize
  connection_sub_attempts :: usize
  x_connected :: bool
  request_framing_reconciled :: bool
  pending_request_write :: "bytes option"
  x_writer :: writer_state
  upstream_fence :: commit_fence
  header_fence :: commit_fence
  semantic_fence :: commit_fence
  scope_created :: bool
  response_window :: "'h precommit_event window"
  response_capacity :: usize
  precommit_owner :: plan_executor
  x_clock :: attempt_clock
  response_live :: bool
  x_candidate :: "disposition option"
  accept_blocked :: bool
  permit_nonce :: u64
  published :: "disposition option"
  reset_count :: usize
  x_finalized :: bool
  x_log :: "'h transport_event list"

definition log_call :: "'h transport_call \<Rightarrow> 'h exchange \<Rightarrow> 'h exchange" where
  "log_call c e = e\<lparr>x_log := x_log e @ [Called c]\<rparr>"

definition log_done :: "'h transport_call \<Rightarrow> 'h exchange \<Rightarrow> 'h exchange" where
  "log_done c e = e\<lparr>x_log := x_log e @ [Completed c]\<rparr>"

section \<open>Construction\<close>

text \<open>\<open>new_validated\<close>; the mailbox reservation's answer is \<open>reserved\<close>, \<open>entry\<close> an event's size.\<close>

definition new_validated ::
  "'h exchange \<Rightarrow> body_plan \<Rightarrow> body_plan \<Rightarrow> instant \<Rightarrow> usize \<Rightarrow> usize \<Rightarrow> usize \<Rightarrow> body_error + unit
   \<Rightarrow> attempt_error + 'h exchange" where
  "new_validated p request_plan precommit_plan now capacity write_quantum entry reserved =
    (if write_quantum = 0 then Inl ZeroWriteQuantum
     else if attempt_deadline (x_clock p) \<le> now then Inl DeadlineExceeded
     else if capacity = 0 then Inl ZeroPrecommitCapacity
     else if body_max_chunk_bytes (x_body p) > write_quantum then Inl RequestChunkExceedsWriteQuantum
     else
      and_then (lift_body (executor_new AttemptRequest request_plan usize_max)) (\<lambda>ex.
      and_then (snd (validate_body_plan (x_body p) ex)) (\<lambda>_.
      and_then (lift_body (executor_new AttemptResponsePrecommit precommit_plan usize_max)) (\<lambda>pre.
      and_then (ok_or (AttemptBody BudgetExceeded) (checked_mul capacity entry)) (\<lambda>_.
      and_then (lift_body reserved) (\<lambda>_.
        Inr (p\<lparr>x_transport := True, semantic_upstream_calls := 0, connection_sub_attempts := 0,
               x_connected := False, request_framing_reconciled := False, pending_request_write := None,
               x_writer := NotStarted, upstream_fence := Clear, header_fence := Clear,
               semantic_fence := Clear, scope_created := False, response_window := window_new,
               response_capacity := capacity, precommit_owner := pre,
               x_clock := (x_clock p)\<lparr>attempt_started_at := now, request_write_started_at := None,
                  first_upstream_receipt_at := None, last_upstream_progress_at := None,
                  local_read_suppressed := 0, suppression_observed := 0, idle_suppression_credit := 0,
                  upstream_body_bytes := 0, ac_timeout_kind := None\<rparr>,
               response_live := True, x_candidate := None, accept_blocked := False, permit_nonce := 0,
               published := None, reset_count := 0, x_finalized := False, x_log := []\<rparr>)))))))"

definition ensure_active :: "'h exchange \<Rightarrow> attempt_error + unit" where
  "ensure_active e = (if x_finalized e then Inl ExchangeFinalized else Inr ())"

section \<open>Connecting\<close>

datatype connect_outcome = ConnectCancelled | ConnectTimedOut | ConnectFailedWith attempt_error | ConnectDone

record connect_answer =
  ca_cancelled_before :: bool
  ca_started :: instant
  ca_outcome :: connect_outcome

definition set_timeout_kind :: "timeout_kind \<Rightarrow> 'h exchange \<Rightarrow> 'h exchange" where
  "set_timeout_kind k e = e\<lparr>x_clock := (x_clock e)\<lparr>ac_timeout_kind := Some k\<rparr>\<rparr>"

fun connect_loop ::
  "nat \<Rightarrow> (nat \<Rightarrow> connect_answer) \<Rightarrow> nat list \<Rightarrow> attempt_error option \<Rightarrow> 'h exchange \<Rightarrow> 'h exchange \<times> (attempt_error + unit)" where
  "connect_loop i ans [] err e = (e, Inl (case err of None \<Rightarrow> ConnectFailed | Some er \<Rightarrow> er))"
| "connect_loop i ans (a # as) err e =
    (if ca_cancelled_before (ans i) then (e, Inl Cancelled)
     else
       let e1 = log_call (ConnectTo a)
                  (e\<lparr>connection_sub_attempts := wrapping_add (connection_sub_attempts e) 1\<rparr>);
           limit = attempt_deadline (x_clock e);
           phase = or_deadline (checked_add (ca_started (ans i)) (x_connect_timeout e)) limit
       in case ca_outcome (ans i) of
            ConnectCancelled \<Rightarrow> (e1, Inl Cancelled)
          | ConnectTimedOut \<Rightarrow>
              if limit \<le> phase then (set_timeout_kind KAttemptDeadline e1, Inl DeadlineExceeded)
              else connect_loop (Suc i) ans as (Some ConnectTimeout) (set_timeout_kind KConnect e1)
          | ConnectDone \<Rightarrow> (log_done (ConnectTo a) (e1\<lparr>x_connected := True\<rparr>), Inr ())
          | ConnectFailedWith er \<Rightarrow> connect_loop (Suc i) ans as (Some er) e1)"

definition connect :: "(nat \<Rightarrow> connect_answer) \<Rightarrow> 'h exchange \<Rightarrow> 'h exchange \<times> (attempt_error + unit)" where
  "connect ans e =
    (if upstream_fence e \<noteq> Clear then (e, Inl ReconnectAfterCommit)
     else if x_connected e then (e, Inr ())
     else connect_loop 0 ans (x_addresses e) None e)"

section \<open>Response events\<close>

datatype 'h poll_answer = PollPending | PollError attempt_error | PollNone | PollReceipt "'h receipt"

text \<open>
  One poll of the response: the answer of \<open>ensure_transport_codec_reservation\<close>, the
  transport's suppression counter, the answer of the memory charge, the transport's answer.
\<close>

record 'h response_poll =
  rp_ready :: "attempt_error + unit"
  rp_total :: "duration option"
  rp_charge :: "body_error + unit"
  rp_answer :: "'h poll_answer"

definition charge_event ::
  "body_error + unit \<Rightarrow> 'h transport_precommit \<Rightarrow> 'h exchange \<Rightarrow> 'h exchange \<times> (attempt_error + 'h precommit_event)" where
  "charge_event paid ev e =
    (case ev of
       TransportHead s h \<Rightarrow> (e, and_then (lift_body paid) (\<lambda>_. Inr (ResponseHead s h)))
     | TransportBody bs \<Rightarrow>
        (let (ex, r) = admit_chunk (precommit_owner e) (length bs)
         in (e\<lparr>precommit_owner := ex\<rparr>,
             and_then (lift_body r) (\<lambda>_. and_then (lift_body paid) (\<lambda>_. Inr (PrecommitBody bs)))))
     | TransportEnd \<Rightarrow>
        (let (ex, r) = executor_finish (precommit_owner e)
         in (e\<lparr>precommit_owner := ex\<rparr>, and_then (lift_body r) (\<lambda>_. Inr PrecommitEnd))))"

definition charge_receipt ::
  "'h response_poll \<Rightarrow> 'h receipt \<Rightarrow> 'h exchange \<Rightarrow> 'h exchange \<times> (attempt_error + 'h precommit_event)" where
  "charge_receipt p r e =
    charge_event (rp_charge p) (rc_event r) (e\<lparr>x_clock := receive_at (rp_total p) r (x_clock e)\<rparr>)"

definition poll_response ::
  "'h response_poll \<Rightarrow> 'h exchange \<Rightarrow> 'h exchange \<times> (attempt_error + 'h precommit_event option)" where
  "poll_response p e =
    (case rp_answer p of
       PollPending \<Rightarrow> (e, Inr None)
     | PollNone \<Rightarrow> (e, Inr None)
     | PollError er \<Rightarrow> (e, Inl er)
     | PollReceipt r \<Rightarrow>
        (let (e', res) = charge_receipt p r e in (e', and_then res (\<lambda>ev. Inr (Some ev)))))"

definition poll_precommit_now ::
  "'h response_poll \<Rightarrow> 'h exchange \<Rightarrow> 'h exchange \<times> (attempt_error + 'h precommit_event option)" where
  "poll_precommit_now p e =
    (case rp_ready p of Inl er \<Rightarrow> (e, Inl er) | Inr _ \<Rightarrow> poll_response p e)"

definition window_room :: "'h exchange \<Rightarrow> bool" where
  "window_room e \<longleftrightarrow> window_len (response_window e) < response_capacity e"

definition buffer_event :: "'h precommit_event \<Rightarrow> 'h exchange \<Rightarrow> 'h exchange" where
  "buffer_event ev e = e\<lparr>response_window := push_back ev (response_window e)\<rparr>"

datatype select_end = SelectCancelled | SelectTimedOut

definition wait_precommit_event ::
  "instant \<Rightarrow> 'h response_poll \<Rightarrow> select_end option \<Rightarrow> 'h exchange
   \<Rightarrow> 'h exchange \<times> (attempt_error + 'h precommit_event option)" where
  "wait_precommit_event deadline p ended e =
    (case ensure_active e of Inl er \<Rightarrow> (e, Inl er) | Inr _ \<Rightarrow>
     (case pop_front (response_window e) of
        Some (ev, w) \<Rightarrow> (e\<lparr>response_window := w\<rparr>, Inr (Some ev))
      | None \<Rightarrow>
        (case rp_ready p of Inl er \<Rightarrow> (e, Inl er) | Inr _ \<Rightarrow>
          (let e1 = e\<lparr>x_clock := fst (refresh_suppression (rp_total p) (x_clock e))\<rparr>;
               (d, kind, err) = precommit_wait_deadline (x_clock e1) deadline
           in case ended of
                Some SelectCancelled \<Rightarrow> (e1, Inl Cancelled)
              | Some SelectTimedOut \<Rightarrow> (set_timeout_kind kind e1, Inl err)
              | None \<Rightarrow> poll_response p e1))))"

definition next_precommit_event :: "'h exchange \<Rightarrow> 'h exchange \<times> 'h precommit_event option" where
  "next_precommit_event e =
    (case pop_front (response_window e) of
       None \<Rightarrow> (e, None) | Some (ev, w) \<Rightarrow> (e\<lparr>response_window := w\<rparr>, Some ev))"

section \<open>The request writer\<close>

datatype io_answer = IoEnded select_end | IoFailed attempt_error | IoDone
datatype write_poll = WritePending | WriteFailed attempt_error | WriteDone
datatype duplex_progress = ResponseBuffered | WriteComplete

text \<open>The answers one owner-loop turn of the writer may receive.\<close>

record 'h turn =
  t_now :: instant
  t_connect :: "nat \<Rightarrow> connect_answer"
  t_poll :: "'h response_poll"
  t_io :: io_answer
  t_duplex :: "('h response_poll \<times> write_poll) list"
  t_ended :: select_end

definition start_write_clock :: "instant \<Rightarrow> 'h exchange \<Rightarrow> 'h exchange" where
  "start_write_clock now e = e\<lparr>x_clock := fst (ensure_request_write_deadline now (x_clock e))\<rparr>"

definition select_ended :: "select_end \<Rightarrow> 'h exchange \<Rightarrow> 'h exchange \<times> (attempt_error + unit)" where
  "select_ended s e =
    (case s of
       SelectCancelled \<Rightarrow> (e, Inl Cancelled)
     | SelectTimedOut \<Rightarrow>
        (let (c, err) = request_write_timeout_error (x_clock e) in (e\<lparr>x_clock := c\<rparr>, Inl err)))"

definition settle_io ::
  "io_answer \<Rightarrow> ('h exchange \<Rightarrow> 'h exchange \<times> (attempt_error + unit)) \<Rightarrow> 'h exchange
   \<Rightarrow> 'h exchange \<times> (attempt_error + unit)" where
  "settle_io io k e =
    (case io of
       IoEnded s \<Rightarrow> select_ended s e
     | IoFailed er \<Rightarrow> (e\<lparr>x_clock := record_timeout_error er (x_clock e)\<rparr>, Inl er)
     | IoDone \<Rightarrow> k e)"

text \<open>\<open>None\<close> is a poll that stays pending; the loop ends pending when the select ends it.\<close>

fun duplex_loop ::
  "(write_poll \<Rightarrow> 'h exchange \<Rightarrow> 'h exchange \<times> (attempt_error + duplex_progress) option)
   \<Rightarrow> ('h response_poll \<times> write_poll) list \<Rightarrow> 'h exchange
   \<Rightarrow> 'h exchange \<times> (attempt_error + duplex_progress) option" where
  "duplex_loop act [] e = (e, None)"
| "duplex_loop act ((p, w) # ps) e =
    (case rp_ready p of Inl er \<Rightarrow> (e, Some (Inl er)) | Inr _ \<Rightarrow>
     (case (if window_room e then poll_response p e else (e, Inr None)) of
        (e1, Inl er) \<Rightarrow> (e1, Some (Inl er))
      | (e1, Inr (Some ev)) \<Rightarrow> (buffer_event ev e1, Some (Inr ResponseBuffered))
      | (e1, Inr None) \<Rightarrow>
         (case act w e1 of
            (e2, None) \<Rightarrow> duplex_loop act ps e2
          | (e2, Some r) \<Rightarrow> (e2, Some r))))"

definition duplex_write :: "write_poll \<Rightarrow> 'h exchange \<Rightarrow> 'h exchange \<times> (attempt_error + duplex_progress) option" where
  "duplex_write w e =
    (case pending_request_write e of
       None \<Rightarrow> (e, Some (Inl MissingPendingDuplexWrite))
     | Some c \<Rightarrow>
        (let e1 = log_call (PollWriteBody c) e
         in case w of
              WritePending \<Rightarrow> (e1, None)
            | WriteFailed er \<Rightarrow> (e1, Some (Inl er))
            | WriteDone \<Rightarrow>
                (log_done (PollWriteBody c) (e1\<lparr>pending_request_write := None\<rparr>), Some (Inr WriteComplete))))"

definition duplex_finish :: "write_poll \<Rightarrow> 'h exchange \<Rightarrow> 'h exchange \<times> (attempt_error + duplex_progress) option" where
  "duplex_finish w e =
    (let e1 = log_call PollFinishBody e
     in case w of
          WritePending \<Rightarrow> (e1, None)
        | WriteFailed er \<Rightarrow> (e1, Some (Inl er))
        | WriteDone \<Rightarrow> (log_done PollFinishBody e1, Some (Inr WriteComplete)))"

definition settle_duplex ::
  "select_end \<Rightarrow> ('h exchange \<Rightarrow> 'h exchange \<times> (attempt_error + unit))
   \<Rightarrow> 'h exchange \<times> (attempt_error + duplex_progress) option \<Rightarrow> 'h exchange \<times> (attempt_error + unit)" where
  "settle_duplex ended k r =
    (case r of
       (e, None) \<Rightarrow> select_ended ended e
     | (e, Some (Inl er)) \<Rightarrow> (e\<lparr>x_clock := record_timeout_error er (x_clock e)\<rparr>, Inl er)
     | (e, Some (Inr ResponseBuffered)) \<Rightarrow> (e, Inr ())
     | (e, Some (Inr WriteComplete)) \<Rightarrow> k e)"

definition reconcile_framing ::
  "('h, 'z) header_ops_scheme \<Rightarrow> 'h exchange \<Rightarrow> 'h exchange \<times> (attempt_error + unit)" where
  "reconcile_framing H e =
    (if request_framing_reconciled e then (e, Inr ())
     else
       let f0 = framing_default;
           f1 = (if contains_key H CONTENT_LENGTH (x_headers e) then record_header_mutation CONTENT_LENGTH f0 else f0);
           f2 = (if contains_key H TRANSFER_ENCODING (x_headers e) then record_header_mutation TRANSFER_ENCODING f1 else f1)
       in case buffered_eos (visible_bytes (x_body e)) f2 of
            (f3, Inl er) \<Rightarrow> (e, Inl (AttemptBody er))
          | (f3, Inr _) \<Rightarrow>
             (case finalize H f3 (x_headers e) (x_protocol e) False None of
                (f4, h, Inl er) \<Rightarrow> (e\<lparr>x_headers := h\<rparr>, Inl (AttemptBody er))
              | (f4, h, Inr _) \<Rightarrow> (e\<lparr>x_headers := h, request_framing_reconciled := True\<rparr>, Inr ())))"

definition confirm_head :: "'h exchange \<Rightarrow> 'h exchange \<times> (attempt_error + unit)" where
  "confirm_head e =
    (let e1 = log_done (WriteHead (x_headers e)) e
     in case fence_confirm (upstream_fence e1) of
          Inl er \<Rightarrow> (e1, Inl er)
        | Inr f \<Rightarrow> (e1\<lparr>upstream_fence := f, x_writer := HeaderWritten\<rparr>, Inr ()))"

definition write_head ::
  "('h, 'z) header_ops_scheme \<Rightarrow> 'h turn \<Rightarrow> 'h exchange \<Rightarrow> 'h exchange \<times> (attempt_error + unit)" where
  "write_head H t e =
    (case reconcile_framing H e of
       (e1, Inl er) \<Rightarrow> (e1, Inl er)
     | (e1, Inr _) \<Rightarrow>
        (case fence_begin_write (upstream_fence e1) of
           Inl er \<Rightarrow> (e1, Inl er)
         | Inr f \<Rightarrow>
            settle_io (t_io t) confirm_head
              (log_call (WriteHead (x_headers e1))
                (start_write_clock (t_now t)
                  (e1\<lparr>upstream_fence := f, semantic_upstream_calls := 1, x_writer := HeaderWriteStarted\<rparr>)))))"

definition finish_eos :: "'h exchange \<Rightarrow> 'h exchange \<times> (attempt_error + unit)" where
  "finish_eos e = (e\<lparr>x_writer := QuiescedNormalEos, x_body := body_release (x_body e)\<rparr>, Inr ())"

definition drive_eos_writer_once :: "'h turn \<Rightarrow> 'h exchange \<Rightarrow> 'h exchange \<times> (attempt_error + unit)" where
  "drive_eos_writer_once t e =
    (let e1 = start_write_clock (t_now t) e
     in if x_duplex e1
        then settle_duplex (t_ended t) finish_eos (duplex_loop duplex_finish (t_duplex t) e1)
        else settle_io (t_io t) (\<lambda>e2. finish_eos (log_done FinishBody e2)) (log_call FinishBody e1))"

definition take_unit :: "'h exchange \<Rightarrow> 'h exchange \<times> (attempt_error + bytes option)" where
  "take_unit e =
    (case pending_request_write e of
       Some c \<Rightarrow> (e, Inr (Some c))
     | None \<Rightarrow> (let (b, r) = begin_next_send (x_body e) in (e\<lparr>x_body := b\<rparr>, r)))"

definition write_body :: "'h turn \<Rightarrow> 'h exchange \<Rightarrow> 'h exchange \<times> (attempt_error + unit)" where
  "write_body t e =
    (case take_unit e of
       (e1, Inl er) \<Rightarrow> (e1, Inl er)
     | (e1, Inr None) \<Rightarrow> drive_eos_writer_once t (e1\<lparr>x_writer := EosWriting\<rparr>)
     | (e1, Inr (Some c)) \<Rightarrow>
        (let e2 = start_write_clock (t_now t)
                    (e1\<lparr>pending_request_write := Some c, x_writer := BodyWriting\<rparr>)
         in if x_duplex e2
            then settle_duplex (t_ended t) (\<lambda>e3. (e3, Inr ())) (duplex_loop duplex_write (t_duplex t) e2)
            else settle_io (t_io t) (\<lambda>e3. (log_done (WriteBody c) e3, Inr ()))
                   (log_call (WriteBody c) (e2\<lparr>pending_request_write := None\<rparr>))))"

definition drive_writer_step ::
  "('h, 'z) header_ops_scheme \<Rightarrow> 'h turn \<Rightarrow> 'h exchange \<Rightarrow> 'h exchange \<times> (attempt_error + unit)" where
  "drive_writer_step H t e =
    (case x_writer e of
       NotStarted \<Rightarrow> write_head H t e
     | HeaderWritten \<Rightarrow> write_body t e
     | BodyWriting \<Rightarrow> write_body t e
     | EosWriting \<Rightarrow> drive_eos_writer_once t e
     | _ \<Rightarrow> (e, Inr ()))"

definition drive_writer_once ::
  "('h, 'z) header_ops_scheme \<Rightarrow> 'h turn \<Rightarrow> 'h exchange \<Rightarrow> 'h exchange \<times> (attempt_error + unit)" where
  "drive_writer_once H t e =
    (case ensure_active e of Inl er \<Rightarrow> (e, Inl er) | Inr _ \<Rightarrow>
     (case (if x_connected e then (e, Inr ()) else connect (t_connect t) e) of
        (e1, Inl er) \<Rightarrow> (e1, Inl er)
      | (e1, Inr _) \<Rightarrow>
         (case (if window_room e1 then poll_precommit_now (t_poll t) e1 else (e1, Inr None)) of
            (e2, Inl er) \<Rightarrow> (e2, Inl er)
          | (e2, Inr (Some ev)) \<Rightarrow> (buffer_event ev e2, Inr ())
          | (e2, Inr None) \<Rightarrow> drive_writer_step H t e2)))"

definition quiesce_without_upstream_exchange :: "'h exchange \<Rightarrow> 'h exchange \<times> (attempt_error + unit)" where
  "quiesce_without_upstream_exchange e =
    (case ensure_active e of Inl er \<Rightarrow> (e, Inl er) | Inr _ \<Rightarrow>
     if x_writer e \<noteq> NotStarted \<or> x_connected e \<or> upstream_fence e \<noteq> Clear \<or> semantic_upstream_calls e \<noteq> 0
     then (e, Inl SyntheticReplyAfterUpstreamStart)
     else (e\<lparr>x_body := body_release (x_body e), x_writer := QuiescedNormalEos\<rparr>, Inr ()))"

section \<open>Cleanup\<close>

text \<open>The reset's answer is \<open>None\<close> when the future is dropped while it is pending.\<close>

definition cancel_writer ::
  "(attempt_error + unit) option \<Rightarrow> 'h exchange \<Rightarrow> 'h exchange \<times> (attempt_error + unit) option" where
  "cancel_writer ans e =
    (if x_writer e = QuiescedCancelReset then (e, Some (Inr ()))
     else
       let e1 = log_call ResetStream (e\<lparr>x_writer := Cancelling\<rparr>)
       in case ans of
            None \<Rightarrow> (e1, None)
          | Some (Inl er) \<Rightarrow> (e1, Some (Inl er))
          | Some (Inr _) \<Rightarrow>
             (log_done ResetStream
                (e1\<lparr>reset_count := wrapping_add (reset_count e1) 1, x_body := body_release (x_body e1),
                    pending_request_write := None, response_window := window_new, response_live := False,
                    x_writer := QuiescedCancelReset\<rparr>),
              Some (Inr ())))"

definition finish_or_abort ::
  "(attempt_error + unit) option \<Rightarrow> 'h exchange \<Rightarrow> 'h exchange \<times> (attempt_error + unit) option" where
  "finish_or_abort ans e =
    (if x_finalized e then (e, Some (Inr ()))
     else case cancel_writer ans e of
         (e1, None) \<Rightarrow> (e1, None)
       | (e1, Some (Inl er)) \<Rightarrow> (e1, Some (Inl er))
       | (e1, Some (Inr _)) \<Rightarrow> (e1\<lparr>response_window := window_new, x_finalized := True\<rparr>, Some (Inr ())))"

definition finish_or_abort_bounded ::
  "duration \<Rightarrow> (attempt_error + unit) option \<Rightarrow> 'h exchange \<Rightarrow> 'h exchange \<times> (attempt_error + unit)" where
  "finish_or_abort_bounded join ans e =
    (if join = 0 then (e, Inl InvalidCleanupTimeout)
     else case finish_or_abort ans e of
         (e1, Some r) \<Rightarrow> (e1, r)
       | (e1, None) \<Rightarrow>
          (e1\<lparr>x_transport := False, x_body := body_release (x_body e1), response_window := window_new,
              response_live := False, x_finalized := True\<rparr>,
           Inl CleanupTimeout))"

definition finish_accepted_response ::
  "bool \<Rightarrow> (attempt_error + unit) option \<Rightarrow> 'h exchange \<Rightarrow> 'h exchange \<times> (attempt_error + unit) option" where
  "finish_accepted_response reusable ans e =
    (case ensure_active e of Inl er \<Rightarrow> (e, Some (Inl er)) | Inr _ \<Rightarrow>
     if published e \<noteq> Some Accept \<or> x_writer e \<noteq> QuiescedNormalEos
     then (e, Some (Inl AcceptedResponseNotReady))
     else
       let e1 = log_call (FinishAccepted reusable) e
       in case ans of
            None \<Rightarrow> (e1, None)
          | Some (Inl er) \<Rightarrow> (e1, Some (Inl er))
          | Some (Inr _) \<Rightarrow>
             (log_done (FinishAccepted reusable) (e1\<lparr>response_window := window_new, x_finalized := True\<rparr>),
              Some (Inr ())))"

section \<open>Dispositions\<close>

definition submit_disposition_candidate :: "disposition \<Rightarrow> 'h exchange \<Rightarrow> 'h exchange \<times> (attempt_error + unit)" where
  "submit_disposition_candidate d e =
    (case ensure_active e of Inl er \<Rightarrow> (e, Inl er) | Inr _ \<Rightarrow>
     if published e \<noteq> None then (e, Inl DispositionAlreadyPublished)
     else (e\<lparr>x_candidate := Some d, accept_blocked := False\<rparr>, Inr ()))"

definition publication_fences_clear :: "'h exchange \<Rightarrow> attempt_error + unit" where
  "publication_fences_clear e =
    (if scope_created e \<or> header_fence e \<noteq> Clear \<or> semantic_fence e \<noteq> Clear
     then Inl DispositionAfterDownstreamCommit else Inr ())"

definition new_permit :: "disposition \<Rightarrow> 'h exchange \<Rightarrow> 'h exchange \<times> permit" where
  "new_permit d e =
    (let e1 = e\<lparr>permit_nonce := wrapping_add (permit_nonce e) 1\<rparr>
     in (e1, \<lparr>pm_request = x_request e1, pm_attempt = x_attempt e1, pm_generation = x_generation e1,
              pm_disposition = d, pm_nonce = permit_nonce e1, pm_header_fence = header_fence e1,
              pm_semantic_fence = semantic_fence e1, pm_scope_created = scope_created e1\<rparr>))"

text \<open>One turn of the gate's loop: the blocked check's inputs, then how the select ended.\<close>

record 'h gate_poll =
  gp_cancelled :: bool
  gp_now :: instant
  gp_interrupt :: "select_end option"
  gp_turn :: "'h turn"

definition accept_progress_blocked_reason ::
  "'h gate_poll \<Rightarrow> instant \<Rightarrow> 'h exchange \<Rightarrow> accept_blocked_reason option" where
  "accept_progress_blocked_reason g deadline e =
    (if gp_cancelled g then Some BlockedCancelled
     else if gp_now g \<ge> deadline then Some BlockedDeadline
     else if \<not> response_live e then Some ResponseNotLive else None)"

text \<open>
  The drive a select abandons: at an await it leaves what its cancelled branch leaves; any other
  turn stands for a drive that was never polled.
\<close>

definition abandoned_drive :: "('h, 'z) header_ops_scheme \<Rightarrow> 'h turn \<Rightarrow> 'h exchange \<Rightarrow> 'h exchange" where
  "abandoned_drive H t e =
    (case drive_writer_once H t e of (e1, Inl Cancelled) \<Rightarrow> e1 | _ \<Rightarrow> e)"

definition accept_gate_ready :: "'h exchange \<Rightarrow> 'h exchange \<times> writer_gate" where
  "accept_gate_ready e =
    (if \<not> response_live e then (e\<lparr>accept_blocked := True\<rparr>, AcceptBlocked ResponseNotLive)
     else let (e1, p) = new_permit Accept e in (e1, ReadyToPublishAccept NormalEos p))"

fun accept_gate ::
  "('h, 'z) header_ops_scheme \<Rightarrow> instant \<Rightarrow> 'h gate_poll list \<Rightarrow> 'h exchange
   \<Rightarrow> 'h exchange \<times> (attempt_error + writer_gate) option" where
  "accept_gate H deadline gs e =
    (if x_writer e = QuiescedNormalEos
     then (let (e1, g) = accept_gate_ready e in (e1, Some (Inr g)))
     else case gs of
         [] \<Rightarrow> (e, None)
       | g # gs' \<Rightarrow>
          (case accept_progress_blocked_reason g deadline e of
             Some reason \<Rightarrow> (e\<lparr>accept_blocked := True\<rparr>, Some (Inr (AcceptBlocked reason)))
           | None \<Rightarrow>
              (case gp_interrupt g of
                 Some s \<Rightarrow>
                  ((abandoned_drive H (gp_turn g) e)\<lparr>accept_blocked := True\<rparr>,
                   Some (Inr (AcceptBlocked
                     (case s of SelectCancelled \<Rightarrow> BlockedCancelled | SelectTimedOut \<Rightarrow> BlockedDeadline))))
               | None \<Rightarrow>
                  (case drive_writer_once H (gp_turn g) e of
                     (e1, Inl er) \<Rightarrow> (e1, Some (Inl er))
                   | (e1, Inr _) \<Rightarrow> accept_gate H deadline gs' e1))))"

declare accept_gate.simps [simp del]

definition wait_writer_gate ::
  "('h, 'z) header_ops_scheme \<Rightarrow> instant \<Rightarrow> 'h gate_poll list \<Rightarrow> (attempt_error + unit) option \<Rightarrow> 'h exchange
   \<Rightarrow> 'h exchange \<times> (attempt_error + writer_gate) option" where
  "wait_writer_gate H deadline gs reset e =
    (case ensure_active e of Inl er \<Rightarrow> (e, Some (Inl er)) | Inr _ \<Rightarrow>
     (case x_candidate e of None \<Rightarrow> (e, Some (Inl NoDispositionCandidate)) | Some d \<Rightarrow>
      (case publication_fences_clear e of Inl er \<Rightarrow> (e, Some (Inl er)) | Inr _ \<Rightarrow>
       if d = Accept then accept_gate H deadline gs e
       else (case cancel_writer reset e of
           (e1, None) \<Rightarrow> (e1, None)
         | (e1, Some (Inl er)) \<Rightarrow> (e1, Some (Inl er))
         | (e1, Some (Inr _)) \<Rightarrow>
            (let (e2, p) = new_permit d e1 in (e2, Some (Inr (ReadyToPublishNonAccept CancelReset p))))))))"

definition replace_accept_blocked_candidate ::
  "disposition \<Rightarrow> 'h exchange \<Rightarrow> 'h exchange \<times> (attempt_error + unit)" where
  "replace_accept_blocked_candidate d e =
    (if \<not> accept_blocked e \<or> x_candidate e \<noteq> Some Accept then (e, Inl AcceptWasNotBlocked)
     else if d = Accept then (e, Inl BlockedAcceptMustBecomeNonAccept)
     else (e\<lparr>x_candidate := Some d, accept_blocked := False\<rparr>, Inr ()))"

definition permit_valid :: "permit \<Rightarrow> disposition \<Rightarrow> 'h exchange \<Rightarrow> bool" where
  "permit_valid p d e \<longleftrightarrow>
     pm_request p = x_request e \<and> pm_attempt p = x_attempt e \<and> pm_generation p = x_generation e
   \<and> pm_disposition p = d \<and> pm_nonce p = permit_nonce e \<and> x_candidate e = Some d
   \<and> pm_header_fence p = header_fence e \<and> pm_semantic_fence p = semantic_fence e
   \<and> pm_scope_created p = scope_created e"

definition publish_disposition ::
  "disposition \<Rightarrow> permit \<Rightarrow> 'h exchange \<Rightarrow> 'h exchange \<times> (attempt_error + published_disposition)" where
  "publish_disposition d p e =
    (case ensure_active e of Inl er \<Rightarrow> (e, Inl er) | Inr _ \<Rightarrow>
     if published e \<noteq> None then (e, Inl DispositionAlreadyPublished)
     else if \<not> permit_valid p d e then (e, Inl InvalidDispositionPermit)
     else (case publication_fences_clear e of Inl er \<Rightarrow> (e, Inl er) | Inr _ \<Rightarrow>
       if d = Accept \<and> (x_writer e \<noteq> QuiescedNormalEos \<or> \<not> response_live e)
       then (e\<lparr>accept_blocked := True\<rparr>, Inl AcceptLivenessChanged)
       else (e\<lparr>permit_nonce := wrapping_add (permit_nonce e) 1, published := Some d\<rparr>,
             Inr \<lparr>pd_request = x_request e, pd_attempt = x_attempt e, pd_generation = x_generation e,
                  pd_disposition = d\<rparr>)))"

definition ensure_disposition_published :: "'h exchange \<Rightarrow> attempt_error + unit" where
  "ensure_disposition_published e =
    (if published e = None then Inl DownstreamWriteBeforeDisposition else Inr ())"

definition ensure_downstream_write_allowed :: "'h exchange \<Rightarrow> attempt_error + unit" where
  "ensure_downstream_write_allowed e =
    and_then (ensure_disposition_published e) (\<lambda>_.
      if \<not> scope_created e then Inl AcceptedResponseScopeNotCreated else Inr ())"

definition begin_accepted_response_scope :: "'h exchange \<Rightarrow> 'h exchange \<times> (attempt_error + unit)" where
  "begin_accepted_response_scope e =
    (case ensure_disposition_published e of Inl er \<Rightarrow> (e, Inl er) | Inr _ \<Rightarrow>
     if published e = Some Continue then (e, Inl ContinueCannotWriteDownstream)
     else if scope_created e then (e, Inl AcceptedResponseScopeAlreadyCreated)
     else (e\<lparr>scope_created := True\<rparr>, Inr ()))"

definition begin_downstream_header_write :: "'h exchange \<Rightarrow> 'h exchange \<times> (attempt_error + unit)" where
  "begin_downstream_header_write e =
    (case and_then (ensure_downstream_write_allowed e) (\<lambda>_. fence_begin_write (header_fence e)) of
       Inl er \<Rightarrow> (e, Inl er) | Inr f \<Rightarrow> (e\<lparr>header_fence := f\<rparr>, Inr ()))"

definition confirm_downstream_header_write :: "'h exchange \<Rightarrow> 'h exchange \<times> (attempt_error + unit)" where
  "confirm_downstream_header_write e =
    (case and_then (ensure_downstream_write_allowed e) (\<lambda>_. fence_confirm (header_fence e)) of
       Inl er \<Rightarrow> (e, Inl er) | Inr f \<Rightarrow> (e\<lparr>header_fence := f\<rparr>, Inr ()))"

definition begin_semantic_output_write :: "'h exchange \<Rightarrow> 'h exchange \<times> (attempt_error + unit)" where
  "begin_semantic_output_write e =
    (case and_then (ensure_downstream_write_allowed e) (\<lambda>_.
            if header_fence e \<noteq> WriteConfirmed then Inl DownstreamHeaderNotCommitted
            else fence_begin_write (semantic_fence e)) of
       Inl er \<Rightarrow> (e, Inl er) | Inr f \<Rightarrow> (e\<lparr>semantic_fence := f\<rparr>, Inr ()))"

definition confirm_semantic_output_write :: "'h exchange \<Rightarrow> 'h exchange \<times> (attempt_error + unit)" where
  "confirm_semantic_output_write e =
    (case and_then (ensure_downstream_write_allowed e) (\<lambda>_. fence_confirm (semantic_fence e)) of
       Inl er \<Rightarrow> (e, Inl er) | Inr f \<Rightarrow> (e\<lparr>semantic_fence := f\<rparr>, Inr ()))"

end
