(* ===== verification/Attempt_Wire.thy ===== *)
theory Attempt_Wire
  imports Attempt_Exchange
begin

text \<open>
  What an exchange does on the upstream wire. The grammar of one HTTP exchange is an automaton
  over transport calls; the writer implements it in every interleaving of the owner's
  operations, with the body units in order behind a head that declares their exact length.
\<close>

section \<open>Operations of the owner\<close>

datatype 'h attempt_op =
    OpConnect "nat \<Rightarrow> connect_answer"
  | OpDrive "'h turn"
  | OpQuiesce
  | OpWait instant "'h response_poll" "select_end option"
  | OpNext
  | OpSubmit disposition
  | OpGate instant "'h gate_poll list" "(attempt_error + unit) option"
  | OpReplace disposition
  | OpPublish disposition nat
  | OpBeginScope
  | OpBeginHeader
  | OpConfirmHeader
  | OpBeginSemantic
  | OpConfirmSemantic
  | OpAbort "(attempt_error + unit) option"
  | OpAbortBounded duration "(attempt_error + unit) option"
  | OpFinishAccepted bool "(attempt_error + unit) option"

text \<open>Permits are linear: the owner holds those the gate gave it and spends one per publication.\<close>

record 'h attempt_world =
  aw_exchange :: "'h exchange"
  aw_permits :: "permit list"

fun gate_permits :: "(attempt_error + writer_gate) option \<Rightarrow> permit list" where
  "gate_permits (Some (Inr (ReadyToPublishAccept m p))) = [p]"
| "gate_permits (Some (Inr (ReadyToPublishNonAccept m p))) = [p]"
| "gate_permits _ = []"

fun exec_op :: "('h, 'z) header_ops_scheme \<Rightarrow> 'h attempt_op \<Rightarrow> 'h attempt_world \<Rightarrow> 'h attempt_world" where
  "exec_op H (OpConnect a) w = w\<lparr>aw_exchange := fst (connect a (aw_exchange w))\<rparr>"
| "exec_op H (OpDrive t) w = w\<lparr>aw_exchange := fst (drive_writer_once H t (aw_exchange w))\<rparr>"
| "exec_op H OpQuiesce w = w\<lparr>aw_exchange := fst (quiesce_without_upstream_exchange (aw_exchange w))\<rparr>"
| "exec_op H (OpWait d p s) w = w\<lparr>aw_exchange := fst (wait_precommit_event d p s (aw_exchange w))\<rparr>"
| "exec_op H OpNext w = w\<lparr>aw_exchange := fst (next_precommit_event (aw_exchange w))\<rparr>"
| "exec_op H (OpSubmit d) w = w\<lparr>aw_exchange := fst (submit_disposition_candidate d (aw_exchange w))\<rparr>"
| "exec_op H (OpGate d gs r) w =
    (let (e, g) = wait_writer_gate H d gs r (aw_exchange w)
     in w\<lparr>aw_exchange := e, aw_permits := gate_permits g @ aw_permits w\<rparr>)"
| "exec_op H (OpReplace d) w = w\<lparr>aw_exchange := fst (replace_accept_blocked_candidate d (aw_exchange w))\<rparr>"
| "exec_op H (OpPublish d i) w =
    (if i < length (aw_permits w)
     then w\<lparr>aw_exchange := fst (publish_disposition d (aw_permits w ! i) (aw_exchange w)),
            aw_permits := remove_at i (aw_permits w)\<rparr>
     else w)"
| "exec_op H OpBeginScope w = w\<lparr>aw_exchange := fst (begin_accepted_response_scope (aw_exchange w))\<rparr>"
| "exec_op H OpBeginHeader w = w\<lparr>aw_exchange := fst (begin_downstream_header_write (aw_exchange w))\<rparr>"
| "exec_op H OpConfirmHeader w = w\<lparr>aw_exchange := fst (confirm_downstream_header_write (aw_exchange w))\<rparr>"
| "exec_op H OpBeginSemantic w = w\<lparr>aw_exchange := fst (begin_semantic_output_write (aw_exchange w))\<rparr>"
| "exec_op H OpConfirmSemantic w = w\<lparr>aw_exchange := fst (confirm_semantic_output_write (aw_exchange w))\<rparr>"
| "exec_op H (OpAbort r) w = w\<lparr>aw_exchange := fst (finish_or_abort r (aw_exchange w))\<rparr>"
| "exec_op H (OpAbortBounded j r) w = w\<lparr>aw_exchange := fst (finish_or_abort_bounded j r (aw_exchange w))\<rparr>"
| "exec_op H (OpFinishAccepted b r) w = w\<lparr>aw_exchange := fst (finish_accepted_response b r (aw_exchange w))\<rparr>"

definition exec_ops :: "('h, 'z) header_ops_scheme \<Rightarrow> 'h attempt_op list \<Rightarrow> 'h attempt_world \<Rightarrow> 'h attempt_world" where
  "exec_ops H ops w = fold (exec_op H) ops w"

text \<open>A newly constructed exchange and no permits.\<close>

definition attempt_started :: "'h exchange \<Rightarrow> 'h attempt_world \<Rightarrow> bool" where
  "attempt_started e0 w \<longleftrightarrow>
     w = \<lparr>aw_exchange = e0, aw_permits = []\<rparr>
   \<and> (\<exists>p request_plan precommit_plan now capacity quantum entry reserved.
        new_validated p request_plan precommit_plan now capacity quantum entry reserved = Inr e0)"

section \<open>Frames\<close>

text \<open>The parts of the state that decide the wire and the publication.\<close>

definition wire where
  "wire e = (x_writer e, x_body e, pending_request_write e, upstream_fence e, semantic_upstream_calls e,
     x_headers e, request_framing_reconciled e, x_log e)"

definition verdict where
  "verdict e = (published e, header_fence e, semantic_fence e, scope_created e, x_candidate e, permit_nonce e,
     x_request e, x_attempt e, x_generation e)"

lemmas frame_defs = wire_def verdict_def

lemma poll_response_frame:
  assumes "poll_response p e = (e', r)"
  shows "wire e' = wire e \<and> verdict e' = verdict e"
  using assms
  by (auto simp: poll_response_def charge_receipt_def charge_event_def frame_defs
      split: poll_answer.splits transport_precommit.splits prod.splits)

lemma poll_now_frame:
  "poll_precommit_now p e = (e', r) \<Longrightarrow> wire e' = wire e \<and> verdict e' = verdict e"
  by (auto simp: poll_precommit_now_def poll_response_frame split: sum.splits)

lemma buffer_event_frame: "wire (buffer_event ev e) = wire e \<and> verdict (buffer_event ev e) = verdict e"
  by (simp add: buffer_event_def frame_defs)

lemma wait_frame:
  "wait_precommit_event d p s e = (e', r) \<Longrightarrow> wire e' = wire e \<and> verdict e' = verdict e"
  by (auto simp: wait_precommit_event_def set_timeout_kind_def frame_defs Let_def
      dest: poll_response_frame [unfolded frame_defs]
      split: sum.splits option.splits prod.splits select_end.splits)

lemma next_frame:
  "next_precommit_event e = (e', r) \<Longrightarrow> wire e' = wire e \<and> verdict e' = verdict e"
  by (auto simp: next_precommit_event_def frame_defs split: option.splits)

lemma select_ended_frame:
  "select_ended s e = (e', r) \<Longrightarrow> wire e' = wire e \<and> verdict e' = verdict e \<and> (\<exists>er. r = Inl er)"
  by (auto simp: select_ended_def frame_defs split: select_end.splits prod.splits)

lemma start_write_clock_frame:
  "wire (start_write_clock now e) = wire e \<and> verdict (start_write_clock now e) = verdict e
    \<and> x_duplex (start_write_clock now e) = x_duplex e"
  by (simp add: start_write_clock_def frame_defs)

lemma settle_io_cases:
  assumes "settle_io io k e = (e', r)"
  obtains (settled) "io = IoDone" "k e = (e', r)"
    | (ended) er where "r = Inl er" "wire e' = wire e" "verdict e' = verdict e"
  using assms select_ended_frame
  by (cases io) (fastforce simp: settle_io_def frame_defs)+

text \<open>
  A duplex loop keeps whatever its write action keeps: \<open>Q\<close> holds before and after every poll
  that does not complete the write, \<open>R\<close> once it has.
\<close>

lemma duplex_loop_invariant:
  assumes run: "duplex_loop act ps e = (e', res)" and start: "Q e"
    and frame: "\<And>e e'. Q e \<Longrightarrow> wire e' = wire e \<Longrightarrow> verdict e' = verdict e \<Longrightarrow> Q e'"
    and step: "\<And>w e e2 r. Q e \<Longrightarrow> act w e = (e2, r) \<Longrightarrow>
      if r = Some (Inr WriteComplete) then R e2 else r \<noteq> Some (Inr ResponseBuffered) \<and> Q e2"
  shows "if res = Some (Inr WriteComplete) then R e' else Q e'"
  using run start
proof (induction ps arbitrary: e)
  case Nil
  then show ?case by simp
next
  case (Cons pw ps)
  obtain p w where pw: "pw = (p, w)" by (cases pw)
  show ?case
  proof (cases "rp_ready p")
    case (Inl er)
    then show ?thesis using Cons.prems pw by auto
  next
    case (Inr u)
    obtain e1 r1 where poll: "(if window_room e then poll_response p e else (e, Inr None)) = (e1, r1)"
      by fastforce
    have q1: "Q e1" using poll poll_response_frame frame Cons.prems(2)
      by (metis prod.inject)
    show ?thesis
    proof (cases r1)
      case (Inl er)
      then show ?thesis using Cons.prems(1) poll pw Inr q1 by auto
    next
      case r1: (Inr ev)
      show ?thesis
      proof (cases ev)
        case None
        obtain e2 r2 where act: "act w e1 = (e2, r2)" by fastforce
        note s = step [OF q1 act]
        show ?thesis
        proof (cases r2)
          case r2: None
          then have "duplex_loop act ps e2 = (e', res)" using Cons.prems(1) poll pw Inr r1 None act by simp
          moreover have "Q e2" using s r2 by simp
          ultimately show ?thesis by (rule Cons.IH)
        next
          case (Some r3)
          then show ?thesis using Cons.prems(1) poll pw Inr r1 None act s by (auto split: if_splits)
        qed
      next
        case (Some x)
        have "Q (buffer_event x e1)" using frame [OF q1] buffer_event_frame by blast
        then show ?thesis using Cons.prems(1) poll pw Inr r1 Some by auto
      qed
    qed
  qed
qed

section \<open>The grammar of one exchange\<close>

datatype phase = Idle | HeadCalled | Open | Finishing | Closed | Reset bool

definition grammar :: "phase \<Rightarrow> 'h transport_event \<Rightarrow> phase option" where
  "grammar q ev =
    (case ev of
       Called c \<Rightarrow>
        (case c of
           ConnectTo a \<Rightarrow> if q = Idle \<or> q = Reset False then Some q else None
         | WriteHead h \<Rightarrow> if q = Idle then Some HeadCalled else None
         | WriteBody u \<Rightarrow> if q = Open then Some Open else None
         | PollWriteBody u \<Rightarrow> if q = Open then Some Open else None
         | FinishBody \<Rightarrow> if q = Open \<or> q = Finishing then Some Finishing else None
         | PollFinishBody \<Rightarrow> if q = Open \<or> q = Finishing then Some Finishing else None
         | ResetStream \<Rightarrow> Some (Reset (case q of Idle \<Rightarrow> False | Reset b \<Rightarrow> b | _ \<Rightarrow> True))
         | FinishAccepted b \<Rightarrow> if q = Idle \<or> q = Closed then Some q else None)
     | Completed c \<Rightarrow>
        (case c of
           ConnectTo a \<Rightarrow> if q = Idle \<or> q = Reset False then Some q else None
         | WriteHead h \<Rightarrow> if q = HeadCalled then Some Open else None
         | WriteBody u \<Rightarrow> if q = Open then Some Open else None
         | PollWriteBody u \<Rightarrow> if q = Open then Some Open else None
         | FinishBody \<Rightarrow> if q = Finishing then Some Closed else None
         | PollFinishBody \<Rightarrow> if q = Finishing then Some Closed else None
         | ResetStream \<Rightarrow> (case q of Reset b \<Rightarrow> Some q | _ \<Rightarrow> None)
         | FinishAccepted b \<Rightarrow> if q = Idle \<or> q = Closed then Some q else None))"

fun grammar_run :: "phase \<Rightarrow> 'h transport_event list \<Rightarrow> phase option" where
  "grammar_run q [] = Some q"
| "grammar_run q (ev # evs) = (case grammar q ev of None \<Rightarrow> None | Some q' \<Rightarrow> grammar_run q' evs)"

lemma grammar_run_snoc:
  "grammar_run q (evs @ [ev]) = (case grammar_run q evs of None \<Rightarrow> None | Some q' \<Rightarrow> grammar q' ev)"
  by (induction evs arbitrary: q) (auto split: option.splits)

text \<open>Body units the transport took, and whether every one handed over for good was taken.\<close>

fun written :: "'h transport_event list \<Rightarrow> bytes list" where
  "written [] = []"
| "written (Completed (WriteBody c) # l) = c # written l"
| "written (Completed (PollWriteBody c) # l) = c # written l"
| "written (_ # l) = written l"

fun handed :: "'h transport_event list \<Rightarrow> nat" where
  "handed [] = 0"
| "handed (Called (WriteBody c) # l) = Suc (handed l)"
| "handed (_ # l) = handed l"

fun taken :: "'h transport_event list \<Rightarrow> nat" where
  "taken [] = 0"
| "taken (Completed (WriteBody c) # l) = Suc (taken l)"
| "taken (_ # l) = taken l"

definition lossless :: "'h transport_event list \<Rightarrow> bool" where
  "lossless l \<longleftrightarrow> handed l = taken l"

fun heads :: "'h transport_event list \<Rightarrow> 'h list" where
  "heads [] = []"
| "heads (Called (WriteHead h) # l) = h # heads l"
| "heads (_ # l) = heads l"

lemma written_append [simp]: "written (l @ m) = written l @ written m"
  by (induction l rule: written.induct) auto

lemma handed_append [simp]: "handed (l @ m) = handed l + handed m"
  by (induction l rule: handed.induct) auto

lemma taken_append [simp]: "taken (l @ m) = taken l + taken m"
  by (induction l rule: taken.induct) auto

lemma heads_append [simp]: "heads (l @ m) = heads l @ heads m"
  by (induction l rule: heads.induct) auto

section \<open>The wire invariant\<close>

definition body_units :: "prepared_body \<Rightarrow> bytes list" where
  "body_units b = (case pb_source b of Some (QueueSource cs) \<Rightarrow> cs | _ \<Rightarrow> [])"

definition pending_units :: "'h exchange \<Rightarrow> bytes list" where
  "pending_units e = (case pending_request_write e of None \<Rightarrow> [] | Some c \<Rightarrow> [c])"

text \<open>A body of \<open>n\<close> bytes, held as the units \<open>us\<close> when it is a queue.\<close>

definition body_is :: "bytes list option \<Rightarrow> nat \<Rightarrow> prepared_body \<Rightarrow> bool" where
  "body_is us n b \<longleftrightarrow> visible_bytes b = n \<and>
     (case us of None \<Rightarrow> True | Some u \<Rightarrow> pb_source b = Some (QueueSource u))"

text \<open>What was taken, what is pending and what is left make up the whole body.\<close>

definition flow_ok :: "bytes list option \<Rightarrow> nat \<Rightarrow> 'h exchange \<Rightarrow> bool" where
  "flow_ok us n e \<longleftrightarrow>
     taken (x_log e) \<le> handed (x_log e)
   \<and> (us \<noteq> None \<longrightarrow> (\<exists>cs. pb_source (x_body e) = Some (QueueSource cs)))
   \<and> (lossless (x_log e) \<longrightarrow>
        length (concat (written (x_log e) @ pending_units e)) + visible_bytes (x_body e) = n
      \<and> (us \<noteq> None \<longrightarrow> us = Some (written (x_log e) @ pending_units e @ body_units (x_body e))))"

definition body_drained :: "'h exchange \<Rightarrow> bool" where
  "body_drained e \<longleftrightarrow> pending_request_write e = None \<and> visible_bytes (x_body e) = 0 \<and> body_units (x_body e) = []"

definition declares :: "('h, 'z) header_ops_scheme \<Rightarrow> nat \<Rightarrow> 'h \<Rightarrow> bool" where
  "declares H n h \<longleftrightarrow> h_get_all H CONTENT_LENGTH h = [decimal n] \<and> \<not> contains_key H TRANSFER_ENCODING h"

definition body_complete :: "bytes list option \<Rightarrow> nat \<Rightarrow> 'h transport_event list \<Rightarrow> bool" where
  "body_complete us n l \<longleftrightarrow>
     (lossless l \<longrightarrow> length (concat (written l)) = n \<and> (us \<noteq> None \<longrightarrow> us = Some (written l)))
   \<and> taken l \<le> handed l"

text \<open>One clause per writer state.\<close>

definition writer_ok :: "bytes list option \<Rightarrow> nat \<Rightarrow> 'h exchange \<Rightarrow> phase \<Rightarrow> bool" where
  "writer_ok us n e q =
    (case x_writer e of
       NotStarted \<Rightarrow> q = Idle \<and> upstream_fence e = Clear \<and> flow_ok us n e \<and> pending_request_write e = None
                     \<and> written (x_log e) = [] \<and> lossless (x_log e)
     | HeaderWriteStarted \<Rightarrow> q = HeadCalled \<and> upstream_fence e = WriteStartedMayHaveCommitted
     | HeaderWritten \<Rightarrow> q = Open \<and> upstream_fence e = WriteConfirmed \<and> flow_ok us n e
     | BodyWriting \<Rightarrow> q = Open \<and> upstream_fence e = WriteConfirmed \<and> flow_ok us n e
     | EosWriting \<Rightarrow> (q = Open \<or> q = Finishing) \<and> upstream_fence e = WriteConfirmed \<and> flow_ok us n e
                     \<and> body_drained e
     | QuiescedNormalEos \<Rightarrow>
         (q = Idle \<and> upstream_fence e = Clear \<and> written (x_log e) = [])
       \<or> (q = Closed \<and> upstream_fence e = WriteConfirmed \<and> body_complete us n (x_log e))
     | _ \<Rightarrow> q = Reset (upstream_fence e \<noteq> Clear))"

definition wire_ok :: "('h, 'z) header_ops_scheme \<Rightarrow> bytes list option \<Rightarrow> nat \<Rightarrow> 'h exchange \<Rightarrow> bool" where
  "wire_ok H us n e \<longleftrightarrow>
     (\<exists>q. grammar_run Idle (x_log e) = Some q \<and> writer_ok us n e q)
   \<and> semantic_upstream_calls e = length (heads (x_log e))
   \<and> length (heads (x_log e)) = (if upstream_fence e = Clear then 0 else 1)
   \<and> list_all (declares H n) (heads (x_log e))
   \<and> (request_framing_reconciled e \<longrightarrow> declares H n (x_headers e))"

lemma wire_ok_cong: "wire e' = wire e \<Longrightarrow> wire_ok H us n e' = wire_ok H us n e"
  by (simp add: wire_def wire_ok_def writer_ok_def flow_ok_def body_drained_def pending_units_def
      split: writer_state.splits)

end
