(* ===== verification/Attempt_Writer.thy ===== *)
theory Attempt_Writer
  imports Attempt_Wire
begin

text \<open>
  Connecting, writing the request head and taking body units keep the wire invariant of
  \<^verbatim>\<open>Attempt_Wire\<close>.
\<close>

section \<open>Connecting keeps the wire\<close>

lemmas log_defs = log_call_def log_done_def

lemma writer_ok_clear:
  "writer_ok us n e q \<Longrightarrow> upstream_fence e = Clear \<Longrightarrow> q = Idle \<or> q = Reset False"
  by (auto simp: writer_ok_def split: writer_state.splits)

lemma writer_ok_log_connect:
  assumes "writer_ok us n e q" "upstream_fence e = Clear" "ev = Called (ConnectTo a) \<or> ev = Completed (ConnectTo a)"
  shows "writer_ok us n (e\<lparr>x_log := x_log e @ [ev]\<rparr>) q"
  using assms
  by (auto simp: writer_ok_def flow_ok_def pending_units_def body_complete_def lossless_def
      body_drained_def split: writer_state.splits)

lemma wire_ok_log_connect:
  assumes ok: "wire_ok H us n e" and clear: "upstream_fence e = Clear"
    and ev: "ev = Called (ConnectTo a) \<or> ev = Completed (ConnectTo a)"
  shows "wire_ok H us n (e\<lparr>x_log := x_log e @ [ev]\<rparr>)"
proof -
  obtain q where q: "grammar_run Idle (x_log e) = Some q" "writer_ok us n e q"
    using ok by (auto simp: wire_ok_def)
  have "grammar q ev = Some q" using writer_ok_clear [OF q(2) clear] ev by (auto simp: grammar_def)
  then have "grammar_run Idle (x_log e @ [ev]) = Some q" by (simp add: grammar_run_snoc q(1))
  moreover have "heads [ev] = []" using ev by auto
  ultimately show ?thesis
    using ok writer_ok_log_connect [OF q(2) clear ev] by (auto simp: wire_ok_def)
qed

lemma connect_loop_wire:
  "connect_loop i ans as err e = (e', r) \<Longrightarrow> wire_ok H us n e \<Longrightarrow> upstream_fence e = Clear \<Longrightarrow>
    wire_ok H us n e' \<and> upstream_fence e' = Clear \<and> x_writer e' = x_writer e \<and> verdict e' = verdict e"
proof (induction i ans as err e arbitrary: e' r rule: connect_loop.induct)
  case (1 i ans err e)
  then show ?case by simp
next
  case (2 i ans a as err e)
  define e1 where "e1 = log_call (ConnectTo a)
    (e\<lparr>connection_sub_attempts := wrapping_add (connection_sub_attempts e) 1\<rparr>)"
  have ok1: "wire_ok H us n e1"
  proof -
    have "wire_ok H us n (e\<lparr>x_log := x_log e @ [Called (ConnectTo a)]\<rparr>)"
      using wire_ok_log_connect [OF 2(4,5)] by blast
    moreover have "wire e1 = wire (e\<lparr>x_log := x_log e @ [Called (ConnectTo a)]\<rparr>)"
      by (simp add: e1_def log_defs wire_def)
    ultimately show ?thesis using wire_ok_cong by blast
  qed
  have same: "upstream_fence e1 = Clear" "x_writer e1 = x_writer e" "verdict e1 = verdict e"
    using 2(5) by (simp_all add: e1_def log_defs verdict_def)
  have timed: "wire_ok H us n (set_timeout_kind k e1)" "upstream_fence (set_timeout_kind k e1) = Clear"
    "x_writer (set_timeout_kind k e1) = x_writer e" "verdict (set_timeout_kind k e1) = verdict e" for k
    using ok1 same wire_ok_cong [of "set_timeout_kind k e1" e1 H us n]
    by (simp_all add: set_timeout_kind_def frame_defs)
  show ?case
  proof (cases "ca_cancelled_before (ans i)")
    case True
    then show ?thesis using 2(3-5) by simp
  next
    case False
    show ?thesis
    proof (cases "ca_outcome (ans i)")
      case ConnectCancelled
      then show ?thesis using 2(3) False ok1 same by (simp add: e1_def [symmetric] Let_def del: One_nat_def)
    next
      case ConnectDone
      let ?f = "log_done (ConnectTo a) (e1\<lparr>x_connected := True\<rparr>)"
      have "wire_ok H us n (e1\<lparr>x_log := x_log e1 @ [Completed (ConnectTo a)]\<rparr>)"
        using wire_ok_log_connect [OF ok1 same(1)] by blast
      then have "wire_ok H us n ?f"
        using wire_ok_cong [of ?f "e1\<lparr>x_log := x_log e1 @ [Completed (ConnectTo a)]\<rparr>" H us n]
        by (simp add: log_defs wire_def)
      moreover have "e' = ?f"
        using 2(3) False ConnectDone by (simp add: e1_def [symmetric] Let_def del: One_nat_def)
      moreover have "upstream_fence ?f = Clear" "x_writer ?f = x_writer e" "verdict ?f = verdict e"
        using same by (simp_all add: log_defs verdict_def)
      ultimately show ?thesis by simp
    next
      case (ConnectFailedWith er)
      then have "connect_loop (Suc i) ans as (Some er) e1 = (e', r)"
        using 2(3) False by (simp add: e1_def [symmetric] Let_def del: One_nat_def)
      then show ?thesis using 2(2) [OF False e1_def refl refl ConnectFailedWith _ ok1 same(1)] same by simp
    next
      case ConnectTimedOut
      show ?thesis
      proof (cases "attempt_deadline (x_clock e)
          \<le> or_deadline (checked_add (ca_started (ans i)) (x_connect_timeout e)) (attempt_deadline (x_clock e))")
        case True
        then show ?thesis using 2(3) False ConnectTimedOut timed by (auto simp: e1_def [symmetric] Let_def simp del: One_nat_def)
      next
        case late: False
        then have "connect_loop (Suc i) ans as (Some ConnectTimeout) (set_timeout_kind KConnect e1) = (e', r)"
          using 2(3) False ConnectTimedOut by (simp add: e1_def [symmetric] Let_def del: One_nat_def)
        then show ?thesis
          using 2(1) [OF False e1_def refl refl ConnectTimedOut late _ timed(1,2)] timed(3,4) by simp
      qed
    qed
  qed
qed

lemma connect_wire:
  "connect ans e = (e', r) \<Longrightarrow> wire_ok H us n e \<Longrightarrow>
    wire_ok H us n e' \<and> x_writer e' = x_writer e \<and> verdict e' = verdict e"
  using connect_loop_wire by (fastforce simp: connect_def split: if_splits)

section \<open>The request head\<close>

lemma writer_ok_headers:
  "writer_ok us n (e\<lparr>x_headers := h, request_framing_reconciled := b\<rparr>) q = writer_ok us n e q"
  by (simp add: writer_ok_def flow_ok_def body_drained_def pending_units_def cong: writer_state.case_cong)

lemma reconcile_wire:
  assumes run: "reconcile_framing H e = (e', r)" and laws: "header_laws H"
    and ok: "wire_ok H us n e" and idle: "x_writer e = NotStarted"
  shows "wire_ok H us n e' \<and> verdict e' = verdict e \<and> x_writer e' = NotStarted
    \<and> upstream_fence e' = upstream_fence e \<and> x_log e' = x_log e \<and> x_body e' = x_body e
    \<and> pending_request_write e' = pending_request_write e
    \<and> (r = Inr () \<longrightarrow> request_framing_reconciled e')"
proof (cases "request_framing_reconciled e")
  case True
  then show ?thesis using run ok idle by (auto simp: reconcile_framing_def)
next
  case False
  have vis: "visible_bytes (x_body e) = n"
    using ok idle by (auto simp: wire_ok_def writer_ok_def flow_ok_def pending_units_def)
  obtain f3 where f3: "\<not> fl_committed f3" "fl_knowledge f3 = Exact n"
    and eq: "reconcile_framing H e =
     (case finalize H f3 (x_headers e) (x_protocol e) False None of
        (f4, h, Inl er) \<Rightarrow> (e\<lparr>x_headers := h\<rparr>, Inl (AttemptBody er))
      | (f4, h, Inr _) \<Rightarrow> (e\<lparr>x_headers := h, request_framing_reconciled := True\<rparr>, Inr ()))"
  proof -
    define f1 where "f1 = (if contains_key H CONTENT_LENGTH (x_headers e)
      then record_header_mutation CONTENT_LENGTH framing_default else framing_default)"
    define f2 where "f2 = (if contains_key H TRANSFER_ENCODING (x_headers e)
      then record_header_mutation TRANSFER_ENCODING f1 else f1)"
    have "\<not> fl_committed f2" by (simp add: f2_def f1_def record_header_mutation_def framing_default_def)
    then have "buffered_eos n f2 = (f2\<lparr>fl_knowledge := Exact n\<rparr>, Inr ())" "\<not> fl_committed (f2\<lparr>fl_knowledge := Exact n\<rparr>)"
      by (simp_all add: buffered_eos_def ensure_held_def ensure_def)
    moreover from this have "reconcile_framing H e =
     (case finalize H (f2\<lparr>fl_knowledge := Exact n\<rparr>) (x_headers e) (x_protocol e) False None of
        (f4, h, Inl er) \<Rightarrow> (e\<lparr>x_headers := h\<rparr>, Inl (AttemptBody er))
      | (f4, h, Inr _) \<Rightarrow> (e\<lparr>x_headers := h, request_framing_reconciled := True\<rparr>, Inr ()))"
      using False vis
      unfolding reconcile_framing_def Let_def f1_def [symmetric] f2_def [symmetric] by simp
    ultimately show ?thesis by (intro that [of "f2\<lparr>fl_knowledge := Exact n\<rparr>"]) simp_all
  qed
  obtain f4 h fr where fin: "finalize H f3 (x_headers e) (x_protocol e) False None = (f4, h, fr)"
    by (metis prod_cases3)
  have kept: "wire_ok H us n (e\<lparr>x_headers := h, request_framing_reconciled := b\<rparr>)"
    if "b \<longrightarrow> declares H n h" for b
    using ok that by (simp add: wire_ok_def writer_ok_headers)
  show ?thesis
  proof (cases fr)
    case (Inl er)
    have "e\<lparr>x_headers := h\<rparr> = e\<lparr>x_headers := h, request_framing_reconciled := False\<rparr>"
      using False by simp
    then show ?thesis using run eq fin Inl kept [of False] idle by (auto simp: verdict_def)
  next
    case (Inr u)
    obtain h1 where "strip_framing H f3 (x_headers e) = Inr h1"
      "length_headers H (Exact n) (x_protocol e) h1 = (h, Inr ())"
      using finalize_ok_cases [OF fin [unfolded Inr]] f3 by (auto simp: body_forbidden_def)
    then have "declares H n h"
      using length_headers_exclusive(3) [OF laws] strip_framing_exclusive(1) [OF laws] by (simp add: declares_def)
    then show ?thesis using run eq fin Inr kept [of True] idle by (auto simp: verdict_def)
  qed
qed

lemma head_called_wire:
  assumes ok: "wire_ok H us n e" and idle: "x_writer e = NotStarted" and rec: "request_framing_reconciled e"
    and eq: "e' = log_call (WriteHead (x_headers e)) (start_write_clock now
      (e\<lparr>upstream_fence := WriteStartedMayHaveCommitted, semantic_upstream_calls := 1, x_writer := HeaderWriteStarted\<rparr>))"
  shows "wire_ok H us n e' \<and> verdict e' = verdict e \<and> x_writer e' = HeaderWriteStarted
    \<and> request_framing_reconciled e' \<and> flow_ok us n e' \<and> x_headers e' = x_headers e
    \<and> upstream_fence e' = WriteStartedMayHaveCommitted \<and> grammar_run Idle (x_log e') = Some HeadCalled"
proof -
  have st: "grammar_run Idle (x_log e) = Some Idle" "flow_ok us n e" "upstream_fence e = Clear"
    "heads (x_log e) = []" "declares H n (x_headers e)"
    using ok idle rec by (auto simp: wire_ok_def writer_ok_def)
  show ?thesis
    using st rec unfolding eq
    by (auto simp: wire_ok_def writer_ok_def log_defs start_write_clock_def verdict_def flow_ok_def
        pending_units_def lossless_def grammar_run_snoc grammar_def)
qed

lemma confirm_head_wire:
  assumes run: "confirm_head e = (e', r)" and ok: "wire_ok H us n e" and flow: "flow_ok us n e"
    and st: "x_writer e = HeaderWriteStarted"
  shows "wire_ok H us n e' \<and> verdict e' = verdict e"
proof -
  have "grammar_run Idle (x_log e) = Some HeadCalled" "upstream_fence e = WriteStartedMayHaveCommitted"
    using ok st by (auto simp: wire_ok_def writer_ok_def)
  then show ?thesis
    using run ok flow
    by (auto simp: confirm_head_def fence_confirm_def log_defs Let_def wire_ok_def writer_ok_def verdict_def
        flow_ok_def pending_units_def lossless_def grammar_run_snoc grammar_def)
qed

lemma write_head_wire:
  assumes run: "write_head H t e = (e', r)" and laws: "header_laws H" and ok: "wire_ok H us n e"
    and idle: "x_writer e = NotStarted"
  shows "wire_ok H us n e' \<and> verdict e' = verdict e"
proof -
  obtain e1 r1 where rec: "reconcile_framing H e = (e1, r1)" by fastforce
  note e1 = reconcile_wire [OF rec laws ok idle]
  show ?thesis
  proof (cases r1)
    case (Inl er)
    then show ?thesis using run rec e1 by (auto simp: write_head_def)
  next
    case (Inr u)
    define e2 where "e2 = log_call (WriteHead (x_headers e1)) (start_write_clock (t_now t)
      (e1\<lparr>upstream_fence := WriteStartedMayHaveCommitted, semantic_upstream_calls := 1, x_writer := HeaderWriteStarted\<rparr>))"
    have clear: "upstream_fence e1 = Clear"
      using e1 by (auto simp: wire_ok_def writer_ok_def)
    have s: "settle_io (t_io t) confirm_head e2 = (e', r)"
      using run rec Inr clear by (simp add: write_head_def fence_begin_write_def e2_def)
    note h = head_called_wire [OF conjunct1 [OF e1] _ _ e2_def]
    have e2: "wire_ok H us n e2" "verdict e2 = verdict e" "flow_ok us n e2" "x_writer e2 = HeaderWriteStarted"
      using h e1 Inr by simp_all
    show ?thesis
    proof (rule settle_io_cases [OF s])
      assume "confirm_head e2 = (e', r)"
      then show ?thesis using confirm_head_wire [OF _ e2(1,3,4)] e2(2) by simp
    next
      assume "wire e' = wire e2" "verdict e' = verdict e2"
      then show ?thesis using wire_ok_cong [of e' e2 H us n] e2 by simp
    qed
  qed
qed

section \<open>The request body\<close>

lemma begin_next_send_unit:
  assumes "begin_next_send b = (b', Inr (Some c))"
  shows "visible_bytes b = length c + visible_bytes b'"
    and "pb_source b = Some (QueueSource cs) \<Longrightarrow>
      cs \<noteq> [] \<and> hd cs = c \<and> pb_source b' = Some (QueueSource (tl cs))"
  using assms
  by (auto simp: begin_next_send_def visible_bytes_def unwrap_or_zero_def Let_def
      split: option.splits body_source.splits list.splits sum.splits if_splits prod.splits)

lemma begin_next_send_end:
  assumes "begin_next_send b = (b', Inr None)"
  shows "visible_bytes b' = visible_bytes b \<and> visible_bytes b' = 0 \<and> body_units b' = []"
    and "pb_source b = Some (QueueSource cs) \<Longrightarrow> cs = [] \<and> pb_source b' = Some (QueueSource cs)"
  using assms
  by (auto simp: begin_next_send_def visible_bytes_def unwrap_or_zero_def Let_def body_units_def
      split: option.splits body_source.splits list.splits sum.splits if_splits prod.splits)

lemma begin_next_send_error:
  assumes "begin_next_send b = (b', Inl er)"
  shows "visible_bytes b' = visible_bytes b" "pb_source b \<noteq> Some (QueueSource cs)"
  using assms
  by (auto simp: begin_next_send_def visible_bytes_def unwrap_or_zero_def Let_def
      split: option.splits body_source.splits list.splits sum.splits if_splits prod.splits)

text \<open>Moving the next unit out of the body keeps the flow; it is then the pending one.\<close>

lemma take_unit_flow:
  assumes run: "take_unit e = (e1, r)" and flow: "flow_ok us n e"
  shows "flow_ok us n (case r of Inr (Some c) \<Rightarrow> e1\<lparr>pending_request_write := Some c\<rparr> | _ \<Rightarrow> e1)"
    and "r = Inr None \<Longrightarrow> body_drained e1"
    and "verdict e1 = verdict e" "x_writer e1 = x_writer e" "x_log e1 = x_log e"
    "upstream_fence e1 = upstream_fence e" "semantic_upstream_calls e1 = semantic_upstream_calls e"
    "x_headers e1 = x_headers e" "request_framing_reconciled e1 = request_framing_reconciled e"
proof -
  show "verdict e1 = verdict e" "x_writer e1 = x_writer e" "x_log e1 = x_log e"
    "upstream_fence e1 = upstream_fence e" "semantic_upstream_calls e1 = semantic_upstream_calls e"
    "x_headers e1 = x_headers e" "request_framing_reconciled e1 = request_framing_reconciled e"
    using run by (auto simp: take_unit_def verdict_def split: option.splits prod.splits)
  have both: "flow_ok us n (case r of Inr (Some c) \<Rightarrow> e1\<lparr>pending_request_write := Some c\<rparr> | _ \<Rightarrow> e1)
    \<and> (r = Inr None \<longrightarrow> body_drained e1)"
  proof (cases "pending_request_write e")
    case (Some c)
    then show ?thesis using run flow by (auto simp: take_unit_def flow_ok_def pending_units_def)
  next
    case None
    obtain b br where b: "begin_next_send (x_body e) = (b, br)" by fastforce
    have e1: "e1 = e\<lparr>x_body := b\<rparr>" "r = br" using run None b by (auto simp: take_unit_def)
    show ?thesis
    proof (cases br)
      case (Inl er)
      then show ?thesis
        using flow None b begin_next_send_error [OF b [unfolded Inl]] e1
        by (auto simp: flow_ok_def pending_units_def)
    next
      case (Inr m)
      show ?thesis
      proof (cases m)
        case m: None
        note f = begin_next_send_end [OF b [unfolded Inr m]]
        show ?thesis using flow None f e1 Inr m
          by (auto simp: flow_ok_def pending_units_def body_drained_def body_units_def)
      next
        case (Some c)
        note f = begin_next_send_unit [OF b [unfolded Inr Some]]
        show ?thesis
        proof (cases us)
          case us: None
          show ?thesis using flow None f(1) e1 Inr Some us by (auto simp: flow_ok_def pending_units_def)
        next
          case us: (Some u)
          then obtain cs where cs: "pb_source (x_body e) = Some (QueueSource cs)"
            using flow by (auto simp: flow_ok_def)
          then have "cs = c # tl cs" "pb_source b = Some (QueueSource (tl cs))" using f(2) by (cases cs; simp)+
          then show ?thesis using flow None f(1) e1 Inr Some us cs
            by (auto simp: flow_ok_def pending_units_def body_units_def)
        qed
      qed
    qed
  qed
  then show "flow_ok us n (case r of Inr (Some c) \<Rightarrow> e1\<lparr>pending_request_write := Some c\<rparr> | _ \<Rightarrow> e1)"
    and "r = Inr None \<Longrightarrow> body_drained e1" by simp_all
qed

end
