(* ===== verification/Attempt_Safety.thy ===== *)
theory Attempt_Safety
  imports Attempt_Writer
begin

text \<open>
  Every operation of an exchange keeps the wire invariant of \<^verbatim>\<open>Attempt_Wire\<close> and the
  publication invariant stated here; the properties of the attempt follow from the two.
\<close>

section \<open>Body units and the end of the body\<close>

lemma grammar_run_append:
  "grammar_run q (l @ m) = (case grammar_run q l of None \<Rightarrow> None | Some q' \<Rightarrow> grammar_run q' m)"
  by (induction l arbitrary: q) (auto split: option.splits)

lemma wire_okE:
  assumes "wire_ok H us n e"
  obtains q where "grammar_run Idle (x_log e) = Some q" "writer_ok us n e q"
    "semantic_upstream_calls e = length (heads (x_log e))"
    "length (heads (x_log e)) = (if upstream_fence e = Clear then 0 else 1)"
    "list_all (declares H n) (heads (x_log e))"
    "request_framing_reconciled e \<longrightarrow> declares H n (x_headers e)"
  using assms by (auto simp: wire_ok_def)

lemma clock_wire: "wire_ok H us n (start_write_clock now e) = wire_ok H us n e"
  by (rule wire_ok_cong) (simp add: start_write_clock_frame)

lemma eos_called_wire:
  assumes ok: "wire_ok H us n e" and st: "x_writer e = EosWriting" and c: "c = FinishBody \<or> c = PollFinishBody"
  shows "wire_ok H us n (log_call c e)" and "grammar_run Idle (x_log (log_call c e)) = Some Finishing"
proof -
  obtain q where q: "grammar_run Idle (x_log e) = Some q" "q = Open \<or> q = Finishing"
    "upstream_fence e = WriteConfirmed" "flow_ok us n e" "body_drained e"
    using ok st by (auto elim!: wire_okE simp: writer_ok_def)
  then show run: "grammar_run Idle (x_log (log_call c e)) = Some Finishing"
    using c by (auto simp: log_defs grammar_run_snoc grammar_def)
  have "flow_ok us n (log_call c e)" "body_drained (log_call c e)" "heads (x_log (log_call c e)) = heads (x_log e)"
    using q(4,5) c by (auto simp: log_defs flow_ok_def body_drained_def pending_units_def lossless_def)
  then show "wire_ok H us n (log_call c e)"
    using ok st q(3) run by (auto simp: wire_ok_def writer_ok_def log_defs)
qed

lemma finish_wire:
  assumes ok: "wire_ok H us n e" and st: "x_writer e = EosWriting"
    and fin: "grammar_run Idle (x_log e) = Some Finishing" and c: "c = FinishBody \<or> c = PollFinishBody"
    and eq: "finish_eos (log_done c e) = (e', r)"
  shows "wire_ok H us n e' \<and> verdict e' = verdict e"
proof -
  have q: "upstream_fence e = WriteConfirmed" "flow_ok us n e" "body_drained e"
    using ok st by (auto elim!: wire_okE simp: writer_ok_def)
  have "grammar_run Idle (x_log (log_done c e)) = Some Closed"
    using fin c by (auto simp: log_defs grammar_run_snoc grammar_def)
  moreover have "body_complete us n (x_log (log_done c e))" "heads (x_log (log_done c e)) = heads (x_log e)"
    using q(2,3) c by (auto simp: log_defs body_complete_def flow_ok_def body_drained_def pending_units_def
        lossless_def)
  ultimately show ?thesis
    using ok q(1) eq by (auto simp: finish_eos_def wire_ok_def writer_ok_def log_defs verdict_def)
qed

lemma duplex_finish_step:
  assumes ok: "wire_ok H us n e" and st: "x_writer e = EosWriting" and run: "duplex_finish w e = (e2, r)"
  shows "if r = Some (Inr WriteComplete) then wire_ok H us n (fst (finish_eos e2)) \<and> verdict (fst (finish_eos e2)) = verdict e
    else r \<noteq> Some (Inr ResponseBuffered) \<and> wire_ok H us n e2 \<and> x_writer e2 = EosWriting \<and> verdict e2 = verdict e"
proof -
  let ?e1 = "log_call PollFinishBody e"
  note called = eos_called_wire [OF ok st, of PollFinishBody, simplified]
  have st1: "x_writer ?e1 = EosWriting" "verdict ?e1 = verdict e" using st by (simp_all add: log_defs verdict_def)
  obtain e3 r3 where f: "finish_eos (log_done PollFinishBody ?e1) = (e3, r3)" by fastforce
  note fin = finish_wire [OF called(1) st1(1) called(2) _ f]
  show ?thesis
    using run called(1) st1 fin f
    by (cases w) (auto simp: duplex_finish_def Let_def)
qed

lemma eos_wire:
  assumes run: "drive_eos_writer_once t e = (e', r)" and ok: "wire_ok H us n e" and st: "x_writer e = EosWriting"
  shows "wire_ok H us n e' \<and> verdict e' = verdict e"
proof -
  let ?e1 = "start_write_clock (t_now t) e"
  have ok1: "wire_ok H us n ?e1" and st1: "x_writer ?e1 = EosWriting" and v1: "verdict ?e1 = verdict e"
    using ok st start_write_clock_frame [of "t_now t" e] by (simp_all add: clock_wire wire_def)
  show ?thesis
  proof (cases "x_duplex ?e1")
    case True
    obtain e2 res where loop: "duplex_loop duplex_finish (t_duplex t) ?e1 = (e2, res)" by fastforce
    let ?Q = "\<lambda>x. wire_ok H us n x \<and> x_writer x = EosWriting \<and> verdict x = verdict e"
    let ?R = "\<lambda>x. wire_ok H us n (fst (finish_eos x)) \<and> verdict (fst (finish_eos x)) = verdict e"
    have inv: "if res = Some (Inr WriteComplete) then ?R e2 else ?Q e2"
    proof (rule duplex_loop_invariant [OF loop])
      show "?Q ?e1" using ok1 st1 v1 by simp
      show "?Q y" if "?Q x" "wire y = wire x" "verdict y = verdict x" for x y
        using that wire_ok_cong [OF that(2), of H us n] by (simp add: wire_def)
      show "if s = Some (Inr WriteComplete) then ?R y else s \<noteq> Some (Inr ResponseBuffered) \<and> ?Q y"
        if "?Q x" "duplex_finish w x = (y, s)" for w x y s
        using duplex_finish_step [OF _ _ that(2), of H us n] that(1) by auto
    qed
    have s: "settle_duplex (t_ended t) finish_eos (e2, res) = (e', r)"
      using run True loop by (simp add: drive_eos_writer_once_def Let_def)
    show ?thesis
    proof (cases "res = Some (Inr WriteComplete)")
      case True
      then show ?thesis using inv s by (auto simp: settle_duplex_def)
    next
      case False
      then have "wire e' = wire e2 \<and> verdict e' = verdict e2"
        using s select_ended_frame
        by (auto simp: settle_duplex_def frame_defs split: option.splits sum.splits duplex_progress.splits)
      then show ?thesis using inv False wire_ok_cong [of e' e2 H us n] by simp
    qed
  next
    case False
    let ?e2 = "log_call FinishBody ?e1"
    note called = eos_called_wire [OF ok1 st1, of FinishBody, simplified]
    have st2: "x_writer ?e2 = EosWriting" "verdict ?e2 = verdict e" using st1 v1 by (simp_all add: log_defs verdict_def)
    have s: "settle_io (t_io t) (\<lambda>x. finish_eos (log_done FinishBody x)) ?e2 = (e', r)"
      using run False by (simp add: drive_eos_writer_once_def Let_def)
    show ?thesis
    proof (rule settle_io_cases [OF s])
      assume "finish_eos (log_done FinishBody ?e2) = (e', r)"
      then show ?thesis using finish_wire [OF called(1) st2(1) called(2), of FinishBody] st2(2) by simp
    next
      assume "wire e' = wire ?e2" "verdict e' = verdict ?e2"
      then show ?thesis using wire_ok_cong [of e' ?e2 H us n] called(1) st2(2) by simp
    qed
  qed
qed

text \<open>A body state: what every point of the body loop keeps.\<close>

definition body_state :: "('h, 'z) header_ops_scheme \<Rightarrow> bytes list option \<Rightarrow> nat \<Rightarrow> 'h exchange \<Rightarrow> bool" where
  "body_state H us n e \<longleftrightarrow> wire_ok H us n e \<and> x_writer e = BodyWriting"

lemma body_stateD:
  assumes "body_state H us n e"
  shows "grammar_run Idle (x_log e) = Some Open" "upstream_fence e = WriteConfirmed" "flow_ok us n e"
  using assms by (auto simp: body_state_def writer_ok_def elim!: wire_okE)

text \<open>A change of the log by body calls only, with the flow kept, stays in the body state.\<close>

lemma body_stateI:
  assumes old: "body_state H us n e" and run: "grammar_run Idle (x_log e') = Some Open"
    and flow: "flow_ok us n e'" and hd: "heads (x_log e') = heads (x_log e)"
    and same: "x_writer e' = BodyWriting" "upstream_fence e' = WriteConfirmed"
      "semantic_upstream_calls e' = semantic_upstream_calls e" "x_headers e' = x_headers e"
      "request_framing_reconciled e' = request_framing_reconciled e"
  shows "body_state H us n e'"
  using assms body_stateD(2) [OF old] by (auto simp: body_state_def wire_ok_def writer_ok_def)

lemma duplex_write_step:
  assumes st: "body_state H us n e" and run: "duplex_write w e = (e2, r)"
  shows "body_state H us n e2 \<and> verdict e2 = verdict e \<and> r \<noteq> Some (Inr ResponseBuffered)"
proof (cases "pending_request_write e")
  case None
  then show ?thesis using run st by (auto simp: duplex_write_def)
next
  case (Some c)
  note d = body_stateD [OF st]
  have wr: "x_writer e = BodyWriting" using st by (simp add: body_state_def)
  have called: "body_state H us n (log_call (PollWriteBody c) e)"
    using d wr by (intro body_stateI [OF st])
      (auto simp: log_defs grammar_run_append grammar_def flow_ok_def pending_units_def lossless_def)
  have wrote: "body_state H us n
      (log_done (PollWriteBody c) (log_call (PollWriteBody c) e\<lparr>pending_request_write := None\<rparr>))"
    using d wr Some by (intro body_stateI [OF st])
      (auto simp: log_defs grammar_run_append grammar_def flow_ok_def pending_units_def lossless_def)
  show ?thesis
    using run Some called wrote by (cases w) (auto simp: duplex_write_def Let_def log_defs verdict_def)
qed

lemma inline_write:
  assumes st: "body_state H us n e" and pend: "pending_request_write e = Some c"
  shows "body_state H us n (log_call (WriteBody c) (e\<lparr>pending_request_write := None\<rparr>))"
    and "body_state H us n (log_done (WriteBody c) (log_call (WriteBody c) (e\<lparr>pending_request_write := None\<rparr>)))"
proof -
  note d = body_stateD [OF st]
  have wr: "x_writer e = BodyWriting" using st by (simp add: body_state_def)
  show "body_state H us n (log_call (WriteBody c) (e\<lparr>pending_request_write := None\<rparr>))"
    using d wr by (intro body_stateI [OF st])
      (auto simp: log_defs grammar_run_append grammar_def flow_ok_def pending_units_def lossless_def)
  show "body_state H us n (log_done (WriteBody c) (log_call (WriteBody c) (e\<lparr>pending_request_write := None\<rparr>)))"
    using d wr pend by (intro body_stateI [OF st])
      (auto simp: log_defs grammar_run_append grammar_def flow_ok_def pending_units_def lossless_def)
qed

lemma write_unit_wire:
  assumes st: "body_state H us n e" and pend: "pending_request_write e = Some c"
    and run: "(if x_duplex e
            then settle_duplex ended (\<lambda>e3. (e3, Inr ())) (duplex_loop duplex_write ps e)
            else settle_io io (\<lambda>e3. (log_done (WriteBody c) e3, Inr ()))
                   (log_call (WriteBody c) (e\<lparr>pending_request_write := None\<rparr>))) = (e', r)"
  shows "wire_ok H us n e' \<and> verdict e' = verdict e"
proof (cases "x_duplex e")
  case True
  obtain e2 res where loop: "duplex_loop duplex_write ps e = (e2, res)" by fastforce
  let ?Q = "\<lambda>x. body_state H us n x \<and> verdict x = verdict e"
  have "if res = Some (Inr WriteComplete) then ?Q e2 else ?Q e2"
  proof (rule duplex_loop_invariant [OF loop])
    show "?Q e" using st by simp
    show "?Q y" if "?Q x" "wire y = wire x" "verdict y = verdict x" for x y
      using that wire_ok_cong [OF that(2), of H us n] by (simp add: body_state_def wire_def)
    show "if s = Some (Inr WriteComplete) then ?Q y else s \<noteq> Some (Inr ResponseBuffered) \<and> ?Q y"
      if "?Q x" "duplex_write w x = (y, s)" for w x y s
      using duplex_write_step [OF _ that(2), of H us n] that(1) by auto
  qed
  then have q: "wire_ok H us n e2" "verdict e2 = verdict e" by (auto simp: body_state_def)
  have "wire e' = wire e2 \<and> verdict e' = verdict e2"
    using run True loop select_ended_frame
    by (auto simp: settle_duplex_def frame_defs split: option.splits sum.splits duplex_progress.splits)
  then show ?thesis using q wire_ok_cong [of e' e2 H us n] by simp
next
  case False
  let ?e2 = "log_call (WriteBody c) (e\<lparr>pending_request_write := None\<rparr>)"
  note w = inline_write [OF st pend]
  have v: "verdict ?e2 = verdict e" "verdict (log_done (WriteBody c) ?e2) = verdict e"
    by (simp_all add: log_defs verdict_def)
  have s: "settle_io io (\<lambda>e3. (log_done (WriteBody c) e3, Inr ())) ?e2 = (e', r)" using run False by simp
  show ?thesis
  proof (rule settle_io_cases [OF s])
    assume "(log_done (WriteBody c) ?e2, Inr ()) = (e', r)"
    then show ?thesis using w(2) v(2) by (auto simp: body_state_def)
  next
    assume "wire e' = wire ?e2" "verdict e' = verdict ?e2"
    then show ?thesis using wire_ok_cong [of e' ?e2 H us n] w(1) v(1) by (simp add: body_state_def)
  qed
qed

lemma write_body_wire:
  assumes run: "write_body t e = (e', r)" and ok: "wire_ok H us n e"
    and st: "x_writer e = HeaderWritten \<or> x_writer e = BodyWriting"
  shows "wire_ok H us n e' \<and> verdict e' = verdict e"
proof -
  have q: "grammar_run Idle (x_log e) = Some Open" "upstream_fence e = WriteConfirmed" "flow_ok us n e"
    using ok st by (auto elim!: wire_okE simp: writer_ok_def)
  obtain e1 res where t: "take_unit e = (e1, res)" by fastforce
  note flow = take_unit_flow(1) [OF t q(3)] and drained = take_unit_flow(2) [OF t q(3)]
    and same = take_unit_flow(3-) [OF t q(3)]
  have moved: "wire_ok H us n x" if "flow_ok us n x" "x_writer x = HeaderWritten \<or> x_writer x = BodyWriting
      \<or> (x_writer x = EosWriting \<and> body_drained x)" "x_log x = x_log e" "upstream_fence x = upstream_fence e"
      "semantic_upstream_calls x = semantic_upstream_calls e" "x_headers x = x_headers e"
      "request_framing_reconciled x = request_framing_reconciled e" for x
    using ok q that by (auto simp: wire_ok_def writer_ok_def)
  show ?thesis
  proof (cases res)
    case (Inl er)
    then have "e' = e1" using run t by (simp add: write_body_def)
    then show ?thesis using moved [of e1] flow same st Inl by auto
  next
    case (Inr m)
    show ?thesis
    proof (cases m)
      case None
      let ?e2 = "e1\<lparr>x_writer := EosWriting\<rparr>"
      have "flow_ok us n ?e2" "body_drained ?e2"
        using flow drained Inr None by (auto simp: flow_ok_def pending_units_def body_drained_def)
      then have "wire_ok H us n ?e2" using moved [of ?e2] same by simp
      moreover have "drive_eos_writer_once t ?e2 = (e', r)" using run t Inr None by (simp add: write_body_def)
      moreover have "verdict ?e2 = verdict e" using same(1) by (simp add: verdict_def)
      ultimately show ?thesis using eos_wire [of t ?e2 e' r H us n] by simp
    next
      case (Some c)
      let ?e2 = "start_write_clock (t_now t) (e1\<lparr>pending_request_write := Some c, x_writer := BodyWriting\<rparr>)"
      have "flow_ok us n (e1\<lparr>pending_request_write := Some c, x_writer := BodyWriting\<rparr>)"
        using flow Inr Some by (simp add: flow_ok_def pending_units_def)
      then have "wire_ok H us n ?e2" using moved same by (simp add: clock_wire)
      then have st2: "body_state H us n ?e2" by (simp add: body_state_def start_write_clock_def)
      have "verdict ?e2 = verdict e" using same(1) by (simp add: verdict_def start_write_clock_def)
      moreover have "pending_request_write ?e2 = Some c" by (simp add: start_write_clock_def)
      moreover have "(if x_duplex ?e2
            then settle_duplex (t_ended t) (\<lambda>e3. (e3, Inr ())) (duplex_loop duplex_write (t_duplex t) ?e2)
            else settle_io (t_io t) (\<lambda>e3. (log_done (WriteBody c) e3, Inr ()))
                   (log_call (WriteBody c) (?e2\<lparr>pending_request_write := None\<rparr>))) = (e', r)"
        using run t Inr Some by (simp add: write_body_def Let_def)
      ultimately show ?thesis using write_unit_wire [OF st2] by simp
    qed
  qed
qed

lemma drive_wire:
  assumes run: "drive_writer_once H t e = (e', r)" and laws: "header_laws H" and ok: "wire_ok H us n e"
  shows "wire_ok H us n e' \<and> verdict e' = verdict e"
proof (cases "x_finalized e")
  case True
  then show ?thesis using run ok by (auto simp: drive_writer_once_def ensure_active_def)
next
  case False
  obtain e1 r1 where c: "(if x_connected e then (e, Inr ()) else connect (t_connect t) e) = (e1, r1)" by fastforce
  have ok1: "wire_ok H us n e1" "verdict e1 = verdict e"
    using c ok connect_wire [of "t_connect t" e e1 r1 H us n] by (auto split: if_splits)
  obtain e2 r2 where p: "(if window_room e1 then poll_precommit_now (t_poll t) e1 else (e1, Inr None)) = (e2, r2)"
    by fastforce
  have f: "wire e2 = wire e1 \<and> verdict e2 = verdict e1" using p poll_now_frame by (auto split: if_splits)
  have ok2: "wire_ok H us n e2" "verdict e2 = verdict e" using f ok1 wire_ok_cong [of e2 e1 H us n] by simp_all
  have step: "wire_ok H us n x \<and> verdict x = verdict e" if "drive_writer_step H t e2 = (x, s)" for x s
    using that ok2 write_head_wire [of H t e2 x s us n] write_body_wire [of t e2 x s H us n]
      eos_wire [of t e2 x s H us n] laws
    by (cases "x_writer e2") (auto simp: drive_writer_step_def)
  have buf: "wire_ok H us n (buffer_event ev e2) \<and> verdict (buffer_event ev e2) = verdict e" for ev
    using ok2 buffer_event_frame [of ev e2] wire_ok_cong [of "buffer_event ev e2" e2 H us n] by simp
  show ?thesis
    using run False c ok1 p ok2 step buf
    by (auto simp: drive_writer_once_def ensure_active_def split: sum.splits option.splits)
qed

section \<open>The other operations\<close>

lemma quiesce_wire:
  assumes run: "quiesce_without_upstream_exchange e = (e', r)" and ok: "wire_ok H us n e"
  shows "wire_ok H us n e' \<and> verdict e' = verdict e"
  using assms
  by (auto simp: quiesce_without_upstream_exchange_def ensure_active_def wire_ok_def writer_ok_def verdict_def
      split: if_splits)

lemma reset_grammar:
  "grammar_run Idle (l @ [Called ResetStream]) = Some (Reset b) \<Longrightarrow>
   grammar_run Idle (l @ [Called ResetStream, Completed ResetStream]) = Some (Reset b)"
  using grammar_run_append [of Idle "l @ [Called ResetStream]" "[Completed ResetStream]"] by (simp add: grammar_def)

lemma writer_ok_phase: "writer_ok us n e q \<Longrightarrow>
  grammar q (Called ResetStream) = Some (Reset (upstream_fence e \<noteq> Clear))"
  by (auto simp: writer_ok_def grammar_def split: writer_state.splits)

lemma cancel_wire:
  assumes run: "cancel_writer ans e = (e', r)" and ok: "wire_ok H us n e"
  shows "wire_ok H us n e' \<and> verdict e' = verdict e \<and> (r = Some (Inr ()) \<longrightarrow> x_writer e' = QuiescedCancelReset)
    \<and> (x_writer e = QuiescedCancelReset \<longrightarrow> x_writer e' = QuiescedCancelReset)"
proof (cases "x_writer e = QuiescedCancelReset")
  case True
  then show ?thesis using run ok by (auto simp: cancel_writer_def)
next
  case False
  obtain q where q: "grammar_run Idle (x_log e) = Some q" "writer_ok us n e q"
    using ok by (auto elim: wire_okE)
  have reset: "grammar_run Idle (x_log e @ [Called ResetStream]) = Some (Reset (upstream_fence e \<noteq> Clear))"
    using writer_ok_phase [OF q(2)] by (simp add: grammar_run_snoc q(1))
  show ?thesis
    using run ok False reset reset_grammar [OF reset]
    by (auto simp: cancel_writer_def Let_def log_defs wire_ok_def writer_ok_def verdict_def
        split: option.splits sum.splits)
qed

lemma wire_ok_window:
  "wire_ok H us n (e\<lparr>response_window := w, x_finalized := b\<rparr>) = wire_ok H us n e"
  by (rule wire_ok_cong) (simp add: wire_def)

lemma abort_wire:
  assumes run: "finish_or_abort ans e = (e', r)" and ok: "wire_ok H us n e"
  shows "wire_ok H us n e' \<and> verdict e' = verdict e \<and> (x_writer e = QuiescedCancelReset \<longrightarrow> x_writer e' = QuiescedCancelReset)
    \<and> (r = None \<longrightarrow> x_writer e' = Cancelling)"
proof (cases "x_finalized e")
  case True
  then show ?thesis using run ok by (auto simp: finish_or_abort_def)
next
  case False
  obtain e1 r1 where c: "cancel_writer ans e = (e1, r1)" by fastforce
  have w: "r1 = None \<longrightarrow> x_writer e1 = Cancelling"
    using c by (auto simp: cancel_writer_def Let_def log_defs split: if_splits option.splits sum.splits)
  show ?thesis
    using run False c w cancel_wire [OF c ok] wire_ok_window [where e = e1 and H = H and us = us and n = n]
    by (auto simp: finish_or_abort_def verdict_def split: option.splits sum.splits)
qed

lemma abort_bounded_wire:
  assumes run: "finish_or_abort_bounded j ans e = (e', r)" and ok: "wire_ok H us n e"
  shows "wire_ok H us n e' \<and> verdict e' = verdict e \<and> (x_writer e = QuiescedCancelReset \<longrightarrow> x_writer e' = QuiescedCancelReset)"
proof -
  obtain e1 r1 where c: "finish_or_abort ans e = (e1, r1)" by fastforce
  note a = abort_wire [OF c ok]
  have "wire_ok H us n (e1\<lparr>x_transport := False, x_body := b, response_window := w, response_live := False,
      x_finalized := True\<rparr>)" if "r1 = None" for b w
    using a that by (auto simp: wire_ok_def writer_ok_def)
  then show ?thesis
    using run c a ok by (auto simp: finish_or_abort_bounded_def verdict_def split: if_splits option.splits)
qed

lemma wire_ok_log:
  assumes ok: "wire_ok H us n e" and q: "grammar_run Idle (x_log e) = Some q" and m: "grammar_run q m = Some q"
    and quiet: "heads m = []" "written m = []" "handed m = 0" "taken m = 0"
  shows "wire_ok H us n (e\<lparr>x_log := x_log e @ m\<rparr>)"
proof -
  have wr: "writer_ok us n e q" using ok q by (auto elim!: wire_okE)
  have "writer_ok us n (e\<lparr>x_log := x_log e @ m\<rparr>) q"
    using wr quiet by (cases "x_writer e")
      (auto simp: writer_ok_def flow_ok_def body_drained_def pending_units_def body_complete_def lossless_def)
  moreover have "grammar_run Idle (x_log e @ m) = Some q" using q m by (simp add: grammar_run_append)
  ultimately show ?thesis using ok quiet by (auto simp: wire_ok_def)
qed

lemma accepted_wire:
  assumes run: "finish_accepted_response b ans e = (e', r)" and ok: "wire_ok H us n e"
  shows "wire_ok H us n e' \<and> verdict e' = verdict e \<and> x_writer e' = x_writer e"
proof (cases "x_writer e = QuiescedNormalEos \<and> published e = Some Accept \<and> \<not> x_finalized e")
  case False
  then show ?thesis using run ok by (auto simp: finish_accepted_response_def ensure_active_def split: if_splits)
next
  case True
  obtain q where q: "grammar_run Idle (x_log e) = Some q" "q = Idle \<or> q = Closed"
    "writer_ok us n e q"
    using ok True by (auto elim!: wire_okE simp: writer_ok_def)
  have phase: "grammar_run q [Called (FinishAccepted b)] = Some q"
    "grammar_run q [Called (FinishAccepted b), Completed (FinishAccepted b)] = Some q"
    using q(2) by (auto simp: grammar_def)
  have called: "wire_ok H us n (log_call (FinishAccepted b) e)"
    using wire_ok_log [OF ok q(1) phase(1)] by (simp add: log_defs)
  have wrote: "wire_ok H us n (e\<lparr>x_log := x_log e @ [Called (FinishAccepted b), Completed (FinishAccepted b)]\<rparr>)"
    using wire_ok_log [OF ok q(1) phase(2)] by simp
  let ?f = "log_done (FinishAccepted b) ((log_call (FinishAccepted b) e)\<lparr>response_window := window_new, x_finalized := True\<rparr>)"
  have "wire_ok H us n ?f"
    using wrote wire_ok_cong [of ?f "e\<lparr>x_log := x_log e @ [Called (FinishAccepted b), Completed (FinishAccepted b)]\<rparr>" H us n]
    by (simp add: log_defs wire_def)
  moreover have "e' = log_call (FinishAccepted b) e \<or> e' = ?f"
    using run True by (auto simp: finish_accepted_response_def ensure_active_def Let_def split: option.splits sum.splits)
  moreover have "verdict (log_call (FinishAccepted b) e) = verdict e \<and> verdict ?f = verdict e"
    "x_writer (log_call (FinishAccepted b) e) = x_writer e \<and> x_writer ?f = x_writer e"
    by (simp_all add: log_defs verdict_def)
  ultimately show ?thesis using called by auto
qed

end
