(* ===== verification/Attempt_Properties.thy ===== *)
theory Attempt_Properties
  imports Attempt_Safety
begin

text \<open>
  The invariant of an attempt's owner loop and the properties of an exchange: publication at
  most once and before any downstream write, one well-formed upstream message, a complete
  body behind every accepted response, and the writer gate's progress.
\<close>

section \<open>Quiesced writers\<close>

definition quiesced :: "writer_state \<Rightarrow> bool" where
  "quiesced s \<longleftrightarrow> s = QuiescedNormalEos \<or> s = Cancelling \<or> s = QuiescedCancelReset"

definition finished :: "'h transport_event list \<Rightarrow> bool" where
  "finished l \<longleftrightarrow> Completed FinishBody \<in> set l \<or> Completed PollFinishBody \<in> set l"

definition sent_so_far where
  "sent_so_far e = (written (x_log e), handed (x_log e), taken (x_log e), heads (x_log e), finished (x_log e))"

text \<open>An operation that leaves a quiesced writer quiesced and what was sent as it was.\<close>

definition at_rest :: "'h exchange \<Rightarrow> 'h exchange \<Rightarrow> bool" where
  "at_rest e e' \<longleftrightarrow> (quiesced (x_writer e) \<longrightarrow>
     quiesced (x_writer e') \<and> sent_so_far e' = sent_so_far e
     \<and> (x_writer e = QuiescedCancelReset \<longrightarrow> x_writer e' = QuiescedCancelReset))"

lemma at_rest_trans: "at_rest e e1 \<Longrightarrow> at_rest e1 e2 \<Longrightarrow> at_rest e e2"
  by (auto simp: at_rest_def)

lemma at_rest_frame: "wire e' = wire e \<Longrightarrow> at_rest e e'"
  by (simp add: at_rest_def wire_def sent_so_far_def)

lemma at_rest_log:
  "x_log e' = x_log e @ m \<Longrightarrow> written m = [] \<Longrightarrow> handed m = 0 \<Longrightarrow> taken m = 0 \<Longrightarrow> heads m = [] \<Longrightarrow>
   \<not> finished m \<Longrightarrow> x_writer e' = x_writer e \<or> (x_writer e' = Cancelling \<and> x_writer e \<noteq> QuiescedCancelReset)
     \<or> x_writer e' = QuiescedCancelReset \<Longrightarrow> at_rest e e'"
  by (auto simp: at_rest_def sent_so_far_def finished_def quiesced_def)

lemma connect_loop_rest: "connect_loop i ans as err e = (e', r) \<Longrightarrow> at_rest e e'"
proof (induction i ans as err e arbitrary: e' r rule: connect_loop.induct)
  case (1 i ans err e)
  then show ?case by (simp add: at_rest_frame)
next
  case (2 i ans a as err e)
  define e1 where "e1 = log_call (ConnectTo a)
    (e\<lparr>connection_sub_attempts := wrapping_add (connection_sub_attempts e) 1\<rparr>)"
  have r1: "at_rest e e1" by (rule at_rest_log [of _ _ "[Called (ConnectTo a)]"]) (simp_all add: e1_def log_defs finished_def)
  have rk: "at_rest e (set_timeout_kind k e1)" for k
    using r1 by (rule at_rest_trans) (simp add: at_rest_frame set_timeout_kind_def wire_def)
  have rd: "at_rest e (log_done (ConnectTo a) (e1\<lparr>x_connected := True\<rparr>))"
    using r1 by (rule at_rest_trans) (rule at_rest_log [of _ _ "[Completed (ConnectTo a)]"], simp_all add: log_defs finished_def)
  show ?case
  proof (cases "ca_cancelled_before (ans i)")
    case True
    then show ?thesis using 2(3) by (simp add: at_rest_frame)
  next
    case False
    note eq = 2(3) [simplified False connect_loop.simps Let_def e1_def [symmetric] if_False]
    show ?thesis
    proof (cases "ca_outcome (ans i)")
      case ConnectCancelled
      then show ?thesis using eq r1 by simp
    next
      case ConnectDone
      then show ?thesis using eq rd by simp
    next
      case (ConnectFailedWith er)
      then show ?thesis using eq 2(2) [OF False e1_def refl refl ConnectFailedWith] r1
        by (auto intro: at_rest_trans)
    next
      case ConnectTimedOut
      show ?thesis
      proof (cases "attempt_deadline (x_clock e)
          \<le> or_deadline (checked_add (ca_started (ans i)) (x_connect_timeout e)) (attempt_deadline (x_clock e))")
        case True
        then show ?thesis using eq ConnectTimedOut rk by auto
      next
        case late: False
        then show ?thesis using eq ConnectTimedOut rk 2(1) [OF False e1_def refl refl ConnectTimedOut late]
          by (auto intro: at_rest_trans)
      qed
    qed
  qed
qed

lemma drive_rest:
  assumes run: "drive_writer_once H t e = (e', r)"
  shows "at_rest e e'"
proof (cases "quiesced (x_writer e) \<and> \<not> x_finalized e")
  case False
  then show ?thesis using run
    by (auto simp: at_rest_def drive_writer_once_def ensure_active_def)
next
  case True
  obtain e1 r1 where c: "(if x_connected e then (e, Inr ()) else connect (t_connect t) e) = (e1, r1)" by fastforce
  have a1: "at_rest e e1" using c connect_loop_rest
    by (auto simp: connect_def at_rest_frame split: if_splits)
  obtain e2 r2 where p: "(if window_room e1 then poll_precommit_now (t_poll t) e1 else (e1, Inr None)) = (e2, r2)"
    by fastforce
  have "wire e2 = wire e1" using p poll_now_frame by (auto split: if_splits)
  then have a2: "at_rest e e2" using a1 at_rest_frame at_rest_trans by blast
  have "drive_writer_step H t e2 = (e2, Inr ())"
    using True a2 by (auto simp: drive_writer_step_def at_rest_def quiesced_def)
  moreover have "at_rest e (buffer_event ev e2)" for ev
    using a2 at_rest_frame [of "buffer_event ev e2" e2] buffer_event_frame at_rest_trans by blast
  ultimately show ?thesis
    using run True c p a1 a2
    by (auto simp: drive_writer_once_def ensure_active_def split: sum.splits option.splits)
qed

lemma cancel_rest: "cancel_writer ans e = (e', r) \<Longrightarrow> at_rest e e'"
  by (auto simp: cancel_writer_def Let_def log_defs at_rest_def sent_so_far_def finished_def quiesced_def
      split: if_splits option.splits sum.splits)

lemma at_rest_update:
  "at_rest e e1 \<Longrightarrow> x_writer e2 = x_writer e1 \<Longrightarrow> x_log e2 = x_log e1 \<Longrightarrow> at_rest e e2"
  by (auto simp: at_rest_def sent_so_far_def)

lemma at_rest_same: "x_writer e' = x_writer e \<Longrightarrow> x_log e' = x_log e \<Longrightarrow> at_rest e e'"
  by (simp add: at_rest_def sent_so_far_def)

lemma abort_rest:
  assumes "finish_or_abort ans e = (e', r)"
  shows "at_rest e e'"
proof -
  obtain e1 r1 where c: "cancel_writer ans e = (e1, r1)" by fastforce
  note k = cancel_rest [OF c]
  show ?thesis using assms c k at_rest_update [OF k, of e']
    by (auto simp: finish_or_abort_def at_rest_same split: if_splits option.splits sum.splits)
qed

lemma abort_bounded_rest:
  assumes "finish_or_abort_bounded j ans e = (e', r)"
  shows "at_rest e e'"
proof -
  obtain e1 r1 where c: "finish_or_abort ans e = (e1, r1)" by fastforce
  note k = abort_rest [OF c]
  show ?thesis using assms c k at_rest_update [OF k, of e']
    by (auto simp: finish_or_abort_bounded_def at_rest_same split: if_splits option.splits)
qed

lemma accepted_rest: "finish_accepted_response b ans e = (e', r) \<Longrightarrow> at_rest e e'"
  by (auto simp: finish_accepted_response_def Let_def log_defs at_rest_def sent_so_far_def finished_def
      quiesced_def ensure_active_def split: if_splits option.splits sum.splits)

lemma quiesce_rest: "quiesce_without_upstream_exchange e = (e', r) \<Longrightarrow> at_rest e e'"
  by (auto simp: quiesce_without_upstream_exchange_def ensure_active_def at_rest_def quiesced_def split: if_splits)

section \<open>The writer gate\<close>

definition outcome where
  "outcome e = (published e, header_fence e, semantic_fence e, scope_created e)"

lemma verdict_outcome: "verdict e' = verdict e \<Longrightarrow> outcome e' = outcome e"
  by (simp add: verdict_def outcome_def)

lemma gate_ready_frame:
  assumes "accept_gate_ready e = (e', g)"
  shows "wire e' = wire e \<and> outcome e' = outcome e
    \<and> list_all (\<lambda>p. pm_disposition p = Accept) (gate_permits (Some (Inr g)))"
  using assms by (auto simp: accept_gate_ready_def new_permit_def Let_def wire_def outcome_def split: if_splits)

text \<open>What one operation on an exchange keeps.\<close>

definition op_keeps where
  "op_keeps H us n e e' \<longleftrightarrow> wire_ok H us n e' \<and> at_rest e e' \<and> outcome e' = outcome e"

lemma op_keepsI:
  "wire_ok H us n e' \<Longrightarrow> at_rest e e' \<Longrightarrow> outcome e' = outcome e \<Longrightarrow> op_keeps H us n e e'"
  by (simp add: op_keeps_def)

lemma op_keeps_trans: "op_keeps H us n e e1 \<Longrightarrow> op_keeps H us n e1 e2 \<Longrightarrow> op_keeps H us n e e2"
  by (auto simp: op_keeps_def intro: at_rest_trans)

lemma op_keeps_frame:
  "wire_ok H us n e \<Longrightarrow> wire e' = wire e \<Longrightarrow> outcome e' = outcome e \<Longrightarrow> op_keeps H us n e e'"
  using wire_ok_cong [of e' e H us n] at_rest_frame [of e' e] by (simp add: op_keeps_def)

lemma drive_keeps:
  "drive_writer_once H t e = (e', r) \<Longrightarrow> header_laws H \<Longrightarrow> wire_ok H us n e \<Longrightarrow> op_keeps H us n e e'"
  using drive_wire drive_rest verdict_outcome by (metis op_keepsI)

lemma accept_gate_keeps:
  assumes "accept_gate H d gs e = (e', g)" "header_laws H" "wire_ok H us n e"
  shows "op_keeps H us n e e' \<and> list_all (\<lambda>p. pm_disposition p = Accept) (gate_permits g)"
  using assms
proof (induction gs arbitrary: e)
  case Nil
  then show ?case
    using gate_ready_frame op_keeps_frame [of H us n e]
    by (auto simp: accept_gate.simps [of H d "[]"] split: if_splits prod.splits)
next
  case (Cons g0 gs)
  show ?case
  proof (cases "x_writer e = QuiescedNormalEos")
    case True
    then show ?thesis
      using Cons.prems gate_ready_frame op_keeps_frame [of H us n e]
      by (auto simp: accept_gate.simps [of H d "g0 # gs"] split: prod.splits)
  next
    case False
    note eq = Cons.prems(1) [simplified accept_gate.simps [of H d "g0 # gs"] False if_False list.case]
    have block: "op_keeps H us n e (x\<lparr>accept_blocked := True\<rparr>)" if "op_keeps H us n e x" for x
    proof -
      have "op_keeps H us n x (x\<lparr>accept_blocked := True\<rparr>)"
        using that by (intro op_keeps_frame) (auto simp: op_keeps_def wire_def outcome_def)
      then show ?thesis using that op_keeps_trans by blast
    qed
    have self: "op_keeps H us n e e" using Cons.prems(3) by (simp add: op_keeps_frame)
    show ?thesis
    proof (cases "accept_progress_blocked_reason g0 d e")
      case (Some reason)
      then show ?thesis using eq block [OF self] by auto
    next
      case None
      obtain e1 r1 where dr: "drive_writer_once H (gp_turn g0) e = (e1, r1)" by fastforce
      have k1: "op_keeps H us n e e1" using drive_keeps [OF dr] Cons.prems by simp
      show ?thesis
      proof (cases "gp_interrupt g0")
        case (Some s)
        have "op_keeps H us n e (abandoned_drive H (gp_turn g0) e)"
          using dr k1 self by (auto simp: abandoned_drive_def split: sum.splits attempt_error.splits)
        then show ?thesis using eq None Some block by auto
      next
        case interrupt: None
        show ?thesis
        proof (cases r1)
          case (Inl er)
          then show ?thesis using eq None interrupt dr k1 by auto
        next
          case (Inr u)
          then have "accept_gate H d gs e1 = (e', g)" using eq None interrupt dr by simp
          moreover have "wire_ok H us n e1" using k1 by (simp add: op_keeps_def)
          ultimately show ?thesis using Cons.IH Cons.prems(2) k1 op_keeps_trans by blast
        qed
      qed
    qed
  qed
qed

end
