(* ===== verification/Attempt_Owner.thy ===== *)
theory Attempt_Owner
  imports Attempt_Properties
begin

text \<open>
  The invariant of the attempt's owner, over any sequence of its operations, and the properties
  of an exchange that follow from it.
\<close>

section \<open>The invariant\<close>

definition accept_backed :: "bytes list option \<Rightarrow> nat \<Rightarrow> 'h transport_event list \<Rightarrow> bool" where
  "accept_backed us n l \<longleftrightarrow> (heads l = [] \<and> written l = []) \<or> (finished l \<and> body_complete us n l)"

definition fences_ok :: "'h exchange \<Rightarrow> bool" where
  "fences_ok e \<longleftrightarrow>
     (header_fence e \<noteq> Clear \<or> semantic_fence e \<noteq> Clear \<longrightarrow> scope_created e)
   \<and> (scope_created e \<longrightarrow> published e = Some Accept \<or> published e = Some Terminate)
   \<and> (semantic_fence e \<noteq> Clear \<longrightarrow> header_fence e = WriteConfirmed)"

definition attempt_inv ::
  "('h, 'z) header_ops_scheme \<Rightarrow> bytes list option \<Rightarrow> nat \<Rightarrow> 'h attempt_world \<Rightarrow> bool" where
  "attempt_inv H us n w \<longleftrightarrow>
     (let e = aw_exchange w in
       wire_ok H us n e \<and> fences_ok e
     \<and> (\<forall>p \<in> set (aw_permits w). pm_disposition p \<noteq> Accept \<longrightarrow> x_writer e = QuiescedCancelReset)
     \<and> (\<forall>d. published e = Some d \<and> d \<noteq> Accept \<longrightarrow> x_writer e = QuiescedCancelReset)
     \<and> (published e = Some Accept \<longrightarrow> quiesced (x_writer e) \<and> accept_backed us n (x_log e)))"

lemma quiesced_reset: "quiesced QuiescedCancelReset"
  by (simp add: quiesced_def)

lemma fences_ok_outcome: "outcome e' = outcome e \<Longrightarrow> fences_ok e' = fences_ok e"
  by (simp add: outcome_def fences_ok_def)

lemma accept_backed_sent: "sent_so_far e' = sent_so_far e \<Longrightarrow> accept_backed us n (x_log e') = accept_backed us n (x_log e)"
  by (simp add: sent_so_far_def accept_backed_def body_complete_def lossless_def)

text \<open>An operation that keeps wire, rest and outcome, and adds only permits it may, keeps the invariant.\<close>

lemma inv_keeps:
  assumes inv: "attempt_inv H us n w" and keep: "op_keeps H us n (aw_exchange w) e'"
    and fresh: "\<forall>p \<in> set ps. pm_disposition p \<noteq> Accept \<longrightarrow> x_writer e' = QuiescedCancelReset"
  shows "attempt_inv H us n \<lparr>aw_exchange = e', aw_permits = ps @ aw_permits w\<rparr>"
proof -
  let ?e = "aw_exchange w"
  have k: "wire_ok H us n e'" "at_rest ?e e'" "outcome e' = outcome ?e" using keep by (simp_all add: op_keeps_def)
  have pub: "published e' = published ?e" using k(3) by (simp add: outcome_def)
  have stay: "x_writer e' = QuiescedCancelReset" if "x_writer ?e = QuiescedCancelReset"
    using that k(2) by (simp add: at_rest_def quiesced_reset)
  have rest: "quiesced (x_writer e') \<and> accept_backed us n (x_log e')"
    if "quiesced (x_writer ?e)" "accept_backed us n (x_log ?e)"
    using that k(2) accept_backed_sent by (auto simp: at_rest_def)
  show ?thesis
    using inv k(1) fences_ok_outcome [OF k(3)] pub stay rest fresh
    by (auto simp: attempt_inv_def Let_def)
qed

lemma inv_keeps_simple:
  assumes "attempt_inv H us n w" "op_keeps H us n (aw_exchange w) e'"
  shows "attempt_inv H us n (w\<lparr>aw_exchange := e'\<rparr>)"
  using inv_keeps [OF assms, of "[]"] by (cases w) simp

lemma inv_wire: "attempt_inv H us n w \<Longrightarrow> wire_ok H us n (aw_exchange w)"
  by (simp add: attempt_inv_def Let_def)

section \<open>Publication\<close>

lemma grammar_closed: "grammar_run q l = Some Closed \<Longrightarrow> q = Closed \<or> finished l"
proof (induction l arbitrary: q)
  case (Cons ev l)
  then obtain q' where q': "grammar q ev = Some q'" "grammar_run q' l = Some Closed"
    by (auto split: option.splits)
  have "q' = Closed \<Longrightarrow> q = Closed \<or> ev = Completed FinishBody \<or> ev = Completed PollFinishBody"
    using q'(1) by (auto simp: grammar_def split: transport_event.splits transport_call.splits if_splits phase.splits)
  then show ?case using Cons.IH [OF q'(2)] by (auto simp: finished_def)
qed simp

lemma idle_heads: "wire_ok H us n e \<Longrightarrow> upstream_fence e = Clear \<Longrightarrow> heads (x_log e) = []"
  by (auto simp: wire_ok_def)

lemma eos_backed:
  assumes ok: "wire_ok H us n e" and st: "x_writer e = QuiescedNormalEos"
  shows "accept_backed us n (x_log e)"
proof -
  obtain q where q: "grammar_run Idle (x_log e) = Some q" "writer_ok us n e q" using ok by (auto elim: wire_okE)
  show ?thesis
  proof (cases "upstream_fence e = Clear")
    case True
    then show ?thesis using q(2) st idle_heads [OF ok] by (auto simp: writer_ok_def accept_backed_def)
  next
    case False
    then show ?thesis using q st grammar_closed [of Idle "x_log e"] by (auto simp: writer_ok_def accept_backed_def)
  qed
qed

lemma remove_at_subset: "set (remove_at i xs) \<subseteq> set xs"
  by (auto simp: remove_at_def dest: in_set_takeD in_set_dropD)

lemma publish_cases:
  assumes "publish_disposition d p e = (e', r)"
  shows "e' = e \<or> e' = e\<lparr>accept_blocked := True\<rparr>
    \<or> (published e = None \<and> permit_valid p d e \<and> \<not> scope_created e \<and> header_fence e = Clear \<and> semantic_fence e = Clear
      \<and> (d = Accept \<longrightarrow> x_writer e = QuiescedNormalEos \<and> response_live e)
      \<and> e' = e\<lparr>permit_nonce := wrapping_add (permit_nonce e) 1, published := Some d\<rparr>)"
proof (cases "x_finalized e \<or> published e \<noteq> None \<or> \<not> permit_valid p d e")
  case True
  then have "e' = e"
    using assms by (cases "x_finalized e"; cases "published e"; simp add: publish_disposition_def ensure_active_def)
  then show ?thesis by simp
next
  case False
  note ok = this
  show ?thesis
  proof (cases "scope_created e \<or> header_fence e \<noteq> Clear \<or> semantic_fence e \<noteq> Clear")
    case True
    then show ?thesis using assms ok
      by (simp add: publish_disposition_def ensure_active_def publication_fences_clear_def)
  next
    case False
    then show ?thesis using assms ok
      by (cases "d = Accept \<and> (x_writer e \<noteq> QuiescedNormalEos \<or> \<not> response_live e)")
        (auto simp add: publish_disposition_def ensure_active_def publication_fences_clear_def)
  qed
qed

lemma inv_publish:
  assumes inv: "attempt_inv H us n w" and i: "i < length (aw_permits w)"
    and run: "publish_disposition d (aw_permits w ! i) (aw_exchange w) = (e', r)"
  shows "attempt_inv H us n \<lparr>aw_exchange = e', aw_permits = remove_at i (aw_permits w)\<rparr>"
proof -
  let ?e = "aw_exchange w"
  have sub: "attempt_inv H us n \<lparr>aw_exchange = x, aw_permits = remove_at i (aw_permits w)\<rparr>"
    if "attempt_inv H us n \<lparr>aw_exchange = x, aw_permits = aw_permits w\<rparr>" for x
    using that remove_at_subset [of i "aw_permits w"] by (auto simp: attempt_inv_def Let_def)
  have self: "\<lparr>aw_exchange = ?e, aw_permits = aw_permits w\<rparr> = w" by simp
  from publish_cases [OF run] show ?thesis
  proof (elim disjE conjE)
    assume "e' = ?e"
    then show ?thesis using sub [of ?e] inv self by simp
  next
    assume e': "e' = ?e\<lparr>accept_blocked := True\<rparr>"
    have "op_keeps H us n ?e e'" unfolding e'
      using inv_wire [OF inv] by (intro op_keeps_frame) (simp_all add: wire_def outcome_def)
    then show ?thesis using sub [of e'] inv_keeps_simple [OF inv, of e'] by (cases w) simp
  next
    assume new: "published ?e = None" "permit_valid (aw_permits w ! i) d ?e" "\<not> scope_created ?e"
      "header_fence ?e = Clear" "semantic_fence ?e = Clear"
      "d = Accept \<longrightarrow> x_writer ?e = QuiescedNormalEos \<and> response_live ?e"
      and e': "e' = ?e\<lparr>permit_nonce := wrapping_add (permit_nonce ?e) 1, published := Some d\<rparr>"
    have same: "wire e' = wire ?e" by (simp add: e' wire_def)
    have wire: "wire_ok H us n e'" using wire_ok_cong [OF same] inv_wire [OF inv] by blast
    have x: "x_writer e' = x_writer ?e" "x_log e' = x_log ?e" by (simp_all add: e')
    have "pm_disposition (aw_permits w ! i) = d" using new(2) by (simp add: permit_valid_def)
    then have non: "d \<noteq> Accept \<longrightarrow> x_writer ?e = QuiescedCancelReset"
      using inv nth_mem [OF i] by (auto simp: attempt_inv_def Let_def)
    have acc: "d = Accept \<longrightarrow> quiesced (x_writer ?e) \<and> accept_backed us n (x_log ?e)"
      using new(6) eos_backed [OF inv_wire [OF inv]] by (auto simp: quiesced_def)
    have "fences_ok e'" using new(3-5) by (simp add: e' fences_ok_def)
    moreover have "\<forall>p \<in> set (aw_permits w). pm_disposition p \<noteq> Accept \<longrightarrow> x_writer ?e = QuiescedCancelReset"
      using inv by (simp add: attempt_inv_def Let_def)
    moreover have "published e' = Some d" by (simp add: e')
    ultimately have "attempt_inv H us n \<lparr>aw_exchange = e', aw_permits = aw_permits w\<rparr>"
      using wire non acc x by (auto simp: attempt_inv_def)
    then show ?thesis by (rule sub)
  qed
qed

text \<open>The downstream writes change fences only.\<close>

lemma inv_fences:
  assumes inv: "attempt_inv H us n w" and same: "wire e' = wire (aw_exchange w)"
    and pub: "published e' = published (aw_exchange w)" and ok: "fences_ok e'"
  shows "attempt_inv H us n (w\<lparr>aw_exchange := e'\<rparr>)"
proof -
  have "x_writer e' = x_writer (aw_exchange w)" "x_log e' = x_log (aw_exchange w)"
    using same by (simp_all add: wire_def)
  then show ?thesis
    using inv ok pub wire_ok_cong [OF same, of H us n] by (auto simp: attempt_inv_def Let_def)
qed

lemma downstream_step:
  assumes "fences_ok e"
    and "(e', r) \<in> {begin_accepted_response_scope e, begin_downstream_header_write e,
      confirm_downstream_header_write e, begin_semantic_output_write e, confirm_semantic_output_write e}"
  shows "wire e' = wire e \<and> published e' = published e \<and> fences_ok e'"
proof -
  consider "(e', r) = begin_accepted_response_scope e" | "(e', r) = begin_downstream_header_write e"
    | "(e', r) = confirm_downstream_header_write e" | "(e', r) = begin_semantic_output_write e"
    | "(e', r) = confirm_semantic_output_write e"
    using assms(2) by auto
  then show ?thesis
  proof cases
    case 1
    then show ?thesis using assms(1)
      by (cases "published e"; cases "the (published e)")
        (auto simp: begin_accepted_response_scope_def ensure_disposition_published_def fences_ok_def wire_def
          split: if_splits)
  qed (use assms(1) in \<open>auto simp: begin_downstream_header_write_def confirm_downstream_header_write_def
        begin_semantic_output_write_def confirm_semantic_output_write_def ensure_downstream_write_allowed_def
        ensure_disposition_published_def fence_begin_write_def fence_confirm_def fences_ok_def wire_def
        split: if_splits\<close>)
qed

lemma inv_downstream:
  assumes inv: "attempt_inv H us n w"
    and run: "(e', r) \<in> {begin_accepted_response_scope (aw_exchange w), begin_downstream_header_write (aw_exchange w),
      confirm_downstream_header_write (aw_exchange w), begin_semantic_output_write (aw_exchange w),
      confirm_semantic_output_write (aw_exchange w)}"
  shows "attempt_inv H us n (w\<lparr>aw_exchange := e'\<rparr>)"
proof -
  have "fences_ok (aw_exchange w)" using inv by (simp add: attempt_inv_def Let_def)
  from downstream_step [OF this run] show ?thesis using inv_fences [OF inv] by blast
qed

section \<open>Every operation keeps the invariant\<close>

lemma op_keeps_verdict:
  "wire_ok H us n e' \<and> verdict e' = verdict e \<Longrightarrow> at_rest e e' \<Longrightarrow> op_keeps H us n e e'"
  unfolding op_keeps_def using verdict_outcome by blast

lemma connect_keeps:
  assumes "connect ans e = (e', r)" "wire_ok H us n e"
  shows "op_keeps H us n e e'"
  using connect_wire [OF assms] connect_loop_rest assms(1)
  by (intro op_keeps_verdict) (auto simp: connect_def at_rest_frame split: if_splits)

lemma wait_keeps:
  "wait_precommit_event d p s e = (e', r) \<Longrightarrow> wire_ok H us n e \<Longrightarrow> op_keeps H us n e e'"
  using wait_frame verdict_outcome op_keeps_frame by blast

lemma next_keeps: "next_precommit_event e = (e', r) \<Longrightarrow> wire_ok H us n e \<Longrightarrow> op_keeps H us n e e'"
  using next_frame verdict_outcome op_keeps_frame by blast

lemma submit_keeps:
  "submit_disposition_candidate d e = (e', r) \<Longrightarrow> wire_ok H us n e \<Longrightarrow> op_keeps H us n e e'"
  by (rule op_keeps_frame)
    (auto simp: submit_disposition_candidate_def wire_def outcome_def split: sum.splits if_splits)

lemma replace_keeps:
  "replace_accept_blocked_candidate d e = (e', r) \<Longrightarrow> wire_ok H us n e \<Longrightarrow> op_keeps H us n e e'"
  by (rule op_keeps_frame)
    (auto simp: replace_accept_blocked_candidate_def wire_def outcome_def split: if_splits)

lemma quiesce_keeps:
  "quiesce_without_upstream_exchange e = (e', r) \<Longrightarrow> wire_ok H us n e \<Longrightarrow> op_keeps H us n e e'"
  using quiesce_wire quiesce_rest by (intro op_keeps_verdict) blast+

lemma abort_keeps: "finish_or_abort ans e = (e', r) \<Longrightarrow> wire_ok H us n e \<Longrightarrow> op_keeps H us n e e'"
  using abort_wire abort_rest by (intro op_keeps_verdict) blast+

lemma abort_bounded_keeps:
  "finish_or_abort_bounded j ans e = (e', r) \<Longrightarrow> wire_ok H us n e \<Longrightarrow> op_keeps H us n e e'"
  using abort_bounded_wire abort_bounded_rest by (intro op_keeps_verdict) blast+

lemma accepted_keeps:
  "finish_accepted_response b ans e = (e', r) \<Longrightarrow> wire_ok H us n e \<Longrightarrow> op_keeps H us n e e'"
  using accepted_wire accepted_rest by (intro op_keeps_verdict) blast+

lemma gate_keeps:
  assumes run: "wait_writer_gate H d gs reset e = (e', g)" and laws: "header_laws H" and ok: "wire_ok H us n e"
  shows "op_keeps H us n e e' \<and>
    (\<forall>p \<in> set (gate_permits g). pm_disposition p \<noteq> Accept \<longrightarrow> x_writer e' = QuiescedCancelReset)"
proof (cases "x_finalized e \<or> x_candidate e = None \<or> publication_fences_clear e \<noteq> Inr ()")
  case True
  then have "e' = e \<and> gate_permits g = []"
    using run by (cases "x_finalized e"; cases "x_candidate e"; cases "publication_fences_clear e")
      (auto simp add: wait_writer_gate_def ensure_active_def)
  then show ?thesis using ok by (simp add: op_keeps_frame)
next
  case False
  then obtain c where c: "x_candidate e = Some c" by auto
  show ?thesis
  proof (cases "c = Accept")
    case True
    then have "accept_gate H d gs e = (e', g)" using run False c by (simp add: wait_writer_gate_def ensure_active_def)
    from accept_gate_keeps [OF this laws ok] show ?thesis by (auto simp: list_all_iff)
  next
    case other: False
    obtain e1 r1 where w: "cancel_writer reset e = (e1, r1)" by fastforce
    have k: "op_keeps H us n e e1" using cancel_wire [OF w ok] cancel_rest [OF w] by (intro op_keeps_verdict) auto
    show ?thesis
    proof (cases "r1 = Some (Inr ())")
      case True
      let ?e2 = "fst (new_permit c e1)"
      have st: "x_writer e1 = QuiescedCancelReset" using cancel_wire [OF w ok] True by simp
      have "op_keeps H us n e1 ?e2"
        using k by (intro op_keeps_frame) (auto simp: op_keeps_def new_permit_def Let_def wire_def outcome_def)
      moreover have "e' = ?e2"
        using run False c other w True by (cases "new_permit c e1") (auto simp add: wait_writer_gate_def ensure_active_def)
      moreover have "x_writer ?e2 = QuiescedCancelReset" using st by (simp add: new_permit_def Let_def)
      ultimately show ?thesis using op_keeps_trans [OF k] by simp
    next
      case False': False
      have "e' = e1 \<and> gate_permits g = []"
        using run False c other w False'
        by (cases r1; cases "the r1") (auto simp add: wait_writer_gate_def ensure_active_def)
      then show ?thesis using k by simp
    qed
  qed
qed

lemma exec_op_inv:
  assumes inv: "attempt_inv H us n w" and laws: "header_laws H"
  shows "attempt_inv H us n (exec_op H p w)"
proof -
  let ?e = "aw_exchange w"
  note ok = inv_wire [OF inv]
  have simple: "attempt_inv H us n (w\<lparr>aw_exchange := fst x\<rparr>)" if "\<And>e' r. x = (e', r) \<Longrightarrow> op_keeps H us n ?e e'" for x
    using that inv_keeps_simple [OF inv] by (cases x) simp
  have down: "attempt_inv H us n (w\<lparr>aw_exchange := fst x\<rparr>)"
    if "x \<in> {begin_accepted_response_scope ?e, begin_downstream_header_write ?e,
      confirm_downstream_header_write ?e, begin_semantic_output_write ?e, confirm_semantic_output_write ?e}" for x
    using inv_downstream [OF inv, of "fst x" "snd x"] that by simp
  show ?thesis
  proof (cases p)
    case (OpConnect a)
    then show ?thesis using connect_keeps [OF _ ok] by (simp add: simple)
  next
    case (OpDrive t)
    then show ?thesis using drive_keeps [OF _ laws ok] by (simp add: simple)
  next
    case OpQuiesce
    then show ?thesis using quiesce_keeps [OF _ ok] by (simp add: simple)
  next
    case (OpWait d q s)
    then show ?thesis using wait_keeps [OF _ ok] by (simp add: simple)
  next
    case OpNext
    then show ?thesis using next_keeps [OF _ ok] by (simp add: simple)
  next
    case (OpSubmit d)
    then show ?thesis using submit_keeps [OF _ ok] by (simp add: simple)
  next
    case (OpGate d gs r)
    obtain e1 g where g: "wait_writer_gate H d gs r ?e = (e1, g)" by fastforce
    have "attempt_inv H us n \<lparr>aw_exchange = e1, aw_permits = gate_permits g @ aw_permits w\<rparr>"
      using gate_keeps [OF g laws ok] by (intro inv_keeps [OF inv]) auto
    then show ?thesis using OpGate g by (cases w) simp
  next
    case (OpReplace d)
    then show ?thesis using replace_keeps [OF _ ok] by (simp add: simple)
  next
    case (OpPublish d i)
    obtain e1 g where g: "publish_disposition d (aw_permits w ! i) ?e = (e1, g)" by fastforce
    show ?thesis using OpPublish g inv inv_publish [OF inv _ g] by (cases w) simp
  next
    case (OpAbort r)
    then show ?thesis using abort_keeps [OF _ ok] by (simp add: simple)
  next
    case (OpAbortBounded j r)
    then show ?thesis using abort_bounded_keeps [OF _ ok] by (simp add: simple)
  next
    case (OpFinishAccepted b r)
    then show ?thesis using accepted_keeps [OF _ ok] by (simp add: simple)
  qed (use down in simp_all)
qed

lemma exec_ops_inv:
  "attempt_inv H us n w \<Longrightarrow> header_laws H \<Longrightarrow> attempt_inv H us n (exec_ops H ops w)"
  unfolding exec_ops_def by (induction ops arbitrary: w) (simp_all add: exec_op_inv)

text \<open>The units of a queue body; a reader's chunks are not known in advance.\<close>

definition declared_units :: "prepared_body \<Rightarrow> bytes list option" where
  "declared_units b = (case pb_source b of Some (QueueSource cs) \<Rightarrow> Some cs | _ \<Rightarrow> None)"

lemma attempt_started_inv:
  assumes "attempt_started e0 w"
  shows "attempt_inv H (declared_units (x_body e0)) (visible_bytes (x_body e0)) w"
proof -
  obtain p plan pre now cap q en res where new: "new_validated p plan pre now cap q en res = Inr e0"
    and w: "w = \<lparr>aw_exchange = e0, aw_permits = []\<rparr>"
    using assms by (auto simp: attempt_started_def)
  have st: "x_writer e0 = NotStarted" "upstream_fence e0 = Clear" "pending_request_write e0 = None" "x_log e0 = []"
    "semantic_upstream_calls e0 = 0" "\<not> request_framing_reconciled e0" "published e0 = None" "\<not> scope_created e0"
    "header_fence e0 = Clear" "semantic_fence e0 = Clear"
    using new by (auto simp: new_validated_def res_simps split: if_splits)
  have "flow_ok (declared_units (x_body e0)) (visible_bytes (x_body e0)) e0"
    using st by (auto simp: flow_ok_def pending_units_def declared_units_def body_units_def visible_bytes_def
        split: option.splits body_source.splits)
  then show ?thesis
    using st by (simp add: attempt_inv_def w fences_ok_def wire_ok_def writer_ok_def lossless_def)
qed

end
