(* ===== verification/Attempt_Claims.thy ===== *)
theory Attempt_Claims
  imports Attempt_Owner
begin

text \<open>
  The properties of an exchange, each a consequence of the owner's invariant
  (\<^verbatim>\<open>Attempt_Owner\<close>), and the progress of the writer gate with a cooperating transport.
\<close>

section \<open>A sample exchange\<close>

definition calm_poll :: "'h response_poll" where
  "calm_poll = \<lparr>rp_ready = Inr (), rp_total = None, rp_charge = Inr (), rp_answer = PollPending\<rparr>"

definition calm_turn :: "instant \<Rightarrow> 'h turn" where
  "calm_turn now = \<lparr>t_now = now,
     t_connect = (\<lambda>_. \<lparr>ca_cancelled_before = False, ca_started = now, ca_outcome = ConnectDone\<rparr>),
     t_poll = calm_poll, t_io = IoDone, t_duplex = [(calm_poll, WritePending), (calm_poll, WriteDone)], t_ended = SelectCancelled\<rparr>"

definition calm_gate :: "instant \<Rightarrow> 'h gate_poll" where
  "calm_gate now = \<lparr>gp_cancelled = False, gp_now = now, gp_interrupt = None, gp_turn = calm_turn now\<rparr>"

definition sample_clock :: attempt_clock where
  "sample_clock = \<lparr>ac_timeouts = \<lparr>to_request_write = 10, to_first_byte = 10, to_stream_idle = 10\<rparr>,
     attempt_deadline = 100, attempt_started_at = 0, request_write_started_at = None,
     first_upstream_receipt_at = None, last_upstream_progress_at = None, local_read_suppressed = 0,
     suppression_observed = 0, idle_suppression_credit = 0, upstream_body_bytes = 0, ac_timeout_kind = None\<rparr>"

definition sample_body :: prepared_body where
  "sample_body = \<lparr>pb_source = Some (QueueSource [''ab'', ''cd'']), sequential_remaining = None,
     sequential_quantum = None, pb_lease = True\<rparr>"

definition sample_exchange :: "(header_name \<times> header_value) list exchange" where
  "sample_exchange = \<lparr>x_request = 1, x_attempt = 2, x_generation = 3, x_addresses = [0], x_connect_timeout = 5,
     x_protocol = Http1, x_duplex = False, x_transport = True, x_headers = [(TRANSFER_ENCODING, ''chunked'')],
     x_body = sample_body, semantic_upstream_calls = 0, connection_sub_attempts = 0, x_connected = False,
     request_framing_reconciled = False, pending_request_write = None, x_writer = NotStarted,
     upstream_fence = Clear, header_fence = Clear, semantic_fence = Clear, scope_created = False,
     response_window = window_new, response_capacity = 1,
     precommit_owner = \<lparr>pe_direction = AttemptResponsePrecommit, pe_plan = BufferedTransform 8, pe_hard_limit = usize_max,
        pe_observed = 0, pe_declared = None, pe_eos = False\<rparr>,
     x_clock = sample_clock, response_live = True, x_candidate = None, accept_blocked = False, permit_nonce = 0,
     published = None, reset_count = 0, x_finalized = False, x_log = []\<rparr>"

definition sample_world :: "(header_name \<times> header_value) list attempt_world" where
  "sample_world = \<lparr>aw_exchange = sample_exchange, aw_permits = []\<rparr>"

lemma sample_started: "attempt_started sample_exchange sample_world"
proof -
  have quanta: "admit_in_quanta 2 4 ex = (ex\<lparr>pe_observed := 4\<rparr>, Inr ())"
    if "ex = \<lparr>pe_direction = AttemptRequest, pe_plan = BufferedTransform 8, pe_hard_limit = usize_max,
        pe_observed = 0, pe_declared = None, pe_eos = False\<rparr>" for ex
    using that by (simp add: admit_in_quanta.simps [of 2 4] admit_in_quanta.simps [of 2 2] admit_in_quanta.simps [of 2 0]
        admit_chunk_def total_limit_def checked_add_def usize_max_def)
  have body: "visible_bytes sample_body = 4" "body_max_chunk_bytes sample_body = 2"
    by (simp_all add: sample_body_def visible_bytes_def body_max_chunk_bytes_def)
  have "new_validated sample_exchange (BufferedTransform 8) (BufferedTransform 8) 0 1 4 16 (Inr ()) = Inr sample_exchange"
    by (simp add: new_validated_def sample_exchange_def sample_clock_def body
        executor_new_def plan_validate_def ensure_def validate_body_plan_def quanta
        executor_finish_def checked_mul_def usize_max_def)
  then show ?thesis unfolding attempt_started_def sample_world_def by blast
qed

section \<open>Progress of the writer gate\<close>

text \<open>The polls of a duplex write: pending ones, then one that completes, the response silent in each.\<close>

fun completes :: "('h response_poll \<times> write_poll) list \<Rightarrow> bool" where
  "completes [] \<longleftrightarrow> False"
| "completes ((p, w) # ps) \<longleftrightarrow>
     rp_ready p = Inr () \<and> rp_answer p = PollPending \<and> (w = WriteDone \<or> w = WritePending \<and> completes ps)"

text \<open>
  A turn in which nothing is cancelled, the response is silent and the transport completes what it is
  asked for, whichever kind of transport it is.
\<close>

definition cooperative :: "instant \<Rightarrow> 'h gate_poll \<Rightarrow> bool" where
  "cooperative deadline g \<longleftrightarrow>
     \<not> gp_cancelled g \<and> gp_now g < deadline \<and> gp_interrupt g = None
   \<and> rp_ready (t_poll (gp_turn g)) = Inr () \<and> rp_answer (t_poll (gp_turn g)) = PollPending
   \<and> \<not> ca_cancelled_before (t_connect (gp_turn g) 0) \<and> ca_outcome (t_connect (gp_turn g) 0) = ConnectDone
   \<and> t_io (gp_turn g) = IoDone \<and> completes (t_duplex (gp_turn g))"

text \<open>The body still has the units \<open>cs\<close> to send, from its queue or from a reader that keeps its contract.\<close>

definition units_left :: "prepared_body \<Rightarrow> bytes list \<Rightarrow> bool" where
  "units_left b cs \<longleftrightarrow>
     pb_source b = Some (QueueSource cs)
   \<or> (\<exists>quantum. pb_source b = Some (SequentialSource (map (\<lambda>c. Inr (Some c)) cs))
        \<and> sequential_quantum b = Some quantum \<and> sequential_remaining b = Some (sum_list (map length cs))
        \<and> (\<forall>c\<in>set cs. c \<noteq> [] \<and> length c \<le> quantum))"

text \<open>A live exchange with the units \<open>cs\<close> still to send, connected or able to connect.\<close>

definition sending :: "'h exchange \<Rightarrow> bytes list \<Rightarrow> bool" where
  "sending e cs \<longleftrightarrow>
     (x_connected e \<or> x_addresses e \<noteq> [] \<and> x_writer e = NotStarted) \<and> response_live e \<and> \<not> x_finalized e
   \<and> pending_request_write e = None \<and> units_left (x_body e) cs"

lemma cooperative_drive:
  assumes "cooperative d g" "x_connected e" "\<not> x_finalized e"
  shows "drive_writer_once H (gp_turn g) e = drive_writer_step H (gp_turn g) e"
  using assms by (simp add: cooperative_def drive_writer_once_def ensure_active_def poll_precommit_now_def poll_response_def)

lemma cooperative_turn:
  assumes "cooperative d g" "\<not> x_finalized e" "response_live e" "x_writer e \<noteq> QuiescedNormalEos"
    and "drive_writer_once H (gp_turn g) e = (e1, Inr ())"
  shows "accept_gate H d (g # gs) e = accept_gate H d gs e1"
  using assms
  by (simp add: accept_gate.simps [of H d "g # gs"] accept_progress_blocked_reason_def cooperative_def)

lemma cooperative_gate:
  assumes "cooperative d g" "x_connected e" "\<not> x_finalized e" "response_live e" "x_writer e \<noteq> QuiescedNormalEos"
    and "drive_writer_step H (gp_turn g) e = (e1, Inr ())"
  shows "accept_gate H d (g # gs) e = accept_gate H d gs e1"
  using cooperative_turn [OF assms(1,3,4,5)] cooperative_drive [OF assms(1-3), of H] assms(6) by simp

lemma settled [simp]: "settle_io IoDone k e = k e"
  by (simp add: settle_io_def)

text \<open>What a step of the writer leaves alone, and what it appends to the wire.\<close>

definition advances :: "'h exchange \<Rightarrow> bytes list \<Rightarrow> 'h exchange \<Rightarrow> bool" where
  "advances e us e' \<longleftrightarrow>
     verdict e' = verdict e \<and> response_live e' = response_live e \<and> x_finalized e' = x_finalized e
   \<and> written (x_log e') = written (x_log e) @ us \<and> (lossless (x_log e) \<longrightarrow> lossless (x_log e'))"

lemma advances_trans: "advances e us e1 \<Longrightarrow> advances e1 vs e2 \<Longrightarrow> advances e (us @ vs) e2"
  by (auto simp: advances_def)

lemma advances_refl: "advances e [] e"
  by (simp add: advances_def)

text \<open>What the next unit of the body is, and what is left.\<close>

lemma next_unit:
  assumes "units_left b (c # cs)"
  obtains b' where "begin_next_send b = (b', Inr (Some c))" "units_left b' cs"
proof -
  define b' where "b' = fst (begin_next_send b)"
  have "begin_next_send b = (b', Inr (Some c))" "units_left b' cs"
    using assms by (auto simp: b'_def begin_next_send_def units_left_def reader_next_def)
  then show ?thesis by (rule that)
qed

lemma no_unit:
  assumes "units_left b []"
  obtains b' where "begin_next_send b = (b', Inr None)"
proof -
  have "begin_next_send b = (fst (begin_next_send b), Inr None)"
    using assms by (auto simp: begin_next_send_def units_left_def reader_next_def)
  then show ?thesis by (rule that)
qed

lemma duplex_write_polls:
  "pending_request_write e = Some c \<Longrightarrow> duplex_write WritePending e = (log_call (PollWriteBody c) e, None)"
  "pending_request_write e = Some c \<Longrightarrow> duplex_write WriteDone e =
     (log_done (PollWriteBody c) (log_call (PollWriteBody c) e\<lparr>pending_request_write := None\<rparr>), Some (Inr WriteComplete))"
  by (simp_all add: duplex_write_def)

lemma duplex_finish_polls:
  "duplex_finish WritePending e = (log_call PollFinishBody e, None)"
  "duplex_finish WriteDone e = (log_done PollFinishBody (log_call PollFinishBody e), Some (Inr WriteComplete))"
  by (simp_all add: duplex_finish_def)

lemma duplex_write_completes:
  assumes "completes ps" "pending_request_write e = Some c"
  shows "\<exists>log. duplex_loop duplex_write ps e
      = (e\<lparr>pending_request_write := None, x_log := x_log e @ log\<rparr>, Some (Inr WriteComplete))
    \<and> written log = [c] \<and> lossless log"
  using assms
proof (induction ps arbitrary: e rule: completes.induct)
  case (2 p w ps)
  show ?case
  proof (cases "w = WriteDone")
    case True
    then show ?thesis using 2
      by (intro exI [of _ "[Called (PollWriteBody c), Completed (PollWriteBody c)]"])
        (simp add: poll_response_def duplex_write_polls log_defs lossless_def)
  next
    case False
    let ?e = "log_call (PollWriteBody c) e"
    have w: "w = WritePending" "completes ps" "rp_ready p = Inr ()" "rp_answer p = PollPending"
      using 2(2) False by simp_all
    have "pending_request_write ?e = Some c" using 2(3) by (simp add: log_defs)
    from "2.IH" [OF w(2) this] obtain log where log: "duplex_loop duplex_write ps ?e
        = (?e\<lparr>pending_request_write := None, x_log := x_log ?e @ log\<rparr>, Some (Inr WriteComplete))"
      "written log = [c]" "lossless log" by blast
    then show ?thesis using w 2(3)
      by (intro exI [of _ "Called (PollWriteBody c) # log"])
        (simp add: poll_response_def duplex_write_polls, simp add: log_defs lossless_def)
  qed
qed simp

lemma duplex_finish_completes:
  assumes "completes ps"
  shows "\<exists>log. duplex_loop duplex_finish ps e = (e\<lparr>x_log := x_log e @ log\<rparr>, Some (Inr WriteComplete))
    \<and> written log = [] \<and> lossless log"
  using assms
proof (induction ps arbitrary: e rule: completes.induct)
  case (2 p w ps)
  show ?case
  proof (cases "w = WriteDone")
    case True
    then show ?thesis using 2
      by (intro exI [of _ "[Called PollFinishBody, Completed PollFinishBody]"])
        (simp add: poll_response_def duplex_finish_polls log_defs lossless_def)
  next
    case False
    let ?e = "log_call PollFinishBody e"
    have w: "w = WritePending" "completes ps" "rp_ready p = Inr ()" "rp_answer p = PollPending"
      using 2(2) False by simp_all
    from "2.IH" [OF w(2), of ?e] obtain log where log: "duplex_loop duplex_finish ps ?e
        = (?e\<lparr>x_log := x_log ?e @ log\<rparr>, Some (Inr WriteComplete))" "written log = []" "lossless log" by blast
    then show ?thesis using w
      by (intro exI [of _ "Called PollFinishBody # log"])
        (simp add: poll_response_def duplex_finish_polls, simp add: log_defs lossless_def)
  qed
qed simp

lemma send_unit:
  assumes "sending e (c # cs)" "x_writer e = HeaderWritten \<or> x_writer e = BodyWriting" "t_io t = IoDone"
    and "completes (t_duplex t)"
  obtains e1 where "drive_writer_step H t e = (e1, Inr ())" "sending e1 cs" "x_writer e1 = BodyWriting"
    "advances e [c] e1"
proof -
  obtain b where b: "begin_next_send (x_body e) = (b, Inr (Some c))" "units_left b cs"
    using next_unit [of "x_body e" c cs] assms(1) by (auto simp: sending_def)
  let ?e2 = "start_write_clock (t_now t) (e\<lparr>x_body := b, pending_request_write := Some c, x_writer := BodyWriting\<rparr>)"
  obtain log where log: "duplex_loop duplex_write (t_duplex t) ?e2
      = (?e2\<lparr>pending_request_write := None, x_log := x_log ?e2 @ log\<rparr>, Some (Inr WriteComplete))"
    "written log = [c]" "lossless log"
    using duplex_write_completes [OF assms(4), of ?e2 c] by (auto simp: start_write_clock_def)
  define e1 where "e1 = fst (write_body t e)"
  have "drive_writer_step H t e = (e1, Inr ())" "sending e1 cs" "x_writer e1 = BodyWriting"
    "advances e [c] e1"
    using assms b log
    by (cases "x_duplex e"; auto simp: e1_def drive_writer_step_def write_body_def take_unit_def sending_def Let_def
        settle_duplex_def start_write_clock_def log_defs advances_def verdict_def lossless_def)+
  then show ?thesis by (rule that)
qed

lemma send_end:
  assumes "sending e []" "x_writer e = HeaderWritten \<or> x_writer e = BodyWriting" "t_io t = IoDone"
    and "completes (t_duplex t)"
  obtains e1 where "drive_writer_step H t e = (e1, Inr ())" "response_live e1" "x_writer e1 = QuiescedNormalEos"
    "advances e [] e1"
proof -
  obtain b where b: "begin_next_send (x_body e) = (b, Inr None)"
    using no_unit [of "x_body e"] assms(1) by (auto simp: sending_def)
  let ?e2 = "start_write_clock (t_now t) (e\<lparr>x_body := b, x_writer := EosWriting\<rparr>)"
  obtain log where log: "duplex_loop duplex_finish (t_duplex t) ?e2
      = (?e2\<lparr>x_log := x_log ?e2 @ log\<rparr>, Some (Inr WriteComplete))" "written log = []" "lossless log"
    using duplex_finish_completes [OF assms(4), of ?e2] by auto
  define e1 where "e1 = fst (write_body t e)"
  have "drive_writer_step H t e = (e1, Inr ())" "response_live e1" "x_writer e1 = QuiescedNormalEos"
    "advances e [] e1"
    using assms b log
    by (cases "x_duplex e"; auto simp: e1_def drive_writer_step_def write_body_def take_unit_def sending_def Let_def
        settle_duplex_def start_write_clock_def log_defs drive_eos_writer_once_def finish_eos_def advances_def
        verdict_def lossless_def)+
  then show ?thesis by (rule that)
qed

text \<open>The gate opens on a state in which the body was sent and nothing else decided.\<close>

definition opens :: "('h, 'z) header_ops_scheme \<Rightarrow> instant \<Rightarrow> 'h gate_poll list \<Rightarrow> 'h exchange \<Rightarrow> bytes list \<Rightarrow> bool" where
  "opens H d gs e us \<longleftrightarrow>
     (\<exists>e1 p e2. accept_gate H d gs e = (e2, Some (Inr (ReadyToPublishAccept NormalEos p)))
        \<and> new_permit Accept e1 = (e2, p) \<and> x_writer e1 = QuiescedNormalEos \<and> response_live e1 \<and> advances e us e1)"

lemma gate_done:
  assumes "x_writer e1 = QuiescedNormalEos" "response_live e1" "advances e us e1"
    and "accept_gate H d gs e = accept_gate H d gs' e1"
  shows "opens H d gs e us"
  using assms by (auto simp: opens_def accept_gate.simps [of H d gs'] accept_gate_ready_def split: prod.splits)

lemma opens_advances:
  assumes "opens H d gs' e1 vs" "advances e us e1" "accept_gate H d gs e = accept_gate H d gs' e1"
  shows "opens H d gs e (us @ vs)"
  using assms advances_trans unfolding opens_def by metis

lemma gate_sends_body:
  assumes "sending e cs" "x_writer e = HeaderWritten \<or> x_writer e = BodyWriting"
    and "list_all (cooperative d) gs" "length cs < length gs"
  shows "opens H d gs e cs"
  using assms
proof (induction cs arbitrary: e gs)
  case Nil
  then obtain g gs' where g: "gs = g # gs'" "cooperative d g" by (cases gs) auto
  have io: "t_io (gp_turn g) = IoDone" "completes (t_duplex (gp_turn g))" using g(2) by (simp_all add: cooperative_def)
  obtain e1 where e1: "drive_writer_step H (gp_turn g) e = (e1, Inr ())" "response_live e1"
    "x_writer e1 = QuiescedNormalEos" "advances e [] e1"
    by (rule send_end [OF Nil.prems(1,2) io])
  have "accept_gate H d gs e = accept_gate H d gs' e1"
    using cooperative_gate [OF g(2) _ _ _ _ e1(1)] Nil.prems g(1) by (auto simp: sending_def)
  then show ?case using gate_done e1(2-4) by blast
next
  case (Cons c cs)
  then obtain g gs' where g: "gs = g # gs'" "cooperative d g" "list_all (cooperative d) gs'" "length cs < length gs'"
    by (cases gs) auto
  have io: "t_io (gp_turn g) = IoDone" "completes (t_duplex (gp_turn g))" using g(2) by (simp_all add: cooperative_def)
  obtain e1 where e1: "drive_writer_step H (gp_turn g) e = (e1, Inr ())" "sending e1 cs"
    "x_writer e1 = BodyWriting" "advances e [c] e1"
    by (rule send_unit [OF Cons.prems(1,2) io])
  have eq: "accept_gate H d gs e = accept_gate H d gs' e1"
    using cooperative_gate [OF g(2) _ _ _ _ e1(1)] Cons.prems g(1) by (auto simp: sending_def)
  have "x_writer e1 = HeaderWritten \<or> x_writer e1 = BodyWriting" using e1(3) by simp
  then have "opens H d gs' e1 cs" by (rule Cons.IH [OF e1(2) _ g(3,4)])
  then show ?case using opens_advances [OF _ e1(4) eq] by fastforce
qed

text \<open>With lawful headers the request framing is always reconciled: a conflict is stripped first.\<close>

lemma reconcile_succeeds:
  assumes laws: "header_laws H"
  obtains h where "reconcile_framing H e = (e\<lparr>x_headers := h, request_framing_reconciled := True\<rparr>, Inr ())"
proof (cases "request_framing_reconciled e")
  case True
  then have "reconcile_framing H e = (e\<lparr>x_headers := x_headers e, request_framing_reconciled := True\<rparr>, Inr ())"
    by (simp add: reconcile_framing_def)
  then show ?thesis by (rule that)
next
  case False
  note defs = reconcile_framing_def Let_def buffered_eos_def ensure_held_def ensure_def finalize_def
    record_header_mutation_def framing_default_def strip_framing_def length_headers_def body_forbidden_def
  have "reconcile_framing H e =
    (e\<lparr>x_headers := x_headers (fst (reconcile_framing H e)), request_framing_reconciled := True\<rparr>, Inr ())"
    using False header_law_simps(3) [OF laws]
    by (cases "contains_key H CONTENT_LENGTH (x_headers e)"; cases "contains_key H TRANSFER_ENCODING (x_headers e)")
      (simp_all add: defs)
  then show ?thesis by (rule that)
qed

lemma send_head:
  assumes "sending e cs" "x_writer e = NotStarted" "upstream_fence e = Clear" "t_io t = IoDone" "header_laws H"
    and "x_connected e"
  obtains e1 where "drive_writer_step H t e = (e1, Inr ())" "sending e1 cs" "x_writer e1 = HeaderWritten"
    "advances e [] e1"
proof -
  obtain h where h: "reconcile_framing H e = (e\<lparr>x_headers := h, request_framing_reconciled := True\<rparr>, Inr ())"
    using reconcile_succeeds [OF assms(5)] by blast
  define e1 where "e1 = fst (write_head H t e)"
  have "drive_writer_step H t e = (e1, Inr ())" "sending e1 cs" "x_writer e1 = HeaderWritten"
    "advances e [] e1"
    using assms
    by (simp_all add: e1_def drive_writer_step_def write_head_def h fence_begin_write_def confirm_head_def
        fence_confirm_def log_defs start_write_clock_def sending_def Let_def advances_def verdict_def lossless_def)
  then show ?thesis by (rule that)
qed

text \<open>The first turn connects, if that is still to be done.\<close>

lemma first_turn:
  assumes "sending e cs" "x_writer e = NotStarted" "upstream_fence e = Clear" "cooperative d g"
  obtains e0 where "drive_writer_once H (gp_turn g) e = drive_writer_step H (gp_turn g) e0" "sending e0 cs"
    "x_connected e0" "x_writer e0 = NotStarted" "upstream_fence e0 = Clear" "advances e [] e0"
proof (cases "x_connected e")
  case True
  then have "drive_writer_once H (gp_turn g) e = drive_writer_step H (gp_turn g) e"
    using cooperative_drive [OF assms(4) True, of H] assms(1) by (simp add: sending_def)
  then show ?thesis using that [of e] assms True by (simp add: advances_refl)
next
  case False
  define e0 where "e0 = fst (connect (t_connect (gp_turn g)) e)"
  have "connect (t_connect (gp_turn g)) e = (e0, Inr ())" "sending e0 cs" "x_connected e0" "x_writer e0 = NotStarted"
    "upstream_fence e0 = Clear" "advances e [] e0" "\<not> x_finalized e0"
    using assms False
    by (cases "x_addresses e"; auto simp: e0_def connect_def sending_def cooperative_def log_defs Let_def advances_def
        verdict_def lossless_def)+
  then show ?thesis using that [of e0] assms False
    by (simp add: drive_writer_once_def ensure_active_def sending_def cooperative_def poll_precommit_now_def poll_response_def)
qed

lemma gate_sends_all:
  assumes laws: "header_laws H" and e: "sending e cs" "x_writer e = NotStarted" "upstream_fence e = Clear"
    and gs: "list_all (cooperative d) gs" "length cs + 1 < length gs"
  shows "opens H d gs e cs"
proof -
  obtain g gs' where g: "gs = g # gs'" "cooperative d g" "list_all (cooperative d) gs'" "length cs < length gs'"
    using gs by (cases gs) auto
  have io: "t_io (gp_turn g) = IoDone" using g(2) by (simp add: cooperative_def)
  obtain e0 where e0: "drive_writer_once H (gp_turn g) e = drive_writer_step H (gp_turn g) e0" "sending e0 cs"
    "x_connected e0" "x_writer e0 = NotStarted" "upstream_fence e0 = Clear" "advances e [] e0"
    by (rule first_turn [OF e g(2)])
  obtain e1 where e1: "drive_writer_step H (gp_turn g) e0 = (e1, Inr ())" "sending e1 cs"
    "x_writer e1 = HeaderWritten" "advances e0 [] e1"
    by (rule send_head [OF e0(2,4,5) io laws e0(3)])
  have eq: "accept_gate H d gs e = accept_gate H d gs' e1"
    using cooperative_turn [OF g(2), of e H e1 gs'] e g(1) e0(1) e1(1) by (auto simp: sending_def)
  have "opens H d gs' e1 cs" using gate_sends_body [OF e1(2) _ g(3,4)] e1(3) by blast
  moreover have "advances e [] e1" using advances_trans [OF e0(6) e1(4)] by simp
  ultimately show ?thesis using opens_advances [OF _ _ eq] by fastforce
qed

section \<open>Properties\<close>

text \<open>
  C27. Nothing reaches the client before the verdict: in every sequence of owner operations, a
  downstream header or semantic write needs a created response scope, and that a published
  Accept or Terminate; semantic output needs confirmed headers; and an attempt published as
  Continue has written nothing downstream and its upstream writer has been reset.
\<close>

theorem downstream_after_publication:
  assumes "attempt_started e0 w0" and "header_laws H" and "e = aw_exchange (exec_ops H ops w0)"
  shows "(header_fence e \<noteq> Clear \<or> semantic_fence e \<noteq> Clear \<longrightarrow>
      scope_created e \<and> (published e = Some Accept \<or> published e = Some Terminate))
    \<and> (semantic_fence e \<noteq> Clear \<longrightarrow> header_fence e = WriteConfirmed)
    \<and> (published e = Some Continue \<longrightarrow>
        header_fence e = Clear \<and> semantic_fence e = Clear \<and> \<not> scope_created e
      \<and> x_writer e = QuiescedCancelReset)"
proof -
  have "attempt_inv H (declared_units (x_body e0)) (visible_bytes (x_body e0)) (exec_ops H ops w0)"
    by (rule exec_ops_inv [OF attempt_started_inv [OF assms(1)] assms(2)])
  then show ?thesis using assms(3) by (auto simp: attempt_inv_def Let_def fences_ok_def)
qed

text \<open>A run that resets the writer and publishes Terminate, then writes its reply's headers.\<close>

definition terminate_ops :: "(header_name \<times> header_value) list attempt_op list" where
  "terminate_ops = [OpSubmit Terminate, OpGate 50 [] (Some (Inr ())), OpPublish Terminate 0]"

lemma terminate_run:
  "published (aw_exchange (exec_ops alist_headers terminate_ops sample_world)) = Some Terminate"
  by (simp add: terminate_ops_def exec_ops_def sample_world_def sample_exchange_def submit_disposition_candidate_def
      ensure_active_def wait_writer_gate_def publication_fences_clear_def cancel_writer_def log_defs Let_def
      new_permit_def publish_disposition_def permit_valid_def)

theorem downstream_after_publication_witness:
  "\<exists>e. e = aw_exchange (exec_ops alist_headers (terminate_ops @ [OpBeginScope, OpBeginHeader]) sample_world)
    \<and> header_fence e \<noteq> Clear \<and> scope_created e \<and> published e = Some Terminate"
proof -
  let ?ops = "terminate_ops @ [OpBeginScope, OpBeginHeader]"
  let ?e = "aw_exchange (exec_ops alist_headers ?ops sample_world)"
  have run: "header_fence ?e \<noteq> Clear" "published ?e = Some Terminate"
    by (simp_all add: terminate_ops_def exec_ops_def sample_world_def sample_exchange_def submit_disposition_candidate_def
      ensure_active_def wait_writer_gate_def publication_fences_clear_def cancel_writer_def log_defs Let_def
      new_permit_def publish_disposition_def permit_valid_def begin_accepted_response_scope_def
      ensure_disposition_published_def begin_downstream_header_write_def ensure_downstream_write_allowed_def
      fence_begin_write_def)
  from downstream_after_publication [OF sample_started alist_header_laws refl, of ?ops] run show ?thesis by blast
qed

lemma op_keeps_published: "op_keeps H us n e e' \<Longrightarrow> published e' = published e"
  by (simp add: op_keeps_def outcome_def)

lemma exec_op_published:
  assumes inv: "attempt_inv H us n w" and laws: "header_laws H" and pub: "published (aw_exchange w) = Some d"
  shows "published (aw_exchange (exec_op H p w)) = Some d"
proof -
  let ?e = "aw_exchange w"
  note ok = inv_wire [OF inv]
  have simple: "published (fst x) = Some d" if "\<And>e' r. x = (e', r) \<Longrightarrow> op_keeps H us n ?e e'" for x
    using that op_keeps_published pub by (cases x) fastforce
  have fences: "fences_ok ?e" using inv by (simp add: attempt_inv_def Let_def)
  have down: "published (fst x) = Some d"
    if "x \<in> {begin_accepted_response_scope ?e, begin_downstream_header_write ?e,
      confirm_downstream_header_write ?e, begin_semantic_output_write ?e, confirm_semantic_output_write ?e}" for x
    using downstream_step [OF fences, of "fst x" "snd x"] that pub by simp
  show ?thesis
  proof (cases p)
    case (OpGate dl gs r)
    obtain e1 g where g: "wait_writer_gate H dl gs r ?e = (e1, g)" by fastforce
    then show ?thesis using OpGate gate_keeps [OF g laws ok] op_keeps_published pub by fastforce
  next
    case (OpPublish c i)
    then show ?thesis using pub by (auto simp: publish_disposition_def split: sum.splits)
  qed (use pub connect_keeps [OF _ ok] drive_keeps [OF _ laws ok] quiesce_keeps [OF _ ok] wait_keeps [OF _ ok]
      next_keeps [OF _ ok] submit_keeps [OF _ ok] replace_keeps [OF _ ok] abort_keeps [OF _ ok]
      abort_bounded_keeps [OF _ ok] accepted_keeps [OF _ ok] in \<open>simp_all add: simple down\<close>)
qed

lemma exec_ops_published:
  "attempt_inv H us n w \<Longrightarrow> header_laws H \<Longrightarrow> published (aw_exchange w) = Some d \<Longrightarrow>
    published (aw_exchange (exec_ops H ops w)) = Some d"
  unfolding exec_ops_def by (induction ops arbitrary: w) (simp_all add: exec_op_inv exec_op_published)

text \<open>
  A verdict is final: once a disposition is published no further operation of the owner,
  with whatever permits it still holds, changes it.
\<close>

theorem published_is_final:
  assumes "attempt_started e0 w0" and "header_laws H"
    and "published (aw_exchange (exec_ops H ops w0)) = Some d"
  shows "published (aw_exchange (exec_ops H later (exec_ops H ops w0))) = Some d"
  using exec_ops_published [OF exec_ops_inv [OF attempt_started_inv [OF assms(1)] assms(2)] assms(2,3)] .

theorem published_is_final_witness:
  "published (aw_exchange (exec_ops alist_headers [OpSubmit Accept, OpPublish Accept 0]
     (exec_ops alist_headers terminate_ops sample_world))) = Some Terminate"
  by (rule published_is_final [OF sample_started alist_header_laws terminate_run])

text \<open>
  C28. Refinement of the HTTP message grammar: whatever the order of the owner's operations and
  the answers of the transport, the calls made on the upstream are connection attempts, then at
  most one head, then body units only after the head was confirmed, then the end, then at most
  a release or resets; no connection attempt follows the head. The semantic call counter counts
  the heads.
\<close>

theorem upstream_message_grammar:
  assumes "attempt_started e0 w0" and "header_laws H" and "e = aw_exchange (exec_ops H ops w0)"
  shows "grammar_run Idle (x_log e) \<noteq> None \<and> semantic_upstream_calls e = length (heads (x_log e))
    \<and> length (heads (x_log e)) \<le> 1"
proof -
  have "attempt_inv H (declared_units (x_body e0)) (visible_bytes (x_body e0)) (exec_ops H ops w0)"
    by (rule exec_ops_inv [OF attempt_started_inv [OF assms(1)] assms(2)])
  then have "wire_ok H (declared_units (x_body e0)) (visible_bytes (x_body e0)) e"
    using inv_wire assms(3) by blast
  then show ?thesis by (auto elim!: wire_okE split: if_splits)
qed

definition accept_ops :: "(header_name \<times> header_value) list attempt_op list" where
  "accept_ops = [OpConnect (\<lambda>_. \<lparr>ca_cancelled_before = False, ca_started = 1, ca_outcome = ConnectDone\<rparr>),
     OpSubmit Accept, OpGate 50 (replicate 5 (calm_gate 1)) None, OpPublish Accept 0]"

theorem upstream_message_grammar_witness:
  "grammar_run Idle (x_log (aw_exchange (exec_ops alist_headers accept_ops sample_world))) \<noteq> None"
  using upstream_message_grammar [OF sample_started alist_header_laws refl, of accept_ops] by blast

lemma finished_has_head:
  "grammar_run q l = Some q' \<Longrightarrow> finished l \<Longrightarrow> q = Idle \<or> q = Reset False \<Longrightarrow> heads l \<noteq> []"
proof (induction l arbitrary: q)
  case (Cons ev l)
  then obtain q1 where q1: "grammar q ev = Some q1" "grammar_run q1 l = Some q'"
    by (auto split: option.splits)
  have "(\<exists>h. ev = Called (WriteHead h)) \<or> ((q1 = Idle \<or> q1 = Reset False) \<and> ev \<noteq> Completed FinishBody \<and> ev \<noteq> Completed PollFinishBody)"
    using q1(1) Cons.prems(3)
    by (auto simp: grammar_def split: transport_event.splits transport_call.splits if_splits phase.splits)
  moreover have "heads (ev # l) \<noteq> []" if "heads l \<noteq> []"
    using that by (cases ev; cases "case ev of Called c \<Rightarrow> c | Completed c \<Rightarrow> c") auto
  ultimately show ?case using Cons.IH [OF q1(2)] Cons.prems(2) by (auto simp: finished_def)
qed (simp add: finished_def)

text \<open>
  C29. Behind an accepted response stands one complete request: if the exchange was published as
  Accept and the transport completed every unit handed to it for good, then either no upstream
  message was begun at all (a synthetic reply), or one head was sent that announces by
  Content-Length, and not by Transfer-Encoding, exactly the number of body bytes that followed,
  these bytes are the whole declared body, for a queued body its units in order, and the
  message was ended.
\<close>

theorem accepted_request_complete:
  assumes "attempt_started e0 w0" and "header_laws H" and "e = aw_exchange (exec_ops H ops w0)"
    and "published e = Some Accept" and "lossless (x_log e)"
  shows "(heads (x_log e) = [] \<and> written (x_log e) = [])
    \<or> (\<exists>h. heads (x_log e) = [h]
        \<and> h_get_all H CONTENT_LENGTH h = [decimal (length (concat (written (x_log e))))]
        \<and> \<not> contains_key H TRANSFER_ENCODING h
        \<and> length (concat (written (x_log e))) = visible_bytes (x_body e0)
        \<and> (\<forall>cs. pb_source (x_body e0) = Some (QueueSource cs) \<longrightarrow> written (x_log e) = cs)
        \<and> finished (x_log e))"
proof -
  let ?us = "declared_units (x_body e0)" and ?n = "visible_bytes (x_body e0)"
  have inv: "attempt_inv H ?us ?n (exec_ops H ops w0)"
    by (rule exec_ops_inv [OF attempt_started_inv [OF assms(1)] assms(2)])
  have ok: "wire_ok H ?us ?n e" using inv_wire [OF inv] assms(3) by simp
  have "accept_backed ?us ?n (x_log e)" using inv assms(3,4) by (simp add: attempt_inv_def Let_def)
  then consider "heads (x_log e) = [] \<and> written (x_log e) = []" | "finished (x_log e)" "body_complete ?us ?n (x_log e)"
    by (auto simp: accept_backed_def)
  then show ?thesis
  proof cases
    case 2
    have "heads (x_log e) \<noteq> []" using ok finished_has_head [OF _ 2(1)] by (auto elim!: wire_okE)
    then obtain h where h: "heads (x_log e) = [h]" using ok by (auto elim!: wire_okE simp: length_Suc_conv split: if_splits)
    have len: "length (concat (written (x_log e))) = ?n" "?us \<noteq> None \<longrightarrow> ?us = Some (written (x_log e))"
      using 2(2) assms(5) by (auto simp: body_complete_def)
    have "declares H ?n h" using ok h by (auto elim!: wire_okE)
    then show ?thesis using h len 2(1) by (auto simp: declares_def declared_units_def)
  qed simp
qed

lemma accept_run:
  "let e = aw_exchange (exec_ops alist_headers accept_ops sample_world)
   in published e = Some Accept \<and> lossless (x_log e) \<and> written (x_log e) = [''ab'', ''cd'']"
proof -
  define w where "w = exec_ops alist_headers (take 2 accept_ops) sample_world"
  have w: "sending (aw_exchange w) [''ab'', ''cd'']" "x_writer (aw_exchange w) = NotStarted"
    "upstream_fence (aw_exchange w) = Clear" "x_candidate (aw_exchange w) = Some Accept"
    "published (aw_exchange w) = None" "\<not> scope_created (aw_exchange w)" "header_fence (aw_exchange w) = Clear"
    "semantic_fence (aw_exchange w) = Clear" "written (x_log (aw_exchange w)) = []" "lossless (x_log (aw_exchange w))"
    "aw_permits w = []"
    by (simp_all add: w_def accept_ops_def exec_ops_def sample_world_def sample_exchange_def connect_def
        submit_disposition_candidate_def ensure_active_def sending_def units_left_def log_defs sample_body_def lossless_def Let_def)
  let ?gs = "replicate 5 (calm_gate 1)"
  have "list_all (cooperative 50) ?gs"
    by (simp add: list_all_length cooperative_def calm_gate_def calm_turn_def calm_poll_def)
  then have "opens alist_headers 50 ?gs (aw_exchange w) [''ab'', ''cd'']"
    by (intro gate_sends_all [OF alist_header_laws w(1-3)]) simp_all
  then obtain e1 p e2 where g: "accept_gate alist_headers 50 ?gs (aw_exchange w) = (e2, Some (Inr (ReadyToPublishAccept NormalEos p)))"
    "new_permit Accept e1 = (e2, p)" "x_writer e1 = QuiescedNormalEos" "response_live e1"
    "advances (aw_exchange w) [''ab'', ''cd''] e1" unfolding opens_def by blast
  have v: "published e2 = None" "header_fence e2 = Clear" "semantic_fence e2 = Clear" "\<not> scope_created e2"
    "x_candidate e2 = Some Accept" "\<not> x_finalized e2" "x_writer e2 = QuiescedNormalEos" "response_live e2"
    "x_log e2 = x_log e1" "permit_valid p Accept e2"
    using g(2-5) w by (auto simp: new_permit_def Let_def advances_def verdict_def sending_def permit_valid_def)
  have gate: "wait_writer_gate alist_headers 50 ?gs None (aw_exchange w) = (e2, Some (Inr (ReadyToPublishAccept NormalEos p)))"
    using w g(1) by (simp add: wait_writer_gate_def ensure_active_def publication_fences_clear_def sending_def)
  have split: "exec_ops alist_headers accept_ops sample_world
      = exec_op alist_headers (OpPublish Accept 0) (exec_op alist_headers (OpGate 50 ?gs None) w)"
    by (simp add: w_def exec_ops_def accept_ops_def)
  have "published (fst (publish_disposition Accept p e2)) = Some Accept" "x_log (fst (publish_disposition Accept p e2)) = x_log e1"
    using v by (simp_all add: publish_disposition_def ensure_active_def publication_fences_clear_def)
  then show ?thesis
    using gate g(5) w(9-11) by (simp add: split Let_def advances_def)
qed

theorem accepted_request_complete_witness:
  "\<exists>e h. e = aw_exchange (exec_ops alist_headers accept_ops sample_world) \<and> published e = Some Accept
    \<and> heads (x_log e) = [h] \<and> h_get_all alist_headers CONTENT_LENGTH h = [decimal 4]"
proof -
  let ?e = "aw_exchange (exec_ops alist_headers accept_ops sample_world)"
  have r: "published ?e = Some Accept" "lossless (x_log ?e)" "written (x_log ?e) = [''ab'', ''cd'']"
    using accept_run by (simp_all add: Let_def)
  have n: "visible_bytes (x_body sample_exchange) = 4"
    by (simp add: sample_exchange_def sample_body_def visible_bytes_def)
  from accepted_request_complete [OF sample_started alist_header_laws refl r(1,2)] r n
  show ?thesis by (auto simp: eval_nat_numeral)
qed

text \<open>
  C30. Progress of the writer gate. For a live exchange that has not started to write, on an inline or a
  duplex transport, whose body is a queue or a reader that keeps its contract: when every turn of the
  gate sees no cancellation, no response event, an answer of the transport that completes (a connection
  to the first address, a write, or a duplex write after any number of pending polls) and a time before
  the deadline, the gate of an Accept candidate opens within one turn for the connection and the head,
  one per body unit and one for the end, having sent the whole body in order.
\<close>

theorem writer_gate_progress:
  assumes "header_laws H" and "sending e cs" and "x_writer e = NotStarted" and "upstream_fence e = Clear"
    and "list_all (cooperative d) gs" and "length cs + 1 < length gs"
  shows "\<exists>e' p. accept_gate H d gs e = (e', Some (Inr (ReadyToPublishAccept NormalEos p)))
    \<and> written (x_log e') = written (x_log e) @ cs \<and> pm_disposition p = Accept"
proof -
  obtain e1 p e2 where "accept_gate H d gs e = (e2, Some (Inr (ReadyToPublishAccept NormalEos p)))"
    "new_permit Accept e1 = (e2, p)" "advances e cs e1"
    using gate_sends_all [OF assms] unfolding opens_def by blast
  then show ?thesis by (auto simp: new_permit_def Let_def advances_def)
qed

text \<open>A duplex transport, not yet connected, and a body that is read from a reader.\<close>

definition reader_exchange :: "(header_name \<times> header_value) list exchange" where
  "reader_exchange = sample_exchange\<lparr>x_duplex := True, x_body :=
     \<lparr>pb_source = Some (SequentialSource [Inr (Some ''ab''), Inr (Some ''cd'')]), sequential_remaining = Some 4,
      sequential_quantum = Some 2, pb_lease = True\<rparr>\<rparr>"

theorem writer_gate_progress_witness:
  "\<exists>e' p. accept_gate alist_headers 50 (replicate 4 (calm_gate 1)) reader_exchange
      = (e', Some (Inr (ReadyToPublishAccept NormalEos p))) \<and> written (x_log e') = [''ab'', ''cd'']"
proof -
  have e: "sending reader_exchange [''ab'', ''cd'']" "x_writer reader_exchange = NotStarted"
    "upstream_fence reader_exchange = Clear" "x_log reader_exchange = []"
    by (simp_all add: sending_def units_left_def reader_exchange_def sample_exchange_def)
  have gs: "list_all (cooperative 50) (replicate 4 (calm_gate 1))"
    by (simp add: list_all_length cooperative_def calm_gate_def calm_turn_def calm_poll_def)
  from writer_gate_progress [OF alist_header_laws e(1-3) gs] e(4) show ?thesis by auto
qed

text \<open>
  Waiting for the response is bounded and local backpressure is not held against the
  upstream: the wait ends no later than the caller's and the attempt's deadlines, it is called a
  deadline exactly when it ends there, and after progress the idle limit moves by just the
  time for which the transport was kept from reading.
\<close>

theorem precommit_wait_bounded:
  assumes "precommit_wait_deadline c caller = (t, kind, err)"
  shows "t \<le> min caller (attempt_deadline c)
    \<and> (err = DeadlineExceeded \<longleftrightarrow> t = min caller (attempt_deadline c))
    \<and> (kind = KAttemptDeadline \<longleftrightarrow> err = DeadlineExceeded)
    \<and> (\<forall>last_seen delta. last_upstream_progress_at c = Some last_seen
        \<and> last_seen + idle_suppression_credit c + delta + to_stream_idle (ac_timeouts c) \<le> usize_max
        \<and> local_read_suppressed c + delta \<le> usize_max
        \<longrightarrow> precommit_wait_deadline (fst (refresh_suppression (Some (suppression_observed c + delta)) c)) caller =
            (let idle = last_seen + idle_suppression_credit c + delta + to_stream_idle (ac_timeouts c);
                 absolute = min caller (attempt_deadline c)
             in if absolute \<le> idle then (absolute, KAttemptDeadline, DeadlineExceeded)
                else (idle, KStreamIdle, StreamIdleTimeout)))"
proof -
  have "t \<le> min caller (attempt_deadline c)
    \<and> (err = DeadlineExceeded \<longleftrightarrow> t = min caller (attempt_deadline c)) \<and> (kind = KAttemptDeadline \<longleftrightarrow> err = DeadlineExceeded)"
    using assms by (auto simp: precommit_wait_deadline_def Let_def split: if_splits option.splits prod.splits)
  then show ?thesis
    by (auto simp: precommit_wait_deadline_def refresh_suppression_def Let_def saturating_add_def checked_add_def
        or_deadline_def)
qed

theorem precommit_wait_bounded_witness:
  "precommit_wait_deadline (sample_clock\<lparr>last_upstream_progress_at := Some 7\<rparr>) 60 = (17, KStreamIdle, StreamIdleTimeout)
    \<and> fst (precommit_wait_deadline (sample_clock\<lparr>last_upstream_progress_at := Some 7\<rparr>) 60) \<le> 60"
proof -
  have run: "precommit_wait_deadline (sample_clock\<lparr>last_upstream_progress_at := Some 7\<rparr>) 60 = (17, KStreamIdle, StreamIdleTimeout)"
    by (simp add: precommit_wait_deadline_def sample_clock_def checked_add_def saturating_add_def or_deadline_def usize_max_def)
  from precommit_wait_bounded [OF run] run show ?thesis by simp
qed

section \<open>The sequential reader contract\<close>

text \<open>What a consumer that sends until the end or an error takes from a body, with enough turns.\<close>

fun send_all :: "nat \<Rightarrow> prepared_body \<Rightarrow> bytes list \<times> (attempt_error + unit) option" where
  "send_all 0 b = ([], None)"
| "send_all (Suc k) b =
    (case begin_next_send b of
       (b', Inl er) \<Rightarrow> ([], Some (Inl er))
     | (b', Inr None) \<Rightarrow> ([], Some (Inr ()))
     | (b', Inr (Some c)) \<Rightarrow> (let (cs, r) = send_all k b' in (c # cs, r)))"

text \<open>
  The sequential body contract: whatever a reader returns, at most the declared number of
  bytes is taken, in non-empty chunks within the quantum, an ordinary end is seen only after
  exactly the declared number of bytes, and an end or an error is reached after at most one
  turn per declared byte and one more.
\<close>

theorem sequential_body_exact:
  assumes "body_from_reader n quantum reader = Inr b" and "send_all (Suc n) b = (cs, r)"
  shows "length (concat cs) \<le> n \<and> list_all (\<lambda>c. c \<noteq> [] \<and> length c \<le> quantum) cs
    \<and> (r = Some (Inr ()) \<longrightarrow> length (concat cs) = n) \<and> r \<noteq> None"
proof -
  have b: "pb_source b = Some (SequentialSource reader)" "sequential_remaining b = Some n" "sequential_quantum b = Some quantum"
    using assms(1) by (auto simp: body_from_reader_def split: if_splits)
  from assms(2) b show ?thesis
  proof (induction n arbitrary: b reader cs r rule: less_induct)
    case (less n)
    obtain b' a where s: "begin_next_send b = (b', a)" by fastforce
    show ?case
    proof (cases a)
      case (Inl er)
      then show ?thesis using less.prems s by auto
    next
      case (Inr m)
      show ?thesis
      proof (cases m)
        case None
        then have "n = 0" using s Inr less.prems(2-4)
          by (auto simp: begin_next_send_def Let_def split: prod.splits sum.splits option.splits if_splits)
        then show ?thesis using less.prems(1) s Inr None by auto
      next
        case (Some c)
        obtain r' where c: "c \<noteq> []" "length c \<le> quantum" "length c \<le> n"
          "pb_source b' = Some (SequentialSource r')" "sequential_remaining b' = Some (n - length c)"
          "sequential_quantum b' = Some quantum"
          using s Inr Some less.prems(2-4)
          by (auto simp: begin_next_send_def Let_def split: prod.splits sum.splits option.splits if_splits)
        have lt: "n - length c < n" using c(1,3) by (cases c) auto
        obtain ds s1 where d: "send_all n b' = (ds, s1)" by fastforce
        have fuel: "send_all (Suc (n - length c)) b' = (ds, s1)"
        proof -
          have more: "send_all (k + j) x = send_all k x" if "snd (send_all k x) \<noteq> None" for k j x
            using that by (induction k arbitrary: x) (auto split: prod.splits sum.splits option.splits)
          obtain es s2 where e: "send_all (Suc (n - length c)) b' = (es, s2)" by fastforce
          have "s2 \<noteq> None" using less.IH [OF lt e c(4-6)] by simp
          then have "send_all (Suc (n - length c) + (length c - 1)) b' = (es, s2)"
            using more [of "Suc (n - length c)" b' "length c - 1"] e by (simp del: send_all.simps)
          moreover have "Suc (n - length c) + (length c - 1) = n" using c(1,3) by (cases c) auto
          ultimately show ?thesis using d e by simp
        qed
        show ?thesis using less.IH [OF lt fuel c(4-6)] less.prems(1) s Inr Some d c(1-3) by auto
      qed
    qed
  qed
qed

theorem sequential_body_exact_witness:
  "\<exists>b. body_from_reader 3 2 [Inr (Some ''ab''), Inr (Some ''c''), Inr None] = Inr b
    \<and> send_all 4 b = ([''ab'', ''c''], Some (Inr ())) \<and> length (concat [''ab'', ''c'']) = 3"
proof -
  obtain b where b: "body_from_reader 3 2 [Inr (Some ''ab''), Inr (Some ''c''), Inr None] = Inr b"
    by (simp add: body_from_reader_def)
  have run: "send_all (Suc 3) b = ([''ab'', ''c''], Some (Inr ()))"
    using b by (auto simp: body_from_reader_def begin_next_send_def reader_next_def eval_nat_numeral)
  show ?thesis using sequential_body_exact [OF b run] b run by simp
qed

end
