(* ===== verification/Operation_Journal.thy ===== *)
theory Operation_Journal
  imports Prelude "HOL-Library.List_Lexorder" "HOL-Library.Char_ord"
begin

text \<open>
  The durable operation of the control plane (\<^verbatim>\<open>domain/src/operation/{mod,journal}.rs\<close>): its
  identity, the six-step journal, the lifecycle of its state, and the checkpoint that turns a value
  into a journal update. \<open>serde_json::Value\<close> is the datatype \<open>json\<close>; the canonical digest and the
  serializations of a plan are the fields of an \<open>op_env\<close>.
\<close>

section \<open>JSON values\<close>

datatype json_number = PosInt nat | NegInt int | JFloat string
datatype json = JNull | JBool bool | JNumber json_number | JString string | JArray "json list" | JObject "(string \<times> json) list"

text \<open>\<open>value[key]\<close> is null for a missing key and for a value that is not an object.\<close>

fun json_index :: "json \<Rightarrow> string \<Rightarrow> json" where
  "json_index (JObject fields) k = (case map_of fields k of None \<Rightarrow> JNull | Some v \<Rightarrow> v)"
| "json_index _ _ = JNull"

fun as_u64 :: "json \<Rightarrow> u64 option" where
  "as_u64 (JNumber (PosInt n)) = Some n"
| "as_u64 _ = None"

type_synonym digest = string

section \<open>Identifiers\<close>

datatype op_state =
    Accepted | Preparing | ApplyingSecrets | MaterializingSources | CompilingPublication
  | ApplyingAgentArtifacts | Activating | RollingBack | Succeeded | RolledBack | NeedsAttention

datatype op_error =
    InvalidOperationId | InvalidIdempotencyScope | InvalidIdempotencyKey | EmptyProtectedSecret
  | InvalidApplyCapability | InvalidCredentialRef | InvalidExternalEffect | UnregisteredEffectPlan
  | InvalidArtifactMode | InvalidDurableJournal | InvalidTransition op_state op_state
  | SerializationFailed | DigestFailed

definition ascii_alnum :: "char \<Rightarrow> bool" where
  "ascii_alnum c \<longleftrightarrow>
     (let n = (of_char c :: nat) in 48 \<le> n \<and> n \<le> 57 \<or> 65 \<le> n \<and> n \<le> 90 \<or> 97 \<le> n \<and> n \<le> 122)"

definition validate_idempotency_key :: "string \<Rightarrow> op_error + unit" where
  "validate_idempotency_key s =
    ensure (s \<noteq> [] \<and> length s \<le> 200 \<and> list_all (\<lambda>c. ascii_alnum c \<or> c \<in> set ''._:-'') s) InvalidIdempotencyKey"

fun contains :: "string \<Rightarrow> string \<Rightarrow> bool" where
  "contains [] p = (p = [])"
| "contains (c # s) p = (starts_with (c # s) p \<or> contains s p)"

definition validate_scope_identifier :: "string \<Rightarrow> op_error + unit" where
  "validate_scope_identifier s =
    ensure (s \<noteq> [] \<and> length s \<le> 256 \<and> \<not> contains s ''..'' \<and> \<not> contains s ''//''
      \<and> list_all (\<lambda>c. ascii_alnum c \<or> c \<in> set ''/._:-'') s) InvalidIdempotencyScope"

record idempotency_scope =
  is_principal :: string
  is_operation_kind :: string
  is_key :: string

definition scope_new :: "string \<Rightarrow> string \<Rightarrow> string \<Rightarrow> op_error + idempotency_scope" where
  "scope_new who kind key =
    and_then (validate_scope_identifier who) (\<lambda>_.
    and_then (validate_scope_identifier kind) (\<lambda>_.
    and_then (validate_idempotency_key key) (\<lambda>_.
    Inr \<lparr>is_principal = who, is_operation_kind = kind, is_key = key\<rparr>)))"

definition hexdigit :: "char \<Rightarrow> bool" where
  "hexdigit c \<longleftrightarrow>
     (let n = (of_char c :: nat) in 48 \<le> n \<and> n \<le> 57 \<or> 65 \<le> n \<and> n \<le> 70 \<or> 97 \<le> n \<and> n \<le> 102)"

definition operation_id_parse :: "string \<Rightarrow> op_error + string" where
  "operation_id_parse s =
    (if length s = 35 \<and> starts_with s ''op_'' \<and> list_all hexdigit (drop 3 s)
     then Inr (to_ascii_lowercase s) else Inl InvalidOperationId)"

text \<open>The digest of the NUL-separated input is \<^verbatim>\<open>sha256:\<close> and 64 hexadecimal digits; 32 of them are kept.\<close>

definition operation_id_derive :: "(string \<Rightarrow> digest) \<Rightarrow> string \<Rightarrow> idempotency_scope \<Rightarrow> digest \<Rightarrow> string" where
  "operation_id_derive sha workspace scope request =
    ''op_'' @ take 32 (drop 7 (sha (''operation-v1'' @ [CHR 0x00] @ workspace @ [CHR 0x00] @ is_principal scope
      @ [CHR 0x00] @ is_operation_kind scope @ [CHR 0x00] @ is_key scope @ [CHR 0x00] @ request)))"

section \<open>Lifecycle\<close>

definition op_terminal :: "op_state \<Rightarrow> bool" where
  "op_terminal s \<longleftrightarrow> s \<in> {Succeeded, RolledBack, NeedsAttention}"

definition can_transition :: "op_state \<Rightarrow> op_state \<Rightarrow> bool" where
  "can_transition s t \<longleftrightarrow> (s, t) \<in> set
    [(Accepted, Preparing), (Preparing, ApplyingSecrets), (ApplyingSecrets, MaterializingSources),
     (MaterializingSources, CompilingPublication), (CompilingPublication, ApplyingAgentArtifacts),
     (ApplyingAgentArtifacts, Activating), (Activating, Succeeded),
     (Accepted, RollingBack), (Preparing, RollingBack), (ApplyingSecrets, RollingBack),
     (MaterializingSources, RollingBack), (CompilingPublication, RollingBack),
     (ApplyingAgentArtifacts, RollingBack), (Activating, RollingBack),
     (RollingBack, RolledBack), (RollingBack, NeedsAttention), (NeedsAttention, RolledBack)]"

datatype step_kind = Prepare | ApplySecrets | MaterializeSources | CompilePublication | ApplyAgentArtifacts | Activate

definition ALL_STEPS :: "step_kind list" where
  "ALL_STEPS = [Prepare, ApplySecrets, MaterializeSources, CompilePublication, ApplyAgentArtifacts, Activate]"

fun step_state :: "step_kind \<Rightarrow> op_state" where
  "step_state Prepare = Preparing"
| "step_state ApplySecrets = ApplyingSecrets"
| "step_state MaterializeSources = MaterializingSources"
| "step_state CompilePublication = CompilingPublication"
| "step_state ApplyAgentArtifacts = ApplyingAgentArtifacts"
| "step_state Activate = Activating"

datatype step_status = Pending | Started | Applied | Compensating | Compensated | Attention

datatype effect_kind = Control | Secret | RuntimeState | Publication | AgentArtifact | LoginItem

record owned_effect =
  ef_id :: string
  ef_kind :: effect_kind
  ef_target :: string
  ef_before :: "digest option"
  ef_after :: "digest option"
  ef_compensation :: json

record op_step =
  os_sequence :: nat
  os_kind :: step_kind
  os_input_digest :: digest
  os_status :: step_status
  os_attempts :: nat
  os_effects :: "owned_effect list"
  os_result :: "string option"

section \<open>Plans\<close>

datatype secret_kind = Upsert | Delete

record credential_ref =
  cr_credential_id :: string
  cr_owner_scope :: string
  cr_subject :: string
  cr_purpose :: string
  cr_destinations :: "string list"
  cr_generation :: u64

fun check_all :: "('a \<Rightarrow> 'e + unit) \<Rightarrow> 'a list \<Rightarrow> 'e + unit" where
  "check_all f [] = Inr ()"
| "check_all f (x # xs) = and_then (f x) (\<lambda>_. check_all f xs)"

definition credential_new ::
  "string \<Rightarrow> string \<Rightarrow> string \<Rightarrow> string \<Rightarrow> string list \<Rightarrow> u64 \<Rightarrow> op_error + credential_ref" where
  "credential_new i owner subject purpose dests gen =
    and_then (check_all validate_scope_identifier [i, owner, subject, purpose]) (\<lambda>_.
    and_then (ensure (\<not> (dests = [] \<and> \<not> (subject = ''hirouted'' \<and> purpose = ''http-header''))) InvalidCredentialRef) (\<lambda>_.
    and_then (check_all validate_scope_identifier (remdups (sort dests))) (\<lambda>_.
    Inr \<lparr>cr_credential_id = i, cr_owner_scope = owner, cr_subject = subject, cr_purpose = purpose,
         cr_destinations = remdups (sort dests), cr_generation = gen\<rparr>)))"

record secret_mutation =
  sm_kind :: secret_kind
  sm_credential :: credential_ref
  sm_expected_generation :: u64
  sm_input_slot :: "string option"
  sm_fingerprint :: "digest option"

definition secret_upsert ::
  "credential_ref \<Rightarrow> u64 \<Rightarrow> string \<Rightarrow> digest option \<Rightarrow> op_error + secret_mutation" where
  "secret_upsert c gen slot fp =
    and_then (validate_scope_identifier slot) (\<lambda>_.
    Inr \<lparr>sm_kind = Upsert, sm_credential = c, sm_expected_generation = gen, sm_input_slot = Some slot, sm_fingerprint = fp\<rparr>)"

definition secret_delete :: "credential_ref \<Rightarrow> u64 \<Rightarrow> op_error + secret_mutation" where
  "secret_delete c gen =
    Inr \<lparr>sm_kind = Delete, sm_credential = c, sm_expected_generation = gen, sm_input_slot = None, sm_fingerprint = None\<rparr>"

datatype grant_kind = Ensure | Revoke
datatype material_action = Preserve | Regenerate | SetMaterial string digest

fun action_input :: "material_action \<Rightarrow> (string \<times> digest) option" where
  "action_input (SetMaterial slot fp) = Some (slot, fp)"
| "action_input _ = None"

text \<open>A grant mutation, with the scope it is bound to as JSON.\<close>

record grant_mutation =
  gm_kind :: grant_kind
  gm_action :: material_action
  gm_scope :: json

record runtime_mutation =
  rm_key :: string
  rm_value :: json
  rm_expected_generation :: u64

definition runtime_from_planner :: "string \<Rightarrow> json \<Rightarrow> u64 \<Rightarrow> op_error + runtime_mutation" where
  "runtime_from_planner key v gen =
    (if key \<noteq> ''active/setup'' \<or> v \<noteq> JObject [(''ready'', JBool True)] then Inl UnregisteredEffectPlan
     else Inr \<lparr>rm_key = key, rm_value = v, rm_expected_generation = gen\<rparr>)"

record external_intent =
  ei_id :: string
  ei_kind :: effect_kind
  ei_target :: string
  ei_before :: "digest option"
  ei_desired :: json
  ei_mode :: nat
  ei_sensitive :: bool

definition is_settings_managed_configuration :: "external_intent \<Rightarrow> bool" where
  "is_settings_managed_configuration i \<longleftrightarrow> ei_kind i = AgentArtifact
     \<and> json_index (ei_desired i) ''transaction'' = JString ''settings''
     \<and> json_index (ei_desired i) ''role'' = JString ''managed_configuration''"

record change_spec =
  sp_major :: nat
  sp_command_id :: string
  sp_resource_id :: "string option"
  sp_desired :: json

record op_plan =
  tp_spec :: change_spec
  tp_control :: json
  tp_pool :: "json option"
  tp_worker_selection :: "json option"
  tp_secrets :: "secret_mutation list"
  tp_grants :: "grant_mutation list"
  tp_runtime :: "runtime_mutation list"
  tp_external :: "external_intent list"

record revision_set =
  rv_target :: u64
  rv_dependencies :: "(string \<times> u64) list"

section \<open>Operations\<close>

datatype step_input =
    SpecInput change_spec digest revision_set
  | SecretsInput "secret_mutation list" "grant_mutation list"
  | ControlInput json "json option" "json option"
  | IntentsInput "external_intent list"
  | RuntimeInput "runtime_mutation list"

record op_identity =
  oi_schema_version :: nat
  oi_operation_id :: string
  oi_workspace_id :: string
  oi_idempotency :: idempotency_scope
  oi_request_digest :: digest
  oi_accepted_digest :: digest
  oi_expected_revisions :: revision_set

record op_env =
  oe_step_digest :: "step_input \<Rightarrow> op_error + digest"
  oe_identity_digest :: "op_identity \<Rightarrow> op_error + digest"
  oe_plan_json :: "op_plan \<Rightarrow> op_error + string"

record checkpoint =
  ck_identity :: digest
  ck_plan :: op_plan
  ck_plan_json :: string
  ck_generation :: u64
  ck_steps :: "op_step list"
  ck_state :: op_state
  ck_error_code :: "string option"

record operation = op_identity +
  op_checkpoint :: "checkpoint option"
  op_plan_of :: op_plan
  op_state_of :: op_state
  op_generation :: u64
  op_steps :: "op_step list"
  op_error_code :: "string option"

definition immutable_identity :: "op_env \<Rightarrow> operation \<Rightarrow> op_error + digest" where
  "immutable_identity env o1 = oe_identity_digest env (op_identity.truncate o1)"

definition establish_checkpoint :: "op_env \<Rightarrow> operation \<Rightarrow> op_error + operation" where
  "establish_checkpoint env o1 =
    and_then (immutable_identity env o1) (\<lambda>i.
    and_then (oe_plan_json env (op_plan_of o1)) (\<lambda>p.
    Inr (o1\<lparr>op_checkpoint := Some \<lparr>ck_identity = i, ck_plan = op_plan_of o1, ck_plan_json = p,
      ck_generation = op_generation o1, ck_steps = op_steps o1, ck_state = op_state_of o1,
      ck_error_code = op_error_code o1\<rparr>\<rparr>)))"

definition step_inputs :: "op_plan \<Rightarrow> digest \<Rightarrow> revision_set \<Rightarrow> step_input list" where
  "step_inputs p accepted revs =
    [SpecInput (tp_spec p) accepted revs,
     SecretsInput (tp_secrets p) (tp_grants p),
     ControlInput (tp_control p) (tp_pool p) (tp_worker_selection p),
     IntentsInput (filter (\<lambda>e. ei_kind e = Publication) (tp_external p)),
     IntentsInput (filter (\<lambda>e. ei_kind e = AgentArtifact) (tp_external p)),
     RuntimeInput (tp_runtime p)]"

fun new_steps :: "op_env \<Rightarrow> nat \<Rightarrow> (step_kind \<times> step_input) list \<Rightarrow> op_error + op_step list" where
  "new_steps env k [] = Inr []"
| "new_steps env k ((kind, input) # xs) =
    and_then (oe_step_digest env input) (\<lambda>d.
    and_then (new_steps env (Suc k) xs) (\<lambda>ss. Inr
      (\<lparr>os_sequence = k, os_kind = kind, os_input_digest = d, os_status = Pending, os_attempts = 0,
        os_effects = [], os_result = None\<rparr> # ss)))"

definition operation_new ::
  "op_env \<Rightarrow> string \<Rightarrow> string \<Rightarrow> idempotency_scope \<Rightarrow> digest \<Rightarrow> digest \<Rightarrow> revision_set \<Rightarrow> op_plan
   \<Rightarrow> op_error + operation" where
  "operation_new env oid workspace scope request accepted revs p =
    and_then (new_steps env 0 (zip ALL_STEPS (step_inputs p accepted revs))) (\<lambda>steps.
    establish_checkpoint env
      \<lparr>oi_schema_version = 1, oi_operation_id = oid, oi_workspace_id = workspace, oi_idempotency = scope,
       oi_request_digest = request, oi_accepted_digest = accepted, oi_expected_revisions = revs,
       op_checkpoint = None, op_plan_of = p, op_state_of = Accepted, op_generation = 0, op_steps = steps,
       op_error_code = None\<rparr>)"

definition op_transition :: "op_state \<Rightarrow> operation \<Rightarrow> op_error + operation" where
  "op_transition s o1 =
    (if \<not> can_transition (op_state_of o1) s then Inl (InvalidTransition (op_state_of o1) s)
     else Inr (o1\<lparr>op_state_of := s\<rparr>))"

text \<open>
  \<open>step\<close> and \<open>step_mut\<close>: the first step of a kind. The journal always has one; a journal without it
  leaves the operation unchanged here and has no step.
\<close>

definition find_step :: "step_kind \<Rightarrow> operation \<Rightarrow> op_step option" where
  "find_step k o1 = find (\<lambda>s. os_kind s = k) (op_steps o1)"

fun update_first :: "('a \<Rightarrow> bool) \<Rightarrow> ('a \<Rightarrow> 'a) \<Rightarrow> 'a list \<Rightarrow> 'a list" where
  "update_first P f [] = []"
| "update_first P f (x # xs) = (if P x then f x # xs else x # update_first P f xs)"

definition step_mut :: "step_kind \<Rightarrow> (op_step \<Rightarrow> op_step) \<Rightarrow> operation \<Rightarrow> operation" where
  "step_mut k f o1 = o1\<lparr>op_steps := update_first (\<lambda>s. os_kind s = k) f (op_steps o1)\<rparr>"

definition restore_durable_state ::
  "op_env \<Rightarrow> op_state \<Rightarrow> u64 \<Rightarrow> op_step list \<Rightarrow> string option \<Rightarrow> operation \<Rightarrow> op_error + operation" where
  "restore_durable_state env s gen steps code o1 =
    (if length steps \<noteq> length ALL_STEPS
        \<or> list_ex (\<lambda>(k, st, kind). os_sequence st \<noteq> k \<or> os_kind st \<noteq> kind
            \<or> os_input_digest st \<noteq> os_input_digest (op_steps o1 ! k)) (zip [0..<6] (zip steps ALL_STEPS))
     then Inl InvalidDurableJournal
     else establish_checkpoint env
       (o1\<lparr>op_state_of := s, op_generation := gen, op_steps := steps, op_error_code := code\<rparr>))"

section \<open>The journal\<close>

record journal_update =
  ju_expected_generation :: u64
  ju_next_generation :: u64
  ju_changed_steps :: "op_step list"
  ju_plan_json :: string

definition same_step_input :: "op_step \<Rightarrow> op_step \<Rightarrow> bool" where
  "same_step_input a b \<longleftrightarrow> os_sequence a = os_sequence b \<and> os_kind a = os_kind b \<and> os_input_digest a = os_input_digest b"

definition journal_update_of :: "op_env \<Rightarrow> operation \<Rightarrow> op_error + journal_update" where
  "journal_update_of env o1 =
    and_then (ok_or InvalidDurableJournal (op_checkpoint o1)) (\<lambda>c.
    and_then (immutable_identity env o1) (\<lambda>i.
    if ck_identity c \<noteq> i \<or> ck_plan c \<noteq> op_plan_of o1 \<or> ck_generation c \<noteq> op_generation o1
       \<or> length (op_steps o1) \<noteq> length (ck_steps c)
       \<or> list_ex (\<lambda>(a, b). \<not> same_step_input a b) (zip (op_steps o1) (ck_steps c))
    then Inl InvalidDurableJournal
    else and_then (ok_or InvalidDurableJournal (checked_add (op_generation o1) 1)) (\<lambda>n. Inr
      \<lparr>ju_expected_generation = op_generation o1, ju_next_generation = n,
       ju_changed_steps = map fst (filter (\<lambda>(a, b). a \<noteq> b) (zip (op_steps o1) (ck_steps c))),
       ju_plan_json = ck_plan_json c\<rparr>)))"

definition journal_is_committed :: "op_env \<Rightarrow> operation \<Rightarrow> op_error + bool" where
  "journal_is_committed env o1 =
    and_then (journal_update_of env o1) (\<lambda>u.
    case op_checkpoint o1 of
      None \<Rightarrow> Inl InvalidDurableJournal
    | Some c \<Rightarrow> Inr (ju_changed_steps u = [] \<and> op_state_of o1 = ck_state c \<and> op_error_code o1 = ck_error_code c))"

definition acknowledge_commit :: "u64 \<Rightarrow> operation \<Rightarrow> operation" where
  "acknowledge_commit gen o1 =
    (case op_checkpoint o1 of
       None \<Rightarrow> o1
     | Some c \<Rightarrow> o1\<lparr>op_generation := gen, op_checkpoint := Some (c\<lparr>ck_generation := gen, ck_steps := op_steps o1,
         ck_state := op_state_of o1, ck_error_code := op_error_code o1\<rparr>)\<rparr>)"

end
