(* ===== verification/Transaction_Run.thy ===== *)
theory Transaction_Run
  imports Operation_Journal
begin

text \<open>
  The transaction coordinator (\<^verbatim>\<open>application/src/operations/{mod,execution,agent_access_grants}.rs\<close>).
  A run holds the world of the adapters, the operation, a trace of the calls with their outcomes,
  and the admission flag. The adapters are the fields of \<open>ports\<close>, functions of the world that may
  fail at every call; one function per verb serves the secret, grant, control, external and runtime
  traits, told apart by the \<open>item\<close> it is called for.
\<close>

section \<open>Errors\<close>

datatype port_code = Conflict | Corrupt | Crypto | InvalidData | NotFound | PermissionDenied | Unavailable

record port_error =
  pe_code :: port_code
  pe_context :: string

datatype preparation_error =
    FeatureNotEnabledPrep | RuntimeGenerationChanged | SecretGenerationChanged | SecretFingerprintMismatch
  | ExternalEffectChanged | PrepPort port_error | OtherPreparation string

datatype revision_mismatch = TargetMismatch | DependenciesMismatch

datatype tx_error =
    PlanContent string | InvalidArguments | FeatureNotEnabled | CapabilityDenied
  | RevisionConflict revision_mismatch | ChangePreviewStale | IdempotencyKeyReused | OperationNotFound
  | ProtectedInputUnavailable | EffectOwnershipLost | EffectMissing | RecoveryRequired
  | PreparationFailed preparation_error | DomainOperation op_error | DigestError | PortFailed port_error

definition safe_code :: "tx_error \<Rightarrow> string" where
  "safe_code e =
    (case e of
       ChangePreviewStale \<Rightarrow> ''CHANGE_PREVIEW_STALE''
     | PreparationFailed SecretFingerprintMismatch \<Rightarrow> ''CHANGE_PREVIEW_STALE''
     | PreparationFailed ExternalEffectChanged \<Rightarrow> ''CHANGE_PREVIEW_STALE''
     | EffectOwnershipLost \<Rightarrow> ''EFFECT_OWNERSHIP_LOST''
     | EffectMissing \<Rightarrow> ''EFFECT_OWNERSHIP_LOST''
     | RecoveryRequired \<Rightarrow> ''RECOVERY_REQUIRED''
     | ProtectedInputUnavailable \<Rightarrow> ''PROTECTED_INPUT_UNAVAILABLE''
     | PortFailed p \<Rightarrow>
        (let c = pe_context p
         in if c = ''subscription.source.changed'' \<or> c = ''cpa-subscription-source-changed''
            then ''SUBSCRIPTION_SOURCE_CHANGED''
            else if c = ''subscription.authentication'' then ''SUBSCRIPTION_NEEDS_AUTH''
            else if c = ''cpa-subscription-needs-auth'' then ''SUBSCRIPTION_NEEDS_AUTH''
            else if c = ''cpa-subscription-runtime'' then ''SUBSCRIPTION_RUNTIME_UNAVAILABLE''
            else if starts_with c ''subscription.'' then ''SUBSCRIPTION_RUNTIME_UNAVAILABLE''
            else ''ADAPTER_FAILURE'')
     | _ \<Rightarrow> ''APPLY_STEP_FAILED'')"

section \<open>Adapters\<close>

datatype item = ISecret secret_mutation | IGrant grant_mutation | IControl | IExternal external_intent | IRuntime runtime_mutation

datatype reconciliation = Missing | StagedEffect owned_effect | AppliedEffect owned_effect | OwnershipLost owned_effect

datatype compensation = CompensatedNow | AlreadyCompensated | CompensationLost

datatype control_call = WorkerSelection json | ComputeSource json | CredentialPool json | DesiredState json

record receipt =
  rc_revision :: u64
  rc_publication_digest :: digest
  rc_completed_digest :: digest

record 'w ports =
  p_save :: "operation \<Rightarrow> 'w \<Rightarrow> (port_error + operation) \<times> 'w"
  p_save_tail :: "operation \<Rightarrow> 'w \<Rightarrow> (port_error + operation) \<times> 'w"
  p_finish :: "operation \<Rightarrow> 'w \<Rightarrow> (port_error + operation) \<times> 'w"
  p_load :: "string \<Rightarrow> 'w \<Rightarrow> (port_error + operation option) \<times> 'w"
  p_is_current :: "operation \<Rightarrow> 'w \<Rightarrow> (port_error + bool) \<times> 'w"
  p_recoverable :: "'w \<Rightarrow> (port_error + operation list) \<times> 'w"
  p_recovery_required :: "'w \<Rightarrow> (port_error + bool) \<times> 'w"
  p_reclaim :: "string \<Rightarrow> 'w \<Rightarrow> (port_error + unit) \<times> 'w"
  p_observe :: "operation \<Rightarrow> item \<Rightarrow> 'w \<Rightarrow> (port_error + reconciliation) \<times> 'w"
  p_apply :: "operation \<Rightarrow> item \<Rightarrow> string option \<Rightarrow> 'w \<Rightarrow> (port_error + owned_effect) \<times> 'w"
  p_apply_control :: "operation \<Rightarrow> control_call \<Rightarrow> 'w \<Rightarrow> (port_error + owned_effect) \<times> 'w"
  p_activate :: "operation \<Rightarrow> item \<Rightarrow> owned_effect \<Rightarrow> 'w \<Rightarrow> (port_error + owned_effect) \<times> 'w"
  p_compensate :: "operation \<Rightarrow> owned_effect \<Rightarrow> 'w \<Rightarrow> (port_error + compensation) \<times> 'w"
  p_read_secret :: "string \<Rightarrow> 'w \<Rightarrow> (port_error + string) \<times> 'w"
  p_fingerprint :: "string \<Rightarrow> 'w \<Rightarrow> (port_error + digest) \<times> 'w"
  p_begin_activation :: "operation \<Rightarrow> 'w \<Rightarrow> (port_error + unit) \<times> 'w"
  p_finish_activation :: "operation \<Rightarrow> 'w \<Rightarrow> (port_error + unit) \<times> 'w"
  p_prepare_artifact :: "operation \<Rightarrow> external_intent \<Rightarrow> 'w \<Rightarrow> (port_error + unit) \<times> 'w"
  p_prepare_publication :: "operation \<Rightarrow> owned_effect \<Rightarrow> 'w \<Rightarrow> (port_error + owned_effect) \<times> 'w"
  p_prepare_rollback :: "operation \<Rightarrow> owned_effect \<Rightarrow> 'w \<Rightarrow> (port_error + owned_effect) \<times> 'w"
  p_install_snapshot :: "operation \<Rightarrow> 'w \<Rightarrow> (port_error + string) \<times> 'w"

text \<open>The JSON codecs: what a plan decodes to, and the receipt of a settings service.\<close>

record codecs =
  cd_compute_source :: "op_plan \<Rightarrow> json option"
  cd_price_change :: "op_plan \<Rightarrow> bool"
  cd_receipt_parse :: "string \<Rightarrow> receipt option"
  cd_receipt_json :: "receipt \<Rightarrow> string option"
  cd_completion_digest :: "operation \<Rightarrow> u64 \<Rightarrow> digest \<Rightarrow> digest option"

section \<open>Runs\<close>

datatype event =
    Observing item "reconciliation option"
  | Staging item bool
  | ActivatingItem item bool
  | Compensation owned_effect "compensation option"
  | Journal op_state bool
  | Tail bool
  | Finish op_state bool
  | AbortPrepared owned_effect bool
  | PublicationPrepared owned_effect bool
  | ArtifactPrepared external_intent bool
  | GateClosed bool
  | GateOpened bool
  | SnapshotInstalled bool
  | InputRead string bool
  | Fingerprinted bool
  | Reclaimed bool
  | Loaded bool

record 'w run =
  rn_world :: 'w
  rn_op :: operation
  rn_trace :: "event list"
  rn_open :: bool

type_synonym ('w, 'a) txm = "'w run \<Rightarrow> (tx_error + 'a) \<times> 'w run"

definition ret :: "'a \<Rightarrow> ('w, 'a) txm" where
  "ret x s = (Inr x, s)"

definition raise :: "tx_error \<Rightarrow> ('w, 'a) txm" where
  "raise e s = (Inl e, s)"

definition bind_tx :: "('w, 'a) txm \<Rightarrow> ('a \<Rightarrow> ('w, 'b) txm) \<Rightarrow> ('w, 'b) txm" where
  "bind_tx m f s = (case m s of (Inl e, s') \<Rightarrow> (Inl e, s') | (Inr x, s') \<Rightarrow> f x s')"

definition attempt :: "('w, 'a) txm \<Rightarrow> ('w, tx_error + 'a) txm" where
  "attempt m s = (case m s of (r, s') \<Rightarrow> (Inr r, s'))"

definition current_op :: "('w, operation) txm" where
  "current_op s = (Inr (rn_op s), s)"

definition change_op :: "(operation \<Rightarrow> operation) \<Rightarrow> ('w, unit) txm" where
  "change_op f s = (Inr (), s\<lparr>rn_op := f (rn_op s)\<rparr>)"

definition close_writes :: "('w, unit) txm" where
  "close_writes s = (Inr (), s\<lparr>rn_open := False\<rparr>)"

definition from_op_result :: "op_error + 'a \<Rightarrow> ('w, 'a) txm" where
  "from_op_result r = (case r of Inl e \<Rightarrow> raise (DomainOperation e) | Inr x \<Rightarrow> ret x)"

text \<open>A call of an adapter: its outcome is an event of the trace.\<close>

definition try_call ::
  "('w \<Rightarrow> (port_error + 'r) \<times> 'w) \<Rightarrow> (port_error + 'r \<Rightarrow> event) \<Rightarrow> ('w, port_error + 'r) txm" where
  "try_call p ev s =
    (let (r, w) = p (rn_world s) in (Inr r, s\<lparr>rn_world := w, rn_trace := rn_trace s @ [ev r]\<rparr>))"

definition call :: "('w \<Rightarrow> (port_error + 'r) \<times> 'w) \<Rightarrow> (port_error + 'r \<Rightarrow> event) \<Rightarrow> ('w, 'r) txm" where
  "call p ev = bind_tx (try_call p ev) (\<lambda>r. case r of Inl e \<Rightarrow> raise (PortFailed e) | Inr x \<Rightarrow> ret x)"

fun for_each :: "('x \<Rightarrow> ('w, unit) txm) \<Rightarrow> 'x list \<Rightarrow> ('w, unit) txm" where
  "for_each f [] = ret ()"
| "for_each f (x # xs) = bind_tx (f x) (\<lambda>_. for_each f xs)"

section \<open>The journal\<close>

definition save_op :: "'w ports \<Rightarrow> ('w, unit) txm" where
  "save_op P =
    bind_tx current_op (\<lambda>o1.
    bind_tx (call (p_save P o1) (\<lambda>r. Journal (op_state_of o1) (is_ok r))) (\<lambda>o2. change_op (\<lambda>_. o2)))"

definition save_tail :: "'w ports \<Rightarrow> ('w, unit) txm" where
  "save_tail P =
    bind_tx current_op (\<lambda>o1.
    bind_tx (call (p_save_tail P o1) (\<lambda>r. Tail (is_ok r))) (\<lambda>o2. change_op (\<lambda>_. o2)))"

definition finish_op :: "'w ports \<Rightarrow> ('w, unit) txm" where
  "finish_op P =
    bind_tx current_op (\<lambda>o1.
    bind_tx (call (p_finish P o1) (\<lambda>r. Finish (op_state_of o1) (is_ok r))) (\<lambda>o2. change_op (\<lambda>_. o2)))"

definition transition_to :: "op_state \<Rightarrow> ('w, unit) txm" where
  "transition_to t =
    bind_tx current_op (\<lambda>o1. bind_tx (from_op_result (op_transition t o1)) (\<lambda>o2. change_op (\<lambda>_. o2)))"

definition set_code :: "string option \<Rightarrow> ('w, unit) txm" where
  "set_code c = change_op (\<lambda>o1. o1\<lparr>op_error_code := c\<rparr>)"

definition change_step :: "step_kind \<Rightarrow> (op_step \<Rightarrow> op_step) \<Rightarrow> ('w, unit) txm" where
  "change_step k f = change_op (step_mut k f)"

definition step_effects :: "step_kind \<Rightarrow> operation \<Rightarrow> owned_effect list" where
  "step_effects k o1 = (case find_step k o1 of None \<Rightarrow> [] | Some st \<Rightarrow> os_effects st)"

definition step_status_of :: "step_kind \<Rightarrow> operation \<Rightarrow> step_status option" where
  "step_status_of k o1 = map_option os_status (find_step k o1)"

definition put_effect :: "owned_effect \<Rightarrow> owned_effect list \<Rightarrow> owned_effect list" where
  "put_effect e es =
    (if list_ex (\<lambda>x. ef_id x = ef_id e) es then update_first (\<lambda>x. ef_id x = ef_id e) (\<lambda>_. e) es else es @ [e])"

definition record_effect :: "'w ports \<Rightarrow> step_kind \<Rightarrow> owned_effect \<Rightarrow> ('w, unit) txm" where
  "record_effect P k e =
    bind_tx current_op (\<lambda>o1.
    if find (\<lambda>x. ef_id x = ef_id e) (step_effects k o1) = Some e then ret ()
    else bind_tx (change_step k (\<lambda>st. st\<lparr>os_effects := put_effect e (os_effects st)\<rparr>)) (\<lambda>_. save_op P))"

section \<open>Staging\<close>

definition observe :: "'w ports \<Rightarrow> item \<Rightarrow> ('w, reconciliation) txm" where
  "observe P i =
    bind_tx current_op (\<lambda>o1.
      call (p_observe P o1 i) (\<lambda>r. Observing i (case r of Inl _ \<Rightarrow> None | Inr x \<Rightarrow> Some x)))"

definition stage_item :: "'w ports \<Rightarrow> step_kind \<Rightarrow> item \<Rightarrow> ('w, owned_effect) txm \<Rightarrow> ('w, unit) txm" where
  "stage_item P k i apply_it =
    bind_tx (observe P i) (\<lambda>r.
      case r of
        StagedEffect e \<Rightarrow> record_effect P k e
      | AppliedEffect e \<Rightarrow> record_effect P k e
      | Missing \<Rightarrow> bind_tx apply_it (record_effect P k)
      | OwnershipLost e \<Rightarrow> bind_tx (record_effect P k e) (\<lambda>_. raise EffectOwnershipLost))"

definition apply_item :: "'w ports \<Rightarrow> item \<Rightarrow> string option \<Rightarrow> ('w, owned_effect) txm" where
  "apply_item P i input = bind_tx current_op (\<lambda>o1. call (p_apply P o1 i input) (\<lambda>r. Staging i (is_ok r)))"

definition read_input :: "'w ports \<Rightarrow> string \<Rightarrow> ('w, string) txm" where
  "read_input P slot =
    bind_tx (try_call (p_read_secret P slot) (\<lambda>r. InputRead slot (is_ok r))) (\<lambda>r.
      case r of
        Inl e \<Rightarrow> raise (if pe_code e = NotFound then ProtectedInputUnavailable else PortFailed e)
      | Inr x \<Rightarrow> ret x)"

definition read_matching :: "'w ports \<Rightarrow> string \<Rightarrow> digest option \<Rightarrow> ('w, string) txm" where
  "read_matching P slot expected =
    bind_tx (read_input P slot) (\<lambda>input.
    bind_tx (call (p_fingerprint P input) (\<lambda>r. Fingerprinted (is_ok r))) (\<lambda>observed.
    if expected \<noteq> Some observed then raise ChangePreviewStale else ret input))"

definition apply_secret :: "'w ports \<Rightarrow> secret_mutation \<Rightarrow> ('w, owned_effect) txm" where
  "apply_secret P m =
    (if sm_kind m = Upsert
     then (case sm_input_slot m of
             None \<Rightarrow> raise ProtectedInputUnavailable
           | Some slot \<Rightarrow> bind_tx (read_matching P slot (sm_fingerprint m)) (\<lambda>input.
               apply_item P (ISecret m) (Some input)))
     else apply_item P (ISecret m) None)"

definition apply_grant :: "'w ports \<Rightarrow> grant_mutation \<Rightarrow> ('w, owned_effect) txm" where
  "apply_grant P m =
    (case action_input (gm_action m) of
       None \<Rightarrow> apply_item P (IGrant m) None
     | Some (slot, fp) \<Rightarrow> bind_tx (read_matching P slot (Some fp)) (\<lambda>input. apply_item P (IGrant m) (Some input)))"

definition control_call_of :: "codecs \<Rightarrow> op_plan \<Rightarrow> control_call" where
  "control_call_of D p =
    (case tp_worker_selection p of
       Some v \<Rightarrow> WorkerSelection v
     | None \<Rightarrow> (case cd_compute_source D p of
         Some v \<Rightarrow> ComputeSource v
       | None \<Rightarrow> (case tp_pool p of Some v \<Rightarrow> CredentialPool v | None \<Rightarrow> DesiredState (tp_control p))))"

definition apply_control :: "'w ports \<Rightarrow> codecs \<Rightarrow> ('w, owned_effect) txm" where
  "apply_control P D =
    bind_tx current_op (\<lambda>o1.
      call (p_apply_control P o1 (control_call_of D (op_plan_of o1))) (\<lambda>r. Staging IControl (is_ok r)))"

definition stage_grants :: "'w ports \<Rightarrow> ('w, unit) txm" where
  "stage_grants P =
    bind_tx current_op (\<lambda>o1.
      for_each (\<lambda>m. stage_item P ApplySecrets (IGrant m) (apply_grant P m)) (tp_grants (op_plan_of o1)))"

definition intents_of :: "effect_kind \<Rightarrow> operation \<Rightarrow> external_intent list" where
  "intents_of k o1 = filter (\<lambda>i. ei_kind i = k) (tp_external (op_plan_of o1))"

definition run_external_kind :: "'w ports \<Rightarrow> step_kind \<Rightarrow> effect_kind \<Rightarrow> ('w, unit) txm" where
  "run_external_kind P k ek =
    bind_tx current_op (\<lambda>o1.
      for_each (\<lambda>i. stage_item P k (IExternal i) (apply_item P (IExternal i) None)) (intents_of ek o1))"

section \<open>Activation\<close>

text \<open>An activation needs the exact staged effect; what is applied already is only recorded.\<close>

definition activate_item :: "'w ports \<Rightarrow> item \<Rightarrow> owned_effect \<Rightarrow> ('w, owned_effect) txm" where
  "activate_item P i e = bind_tx current_op (\<lambda>o1. call (p_activate P o1 i e) (\<lambda>r. ActivatingItem i (is_ok r)))"

definition activate_observed ::
  "'w ports \<Rightarrow> step_kind \<Rightarrow> item \<Rightarrow> (owned_effect \<Rightarrow> ('w, owned_effect) txm) \<Rightarrow> ('w, unit) txm" where
  "activate_observed P k i act =
    bind_tx (observe P i) (\<lambda>r.
      case r of
        StagedEffect e \<Rightarrow> bind_tx (act e) (record_effect P k)
      | AppliedEffect e \<Rightarrow> record_effect P k e
      | Missing \<Rightarrow> raise EffectMissing
      | OwnershipLost _ \<Rightarrow> raise EffectOwnershipLost)"

definition activate_step :: "'w ports \<Rightarrow> step_kind \<Rightarrow> item \<Rightarrow> ('w, unit) txm" where
  "activate_step P k i = activate_observed P k i (activate_item P i)"

definition activate_grants :: "'w ports \<Rightarrow> ('w, unit) txm" where
  "activate_grants P =
    bind_tx current_op (\<lambda>o1. for_each (\<lambda>m. activate_step P ApplySecrets (IGrant m)) (tp_grants (op_plan_of o1)))"

definition activate_artifact :: "'w ports \<Rightarrow> external_intent \<Rightarrow> ('w, unit) txm" where
  "activate_artifact P i =
    bind_tx current_op (\<lambda>o1.
    bind_tx (call (p_prepare_artifact P o1 i) (\<lambda>r. ArtifactPrepared i (is_ok r))) (\<lambda>_.
    activate_step P ApplyAgentArtifacts (IExternal i)))"

definition publish_staged :: "'w ports \<Rightarrow> external_intent \<Rightarrow> owned_effect \<Rightarrow> ('w, owned_effect) txm" where
  "publish_staged P i e =
    bind_tx current_op (\<lambda>o1.
    bind_tx (call (p_prepare_publication P o1 e) (\<lambda>r. PublicationPrepared e (is_ok r))) (\<lambda>ck.
    bind_tx (record_effect P CompilePublication ck) (\<lambda>_.
    activate_item P (IExternal i) ck)))"

definition settings_files :: "operation \<Rightarrow> external_intent list" where
  "settings_files o1 = filter is_settings_managed_configuration (tp_external (op_plan_of o1))"

definition activate_settings_tail :: "'w ports \<Rightarrow> ('w, unit) txm" where
  "activate_settings_tail P =
    bind_tx current_op (\<lambda>o1. for_each (\<lambda>i. activate_step P ApplyAgentArtifacts (IExternal i)) (settings_files o1))"

definition sealed_publication :: "operation \<Rightarrow> (u64 \<times> digest) option" where
  "sealed_publication o1 =
    (case concat (map (\<lambda>e. case (as_u64 (json_index (ef_compensation e) ''publication_revision''), ef_after e) of
                (Some r, Some d) \<Rightarrow> [(r, d)] | _ \<Rightarrow> [])
           (filter (\<lambda>e. ef_kind e = Publication) (step_effects CompilePublication o1))) of
       [] \<Rightarrow> None | x # _ \<Rightarrow> Some x)"

definition seal_settings_completion :: "'w ports \<Rightarrow> codecs \<Rightarrow> ('w, unit) txm" where
  "seal_settings_completion P D =
    bind_tx current_op (\<lambda>o1.
    if settings_files o1 = [] then ret ()
    else case sealed_publication o1 of
      None \<Rightarrow> raise EffectMissing
    | Some (rev_, d) \<Rightarrow>
       (case cd_completion_digest D o1 rev_ d of
          None \<Rightarrow> raise InvalidArguments
        | Some c \<Rightarrow>
           (case cd_receipt_json D \<lparr>rc_revision = rev_, rc_publication_digest = d, rc_completed_digest = c\<rparr> of
              None \<Rightarrow> raise InvalidArguments
            | Some j \<Rightarrow> bind_tx (change_step Activate (\<lambda>st. st\<lparr>os_result := Some j\<rparr>)) (\<lambda>_. save_op P))))"

definition revokes_grant :: "operation \<Rightarrow> bool" where
  "revokes_grant o1 \<longleftrightarrow> list_ex (\<lambda>m. gm_kind m = Revoke) (tp_grants (op_plan_of o1))"

definition activate_exact_effects :: "'w ports \<Rightarrow> codecs \<Rightarrow> ('w, unit) txm" where
  "activate_exact_effects P D =
    bind_tx current_op (\<lambda>o1.
    let p = op_plan_of o1
    in bind_tx (call (p_begin_activation P o1) (\<lambda>r. GateClosed (is_ok r))) (\<lambda>_.
       bind_tx (for_each (\<lambda>m. activate_step P ApplySecrets (ISecret m)) (tp_secrets p)) (\<lambda>_.
       bind_tx (if revokes_grant o1 then ret () else activate_grants P) (\<lambda>_.
       bind_tx (activate_step P MaterializeSources IControl) (\<lambda>_.
       bind_tx (for_each (activate_artifact P)
          (filter (\<lambda>i. \<not> is_settings_managed_configuration i) (intents_of AgentArtifact o1))) (\<lambda>_.
       bind_tx (for_each (\<lambda>m. activate_step P Activate (IRuntime m)) (tp_runtime p)) (\<lambda>_.
       bind_tx (for_each (\<lambda>i. activate_observed P CompilePublication (IExternal i) (publish_staged P i))
          (intents_of Publication o1)) (\<lambda>_.
       bind_tx (if revokes_grant o1 then activate_grants P else ret ()) (\<lambda>_.
       bind_tx (seal_settings_completion P D) (\<lambda>_.
       activate_settings_tail P))))))))))"

end
