(* ===== verification/Control_Store.thy ===== *)
theory Control_Store
  imports Transaction_Run
begin

text \<open>
  The durable control store (\<^verbatim>\<open>local-storage/src/control/{mod,journal}.rs\<close>): the rows of
  \<^verbatim>\<open>operations\<close> and \<^verbatim>\<open>operation_steps\<close>, the single \<^verbatim>\<open>writer_claim\<close>, the one-shot capabilities and
  the revision heads. An operation runs in one immediate SQLite transaction: an error leaves the
  store as it was. The value \<open>fault\<close> is the error SQLite answers with, if it does.
\<close>

section \<open>Rows\<close>

text \<open>
  A row is the value of its \<^verbatim>\<open>operation_json\<close>. The columns beside it (identifier, workspace, scope,
  digests, state, generation) repeat fields of that value: an insert and an update write both in the same
  statement, and no command writes one without the other, so the model keeps one copy. A row whose
  columns differ from its JSON, which only an edit of the database from outside can make, is not
  represented; the code then selects by the columns and decodes the JSON alone.
\<close>

record op_row = op_identity +
  or_plan :: op_plan
  or_plan_json :: string
  or_state :: op_state
  or_generation :: u64
  or_steps :: "op_step list"
  or_error_code :: "string option"
  or_created :: nat

record capability_row =
  cp_principal :: string
  cp_workspace :: string
  cp_kind :: string
  cp_accepted :: digest
  cp_revisions :: digest
  cp_scope :: string
  cp_expires :: int
  cp_revoked :: bool
  cp_consumed :: "string option"

text \<open>The state of a workspace, and the effect an operation has staged on it.\<close>

record workspace_row =
  wr_json :: string
  wr_revision :: u64
  wr_digest :: digest
  wr_owner :: "string option"

record control_effect_row =
  ce_workspace :: string
  ce_before_exists :: bool
  ce_before_json :: "string option"
  ce_before_revision :: u64
  ce_before_digest :: "digest option"
  ce_before_owner :: "string option"
  ce_after_revision :: u64
  ce_after_digest :: digest
  ce_compensated :: bool
  ce_staged_json :: "string option"
  ce_activated :: bool
  ce_pool_id :: "string option"
  ce_pool_expected :: "u64 option"
  ce_pool_before :: "string option"
  ce_pool_after :: "string option"
  ce_source_id :: "string option"
  ce_source_expected :: "u64 option"
  ce_source_before :: "string option"
  ce_source_after :: "string option"

text \<open>The dependency selection of a worker harness, and the effect staged on it.\<close>

record selection_row =
  sr_revision :: u64
  sr_json :: string
  sr_owner :: string

record selection_effect_row =
  sx_workspace :: string
  sx_harness :: string
  sx_before_revision :: u64
  sx_before_json :: "string option"
  sx_before_owner :: "string option"
  sx_after_revision :: u64
  sx_after_json :: string
  sx_activated :: bool
  sx_compensated :: bool

record 'x store =
  ct_rows :: "op_row list"
  ct_step_rows :: "(string \<times> op_step) list"
  ct_claim :: "string option"
  ct_capabilities :: "digest \<Rightarrow> capability_row option"
  ct_heads :: "string \<Rightarrow> u64 option"
  ct_dependencies :: "string \<Rightarrow> (string \<times> u64) list"
  ct_workspaces :: "string \<Rightarrow> workspace_row option"
  ct_effects :: "string \<Rightarrow> control_effect_row option"
  ct_selections :: "string \<times> string \<Rightarrow> selection_row option"
  ct_selection_effects :: "string \<Rightarrow> selection_effect_row option"
  ct_selection_index :: "string \<times> string \<times> u64 \<Rightarrow> bool"
  ct_ext :: 'x

text \<open>
  The tables of the compute sources, pools, management and prices are \<open>'x\<close>, with what the control
  store asks of them; a call answers with the tables it leaves. A pool or source is its encoded row.
\<close>

record staged_compute =
  sc_control :: json
  sc_id :: string
  sc_expected :: u64
  sc_before :: "string option"
  sc_after :: string

record 'x compute_env =
  cm_stage :: "string \<Rightarrow> string \<Rightarrow> json \<Rightarrow> 'x \<Rightarrow> port_error + 'x"
  cm_activate :: "string \<Rightarrow> string \<Rightarrow> string \<Rightarrow> 'x \<Rightarrow> port_error + 'x"
  cm_current :: "string \<Rightarrow> string option \<Rightarrow> string \<Rightarrow> 'x \<Rightarrow> port_error + bool"
  cm_compensate :: "string \<Rightarrow> string \<Rightarrow> 'x \<Rightarrow> port_error + (bool \<times> 'x)"
  cm_price_activate :: "string \<Rightarrow> string \<Rightarrow> 'x \<Rightarrow> port_error + 'x"
  cm_price_compensate :: "string \<Rightarrow> 'x \<Rightarrow> port_error + (bool \<times> 'x)"
  cm_pool_stage :: "json \<Rightarrow> 'x \<Rightarrow> port_error + staged_compute"
  cm_pool_row :: "string \<Rightarrow> 'x \<Rightarrow> (string \<times> u64) option"
  cm_pool_parse :: "string \<Rightarrow> (string \<times> u64) option"
  cm_pool_write :: "string \<Rightarrow> 'x \<Rightarrow> port_error + 'x"
  cm_pool_delete :: "string \<Rightarrow> 'x \<Rightarrow> 'x"
  cm_source_stage :: "string \<Rightarrow> json \<Rightarrow> 'x \<Rightarrow> port_error + staged_compute"
  cm_source_row :: "string \<Rightarrow> 'x \<Rightarrow> string option"
  cm_source_parse :: "string \<Rightarrow> (string \<times> u64) option"
  cm_source_write :: "string \<Rightarrow> 'x \<Rightarrow> port_error + 'x"
  cm_source_delete :: "string \<Rightarrow> 'x \<Rightarrow> 'x"
  cm_is_projection :: "string \<Rightarrow> bool"
  cm_projection_current :: "string \<Rightarrow> string \<Rightarrow> 'x \<Rightarrow> port_error + bool"
  cm_projection_activate :: "string \<Rightarrow> u64 \<Rightarrow> string option \<Rightarrow> string \<Rightarrow> 'x \<Rightarrow> port_error + 'x"
  cm_projection_compensate :: "string \<Rightarrow> string option \<Rightarrow> string \<Rightarrow> 'x \<Rightarrow> port_error + (bool \<times> 'x)"

text \<open>The codecs and digests the store calls, and the tables of other components it writes with.\<close>

record 'x store_env =
  se_ops :: op_env
  se_sha :: "string \<Rightarrow> digest"
  se_external :: "external_intent \<Rightarrow> external_intent option"
  se_plan :: "op_plan \<Rightarrow> op_plan option"
  se_revisions_digest :: "revision_set \<Rightarrow> digest option"
  se_receipt :: "string \<Rightarrow> receipt option"
  se_begin :: "operation \<Rightarrow> 'x \<Rightarrow> port_error + 'x"
  se_finish :: "operation \<Rightarrow> 'x \<Rightarrow> port_error + 'x"
  se_digest :: "json \<Rightarrow> digest option"
  se_stage_encode :: "json \<Rightarrow> string option"
  se_stage_value :: "string \<Rightarrow> json option"
  se_selection_encode :: "json \<Rightarrow> string option"
  se_selection_decode :: "string \<Rightarrow> string \<Rightarrow> port_error + string"
  se_compute :: "'x compute_env"

definition perr :: "port_code \<Rightarrow> string \<Rightarrow> port_error + 'a" where
  "perr c ctx = Inl \<lparr>pe_code = c, pe_context = ctx\<rparr>"

definition map_err :: "port_code \<Rightarrow> string \<Rightarrow> 'e + 'a \<Rightarrow> port_error + 'a" where
  "map_err c ctx r = (case r of Inl _ \<Rightarrow> perr c ctx | Inr x \<Rightarrow> Inr x)"

definition option_err :: "port_code \<Rightarrow> string \<Rightarrow> 'a option \<Rightarrow> port_error + 'a" where
  "option_err c ctx r = (case r of None \<Rightarrow> perr c ctx | Some x \<Rightarrow> Inr x)"

lemma perr_not_Inr [simp]: "perr c x \<noteq> Inr y"
  by (simp add: perr_def)

lemma map_err_Inr: "map_err c x r = Inr y \<longleftrightarrow> r = Inr y"
  by (auto simp: map_err_def split: sum.splits)

lemma option_err_Inr: "option_err c x m = Inr y \<longleftrightarrow> m = Some y"
  by (auto simp: option_err_def split: option.splits)

definition i64_max :: nat where
  "i64_max = 9223372036854775807"

definition beyond_i64 :: "nat \<Rightarrow> bool" where
  "beyond_i64 n \<longleftrightarrow> n > i64_max"

definition find_row :: "string \<Rightarrow> 'x store \<Rightarrow> op_row option" where
  "find_row i st = find (\<lambda>r. oi_operation_id r = i) (ct_rows st)"

text \<open>A step row is keyed by its operation and its number.\<close>

definition store_step :: "string \<Rightarrow> op_step \<Rightarrow> (string \<times> op_step) list \<Rightarrow> (string \<times> op_step) list" where
  "store_step i s rows =
    (let same = (\<lambda>(j, t). j = i \<and> os_sequence t = os_sequence s)
     in if list_ex same rows then map (\<lambda>r. if same r then (i, s) else r) rows else rows @ [(i, s)])"

definition store_steps :: "string \<Rightarrow> op_step list \<Rightarrow> 'x store \<Rightarrow> 'x store" where
  "store_steps i ss st = st\<lparr>ct_step_rows := fold (store_step i) ss (ct_step_rows st)\<rparr>"

section \<open>The journal\<close>

text \<open>\<^verbatim>\<open>json_set\<close> on an element of the array: replaced in range, appended at its end, else nothing.\<close>

definition set_step :: "op_step \<Rightarrow> op_step list \<Rightarrow> op_step list" where
  "set_step s ss =
    (if os_sequence s < length ss then ss[os_sequence s := s]
     else if os_sequence s = length ss then ss @ [s] else ss)"

text \<open>The row of an update: the exact operation, at the expected generation, with the exact plan.\<close>

definition row_matches :: "operation \<Rightarrow> u64 \<Rightarrow> string \<Rightarrow> op_row \<Rightarrow> bool" where
  "row_matches o1 gen pj r \<longleftrightarrow>
     oi_operation_id r = oi_operation_id o1 \<and> or_generation r = gen \<and> or_plan_json r = pj
     \<and> oi_request_digest r = oi_request_digest o1 \<and> oi_accepted_digest r = oi_accepted_digest o1
     \<and> oi_workspace_id r = oi_workspace_id o1 \<and> oi_idempotency r = oi_idempotency o1"

definition row_updated :: "operation \<Rightarrow> journal_update \<Rightarrow> op_row \<Rightarrow> op_row" where
  "row_updated o1 u r =
    r\<lparr>or_state := op_state_of o1, or_generation := ju_next_generation u, or_error_code := op_error_code o1,
      or_steps := fold set_step (ju_changed_steps u) (or_steps r)\<rparr>"

definition journal_save :: "'x store_env \<Rightarrow> operation \<Rightarrow> 'x store \<Rightarrow> port_error + (u64 \<times> 'x store)" where
  "journal_save E o1 st =
    and_then (map_err InvalidData ''control.journal.inputs'' (journal_update_of (se_ops E) o1)) (\<lambda>u.
    if beyond_i64 (ju_next_generation u) \<or> beyond_i64 (ju_expected_generation u)
    then perr InvalidData ''control.journal.generation_range''
    else if ju_changed_steps u \<noteq> [] \<and> find_row (oi_operation_id o1) st = None
    then perr Unavailable ''control.step.write''
    else if \<not> list_ex (row_matches o1 (ju_expected_generation u) (ju_plan_json u)) (ct_rows st)
    then perr Conflict ''control.journal.generation''
    else Inr (ju_next_generation u,
      (store_steps (oi_operation_id o1) (ju_changed_steps u) st)
        \<lparr>ct_rows := map (\<lambda>r. if row_matches o1 (ju_expected_generation u) (ju_plan_json u) r
                            then row_updated o1 u r else r) (ct_rows st)\<rparr>))"

type_synonym ('x, 'a) store_op = "'x store \<Rightarrow> (port_error + 'a) \<times> 'x store"

text \<open>A transaction commits its result, or fails and leaves the store.\<close>

definition in_transaction ::
  "port_error option \<Rightarrow> ('x store \<Rightarrow> port_error + ('a \<times> 'x store)) \<Rightarrow> ('x, 'a) store_op" where
  "in_transaction fault body st =
    (case body st of
       Inl e \<Rightarrow> (Inl e, st)
     | Inr (x, st') \<Rightarrow> (case fault of Some e \<Rightarrow> (Inl e, st) | None \<Rightarrow> (Inr x, st')))"

lemma in_transaction_ok:
  "in_transaction fault body st = (Inr x, st') \<longleftrightarrow> fault = None \<and> body st = Inr (x, st')"
  by (auto simp: in_transaction_def split: sum.splits option.splits)

lemma in_transaction_err: "in_transaction fault body st = (Inl e, st') \<Longrightarrow> st' = st"
  by (auto simp: in_transaction_def split: sum.splits option.splits)

definition save_operation ::
  "'x store_env \<Rightarrow> port_error option \<Rightarrow> operation \<Rightarrow> ('x, operation) store_op" where
  "save_operation E fault o1 =
    in_transaction fault (\<lambda>st.
      and_then (journal_save E o1 st) (\<lambda>(gen, st1). Inr (acknowledge_commit gen o1, st1)))"

definition finish_operation ::
  "'x store_env \<Rightarrow> port_error option \<Rightarrow> operation \<Rightarrow> ('x, operation) store_op" where
  "finish_operation E fault o1 =
    in_transaction fault (\<lambda>st.
      if \<not> op_terminal (op_state_of o1) then perr InvalidData ''control.finish.non_terminal''
      else
        and_then (se_finish E o1 (ct_ext st)) (\<lambda>x.
        and_then (journal_save E o1 (st\<lparr>ct_ext := x\<rparr>)) (\<lambda>(gen, st1).
        if op_state_of o1 = NeedsAttention then Inr (acknowledge_commit gen o1, st1)
        else if ct_claim st1 \<noteq> Some (oi_operation_id o1) then perr Conflict ''control.finish.claim''
        else Inr (acknowledge_commit gen o1, st1\<lparr>ct_claim := None\<rparr>))))"

definition save_operation_tail ::
  "'x store_env \<Rightarrow> port_error option \<Rightarrow> operation \<Rightarrow> ('x, operation) store_op" where
  "save_operation_tail E fault o1 =
    in_transaction fault (\<lambda>st.
      if op_terminal (op_state_of o1) then perr InvalidData ''control.tail.terminal''
      else
        and_then (journal_save E o1 st) (\<lambda>(gen, st1).
        if ct_claim st1 \<noteq> None \<and> ct_claim st1 \<noteq> Some (oi_operation_id o1)
        then perr Conflict ''control.tail.claim''
        else Inr (acknowledge_commit gen o1, st1\<lparr>ct_claim := None\<rparr>)))"

definition reclaim_operation_writer :: "port_error option \<Rightarrow> string \<Rightarrow> ('x, unit) store_op" where
  "reclaim_operation_writer fault i =
    in_transaction fault (\<lambda>st.
      if ct_claim st \<noteq> None \<and> ct_claim st \<noteq> Some i then perr Conflict ''control.tail.reclaim.busy''
      else Inr ((), st\<lparr>ct_claim := Some i\<rparr>))"

section \<open>Reading\<close>

definition decode_secret :: "secret_mutation \<Rightarrow> port_error + secret_mutation" where
  "decode_secret m =
    (case sm_kind m of
       Upsert \<Rightarrow>
         and_then (option_err Corrupt ''control.operation.secret_slot'' (sm_input_slot m)) (\<lambda>slot.
         map_err Corrupt ''control.operation.secret''
           (secret_upsert (sm_credential m) (sm_expected_generation m) slot (sm_fingerprint m)))
     | Delete \<Rightarrow>
         if sm_input_slot m \<noteq> None \<or> sm_fingerprint m \<noteq> None then perr Corrupt ''control.operation.secret_delete''
         else map_err Corrupt ''control.operation.secret'' (secret_delete (sm_credential m) (sm_expected_generation m)))"

definition decode_runtime :: "runtime_mutation \<Rightarrow> port_error + runtime_mutation" where
  "decode_runtime m =
    map_err Corrupt ''control.operation.runtime''
      (runtime_from_planner (rm_key m) (rm_value m) (rm_expected_generation m))"

fun collect :: "('a \<Rightarrow> 'e + 'b) \<Rightarrow> 'a list \<Rightarrow> 'e + 'b list" where
  "collect f [] = Inr []"
| "collect f (x # xs) = and_then (f x) (\<lambda>y. and_then (collect f xs) (\<lambda>ys. Inr (y # ys)))"

definition decode_plan :: "'x store_env \<Rightarrow> op_plan \<Rightarrow> port_error + op_plan" where
  "decode_plan E p =
    and_then (collect decode_secret (tp_secrets p)) (\<lambda>secrets.
    and_then (collect decode_runtime (tp_runtime p)) (\<lambda>runtime.
    and_then (collect (\<lambda>i. option_err Corrupt ''control.operation.external'' (se_external E i)) (tp_external p))
      (\<lambda>external.
    if tp_worker_selection p \<noteq> None
       \<and> (tp_control p \<noteq> JObject [] \<or> tp_pool p \<noteq> None \<or> secrets \<noteq> [] \<or> runtime \<noteq> [] \<or> external \<noteq> [])
    then perr Corrupt ''control.operation.plan''
    else option_err Corrupt ''control.operation.plan''
      (se_plan E (p\<lparr>tp_secrets := secrets, tp_grants := [], tp_runtime := runtime, tp_external := external\<rparr>)))))"

definition decode_operation :: "'x store_env \<Rightarrow> op_row \<Rightarrow> port_error + operation" where
  "decode_operation E r =
    (if oi_schema_version r \<noteq> 1 then perr Corrupt ''control.operation.schema''
     else
       and_then (decode_plan E (or_plan r)) (\<lambda>p.
       if operation_id_derive (se_sha E) (oi_workspace_id r) (oi_idempotency r) (oi_request_digest r)
          \<noteq> oi_operation_id r
       then perr Corrupt ''control.operation.id''
       else
         and_then (map_err Corrupt ''control.operation.plan''
           (operation_new (se_ops E) (oi_operation_id r) (oi_workspace_id r) (oi_idempotency r)
              (oi_request_digest r) (oi_accepted_digest r) (oi_expected_revisions r) p)) (\<lambda>o1.
         map_err Corrupt ''control.operation.journal''
           (restore_durable_state (se_ops E) (or_state r) (or_generation r) (or_steps r) (or_error_code r) o1))))"

definition load_operation :: "'x store_env \<Rightarrow> string \<Rightarrow> 'x store \<Rightarrow> port_error + operation option" where
  "load_operation E i st =
    (case find_row i st of None \<Rightarrow> Inr None | Some r \<Rightarrow> and_then (decode_operation E r) (\<lambda>o1. Inr (Some o1)))"

definition same_idempotency :: "string \<Rightarrow> idempotency_scope \<Rightarrow> op_row \<Rightarrow> bool" where
  "same_idempotency ws scope r \<longleftrightarrow> oi_workspace_id r = ws \<and> oi_idempotency r = scope"

definition operation_for_idempotency ::
  "'x store_env \<Rightarrow> string \<Rightarrow> idempotency_scope \<Rightarrow> 'x store \<Rightarrow> port_error + operation option" where
  "operation_for_idempotency E ws scope st =
    (case find (same_idempotency ws scope) (ct_rows st) of
       None \<Rightarrow> Inr None
     | Some r \<Rightarrow> and_then (decode_operation E r) (\<lambda>o1. Inr (Some o1)))"

definition recoverable_row :: "string option \<Rightarrow> op_row \<Rightarrow> bool" where
  "recoverable_row claim r \<longleftrightarrow>
     \<not> op_terminal (or_state r) \<or> or_state r = NeedsAttention \<and> claim = Some (oi_operation_id r)"

definition recoverable_operations :: "'x store_env \<Rightarrow> 'x store \<Rightarrow> port_error + operation list" where
  "recoverable_operations E st =
    collect (decode_operation E)
      (sort_key (\<lambda>r. or_created r) (sort_key (\<lambda>r. oi_operation_id r)
        (filter (recoverable_row (ct_claim st)) (ct_rows st))))"

definition writer_recovery_required :: "'x store \<Rightarrow> bool" where
  "writer_recovery_required st \<longleftrightarrow> ct_claim st \<noteq> None"

text \<open>
  \<open>is_current\<close>: the value is the committed one. A non-terminal operation must hold the claim, but a
  parked settings tail may find it free.
\<close>

definition parked_settings_tail :: "'x store_env \<Rightarrow> operation \<Rightarrow> bool" where
  "parked_settings_tail E o1 \<longleftrightarrow>
     op_state_of o1 = Activating
     \<and> (case find_step Activate o1 of
          None \<Rightarrow> False
        | Some st \<Rightarrow> (case os_result st of None \<Rightarrow> False | Some r \<Rightarrow> se_receipt E r \<noteq> None))"

definition row_is_value :: "operation \<Rightarrow> string \<Rightarrow> op_row \<Rightarrow> bool" where
  "row_is_value o1 pj r \<longleftrightarrow>
     row_matches o1 (op_generation o1) pj r \<and> or_state r = op_state_of o1 \<and> or_steps r = op_steps o1
     \<and> or_error_code r = op_error_code o1 \<and> oi_expected_revisions r = oi_expected_revisions o1
     \<and> oi_schema_version r = oi_schema_version o1"

text \<open>The step rows of an operation are exactly its steps, each under its own number.\<close>

definition step_rows_exact :: "string \<Rightarrow> op_step list \<Rightarrow> 'x store \<Rightarrow> bool" where
  "step_rows_exact i ss st \<longleftrightarrow>
     (let rs = map snd (filter (\<lambda>r. fst r = i) (ct_step_rows st))
      in length rs = length ss \<and> list_all (\<lambda>s. os_sequence s < length ss \<and> ss ! os_sequence s = s) rs)"

definition holds_claim :: "'x store_env \<Rightarrow> operation \<Rightarrow> 'x store \<Rightarrow> bool" where
  "holds_claim E o1 st \<longleftrightarrow>
     op_terminal (op_state_of o1) \<or> ct_claim st = Some (oi_operation_id o1)
     \<or> parked_settings_tail E o1 \<and> ct_claim st = None"

definition operation_is_current :: "'x store_env \<Rightarrow> operation \<Rightarrow> 'x store \<Rightarrow> port_error + bool" where
  "operation_is_current E o1 st =
    and_then (map_err InvalidData ''control.current.checkpoint'' (journal_is_committed (se_ops E) o1)) (\<lambda>committed.
    if \<not> committed then Inr False
    else and_then (map_err InvalidData ''control.current.inputs'' (journal_update_of (se_ops E) o1)) (\<lambda>u.
      Inr (list_ex (row_is_value o1 (ju_plan_json u)) (ct_rows st) \<and> holds_claim E o1 st
        \<and> step_rows_exact (oi_operation_id o1) (op_steps o1) st)))"

section \<open>Capabilities\<close>

record capability_grant =
  cg_principal :: string
  cg_workspace :: string
  cg_kind :: string
  cg_accepted :: digest
  cg_revisions :: revision_set
  cg_expires :: int

record authorization =
  au_capability :: digest
  au_principal :: string
  au_workspace :: string
  au_kind :: string
  au_accepted :: digest
  au_revisions :: digest
  au_scope :: string
  au_expires :: int

definition protected_capability :: "string \<Rightarrow> op_error + string" where
  "protected_capability v = (if v = [] \<or> length v > 4096 then Inl InvalidApplyCapability else Inr v)"

definition from_capability_verifier ::
  "digest \<Rightarrow> string \<Rightarrow> string \<Rightarrow> string \<Rightarrow> digest \<Rightarrow> digest \<Rightarrow> string \<Rightarrow> int \<Rightarrow> op_error + authorization" where
  "from_capability_verifier cap who ws kind accepted revs scope expires =
    and_then (check_all validate_scope_identifier [who, kind, scope]) (\<lambda>_.
    Inr \<lparr>au_capability = cap, au_principal = who, au_workspace = ws, au_kind = kind, au_accepted = accepted,
         au_revisions = revs, au_scope = scope, au_expires = expires\<rparr>)"

definition build_registration :: "'x store_env \<Rightarrow> string \<Rightarrow> capability_grant \<Rightarrow> authorization option" where
  "build_registration E cap g =
    (case protected_capability cap of
       Inl _ \<Rightarrow> None
     | Inr c \<Rightarrow>
         if length c < 32 \<or> cg_expires g \<le> 0 then None
         else case se_revisions_digest E (cg_revisions g) of
           None \<Rightarrow> None
         | Some d \<Rightarrow>
             (case from_capability_verifier (se_sha E c) (cg_principal g) (cg_workspace g) (cg_kind g)
                     (cg_accepted g) d ''apply:one-shot'' (cg_expires g) of
                Inl _ \<Rightarrow> None | Inr a \<Rightarrow> Some a))"

definition from_protected_launcher :: "'x store_env \<Rightarrow> string \<Rightarrow> capability_grant \<Rightarrow> authorization option" where
  "from_protected_launcher E cap g =
    (if cg_principal g = ''daemon-subscription-maintenance'' then None else build_registration E cap g)"

definition from_subscription_maintenance :: "'x store_env \<Rightarrow> string \<Rightarrow> capability_grant \<Rightarrow> authorization option" where
  "from_subscription_maintenance E cap g =
    (if cg_kind g \<noteq> ''ApplySubscriptionCheck'' \<and> cg_kind g \<noteq> ''ApplyComputeSave'' then None
     else build_registration E cap (g\<lparr>cg_principal := ''daemon-subscription-maintenance''\<rparr>))"

definition i64_sat :: "int \<Rightarrow> int" where
  "i64_sat n = min n 9223372036854775807"

definition register_capability :: "port_error option \<Rightarrow> int \<Rightarrow> authorization \<Rightarrow> ('x, unit) store_op" where
  "register_capability fault now a =
    in_transaction fault (\<lambda>st.
      if au_expires a \<le> now \<or> au_expires a > i64_sat (now + 300)
      then perr PermissionDenied ''control.capability.expiry''
      else if ct_capabilities st (au_capability a) \<noteq> None then perr Unavailable ''control.capability.grant''
      else Inr ((), st\<lparr>ct_capabilities := (ct_capabilities st)(au_capability a \<mapsto>
        \<lparr>cp_principal = au_principal a, cp_workspace = au_workspace a, cp_kind = au_kind a,
         cp_accepted = au_accepted a, cp_revisions = au_revisions a, cp_scope = ''apply:one-shot'',
         cp_expires = au_expires a, cp_revoked = False, cp_consumed = None\<rparr>)\<rparr>))"

definition capability_usable :: "int \<Rightarrow> authorization \<Rightarrow> capability_row \<Rightarrow> bool" where
  "capability_usable now a c \<longleftrightarrow>
     cp_principal c = au_principal a \<and> cp_workspace c = au_workspace a \<and> cp_kind c = au_kind a
     \<and> cp_accepted c = au_accepted a \<and> cp_revisions c = au_revisions a \<and> cp_scope c = ''apply:one-shot''
     \<and> cp_expires c > now \<and> \<not> cp_revoked c \<and> cp_consumed c = None"

definition verify_apply_authorization ::
  "'x store_env \<Rightarrow> int \<Rightarrow> string \<Rightarrow> string \<Rightarrow> string \<Rightarrow> string \<Rightarrow> digest \<Rightarrow> revision_set \<Rightarrow> 'x store
   \<Rightarrow> port_error + authorization" where
  "verify_apply_authorization E now cap ws who kind accepted revs st =
    and_then (option_err InvalidData ''control.capability.revisions'' (se_revisions_digest E revs)) (\<lambda>d.
    and_then (option_err PermissionDenied ''control.capability.missing'' (ct_capabilities st (se_sha E cap))) (\<lambda>c.
    let a = \<lparr>au_capability = se_sha E cap, au_principal = who, au_workspace = ws, au_kind = kind,
             au_accepted = accepted, au_revisions = d, au_scope = cp_scope c, au_expires = cp_expires c\<rparr>
    in if \<not> capability_usable now a c then perr PermissionDenied ''control.capability.denied''
       else map_err Corrupt ''control.capability.record''
         (from_capability_verifier (au_capability a) (cp_principal c) ws (cp_kind c) accepted d (cp_scope c)
           (cp_expires c))))"

definition matches_operation :: "'x store_env \<Rightarrow> operation \<Rightarrow> authorization \<Rightarrow> bool" where
  "matches_operation E o1 a \<longleftrightarrow>
     au_principal a = is_principal (oi_idempotency o1) \<and> au_workspace a = oi_workspace_id o1
     \<and> au_kind a = is_operation_kind (oi_idempotency o1) \<and> au_accepted a = oi_accepted_digest o1
     \<and> se_revisions_digest E (oi_expected_revisions o1) = Some (au_revisions a)"

section \<open>Admission\<close>

definition current_revisions :: "string \<Rightarrow> 'x store \<Rightarrow> revision_set" where
  "current_revisions ws st =
    \<lparr>rv_target = (case ct_heads st ws of None \<Rightarrow> 0 | Some n \<Rightarrow> n), rv_dependencies = ct_dependencies st ws\<rparr>"

definition compare_revisions :: "revision_set \<Rightarrow> revision_set \<Rightarrow> revision_mismatch option" where
  "compare_revisions expected current =
    (if rv_target expected \<noteq> rv_target current then Some TargetMismatch
     else if rv_dependencies expected \<noteq> rv_dependencies current then Some DependenciesMismatch else None)"

text \<open>A harness is the text of its variant, \<^verbatim>\<open>codex_cli\<close> or \<^verbatim>\<open>claude_code\<close>.\<close>

fun as_str :: "json \<Rightarrow> string option" where
  "as_str (JString s) = Some s"
| "as_str _ = None"

definition selection_harness :: "json \<Rightarrow> string" where
  "selection_harness v =
    (case as_str (json_index (json_index v ''after_selection'') ''harness'') of Some h \<Rightarrow> h | None \<Rightarrow> [])"

definition selection_revision :: "string \<Rightarrow> string \<Rightarrow> 'x store \<Rightarrow> u64" where
  "selection_revision ws h st = (case ct_selections st (ws, h) of None \<Rightarrow> 0 | Some r \<Rightarrow> sr_revision r)"

text \<open>The revision check of the admitting transaction; \<open>None\<close> lets the operation through.\<close>

definition admission_revisions :: "'x store_env \<Rightarrow> operation \<Rightarrow> 'x store \<Rightarrow> port_error + revision_mismatch option" where
  "admission_revisions E o1 st =
    (case tp_worker_selection (op_plan_of o1) of
       Some v \<Rightarrow>
         (let current = selection_revision (oi_workspace_id o1) (selection_harness v) st
          in Inr (if current \<noteq> rv_target (oi_expected_revisions o1)
                     \<or> Some current \<noteq> as_u64 (json_index v ''before_revision'') then Some TargetMismatch
                  else if rv_dependencies (oi_expected_revisions o1) \<noteq> [] then Some DependenciesMismatch else None))
     | None \<Rightarrow> Inr (compare_revisions (oi_expected_revisions o1) (current_revisions (oi_workspace_id o1) st)))"

datatype begin_outcome = Created | ExistingSame operation | ExistingDifferent | RevisionChanged revision_mismatch

definition consume_capability ::
  "int \<Rightarrow> operation \<Rightarrow> authorization option \<Rightarrow> 'x store \<Rightarrow> port_error + 'x store" where
  "consume_capability now o1 auth st =
    (case auth of
       None \<Rightarrow> Inr st
     | Some a \<Rightarrow>
         (case ct_capabilities st (au_capability a) of
            None \<Rightarrow> perr PermissionDenied ''control.capability.consumed''
          | Some c \<Rightarrow>
              if \<not> capability_usable now a c then perr PermissionDenied ''control.capability.consumed''
              else Inr (st\<lparr>ct_capabilities := (ct_capabilities st)
                (au_capability a \<mapsto> c\<lparr>cp_consumed := Some (oi_operation_id o1)\<rparr>)\<rparr>)))"

text \<open>The row of an admitted operation, which is at generation 0.\<close>

definition new_row :: "nat \<Rightarrow> operation \<Rightarrow> string \<Rightarrow> op_row" where
  "new_row now o1 pj =
    \<lparr>oi_schema_version = oi_schema_version o1, oi_operation_id = oi_operation_id o1,
     oi_workspace_id = oi_workspace_id o1, oi_idempotency = oi_idempotency o1,
     oi_request_digest = oi_request_digest o1, oi_accepted_digest = oi_accepted_digest o1,
     oi_expected_revisions = oi_expected_revisions o1, or_plan = op_plan_of o1, or_plan_json = pj,
     or_state = op_state_of o1, or_generation = 0, or_steps = op_steps o1, or_error_code = op_error_code o1,
     or_created = now\<rparr>"

definition admit ::
  "'x store_env \<Rightarrow> int \<Rightarrow> operation \<Rightarrow> authorization option \<Rightarrow> 'x store \<Rightarrow> port_error + (begin_outcome \<times> 'x store)" where
  "admit E now o1 auth st =
    (if (case auth of None \<Rightarrow> False | Some a \<Rightarrow> \<not> matches_operation E o1 a \<or> au_scope a \<noteq> ''apply:one-shot'')
     then perr PermissionDenied ''control.capability.binding''
     else if ct_claim st \<noteq> None then perr Conflict ''control.writer.claim''
     else
       and_then (consume_capability now o1 auth (st\<lparr>ct_claim := Some (oi_operation_id o1)\<rparr>)) (\<lambda>st1.
       and_then (map_err InvalidData ''control.operation.encode'' (oe_plan_json (se_ops E) (op_plan_of o1))) (\<lambda>pj.
       if find_row (oi_operation_id o1) st1 \<noteq> None then perr Conflict ''control.operation.insert''
       else
         let st2 = store_steps (oi_operation_id o1) (op_steps o1)
                     (st1\<lparr>ct_rows := ct_rows st1 @ [new_row (nat now) o1 pj]\<rparr>)
         in and_then (se_begin E o1 (ct_ext st2)) (\<lambda>x. Inr (Created, st2\<lparr>ct_ext := x\<rparr>)))))"

definition begin_operation_admitted ::
  "'x store_env \<Rightarrow> port_error option \<Rightarrow> int \<Rightarrow> operation \<Rightarrow> authorization option \<Rightarrow> ('x, begin_outcome) store_op" where
  "begin_operation_admitted E fault now o1 auth =
    in_transaction fault (\<lambda>st.
      and_then (operation_for_idempotency E (oi_workspace_id o1) (oi_idempotency o1) st) (\<lambda>found.
      case found of
        Some existing \<Rightarrow>
          Inr (if oi_accepted_digest existing = oi_accepted_digest o1 then ExistingSame existing
               else ExistingDifferent, st)
      | None \<Rightarrow>
          and_then (admission_revisions E o1 st) (\<lambda>mismatch.
          case mismatch of
            Some m \<Rightarrow> Inr (RevisionChanged m, st)
          | None \<Rightarrow> admit E now o1 auth st)))"

definition begin_operation ::
  "'x store_env \<Rightarrow> port_error option \<Rightarrow> int \<Rightarrow> operation \<Rightarrow> authorization \<Rightarrow> ('x, begin_outcome) store_op" where
  "begin_operation E fault now o1 a = begin_operation_admitted E fault now o1 (Some a)"

definition begin_local_operation ::
  "'x store_env \<Rightarrow> port_error option \<Rightarrow> int \<Rightarrow> operation \<Rightarrow> ('x, begin_outcome) store_op" where
  "begin_local_operation E fault now o1 =
    (if is_principal (oi_idempotency o1) \<noteq> ''interactive-user''
     then (\<lambda>st. (perr PermissionDenied ''control.local_operation.denied'', st))
     else begin_operation_admitted E fault now o1 None)"

end
