(* ===== verification/Control_Effects.thy ===== *)
theory Control_Effects
  imports Control_Store
begin

text \<open>
  The staged effects of the control store (\<^verbatim>\<open>local-storage/src/control/{mod,worker_dependencies}.rs\<close>):
  an operation stages a new state of its workspace, or a new dependency selection of a worker
  harness; activation makes it visible and compensation restores what was visible before. Each call
  is one transaction.
\<close>

section \<open>Identifiers\<close>

definition digest_parse :: "string \<Rightarrow> digest option" where
  "digest_parse s =
    (if length s = 71 \<and> starts_with s ''sha256:'' \<and> list_all hexdigit (drop 7 s)
     then Some (to_ascii_lowercase s) else None)"

definition workspace_parse :: "string \<Rightarrow> string option" where
  "workspace_parse s =
    (if s \<noteq> [] \<and> length s \<le> 128 \<and> list_all (\<lambda>c. ascii_alnum c \<or> c \<in> set ''/._-'') s
        \<and> \<not> starts_with s ''/'' \<and> last s \<noteq> CHR ''/'' \<and> \<not> contains s ''//''
     then Some s else None)"

section \<open>Worker selections\<close>

definition harness_ok :: "string \<Rightarrow> bool" where
  "harness_ok h \<longleftrightarrow> h = ''codex_cli'' \<or> h = ''claude_code''"

definition parse_harness :: "string \<Rightarrow> port_error + string" where
  "parse_harness h = (if harness_ok h then Inr h else perr Corrupt ''control.worker_dependency.harness'')"

definition selection_schema :: string where
  "selection_schema = ''hiroute.worker-dependency-selection-compensation/v1''"

definition compensation_json :: "string \<Rightarrow> string \<Rightarrow> u64 \<Rightarrow> json" where
  "compensation_json schema i gen =
    JObject [(''schema'', JString schema), (''operation_id'', JString i), (''after_revision'', JNumber (PosInt gen))]"

definition selection_effect ::
  "'x store_env \<Rightarrow> string \<Rightarrow> string \<Rightarrow> string \<Rightarrow> string option \<Rightarrow> string \<Rightarrow> u64 \<Rightarrow> owned_effect" where
  "selection_effect E i ws h before after gen =
    \<lparr>ef_id = ''worker-dependency-selection:'' @ h, ef_kind = Control,
     ef_target = ws @ ''/worker-dependency-selection/'' @ h, ef_before = map_option (se_sha E) before,
     ef_after = Some (se_sha E after), ef_compensation = compensation_json selection_schema i gen\<rparr>"

definition worker_effect_operation :: "owned_effect \<Rightarrow> port_error + string option" where
  "worker_effect_operation e =
    (if as_str (json_index (ef_compensation e) ''schema'') \<noteq> Some selection_schema then Inr None
     else if ef_kind e \<noteq> Control then perr InvalidData ''control.worker_dependency.effect.kind''
     else and_then (option_err InvalidData ''control.worker_dependency.effect.operation''
       (as_str (json_index (ef_compensation e) ''operation_id''))) (\<lambda>i. Inr (Some i)))"

definition selection_matches_before :: "selection_row option \<Rightarrow> selection_effect_row \<Rightarrow> bool" where
  "selection_matches_before current r =
    (case (current, sx_before_json r) of
       (None, None) \<Rightarrow> sx_before_revision r = 0 \<and> sx_before_owner r = None
     | (Some c, Some j) \<Rightarrow>
         sr_revision c = sx_before_revision r \<and> sr_json c = j \<and> Some (sr_owner c) = sx_before_owner r
     | _ \<Rightarrow> False)"

definition selection_owned :: "string \<Rightarrow> selection_effect_row \<Rightarrow> selection_row option \<Rightarrow> bool" where
  "selection_owned i r current =
    (case current of
       None \<Rightarrow> False
     | Some c \<Rightarrow> sr_revision c = sx_after_revision r \<and> sr_json c = sx_after_json r \<and> sr_owner c = i)"

definition observe_selection ::
  "'x store_env \<Rightarrow> string \<Rightarrow> string \<Rightarrow> 'x store \<Rightarrow> port_error + reconciliation option" where
  "observe_selection E i ws st =
    (case ct_selection_effects st i of
       None \<Rightarrow> Inr None
     | Some r \<Rightarrow>
         if sx_workspace r \<noteq> ws then perr Corrupt ''control.worker_dependency.effect.workspace''
         else
           and_then (parse_harness (sx_harness r)) (\<lambda>h.
           and_then (se_selection_decode E (sx_after_json r) h) (\<lambda>_.
           and_then (case sx_before_json r of
               Some j \<Rightarrow> and_then (se_selection_decode E j h) (\<lambda>_. Inr ())
             | None \<Rightarrow>
                 if sx_before_revision r \<noteq> 0 \<or> sx_before_owner r \<noteq> None
                 then perr Corrupt ''control.worker_dependency.effect.before'' else Inr ()) (\<lambda>_.
           let e = selection_effect E i ws h (sx_before_json r) (sx_after_json r) (sx_after_revision r)
           in Inr (Some (if sx_compensated r then Missing
                else if \<not> sx_activated r then StagedEffect e
                else if selection_owned i r (ct_selections st (ws, h)) then AppliedEffect e else OwnershipLost e))))))"

text \<open>What a call answers for an effect that exists already.\<close>

definition existing_effect :: "string \<Rightarrow> string \<Rightarrow> reconciliation \<Rightarrow> port_error + owned_effect" where
  "existing_effect compensated lost r =
    (case r of
       StagedEffect e \<Rightarrow> Inr e
     | AppliedEffect e \<Rightarrow> Inr e
     | Missing \<Rightarrow> perr Conflict compensated
     | OwnershipLost _ \<Rightarrow> perr Conflict lost)"

text \<open>
  The rows of the selection effects are unique in workspace, harness and revision, and are never
  deleted; \<open>ct_selection_index\<close> is that index.
\<close>

definition stage_selection ::
  "'x store_env \<Rightarrow> port_error option \<Rightarrow> string \<Rightarrow> string \<Rightarrow> json \<Rightarrow> ('x, owned_effect) store_op" where
  "stage_selection E fault i ws change =
    in_transaction fault (\<lambda>st.
      and_then (observe_selection E i ws st) (\<lambda>found.
      case found of
        Some r \<Rightarrow>
          and_then (existing_effect ''control.worker_dependency.effect.compensated''
            ''control.worker_dependency.effect.ownership'' r) (\<lambda>e. Inr (e, st))
      | None \<Rightarrow>
          and_then (option_err InvalidData ''control.worker_dependency.revision_overflow''
            (Option.bind (as_u64 (json_index change ''before_revision'')) (\<lambda>n. checked_add n 1))) (\<lambda>gen.
          let h = selection_harness change
          in and_then (option_err InvalidData ''control.worker_dependency.encode''
               (se_selection_encode E (json_index change ''after_selection''))) (\<lambda>after.
             let current = ct_selections st (ws, h)
             in if Some (selection_revision ws h st) \<noteq> as_u64 (json_index change ''before_revision'')
                then perr Conflict ''control.worker_dependency.selection_stale''
                else if ct_selection_index st (ws, h, gen)
                then perr Unavailable ''control.worker_dependency.effect.write''
                else Inr (selection_effect E i ws h (map_option sr_json current) after gen,
                  st\<lparr>ct_selection_effects := (ct_selection_effects st)(i \<mapsto>
                    \<lparr>sx_workspace = ws, sx_harness = h, sx_before_revision = selection_revision ws h st,
                     sx_before_json = map_option sr_json current, sx_before_owner = map_option sr_owner current,
                     sx_after_revision = gen, sx_after_json = after, sx_activated = False, sx_compensated = False\<rparr>),
                    ct_selection_index := (ct_selection_index st)((ws, h, gen) := True)\<rparr>)))))"

definition activate_selection ::
  "'x store_env \<Rightarrow> owned_effect \<Rightarrow> string \<Rightarrow> 'x store \<Rightarrow> port_error + (owned_effect \<times> 'x store)" where
  "activate_selection E e i st =
    and_then (map_err InvalidData ''control.worker_dependency.activate.operation'' (operation_id_parse i)) (\<lambda>i.
    and_then (option_err NotFound ''control.worker_dependency.activate.effect'' (ct_selection_effects st i)) (\<lambda>r.
    if sx_compensated r then perr Conflict ''control.worker_dependency.activate.compensated''
    else if sx_activated r then Inr (e, st)
    else
      and_then (option_err Corrupt ''control.worker_dependency.activate.workspace'' (workspace_parse (sx_workspace r))) (\<lambda>ws.
      and_then (parse_harness (sx_harness r)) (\<lambda>h.
      if \<not> selection_matches_before (ct_selections st (ws, h)) r
      then perr Conflict ''control.worker_dependency.activate.selection_stale''
      else
        and_then (se_selection_decode E (sx_after_json r) h) (\<lambda>canonical.
        if canonical \<noteq> sx_after_json r then perr Corrupt ''control.worker_dependency.activate.canonical''
        else Inr (e, st\<lparr>ct_selections := (ct_selections st)((ws, h) \<mapsto>
            \<lparr>sr_revision = sx_after_revision r, sr_json = sx_after_json r, sr_owner = i\<rparr>),
          ct_selection_effects := (ct_selection_effects st)(i \<mapsto> r\<lparr>sx_activated := True\<rparr>)\<rparr>))))))"

definition compensate_selection ::
  "'x store_env \<Rightarrow> string \<Rightarrow> 'x store \<Rightarrow> port_error + (compensation \<times> 'x store)" where
  "compensate_selection E i st =
    and_then (map_err InvalidData ''control.worker_dependency.compensate.operation'' (operation_id_parse i)) (\<lambda>i.
    and_then (option_err NotFound ''control.worker_dependency.compensate.effect'' (ct_selection_effects st i)) (\<lambda>r.
    let undone = (ct_selection_effects st)(i \<mapsto> r\<lparr>sx_compensated := True\<rparr>)
    in if sx_compensated r then Inr (AlreadyCompensated, st)
       else if \<not> sx_activated r then Inr (CompensatedNow, st\<lparr>ct_selection_effects := undone\<rparr>)
       else
         and_then (option_err Corrupt ''control.worker_dependency.compensate.workspace'' (workspace_parse (sx_workspace r))) (\<lambda>ws.
         and_then (parse_harness (sx_harness r)) (\<lambda>h.
         if \<not> selection_owned i r (ct_selections st (ws, h)) then Inr (CompensationLost, st)
         else
           and_then (case sx_before_json r of
               Some j \<Rightarrow>
                 and_then (se_selection_decode E j h) (\<lambda>before.
                 and_then (option_err Corrupt ''control.worker_dependency.compensate.before_owner'' (sx_before_owner r))
                   (\<lambda>owner. Inr (Some \<lparr>sr_revision = sx_before_revision r, sr_json = before, sr_owner = owner\<rparr>)))
             | None \<Rightarrow> Inr None) (\<lambda>row.
           Inr (CompensatedNow, st\<lparr>ct_selections := (ct_selections st)((ws, h) := row),
             ct_selection_effects := undone\<rparr>))))))"

section \<open>Workspace states\<close>

definition control_effect :: "string \<Rightarrow> string \<Rightarrow> digest option \<Rightarrow> digest \<Rightarrow> u64 \<Rightarrow> owned_effect" where
  "control_effect i ws before after gen =
    \<lparr>ef_id = ''control:'' @ ws, ef_kind = Control, ef_target = ws, ef_before = before, ef_after = Some after,
     ef_compensation = compensation_json ''hiroute.control-compensation/v1'' i gen\<rparr>"

definition read_control_head :: "string \<Rightarrow> 'x store \<Rightarrow> u64" where
  "read_control_head ws st = (case ct_heads st ws of None \<Rightarrow> 0 | Some n \<Rightarrow> n)"

definition workspace_owned :: "string \<Rightarrow> control_effect_row \<Rightarrow> workspace_row option \<Rightarrow> bool" where
  "workspace_owned i r current =
    (case current of
       None \<Rightarrow> False
     | Some w \<Rightarrow> wr_revision w = ce_after_revision r \<and> wr_digest w = ce_after_digest r \<and> wr_owner w = Some i)"

definition pool_owned :: "'x store_env \<Rightarrow> control_effect_row \<Rightarrow> 'x \<Rightarrow> port_error + bool" where
  "pool_owned E r x =
    (case (ce_pool_id r, ce_pool_after r) of
       (None, None) \<Rightarrow> Inr True
     | (Some p, Some after) \<Rightarrow> Inr (map_option fst (cm_pool_row (se_compute E) p x) = Some after)
     | _ \<Rightarrow> perr Corrupt ''control.effect.pool_stage'')"

definition source_owned :: "'x store_env \<Rightarrow> control_effect_row \<Rightarrow> 'x \<Rightarrow> port_error + bool" where
  "source_owned E r x =
    (case (ce_source_id r, ce_source_after r) of
       (None, None) \<Rightarrow> Inr True
     | (Some s, Some after) \<Rightarrow>
         if cm_is_projection (se_compute E) after then cm_projection_current (se_compute E) s after x
         else Inr (cm_source_row (se_compute E) s x = Some after)
     | _ \<Rightarrow> perr Corrupt ''control.effect.source_stage'')"

definition observe_control ::
  "'x store_env \<Rightarrow> string \<Rightarrow> string \<Rightarrow> 'x store \<Rightarrow> port_error + reconciliation" where
  "observe_control E i ws st =
    and_then (observe_selection E i ws st) (\<lambda>selection.
    case selection of
      Some r \<Rightarrow> Inr r
    | None \<Rightarrow>
        (case ct_effects st i of
           None \<Rightarrow> Inr Missing
         | Some r \<Rightarrow>
             if ce_workspace r \<noteq> ws \<or> ce_compensated r then Inr Missing
             else
               and_then (option_err Corrupt ''control.effect.digest'' (digest_parse (ce_after_digest r))) (\<lambda>after.
               let owned = control_effect i ws (Option.bind (ce_before_digest r) digest_parse) after (ce_after_revision r)
               in if \<not> ce_activated r then
                    and_then (option_err Corrupt ''control.effect.stage'' (ce_staged_json r)) (\<lambda>j.
                    and_then (option_err Corrupt ''control.effect.stage'' (se_stage_value E j)) (\<lambda>v.
                    and_then (option_err Corrupt ''control.effect.stage_digest'' (se_digest E v)) (\<lambda>d.
                    if d \<noteq> ce_after_digest r then perr Corrupt ''control.effect.stage_digest''
                    else Inr (StagedEffect owned))))
                  else
                    and_then (pool_owned E r (ct_ext st)) (\<lambda>pool.
                    and_then (source_owned E r (ct_ext st)) (\<lambda>source.
                    and_then (cm_current (se_compute E) ws (ce_staged_json r) i (ct_ext st)) (\<lambda>management.
                    Inr (if workspace_owned i r (ct_workspaces st ws) \<and> pool \<and> source \<and> management
                         then AppliedEffect owned else OwnershipLost owned)))))))"

text \<open>The row of a staged effect, over the state the workspace has.\<close>

definition staged_row :: "string \<Rightarrow> 'x store \<Rightarrow> u64 \<Rightarrow> digest \<Rightarrow> string \<Rightarrow> control_effect_row" where
  "staged_row ws st gen after j =
    (let before = ct_workspaces st ws
     in \<lparr>ce_workspace = ws, ce_before_exists = (before \<noteq> None), ce_before_json = map_option wr_json before,
         ce_before_revision = read_control_head ws st, ce_before_digest = map_option wr_digest before,
         ce_before_owner = Option.bind before wr_owner, ce_after_revision = gen, ce_after_digest = after,
         ce_compensated = False, ce_staged_json = Some j, ce_activated = False,
         ce_pool_id = None, ce_pool_expected = None, ce_pool_before = None, ce_pool_after = None,
         ce_source_id = None, ce_source_expected = None, ce_source_before = None, ce_source_after = None\<rparr>)"

definition staged_effect_of :: "string \<Rightarrow> string \<Rightarrow> 'x store \<Rightarrow> digest \<Rightarrow> u64 \<Rightarrow> owned_effect" where
  "staged_effect_of i ws st after gen =
    control_effect i ws (Option.bind (map_option wr_digest (ct_workspaces st ws)) digest_parse) after gen"

definition apply_control_state ::
  "'x store_env \<Rightarrow> port_error option \<Rightarrow> string \<Rightarrow> string \<Rightarrow> u64 \<Rightarrow> json \<Rightarrow> ('x, owned_effect) store_op" where
  "apply_control_state E fault i ws expected desired =
    in_transaction fault (\<lambda>st.
      if ct_effects st i \<noteq> None then
        and_then (observe_control E i ws st) (\<lambda>r.
        and_then (existing_effect ''control.effect.compensated'' ''control.effect.ownership'' r) (\<lambda>e. Inr (e, st)))
      else if read_control_head ws st \<noteq> expected then perr Conflict ''control.effect.revision''
      else
        and_then (cm_stage (se_compute E) ws i desired (ct_ext st)) (\<lambda>x.
        and_then (option_err InvalidData ''control.effect.encode'' (se_stage_encode E desired)) (\<lambda>j.
        and_then (option_err InvalidData ''control.effect.digest'' (se_digest E desired)) (\<lambda>after.
        and_then (option_err Conflict ''control.effect.revision_overflow'' (checked_add expected 1)) (\<lambda>gen.
        Inr (staged_effect_of i ws st after gen,
          st\<lparr>ct_ext := x, ct_effects := (ct_effects st)(i \<mapsto> staged_row ws st gen after j)\<rparr>))))))"

text \<open>A staged credential pool or compute source is a workspace effect with the row it will write.\<close>

definition stage_compute ::
  "'x store_env \<Rightarrow> string \<Rightarrow> string \<Rightarrow> string \<Rightarrow> u64 \<Rightarrow> ('x \<Rightarrow> port_error + staged_compute)
   \<Rightarrow> (staged_compute \<Rightarrow> control_effect_row \<Rightarrow> control_effect_row) \<Rightarrow> 'x store
   \<Rightarrow> port_error + (owned_effect \<times> 'x store)" where
  "stage_compute E ctx i ws expected stage put st =
    (if ct_effects st i \<noteq> None then
       and_then (observe_control E i ws st) (\<lambda>r.
       and_then (existing_effect (ctx @ ''.compensated'') (ctx @ ''.ownership'') r) (\<lambda>e. Inr (e, st)))
     else
       and_then (stage (ct_ext st)) (\<lambda>s.
       if read_control_head ws st \<noteq> expected then perr Conflict (ctx @ ''.target_revision'')
       else
         and_then (option_err InvalidData (ctx @ ''.encode'') (se_stage_encode E (sc_control s))) (\<lambda>j.
         and_then (option_err InvalidData (ctx @ ''.digest'') (se_digest E (sc_control s))) (\<lambda>after.
         and_then (option_err Conflict (ctx @ ''.target_overflow'') (checked_add expected 1)) (\<lambda>gen.
         Inr (staged_effect_of i ws st after gen,
           st\<lparr>ct_effects := (ct_effects st)(i \<mapsto> put s (staged_row ws st gen after j))\<rparr>))))))"

definition put_pool :: "staged_compute \<Rightarrow> control_effect_row \<Rightarrow> control_effect_row" where
  "put_pool s r = r\<lparr>ce_pool_id := Some (sc_id s), ce_pool_expected := Some (sc_expected s),
     ce_pool_before := sc_before s, ce_pool_after := Some (sc_after s)\<rparr>"

definition put_source :: "staged_compute \<Rightarrow> control_effect_row \<Rightarrow> control_effect_row" where
  "put_source s r = r\<lparr>ce_source_id := Some (sc_id s), ce_source_expected := Some (sc_expected s),
     ce_source_before := sc_before s, ce_source_after := Some (sc_after s)\<rparr>"

definition apply_credential_pool ::
  "'x store_env \<Rightarrow> port_error option \<Rightarrow> string \<Rightarrow> string \<Rightarrow> u64 \<Rightarrow> json \<Rightarrow> ('x, owned_effect) store_op" where
  "apply_credential_pool E fault i ws expected mutation =
    in_transaction fault
      (stage_compute E ''compute.pool.effect'' i ws expected (cm_pool_stage (se_compute E) mutation) put_pool)"

definition apply_compute_source ::
  "'x store_env \<Rightarrow> port_error option \<Rightarrow> string \<Rightarrow> string \<Rightarrow> u64 \<Rightarrow> json \<Rightarrow> ('x, owned_effect) store_op" where
  "apply_compute_source E fault i ws expected mutation =
    in_transaction fault
      (stage_compute E ''compute.source.effect'' i ws expected (cm_source_stage (se_compute E) i mutation) put_source)"

section \<open>Activation\<close>

definition activate_pool :: "'x store_env \<Rightarrow> control_effect_row \<Rightarrow> 'x \<Rightarrow> port_error + 'x" where
  "activate_pool E r x =
    (case (ce_pool_id r, ce_pool_expected r, ce_pool_after r) of
       (None, None, None) \<Rightarrow> Inr x
     | (Some p, Some expected, Some after) \<Rightarrow>
         and_then (option_err Corrupt ''control.activate.pool_stage'' (cm_pool_parse (se_compute E) after)) (\<lambda>(q, gen).
         if (case cm_pool_row (se_compute E) p x of None \<Rightarrow> 0 | Some row \<Rightarrow> snd row) \<noteq> expected
            \<or> q \<noteq> p \<or> gen \<noteq> saturating_add expected 1
         then perr Conflict ''control.activate.pool_cas''
         else cm_pool_write (se_compute E) after x)
     | _ \<Rightarrow> perr Corrupt ''control.activate.pool_metadata'')"

definition activate_source :: "'x store_env \<Rightarrow> control_effect_row \<Rightarrow> 'x \<Rightarrow> port_error + 'x" where
  "activate_source E r x =
    (case (ce_source_id r, ce_source_expected r, ce_source_before r, ce_source_after r) of
       (None, None, None, None) \<Rightarrow> Inr x
     | (Some s, Some expected, before, Some after) \<Rightarrow>
         if cm_is_projection (se_compute E) after
         then cm_projection_activate (se_compute E) s expected before after x
         else if cm_source_row (se_compute E) s x \<noteq> before then perr Conflict ''control.activate.source_cas''
         else
           and_then (option_err Corrupt ''control.activate.source_stage'' (cm_source_parse (se_compute E) after)) (\<lambda>(q, gen).
           and_then (option_err Conflict ''control.activate.source_revision_overflow'' (checked_add expected 1)) (\<lambda>desired.
           if q \<noteq> s \<or> gen \<noteq> desired then perr Conflict ''control.activate.source_cas''
           else cm_source_write (se_compute E) after x))
     | _ \<Rightarrow> perr Corrupt ''control.activate.source_metadata'')"

definition both_computes :: "control_effect_row \<Rightarrow> bool" where
  "both_computes r \<longleftrightarrow> ce_pool_id r \<noteq> None \<and> ce_source_id r \<noteq> None"

definition effect_operation :: "string \<Rightarrow> owned_effect \<Rightarrow> port_error + string" where
  "effect_operation ctx e = option_err InvalidData ctx (as_str (json_index (ef_compensation e) ''operation_id''))"

definition activate_workspace ::
  "'x store_env \<Rightarrow> owned_effect \<Rightarrow> string \<Rightarrow> 'x store \<Rightarrow> port_error + (owned_effect \<times> 'x store)" where
  "activate_workspace E e i st =
    and_then (option_err NotFound ''control.activate.effect'' (ct_effects st i)) (\<lambda>r.
    if ce_compensated r then perr Conflict ''control.activate.compensated''
    else if ce_activated r then Inr (e, st)
    else
      and_then (option_err Corrupt ''control.activate.workspace'' (workspace_parse (ce_workspace r))) (\<lambda>ws.
      if read_control_head ws st \<noteq> ce_before_revision r then perr Conflict ''control.activate.revision''
      else
        and_then (option_err Corrupt ''control.activate.stage'' (ce_staged_json r)) (\<lambda>j.
        and_then (activate_pool E r (ct_ext st)) (\<lambda>x1.
        if both_computes r then perr Corrupt ''control.activate.compute_metadata''
        else
          and_then (activate_source E r x1) (\<lambda>x2.
          and_then (cm_activate (se_compute E) ws j i x2) (\<lambda>x3.
          and_then (cm_price_activate (se_compute E) ws j x3) (\<lambda>x4.
          Inr (e, st\<lparr>ct_ext := x4,
            ct_workspaces := (ct_workspaces st)(ws \<mapsto> \<lparr>wr_json = j, wr_revision = ce_after_revision r,
              wr_digest = ce_after_digest r, wr_owner = Some i\<rparr>),
            ct_heads := (ct_heads st)(ws \<mapsto> ce_after_revision r),
            ct_effects := (ct_effects st)(i \<mapsto> r\<lparr>ce_activated := True\<rparr>)\<rparr>))))))))"

definition activate_control :: "'x store_env \<Rightarrow> port_error option \<Rightarrow> owned_effect \<Rightarrow> ('x, owned_effect) store_op" where
  "activate_control E fault e =
    in_transaction fault (\<lambda>st.
      and_then (worker_effect_operation e) (\<lambda>worker.
      case worker of
        Some i \<Rightarrow> activate_selection E e i st
      | None \<Rightarrow>
          if ef_kind e \<noteq> Control then perr InvalidData ''control.activate.kind''
          else and_then (effect_operation ''control.activate.metadata'' e) (\<lambda>i. activate_workspace E e i st)))"

section \<open>Compensation\<close>

text \<open>A part that is not owned any more answers \<open>None\<close>.\<close>

definition compensate_pool :: "'x store_env \<Rightarrow> control_effect_row \<Rightarrow> 'x \<Rightarrow> port_error + 'x option" where
  "compensate_pool E r x =
    (case (ce_pool_id r, ce_pool_before r, ce_pool_after r) of
       (None, None, None) \<Rightarrow> Inr (Some x)
     | (Some p, before, Some after) \<Rightarrow>
         if map_option fst (cm_pool_row (se_compute E) p x) \<noteq> Some after then Inr None
         else (case before of
           Some j \<Rightarrow>
             and_then (option_err Corrupt ''control.compensate.pool_before'' (cm_pool_parse (se_compute E) j)) (\<lambda>(q, _).
             if q \<noteq> p then perr Corrupt ''control.compensate.pool_identity''
             else and_then (cm_pool_write (se_compute E) j x) (\<lambda>x1. Inr (Some x1)))
         | None \<Rightarrow> Inr (Some (cm_pool_delete (se_compute E) p x)))
     | _ \<Rightarrow> perr Corrupt ''control.compensate.pool_metadata'')"

definition owned_or_lost :: "port_error + (bool \<times> 'x) \<Rightarrow> port_error + 'x option" where
  "owned_or_lost r = and_then r (\<lambda>(owned, x). Inr (if owned then Some x else None))"

definition compensate_source :: "'x store_env \<Rightarrow> control_effect_row \<Rightarrow> 'x \<Rightarrow> port_error + 'x option" where
  "compensate_source E r x =
    (case (ce_source_id r, ce_source_before r, ce_source_after r) of
       (None, None, None) \<Rightarrow> Inr (Some x)
     | (Some s, before, Some after) \<Rightarrow>
         if cm_is_projection (se_compute E) after
         then owned_or_lost (cm_projection_compensate (se_compute E) s before after x)
         else if cm_source_row (se_compute E) s x \<noteq> Some after then Inr None
         else (case before of
           Some j \<Rightarrow>
             and_then (option_err Corrupt ''control.compensate.source_before'' (cm_source_parse (se_compute E) j)) (\<lambda>(q, _).
             if q \<noteq> s then perr Corrupt ''control.compensate.source_identity''
             else and_then (cm_source_write (se_compute E) j x) (\<lambda>x1. Inr (Some x1)))
         | None \<Rightarrow> Inr (Some (cm_source_delete (se_compute E) s x)))
     | _ \<Rightarrow> perr Corrupt ''control.compensate.source_metadata'')"

text \<open>The component tables, each checked before the next; one that is not owned stops it.\<close>

definition compensate_tables ::
  "'x store_env \<Rightarrow> control_effect_row \<Rightarrow> string \<Rightarrow> string \<Rightarrow> 'x \<Rightarrow> port_error + 'x option" where
  "compensate_tables E r ws i x =
    and_then (owned_or_lost (cm_compensate (se_compute E) ws i x)) (\<lambda>m.
    case m of None \<Rightarrow> Inr None
    | Some x1 \<Rightarrow>
        and_then (owned_or_lost (cm_price_compensate (se_compute E) i x1)) (\<lambda>m.
        case m of None \<Rightarrow> Inr None
        | Some x2 \<Rightarrow>
            and_then (compensate_pool E r x2) (\<lambda>m.
            case m of None \<Rightarrow> Inr None
            | Some x3 \<Rightarrow>
                if both_computes r then perr Corrupt ''control.compensate.compute_metadata''
                else compensate_source E r x3)))"

definition restored_workspace ::
  "string \<Rightarrow> control_effect_row \<Rightarrow> u64 \<Rightarrow> port_error + workspace_row option" where
  "restored_workspace i r gen =
    (if \<not> ce_before_exists r then Inr None
     else case (ce_before_json r, ce_before_digest r) of
       (Some j, Some d) \<Rightarrow> Inr (Some \<lparr>wr_json = j, wr_revision = gen, wr_digest = d, wr_owner = Some i\<rparr>)
     | _ \<Rightarrow> perr Unavailable ''control.compensate.restore'')"

definition compensate_workspace ::
  "'x store_env \<Rightarrow> string \<Rightarrow> 'x store \<Rightarrow> port_error + (compensation \<times> 'x store)" where
  "compensate_workspace E i st =
    and_then (option_err NotFound ''control.compensate.effect'' (ct_effects st i)) (\<lambda>r.
    let undone = (ct_effects st)(i \<mapsto> r\<lparr>ce_compensated := True\<rparr>)
    in if ce_compensated r then Inr (AlreadyCompensated, st)
       else if \<not> ce_activated r then Inr (CompensatedNow, st\<lparr>ct_effects := undone\<rparr>)
       else if \<not> workspace_owned i r (ct_workspaces st (ce_workspace r)) then Inr (CompensationLost, st)
       else
         and_then (option_err Corrupt ''control.compensate.workspace'' (workspace_parse (ce_workspace r))) (\<lambda>ws.
         and_then (compensate_tables E r ws i (ct_ext st)) (\<lambda>m.
         case m of
           None \<Rightarrow> Inr (CompensationLost, st)
         | Some x \<Rightarrow>
             and_then (option_err Conflict ''control.compensate.revision_overflow'' (checked_add (ce_after_revision r) 1)) (\<lambda>gen.
             and_then (restored_workspace i r gen) (\<lambda>row.
             Inr (CompensatedNow, st\<lparr>ct_ext := x, ct_workspaces := (ct_workspaces st)(ws := row),
               ct_heads := (ct_heads st)(ws \<mapsto> gen), ct_effects := undone\<rparr>))))))"

definition compensate_control :: "'x store_env \<Rightarrow> port_error option \<Rightarrow> owned_effect \<Rightarrow> ('x, compensation) store_op" where
  "compensate_control E fault e =
    in_transaction fault (\<lambda>st.
      and_then (worker_effect_operation e) (\<lambda>worker.
      case worker of
        Some i \<Rightarrow> compensate_selection E i st
      | None \<Rightarrow>
          if ef_kind e \<noteq> Control then perr InvalidData ''control.compensate.kind''
          else and_then (effect_operation ''control.compensate.metadata'' e) (\<lambda>i. compensate_workspace E i st)))"

section \<open>What an effect leaves alone\<close>

text \<open>The tables of the operations: no effect touches them.\<close>

definition journal_tables ::
  "'x store \<Rightarrow> op_row list \<times> (string \<times> op_step) list \<times> string option \<times> (digest \<Rightarrow> capability_row option)" where
  "journal_tables st = (ct_rows st, ct_step_rows st, ct_claim st, ct_capabilities st)"

lemma transaction_cases:
  "snd (in_transaction fault body st) = st \<or> (\<exists>x. body st = Inr (x, snd (in_transaction fault body st)))"
  by (auto simp: in_transaction_def split: sum.splits option.splits)

text \<open>A transaction's state is the old one, or the one its body leaves.\<close>

lemma transaction_state:
  assumes "\<And>x st'. body st = Inr (x, st') \<Longrightarrow> Q st'" "Q st"
  shows "Q (snd (in_transaction fault body st))"
  using transaction_cases[of fault body st] assms by metis

lemma transaction_keeps:
  assumes "\<And>x st'. body st = Inr (x, st') \<Longrightarrow> f st' = f st"
  shows "f (snd (in_transaction fault body st)) = f st"
  by (rule transaction_state) (simp_all add: assms)

lemma stagings_keep_journal [simp]:
  "journal_tables (snd (apply_control_state E fault i ws n v st)) = journal_tables st"
  "journal_tables (snd (apply_credential_pool E fault i ws n v st)) = journal_tables st"
  "journal_tables (snd (apply_compute_source E fault i ws n v st)) = journal_tables st"
  "journal_tables (snd (stage_selection E fault i ws v st)) = journal_tables st"
  unfolding apply_control_state_def apply_credential_pool_def apply_compute_source_def stage_selection_def stage_compute_def
  by (rule transaction_keeps; auto simp: and_then_Inr journal_tables_def Let_def split: if_splits option.splits)+

lemma activate_workspace_keeps: "activate_workspace E e i st = Inr (x, st') \<Longrightarrow> journal_tables st' = journal_tables st"
  by (auto simp: activate_workspace_def and_then_Inr journal_tables_def split: if_splits)

lemma activate_selection_keeps: "activate_selection E e i st = Inr (x, st') \<Longrightarrow> journal_tables st' = journal_tables st"
  by (auto simp: activate_selection_def and_then_Inr journal_tables_def split: if_splits)

lemma compensate_workspace_keeps: "compensate_workspace E i st = Inr (x, st') \<Longrightarrow> journal_tables st' = journal_tables st"
  by (auto simp: compensate_workspace_def and_then_Inr journal_tables_def Let_def split: if_splits option.splits)

lemma compensate_selection_keeps: "compensate_selection E i st = Inr (x, st') \<Longrightarrow> journal_tables st' = journal_tables st"
  by (auto simp: compensate_selection_def and_then_Inr journal_tables_def Let_def split: if_splits)

lemma activations_keep_journal [simp]:
  "journal_tables (snd (activate_control E fault e st)) = journal_tables st"
  "journal_tables (snd (compensate_control E fault e st)) = journal_tables st"
  unfolding activate_control_def compensate_control_def
  by (rule transaction_keeps; auto simp: and_then_Inr split: option.splits if_splits
      dest: activate_workspace_keeps activate_selection_keeps compensate_workspace_keeps compensate_selection_keeps)+

end
