(* ===== verification/Transaction_Coordinator.thy ===== *)
theory Transaction_Coordinator
  imports Transaction_Run
begin

text \<open>
  The runs of the transaction coordinator (\<^verbatim>\<open>application/src/operations/mod.rs\<close>): one step, the
  terminal proof of a success, the rollback, the parked settings tail, and the entry points that
  hold the writer lock. Each acts on \<open>rn_op\<close>, which is the operation the Rust function returns.
\<close>

section \<open>One step\<close>

definition stage_step :: "'w ports \<Rightarrow> codecs \<Rightarrow> step_kind \<Rightarrow> ('w, unit) txm" where
  "stage_step P D k =
    bind_tx current_op (\<lambda>o1.
    case k of
      Prepare \<Rightarrow> ret ()
    | ApplySecrets \<Rightarrow>
        bind_tx (for_each (\<lambda>m. stage_item P k (ISecret m) (apply_secret P m)) (tp_secrets (op_plan_of o1)))
          (\<lambda>_. stage_grants P)
    | MaterializeSources \<Rightarrow> stage_item P k IControl (apply_control P D)
    | CompilePublication \<Rightarrow>
        bind_tx (run_external_kind P k LoginItem) (\<lambda>_. run_external_kind P k Publication)
    | ApplyAgentArtifacts \<Rightarrow> run_external_kind P k AgentArtifact
    | Activate \<Rightarrow>
        bind_tx (for_each (\<lambda>m. stage_item P k (IRuntime m) (apply_item P (IRuntime m) None))
          (tp_runtime (op_plan_of o1))) (\<lambda>_. activate_exact_effects P D))"

definition u32_max :: nat where
  "u32_max = 4294967295"

definition saturating_attempt :: "nat \<Rightarrow> nat" where
  "saturating_attempt n = min (n + 1) u32_max"

definition step_applied :: "codecs \<Rightarrow> op_step \<Rightarrow> op_step" where
  "step_applied D st = st\<lparr>os_status := Applied, os_result :=
     (if cd_receipt_parse D (case os_result st of None \<Rightarrow> [] | Some r \<Rightarrow> r) = None then Some ''applied''
      else os_result st)\<rparr>"

definition run_step :: "'w ports \<Rightarrow> codecs \<Rightarrow> step_kind \<Rightarrow> ('w, unit) txm" where
  "run_step P D k =
    bind_tx current_op (\<lambda>o1.
    bind_tx (if op_state_of o1 \<noteq> step_state k then transition_to (step_state k) else ret ()) (\<lambda>_.
    bind_tx (change_step k (\<lambda>st. st\<lparr>os_status := Started, os_attempts := saturating_attempt (os_attempts st)\<rparr>)) (\<lambda>_.
    bind_tx (save_op P) (\<lambda>_.
    bind_tx (stage_step P D k) (\<lambda>_.
    bind_tx (change_step k (step_applied D)) (\<lambda>_.
    save_op P))))))"

section \<open>Terminal proofs\<close>

fun require_applied :: "reconciliation \<Rightarrow> ('w, unit) txm" where
  "require_applied (AppliedEffect _) = ret ()"
| "require_applied (OwnershipLost _) = raise EffectOwnershipLost"
| "require_applied Missing = raise EffectMissing"
| "require_applied (StagedEffect _) = raise EffectMissing"

fun require_missing :: "reconciliation \<Rightarrow> ('w, unit) txm" where
  "require_missing Missing = ret ()"
| "require_missing _ = raise EffectOwnershipLost"

fun require_compensated :: "compensation \<Rightarrow> ('w, unit) txm" where
  "require_compensated CompensationLost = raise EffectOwnershipLost"
| "require_compensated _ = ret ()"

definition success_items :: "op_plan \<Rightarrow> item list" where
  "success_items p =
    map ISecret (tp_secrets p) @ map IGrant (tp_grants p) @ [IControl] @ map IExternal (tp_external p)
    @ map IRuntime (tp_runtime p)"

definition rollback_items :: "op_plan \<Rightarrow> item list" where
  "rollback_items p =
    map ISecret (tp_secrets p) @ map IGrant (tp_grants p) @ [IControl]
    @ map IExternal (filter (\<lambda>i. ei_kind i \<noteq> LoginItem) (tp_external p)) @ map IRuntime (tp_runtime p)"

definition reconcile_terminal_success :: "'w ports \<Rightarrow> ('w, unit) txm" where
  "reconcile_terminal_success P =
    bind_tx current_op (\<lambda>o1.
      for_each (\<lambda>i. bind_tx (observe P i) require_applied) (success_items (op_plan_of o1)))"

definition compensate_effect :: "'w ports \<Rightarrow> owned_effect \<Rightarrow> ('w, compensation) txm" where
  "compensate_effect P e =
    (if ef_kind e = LoginItem then ret AlreadyCompensated
     else bind_tx current_op (\<lambda>o1.
       call (p_compensate P o1 e) (\<lambda>r. Compensation e (case r of Inl _ \<Rightarrow> None | Inr x \<Rightarrow> Some x))))"

definition compensate_exactly :: "'w ports \<Rightarrow> owned_effect \<Rightarrow> ('w, unit) txm" where
  "compensate_exactly P e = bind_tx (compensate_effect P e) require_compensated"

definition recorded_effects :: "operation \<Rightarrow> owned_effect list" where
  "recorded_effects o1 = concat (map (\<lambda>k. rev (step_effects k o1)) (rev ALL_STEPS))"

definition reconcile_terminal_rollback :: "'w ports \<Rightarrow> ('w, unit) txm" where
  "reconcile_terminal_rollback P =
    bind_tx current_op (\<lambda>o1.
    bind_tx (for_each (compensate_exactly P) (recorded_effects o1)) (\<lambda>_.
    for_each (\<lambda>i. bind_tx (observe P i) require_missing) (rollback_items (op_plan_of o1))))"

section \<open>Rollback\<close>

text \<open>
  The abort decision of every recorded publication effect comes before any compensation. The
  value is the error that stopped it.
\<close>

fun abort_publications :: "'w ports \<Rightarrow> owned_effect list \<Rightarrow> ('w, port_error option) txm" where
  "abort_publications P [] = ret None"
| "abort_publications P (e # es) =
    bind_tx current_op (\<lambda>o1.
    bind_tx (try_call (p_prepare_rollback P o1 e) (\<lambda>r. AbortPrepared e (is_ok r))) (\<lambda>r.
    case r of
      Inl err \<Rightarrow> ret (Some err)
    | Inr ck \<Rightarrow> bind_tx (record_effect P CompilePublication ck) (\<lambda>_. abort_publications P es)))"

text \<open>Re-observing a step's items records what they still own; the value says whether one was lost.\<close>

fun reobserve :: "'w ports \<Rightarrow> step_kind \<Rightarrow> item list \<Rightarrow> ('w, bool) txm" where
  "reobserve P k [] = ret False"
| "reobserve P k (i # rest) =
    bind_tx (observe P i) (\<lambda>r.
    bind_tx (case r of
        Missing \<Rightarrow> ret ()
      | StagedEffect e \<Rightarrow> record_effect P k e
      | AppliedEffect e \<Rightarrow> record_effect P k e
      | OwnershipLost e \<Rightarrow> record_effect P k e) (\<lambda>_.
    bind_tx (reobserve P k rest) (\<lambda>lost.
    ret ((case r of OwnershipLost _ \<Rightarrow> True | _ \<Rightarrow> False) \<or> lost))))"

definition reconcile_step_for_rollback :: "'w ports \<Rightarrow> step_kind \<Rightarrow> ('w, unit) txm" where
  "reconcile_step_for_rollback P k =
    bind_tx current_op (\<lambda>o1.
    let p = op_plan_of o1
    in bind_tx (case k of
         Prepare \<Rightarrow> ret False
       | ApplySecrets \<Rightarrow>
           bind_tx (reobserve P k (map ISecret (tp_secrets p))) (\<lambda>lost.
           bind_tx (attempt (reobserve P k (map IGrant (tp_grants p)))) (\<lambda>r.
           ret (lost \<or> (case r of Inl _ \<Rightarrow> True | Inr b \<Rightarrow> b))))
       | MaterializeSources \<Rightarrow> reobserve P k [IControl]
       | CompilePublication \<Rightarrow> reobserve P k (map IExternal (intents_of Publication o1))
       | ApplyAgentArtifacts \<Rightarrow> reobserve P k (map IExternal (intents_of AgentArtifact o1))
       | Activate \<Rightarrow> reobserve P k (map IRuntime (tp_runtime p)))
       (\<lambda>lost. if lost then raise EffectOwnershipLost else ret ()))"

text \<open>Every effect of a step is compensated, whatever the others answered.\<close>

fun compensate_all :: "'w ports \<Rightarrow> owned_effect list \<Rightarrow> ('w, bool) txm" where
  "compensate_all P [] = ret False"
| "compensate_all P (e # es) =
    bind_tx (attempt (compensate_exactly P e)) (\<lambda>r.
    bind_tx (compensate_all P es) (\<lambda>uncertain. ret (\<not> is_ok r \<or> uncertain)))"

definition compensate_step :: "'w ports \<Rightarrow> step_kind \<Rightarrow> ('w, unit) txm" where
  "compensate_step P k =
    bind_tx current_op (\<lambda>o1.
    bind_tx (compensate_all P (rev (step_effects k o1))) (\<lambda>uncertain.
    if uncertain then raise EffectOwnershipLost else ret ()))"

text \<open>One step of the rollback; the value says that its ownership is not confirmed.\<close>

definition rollback_step :: "'w ports \<Rightarrow> step_kind \<Rightarrow> ('w, bool) txm" where
  "rollback_step P k =
    bind_tx current_op (\<lambda>o1.
    if step_status_of k o1 = Some Compensated then ret False
    else
      bind_tx (change_step k (\<lambda>st. st\<lparr>os_status := Compensating\<rparr>)) (\<lambda>_.
      bind_tx (save_op P) (\<lambda>_.
      bind_tx (attempt (reconcile_step_for_rollback P k)) (\<lambda>a.
      bind_tx (attempt (compensate_step P k)) (\<lambda>b.
      bind_tx (change_step k (\<lambda>st.
          if is_ok a \<and> is_ok b then st\<lparr>os_status := Compensated, os_result := Some ''compensated''\<rparr>
          else st\<lparr>os_status := Attention, os_result := Some ''ownership_unconfirmed''\<rparr>)) (\<lambda>_.
      bind_tx (save_op P) (\<lambda>_. ret (\<not> (is_ok a \<and> is_ok b)))))))))"

fun rollback_steps :: "'w ports \<Rightarrow> step_kind list \<Rightarrow> ('w, bool) txm" where
  "rollback_steps P [] = ret False"
| "rollback_steps P (k # ks) =
    bind_tx (rollback_step P k) (\<lambda>a. bind_tx (rollback_steps P ks) (\<lambda>b. ret (a \<or> b)))"

definition finish_and_reopen :: "'w ports \<Rightarrow> ('w, unit) txm" where
  "finish_and_reopen P =
    bind_tx (finish_op P) (\<lambda>_.
    bind_tx current_op (\<lambda>o1. call (p_finish_activation P o1) (\<lambda>r. GateOpened (is_ok r))))"

definition enter_rollback :: "('w, unit) txm" where
  "enter_rollback =
    bind_tx current_op (\<lambda>o1. if op_state_of o1 \<noteq> RollingBack then transition_to RollingBack else ret ())"

definition rollback_unavailable :: "'w ports \<Rightarrow> ('w, unit) txm" where
  "rollback_unavailable P =
    bind_tx close_writes (\<lambda>_.
    bind_tx (set_code (Some ''PUBLICATION_RECOVERY_REQUIRED'')) (\<lambda>_.
    bind_tx (save_op P) (\<lambda>_. raise RecoveryRequired)))"

definition rollback_unconfirmed :: "'w ports \<Rightarrow> ('w, unit) txm" where
  "rollback_unconfirmed P =
    bind_tx close_writes (\<lambda>_.
    bind_tx enter_rollback (\<lambda>_.
    bind_tx (transition_to NeedsAttention) (\<lambda>_.
    bind_tx (set_code (Some ''PUBLICATION_OWNERSHIP_UNCONFIRMED'')) (\<lambda>_. finish_op P))))"

definition rollback_effects :: "'w ports \<Rightarrow> string \<Rightarrow> ('w, unit) txm" where
  "rollback_effects P code =
    bind_tx (set_code (Some code)) (\<lambda>_.
    bind_tx enter_rollback (\<lambda>_.
    bind_tx (save_op P) (\<lambda>_.
    bind_tx (rollback_steps P (rev ALL_STEPS)) (\<lambda>uncertain.
    bind_tx (if uncertain then ret True
             else bind_tx (attempt (reconcile_terminal_rollback P)) (\<lambda>r. ret (\<not> is_ok r))) (\<lambda>uncertain.
    bind_tx (transition_to (if uncertain then NeedsAttention else RolledBack)) (\<lambda>_.
    finish_and_reopen P))))))"

definition finish_rollback :: "'w ports \<Rightarrow> string \<Rightarrow> ('w, unit) txm" where
  "finish_rollback P code =
    bind_tx current_op (\<lambda>o1.
    bind_tx (abort_publications P (step_effects CompilePublication o1)) (\<lambda>stopped.
    case stopped of
      None \<Rightarrow> rollback_effects P code
    | Some e \<Rightarrow> if pe_code e = Unavailable then rollback_unavailable P else rollback_unconfirmed P))"

section \<open>Success\<close>

definition install_snapshot :: "'w ports \<Rightarrow> codecs \<Rightarrow> ('w, unit) txm" where
  "install_snapshot P D =
    bind_tx current_op (\<lambda>o1.
    let price = cd_price_change D (op_plan_of o1)
    in if price \<or> cd_compute_source D (op_plan_of o1) \<noteq> None then
         bind_tx (try_call (p_install_snapshot P o1) (\<lambda>r. SnapshotInstalled (is_ok r))) (\<lambda>r.
         case r of
           Inr generation \<Rightarrow>
             if price then
               bind_tx (change_step Activate (\<lambda>st. st\<lparr>os_result := Some generation\<rparr>)) (\<lambda>_.
               bind_tx (set_code None) (\<lambda>_. save_op P))
             else ret ()
         | Inl _ \<Rightarrow>
             if price then
               bind_tx close_writes (\<lambda>_.
               bind_tx (set_code (Some ''PRICE_RECOVERY_REQUIRED'')) (\<lambda>_.
               bind_tx (save_op P) (\<lambda>_. raise RecoveryRequired)))
             else ret ())
       else ret ())"

definition finish_success :: "'w ports \<Rightarrow> codecs \<Rightarrow> ('w, unit) txm" where
  "finish_success P D =
    bind_tx (attempt (reconcile_terminal_success P)) (\<lambda>r.
    case r of
      Inl e \<Rightarrow> finish_rollback P (safe_code e)
    | Inr _ \<Rightarrow>
        bind_tx (install_snapshot P D) (\<lambda>_.
        bind_tx (transition_to Succeeded) (\<lambda>_. finish_and_reopen P)))"

section \<open>The settings tail\<close>

definition settings_service_receipt :: "codecs \<Rightarrow> operation \<Rightarrow> receipt option" where
  "settings_service_receipt D o1 =
    (case find_step Activate o1 of
       None \<Rightarrow> None
     | Some st \<Rightarrow> (case os_result st of None \<Rightarrow> None | Some r \<Rightarrow> cd_receipt_parse D r))"

definition receipt_holds :: "codecs \<Rightarrow> operation \<Rightarrow> receipt \<Rightarrow> bool" where
  "receipt_holds D o1 r \<longleftrightarrow>
     cd_completion_digest D o1 (rc_revision r) (rc_publication_digest r) = Some (rc_completed_digest r)"

definition step_done :: "step_kind \<Rightarrow> operation \<Rightarrow> bool" where
  "step_done k o1 \<longleftrightarrow> step_status_of k o1 = Some Applied \<and> k \<noteq> Activate"

text \<open>The value of the loop is the error of the step that failed.\<close>

fun run_steps :: "'w ports \<Rightarrow> codecs \<Rightarrow> step_kind list \<Rightarrow> ('w, tx_error option) txm" where
  "run_steps P D [] = ret None"
| "run_steps P D (k # ks) =
    bind_tx current_op (\<lambda>o1.
    if step_done k o1 then run_steps P D ks
    else bind_tx (attempt (run_step P D k)) (\<lambda>r.
      case r of Inl e \<Rightarrow> ret (Some e) | Inr _ \<Rightarrow> run_steps P D ks))"

definition run_steps_and_finish :: "'w ports \<Rightarrow> codecs \<Rightarrow> ('w, unit) txm" where
  "run_steps_and_finish P D =
    bind_tx (run_steps P D ALL_STEPS) (\<lambda>e.
    case e of Some e \<Rightarrow> finish_rollback P (safe_code e) | None \<Rightarrow> finish_success P D)"

datatype root_verdict = RootsServing | RootsUnproven | RootReplaced

fun check_roots :: "'w ports \<Rightarrow> external_intent list \<Rightarrow> ('w, root_verdict) txm" where
  "check_roots P [] = ret RootsServing"
| "check_roots P (i # rest) =
    bind_tx (observe P (IExternal i)) (\<lambda>r.
    case r of
      AppliedEffect _ \<Rightarrow> check_roots P rest
    | StagedEffect _ \<Rightarrow> ret RootsUnproven
    | Missing \<Rightarrow> ret RootsUnproven
    | OwnershipLost _ \<Rightarrow> ret RootReplaced)"

fun files_applied :: "'w ports \<Rightarrow> external_intent list \<Rightarrow> ('w, bool) txm" where
  "files_applied P [] = ret True"
| "files_applied P (i # rest) =
    bind_tx (attempt (observe P (IExternal i))) (\<lambda>r.
    case r of Inr (AppliedEffect _) \<Rightarrow> files_applied P rest | _ \<Rightarrow> ret False)"

definition park_tail :: "'w ports \<Rightarrow> string \<Rightarrow> ('w, unit) txm" where
  "park_tail P code = bind_tx (set_code (Some code)) (\<lambda>_. save_tail P)"

definition load_into_run :: "'w ports \<Rightarrow> string \<Rightarrow> ('w, unit) txm" where
  "load_into_run P i =
    bind_tx (call (p_load P i) (\<lambda>r. Loaded (is_ok r))) (\<lambda>found.
    case found of None \<Rightarrow> raise OperationNotFound | Some o1 \<Rightarrow> change_op (\<lambda>_. o1))"

definition retry_settings_tail :: "'w ports \<Rightarrow> codecs \<Rightarrow> ('w, unit) txm" where
  "retry_settings_tail P D =
    bind_tx current_op (\<lambda>o1.
    bind_tx (call (p_reclaim P (oi_operation_id o1)) (\<lambda>r. Reclaimed (is_ok r))) (\<lambda>_.
    bind_tx (load_into_run P (oi_operation_id o1)) (\<lambda>_.
    bind_tx (attempt (activate_settings_tail P)) (\<lambda>r.
    case r of Inr _ \<Rightarrow> finish_success P D | Inl e \<Rightarrow> park_tail P (safe_code e)))))"

definition resume_settings_tail :: "'w ports \<Rightarrow> codecs \<Rightarrow> receipt \<Rightarrow> bool \<Rightarrow> ('w, unit) txm" where
  "resume_settings_tail P D rc retry =
    bind_tx current_op (\<lambda>o1.
    if \<not> receipt_holds D o1 rc then finish_rollback P ''SETTINGS_RECEIPT_INVALID''
    else bind_tx (check_roots P (intents_of Publication o1)) (\<lambda>v.
    case v of
      RootsUnproven \<Rightarrow>
        bind_tx (change_step Activate (\<lambda>st. st\<lparr>os_result := None\<rparr>)) (\<lambda>_.
        bind_tx (save_op P) (\<lambda>_. run_steps_and_finish P D))
    | RootReplaced \<Rightarrow> park_tail P ''SETTINGS_TAIL_EXPIRED''
    | RootsServing \<Rightarrow>
        bind_tx (files_applied P (settings_files o1)) (\<lambda>already.
        if already then run_steps_and_finish P D
        else if \<not> retry then park_tail P ''SETTINGS_TAIL_PENDING''
        else retry_settings_tail P D)))"

section \<open>Entry points\<close>

definition all_compensated :: "operation \<Rightarrow> bool" where
  "all_compensated o1 \<longleftrightarrow> list_all (\<lambda>st. os_status st = Compensated) (op_steps o1)"

definition recheck_attention :: "'w ports \<Rightarrow> ('w, unit) txm" where
  "recheck_attention P =
    bind_tx current_op (\<lambda>o1.
    if all_compensated o1 then
      bind_tx (attempt (reconcile_terminal_rollback P)) (\<lambda>r.
      if is_ok r then bind_tx (transition_to RolledBack) (\<lambda>_. finish_and_reopen P) else ret ())
    else ret ())"

definition run_forward :: "'w ports \<Rightarrow> codecs \<Rightarrow> ('w, unit) txm" where
  "run_forward P D =
    bind_tx (run_steps P D ALL_STEPS) (\<lambda>e.
    case e of
      None \<Rightarrow> finish_success P D
    | Some e \<Rightarrow>
        bind_tx current_op (\<lambda>o1.
        case settings_service_receipt D o1 of
          Some rc \<Rightarrow> if receipt_holds D o1 rc then park_tail P (safe_code e) else finish_rollback P (safe_code e)
        | None \<Rightarrow> finish_rollback P (safe_code e)))"

definition run_operation_locked :: "'w ports \<Rightarrow> codecs \<Rightarrow> bool \<Rightarrow> ('w, unit) txm" where
  "run_operation_locked P D retry =
    bind_tx current_op (\<lambda>o1.
    if op_state_of o1 = NeedsAttention then recheck_attention P
    else if op_terminal (op_state_of o1) then ret ()
    else if op_state_of o1 = RollingBack then finish_rollback P ''RECOVERY_ROLLBACK''
    else case settings_service_receipt D o1 of
      Some rc \<Rightarrow> resume_settings_tail P D rc retry
    | None \<Rightarrow> run_forward P D)"

definition run_locked :: "'w ports \<Rightarrow> codecs \<Rightarrow> string \<Rightarrow> bool \<Rightarrow> ('w, unit) txm" where
  "run_locked P D i retry = bind_tx (load_into_run P i) (\<lambda>_. run_operation_locked P D retry)"

definition run_current_or_reload_locked :: "'w ports \<Rightarrow> codecs \<Rightarrow> bool \<Rightarrow> ('w, unit) txm" where
  "run_current_or_reload_locked P D retry =
    bind_tx current_op (\<lambda>o1.
    bind_tx (call (p_is_current P o1) (\<lambda>r. Loaded (is_ok r))) (\<lambda>current.
    if current then run_operation_locked P D retry else run_locked P D (oi_operation_id o1) retry))"

definition run_taking :: "'w ports \<Rightarrow> codecs \<Rightarrow> bool \<Rightarrow> operation \<Rightarrow> ('w, operation) txm" where
  "run_taking P D retry o1 =
    bind_tx (change_op (\<lambda>_. o1)) (\<lambda>_. bind_tx (run_current_or_reload_locked P D retry) (\<lambda>_. current_op))"

fun recover_startup :: "'w ports \<Rightarrow> codecs \<Rightarrow> operation list \<Rightarrow> ('w, operation list) txm" where
  "recover_startup P D [] = ret []"
| "recover_startup P D (o1 # os) =
    bind_tx (run_taking P D False o1) (\<lambda>ended.
    if op_state_of ended = NeedsAttention then raise RecoveryRequired
    else bind_tx (recover_startup P D os) (\<lambda>rest. ret (ended # rest)))"

definition open_writes :: "('w, unit) txm" where
  "open_writes s = (Inr (), s\<lparr>rn_open := True\<rparr>)"

definition reconcile_startup_and_open :: "'w ports \<Rightarrow> codecs \<Rightarrow> ('w, operation list) txm" where
  "reconcile_startup_and_open P D =
    bind_tx close_writes (\<lambda>_.
    bind_tx (call (p_recoverable P) (\<lambda>r. Loaded (is_ok r))) (\<lambda>os.
    bind_tx (recover_startup P D os) (\<lambda>recovered.
    bind_tx (call (p_recovery_required P) (\<lambda>r. Loaded (is_ok r))) (\<lambda>held.
    if held then raise RecoveryRequired else bind_tx open_writes (\<lambda>_. ret recovered)))))"

fun run_each :: "'w ports \<Rightarrow> codecs \<Rightarrow> operation list \<Rightarrow> ('w, (tx_error + operation) list) txm" where
  "run_each P D [] = ret []"
| "run_each P D (o1 # os) =
    bind_tx (attempt (run_taking P D True o1)) (\<lambda>r. bind_tx (run_each P D os) (\<lambda>rest. ret (r # rest)))"

definition recover_all :: "'w ports \<Rightarrow> codecs \<Rightarrow> ('w, (tx_error + operation) list) txm" where
  "recover_all P D =
    bind_tx (try_call (p_recoverable P) (\<lambda>r. Loaded (is_ok r))) (\<lambda>r.
    case r of Inl e \<Rightarrow> ret [Inl (PortFailed e)] | Inr os \<Rightarrow> run_each P D os)"

end
