(* ===== verification/Transaction_Logic.thy ===== *)
theory Transaction_Logic
  imports Transaction_Coordinator
begin

text \<open>
  Reasoning about runs: introduction and elimination of successful runs, and \<open>calm\<close>, which bounds
  the events a program may emit and says that it leaves identity, plan, lifecycle state and
  admission gate alone. The contract of the journal the coordinator writes to is the locale
  \<open>journal_port\<close>; inside it every program that changes no lifecycle state is calm.
\<close>

named_theorems runs "outcomes of the program constructors"
named_theorems calm_rules "calm programs"

section \<open>Outcomes\<close>

lemma run_ret [runs, simp]: "ret x s = (Inr x, s)"
  by (simp add: ret_def)

lemma run_raise [runs, simp]: "raise e s = (Inl e, s)"
  by (simp add: raise_def)

lemma run_current_op [runs, simp]: "current_op s = (Inr (rn_op s), s)"
  by (simp add: current_op_def)

lemma run_change_op [runs, simp]: "change_op f s = (Inr (), s\<lparr>rn_op := f (rn_op s)\<rparr>)"
  by (simp add: change_op_def)

lemma run_close_writes [runs, simp]: "close_writes s = (Inr (), s\<lparr>rn_open := False\<rparr>)"
  by (simp add: close_writes_def)

lemma run_bind_ok [simp]: "m s = (Inr x, t) \<Longrightarrow> bind_tx m f s = f x t"
  by (simp add: bind_tx_def)

lemma run_bind_err [simp]: "m s = (Inl e, t) \<Longrightarrow> bind_tx m f s = (Inl e, t)"
  by (simp add: bind_tx_def)

lemma bind_current_op [simp]: "bind_tx current_op f s = f (rn_op s) s"
  by (simp add: bind_tx_def)

lemma bind_ret [simp]: "bind_tx (ret x) f = f x"
  by (simp add: bind_tx_def fun_eq_iff)

lemma bind_change_op [simp]: "bind_tx (change_op g) f s = f () (s\<lparr>rn_op := g (rn_op s)\<rparr>)"
  by (simp add: bind_tx_def)

lemma bind_close_writes [simp]: "bind_tx close_writes f s = f () (s\<lparr>rn_open := False\<rparr>)"
  by (simp add: bind_tx_def)

lemma bind_set_code [simp]:
  "bind_tx (set_code c) f s = f () (s\<lparr>rn_op := (rn_op s)\<lparr>op_error_code := c\<rparr>\<rparr>)"
  by (simp add: set_code_def)

lemma bind_change_step [simp]: "bind_tx (change_step k g) f s = f () (s\<lparr>rn_op := step_mut k g (rn_op s)\<rparr>)"
  by (simp add: change_step_def)

lemma bind_assoc: "bind_tx (bind_tx m f) g = bind_tx m (\<lambda>x. bind_tx (f x) g)"
  by (simp add: bind_tx_def fun_eq_iff split: sum.splits prod.splits)

lemma bind_ok_iff:
  "bind_tx m f s = (Inr x, s') \<longleftrightarrow> (\<exists>y t. m s = (Inr y, t) \<and> f y t = (Inr x, s'))"
  by (auto simp: bind_tx_def split: sum.splits prod.splits)

lemma bind_err_iff:
  "bind_tx m f s = (Inl e, s') \<longleftrightarrow> m s = (Inl e, s') \<or> (\<exists>y t. m s = (Inr y, t) \<and> f y t = (Inl e, s'))"
  by (auto simp: bind_tx_def split: sum.splits prod.splits)

lemma attempt_iff: "attempt m s = (r, s') \<longleftrightarrow> (\<exists>q. m s = (q, s') \<and> r = Inr q)"
  by (auto simp: attempt_def split: prod.splits)

lemma bind_attempt_iff: "bind_tx (attempt m) f s = f (fst (m s)) (snd (m s))"
  by (auto simp: attempt_def bind_tx_def split: prod.splits)

lemma run_try_call:
  "try_call p ev s = (Inr (fst (p (rn_world s))),
     s\<lparr>rn_world := snd (p (rn_world s)), rn_trace := rn_trace s @ [ev (fst (p (rn_world s)))]\<rparr>)"
  by (simp add: try_call_def split: prod.splits)

lemma call_ok_iff:
  "call p ev s = (Inr x, s') \<longleftrightarrow>
     (\<exists>w. p (rn_world s) = (Inr x, w) \<and> s' = s\<lparr>rn_world := w, rn_trace := rn_trace s @ [ev (Inr x)]\<rparr>)"
  by (cases "p (rn_world s)") (auto simp: call_def bind_tx_def run_try_call split: sum.splits)

lemma call_err_iff:
  "call p ev s = (Inl e, s') \<longleftrightarrow>
     (\<exists>pe w. p (rn_world s) = (Inl pe, w) \<and> e = PortFailed pe
        \<and> s' = s\<lparr>rn_world := w, rn_trace := rn_trace s @ [ev (Inl pe)]\<rparr>)"
  by (cases "p (rn_world s)") (auto simp: call_def bind_tx_def run_try_call split: sum.splits)

lemma from_op_result_ok_iff [simp]: "from_op_result r s = (Inr x, s') \<longleftrightarrow> r = Inr x \<and> s' = s"
  by (auto simp: from_op_result_def split: sum.splits)

lemma from_op_result_err_iff [simp]:
  "from_op_result r s = (Inl e, s') \<longleftrightarrow> (\<exists>d. r = Inl d \<and> e = DomainOperation d \<and> s' = s)"
  by (auto simp: from_op_result_def split: sum.splits)

lemma transition_to_ok_iff:
  "transition_to t s = (Inr u, s') \<longleftrightarrow>
     can_transition (op_state_of (rn_op s)) t \<and> s' = s\<lparr>rn_op := (rn_op s)\<lparr>op_state_of := t\<rparr>\<rparr>"
  by (auto simp: transition_to_def bind_ok_iff op_transition_def split: if_splits)

lemma transition_to_err: "transition_to t s = (Inl e, s') \<Longrightarrow> s' = s"
  by (auto simp: transition_to_def bind_err_iff op_transition_def split: if_splits)

section \<open>Calm programs\<close>

text \<open>What no program but the transitions changes; what a calm program journals is in the state it found.\<close>

definition frozen :: "operation \<Rightarrow> op_identity \<times> op_plan \<times> op_state" where
  "frozen o1 = (op_identity.truncate o1, op_plan_of o1, op_state_of o1)"

lemma frozen_updates [simp]:
  "frozen (o1\<lparr>op_steps := ss\<rparr>) = frozen o1"
  "frozen (o1\<lparr>op_error_code := c\<rparr>) = frozen o1"
  "frozen (step_mut k f o1) = frozen o1"
  "frozen (acknowledge_commit g o1) = frozen o1"
  by (auto simp: frozen_def op_identity.truncate_def step_mut_def acknowledge_commit_def split: option.splits)

lemma frozenD:
  assumes "frozen a = frozen b"
  shows "op_plan_of a = op_plan_of b" "op_state_of a = op_state_of b" "oi_operation_id a = oi_operation_id b"
  using assms by (auto simp: frozen_def op_identity.truncate_def)

definition journals_in :: "op_state \<Rightarrow> event list \<Rightarrow> bool" where
  "journals_in state evs \<longleftrightarrow> (\<forall>st b. Journal st b \<in> set evs \<longrightarrow> st = state)"

lemma journals_in_simps [simp]:
  "journals_in state []" "journals_in state (evs @ evs') \<longleftrightarrow> journals_in state evs \<and> journals_in state evs'"
  "journals_in state [Journal st b] \<longleftrightarrow> st = state"
  by (auto simp: journals_in_def)

lemma journals_in_other: "(\<And>st b. e \<noteq> Journal st b) \<Longrightarrow> journals_in state [e]"
  by (auto simp: journals_in_def)

definition calm :: "event set \<Rightarrow> ('w, 'a) txm \<Rightarrow> bool" where
  "calm A m \<longleftrightarrow> (\<forall>s. \<exists>evs. rn_trace (snd (m s)) = rn_trace s @ evs \<and> set evs \<subseteq> A
     \<and> journals_in (op_state_of (rn_op s)) evs
     \<and> frozen (rn_op (snd (m s))) = frozen (rn_op s) \<and> rn_open (snd (m s)) = rn_open s)"

lemma calmI:
  assumes "\<And>s. \<exists>evs. rn_trace (snd (m s)) = rn_trace s @ evs \<and> set evs \<subseteq> A
     \<and> journals_in (op_state_of (rn_op s)) evs \<and> frozen (rn_op (snd (m s))) = frozen (rn_op s) \<and> rn_open (snd (m s)) = rn_open s"
  shows "calm A m"
  using assms by (simp add: calm_def)

lemma calmE:
  assumes "calm A m" "m s = (r, t)"
  obtains evs where "rn_trace t = rn_trace s @ evs" "set evs \<subseteq> A" "frozen (rn_op t) = frozen (rn_op s)"
    "rn_open t = rn_open s"
  using assms unfolding calm_def by (metis snd_conv)

lemma calm_stated:
  assumes "calm A m" "m s = (r, t)"
  obtains evs where "rn_trace t = rn_trace s @ evs" "set evs \<subseteq> A" "journals_in (op_state_of (rn_op s)) evs"
    "op_state_of (rn_op t) = op_state_of (rn_op s)"
  using assms frozenD(2) unfolding calm_def by (metis snd_conv)

lemma calm_mono: "calm A m \<Longrightarrow> A \<subseteq> B \<Longrightarrow> calm B m"
  unfolding calm_def by (meson subset_trans)

lemma calm_ret [calm_rules]: "calm A (ret x)"
  by (simp add: calm_def)

lemma calm_raise [calm_rules]: "calm A (raise e)"
  by (simp add: calm_def)

lemma calm_current_op [calm_rules]: "calm A current_op"
  by (simp add: calm_def)

lemma calm_change_op: "(\<And>o1. frozen (f o1) = frozen o1) \<Longrightarrow> calm A (change_op f)"
  by (simp add: calm_def)

lemma calm_change_step [calm_rules]: "calm A (change_step k f)"
  by (simp add: change_step_def calm_change_op)

lemma calm_set_code [calm_rules]: "calm A (set_code c)"
  by (simp add: set_code_def calm_change_op)

lemma calm_bind [calm_rules]:
  assumes m: "calm A m" and f: "\<And>x. calm A (f x)"
  shows "calm A (bind_tx m f)"
proof (rule calmI)
  fix s
  obtain r t where t: "m s = (r, t)" by force
  from m t obtain evs where 1: "rn_trace t = rn_trace s @ evs" "set evs \<subseteq> A" "frozen (rn_op t) = frozen (rn_op s)"
      "rn_open t = rn_open s" "journals_in (op_state_of (rn_op s)) evs"
    unfolding calm_def by (metis snd_conv)
  show "\<exists>evs. rn_trace (snd (bind_tx m f s)) = rn_trace s @ evs \<and> set evs \<subseteq> A
     \<and> journals_in (op_state_of (rn_op s)) evs \<and> frozen (rn_op (snd (bind_tx m f s))) = frozen (rn_op s) \<and> rn_open (snd (bind_tx m f s)) = rn_open s"
  proof (cases r)
    case (Inl e)
    then show ?thesis using 1 t by auto
  next
    case (Inr x)
    obtain r' t' where t': "f x t = (r', t')" by force
    from f t' obtain evs' where "rn_trace t' = rn_trace t @ evs'" "set evs' \<subseteq> A"
        "frozen (rn_op t') = frozen (rn_op t)" "rn_open t' = rn_open t" "journals_in (op_state_of (rn_op t)) evs'"
      unfolding calm_def by (metis snd_conv)
    then show ?thesis using 1 t t' Inr frozenD(2)[of "rn_op t" "rn_op s"] by auto
  qed
qed

lemma calm_attempt [calm_rules]: "calm A m \<Longrightarrow> calm A (attempt m)"
  by (simp add: calm_def attempt_def split: prod.splits) (metis snd_conv)

lemma calm_try_call [calm_rules]: "(\<And>r. ev r \<in> A) \<Longrightarrow> (\<And>r st b. ev r \<noteq> Journal st b) \<Longrightarrow> calm A (try_call p ev)"
  by (simp add: calm_def run_try_call journals_in_other)

lemma calm_call [calm_rules]: "(\<And>r. ev r \<in> A) \<Longrightarrow> (\<And>r st b. ev r \<noteq> Journal st b) \<Longrightarrow> calm A (call p ev)"
  unfolding call_def by (intro calm_bind calm_try_call) (auto split: sum.splits intro: calm_rules)

lemma calm_for_each [calm_rules]: "(\<And>x. calm A (f x)) \<Longrightarrow> calm A (for_each f xs)"
  by (induction xs) (auto intro: calm_rules)

lemma calm_if [calm_rules]: "(c \<Longrightarrow> calm A m) \<Longrightarrow> (\<not> c \<Longrightarrow> calm A n) \<Longrightarrow> calm A (if c then m else n)"
  by simp

lemma calm_option [calm_rules]:
  "(x = None \<Longrightarrow> calm A m) \<Longrightarrow> (\<And>y. x = Some y \<Longrightarrow> calm A (f y)) \<Longrightarrow> calm A (case x of None \<Rightarrow> m | Some y \<Rightarrow> f y)"
  by (cases x) auto

lemma calm_sum [calm_rules]:
  "(\<And>y. calm A (f y)) \<Longrightarrow> (\<And>y. calm A (g y)) \<Longrightarrow> calm A (case x of Inl y \<Rightarrow> f y | Inr y \<Rightarrow> g y)"
  by (cases x) auto

lemma calm_prod [calm_rules]: "(\<And>a b. calm A (f a b)) \<Longrightarrow> calm A (case x of (a, b) \<Rightarrow> f a b)"
  by (cases x) auto

lemma calm_let [calm_rules]: "calm A (f x) \<Longrightarrow> calm A (let y = x in f y)"
  by simp

lemma calm_reconciliation [calm_rules]:
  "calm A m \<Longrightarrow> (\<And>e. calm A (f e)) \<Longrightarrow> (\<And>e. calm A (g e)) \<Longrightarrow> (\<And>e. calm A (h e))
   \<Longrightarrow> calm A (case x of Missing \<Rightarrow> m | StagedEffect e \<Rightarrow> f e | AppliedEffect e \<Rightarrow> g e | OwnershipLost e \<Rightarrow> h e)"
  by (cases x) auto

section \<open>The journal's contract\<close>

definition journal_events :: "event set" where
  "journal_events = {e. \<exists>s b. e = Journal s b}"

definition observing_events :: "event set" where
  "observing_events = {e. \<exists>i r. e = Observing i r}"

definition staging_events :: "event set" where
  "staging_events = {e. (\<exists>i b. e = Staging i b) \<or> (\<exists>s b. e = InputRead s b) \<or> (\<exists>b. e = Fingerprinted b)}"

definition activating_events :: "event set" where
  "activating_events = {e. (\<exists>i b. e = ActivatingItem i b) \<or> (\<exists>x b. e = PublicationPrepared x b)
     \<or> (\<exists>x b. e = ArtifactPrepared x b) \<or> (\<exists>b. e = GateClosed b)}"

definition compensation_events :: "event set" where
  "compensation_events = {e. \<exists>x r. e = Compensation x r}"

definition abort_events :: "event set" where
  "abort_events = {e. \<exists>x b. e = AbortPrepared x b}"

definition record_events :: "event set" where
  "record_events = journal_events \<union> observing_events"

definition forward_events :: "event set" where
  "forward_events = record_events \<union> staging_events \<union> activating_events"

definition rollback_events :: "event set" where
  "rollback_events = record_events \<union> compensation_events"

lemmas event_sets = journal_events_def observing_events_def staging_events_def activating_events_def
  compensation_events_def abort_events_def record_events_def forward_events_def rollback_events_def

text \<open>
  A save, a tail save and a finish return the value they were given with its new generation
  acknowledged; a tail save is refused for a terminal operation.
\<close>

locale journal_port =
  fixes P :: "'w ports"
  assumes saved: "p_save P o1 w = (Inr o2, w') \<Longrightarrow> \<exists>g. o2 = acknowledge_commit g o1"
    and tail_saved: "p_save_tail P o1 w = (Inr o2, w') \<Longrightarrow>
      (\<exists>g. o2 = acknowledge_commit g o1) \<and> \<not> op_terminal (op_state_of o1)"
    and finished: "p_finish P o1 w = (Inr o2, w') \<Longrightarrow> \<exists>g. o2 = acknowledge_commit g o1"

context journal_port begin

lemma calm_save: "calm journal_events (save_op P)"
proof (rule calmI)
  fix s :: "'w run"
  show "\<exists>evs. rn_trace (snd (save_op P s)) = rn_trace s @ evs \<and> set evs \<subseteq> journal_events
     \<and> journals_in (op_state_of (rn_op s)) evs \<and> frozen (rn_op (snd (save_op P s))) = frozen (rn_op s) \<and> rn_open (snd (save_op P s)) = rn_open s"
    using saved[of "rn_op s" "rn_world s"]
    by (cases "p_save P (rn_op s) (rn_world s)"; cases "fst (p_save P (rn_op s) (rn_world s))")
      (auto simp: save_op_def call_def bind_tx_def run_try_call event_sets)
qed

lemma calm_save_within [calm_rules]: "journal_events \<subseteq> A \<Longrightarrow> calm A (save_op P)"
  using calm_save by (rule calm_mono)

lemma calm_record_effect [calm_rules]: "journal_events \<subseteq> A \<Longrightarrow> calm A (record_effect P k e)"
  unfolding record_effect_def by (intro calm_rules)

lemma calm_observe [calm_rules]: "observing_events \<subseteq> A \<Longrightarrow> calm A (observe P i)"
  unfolding observe_def by (intro calm_rules) (auto simp: observing_events_def)

lemma calm_stage_item [calm_rules]: "record_events \<subseteq> A \<Longrightarrow> calm A m \<Longrightarrow> calm A (stage_item P k i m)"
  unfolding stage_item_def by (intro calm_rules) (auto simp: record_events_def)

lemma calm_apply_item [calm_rules]: "staging_events \<subseteq> A \<Longrightarrow> calm A (apply_item P i x)"
  unfolding apply_item_def by (intro calm_rules) (auto simp: staging_events_def)

lemma calm_read_matching [calm_rules]: "staging_events \<subseteq> A \<Longrightarrow> calm A (read_matching P slot x)"
  unfolding read_matching_def read_input_def by (intro calm_rules) (auto simp: staging_events_def)

lemma calm_apply_secret [calm_rules]: "staging_events \<subseteq> A \<Longrightarrow> calm A (apply_secret P m)"
  unfolding apply_secret_def by (intro calm_rules)

lemma calm_apply_grant [calm_rules]: "staging_events \<subseteq> A \<Longrightarrow> calm A (apply_grant P m)"
  unfolding apply_grant_def by (intro calm_rules)

lemma calm_apply_control [calm_rules]: "staging_events \<subseteq> A \<Longrightarrow> calm A (apply_control P D)"
  unfolding apply_control_def by (intro calm_rules) (auto simp: staging_events_def)

lemma calm_run_external_kind [calm_rules]:
  "record_events \<subseteq> A \<Longrightarrow> staging_events \<subseteq> A \<Longrightarrow> calm A (run_external_kind P k ek)"
  unfolding run_external_kind_def by (intro calm_rules)

lemma calm_activate_item [calm_rules]: "activating_events \<subseteq> A \<Longrightarrow> calm A (activate_item P i e)"
  unfolding activate_item_def by (intro calm_rules) (auto simp: activating_events_def)

lemma calm_activate_observed [calm_rules]:
  "record_events \<subseteq> A \<Longrightarrow> (\<And>e. calm A (act e)) \<Longrightarrow> calm A (activate_observed P k i act)"
  unfolding activate_observed_def by (intro calm_rules) (auto simp: record_events_def)

lemma calm_activate_step [calm_rules]:
  "record_events \<subseteq> A \<Longrightarrow> activating_events \<subseteq> A \<Longrightarrow> calm A (activate_step P k i)"
  unfolding activate_step_def by (intro calm_rules)

lemma calm_activate_grants [calm_rules]:
  "record_events \<subseteq> A \<Longrightarrow> activating_events \<subseteq> A \<Longrightarrow> calm A (activate_grants P)"
  unfolding activate_grants_def by (intro calm_rules)

lemma calm_activate_artifact [calm_rules]:
  "record_events \<subseteq> A \<Longrightarrow> activating_events \<subseteq> A \<Longrightarrow> calm A (activate_artifact P i)"
  unfolding activate_artifact_def by (intro calm_rules) (auto simp: activating_events_def)

lemma calm_publish_staged [calm_rules]:
  "record_events \<subseteq> A \<Longrightarrow> activating_events \<subseteq> A \<Longrightarrow> calm A (publish_staged P i e)"
  unfolding publish_staged_def by (intro calm_rules) (auto simp: activating_events_def record_events_def)

lemma calm_settings_tail [calm_rules]:
  "record_events \<subseteq> A \<Longrightarrow> activating_events \<subseteq> A \<Longrightarrow> calm A (activate_settings_tail P)"
  unfolding activate_settings_tail_def by (intro calm_rules)

lemma calm_seal [calm_rules]: "journal_events \<subseteq> A \<Longrightarrow> calm A (seal_settings_completion P D)"
  unfolding seal_settings_completion_def by (intro calm_rules)

lemma calm_activate_exact [calm_rules]:
  "record_events \<subseteq> A \<Longrightarrow> activating_events \<subseteq> A \<Longrightarrow> calm A (activate_exact_effects P D)"
  unfolding activate_exact_effects_def
  by (intro calm_rules) (auto simp: activating_events_def record_events_def)

lemma calm_stage_step: "calm forward_events (stage_step P D k)"
  unfolding stage_step_def stage_grants_def
  by (cases k) (simp, intro calm_rules; auto simp: forward_events_def record_events_def)+

lemma calm_require_applied [calm_rules]: "calm A (require_applied r)"
  by (cases r) (auto intro: calm_rules)

lemma calm_require_missing [calm_rules]: "calm A (require_missing r)"
  by (cases r) (auto intro: calm_rules)

lemma calm_require_compensated [calm_rules]: "calm A (require_compensated r)"
  by (cases r) (auto intro: calm_rules)

lemma calm_compensate [calm_rules]: "compensation_events \<subseteq> A \<Longrightarrow> calm A (compensate_exactly P e)"
  unfolding compensate_exactly_def compensate_effect_def
  by (intro calm_rules) (auto simp: compensation_events_def)

lemma calm_terminal_success: "calm observing_events (reconcile_terminal_success P)"
  unfolding reconcile_terminal_success_def by (intro calm_rules) auto

lemma calm_terminal_rollback:
  "calm (compensation_events \<union> observing_events) (reconcile_terminal_rollback P)"
  unfolding reconcile_terminal_rollback_def by (intro calm_rules) auto

lemma calm_reobserve [calm_rules]: "record_events \<subseteq> A \<Longrightarrow> calm A (reobserve P k is)"
proof (induction "is")
  case Nil
  show ?case unfolding reobserve.simps by (intro calm_rules)
next
  case (Cons i rest)
  then show ?case unfolding reobserve.simps by (intro calm_rules) (auto simp: record_events_def)
qed

lemma calm_reconcile_step [calm_rules]: "record_events \<subseteq> A \<Longrightarrow> calm A (reconcile_step_for_rollback P k)"
  unfolding reconcile_step_for_rollback_def
  by (cases k) (simp_all only: step_kind.case Let_def, (intro calm_rules; assumption)+)

lemma calm_compensate_all [calm_rules]: "compensation_events \<subseteq> A \<Longrightarrow> calm A (compensate_all P es)"
proof (induction es)
  case Nil
  show ?case unfolding compensate_all.simps by (intro calm_rules)
next
  case (Cons e es)
  then show ?case unfolding compensate_all.simps by (intro calm_rules) auto
qed

lemma calm_compensate_step [calm_rules]: "compensation_events \<subseteq> A \<Longrightarrow> calm A (compensate_step P k)"
  unfolding compensate_step_def by (intro calm_rules)

lemma calm_rollback_step: "calm rollback_events (rollback_step P k)"
  unfolding rollback_step_def
  by (intro calm_rules) (auto simp: rollback_events_def record_events_def)

lemma calm_rollback_steps: "calm rollback_events (rollback_steps P ks)"
  by (induction ks) (simp_all only: rollback_steps.simps, (intro calm_rules calm_rollback_step; assumption)+)

lemma calm_abort: "calm (abort_events \<union> journal_events) (abort_publications P es)"
proof (induction es)
  case Nil
  show ?case unfolding abort_publications.simps by (intro calm_rules)
next
  case (Cons e es)
  then show ?case unfolding abort_publications.simps by (intro calm_rules) (auto simp: abort_events_def)
qed

end

end
