(* ===== verification/Transaction_Proofs.thy ===== *)
theory Transaction_Proofs
  imports Transaction_Logic
begin

text \<open>
  What a run leaves in its trace: a rollback's decision precedes every compensation, a success
  rests on a last observation of every planned effect, and a rollback on a compensation and an
  observation of each. The lemmas are proved for any ports with the journal's contract.
\<close>

section \<open>Events\<close>

fun undo_event :: "event \<Rightarrow> bool" where
  "undo_event (Compensation _ _) = True"
| "undo_event _ = False"

fun change_event :: "event \<Rightarrow> bool" where
  "change_event (Staging _ _) = True"
| "change_event (ActivatingItem _ _) = True"
| "change_event (PublicationPrepared _ _) = True"
| "change_event (ArtifactPrepared _ _) = True"
| "change_event _ = False"

fun closing_event :: "event \<Rightarrow> bool" where
  "closing_event (SnapshotInstalled _) = True"
| "closing_event (Journal _ _) = True"
| "closing_event (Finish _ _) = True"
| "closing_event (GateOpened _) = True"
| "closing_event _ = False"

text \<open>
  The trace of a run, read from its start; the flag says whether a rolling-back state has become
  durable. Nothing is undone before the first such record, nothing is applied after it.
\<close>

fun decided_from :: "bool \<Rightarrow> event list \<Rightarrow> bool" where
  "decided_from d [] \<longleftrightarrow> True"
| "decided_from d (e # evs) \<longleftrightarrow> (undo_event e \<longrightarrow> d) \<and> (change_event e \<longrightarrow> \<not> d)
     \<and> decided_from (d \<or> e = Journal RollingBack True) evs"

definition decided :: "event list \<Rightarrow> bool" where
  "decided evs \<longleftrightarrow> decided_from False evs"

definition observed_applied :: "item \<Rightarrow> event \<Rightarrow> bool" where
  "observed_applied i e \<longleftrightarrow> (\<exists>f. e = Observing i (Some (AppliedEffect f)))"

definition observed_missing :: "item \<Rightarrow> event \<Rightarrow> bool" where
  "observed_missing i e \<longleftrightarrow> e = Observing i (Some Missing)"

definition undone_now :: "owned_effect \<Rightarrow> event \<Rightarrow> bool" where
  "undone_now x e \<longleftrightarrow> e = Compensation x (Some CompensatedNow) \<or> e = Compensation x (Some AlreadyCompensated)"

text \<open>A proved success: after the last change every planned effect was observed applied.\<close>

definition success_proved :: "operation \<Rightarrow> event list \<Rightarrow> bool" where
  "success_proved o1 evs \<longleftrightarrow> (\<exists>pre obs post. evs = pre @ obs @ post
     \<and> list_all2 observed_applied (success_items (op_plan_of o1)) obs \<and> list_all closing_event post)"

text \<open>A proved rollback: every recorded effect is compensated, then every planned one is missing.\<close>

definition rollback_proved :: "operation \<Rightarrow> event list \<Rightarrow> bool" where
  "rollback_proved o1 evs \<longleftrightarrow> (\<exists>pre undo obs post. evs = pre @ undo @ obs @ post
     \<and> list_all2 undone_now (filter (\<lambda>x. ef_kind x \<noteq> LoginItem) (recorded_effects o1)) undo
     \<and> list_all2 observed_missing (rollback_items (op_plan_of o1)) obs \<and> list_all closing_event post)"

definition proved :: "'w run \<Rightarrow> bool" where
  "proved s \<longleftrightarrow>
     (op_state_of (rn_op s) = Succeeded \<longrightarrow> success_proved (rn_op s) (rn_trace s))
     \<and> (op_state_of (rn_op s) = RolledBack \<longrightarrow> rollback_proved (rn_op s) (rn_trace s))"

text \<open>A settled run: a terminal state it reached is proved and durably finished.\<close>

definition settled :: "'w run \<Rightarrow> bool" where
  "settled s \<longleftrightarrow> proved s
     \<and> (op_state_of (rn_op s) \<in> {Succeeded, RolledBack} \<longrightarrow> Finish (op_state_of (rn_op s)) True \<in> set (rn_trace s))"

section \<open>Emission\<close>

definition within :: "event set \<Rightarrow> ('w, 'a) txm \<Rightarrow> bool" where
  "within A m \<longleftrightarrow> (\<forall>s. \<exists>evs. rn_trace (snd (m s)) = rn_trace s @ evs \<and> set evs \<subseteq> A)"

named_theorems within_rules "bounds of the events of a program"

lemma withinE:
  assumes "within A m" "m s = (r, t)"
  obtains evs where "rn_trace t = rn_trace s @ evs" "set evs \<subseteq> A"
  using assms unfolding within_def by (metis snd_conv)

lemma within_calm: "calm B m \<Longrightarrow> B \<subseteq> A \<Longrightarrow> within A m"
  unfolding calm_def within_def by (meson subset_trans)

lemma within_ret [within_rules]: "within A (ret x)"
  by (simp add: within_def)

lemma within_raise [within_rules]: "within A (raise x)"
  by (simp add: within_def)

lemma within_state_only [within_rules]:
  "within A current_op" "within A (change_op f)" "within A (change_step k g)" "within A (set_code c)"
  "within A close_writes" "within A open_writes" "within A (transition_to t)"
  by (auto simp: within_def change_step_def set_code_def open_writes_def transition_to_def from_op_result_def
        bind_tx_def split: sum.splits)

lemma within_bind [within_rules]:
  assumes m: "within A m" and f: "\<And>x. within A (f x)"
  shows "within A (bind_tx m f)"
  unfolding within_def
proof
  fix s
  obtain r t where t: "m s = (r, t)" by force
  from m t obtain evs where 1: "rn_trace t = rn_trace s @ evs" "set evs \<subseteq> A" by (rule withinE)
  show "\<exists>evs. rn_trace (snd (bind_tx m f s)) = rn_trace s @ evs \<and> set evs \<subseteq> A"
  proof (cases r)
    case (Inl e)
    then show ?thesis using 1 t by auto
  next
    case (Inr x)
    obtain r' t' where t': "f x t = (r', t')" by force
    from f t' obtain evs' where "rn_trace t' = rn_trace t @ evs'" "set evs' \<subseteq> A" by (rule withinE)
    then show ?thesis using 1 t t' Inr by auto
  qed
qed

lemma within_attempt [within_rules]: "within A m \<Longrightarrow> within A (attempt m)"
  by (simp add: within_def attempt_def split: prod.splits) (metis snd_conv)

lemma within_try_call [within_rules]: "(\<And>r. ev r \<in> A) \<Longrightarrow> within A (try_call p ev)"
  by (simp add: within_def run_try_call)

lemma within_call [within_rules]: "(\<And>r. ev r \<in> A) \<Longrightarrow> within A (call p ev)"
  unfolding call_def by (intro within_rules) (auto split: sum.splits intro: within_rules)

lemma within_if [within_rules]: "(c \<Longrightarrow> within A m) \<Longrightarrow> (\<not> c \<Longrightarrow> within A n) \<Longrightarrow> within A (if c then m else n)"
  by simp

lemma within_option [within_rules]:
  "(x = None \<Longrightarrow> within A m) \<Longrightarrow> (\<And>y. x = Some y \<Longrightarrow> within A (f y))
   \<Longrightarrow> within A (case x of None \<Rightarrow> m | Some y \<Rightarrow> f y)"
  by (cases x) auto

lemma within_sum [within_rules]:
  "(\<And>y. within A (f y)) \<Longrightarrow> (\<And>y. within A (g y)) \<Longrightarrow> within A (case x of Inl y \<Rightarrow> f y | Inr y \<Rightarrow> g y)"
  by (cases x) auto

lemma within_reconciliation [within_rules]:
  "within A m \<Longrightarrow> (\<And>e. within A (f e)) \<Longrightarrow> (\<And>e. within A (g e)) \<Longrightarrow> (\<And>e. within A (h e))
   \<Longrightarrow> within A (case x of Missing \<Rightarrow> m | StagedEffect e \<Rightarrow> f e | AppliedEffect e \<Rightarrow> g e | OwnershipLost e \<Rightarrow> h e)"
  by (cases x) auto

lemma within_let [within_rules]: "within A (f x) \<Longrightarrow> within A (let y = x in f y)"
  by simp

section \<open>Decisions\<close>

definition steady_events :: "event set" where
  "steady_events = {e. \<not> undo_event e}"

text \<open>Before the decision: nothing is undone, no rolling-back state becomes durable.\<close>

definition quiet_events :: "event set" where
  "quiet_events = {e. \<not> undo_event e \<and> e \<noteq> Journal RollingBack True}"

definition no_change :: "event list \<Rightarrow> bool" where
  "no_change evs \<longleftrightarrow> list_all (\<lambda>e. \<not> change_event e) evs"

lemma decided_from_True: "no_change evs \<Longrightarrow> decided_from True evs"
  by (induction evs) (auto simp: no_change_def)

lemma decided_from_mono: "decided_from d evs \<Longrightarrow> no_change evs \<Longrightarrow> decided_from True evs"
  using decided_from_True by blast

lemma decided_quiet: "set xs \<subseteq> quiet_events \<Longrightarrow> decided_from False (xs @ ys) = decided_from False ys"
  by (induction xs) (auto simp: quiet_events_def)

lemma decided_still:
  assumes "set xs \<subseteq> steady_events" "no_change xs" "decided_from False ys" "no_change ys"
  shows "decided_from False (xs @ ys)"
proof -
  have "decided_from d ys \<Longrightarrow> decided_from d (xs @ ys)" for d
    using assms(1,2)
  proof (induction xs arbitrary: d)
    case (Cons e xs)
    have "decided_from (d \<or> e = Journal RollingBack True) ys"
      using Cons.prems(1) decided_from_True[OF assms(4)] by (cases "e = Journal RollingBack True") auto
    then show ?case using Cons by (simp add: no_change_def steady_events_def)
  qed simp
  then show ?thesis using assms(3) by blast
qed

text \<open>
  Programs of a run, by what they do from a state that is not rolling back: \<open>forward\<close> ones only go on,
  \<open>decides\<close> ones may decide on a rollback. A program \<open>undoes\<close> if it applies nothing.
\<close>

definition forward :: "('w, 'a) txm \<Rightarrow> bool" where
  "forward m \<longleftrightarrow> (\<forall>s. op_state_of (rn_op s) \<noteq> RollingBack \<longrightarrow>
     (\<exists>evs. rn_trace (snd (m s)) = rn_trace s @ evs \<and> set evs \<subseteq> quiet_events
        \<and> op_state_of (rn_op (snd (m s))) \<noteq> RollingBack))"

definition decides :: "('w, 'a) txm \<Rightarrow> bool" where
  "decides m \<longleftrightarrow> (\<forall>s. op_state_of (rn_op s) \<noteq> RollingBack \<longrightarrow>
     (\<exists>evs. rn_trace (snd (m s)) = rn_trace s @ evs \<and> decided evs))"

definition undoes :: "('w, 'a) txm \<Rightarrow> bool" where
  "undoes m \<longleftrightarrow> (\<forall>s. \<exists>evs. rn_trace (snd (m s)) = rn_trace s @ evs \<and> decided evs \<and> no_change evs)"

named_theorems forward_rules "programs that go on"

lemma forward_calm:
  assumes "calm A m" "A \<subseteq> steady_events"
  shows "forward m"
  unfolding forward_def
proof (intro allI impI)
  fix s :: "'a run" assume s: "op_state_of (rn_op s) \<noteq> RollingBack"
  obtain evs where evs: "rn_trace (snd (m s)) = rn_trace s @ evs" "set evs \<subseteq> A" "journals_in (op_state_of (rn_op s)) evs"
    "op_state_of (rn_op (snd (m s))) = op_state_of (rn_op s)"
    using calm_stated[OF assms(1), of s] by (metis surjective_pairing)
  then have "set evs \<subseteq> quiet_events" using assms(2) s by (auto simp: quiet_events_def steady_events_def journals_in_def)
  then show "\<exists>evs. rn_trace (snd (m s)) = rn_trace s @ evs \<and> set evs \<subseteq> quiet_events
        \<and> op_state_of (rn_op (snd (m s))) \<noteq> RollingBack"
    using evs s by metis
qed

lemma forward_state_only [forward_rules]:
  "forward (ret x)" "forward (raise e)" "forward current_op" "forward (change_step k g)" "forward (set_code c)"
  "forward close_writes" "t \<noteq> RollingBack \<Longrightarrow> forward (transition_to t)"
  by (auto simp: forward_def change_step_def set_code_def transition_to_def from_op_result_def op_transition_def
        bind_tx_def step_mut_def split: sum.splits if_splits)

lemma forward_bind [forward_rules]:
  assumes m: "forward m" and f: "\<And>x. forward (f x)"
  shows "forward (bind_tx m f)"
  unfolding forward_def
proof (intro allI impI)
  fix s :: "'a run" assume s: "op_state_of (rn_op s) \<noteq> RollingBack"
  obtain r t where t: "m s = (r, t)" by force
  obtain evs where 1: "rn_trace t = rn_trace s @ evs" "set evs \<subseteq> quiet_events" "op_state_of (rn_op t) \<noteq> RollingBack"
    using m s t unfolding forward_def by (metis snd_conv)
  show "\<exists>evs. rn_trace (snd (bind_tx m f s)) = rn_trace s @ evs \<and> set evs \<subseteq> quiet_events
      \<and> op_state_of (rn_op (snd (bind_tx m f s))) \<noteq> RollingBack"
  proof (cases r)
    case (Inl e)
    then show ?thesis using 1 t by auto
  next
    case (Inr x)
    obtain evs' where "rn_trace (snd (f x t)) = rn_trace t @ evs'" "set evs' \<subseteq> quiet_events"
      "op_state_of (rn_op (snd (f x t))) \<noteq> RollingBack" using f[of x] 1(3) unfolding forward_def by metis
    then show ?thesis using 1 t Inr by auto
  qed
qed

lemma forward_attempt [forward_rules]: "forward m \<Longrightarrow> forward (attempt m)"
  by (simp add: forward_def attempt_def split: prod.splits) (metis snd_conv)

lemma forward_cases [forward_rules]:
  "(c \<Longrightarrow> forward m) \<Longrightarrow> (\<not> c \<Longrightarrow> forward n) \<Longrightarrow> forward (if c then m else n)"
  "forward p \<Longrightarrow> (\<And>y. forward (f y)) \<Longrightarrow> forward (case x of None \<Rightarrow> p | Some y \<Rightarrow> f y)"
  "(\<And>y. forward (g y)) \<Longrightarrow> (\<And>y. forward (h y)) \<Longrightarrow> forward (case z of Inl y \<Rightarrow> g y | Inr y \<Rightarrow> h y)"
  "(\<And>y. forward (k y)) \<Longrightarrow> forward (let y = v in k y)"
  by (simp_all split: option.splits sum.splits)

lemma forward_reconciliation [forward_rules]:
  "forward m \<Longrightarrow> (\<And>e. forward (f e)) \<Longrightarrow> (\<And>e. forward (g e)) \<Longrightarrow> (\<And>e. forward (h e))
   \<Longrightarrow> forward (case x of Missing \<Rightarrow> m | StagedEffect e \<Rightarrow> f e | AppliedEffect e \<Rightarrow> g e | OwnershipLost e \<Rightarrow> h e)"
  by (cases x) auto

lemma decides_forward: "forward m \<Longrightarrow> decides m"
  unfolding forward_def decides_def decided_def using decided_quiet[of _ "[]"] by fastforce

lemma decides_undoes: "undoes m \<Longrightarrow> decides m"
  unfolding undoes_def decides_def by blast

lemma decides_bind:
  assumes m: "forward m" and f: "\<And>x. decides (f x)"
  shows "decides (bind_tx m f)"
  unfolding decides_def
proof (intro allI impI)
  fix s :: "'a run" assume s: "op_state_of (rn_op s) \<noteq> RollingBack"
  obtain r t where t: "m s = (r, t)" by force
  obtain evs where 1: "rn_trace t = rn_trace s @ evs" "set evs \<subseteq> quiet_events" "op_state_of (rn_op t) \<noteq> RollingBack"
    using m s t unfolding forward_def by (metis snd_conv)
  show "\<exists>evs. rn_trace (snd (bind_tx m f s)) = rn_trace s @ evs \<and> decided evs"
  proof (cases r)
    case (Inl e)
    then show ?thesis using 1 t decided_quiet[of evs "[]"] by (auto simp: decided_def)
  next
    case (Inr x)
    obtain evs' where "rn_trace (snd (f x t)) = rn_trace t @ evs'" "decided evs'"
      using f[of x] 1(3) unfolding decides_def by metis
    then show ?thesis using 1 t Inr decided_quiet[of evs evs'] by (auto simp: decided_def)
  qed
qed

lemma undoes_bind:
  assumes m: "within {e. \<not> undo_event e \<and> \<not> change_event e} m" and f: "\<And>x. undoes (f x)"
  shows "undoes (bind_tx m f)"
  unfolding undoes_def
proof
  fix s
  obtain r t where t: "m s = (r, t)" by force
  obtain evs where 1: "rn_trace t = rn_trace s @ evs" "set evs \<subseteq> steady_events" "no_change evs"
    using withinE[OF m t] unfolding no_change_def steady_events_def list_all_iff by (metis (mono_tags, lifting) mem_Collect_eq subset_iff)
  have alone: "decided evs" using decided_still[OF 1(2,3), of "[]"] by (simp add: decided_def no_change_def)
  show "\<exists>evs. rn_trace (snd (bind_tx m f s)) = rn_trace s @ evs \<and> decided evs \<and> no_change evs"
  proof (cases r)
    case (Inl e)
    then show ?thesis using 1 t alone by auto
  next
    case (Inr x)
    obtain evs' where e': "rn_trace (snd (f x t)) = rn_trace t @ evs'" "decided evs'" "no_change evs'"
      using f[of x] unfolding undoes_def by metis
    then have "decided (evs @ evs')" "no_change (evs @ evs')"
      using decided_still[OF 1(2,3), of evs'] 1(3) by (simp_all add: decided_def no_change_def)
    then show ?thesis using e' 1 t Inr by auto
  qed
qed

lemma undoes_within:
  assumes "within {e. \<not> undo_event e \<and> \<not> change_event e} m"
  shows "undoes m"
  unfolding undoes_def
proof
  fix s
  obtain evs where 1: "rn_trace (snd (m s)) = rn_trace s @ evs" "set evs \<subseteq> steady_events" "no_change evs"
    using assms unfolding within_def no_change_def steady_events_def list_all_iff
    by (metis (mono_tags, lifting) mem_Collect_eq subset_iff)
  then show "\<exists>evs. rn_trace (snd (m s)) = rn_trace s @ evs \<and> decided evs \<and> no_change evs"
    using decided_still[OF 1(2,3), of "[]"] by (auto simp: decided_def no_change_def)
qed

lemma steady_sets [simp]:
  "journal_events \<subseteq> steady_events" "observing_events \<subseteq> steady_events" "record_events \<subseteq> steady_events"
  "forward_events \<subseteq> steady_events" "abort_events \<subseteq> steady_events" "activating_events \<subseteq> steady_events"
  by (auto simp: event_sets steady_events_def)

context journal_port begin

lemma within_save [within_rules]: "journal_events \<subseteq> A \<Longrightarrow> within A (save_op P)"
  using calm_save by (rule within_calm)

lemma within_run_step: "within steady_events (run_step P D k)"
  unfolding run_step_def
  by (intro within_rules within_calm[OF calm_stage_step]) auto

lemma within_run_steps: "within steady_events (run_steps P D ks)"
proof (induction ks)
  case Nil
  show ?case unfolding run_steps.simps by (intro within_rules)
next
  case (Cons k ks)
  then show ?case unfolding run_steps.simps by (intro within_rules within_run_step)
qed

lemma within_finish_op: "(\<And>s b. Finish s b \<in> A) \<Longrightarrow> within A (finish_op P)"
  unfolding finish_op_def by (intro within_rules) auto

lemma within_finish_and_reopen: "(\<And>s b. Finish s b \<in> A) \<Longrightarrow> (\<And>b. GateOpened b \<in> A) \<Longrightarrow> within A (finish_and_reopen P)"
  unfolding finish_and_reopen_def by (intro within_rules within_finish_op) auto

lemma within_park: "within steady_events (park_tail P code)"
  unfolding park_tail_def save_tail_def by (intro within_rules) (auto simp: steady_events_def)

lemma within_check_roots: "within steady_events (check_roots P is)"
proof (induction "is")
  case Nil
  show ?case unfolding check_roots.simps by (intro within_rules)
next
  case (Cons i rest)
  then show ?case unfolding check_roots.simps
    by (intro within_rules within_calm[OF calm_observe[OF order_refl]]) auto
qed

lemma within_files_applied: "within steady_events (files_applied P is)"
proof (induction "is")
  case Nil
  show ?case unfolding files_applied.simps by (intro within_rules)
next
  case (Cons i rest)
  then show ?case unfolding files_applied.simps
    by (intro within_rules within_calm[OF calm_observe[OF order_refl]]) auto
qed

lemma within_load: "within steady_events (load_into_run P i)"
  unfolding load_into_run_def by (intro within_rules) (auto simp: steady_events_def)

lemma within_install: "within {e. closing_event e} (install_snapshot P D)"
  unfolding install_snapshot_def by (intro within_rules) (auto simp: event_sets)

lemma within_install_steady [within_rules]: "within steady_events (install_snapshot P D)"
proof -
  have "{e. closing_event e} \<subseteq> steady_events" by (auto simp: steady_events_def elim: undo_event.elims)
  then show ?thesis using within_install[of D] unfolding within_def by (meson subset_trans)
qed

lemma save_op_ok:
  assumes "save_op P s = (Inr u, t)"
  shows "rn_trace t = rn_trace s @ [Journal (op_state_of (rn_op s)) True] \<and> frozen (rn_op t) = frozen (rn_op s)"
proof -
  obtain o2 w where "p_save P (rn_op s) (rn_world s) = (Inr o2, w)"
      "t = s\<lparr>rn_world := w, rn_trace := rn_trace s @ [Journal (op_state_of (rn_op s)) (is_ok (Inr o2 :: port_error + operation))],
        rn_op := o2\<rparr>"
    using assms by (auto simp: save_op_def bind_ok_iff call_ok_iff)
  then show ?thesis using saved[of "rn_op s" "rn_world s"] by auto
qed

text \<open>The decision of a rollback is the save of the rolling-back state.\<close>

lemma undoes_saved:
  assumes m: "within {e. \<not> undo_event e \<and> \<not> change_event e} m"
    and state: "\<And>s x t. m s = (Inr x, t) \<Longrightarrow> op_state_of (rn_op t) = RollingBack"
    and f: "within {e. \<not> change_event e} f"
  shows "undoes (bind_tx m (\<lambda>_. bind_tx (save_op P) (\<lambda>_. f)))"
  unfolding undoes_def
proof
  fix s
  let ?prog = "bind_tx m (\<lambda>_. bind_tx (save_op P) (\<lambda>_. f))"
  obtain r t where t: "m s = (r, t)" by force
  obtain evs where evs: "rn_trace t = rn_trace s @ evs" "set evs \<subseteq> steady_events" "no_change evs"
    using withinE[OF m t] unfolding no_change_def steady_events_def list_all_iff
    by (metis (mono_tags, lifting) mem_Collect_eq subset_iff)
  note still = decided_still[OF evs(2,3)]
  show "\<exists>evs. rn_trace (snd (?prog s)) = rn_trace s @ evs \<and> decided evs \<and> no_change evs"
  proof (cases r)
    case (Inl e)
    then show ?thesis using t evs still[of "[]"] by (auto simp: decided_def no_change_def)
  next
    case (Inr x)
    then have rb: "op_state_of (rn_op t) = RollingBack" using state t by blast
    obtain q u where u: "save_op P t = (q, u)" by force
    show ?thesis
    proof (cases q)
      case (Inl e)
      obtain evs' where evs': "rn_trace u = rn_trace t @ evs'" "set evs' \<subseteq> journal_events"
        using withinE[OF within_save[OF order_refl] u] .
      then have "no_change evs'" "set evs' \<subseteq> steady_events"
        by (auto simp: no_change_def list_all_iff journal_events_def steady_events_def)
      then have "decided (evs @ evs')" "no_change (evs @ evs')"
        using still[of evs'] decided_still[of evs' "[]"] evs(3) by (auto simp: decided_def no_change_def)
      then show ?thesis using t u evs evs' Inl \<open>r = Inr x\<close> by auto
    next
      case (Inr y)
      obtain fevs where fevs: "rn_trace (snd (f u)) = rn_trace u @ fevs" "set fevs \<subseteq> {e. \<not> change_event e}"
        using f unfolding within_def by blast
      have "rn_trace u = rn_trace t @ [Journal RollingBack True]" using save_op_ok u rb Inr by metis
      then have tr: "rn_trace (snd (?prog s)) = rn_trace s @ evs @ Journal RollingBack True # fevs"
        using fevs evs t u Inr \<open>r = Inr x\<close> by simp
      have nc: "no_change fevs" using fevs(2) by (auto simp: no_change_def list_all_iff)
      then have "decided_from False (Journal RollingBack True # fevs)" "no_change (Journal RollingBack True # fevs)"
        using decided_from_True by (auto simp: no_change_def)
      then show ?thesis using tr still evs(3) nc
        by (intro exI[of _ "evs @ Journal RollingBack True # fevs"]) (simp add: decided_def no_change_def)
    qed
  qed
qed

lemma enter_rollback_ok: "enter_rollback s = (Inr u, t) \<Longrightarrow> op_state_of (rn_op t) = RollingBack"
  by (auto simp: enter_rollback_def transition_to_ok_iff split: if_splits)

lemma within_enter_rollback: "within A enter_rollback"
  unfolding enter_rollback_def by (intro within_rules)

lemma undoes_rollback_effects: "undoes (rollback_effects P code)"
proof -
  have "undoes (bind_tx (bind_tx (set_code (Some code)) (\<lambda>_. enter_rollback)) (\<lambda>_. bind_tx (save_op P) (\<lambda>_.
    bind_tx (rollback_steps P (rev ALL_STEPS)) (\<lambda>uncertain.
    bind_tx (if uncertain then ret True
             else bind_tx (attempt (reconcile_terminal_rollback P)) (\<lambda>r. ret (\<not> is_ok r))) (\<lambda>uncertain.
    bind_tx (transition_to (if uncertain then NeedsAttention else RolledBack)) (\<lambda>_.
    finish_and_reopen P))))))"
    by (intro undoes_saved within_rules within_finish_and_reopen within_enter_rollback
        within_calm[OF calm_rollback_steps] within_calm[OF calm_terminal_rollback])
      (auto simp: event_sets dest: enter_rollback_ok)
  then show ?thesis by (simp only: rollback_effects_def bind_assoc)
qed

lemma undoes_finish_rollback: "undoes (finish_rollback P code)"
proof -
  have case_on: "undoes (case x of None \<Rightarrow> m | Some e \<Rightarrow> f e)" if "undoes m" "\<And>e. undoes (f e)"
    for x :: "port_error option" and m :: "('a, unit) txm" and f using that by (cases x) auto
  have branch: "undoes (if c then m else n)" if "undoes m" "undoes n" for c and m n :: "('a, unit) txm"
    using that by simp
  show ?thesis
    unfolding finish_rollback_def rollback_unavailable_def rollback_unconfirmed_def
    by (intro undoes_bind case_on branch undoes_rollback_effects undoes_within within_rules within_finish_op
        within_enter_rollback within_calm[OF calm_abort]) (auto simp: event_sets)
qed

lemma calm_finish: "calm {e. \<exists>s b. e = Finish s b} (finish_op P)"
proof (rule calmI)
  fix s :: "'w run"
  show "\<exists>evs. rn_trace (snd (finish_op P s)) = rn_trace s @ evs \<and> set evs \<subseteq> {e. \<exists>s b. e = Finish s b}
     \<and> journals_in (op_state_of (rn_op s)) evs
     \<and> frozen (rn_op (snd (finish_op P s))) = frozen (rn_op s) \<and> rn_open (snd (finish_op P s)) = rn_open s"
    using finished[of "rn_op s" "rn_world s"]
    by (cases "p_finish P (rn_op s) (rn_world s)"; cases "fst (p_finish P (rn_op s) (rn_world s))")
      (auto simp: finish_op_def call_def bind_tx_def run_try_call journals_in_other)
qed

lemma calm_save_tail: "calm {e. \<exists>b. e = Tail b} (save_tail P)"
proof (rule calmI)
  fix s :: "'w run"
  show "\<exists>evs. rn_trace (snd (save_tail P s)) = rn_trace s @ evs \<and> set evs \<subseteq> {e. \<exists>b. e = Tail b}
     \<and> journals_in (op_state_of (rn_op s)) evs
     \<and> frozen (rn_op (snd (save_tail P s))) = frozen (rn_op s) \<and> rn_open (snd (save_tail P s)) = rn_open s"
    using tail_saved[of "rn_op s" "rn_world s"]
    by (cases "p_save_tail P (rn_op s) (rn_world s)"; cases "fst (p_save_tail P (rn_op s) (rn_world s))")
      (auto simp: save_tail_def call_def bind_tx_def run_try_call journals_in_other)
qed

lemma forward_calls [forward_rules]:
  "forward (save_op P)" "forward (finish_op P)" "forward (save_tail P)" "forward (observe P i)"
  "(\<And>r. \<not> undo_event (ev r)) \<Longrightarrow> (\<And>r st b. ev r \<noteq> Journal st b) \<Longrightarrow> forward (call p ev)"
  "(\<And>r. \<not> undo_event (ev r)) \<Longrightarrow> (\<And>r st b. ev r \<noteq> Journal st b) \<Longrightarrow> forward (try_call p ev)"
  by (rule forward_calm[OF calm_save] forward_calm[OF calm_finish] forward_calm[OF calm_save_tail]
      forward_calm[OF calm_observe[OF order_refl]] forward_calm[OF calm_call[of _ steady_events]]
      forward_calm[OF calm_try_call[of _ steady_events]]; auto simp: steady_events_def event_sets)+

lemma step_state_forward: "step_state k \<noteq> RollingBack"
  by (cases k) (simp_all)

lemma forward_run_step: "forward (run_step P D k)"
  unfolding run_step_def
  by (intro forward_rules forward_calm[OF calm_stage_step] step_state_forward) simp_all

lemma forward_run_steps: "forward (run_steps P D ks)"
proof (induction ks)
  case Nil
  show ?case unfolding run_steps.simps by (intro forward_rules)
next
  case (Cons k ks)
  then show ?case unfolding run_steps.simps by (intro forward_rules forward_run_step)
qed

lemma forward_finish_and_reopen: "forward (finish_and_reopen P)"
  unfolding finish_and_reopen_def by (intro forward_rules) simp_all

lemma forward_install: "forward (install_snapshot P D)"
  unfolding install_snapshot_def by (intro forward_rules) simp_all

lemma forward_park: "forward (park_tail P code)"
  unfolding park_tail_def by (intro forward_rules)

lemma forward_check_roots: "forward (check_roots P is)"
proof (induction "is")
  case Nil
  show ?case unfolding check_roots.simps by (intro forward_rules)
next
  case (Cons i rest)
  then show ?case unfolding check_roots.simps by (intro forward_rules)
qed

lemma forward_files_applied: "forward (files_applied P is)"
proof (induction "is")
  case Nil
  show ?case unfolding files_applied.simps by (intro forward_rules)
next
  case (Cons i rest)
  then show ?case unfolding files_applied.simps by (intro forward_rules)
qed

lemma decides_cases:
  "(c \<Longrightarrow> decides m) \<Longrightarrow> (\<not> c \<Longrightarrow> decides n) \<Longrightarrow> decides (if c then m else n)"
  "(x = None \<Longrightarrow> decides p) \<Longrightarrow> (\<And>y. x = Some y \<Longrightarrow> decides (f y)) \<Longrightarrow> decides (case x of None \<Rightarrow> p | Some y \<Rightarrow> f y)"
  "(\<And>y. decides (g y)) \<Longrightarrow> (\<And>y. decides (h y)) \<Longrightarrow> decides (case z of Inl y \<Rightarrow> g y | Inr y \<Rightarrow> h y)"
  by (simp_all split: option.splits sum.splits)

lemmas decides_finish_rollback = decides_undoes[OF undoes_finish_rollback]

lemma decides_finish_success: "decides (finish_success P D)"
  unfolding finish_success_def
  by (intro decides_bind decides_cases decides_finish_rollback decides_forward[OF forward_bind] forward_install
      forward_rules forward_finish_and_reopen forward_calm[OF calm_terminal_success]) auto

lemma decides_run_steps_and_finish: "decides (run_steps_and_finish P D)"
  unfolding run_steps_and_finish_def
  by (intro decides_bind decides_cases forward_run_steps decides_finish_rollback decides_finish_success)

lemma decides_run_forward: "decides (run_forward P D)"
  unfolding run_forward_def
  by (intro decides_bind decides_cases forward_run_steps decides_finish_rollback decides_finish_success
      decides_forward[OF forward_park] forward_rules)

lemma decides_root:
  "decides m \<Longrightarrow> decides m' \<Longrightarrow> decides m'' \<Longrightarrow>
   decides (case v of RootsServing \<Rightarrow> m | RootsUnproven \<Rightarrow> m' | RootReplaced \<Rightarrow> m'')"
  by (cases v) auto

lemma decides_resume: "decides (resume_settings_tail P D rc False)"
  unfolding resume_settings_tail_def not_False_eq_True if_True
  by (intro decides_bind decides_root decides_cases decides_finish_rollback decides_run_steps_and_finish
      decides_forward[OF forward_park] forward_rules forward_check_roots forward_files_applied)

text \<open>
  A run of an operation that needs no attention and is not the retry of a parked tail, which starts
  over from the row it loads.
\<close>

lemma run_decides:
  assumes "op_state_of (rn_op s) \<noteq> NeedsAttention" "rn_trace s = []" "\<not> retry \<or> settings_service_receipt D (rn_op s) = None"
  shows "decided (rn_trace (snd (run_operation_locked P D retry s)))"
proof -
  have fwd: "decides m \<Longrightarrow> op_state_of (rn_op s) \<noteq> RollingBack \<Longrightarrow> decided (rn_trace (snd (m s)))" for m :: "('w, unit) txm"
    using assms(2) unfolding decides_def by (metis append_Nil)
  have undo: "decided (rn_trace (snd (finish_rollback P c s)))" for c
    using undoes_finish_rollback[of c] assms(2) unfolding undoes_def by (metis append_Nil)
  show ?thesis
    unfolding run_operation_locked_def
    using assms undo fwd[OF decides_resume] fwd[OF decides_run_forward]
    by (auto simp: decided_def split: option.splits)
qed

section \<open>Proved endings\<close>

lemma acknowledge_fields [simp]:
  "op_steps (acknowledge_commit g o1) = op_steps o1" "op_state_of (acknowledge_commit g o1) = op_state_of o1"
  by (auto simp: acknowledge_commit_def split: option.splits)

lemma finish_ok:
  assumes "finish_and_reopen P s = (Inr u, t)"
  shows "\<exists>evs. rn_trace t = rn_trace s @ evs \<and> list_all closing_event evs
     \<and> Finish (op_state_of (rn_op s)) True \<in> set evs \<and> frozen (rn_op t) = frozen (rn_op s) \<and> op_steps (rn_op t) = op_steps (rn_op s)"
proof -
  obtain o2 w where "p_finish P (rn_op s) (rn_world s) = (Inr o2, w)"
      "rn_op t = o2" "rn_trace t = rn_trace s @ [Finish (op_state_of (rn_op s)) True, GateOpened True]"
    using assms by (auto simp: finish_and_reopen_def finish_op_def bind_ok_iff call_ok_iff)
  then show ?thesis
    using finished[of "rn_op s" "rn_world s"]
    by auto
qed

lemma observe_ok:
  "observe P i s = (Inr r, t) \<Longrightarrow> rn_trace t = rn_trace s @ [Observing i (Some r)] \<and> rn_op t = rn_op s"
  by (auto simp: observe_def call_ok_iff)

lemma require_applied_ok: "require_applied r s = (Inr u, t) \<longleftrightarrow> (\<exists>f. r = AppliedEffect f) \<and> t = s \<and> u = ()"
  by (cases r) auto

lemma require_missing_ok: "require_missing r s = (Inr u, t) \<longleftrightarrow> r = Missing \<and> t = s \<and> u = ()"
  by (cases r) auto

lemma require_compensated_ok: "require_compensated r s = (Inr u, t) \<longleftrightarrow> r \<noteq> CompensationLost \<and> t = s \<and> u = ()"
  by (cases r) auto

lemma for_each_ok:
  assumes "for_each f xs s = (Inr u, t)"
    and step: "\<And>x s t u. f x s = (Inr u, t) \<Longrightarrow> \<exists>evs. rn_trace t = rn_trace s @ evs \<and> rn_op t = rn_op s \<and> R x evs"
  shows "\<exists>evss. rn_trace t = rn_trace s @ concat evss \<and> rn_op t = rn_op s \<and> list_all2 R xs evss"
  using assms(1)
proof (induction xs arbitrary: s)
  case Nil
  then show ?case by (auto intro!: exI[of _ "[]"])
next
  case (Cons x xs)
  then obtain s1 where 1: "f x s = (Inr (), s1)" and 2: "for_each f xs s1 = (Inr u, t)"
    by (auto simp: bind_ok_iff)
  obtain evs where evs: "rn_trace s1 = rn_trace s @ evs" "rn_op s1 = rn_op s" "R x evs" using step[OF 1] by blast
  obtain evss where "rn_trace t = rn_trace s1 @ concat evss" "rn_op t = rn_op s1" "list_all2 R xs evss"
    using Cons.IH[OF 2] by blast
  then show ?case using evs by (intro exI[of _ "evs # evss"]) auto
qed

lemma single_events:
  "list_all2 (\<lambda>x evs. if c x then \<exists>e. evs = [e] \<and> Q x e else evs = []) xs evss \<Longrightarrow>
   list_all2 Q (filter c xs) (concat evss)"
  by (induction rule: list_all2_induct) (auto split: if_splits)

lemma observations_ok:
  assumes "for_each (\<lambda>i. bind_tx (observe P i) need) xs s = (Inr u, t)"
    and need: "\<And>i r s t u. need r s = (Inr u, t) \<Longrightarrow> t = s \<and> Q i (Observing i (Some r))"
  shows "\<exists>evs. rn_trace t = rn_trace s @ evs \<and> rn_op t = rn_op s \<and> list_all2 Q xs evs"
proof -
  have "\<exists>evss. rn_trace t = rn_trace s @ concat evss \<and> rn_op t = rn_op s
      \<and> list_all2 (\<lambda>x evs. if True then \<exists>e. evs = [e] \<and> Q x e else evs = []) xs evss"
    by (rule for_each_ok[OF assms(1)]) (auto simp: bind_ok_iff dest!: observe_ok need)
  then show ?thesis using single_events[of "\<lambda>_. True" Q xs] by auto
qed

lemma terminal_success_ok:
  assumes "reconcile_terminal_success P s = (Inr u, t)"
  shows "\<exists>obs. rn_trace t = rn_trace s @ obs \<and> rn_op t = rn_op s
    \<and> list_all2 observed_applied (success_items (op_plan_of (rn_op s))) obs"
  using assms unfolding reconcile_terminal_success_def bind_current_op
  by (rule observations_ok) (auto simp: require_applied_ok observed_applied_def)

lemma compensate_exactly_ok:
  assumes "compensate_exactly P x s = (Inr u, t)"
  shows "\<exists>evs. rn_trace t = rn_trace s @ evs \<and> rn_op t = rn_op s
    \<and> (if ef_kind x \<noteq> LoginItem then \<exists>e. evs = [e] \<and> undone_now x e else evs = [])"
proof (cases "ef_kind x = LoginItem")
  case True
  then show ?thesis using assms by (auto simp: compensate_exactly_def compensate_effect_def bind_ok_iff)
next
  case False
  then obtain c w where "p_compensate P (rn_op s) x (rn_world s) = (Inr c, w)" "c \<noteq> CompensationLost"
      "t = s\<lparr>rn_world := w, rn_trace := rn_trace s @ [Compensation x (Some c)]\<rparr>"
    using assms by (auto simp: compensate_exactly_def compensate_effect_def bind_ok_iff call_ok_iff require_compensated_ok)
  then show ?thesis using False by (cases c) (auto simp: undone_now_def)
qed

lemma terminal_rollback_ok:
  assumes "reconcile_terminal_rollback P s = (Inr u, t)"
  shows "\<exists>undo obs. rn_trace t = rn_trace s @ undo @ obs \<and> rn_op t = rn_op s
    \<and> list_all2 undone_now (filter (\<lambda>x. ef_kind x \<noteq> LoginItem) (recorded_effects (rn_op s))) undo
    \<and> list_all2 observed_missing (rollback_items (op_plan_of (rn_op s))) obs"
proof -
  obtain s1 where 1: "for_each (compensate_exactly P) (recorded_effects (rn_op s)) s = (Inr (), s1)"
    and 2: "for_each (\<lambda>i. bind_tx (observe P i) require_missing) (rollback_items (op_plan_of (rn_op s))) s1 = (Inr u, t)"
    using assms by (auto simp: reconcile_terminal_rollback_def bind_ok_iff)
  have "\<exists>evss. rn_trace s1 = rn_trace s @ concat evss \<and> rn_op s1 = rn_op s
      \<and> list_all2 (\<lambda>x evs. if ef_kind x \<noteq> LoginItem then \<exists>e. evs = [e] \<and> undone_now x e else evs = [])
        (recorded_effects (rn_op s)) evss"
    by (rule for_each_ok[OF 1]) (rule compensate_exactly_ok)
  then obtain evss where undo: "rn_trace s1 = rn_trace s @ concat evss" "rn_op s1 = rn_op s"
      "list_all2 (\<lambda>x evs. if ef_kind x \<noteq> LoginItem then \<exists>e. evs = [e] \<and> undone_now x e else evs = [])
        (recorded_effects (rn_op s)) evss"
    by blast
  obtain obs where "rn_trace t = rn_trace s1 @ obs" "rn_op t = rn_op s1"
      "list_all2 observed_missing (rollback_items (op_plan_of (rn_op s))) obs"
    using observations_ok[OF 2, of observed_missing] by (auto simp: require_missing_ok observed_missing_def)
  then show ?thesis using undo(1,2) single_events[OF undo(3)] by auto
qed

lemma install_ok: "install_snapshot P D s = (Inr u, t) \<Longrightarrow> frozen (rn_op t) = frozen (rn_op s)"
  by (auto simp: install_snapshot_def Let_def bind_ok_iff run_try_call split: if_splits sum.splits dest!: save_op_ok)

lemma settled_terminal:
  assumes "finish_and_reopen P s = (Inr u, t)" "proved s"
  shows "settled t"
proof -
  obtain evs where evs: "rn_trace t = rn_trace s @ evs" "list_all closing_event evs" "frozen (rn_op t) = frozen (rn_op s)"
      "op_steps (rn_op t) = op_steps (rn_op s)" "Finish (op_state_of (rn_op s)) True \<in> set evs"
    using finish_ok[OF assms(1)] by blast
  have same: "op_plan_of (rn_op t) = op_plan_of (rn_op s)" "op_state_of (rn_op t) = op_state_of (rn_op s)"
      "recorded_effects (rn_op t) = recorded_effects (rn_op s)"
    using frozenD[OF evs(3)] evs(4) by (auto simp: recorded_effects_def step_effects_def find_step_def)
  have "success_proved (rn_op s) (rn_trace s) \<Longrightarrow> success_proved (rn_op t) (rn_trace t)"
    unfolding success_proved_def evs(1) same using evs(2) by (metis append.assoc list_all_append)
  moreover have "rollback_proved (rn_op s) (rn_trace s) \<Longrightarrow> rollback_proved (rn_op t) (rn_trace t)"
    unfolding rollback_proved_def evs(1) same using evs(2) by (metis append.assoc list_all_append)
  ultimately show ?thesis using assms(2) same evs(1,5) by (simp add: settled_def proved_def)
qed

text \<open>A program settles when each of its successful runs ends in a settled state.\<close>

definition settles :: "('w, 'a) txm \<Rightarrow> bool" where
  "settles m \<longleftrightarrow> (\<forall>s x t. m s = (Inr x, t) \<longrightarrow> settled t)"

lemma settles_bind: "(\<And>x. settles (f x)) \<Longrightarrow> settles (bind_tx m f)"
  unfolding settles_def by (auto simp: bind_ok_iff)

lemma settles_raise: "settles (raise e)"
  by (simp add: settles_def)

lemma settles_cases:
  "(c \<Longrightarrow> settles m) \<Longrightarrow> (\<not> c \<Longrightarrow> settles n) \<Longrightarrow> settles (if c then m else n)"
  "(x = None \<Longrightarrow> settles p) \<Longrightarrow> (\<And>y. x = Some y \<Longrightarrow> settles (f y)) \<Longrightarrow> settles (case x of None \<Rightarrow> p | Some y \<Rightarrow> f y)"
  "(\<And>y. settles (g y)) \<Longrightarrow> (\<And>y. settles (h y)) \<Longrightarrow> settles (case z of Inl y \<Rightarrow> g y | Inr y \<Rightarrow> h y)"
  "settles q \<Longrightarrow> settles q' \<Longrightarrow> settles q'' \<Longrightarrow>
   settles (case v of RootsServing \<Rightarrow> q | RootsUnproven \<Rightarrow> q' | RootReplaced \<Rightarrow> q'')"
  by (simp_all split: option.splits sum.splits root_verdict.splits)

lemma settled_other: "op_state_of (rn_op s) \<noteq> Succeeded \<Longrightarrow> op_state_of (rn_op s) \<noteq> RolledBack \<Longrightarrow> settled s"
  by (simp add: settled_def proved_def)

lemma settles_park: "settles (park_tail P code)"
  unfolding settles_def park_tail_def save_tail_def
proof (intro allI impI)
  fix s x t
  assume "bind_tx (set_code (Some code)) (\<lambda>_. bind_tx current_op (\<lambda>o1. bind_tx
      (call (p_save_tail P o1) (\<lambda>r. Tail (is_ok r))) (\<lambda>o2. change_op (\<lambda>_. o2)))) s = (Inr x, t)"
  then obtain o1 o2 w w' where "p_save_tail P o1 w = (Inr o2, w')" "rn_op t = o2"
    by (auto simp: bind_ok_iff call_ok_iff)
  then have "\<not> op_terminal (op_state_of (rn_op t))"
    using tail_saved[of o1 w] by auto
  then show "settled t" by (intro settled_other) (auto simp: op_terminal_def)
qed

text \<open>A transition to the rolled-back state that rests on its proof, and then finishes.\<close>

lemma settles_rolled_back:
  assumes "reconcile_terminal_rollback P s = (Inr u, s1)" "transition_to RolledBack s1 = (Inr v, s2)"
    "finish_and_reopen P s2 = (Inr x, t)"
  shows "settled t"
proof (rule settled_terminal[OF assms(3)])
  have s2: "s2 = s1\<lparr>rn_op := (rn_op s1)\<lparr>op_state_of := RolledBack\<rparr>\<rparr>"
    using assms(2) by (auto simp: transition_to_ok_iff)
  obtain undo obs where ev: "rn_trace s1 = rn_trace s @ undo @ obs @ []" "rn_op s1 = rn_op s"
      "list_all2 undone_now (filter (\<lambda>x. ef_kind x \<noteq> LoginItem) (recorded_effects (rn_op s))) undo"
      "list_all2 observed_missing (rollback_items (op_plan_of (rn_op s))) obs"
    using terminal_rollback_ok[OF assms(1)] by auto
  have "recorded_effects (rn_op s2) = recorded_effects (rn_op s)"
    by (simp add: s2 ev(2) recorded_effects_def step_effects_def find_step_def)
  then have "rollback_proved (rn_op s2) (rn_trace s2)"
    unfolding rollback_proved_def
    using ev by (intro exI[of _ "rn_trace s"] exI[of _ undo] exI[of _ obs] exI[of _ "[]"]) (simp add: s2)
  then show "proved s2" by (simp add: proved_def s2)
qed

lemma settles_attention:
  assumes "transition_to NeedsAttention s1 = (Inr v, s2)" "finish_and_reopen P s2 = (Inr x, t)"
  shows "settled t"
  using settled_terminal[OF assms(2)] assms(1) by (auto simp: transition_to_ok_iff proved_def)

lemma settles_verdict:
  "settles (bind_tx (if b then ret True
             else bind_tx (attempt (reconcile_terminal_rollback P)) (\<lambda>r. ret (\<not> is_ok r))) (\<lambda>uncertain.
    bind_tx (transition_to (if uncertain then NeedsAttention else RolledBack)) (\<lambda>_. finish_and_reopen P)))"
proof -
  have attention: "settles (bind_tx (transition_to NeedsAttention) (\<lambda>_. finish_and_reopen P))"
    unfolding settles_def using settles_attention by (auto simp: bind_ok_iff)
  show ?thesis
  proof (cases b)
    case True
    then show ?thesis using attention by simp
  next
    case False
    have "settled t" if run: "bind_tx (bind_tx (attempt (reconcile_terminal_rollback P)) (\<lambda>r. ret (\<not> is_ok r)))
        (\<lambda>uncertain. bind_tx (transition_to (if uncertain then NeedsAttention else RolledBack))
          (\<lambda>_. finish_and_reopen P)) s = (Inr x, t)" for s x t
    proof (cases "reconcile_terminal_rollback P s")
      case (Pair r s1)
      show ?thesis
      proof (cases r)
        case (Inl e)
        then have "bind_tx (transition_to NeedsAttention) (\<lambda>_. finish_and_reopen P) s1 = (Inr x, t)"
          using run Pair by (simp add: bind_assoc bind_attempt_iff)
        then show ?thesis using attention unfolding settles_def by blast
      next
        case (Inr u)
        then have "bind_tx (transition_to RolledBack) (\<lambda>_. finish_and_reopen P) s1 = (Inr x, t)"
          using run Pair by (simp add: bind_assoc bind_attempt_iff)
        then show ?thesis using settles_rolled_back Pair Inr by (auto simp: bind_ok_iff)
      qed
    qed
    then show ?thesis using False unfolding settles_def by simp
  qed
qed

lemma settles_rollback_effects: "settles (rollback_effects P code)"
  unfolding rollback_effects_def by (intro settles_bind settles_verdict)

lemma settles_unconfirmed: "settles (rollback_unconfirmed P)"
  unfolding settles_def
proof (intro allI impI)
  fix s x t
  assume "rollback_unconfirmed P s = (Inr x, t)"
  then obtain s1 where "finish_op P s1 = (Inr x, t)" "op_state_of (rn_op s1) = NeedsAttention"
    by (auto simp: rollback_unconfirmed_def bind_ok_iff transition_to_ok_iff)
  then have "op_state_of (rn_op t) = NeedsAttention"
    by (auto simp: finish_op_def bind_ok_iff call_ok_iff dest!: finished)
  then show "settled t" by (simp add: settled_other)
qed

lemma settles_finish_rollback: "settles (finish_rollback P code)"
  unfolding finish_rollback_def rollback_unavailable_def
  by (intro settles_bind settles_cases settles_rollback_effects settles_unconfirmed settles_raise)

lemma settles_success_end:
  assumes "reconcile_terminal_success P s = (Inr u, s1)" "install_snapshot P D s1 = (Inr v, s2)"
    "transition_to Succeeded s2 = (Inr v', s3)" "finish_and_reopen P s3 = (Inr x, t)"
  shows "settled t"
proof (rule settled_terminal[OF assms(4)])
  obtain obs where obs: "rn_trace s1 = rn_trace s @ obs" "rn_op s1 = rn_op s"
      "list_all2 observed_applied (success_items (op_plan_of (rn_op s))) obs"
    using terminal_success_ok[OF assms(1)] by blast
  obtain evs where evs: "rn_trace s2 = rn_trace s1 @ evs" "set evs \<subseteq> {e. closing_event e}"
    by (rule withinE[OF within_install assms(2)])
  have s3: "s3 = s2\<lparr>rn_op := (rn_op s2)\<lparr>op_state_of := Succeeded\<rparr>\<rparr>"
    using assms(3) by (auto simp: transition_to_ok_iff)
  have "op_plan_of (rn_op s2) = op_plan_of (rn_op s)"
    using frozenD(1)[OF install_ok[OF assms(2)]] obs(2) by simp
  then have "success_proved (rn_op s3) (rn_trace s3)"
    unfolding success_proved_def using obs evs
    by (intro exI[of _ "rn_trace s"] exI[of _ obs] exI[of _ evs]) (auto simp: s3 list_all_iff)
  then show "proved s3" by (simp add: proved_def s3)
qed

lemma settles_finish_success: "settles (finish_success P D)"
  unfolding settles_def
proof (intro allI impI)
  fix s x t
  assume run: "finish_success P D s = (Inr x, t)"
  show "settled t"
  proof (cases "reconcile_terminal_success P s")
    case (Pair r s1)
    then show ?thesis
    proof (cases r)
      case (Inl e)
      then have "finish_rollback P (safe_code e) s1 = (Inr x, t)"
        using run Pair by (simp add: finish_success_def bind_attempt_iff)
      then show ?thesis using settles_finish_rollback unfolding settles_def by blast
    next
      case (Inr u)
      then show ?thesis
        using run Pair settles_success_end by (auto simp: finish_success_def bind_attempt_iff bind_ok_iff)
    qed
  qed
qed

lemma settles_run_steps_and_finish: "settles (run_steps_and_finish P D)"
  unfolding run_steps_and_finish_def
  by (intro settles_bind settles_cases settles_finish_rollback settles_finish_success)

lemma settles_run_forward: "settles (run_forward P D)"
  unfolding run_forward_def
  by (intro settles_bind settles_cases settles_finish_rollback settles_finish_success settles_park)

lemma settles_resume: "settles (resume_settings_tail P D rc retry)"
  unfolding resume_settings_tail_def retry_settings_tail_def
  by (intro settles_bind settles_cases settles_finish_rollback settles_finish_success settles_park
      settles_run_steps_and_finish)

lemma recheck_settled:
  assumes "op_state_of (rn_op s) = NeedsAttention" "recheck_attention P s = (Inr x, t)"
  shows "settled t"
proof (cases "all_compensated (rn_op s)")
  case False
  then show ?thesis using assms by (auto simp: recheck_attention_def intro!: settled_other)
next
  case True
  show ?thesis
  proof (cases "reconcile_terminal_rollback P s")
    case (Pair r s1)
    show ?thesis
    proof (cases r)
      case (Inl e)
      then have "t = s1" using assms True Pair by (auto simp: recheck_attention_def bind_attempt_iff)
      moreover have "frozen (rn_op s1) = frozen (rn_op s)"
        using calmE[OF calm_terminal_rollback Pair] by metis
      ultimately show ?thesis using assms(1) frozenD(2) by (metis op_state.distinct settled_other)
    next
      case (Inr u)
      then show ?thesis
        using assms True Pair settles_rolled_back by (auto simp: recheck_attention_def bind_attempt_iff bind_ok_iff)
    qed
  qed
qed

lemma run_settled:
  assumes "op_state_of (rn_op s) \<noteq> Succeeded" "op_state_of (rn_op s) \<noteq> RolledBack"
    and run: "run_operation_locked P D retry s = (Inr x, t)"
  shows "settled t"
proof -
  have "settles m \<Longrightarrow> m s = (Inr x, t) \<Longrightarrow> settled t" for m :: "('w, unit) txm"
    unfolding settles_def by blast
  note fwd = this[OF settles_finish_rollback] this[OF settles_resume] this[OF settles_run_forward]
  show ?thesis
    using assms fwd recheck_settled by (auto simp: run_operation_locked_def op_terminal_def split: if_splits option.splits)
qed

end

end
