(* ===== verification/Transaction_Invariant.thy ===== *)
theory Transaction_Invariant
  imports Transaction_Proofs
begin

text \<open>
  Invariants of a run. \<open>keeps\<close> is preservation of a state predicate by a program, on success and on
  failure, and \<open>gives\<close> bounds its result too. The locale \<open>effect_invariant\<close> asks it of the calls and of
  the changes of the operation, where every effect an adapter answers with, and so every effect of
  the journal, is good; it gives the invariant for a whole run that does not retry a client file.
  \<open>run_invariant\<close> is the case in which every effect is good.
\<close>

section \<open>Preservation\<close>

definition keeps :: "('w run \<Rightarrow> bool) \<Rightarrow> ('w, 'a) txm \<Rightarrow> bool" where
  "keeps J m \<longleftrightarrow> (\<forall>s. J s \<longrightarrow> J (snd (m s)))"

named_theorems keeps_rules "preservation by the program constructors"

lemma keepsD: "keeps J m \<Longrightarrow> J s \<Longrightarrow> m s = (r, t) \<Longrightarrow> J t"
  unfolding keeps_def by (metis snd_conv)

lemma keeps_ret [keeps_rules]: "keeps J (ret x)"
  by (simp add: keeps_def)

lemma keeps_raise [keeps_rules]: "keeps J (raise x)"
  by (simp add: keeps_def)

lemma keeps_current_op [keeps_rules]: "keeps J current_op"
  by (simp add: keeps_def)

lemma keeps_bind [keeps_rules]:
  assumes m: "keeps J m" and f: "\<And>x. keeps J (f x)"
  shows "keeps J (bind_tx m f)"
  unfolding keeps_def
proof (intro allI impI)
  fix s
  assume "J s"
  then have "J (snd (m s))" using m by (simp add: keeps_def)
  then show "J (snd (bind_tx m f s))"
    using f unfolding keeps_def by (cases "m s"; cases "fst (m s)") auto
qed

lemma keeps_attempt [keeps_rules]: "keeps J m \<Longrightarrow> keeps J (attempt m)"
  by (auto simp: keeps_def attempt_def split: prod.splits)

lemma keeps_for_each [keeps_rules]: "(\<And>x. x \<in> set xs \<Longrightarrow> keeps J (f x)) \<Longrightarrow> keeps J (for_each f xs)"
proof (induction xs)
  case Nil
  show ?case unfolding for_each.simps by (rule keeps_ret)
next
  case (Cons x xs)
  then show ?case unfolding for_each.simps by (intro keeps_bind) auto
qed

lemma keeps_if [keeps_rules]: "(c \<Longrightarrow> keeps J m) \<Longrightarrow> (\<not> c \<Longrightarrow> keeps J n) \<Longrightarrow> keeps J (if c then m else n)"
  by simp

lemma keeps_option [keeps_rules]:
  "(x = None \<Longrightarrow> keeps J m) \<Longrightarrow> (\<And>y. x = Some y \<Longrightarrow> keeps J (f y))
   \<Longrightarrow> keeps J (case x of None \<Rightarrow> m | Some y \<Rightarrow> f y)"
  by (cases x) auto

lemma keeps_sum [keeps_rules]:
  "(\<And>y. keeps J (f y)) \<Longrightarrow> (\<And>y. keeps J (g y)) \<Longrightarrow> keeps J (case x of Inl y \<Rightarrow> f y | Inr y \<Rightarrow> g y)"
  by (cases x) auto

lemma keeps_prod [keeps_rules]: "(\<And>a b. keeps J (f a b)) \<Longrightarrow> keeps J (case x of (a, b) \<Rightarrow> f a b)"
  by (cases x) auto

lemma keeps_require [keeps_rules]:
  "keeps J (require_applied r)" "keeps J (require_missing r)" "keeps J (require_compensated c)"
  by (cases r; simp add: keeps_def; fail)+ (cases c; simp add: keeps_def)

lemma keeps_let [keeps_rules]: "keeps J (f x) \<Longrightarrow> keeps J (let y = x in f y)"
  by simp

lemma keeps_reconciliation [keeps_rules]:
  "keeps J m \<Longrightarrow> (\<And>e. keeps J (f e)) \<Longrightarrow> (\<And>e. keeps J (g e)) \<Longrightarrow> (\<And>e. keeps J (h e))
   \<Longrightarrow> keeps J (case x of Missing \<Rightarrow> m | StagedEffect e \<Rightarrow> f e | AppliedEffect e \<Rightarrow> g e | OwnershipLost e \<Rightarrow> h e)"
  by (cases x) auto

lemma keeps_root [keeps_rules]:
  "keeps J m \<Longrightarrow> keeps J m' \<Longrightarrow> keeps J m'' \<Longrightarrow>
   keeps J (case v of RootsServing \<Rightarrow> m | RootsUnproven \<Rightarrow> m' | RootReplaced \<Rightarrow> m'')"
  by (cases v) auto

text \<open>A predicate established on the way: by \<open>m\<close> when it succeeds, and kept from there on.\<close>

lemma keeps_establish:
  assumes m: "keeps J m" and est: "\<And>s x t. J s \<Longrightarrow> m s = (Inr x, t) \<Longrightarrow> J' t"
    and f: "\<And>x. keeps J' (f x)" and weak: "\<And>s. J' s \<Longrightarrow> J s"
  shows "keeps J (bind_tx m f)"
  unfolding keeps_def
proof (intro allI impI)
  fix s
  assume s: "J s"
  obtain r t where t: "m s = (r, t)" by force
  show "J (snd (bind_tx m f s))"
  proof (cases r)
    case (Inl e)
    then show ?thesis using keepsD[OF m s t] t by simp
  next
    case (Inr x)
    then have "J' (snd (f x t))" using est[OF s] t f unfolding keeps_def by blast
    then show ?thesis using weak t Inr by simp
  qed
qed

text \<open>A bound of the result beside the invariant.\<close>

definition gives :: "('w run \<Rightarrow> bool) \<Rightarrow> ('a \<Rightarrow> bool) \<Rightarrow> ('w, 'a) txm \<Rightarrow> bool" where
  "gives J Q m \<longleftrightarrow> (\<forall>s. J s \<longrightarrow> J (snd (m s)) \<and> (\<forall>x. fst (m s) = Inr x \<longrightarrow> Q x))"

lemma gives_keeps: "gives J Q m \<Longrightarrow> keeps J m"
  by (simp add: gives_def keeps_def)

lemma gives_True: "keeps J m \<Longrightarrow> (\<And>x. Q x) \<Longrightarrow> gives J Q m"
  by (simp add: gives_def keeps_def)

lemma gives_bind:
  assumes m: "gives J Q m" and f: "\<And>x. Q x \<Longrightarrow> keeps J (f x)"
  shows "keeps J (bind_tx m f)"
  unfolding keeps_def
proof (intro allI impI)
  fix s
  assume s: "J s"
  obtain r t where t: "m s = (r, t)" by force
  have J: "J t" using m s t by (auto simp: gives_def)
  show "J (snd (bind_tx m f s))"
  proof (cases r)
    case (Inr x)
    then have "Q x" using m s t by (auto simp: gives_def)
    then show ?thesis using f J t Inr by (auto simp: keeps_def)
  qed (use J t in simp)
qed

lemma gives_bind_gives:
  assumes m: "keeps J m" and f: "\<And>x. gives J Q (f x)"
  shows "gives J Q (bind_tx m f)"
  unfolding gives_def
proof (intro allI impI conjI)
  fix s
  assume s: "J s"
  obtain r t where t: "m s = (r, t)" by force
  have J: "J t" using keepsD[OF m s t] .
  show "J (snd (bind_tx m f s))" using f J t unfolding gives_def by (cases r) auto
  show "Q x" if "fst (bind_tx m f s) = Inr x" for x using f J t that unfolding gives_def by (cases r) auto
qed

lemma gives_bind_both:
  assumes m: "gives J Q m" and f: "\<And>x. Q x \<Longrightarrow> gives J R (f x)"
  shows "gives J R (bind_tx m f)"
  unfolding gives_def
proof (intro allI impI conjI)
  fix s
  assume s: "J s"
  obtain r t where t: "m s = (r, t)" by force
  have J: "J t" and Q: "r = Inr x \<Longrightarrow> Q x" for x using m s t unfolding gives_def by force+
  show "J (snd (bind_tx m f s))" using f[OF Q] J t unfolding gives_def by (cases r) auto
  show "R x" if "fst (bind_tx m f s) = Inr x" for x using f[OF Q] J t that unfolding gives_def by (cases r) auto
qed

lemma gives_raise: "gives J Q (raise e)"
  by (simp add: gives_def)

section \<open>Runs\<close>

text \<open>The effects of a reconciliation, of a step and of an operation.\<close>

fun reconciled :: "(owned_effect \<Rightarrow> bool) \<Rightarrow> reconciliation \<Rightarrow> bool" where
  "reconciled good Missing \<longleftrightarrow> True"
| "reconciled good (StagedEffect e) \<longleftrightarrow> good e"
| "reconciled good (AppliedEffect e) \<longleftrightarrow> good e"
| "reconciled good (OwnershipLost e) \<longleftrightarrow> good e"

definition good_step :: "(owned_effect \<Rightarrow> bool) \<Rightarrow> op_step \<Rightarrow> bool" where
  "good_step good st \<longleftrightarrow> list_all good (os_effects st)"

definition good_op :: "(owned_effect \<Rightarrow> bool) \<Rightarrow> operation \<Rightarrow> bool" where
  "good_op good o1 \<longleftrightarrow> list_all (good_step good) (op_steps o1)"

lemma good_effects:
  assumes "good_op good o1" "e \<in> set (step_effects k o1)"
  shows "good e"
proof -
  obtain st where st: "find_step k o1 = Some st" "e \<in> set (os_effects st)"
    using assms(2) by (cases "find_step k o1") (auto simp: step_effects_def)
  have "st \<in> set (op_steps o1)" using st(1) unfolding find_step_def find_Some_iff by (metis nth_mem)
  then show ?thesis using assms(1) st(2) by (auto simp: good_op_def good_step_def list_all_iff)
qed

lemma good_recorded: "good_op good o1 \<Longrightarrow> e \<in> set (recorded_effects o1) \<Longrightarrow> good e"
  by (auto simp: recorded_effects_def dest: good_effects)

lemma good_put: "good e \<Longrightarrow> good_step good st \<Longrightarrow> good_step good (st\<lparr>os_effects := put_effect e (os_effects st)\<rparr>)"
proof -
  have "list_all good xs \<Longrightarrow> good e \<Longrightarrow> list_all good (update_first q (\<lambda>_. e) xs)" for q xs
    by (induction xs) auto
  then show "good e \<Longrightarrow> good_step good st \<Longrightarrow> ?thesis" by (simp add: good_step_def put_effect_def)
qed

lemma good_step_updates [simp]:
  "good_step good (st\<lparr>os_status := a\<rparr>) = good_step good st" "good_step good (st\<lparr>os_attempts := n\<rparr>) = good_step good st"
  "good_step good (st\<lparr>os_result := r\<rparr>) = good_step good st" "good_step good (step_applied D st) = good_step good st"
  by (simp_all add: good_step_def step_applied_def)

locale effect_calls =
  fixes P :: "'w ports" and D :: codecs and J :: "'w run \<Rightarrow> bool" and good :: "owned_effect \<Rightarrow> bool"
  assumes save [keeps_rules]: "keeps J (save_op P)"
    and tail_save [keeps_rules]: "keeps J (save_tail P)"
    and finish [keeps_rules]: "keeps J (finish_op P)"
    and closes [keeps_rules]: "keeps J close_writes"
    and step_changes: "(\<And>st. good_step good st \<Longrightarrow> good_step good (f st)) \<Longrightarrow> keeps J (change_step k f)"
    and changes [keeps_rules]: "keeps J (set_code c)" "keeps J (transition_to t)"
    and journal: "J s \<Longrightarrow> good_op good (rn_op s)"
    and observes: "gives J (reconciled good) (observe P i)"
    and applies: "gives J good (apply_item P i x)" "gives J good (apply_control P D)"
    and inputs [keeps_rules]: "keeps J (read_matching P slot fp)"
    and compensates: "good e \<Longrightarrow> keeps J (call (p_compensate P o1 e) (\<lambda>r. Compensation e (case r of Inl _ \<Rightarrow> None | Inr x \<Rightarrow> Some x)))"
    and aborts: "good e \<Longrightarrow> gives J (\<lambda>r. case r of Inl _ \<Rightarrow> True | Inr ck \<Rightarrow> good ck)
      (try_call (p_prepare_rollback P o1 e) (\<lambda>r. AbortPrepared e (is_ok r)))"
    and installs [keeps_rules]: "keeps J (try_call (p_install_snapshot P o1) (\<lambda>r. SnapshotInstalled (is_ok r)))"
    and reopens [keeps_rules]: "keeps J (call (p_finish_activation P o1) (\<lambda>r. GateOpened (is_ok r)))"

context effect_calls begin

lemma with_op: "(\<And>o1. good_op good o1 \<Longrightarrow> keeps J (f o1)) \<Longrightarrow> keeps J (bind_tx current_op f)"
  using journal by (simp add: keeps_def)

lemmas observing [keeps_rules] = gives_keeps[OF observes]

lemma keeps_record: "good e \<Longrightarrow> keeps J (record_effect P k e)"
  unfolding record_effect_def by (intro keeps_rules step_changes) (simp_all add: good_put)

lemma keeps_stage_item: "gives J good m \<Longrightarrow> keeps J (stage_item P k i m)"
  unfolding stage_item_def
  by (rule gives_bind[OF observes], rename_tac r, case_tac r)
    (auto intro: gives_bind[where Q = good] keeps_raise keeps_record intro!: keeps_bind[OF keeps_record])

lemma gives_secret: "gives J good (apply_secret P m)" "gives J good (apply_grant P g)"
  unfolding apply_secret_def apply_grant_def
  by (auto intro!: gives_bind_gives gives_raise applies inputs split: option.splits)

end

text \<open>An activation whose calls answer with good effects.\<close>

locale effect_activation = effect_calls P D J good for P :: "'w ports" and D :: codecs and J :: "'w run \<Rightarrow> bool"
    and good :: "owned_effect \<Rightarrow> bool" +
  assumes activates: "good e \<Longrightarrow> gives J good (activate_item P i e)"
    and gate [keeps_rules]: "keeps J (call (p_begin_activation P o1) (\<lambda>r. GateClosed (is_ok r)))"
    and artifacts [keeps_rules]: "keeps J (call (p_prepare_artifact P o1 n) (\<lambda>r. ArtifactPrepared n (is_ok r)))"
    and publishes: "good e \<Longrightarrow> gives J good (call (p_prepare_publication P o1 e) (\<lambda>r. PublicationPrepared e (is_ok r)))"

context effect_activation begin

lemma keeps_activate_observed:
  "(\<And>e. good e \<Longrightarrow> gives J good (act e)) \<Longrightarrow> keeps J (activate_observed P k i act)"
  unfolding activate_observed_def
  by (rule gives_bind[OF observes], rename_tac r, case_tac r)
    (auto intro: gives_bind[where Q = good] keeps_raise keeps_record)

lemma keeps_activate_step [keeps_rules]: "keeps J (activate_step P k i)"
  unfolding activate_step_def by (intro keeps_activate_observed activates)

lemma gives_publish: "good e \<Longrightarrow> gives J good (publish_staged P i e)"
  unfolding publish_staged_def
  by (rule gives_bind_gives[OF keeps_current_op], rule gives_bind_both[OF publishes], assumption,
      rule gives_bind_gives, erule keeps_record, erule activates)

lemma keeps_exact: "keeps J (activate_exact_effects P D)"
  unfolding activate_exact_effects_def activate_grants_def activate_artifact_def activate_settings_tail_def
    seal_settings_completion_def
  by (intro keeps_rules keeps_activate_observed gives_publish step_changes) (simp_all add: good_step_def)

end

locale effect_invariant = effect_calls P D J good for P :: "'w ports" and D :: codecs and J :: "'w run \<Rightarrow> bool"
    and good :: "owned_effect \<Rightarrow> bool" +
  assumes exact [keeps_rules]: "keeps J (activate_exact_effects P D)"

sublocale effect_activation \<subseteq> effect_invariant
  by unfold_locales (rule keeps_exact)

context effect_invariant begin

lemma keeps_stage_step [keeps_rules]: "keeps J (stage_step P D k)"
  unfolding stage_step_def stage_grants_def run_external_kind_def
  by (cases k)
    (simp_all only: step_kind.case, (intro keeps_bind keeps_current_op keeps_for_each keeps_stage_item gives_secret applies exact keeps_ret)+)

lemma keeps_run_step [keeps_rules]: "keeps J (run_step P D k)"
  unfolding run_step_def by (intro keeps_rules step_changes) simp_all

lemma keeps_run_steps [keeps_rules]: "keeps J (run_steps P D ks)"
proof (induction ks)
  case Nil
  show ?case unfolding run_steps.simps by (intro keeps_rules)
next
  case (Cons k ks)
  then show ?case unfolding run_steps.simps by (intro keeps_rules)
qed

lemma keeps_compensate: "good e \<Longrightarrow> keeps J (compensate_exactly P e)"
  unfolding compensate_exactly_def compensate_effect_def by (intro keeps_rules compensates)

lemma keeps_terminal [keeps_rules]:
  "keeps J (reconcile_terminal_success P)" "keeps J (reconcile_terminal_rollback P)"
proof -
  show "keeps J (reconcile_terminal_success P)"
    unfolding reconcile_terminal_success_def by (intro keeps_rules)
  show "keeps J (reconcile_terminal_rollback P)"
    unfolding reconcile_terminal_rollback_def
    by (rule with_op, intro keeps_bind keeps_for_each keeps_compensate keeps_require observing) (rule good_recorded)
qed

lemma keeps_reobserve [keeps_rules]: "keeps J (reobserve P k is)"
proof (induction "is")
  case Nil
  show ?case unfolding reobserve.simps by (intro keeps_rules)
next
  case (Cons i rest)
  show ?case unfolding reobserve.simps
    by (rule gives_bind[OF observes], rename_tac r, case_tac r)
      (auto intro!: keeps_bind keeps_ret keeps_record Cons.IH)
qed

lemma keeps_compensate_all: "\<forall>e\<in>set es. good e \<Longrightarrow> keeps J (compensate_all P es)"
proof (induction es)
  case Nil
  show ?case unfolding compensate_all.simps by (intro keeps_rules)
next
  case (Cons e es)
  then show ?case unfolding compensate_all.simps by (intro keeps_rules keeps_compensate) auto
qed

lemma keeps_compensate_step [keeps_rules]: "keeps J (compensate_step P k)"
  unfolding compensate_step_def
  by (rule with_op, intro keeps_bind keeps_compensate_all keeps_if keeps_raise keeps_ret) (auto dest: good_effects)

lemma keeps_reconcile_step [keeps_rules]: "keeps J (reconcile_step_for_rollback P k)"
  unfolding reconcile_step_for_rollback_def
  by (cases k) (simp_all only: step_kind.case, (intro keeps_rules)+)

lemma keeps_rollback_step [keeps_rules]: "keeps J (rollback_step P k)"
  unfolding rollback_step_def by (intro keeps_rules step_changes) simp_all

lemma keeps_rollback_steps [keeps_rules]: "keeps J (rollback_steps P ks)"
proof (induction ks)
  case Nil
  show ?case unfolding rollback_steps.simps by (intro keeps_rules)
next
  case (Cons k ks)
  then show ?case unfolding rollback_steps.simps by (intro keeps_rules)
qed

lemma keeps_abort: "\<forall>e\<in>set es. good e \<Longrightarrow> keeps J (abort_publications P es)"
proof (induction es)
  case Nil
  show ?case unfolding abort_publications.simps by (intro keeps_rules)
next
  case (Cons e es)
  then have rest: "keeps J (abort_publications P es)" and e: "good e" by auto
  show ?case unfolding abort_publications.simps
    by (rule keeps_bind[OF keeps_current_op], rule gives_bind[OF aborts[OF e]], rename_tac o1 r, case_tac r)
      (auto intro!: keeps_bind keeps_ret keeps_record rest)
qed

lemma keeps_rollback_effects [keeps_rules]: "keeps J (rollback_effects P code)"
  unfolding rollback_effects_def enter_rollback_def finish_and_reopen_def by (intro keeps_rules)

lemma keeps_finish_rollback [keeps_rules]: "keeps J (finish_rollback P code)"
proof -
  have ends: "keeps J (rollback_unavailable P)" "keeps J (rollback_unconfirmed P)"
    unfolding rollback_unavailable_def rollback_unconfirmed_def enter_rollback_def by (intro keeps_rules)+
  show ?thesis
    unfolding finish_rollback_def
    by (rule with_op, intro keeps_bind keeps_abort keeps_option keeps_if keeps_rollback_effects ends) (auto dest: good_effects)
qed

lemma keeps_finish_success [keeps_rules]: "keeps J (finish_success P D)"
  unfolding finish_success_def install_snapshot_def finish_and_reopen_def by (intro keeps_rules step_changes) simp_all

lemma keeps_check_roots [keeps_rules]: "keeps J (check_roots P is)"
proof (induction "is")
  case Nil
  show ?case unfolding check_roots.simps by (intro keeps_rules)
next
  case (Cons i rest)
  then show ?case unfolding check_roots.simps by (intro keeps_rules)
qed

lemma keeps_files_applied [keeps_rules]: "keeps J (files_applied P is)"
proof (induction "is")
  case Nil
  show ?case unfolding files_applied.simps by (intro keeps_rules)
next
  case (Cons i rest)
  then show ?case unfolding files_applied.simps by (intro keeps_rules)
qed

lemma keeps_park [keeps_rules]: "keeps J (park_tail P code)"
  unfolding park_tail_def by (intro keeps_rules)

lemma keeps_forward [keeps_rules]: "keeps J (run_forward P D)" "keeps J (run_steps_and_finish P D)"
  unfolding run_forward_def run_steps_and_finish_def by (intro keeps_rules)+

lemma keeps_resume [keeps_rules]: "keeps J (resume_settings_tail P D rc False)"
  unfolding resume_settings_tail_def
  by (simp only: simp_thms if_True, intro keeps_rules step_changes) simp_all

lemma keeps_run: "\<not> retry \<or> settings_service_receipt D (rn_op s) = None \<Longrightarrow> J s \<Longrightarrow>
  J (snd (run_operation_locked P D retry s))"
proof -
  assume s: "J s" and quiet: "\<not> retry \<or> settings_service_receipt D (rn_op s) = None"
  have recheck: "keeps J (recheck_attention P)"
    unfolding recheck_attention_def finish_and_reopen_def by (intro keeps_rules)
  have step: "keeps J m \<Longrightarrow> J (snd (m s))" for m
    using s unfolding keeps_def by blast
  show ?thesis
    using quiet s step[OF recheck] step[OF keeps_finish_rollback] step[OF keeps_resume] step[OF keeps_forward(1)]
    by (auto simp: run_operation_locked_def split: option.splits)
qed

lemma keeps_run_startup: "keeps J (run_operation_locked P D False)"
  using keeps_run by (simp add: keeps_def)

end

text \<open>Every effect is good.\<close>

locale run_invariant =
  fixes P :: "'w ports" and D :: codecs and J :: "'w run \<Rightarrow> bool"
  assumes save: "keeps J (save_op P)"
    and tail_save: "keeps J (save_tail P)"
    and finish: "keeps J (finish_op P)"
    and closes: "keeps J close_writes"
    and changes: "keeps J (change_step k f)" "keeps J (set_code c)" "keeps J (transition_to t)"
    and observes: "keeps J (observe P i)"
    and applies: "keeps J (apply_item P i x)" "keeps J (apply_control P D)"
    and inputs: "keeps J (read_matching P slot fp)"
    and compensates: "keeps J (call (p_compensate P o1 e) (\<lambda>r. Compensation e (case r of Inl _ \<Rightarrow> None | Inr x \<Rightarrow> Some x)))"
    and aborts: "keeps J (try_call (p_prepare_rollback P o1 e) (\<lambda>r. AbortPrepared e (is_ok r)))"
    and installs: "keeps J (try_call (p_install_snapshot P o1) (\<lambda>r. SnapshotInstalled (is_ok r)))"
    and reopens: "keeps J (call (p_finish_activation P o1) (\<lambda>r. GateOpened (is_ok r)))"
    and exact: "keeps J (activate_exact_effects P D)"

sublocale run_invariant \<subseteq> effect: effect_invariant P D J "\<lambda>_. True"
proof
  fix f k c t i x slot fp o1 e
  have true: "reconciled (\<lambda>_. True) r" for r by (cases r) simp_all
  show "keeps J (save_op P)" "keeps J (save_tail P)" "keeps J (finish_op P)" "keeps J close_writes"
    "keeps J (change_step k f)" "keeps J (set_code c)" "keeps J (transition_to t)" "keeps J (read_matching P slot fp)"
    "keeps J (call (p_compensate P o1 e) (\<lambda>r. Compensation e (case r of Inl _ \<Rightarrow> None | Inr x \<Rightarrow> Some x)))"
    "keeps J (try_call (p_install_snapshot P o1) (\<lambda>r. SnapshotInstalled (is_ok r)))"
    "keeps J (call (p_finish_activation P o1) (\<lambda>r. GateOpened (is_ok r)))" "keeps J (activate_exact_effects P D)"
    by (rule save tail_save finish closes changes inputs compensates installs reopens exact)+
  show "gives J (reconciled (\<lambda>_. True)) (observe P i)" by (rule gives_True[OF observes true])
  show "gives J (\<lambda>_. True) (apply_item P i x)" "gives J (\<lambda>_. True) (apply_control P D)"
    by (rule gives_True[OF applies(1)] gives_True[OF applies(2)], rule TrueI)+
  show "gives J (\<lambda>r. case r of Inl _ \<Rightarrow> True | Inr ck \<Rightarrow> True) (try_call (p_prepare_rollback P o1 e) (\<lambda>r. AbortPrepared e (is_ok r)))"
    by (rule gives_True[OF aborts]) (simp split: sum.splits)
  show "good_op (\<lambda>_. True) (rn_op s)" for s :: "'a run" by (simp add: good_op_def good_step_def list_all_iff)
qed

context run_invariant begin

lemmas keeps_run = effect.keeps_run

lemmas keeps_run_startup = effect.keeps_run_startup

end

end
