(* ===== verification/Transaction_Order.thy ===== *)
theory Transaction_Order
  imports Transaction_Invariant
begin

text \<open>
  The order of an activation: the client file of a settings operation is switched only when every
  publication of its plan serves. It is an invariant of the trace, given to \<open>run_invariant\<close>.
\<close>

section \<open>Services before client files\<close>

definition settings_switch :: "event \<Rightarrow> bool" where
  "settings_switch e \<longleftrightarrow> (\<exists>i b. e = ActivatingItem (IExternal i) b \<and> is_settings_managed_configuration i)"

definition serving :: "external_intent \<Rightarrow> event \<Rightarrow> bool" where
  "serving i e \<longleftrightarrow> e = ActivatingItem (IExternal i) True \<or> observed_applied (IExternal i) e"

definition all_serving :: "op_plan \<Rightarrow> event list \<Rightarrow> bool" where
  "all_serving p evs \<longleftrightarrow> list_all (\<lambda>i. ei_kind i = Publication \<longrightarrow> list_ex (serving i) evs) (tp_external p)"

text \<open>Before each switch of a client file, every publication of the plan serves.\<close>

definition service_first :: "op_plan \<Rightarrow> event list \<Rightarrow> bool" where
  "service_first p evs \<longleftrightarrow> (\<forall>pre e post. evs = pre @ e # post \<longrightarrow> settings_switch e \<longrightarrow> all_serving p pre)"

lemma service_first_Nil [simp]: "service_first p []"
  by (simp add: service_first_def)

lemma all_serving_append: "all_serving p evs \<Longrightarrow> all_serving p (evs @ more_evs)"
  by (auto simp: all_serving_def list_all_iff)

lemma service_first_append:
  assumes "service_first p evs" "all_serving p evs \<or> (\<forall>e\<in>set ys. \<not> settings_switch e)"
  shows "service_first p (evs @ ys)"
  unfolding service_first_def
proof (intro allI impI)
  fix pre e post
  assume split: "evs @ ys = pre @ e # post" and e: "settings_switch e"
  then consider us where "evs = pre @ e # us" | us where "pre = evs @ us" "ys = us @ e # post"
    by (auto simp: append_eq_append_conv2 append_eq_Cons_conv)
  then show "all_serving p pre"
  proof cases
    case 1
    then show ?thesis using assms(1) e unfolding service_first_def by blast
  next
    case 2
    then have "all_serving p evs" using assms(2) e by auto
    then show ?thesis using 2 by (simp add: all_serving_append)
  qed
qed

definition sf :: "op_plan \<Rightarrow> 'w run \<Rightarrow> bool" where
  "sf p s \<longleftrightarrow> op_plan_of (rn_op s) = p \<and> service_first p (rn_trace s)"

definition sf_serving :: "op_plan \<Rightarrow> 'w run \<Rightarrow> bool" where
  "sf_serving p s \<longleftrightarrow> sf p s \<and> all_serving p (rn_trace s)"

definition plain_events :: "event set" where
  "plain_events = {e. \<not> settings_switch e}"

lemma keeps_sf_calm: "calm plain_events m \<Longrightarrow> keeps (sf p) m" for m :: "('w, 'a) txm"
  unfolding keeps_def
proof (intro allI impI)
  fix s :: "'w run"
  assume m: "calm plain_events m" and s: "sf p s"
  obtain r t where t: "m s = (r, t)" by force
  obtain evs where evs: "rn_trace t = rn_trace s @ evs" "set evs \<subseteq> plain_events" "frozen (rn_op t) = frozen (rn_op s)"
    by (rule calmE[OF m t])
  have "service_first p (rn_trace s @ evs)"
    using s evs(2) by (intro service_first_append) (auto simp: sf_def plain_events_def)
  then show "sf p (snd (m s))"
    using s t evs frozenD(1)[OF evs(3)] by (simp add: sf_def)
qed

lemma keeps_serving_calm: "calm A m \<Longrightarrow> keeps (sf_serving p) m" for m :: "('w, 'a) txm"
  unfolding keeps_def
proof (intro allI impI)
  fix s :: "'w run"
  assume m: "calm A m" and s: "sf_serving p s"
  obtain r t where t: "m s = (r, t)" by force
  obtain evs where evs: "rn_trace t = rn_trace s @ evs" "frozen (rn_op t) = frozen (rn_op s)"
    by (rule calmE[OF m t])
  have "service_first p (rn_trace s @ evs)" "all_serving p (rn_trace s @ evs)"
    using s by (auto simp: sf_serving_def sf_def intro: service_first_append all_serving_append)
  then show "sf_serving p (snd (m s))"
    using s t evs frozenD(1)[OF evs(2)] by (simp add: sf_serving_def sf_def)
qed

lemma keeps_sf_transition [keeps_rules]: "keeps (sf p) (transition_to t)"
  unfolding keeps_def transition_to_def
  by (auto simp: op_transition_def from_op_result_def bind_tx_def sf_def split: if_splits)

lemma keeps_sf_close [keeps_rules]: "keeps (sf p) close_writes"
  by (simp add: keeps_def sf_def)

lemma plain_event [simp]:
  "PublicationPrepared e b \<in> plain_events" "ArtifactPrepared i b \<in> plain_events" "GateClosed b \<in> plain_events"
  "ActivatingItem it b \<in> plain_events \<longleftrightarrow> \<not> (\<exists>f. it = IExternal f \<and> is_settings_managed_configuration f)"
  by (auto simp: plain_events_def settings_switch_def)

lemma plain_sets [simp]:
  "journal_events \<subseteq> plain_events" "observing_events \<subseteq> plain_events" "record_events \<subseteq> plain_events"
  "staging_events \<subseteq> plain_events" "abort_events \<subseteq> plain_events" "rollback_events \<subseteq> plain_events"
  "compensation_events \<subseteq> plain_events"
  by (auto simp: event_sets plain_events_def settings_switch_def)

context journal_port begin

lemma keeps_sf_save [keeps_rules]: "keeps (sf p) (save_op P)"
  by (intro keeps_sf_calm calm_mono[OF calm_save]) simp

lemma keeps_sf_finish_op [keeps_rules]: "keeps (sf p) (finish_op P)"
  unfolding keeps_def
proof (intro allI impI)
  fix s :: "'w run"
  assume s: "sf p s"
  have switch: "service_first p xs \<Longrightarrow> service_first p (xs @ [Finish x b])" for p xs x b
    by (rule service_first_append) (auto simp: settings_switch_def)
  have plan: "op_plan_of (acknowledge_commit g o1) = op_plan_of o1" for g o1
    using frozenD(1)[OF frozen_updates(4)] .
  show "sf p (snd (finish_op P s))"
    using s finished[of "rn_op s" "rn_world s"] switch plan
    by (cases "p_finish P (rn_op s) (rn_world s)"; cases "fst (p_finish P (rn_op s) (rn_world s))")
      (auto simp: finish_op_def call_def bind_tx_def run_try_call sf_def)
qed

lemma activate_plain: "\<not> (\<exists>f. i = IExternal f \<and> is_settings_managed_configuration f) \<Longrightarrow> calm plain_events (activate_item P i e)"
  unfolding activate_item_def by (intro calm_rules) auto

lemma activate_step_plain:
  "\<not> (\<exists>f. i = IExternal f \<and> is_settings_managed_configuration f) \<Longrightarrow> calm plain_events (activate_step P k i)"
  unfolding activate_step_def by (intro calm_rules activate_plain) auto

lemma publication_not_settings [simp]: "ei_kind i = Publication \<Longrightarrow> \<not> is_settings_managed_configuration i"
  by (simp add: is_settings_managed_configuration_def)

lemma publish_plain: "ei_kind i = Publication \<Longrightarrow> calm plain_events (publish_staged P i e)"
  unfolding publish_staged_def
  by (intro calm_bind calm_current_op calm_call calm_record_effect activate_plain) auto

lemma publication_plain:
  "ei_kind i = Publication \<Longrightarrow> calm plain_events (activate_observed P k (IExternal i) (publish_staged P i))"
  by (intro calm_rules publish_plain) auto

lemma record_ok: "record_effect P k e s = (Inr u, t) \<Longrightarrow> \<exists>evs. rn_trace t = rn_trace s @ evs"
  using calmE[OF calm_record_effect[OF order_refl]] by metis

lemma publication_serves:
  assumes "activate_observed P k (IExternal i) (publish_staged P i) s = (Inr u, t)"
  shows "\<exists>evs. rn_trace t = rn_trace s @ evs \<and> list_ex (serving i) evs"
proof -
  obtain r s1 where 1: "observe P (IExternal i) s = (Inr r, s1)"
    and 2: "(case r of StagedEffect e \<Rightarrow> bind_tx (publish_staged P i e) (record_effect P k)
      | AppliedEffect e \<Rightarrow> record_effect P k e | Missing \<Rightarrow> raise EffectMissing
      | OwnershipLost _ \<Rightarrow> raise EffectOwnershipLost) s1 = (Inr u, t)"
    using assms by (auto simp: activate_observed_def bind_ok_iff)
  have s1: "rn_trace s1 = rn_trace s @ [Observing (IExternal i) (Some r)]" using observe_ok[OF 1] by simp
  show ?thesis
  proof (cases r)
    case (AppliedEffect e)
    then have "record_effect P k e s1 = (Inr u, t)" using 2 by simp
    then obtain evs where "rn_trace t = rn_trace s1 @ evs" using record_ok by blast
    then show ?thesis using s1 AppliedEffect by (auto simp: serving_def observed_applied_def)
  next
    case (StagedEffect e)
    then obtain ck s2 s3 x s4 where 3: "call (p_prepare_publication P (rn_op s1) e) (\<lambda>r. PublicationPrepared e (is_ok r)) s1 = (Inr ck, s2)"
      and 4: "record_effect P CompilePublication ck s2 = (Inr (), s3)" and 5: "activate_item P (IExternal i) ck s3 = (Inr x, s4)"
      and 6: "record_effect P k x s4 = (Inr u, t)"
      using 2 by (auto simp: publish_staged_def bind_ok_iff)
    have "rn_trace s4 = rn_trace s3 @ [ActivatingItem (IExternal i) True]"
      using 5 by (auto simp: activate_item_def call_ok_iff)
    moreover obtain e3 where "rn_trace s3 = rn_trace s2 @ e3" using record_ok[OF 4] by blast
    moreover obtain e4 where "rn_trace t = rn_trace s4 @ e4" using record_ok[OF 6] by blast
    moreover obtain e2 where "rn_trace s2 = rn_trace s1 @ [e2]" using 3 by (auto simp: call_ok_iff)
    ultimately show ?thesis using s1 by (auto simp: serving_def)
  qed (use 2 in auto)
qed

text \<open>The loop over the publications leaves every one of them serving.\<close>

lemma publications_serve:
  assumes "for_each (\<lambda>i. activate_observed P k (IExternal i) (publish_staged P i)) is s = (Inr u, t)"
  shows "\<exists>evs. rn_trace t = rn_trace s @ evs \<and> (\<forall>i\<in>set is. list_ex (serving i) evs)"
  using assms
proof (induction "is" arbitrary: s)
  case Nil
  then show ?case by simp
next
  case (Cons i "is")
  then obtain s1 where 1: "activate_observed P k (IExternal i) (publish_staged P i) s = (Inr (), s1)"
    and 2: "for_each (\<lambda>i. activate_observed P k (IExternal i) (publish_staged P i)) is s1 = (Inr u, t)"
    by (auto simp: bind_ok_iff)
  obtain e1 where "rn_trace s1 = rn_trace s @ e1" "list_ex (serving i) e1" using publication_serves[OF 1] by blast
  moreover obtain e2 where "rn_trace t = rn_trace s1 @ e2" "\<forall>i\<in>set is. list_ex (serving i) e2"
    using Cons.IH[OF 2] by blast
  ultimately show ?case by (intro exI[of _ "e1 @ e2"]) auto
qed

lemma keeps_publications:
  assumes "op_plan_of o1 = p" and f: "\<And>x. keeps (sf_serving p) (f x)"
  shows "keeps (sf p) (bind_tx (for_each (\<lambda>i. activate_observed P CompilePublication (IExternal i) (publish_staged P i))
    (intents_of Publication o1)) f)"
proof (rule keeps_establish[where J' = "sf_serving p"])
  show loop: "keeps (sf p) (for_each (\<lambda>i. activate_observed P CompilePublication (IExternal i) (publish_staged P i))
      (intents_of Publication o1))"
    by (intro keeps_for_each keeps_sf_calm publication_plain) (simp add: intents_of_def)
  fix s x t
  assume s: "sf p s" and run: "for_each (\<lambda>i. activate_observed P CompilePublication (IExternal i) (publish_staged P i))
      (intents_of Publication o1) s = (Inr x, t)"
  obtain evs where "rn_trace t = rn_trace s @ evs" "\<forall>i\<in>set (intents_of Publication o1). list_ex (serving i) evs"
    using publications_serve[OF run] by blast
  then have "all_serving p (rn_trace t)"
    using assms(1) by (auto simp: all_serving_def list_all_iff intents_of_def)
  then show "sf_serving p t" using keepsD[OF loop s run] by (simp add: sf_serving_def)
qed (use f in \<open>auto simp: sf_serving_def\<close>)

lemma keeps_sf_bind_op:
  "(\<And>o1. op_plan_of o1 = p \<Longrightarrow> keeps (sf p) (f o1)) \<Longrightarrow> keeps (sf p) (bind_tx current_op f)"
  by (auto simp: keeps_def sf_def)

lemma forward_subsets [simp]:
  "record_events \<subseteq> forward_events" "journal_events \<subseteq> forward_events" "activating_events \<subseteq> forward_events"
  by (auto simp: forward_events_def record_events_def)

lemma grants_plain: "calm plain_events (activate_grants P)"
  unfolding activate_grants_def by (intro calm_bind calm_current_op calm_for_each activate_step_plain) simp

lemma artifact_plain:
  "\<not> is_settings_managed_configuration i \<Longrightarrow> calm plain_events (activate_artifact P i)"
  unfolding activate_artifact_def
  by (intro calm_bind calm_current_op calm_call activate_step_plain) auto

lemma keeps_exact: "keeps (sf p) (activate_exact_effects P D)"
proof -
  have call: "keeps (sf p) (call (p_begin_activation P o1) (\<lambda>r. GateClosed (is_ok r)))" for o1
    by (intro keeps_sf_calm calm_call) simp_all
  have plain: "keeps (sf p) (activate_step P k IControl)" "keeps (sf p) (activate_step P k (ISecret m))"
    "keeps (sf p) (activate_step P k (IRuntime r))" for k m r
    by (intro keeps_sf_calm activate_step_plain; simp)+
  have rest: "keeps (sf_serving p) (activate_grants P)" "keeps (sf_serving p) (seal_settings_completion P D)"
    "keeps (sf_serving p) (activate_settings_tail P)"
    by (intro keeps_serving_calm[of forward_events] calm_activate_grants calm_seal calm_settings_tail; simp)+
  show ?thesis
    unfolding activate_exact_effects_def Let_def
    by (intro keeps_sf_bind_op keeps_publications keeps_bind keeps_for_each keeps_if keeps_ret call plain rest
        keeps_sf_calm[OF grants_plain] keeps_sf_calm[OF artifact_plain]) auto
qed

lemma keeps_sf_change [keeps_rules]: "keeps (sf p) (change_step k f)" "keeps (sf p) (set_code c)"
  by (simp_all add: keeps_def sf_def change_step_def set_code_def step_mut_def)

lemma keeps_sf_call:
  "(\<And>r. ev r \<in> plain_events) \<Longrightarrow> (\<And>r st b. ev r \<noteq> Journal st b) \<Longrightarrow> keeps (sf p) (call q ev)"
  "(\<And>r. ev r \<in> plain_events) \<Longrightarrow> (\<And>r st b. ev r \<noteq> Journal st b) \<Longrightarrow> keeps (sf p) (try_call q ev)"
  by (intro keeps_sf_calm calm_call calm_try_call; simp)+

lemma keeps_sf_tail: "keeps (sf p) (save_tail P)"
  unfolding keeps_def
proof (intro allI impI)
  fix s :: "'w run"
  assume s: "sf p s"
  have switch: "service_first q xs \<Longrightarrow> service_first q (xs @ [Tail b])" for q xs b
    by (rule service_first_append) (auto simp: settings_switch_def)
  have plan: "op_plan_of (acknowledge_commit g o1) = op_plan_of o1" for g o1
    using frozenD(1)[OF frozen_updates(4)] .
  show "sf p (snd (save_tail P s))"
    using s tail_saved[of "rn_op s" "rn_world s"] switch plan
    by (cases "p_save_tail P (rn_op s) (rn_world s)"; cases "fst (p_save_tail P (rn_op s) (rn_world s))")
      (auto simp: save_tail_def call_def bind_tx_def run_try_call sf_def)
qed

end

sublocale journal_port \<subseteq> order: run_invariant P D "sf p" for D p
proof
  fix k f c t i x slot fp o1 e
  show "keeps (sf p) (save_op P)" "keeps (sf p) (finish_op P)" "keeps (sf p) (save_tail P)"
    "keeps (sf p) close_writes" "keeps (sf p) (change_step k f)" "keeps (sf p) (set_code c)"
    "keeps (sf p) (transition_to t)" "keeps (sf p) (activate_exact_effects P D)"
    by (rule keeps_sf_save keeps_sf_finish_op keeps_sf_tail keeps_sf_close keeps_sf_change keeps_sf_transition
        keeps_exact)+
  show "keeps (sf p) (observe P i)" "keeps (sf p) (apply_item P i x)" "keeps (sf p) (apply_control P D)"
    "keeps (sf p) (read_matching P slot fp)"
    by (intro keeps_sf_calm calm_observe calm_apply_item calm_apply_control calm_read_matching; simp)+
  show "keeps (sf p) (call (p_compensate P o1 e) (\<lambda>r. Compensation e (case r of Inl _ \<Rightarrow> None | Inr x \<Rightarrow> Some x)))"
    "keeps (sf p) (try_call (p_prepare_rollback P o1 e) (\<lambda>r. AbortPrepared e (is_ok r)))"
    "keeps (sf p) (try_call (p_install_snapshot P o1) (\<lambda>r. SnapshotInstalled (is_ok r)))"
    "keeps (sf p) (call (p_finish_activation P o1) (\<lambda>r. GateOpened (is_ok r)))"
    by (intro keeps_sf_call; simp add: plain_events_def settings_switch_def)+
qed

context journal_port begin

text \<open>
  In a forward run, and in a recovery at startup, no client file is switched before the plan's
  publications serve.
\<close>

lemma run_service_first:
  assumes "rn_trace s = []" "\<not> retry \<or> settings_service_receipt D (rn_op s) = None"
  shows "service_first (op_plan_of (rn_op s)) (rn_trace (snd (run_operation_locked P D retry s)))"
proof -
  have "sf (op_plan_of (rn_op s)) s" using assms(1) by (simp add: sf_def)
  from order.keeps_run[OF assms(2) this] show ?thesis by (simp add: sf_def)
qed

end

end
