(* ===== verification/Control_Ports.thy ===== *)
theory Control_Ports
  imports Control_Effects Transaction_Order
begin

text \<open>
  The coordinator's ports over the control store. The journal calls and the calls for the control item
  run on the store; every other adapter sees only the tables of its own component and its own state, so
  it cannot touch the operations, the claim, the capabilities or the staged control effects. SQLite's
  answers are a list of faults, one per call.
\<close>

record ('x, 'v) control_world =
  cw_store :: "'x store"
  cw_faults :: "port_error option list"
  cw_now :: int
  cw_rest :: 'v

definition next_fault :: "('x, 'v) control_world \<Rightarrow> port_error option \<times> ('x, 'v) control_world" where
  "next_fault w = (case cw_faults w of [] \<Rightarrow> (None, w) | f # fs \<Rightarrow> (f, w\<lparr>cw_faults := fs\<rparr>))"

definition on_store ::
  "(port_error option \<Rightarrow> ('x, 'a) store_op) \<Rightarrow> ('x, 'v) control_world \<Rightarrow> (port_error + 'a) \<times> ('x, 'v) control_world" where
  "on_store f w =
    (let (fault, w1) = next_fault w; (r, st) = f fault (cw_store w1) in (r, w1\<lparr>cw_store := st\<rparr>))"

definition reading ::
  "('x store \<Rightarrow> port_error + 'a) \<Rightarrow> ('x, 'v) control_world \<Rightarrow> (port_error + 'a) \<times> ('x, 'v) control_world" where
  "reading g = on_store (\<lambda>fault st. (case fault of Some e \<Rightarrow> Inl e | None \<Rightarrow> g st, st))"

definition on_adapters ::
  "('x \<times> 'v \<Rightarrow> 'r \<times> ('x \<times> 'v)) \<Rightarrow> ('x, 'v) control_world \<Rightarrow> 'r \<times> ('x, 'v) control_world" where
  "on_adapters f w =
    (let (r, xv) = f (ct_ext (cw_store w), cw_rest w)
     in (r, w\<lparr>cw_store := (cw_store w)\<lparr>ct_ext := fst xv\<rparr>, cw_rest := snd xv\<rparr>))"

text \<open>\<open>finish_operation\<close> also reads the head of the workspace, after its commit.\<close>

definition finish_port ::
  "'x store_env \<Rightarrow> operation \<Rightarrow> ('x, 'v) control_world \<Rightarrow> (port_error + operation) \<times> ('x, 'v) control_world" where
  "finish_port E o1 w =
    (case on_store (\<lambda>fault. finish_operation E fault o1) w of
       (Inl e, w1) \<Rightarrow> (Inl e, w1)
     | (Inr o2, w1) \<Rightarrow>
         (case reading (\<lambda>st. Inr (current_revisions (oi_workspace_id o2) st)) w1 of
            (Inl e, w2) \<Rightarrow> (Inl e, w2)
          | (Inr _, w2) \<Rightarrow> (Inr o2, w2)))"

text \<open>The control item: the staging call that its plan asks for, and the other verbs.\<close>

definition apply_control_call ::
  "'x store_env \<Rightarrow> operation \<Rightarrow> control_call \<Rightarrow> port_error option \<Rightarrow> ('x, owned_effect) store_op" where
  "apply_control_call E o1 c fault =
    (let i = oi_operation_id o1; ws = oi_workspace_id o1; n = rv_target (oi_expected_revisions o1)
     in case c of
          WorkerSelection v \<Rightarrow> stage_selection E fault i ws v
        | ComputeSource v \<Rightarrow> apply_compute_source E fault i ws n v
        | CredentialPool v \<Rightarrow> apply_credential_pool E fault i ws n v
        | DesiredState v \<Rightarrow> apply_control_state E fault i ws n v)"

definition observe_port ::
  "'x store_env \<Rightarrow> ('x \<times> 'v) ports \<Rightarrow> operation \<Rightarrow> item \<Rightarrow> ('x, 'v) control_world
   \<Rightarrow> (port_error + reconciliation) \<times> ('x, 'v) control_world" where
  "observe_port E B o1 i =
    (if i = IControl then reading (observe_control E (oi_operation_id o1) (oi_workspace_id o1))
     else on_adapters (p_observe B o1 i))"

definition activate_port ::
  "'x store_env \<Rightarrow> ('x \<times> 'v) ports \<Rightarrow> operation \<Rightarrow> item \<Rightarrow> owned_effect \<Rightarrow> ('x, 'v) control_world
   \<Rightarrow> (port_error + owned_effect) \<times> ('x, 'v) control_world" where
  "activate_port E B o1 i e =
    (if i = IControl then on_store (\<lambda>fault. activate_control E fault e) else on_adapters (p_activate B o1 i e))"

definition compensate_port ::
  "'x store_env \<Rightarrow> ('x \<times> 'v) ports \<Rightarrow> operation \<Rightarrow> owned_effect \<Rightarrow> ('x, 'v) control_world
   \<Rightarrow> (port_error + compensation) \<times> ('x, 'v) control_world" where
  "compensate_port E B o1 e =
    (if ef_kind e = Control then on_store (\<lambda>fault. compensate_control E fault e)
     else on_adapters (p_compensate B o1 e))"

definition control_ports :: "'x store_env \<Rightarrow> ('x \<times> 'v) ports \<Rightarrow> ('x, 'v) control_world ports" where
  "control_ports E B =
    \<lparr>p_save = (\<lambda>o1. on_store (\<lambda>fault. save_operation E fault o1)),
     p_save_tail = (\<lambda>o1. on_store (\<lambda>fault. save_operation_tail E fault o1)),
     p_finish = finish_port E,
     p_load = (\<lambda>i. reading (load_operation E i)),
     p_is_current = (\<lambda>o1. reading (operation_is_current E o1)),
     p_recoverable = reading (recoverable_operations E),
     p_recovery_required = reading (\<lambda>st. Inr (writer_recovery_required st)),
     p_reclaim = (\<lambda>i. on_store (\<lambda>fault. reclaim_operation_writer fault i)),
     p_observe = observe_port E B,
     p_apply = (\<lambda>o1 i x. on_adapters (p_apply B o1 i x)),
     p_apply_control = (\<lambda>o1 c. on_store (apply_control_call E o1 c)),
     p_activate = activate_port E B,
     p_compensate = compensate_port E B,
     p_read_secret = (\<lambda>s. on_adapters (p_read_secret B s)),
     p_fingerprint = (\<lambda>x. on_adapters (p_fingerprint B x)),
     p_begin_activation = (\<lambda>o1. on_adapters (p_begin_activation B o1)),
     p_finish_activation = (\<lambda>o1. on_adapters (p_finish_activation B o1)),
     p_prepare_artifact = (\<lambda>o1 i. on_adapters (p_prepare_artifact B o1 i)),
     p_prepare_publication = (\<lambda>o1 e. on_adapters (p_prepare_publication B o1 e)),
     p_prepare_rollback = (\<lambda>o1 e. on_adapters (p_prepare_rollback B o1 e)),
     p_install_snapshot = (\<lambda>o1. on_adapters (p_install_snapshot B o1))\<rparr>"

section \<open>The store keeps the journal's contract\<close>

lemma on_store_ok:
  "on_store f w = (Inr x, w') \<Longrightarrow> \<exists>fault st. f fault (cw_store w) = (Inr x, st) \<and> cw_store w' = st"
  by (auto simp: on_store_def next_fault_def Let_def split: list.splits prod.splits)

lemma reading_store: "reading g w = (r, w') \<Longrightarrow> cw_store w' = cw_store w \<and> (\<forall>x. r = Inr x \<longrightarrow> g (cw_store w) = Inr x)"
  by (auto simp: reading_def on_store_def next_fault_def Let_def split: list.splits option.splits)

lemma save_operation_ok:
  "save_operation E fault o1 st = (Inr o2, st') \<longleftrightarrow>
     fault = None \<and> (\<exists>g. journal_save E o1 st = Inr (g, st') \<and> o2 = acknowledge_commit g o1)"
  by (auto simp: save_operation_def in_transaction_ok and_then_Inr)

lemma save_tail_ok:
  "save_operation_tail E fault o1 st = (Inr o2, st') \<longleftrightarrow>
     fault = None \<and> \<not> op_terminal (op_state_of o1)
     \<and> (\<exists>g st1. journal_save E o1 st = Inr (g, st1) \<and> o2 = acknowledge_commit g o1
         \<and> (ct_claim st1 = None \<or> ct_claim st1 = Some (oi_operation_id o1)) \<and> st' = st1\<lparr>ct_claim := None\<rparr>)"
  by (auto simp: save_operation_tail_def in_transaction_ok and_then_Inr perr_def)

lemma finish_operation_ok:
  "finish_operation E fault o1 st = (Inr o2, st') \<longleftrightarrow>
     fault = None \<and> op_terminal (op_state_of o1)
     \<and> (\<exists>x g st1. se_finish E o1 (ct_ext st) = Inr x \<and> journal_save E o1 (st\<lparr>ct_ext := x\<rparr>) = Inr (g, st1)
         \<and> o2 = acknowledge_commit g o1
         \<and> (if op_state_of o1 = NeedsAttention then st' = st1
            else ct_claim st1 = Some (oi_operation_id o1) \<and> st' = st1\<lparr>ct_claim := None\<rparr>))"
  by (cases "op_state_of o1 = NeedsAttention")
    (auto simp: finish_operation_def in_transaction_ok and_then_Inr perr_def split: if_splits)

lemma finish_port_ok:
  "finish_port E o1 w = (Inr o2, w') \<Longrightarrow>
     \<exists>fault st. finish_operation E fault o1 (cw_store w) = (Inr o2, st) \<and> cw_store w' = st"
  using on_store_ok[of "\<lambda>fault. finish_operation E fault o1" w]
  by (auto simp: finish_port_def reading_def on_store_def next_fault_def Let_def
        split: list.splits prod.splits sum.splits option.splits)

interpretation store_journal: journal_port "control_ports E B" for E B
  by unfold_locales
    (auto simp: control_ports_def save_operation_ok save_tail_ok finish_operation_ok
      dest!: on_store_ok finish_port_ok)

end
