(* ===== verification/Transaction_Gate.thy ===== *)
theory Transaction_Gate
  imports Control_Ports
begin

text \<open>
  Two invariants of a run besides its order: the admission gate stays closed, for any journal; and
  over the control store, an operation without the writer claim stays without it and is finished
  in no terminal state but \<open>NeedsAttention\<close>. The startup's theorem follows from the first.
\<close>

section \<open>The admission gate\<close>

definition closed :: "'w run \<Rightarrow> bool" where
  "closed s \<longleftrightarrow> \<not> rn_open s"

lemma keeps_closed_calm: "calm A m \<Longrightarrow> keeps closed m" for m :: "('w, 'a) txm"
  unfolding calm_def keeps_def closed_def by metis

lemma keeps_closed_steps:
  "keeps closed close_writes" "keeps closed (change_op f)" "keeps closed (change_step k g)" "keeps closed (set_code c)"
  "keeps closed (transition_to t)" "keeps closed (call p ev)" "keeps closed (try_call q ev)"
  by (auto simp: keeps_def closed_def change_step_def set_code_def transition_to_def from_op_result_def bind_tx_def
        call_def run_try_call split: sum.splits)

sublocale journal_port \<subseteq> gate: run_invariant P D closed for D
proof
  fix k f c t i x slot fp o1 e
  show "keeps closed (save_op P)" "keeps closed (finish_op P)" "keeps closed (save_tail P)"
    unfolding save_op_def finish_op_def save_tail_def by (intro keeps_rules keeps_closed_steps)+
  show "keeps closed close_writes" "keeps closed (change_step k f)" "keeps closed (set_code c)"
    "keeps closed (transition_to t)"
    by (rule keeps_closed_steps)+
  show "keeps closed (observe P i)" "keeps closed (apply_item P i x)" "keeps closed (apply_control P D)"
    "keeps closed (read_matching P slot fp)" "keeps closed (activate_exact_effects P D)"
    by (intro keeps_closed_calm[of UNIV] calm_observe calm_apply_item calm_apply_control calm_read_matching
        calm_activate_exact; simp)+
qed (intro keeps_closed_steps)+

context journal_port begin

lemma keeps_closed_load: "keeps closed (load_into_run P i)"
  unfolding load_into_run_def by (intro keeps_rules keeps_closed_steps)

lemma keeps_closed_taking: "keeps closed (run_taking P D False o1)"
  unfolding run_taking_def run_current_or_reload_locked_def run_locked_def
  by (intro keeps_rules keeps_closed_steps keeps_closed_load gate.keeps_run_startup)

lemma keeps_closed_recover: "keeps closed (recover_startup P D os)"
proof (induction os)
  case Nil
  show ?case unfolding recover_startup.simps by (intro keeps_rules)
next
  case (Cons o1 os)
  then show ?case unfolding recover_startup.simps by (intro keeps_rules keeps_closed_taking)
qed

lemma recovered_clean:
  "recover_startup P D os s = (Inr ended, t) \<Longrightarrow> \<forall>o1\<in>set ended. op_state_of o1 \<noteq> NeedsAttention"
proof (induction os arbitrary: s ended)
  case Nil
  then show ?case by simp
next
  case (Cons o1 os)
  then obtain e1 s1 rest where "op_state_of e1 \<noteq> NeedsAttention" "recover_startup P D os s1 = (Inr rest, t)"
      "ended = e1 # rest"
    by (auto simp: bind_ok_iff split: if_splits)
  then show ?case using Cons.IH by auto
qed

text \<open>
  Startup opens the gate exactly when it succeeds: every recoverable operation was run, none needs
  attention, and the last answer of the store is that nobody holds the writer claim.
\<close>

lemma startup_gate:
  assumes run: "reconcile_startup_and_open P D s = (r, t)"
  shows "rn_open t = is_ok r"
    and "r = Inr ended \<Longrightarrow> (\<forall>o1\<in>set ended. op_state_of o1 \<noteq> NeedsAttention)
      \<and> (\<exists>w1 w2. p_recovery_required P w1 = (Inr False, w2) \<and> rn_world t = w2)"
proof -
  have closing: "keeps closed (bind_tx (call (p_recoverable P) (\<lambda>r. Loaded (is_ok r))) (\<lambda>os.
      bind_tx (recover_startup P D os) (\<lambda>recovered.
      bind_tx (call (p_recovery_required P) (\<lambda>r. Loaded (is_ok r))) (\<lambda>held.
      if held then raise RecoveryRequired else ret recovered))))"
    by (intro keeps_rules keeps_closed_steps keeps_closed_recover)
  let ?s = "s\<lparr>rn_open := False\<rparr>"
  show "rn_open t = is_ok r"
  proof (cases r)
    case (Inr os)
    then show ?thesis using run by (auto simp: reconcile_startup_and_open_def bind_ok_iff open_writes_def split: if_splits)
  next
    case (Inl e)
    then have "bind_tx (call (p_recoverable P) (\<lambda>r. Loaded (is_ok r))) (\<lambda>os.
      bind_tx (recover_startup P D os) (\<lambda>recovered.
      bind_tx (call (p_recovery_required P) (\<lambda>r. Loaded (is_ok r))) (\<lambda>held.
      if held then raise RecoveryRequired else ret recovered))) ?s = (Inl e, t)"
      using run by (auto simp: reconcile_startup_and_open_def bind_err_iff open_writes_def bind_ok_iff split: if_splits)
    from keepsD[OF closing _ this] show ?thesis using Inl by (simp add: closed_def)
  qed
  show "(\<forall>o1\<in>set ended. op_state_of o1 \<noteq> NeedsAttention)
      \<and> (\<exists>w1 w2. p_recovery_required P w1 = (Inr False, w2) \<and> rn_world t = w2)" if "r = Inr ended"
    using run that
    by (auto simp: reconcile_startup_and_open_def bind_ok_iff call_ok_iff open_writes_def split: if_splits
        dest!: recovered_clean)
qed

end

section \<open>Without the writer claim\<close>

definition silent :: "event \<Rightarrow> bool" where
  "silent e \<longleftrightarrow> e \<noteq> Finish Succeeded True \<and> e \<noteq> Finish RolledBack True"

definition unclaimed :: "string \<Rightarrow> ('x, 'v) control_world run \<Rightarrow> bool" where
  "unclaimed i s \<longleftrightarrow> ct_claim (cw_store (rn_world s)) \<noteq> Some i \<and> oi_operation_id (rn_op s) = i
     \<and> list_all silent (rn_trace s)"

lemma acknowledge_id [simp]: "oi_operation_id (acknowledge_commit g o1) = oi_operation_id o1"
  by (auto simp: acknowledge_commit_def split: option.splits)

lemma step_mut_id [simp]: "oi_operation_id (step_mut k f o1) = oi_operation_id o1"
  by (simp add: step_mut_def)

lemma store_steps_claim [simp]: "ct_claim (store_steps i ss st) = ct_claim st"
  by (simp add: store_steps_def)

lemma journal_save_claim: "journal_save E o1 st = Inr (g, st') \<Longrightarrow> ct_claim st' = ct_claim st"
  by (auto simp: journal_save_def and_then_Inr perr_def split: if_splits)

lemma store_err:
  "save_operation E fault o1 st = (Inl e, st') \<Longrightarrow> st' = st"
  "save_operation_tail E fault o1 st = (Inl e, st') \<Longrightarrow> st' = st"
  "finish_operation E fault o1 st = (Inl e, st') \<Longrightarrow> st' = st"
  "reclaim_operation_writer fault i st = (Inl e, st') \<Longrightarrow> st' = st"
  unfolding save_operation_def save_operation_tail_def finish_operation_def reclaim_operation_writer_def
  by (erule in_transaction_err)+

lemma save_claim: "save_operation E fault o1 st = (r, st') \<Longrightarrow> ct_claim st' = ct_claim st"
  by (cases r) (auto simp: save_operation_ok dest: journal_save_claim store_err(1))

lemma tail_claim: "save_operation_tail E fault o1 st = (r, st') \<Longrightarrow> ct_claim st' \<in> {None, ct_claim st}"
  by (cases r) (auto simp: save_tail_ok dest: store_err(2))

lemma finish_claim: "finish_operation E fault o1 st = (r, st') \<Longrightarrow> ct_claim st' \<in> {None, ct_claim st}"
  by (cases r) (auto simp: finish_operation_ok dest!: journal_save_claim store_err(3) split: if_splits)

lemma on_store_result: "on_store f w = (r, w') \<Longrightarrow> \<exists>fault. f fault (cw_store w) = (r, cw_store w')"
  by (auto simp: on_store_def next_fault_def Let_def split: prod.splits list.splits)

lemma on_store_claim:
  assumes "\<And>fault st r st'. f fault st = (r, st') \<Longrightarrow> ct_claim st' \<in> {None, ct_claim st}"
    and "ct_claim (cw_store w) \<noteq> Some i"
  shows "ct_claim (cw_store (snd (on_store f w))) \<noteq> Some i"
proof -
  obtain r w' where w': "on_store f w = (r, w')" by force
  then obtain fault where "f fault (cw_store w) = (r, cw_store w')" using on_store_result by blast
  then show ?thesis using assms w' by fastforce
qed

lemma on_adapters_claim [simp]: "ct_claim (cw_store (snd (on_adapters f w))) = ct_claim (cw_store w)"
  by (simp add: on_adapters_def Let_def split: prod.splits)

lemma store_claims:
  assumes "ct_claim (cw_store w) \<noteq> Some i"
  shows "ct_claim (cw_store (snd (on_store (\<lambda>fault. save_operation E fault o1) w))) \<noteq> Some i"
    "ct_claim (cw_store (snd (on_store (\<lambda>fault. save_operation_tail E fault o1) w))) \<noteq> Some i"
    "ct_claim (cw_store (snd (on_store (\<lambda>fault. finish_operation E fault o1) w))) \<noteq> Some i"
    "ct_claim (cw_store (snd (reading g w))) \<noteq> Some i"
  unfolding reading_def
  by (rule on_store_claim[OF _ assms]; force dest: save_claim tail_claim finish_claim)+

lemma journal_tables_claim: "journal_tables st' = journal_tables st \<Longrightarrow> ct_claim st' = ct_claim st"
  by (simp add: journal_tables_def)

text \<open>The calls for the control item leave the claim alone.\<close>

lemma control_item_claims:
  assumes "ct_claim (cw_store w) \<noteq> Some i"
  shows "ct_claim (cw_store (snd (observe_port E B o1 it w))) \<noteq> Some i"
    "ct_claim (cw_store (snd (activate_port E B o1 it e w))) \<noteq> Some i"
    "ct_claim (cw_store (snd (compensate_port E B o1 e w))) \<noteq> Some i"
    "ct_claim (cw_store (snd (on_store (apply_control_call E o1 c) w))) \<noteq> Some i"
proof -
  have kept: "ct_claim st' \<in> {None, ct_claim st}" if "journal_tables (snd (f st)) = journal_tables st" "f st = (r, st')"
    for f :: "'a store \<Rightarrow> 'r \<times> 'a store" and st st' r
    using journal_tables_claim[OF that(1)] that(2) by simp
  show "ct_claim (cw_store (snd (observe_port E B o1 it w))) \<noteq> Some i"
    using assms by (simp add: observe_port_def store_claims(4))
  show "ct_claim (cw_store (snd (activate_port E B o1 it e w))) \<noteq> Some i"
    unfolding activate_port_def
    by (cases "it = IControl")
      (simp_all add: assms, rule on_store_claim[OF _ assms], erule kept[rotated], simp)
  show "ct_claim (cw_store (snd (compensate_port E B o1 e w))) \<noteq> Some i"
    unfolding compensate_port_def
    by (cases "ef_kind e = Control")
      (simp_all add: assms, rule on_store_claim[OF _ assms], erule kept[rotated], simp)
  show "ct_claim (cw_store (snd (on_store (apply_control_call E o1 c) w))) \<noteq> Some i"
    by (rule on_store_claim[OF _ assms], erule kept[rotated])
      (simp add: apply_control_call_def Let_def split: control_call.split)
qed

lemma keeps_unclaimed_call:
  assumes "\<And>w. ct_claim (cw_store w) \<noteq> Some i \<Longrightarrow> ct_claim (cw_store (snd (p w))) \<noteq> Some i" "\<And>r. silent (ev r)"
  shows "keeps (unclaimed i) (try_call p ev)" "keeps (unclaimed i) (call p ev)"
proof -
  show "keeps (unclaimed i) (try_call p ev)"
    using assms by (auto simp: keeps_def unclaimed_def run_try_call)
  then show "keeps (unclaimed i) (call p ev)"
    unfolding call_def by (intro keeps_rules)
qed

lemma keeps_unclaimed_adapter:
  assumes "\<And>r. silent (ev r)"
  shows "keeps (unclaimed i) (try_call (on_adapters f) ev)" "keeps (unclaimed i) (call (on_adapters f) ev)"
  by (rule keeps_unclaimed_call; simp add: assms)+

lemma keeps_unclaimed_steps:
  "keeps (unclaimed i) close_writes" "keeps (unclaimed i) (change_step k f)" "keeps (unclaimed i) (set_code c)"
  "keeps (unclaimed i) (transition_to t)"
  by (auto simp: keeps_def unclaimed_def change_step_def set_code_def transition_to_def from_op_result_def
        op_transition_def bind_tx_def split: sum.splits if_splits)

lemma unclaimed_extend:
  assumes "unclaimed i s" "ct_claim (cw_store w) \<noteq> Some i" "silent e" "oi_operation_id o2 = i"
  shows "unclaimed i (s\<lparr>rn_world := w, rn_trace := rn_trace s @ [e], rn_op := o2\<rparr>)"
    "unclaimed i (s\<lparr>rn_world := w, rn_trace := rn_trace s @ [e]\<rparr>)"
  using assms by (auto simp: unclaimed_def)

lemma silent_events [simp]:
  "silent (Journal x b)" "silent (Tail b)" "silent (Finish x False)" "silent (Finish NeedsAttention True)"
  "silent (Observing it rc)" "silent (Staging it b)" "silent (ActivatingItem it b)" "silent (Compensation e cc)"
  "silent (AbortPrepared e b)" "silent (PublicationPrepared e b)" "silent (ArtifactPrepared n b)"
  "silent (GateClosed b)" "silent (GateOpened b)" "silent (SnapshotInstalled b)" "silent (InputRead l b)"
  "silent (Fingerprinted b)"
  by (simp_all add: silent_def)

text \<open>A journal call of an operation without the claim: whatever it answers, the claim stays away.\<close>

lemma journal_call_unclaimed:
  assumes s: "unclaimed i s" and run: "bind_tx (call (p (rn_op s)) ev) (\<lambda>o2. change_op (\<lambda>_. o2)) s = (r, t)"
    and claim: "ct_claim (cw_store (snd (p (rn_op s) (rn_world s)))) \<noteq> Some i"
    and ok: "\<And>o2 w. p (rn_op s) (rn_world s) = (Inr o2, w) \<Longrightarrow> \<exists>g. o2 = acknowledge_commit g (rn_op s)"
    and quiet: "\<And>q w. p (rn_op s) (rn_world s) = (q, w) \<Longrightarrow> silent (ev q)"
  shows "unclaimed i t"
proof -
  obtain q w where q: "p (rn_op s) (rn_world s) = (q, w)" by force
  show ?thesis
  proof (cases q)
    case (Inl e)
    then have "t = s\<lparr>rn_world := w, rn_trace := rn_trace s @ [ev q]\<rparr>"
      using run q by (auto simp: call_def bind_tx_def run_try_call)
    then show ?thesis using s claim quiet[OF q] q by (auto simp: unclaimed_def)
  next
    case (Inr o2)
    then have "t = s\<lparr>rn_world := w, rn_trace := rn_trace s @ [ev q], rn_op := o2\<rparr>"
      using run q by (auto simp: call_def bind_tx_def run_try_call)
    moreover have "oi_operation_id o2 = i" using ok q Inr s by (auto simp: unclaimed_def)
    ultimately show ?thesis using s claim quiet[OF q] q by (auto simp: unclaimed_def)
  qed
qed

lemma finish_unclaimed:
  assumes "finish_port E o1 w = (q, w')" "ct_claim (cw_store w) \<noteq> Some (oi_operation_id o1)"
  shows "ct_claim (cw_store w') \<noteq> Some (oi_operation_id o1)" "is_ok q \<Longrightarrow> op_state_of o1 = NeedsAttention"
proof -
  obtain q1 w1 where w1: "on_store (\<lambda>fault. finish_operation E fault o1) w = (q1, w1)" by force
  have c1: "ct_claim (cw_store w1) \<noteq> Some (oi_operation_id o1)" using store_claims(3)[OF assms(2)] w1 by (metis snd_conv)
  show "ct_claim (cw_store w') \<noteq> Some (oi_operation_id o1)"
  proof (cases q1)
    case (Inl e)
    then show ?thesis using assms(1) w1 c1 by (simp add: finish_port_def)
  next
    case (Inr o2)
    obtain q2 w2 where w2: "reading (\<lambda>st. Inr (current_revisions (oi_workspace_id o2) st)) w1 = (q2, w2)" by force
    have "ct_claim (cw_store w2) \<noteq> Some (oi_operation_id o1)" using store_claims(4)[OF c1] w2 by (metis snd_conv)
    then show ?thesis using assms(1) w1 w2 Inr by (cases q2) (auto simp: finish_port_def)
  qed
  show "op_state_of o1 = NeedsAttention" if "is_ok q"
  proof -
    from that obtain o2 where "q = Inr o2" by (cases q) auto
    then obtain fault st where "finish_operation E fault o1 (cw_store w) = (Inr o2, st)"
      using finish_port_ok assms(1) by blast
    then show ?thesis
      using assms(2) by (auto simp: finish_operation_ok dest!: journal_save_claim split: if_splits)
  qed
qed

lemma keeps_unclaimed_journal:
  fixes p :: "operation \<Rightarrow> ('x, 'v) control_world \<Rightarrow> (port_error + operation) \<times> ('x, 'v) control_world"
  assumes "\<And>o1 w. ct_claim (cw_store w) \<noteq> Some i \<Longrightarrow> oi_operation_id o1 = i \<Longrightarrow> ct_claim (cw_store (snd (p o1 w))) \<noteq> Some i"
    and "\<And>o1 w o2 w'. p o1 w = (Inr o2, w') \<Longrightarrow> \<exists>g. o2 = acknowledge_commit g o1"
    and "\<And>o1 w q w'. ct_claim (cw_store w) \<noteq> Some i \<Longrightarrow> oi_operation_id o1 = i \<Longrightarrow> p o1 w = (q, w') \<Longrightarrow> silent (ev o1 q)"
  shows "keeps (unclaimed i) (bind_tx current_op (\<lambda>o1. bind_tx (call (p o1) (ev o1)) (\<lambda>o2. change_op (\<lambda>_. o2))))"
  unfolding keeps_def
proof (intro allI impI)
  fix s :: "('x, 'v) control_world run"
  assume s: "unclaimed i s"
  then have id: "ct_claim (cw_store (rn_world s)) \<noteq> Some i" "oi_operation_id (rn_op s) = i"
    by (auto simp: unclaimed_def)
  obtain r t where t: "bind_tx (call (p (rn_op s)) (ev (rn_op s))) (\<lambda>o2. change_op (\<lambda>_. o2)) s = (r, t)" by force
  have "unclaimed i t"
    by (rule journal_call_unclaimed[where p = p, OF s t assms(1)[OF id] assms(2) assms(3)[OF id]])
  then show "unclaimed i (snd (bind_tx current_op (\<lambda>o1. bind_tx (call (p o1) (ev o1)) (\<lambda>o2. change_op (\<lambda>_. o2))) s))"
    using t by simp
qed

lemma keeps_unclaimed_saves:
  "keeps (unclaimed i) (save_op (control_ports E B))" "keeps (unclaimed i) (save_tail (control_ports E B))"
  "keeps (unclaimed i) (finish_op (control_ports E B))"
  for E :: "'x store_env" and B :: "('x \<times> 'v) ports"
proof -
  show "keeps (unclaimed i) (save_op (control_ports E B))"
    unfolding save_op_def
    by (rule keeps_unclaimed_journal)
      (auto simp: control_ports_def store_claims save_operation_ok dest!: on_store_ok)
  show "keeps (unclaimed i) (save_tail (control_ports E B))"
    unfolding save_tail_def
    by (rule keeps_unclaimed_journal)
      (auto simp: control_ports_def store_claims save_tail_ok dest!: on_store_ok)
  show "keeps (unclaimed i) (finish_op (control_ports E B))"
    unfolding finish_op_def
  proof (rule keeps_unclaimed_journal)
    fix o1 :: operation and w w' :: "('x, 'v) control_world" and q :: "port_error + operation"
    assume w: "ct_claim (cw_store w) \<noteq> Some i" "oi_operation_id o1 = i"
    obtain q1 w1 where q1: "finish_port E o1 w = (q1, w1)" by force
    show "ct_claim (cw_store (snd (p_finish (control_ports E B) o1 w))) \<noteq> Some i"
      using finish_unclaimed(1)[OF q1] w q1 by (simp add: control_ports_def)
    show "silent (Finish (op_state_of o1) (is_ok q))" if "p_finish (control_ports E B) o1 w = (q, w')"
    proof (cases "is_ok q")
      case True
      then show ?thesis using finish_unclaimed(2)[of E o1 w q w'] that w by (simp add: control_ports_def)
    next
      case False
      then show ?thesis by simp
    qed
  qed (auto simp: control_ports_def finish_operation_ok dest!: finish_port_ok)
qed

lemma keeps_unclaimed_ports:
  "keeps (unclaimed i) (observe (control_ports E B) it)" "keeps (unclaimed i) (apply_item (control_ports E B) it x)"
  "keeps (unclaimed i) (apply_control (control_ports E B) D)" "keeps (unclaimed i) (activate_item (control_ports E B) it e)"
  "keeps (unclaimed i) (read_matching (control_ports E B) slot fp)"
  unfolding observe_def apply_item_def apply_control_def activate_item_def read_matching_def read_input_def control_ports_def
  by (simp_all, (intro keeps_rules keeps_unclaimed_adapter keeps_unclaimed_call control_item_claims silent_events, assumption?)+)

lemma keeps_unclaimed_record: "keeps (unclaimed i) (record_effect (control_ports E B) k e)"
  unfolding record_effect_def by (intro keeps_rules keeps_unclaimed_saves keeps_unclaimed_steps)

lemma keeps_unclaimed_activation:
  "(\<And>e. keeps (unclaimed i) (act e)) \<Longrightarrow> keeps (unclaimed i) (activate_observed (control_ports E B) k it act)"
  unfolding activate_observed_def by (intro keeps_rules keeps_unclaimed_ports keeps_unclaimed_record)

lemma adapter_ports:
  "p_begin_activation (control_ports E B) o1 = on_adapters (p_begin_activation B o1)"
  "p_finish_activation (control_ports E B) o1 = on_adapters (p_finish_activation B o1)"
  "p_prepare_artifact (control_ports E B) o1 n = on_adapters (p_prepare_artifact B o1 n)"
  "p_prepare_publication (control_ports E B) o1 e = on_adapters (p_prepare_publication B o1 e)"
  "p_compensate (control_ports E B) = compensate_port E B"
  "p_prepare_rollback (control_ports E B) o1 e = on_adapters (p_prepare_rollback B o1 e)"
  "p_install_snapshot (control_ports E B) o1 = on_adapters (p_install_snapshot B o1)"
  by (simp_all add: control_ports_def)

lemma keeps_unclaimed_exact: "keeps (unclaimed i) (activate_exact_effects (control_ports E B) D)"
  unfolding activate_exact_effects_def activate_step_def activate_grants_def activate_artifact_def publish_staged_def
    seal_settings_completion_def activate_settings_tail_def adapter_ports
  by (intro keeps_rules keeps_unclaimed_activation keeps_unclaimed_ports keeps_unclaimed_record keeps_unclaimed_saves
      keeps_unclaimed_steps keeps_unclaimed_adapter silent_events)

interpretation claimless: run_invariant "control_ports E B" D "unclaimed i" for E B D i
  by unfold_locales
    (unfold adapter_ports,
     (rule keeps_unclaimed_saves keeps_unclaimed_steps keeps_unclaimed_ports keeps_unclaimed_exact
        keeps_unclaimed_adapter keeps_unclaimed_call[OF control_item_claims(3)] silent_events | assumption)+)

text \<open>
  A run of an operation that does not hold the claim does not finish it and does not take the claim,
  whatever the adapters answer.
\<close>

lemma unclaimed_run:
  assumes "rn_trace s = []" "ct_claim (cw_store (rn_world s)) \<noteq> Some (oi_operation_id (rn_op s))"
    and "\<not> retry \<or> settings_service_receipt D (rn_op s) = None"
    and run: "run_operation_locked (control_ports E B) D retry s = (r, t)"
  shows "Finish Succeeded True \<notin> set (rn_trace t)" "Finish RolledBack True \<notin> set (rn_trace t)"
    "ct_claim (cw_store (rn_world t)) \<noteq> Some (oi_operation_id (rn_op s))"
proof -
  have "unclaimed (oi_operation_id (rn_op s)) s" using assms(1,2) by (simp add: unclaimed_def)
  then have "unclaimed (oi_operation_id (rn_op s)) t"
    using claimless.keeps_run[OF assms(3)] run by (metis snd_conv)
  then show "Finish Succeeded True \<notin> set (rn_trace t)" "Finish RolledBack True \<notin> set (rn_trace t)"
      "ct_claim (cw_store (rn_world t)) \<noteq> Some (oi_operation_id (rn_op s))"
    by (auto simp: unclaimed_def list_all_iff silent_def)
qed

end
