(* ===== verification/Staged_Effects.thy ===== *)
theory Staged_Effects
  imports Control_Effects
begin

text \<open>
  The contract of a staged effect: a call either leaves its phase and what is visible, or stages it
  over the visible value, makes the wanted value visible, or undoes it, which puts the saved value
  back. It is a locale, interpreted on the workspace state and on the worker selections.
\<close>

section \<open>The contract\<close>

datatype effect_phase = Unstaged | StagedPhase | ActivePhase | Undone

definition effect_move ::
  "('s \<Rightarrow> effect_phase) \<Rightarrow> ('s \<Rightarrow> 'v) \<Rightarrow> ('s \<Rightarrow> 'v) \<Rightarrow> ('s \<Rightarrow> 'v) \<Rightarrow> 's \<Rightarrow> 's \<Rightarrow> bool" where
  "effect_move phase visible saved wanted s s' \<longleftrightarrow>
     (phase s' = phase s \<and> visible s' = visible s \<and> saved s' = saved s \<and> wanted s' = wanted s)
   \<or> (phase s = Unstaged \<and> phase s' = StagedPhase \<and> visible s' = visible s \<and> saved s' = visible s)
   \<or> (phase s = StagedPhase \<and> phase s' = ActivePhase \<and> saved s' = saved s \<and> visible s' = wanted s')
   \<or> (phase s = StagedPhase \<and> phase s' = Undone \<and> saved s' = saved s \<and> visible s' = visible s)
   \<or> (phase s = ActivePhase \<and> phase s' = Undone \<and> saved s' = saved s \<and> visible s' = saved s)"

locale staged_effect =
  fixes phase :: "'s \<Rightarrow> effect_phase" and visible saved wanted :: "'s \<Rightarrow> 'v" and sound :: "'s \<Rightarrow> bool"
    and legit :: "'c \<Rightarrow> bool" and step :: "'c \<Rightarrow> 's \<Rightarrow> 's" and observe_it :: "'s \<Rightarrow> port_error + reconciliation"
  assumes move: "sound s \<Longrightarrow> legit c \<Longrightarrow> effect_move phase visible saved wanted s (step c s)"
    and keeps_sound: "sound s \<Longrightarrow> legit c \<Longrightarrow> sound (step c s)"
    and missing: "sound s \<Longrightarrow> observe_it s = Inr Missing \<Longrightarrow> phase s = Unstaged \<or> phase s = Undone"
    and applied: "sound s \<Longrightarrow> observe_it s = Inr (AppliedEffect e) \<Longrightarrow> phase s = ActivePhase"

context staged_effect begin

text \<open>The phase tells what is visible, over the value \<open>v\<close> from before.\<close>

definition tracked :: "'v \<Rightarrow> 's \<Rightarrow> bool" where
  "tracked v s \<longleftrightarrow> sound s \<and> (phase s = Unstaged \<or> saved s = v)
     \<and> (if phase s = ActivePhase then visible s = wanted s else visible s = v)"

lemma fresh: "sound s \<Longrightarrow> phase s = Unstaged \<Longrightarrow> tracked (visible s) s"
  by (simp add: tracked_def)

lemma tracked_step:
  assumes t: "tracked v s" and c: "legit c"
  shows "tracked v (step c s)"
proof -
  have "sound s" using t by (simp add: tracked_def)
  then have "sound (step c s)" "effect_move phase visible saved wanted s (step c s)"
    using keeps_sound move c by blast+
  with t show ?thesis unfolding effect_move_def tracked_def by (elim conjE disjE) simp_all
qed

lemma tracked_steps: "tracked v s \<Longrightarrow> \<forall>c\<in>set cs. legit c \<Longrightarrow> tracked v (fold step cs s)"
  by (induction cs arbitrary: s) (simp_all add: tracked_step)

lemma missing_restored: "tracked v s \<Longrightarrow> observe_it s = Inr Missing \<Longrightarrow> visible s = v"
  using missing[of s] by (auto simp: tracked_def)

lemma applied_wanted: "tracked v s \<Longrightarrow> observe_it s = Inr (AppliedEffect e) \<Longrightarrow> visible s = wanted s"
  using applied[of s e] by (simp add: tracked_def)

end

section \<open>The calls of an operation\<close>

datatype effect_call =
    StageState u64 json | StagePool u64 json | StageSource u64 json | StageSelection json
  | ActivateEffect owned_effect | CompensateEffect owned_effect

definition effect_step ::
  "'x store_env \<Rightarrow> string \<Rightarrow> string \<Rightarrow> port_error option \<times> effect_call \<Rightarrow> 'x store \<Rightarrow> 'x store" where
  "effect_step E i ws c st =
    (case c of (fault, request) \<Rightarrow>
       (case request of
          StageState n v \<Rightarrow> snd (apply_control_state E fault i ws n v st)
        | StagePool n v \<Rightarrow> snd (apply_credential_pool E fault i ws n v st)
        | StageSource n v \<Rightarrow> snd (apply_compute_source E fault i ws n v st)
        | StageSelection v \<Rightarrow> snd (stage_selection E fault i ws v st)
        | ActivateEffect e \<Rightarrow> snd (activate_control E fault e st)
        | CompensateEffect e \<Rightarrow> snd (compensate_control E fault e st)))"

text \<open>An effect names its operation; a call is the operation's own when it acts on such an effect.\<close>

definition names_operation :: "string \<Rightarrow> owned_effect \<Rightarrow> bool" where
  "names_operation i e \<longleftrightarrow> as_str (json_index (ef_compensation e) ''operation_id'') = Some i
     \<and> (case operation_id_parse i of Inr j \<Rightarrow> j = i | Inl _ \<Rightarrow> True)"

definition own_call :: "string \<Rightarrow> port_error option \<times> effect_call \<Rightarrow> bool" where
  "own_call i c \<longleftrightarrow>
     (case snd c of ActivateEffect e \<Rightarrow> names_operation i e | CompensateEffect e \<Rightarrow> names_operation i e | _ \<Rightarrow> True)"

section \<open>Workspace states\<close>

definition workspace_phase :: "string \<Rightarrow> string \<Rightarrow> 'x store \<Rightarrow> effect_phase" where
  "workspace_phase i ws st =
    (case ct_effects st i of
       None \<Rightarrow> Unstaged
     | Some r \<Rightarrow>
         if ce_workspace r \<noteq> ws then Unstaged else if ce_compensated r then Undone
         else if ce_activated r then ActivePhase else StagedPhase)"

text \<open>What a reader of the workspace sees: its state and the digest of it.\<close>

definition workspace_value :: "string \<Rightarrow> 'x store \<Rightarrow> (string \<times> digest) option" where
  "workspace_value ws st = map_option (\<lambda>w. (wr_json w, wr_digest w)) (ct_workspaces st ws)"

definition workspace_saved :: "string \<Rightarrow> 'x store \<Rightarrow> (string \<times> digest) option" where
  "workspace_saved i st =
    (case ct_effects st i of
       None \<Rightarrow> None
     | Some r \<Rightarrow> (case (ce_before_exists r, ce_before_json r, ce_before_digest r) of
         (True, Some j, Some d) \<Rightarrow> Some (j, d) | _ \<Rightarrow> None))"

definition workspace_wanted :: "string \<Rightarrow> 'x store \<Rightarrow> (string \<times> digest) option" where
  "workspace_wanted i st =
    (case ct_effects st i of
       None \<Rightarrow> None | Some r \<Rightarrow> map_option (\<lambda>j. (j, ce_after_digest r)) (ce_staged_json r))"

text \<open>The views of the workspace state.\<close>

lemmas workspace_views = workspace_phase_def workspace_value_def workspace_saved_def workspace_wanted_def

lemma workspace_parse_Some: "workspace_parse s = Some t \<Longrightarrow> t = s"
  by (simp add: workspace_parse_def split: if_splits)

text \<open>A row staged over the present state of the workspace, and what a staging call leaves.\<close>

definition fresh_row :: "string \<Rightarrow> 'x store \<Rightarrow> control_effect_row \<Rightarrow> bool" where
  "fresh_row ws st r \<longleftrightarrow> ce_workspace r = ws \<and> \<not> ce_compensated r \<and> \<not> ce_activated r
     \<and> ce_before_exists r = (ct_workspaces st ws \<noteq> None) \<and> ce_before_json r = map_option wr_json (ct_workspaces st ws)
     \<and> ce_before_digest r = map_option wr_digest (ct_workspaces st ws)"

definition staged_over :: "string \<Rightarrow> string \<Rightarrow> (control_effect_row \<Rightarrow> bool) \<Rightarrow> 'x store \<Rightarrow> 'x store \<Rightarrow> bool" where
  "staged_over i ws ok st st' \<longleftrightarrow> st' = st \<or> (\<exists>r x. ct_effects st i = None \<and> fresh_row ws st r \<and> ok r
     \<and> st' = st\<lparr>ct_ext := x, ct_effects := (ct_effects st)(i \<mapsto> r)\<rparr>)"

text \<open>The row holds an encoded state: that of what the operation wants, when it is known.\<close>

definition staged_for :: "'x store_env \<Rightarrow> json option \<Rightarrow> control_effect_row \<Rightarrow> bool" where
  "staged_for E d r \<longleftrightarrow> ce_staged_json r \<noteq> None
     \<and> (case d of
          None \<Rightarrow> True
        | Some v \<Rightarrow> ce_staged_json r = se_stage_encode E v \<and> Some (ce_after_digest r) = se_digest E v)"

lemma fresh_staged_row [simp]:
  "fresh_row ws st (staged_row ws st gen after j)" "fresh_row ws st (put_pool s (staged_row ws st gen after j))"
  "fresh_row ws st (put_source s (staged_row ws st gen after j))"
  by (simp_all add: fresh_row_def staged_row_def put_pool_def put_source_def Let_def)

lemma staged_overI:
  "ct_effects st i = None \<Longrightarrow> fresh_row ws st r \<Longrightarrow> ok r \<Longrightarrow>
   staged_over i ws ok st (st\<lparr>ct_ext := x, ct_effects := (ct_effects st)(i \<mapsto> r)\<rparr>)"
  unfolding staged_over_def by blast

lemma staged_over_refl [simp]: "staged_over i ws ok st st"
  by (simp add: staged_over_def)

lemma staged_for_row: "se_stage_encode E v = Some j \<Longrightarrow> se_digest E v = Some after \<Longrightarrow>
  staged_for E (Some v) (staged_row ws st gen after j)"
  by (simp add: staged_for_def staged_row_def Let_def)

lemma apply_control_stages:
  "staged_over i ws (staged_for E (Some v)) st (snd (apply_control_state E fault i ws n v st))"
  unfolding apply_control_state_def
  by (rule transaction_state) (auto simp: and_then_Inr option_err_Inr split: if_splits intro!: staged_overI staged_for_row)

lemma stage_compute_stages:
  assumes "stage_compute E ctx i ws n stage put st = Inr (e, st')" "\<And>s r. fresh_row ws st r \<Longrightarrow> fresh_row ws st (put s r)"
    "\<And>s r. ce_staged_json (put s r) = ce_staged_json r"
  shows "staged_over i ws (staged_for E None) st st'"
proof (cases "st' = st")
  case False
  then obtain s gen after j where "ct_effects st i = None"
      "st' = st\<lparr>ct_effects := (ct_effects st)(i \<mapsto> put s (staged_row ws st gen after j))\<rparr>"
    using assms(1) by (auto simp: stage_compute_def and_then_Inr split: if_splits)
  moreover have "fresh_row ws st (put s (staged_row ws st gen after j))"
      "ce_staged_json (put s (staged_row ws st gen after j)) \<noteq> None"
    using assms(2,3) by (simp_all add: staged_row_def Let_def fresh_row_def)
  ultimately show ?thesis unfolding staged_over_def staged_for_def
    by (intro disjI2 exI[of _ "put s (staged_row ws st gen after j)"] exI[of _ "ct_ext st"]) simp
qed (simp add: staged_over_def)

lemma compute_calls_stage:
  "staged_over i ws (staged_for E None) st (snd (apply_credential_pool E fault i ws n v st))"
  "staged_over i ws (staged_for E None) st (snd (apply_compute_source E fault i ws n v st))"
  unfolding apply_credential_pool_def apply_compute_source_def
  by (rule transaction_state, erule stage_compute_stages;
      simp add: staged_over_def fresh_row_def put_pool_def put_source_def)+

text \<open>What an activation and a compensation of the operation leave.\<close>

definition activated_over :: "string \<Rightarrow> 'x store \<Rightarrow> 'x store \<Rightarrow> bool" where
  "activated_over i st st' \<longleftrightarrow> st' = st \<or> (\<exists>r j x h. ct_effects st i = Some r \<and> \<not> ce_compensated r \<and> \<not> ce_activated r
     \<and> ce_staged_json r = Some j
     \<and> st' = st\<lparr>ct_ext := x, ct_workspaces := (ct_workspaces st)(ce_workspace r \<mapsto> \<lparr>wr_json = j,
         wr_revision = ce_after_revision r, wr_digest = ce_after_digest r, wr_owner = Some i\<rparr>),
       ct_heads := h, ct_effects := (ct_effects st)(i \<mapsto> r\<lparr>ce_activated := True\<rparr>)\<rparr>)"

definition compensated_over :: "string \<Rightarrow> 'x store \<Rightarrow> 'x store \<Rightarrow> bool" where
  "compensated_over i st st' \<longleftrightarrow> st' = st \<or> (\<exists>r. ct_effects st i = Some r \<and> \<not> ce_compensated r
     \<and> (\<not> ce_activated r \<and> st' = st\<lparr>ct_effects := (ct_effects st)(i \<mapsto> r\<lparr>ce_compensated := True\<rparr>)\<rparr>
       \<or> ce_activated r \<and> (\<exists>x row gen h. restored_workspace i r gen = Inr row
         \<and> st' = st\<lparr>ct_ext := x, ct_workspaces := (ct_workspaces st)(ce_workspace r := row), ct_heads := h,
             ct_effects := (ct_effects st)(i \<mapsto> r\<lparr>ce_compensated := True\<rparr>)\<rparr>)))"

lemma activate_workspace_over: "activate_workspace E e i st = Inr (x, st') \<Longrightarrow> activated_over i st st'"
  unfolding activated_over_def activate_workspace_def
  by (auto simp: and_then_Inr option_err_Inr dest!: workspace_parse_Some split: if_splits)

lemma compensate_workspace_over: "compensate_workspace E i st = Inr (x, st') \<Longrightarrow> compensated_over i st st'"
  unfolding compensate_workspace_def
  by (auto simp: and_then_Inr option_err_Inr Let_def compensated_over_def dest!: workspace_parse_Some split: if_splits option.splits)
    blast

text \<open>The calls of an operation on its workspace; \<open>d\<close> is the state it wants, where it is known.\<close>

definition workspace_call :: "string \<Rightarrow> json option \<Rightarrow> port_error option \<times> effect_call \<Rightarrow> bool" where
  "workspace_call i d c \<longleftrightarrow> own_call i c
     \<and> (case snd c of
          StageState _ v \<Rightarrow> d = None \<or> d = Some v
        | StagePool _ _ \<Rightarrow> d = None
        | StageSource _ _ \<Rightarrow> d = None
        | StageSelection _ \<Rightarrow> False
        | _ \<Rightarrow> True)"

definition workspace_sound :: "'x store_env \<Rightarrow> string \<Rightarrow> string \<Rightarrow> json option \<Rightarrow> 'x store \<Rightarrow> bool" where
  "workspace_sound E i ws d st \<longleftrightarrow> ct_selection_effects st i = None
     \<and> (case ct_effects st i of None \<Rightarrow> True | Some r \<Rightarrow> ce_workspace r = ws \<longrightarrow> staged_for E d r)"

lemma staged_over_weaken:
  "staged_over i ws ok st st' \<Longrightarrow> (\<And>r. ok r \<Longrightarrow> ok' r) \<Longrightarrow> staged_over i ws ok' st st'"
  unfolding staged_over_def by blast

lemma staged_for_None: "staged_for E (Some v) r \<Longrightarrow> staged_for E None r"
  by (auto simp: staged_for_def)

lemma stage_state_step:
  "d = None \<or> d = Some v \<Longrightarrow> staged_over i ws (staged_for E d) st (snd (apply_control_state E fault i ws n v st))"
  using apply_control_stages[of i ws E v st fault n] by (auto elim: staged_over_weaken dest: staged_for_None)

lemma worker_effect_own:
  "worker_effect_operation e = Inr (Some j) \<Longrightarrow> names_operation i e \<Longrightarrow> j = i"
  by (auto simp: worker_effect_operation_def and_then_Inr option_err_Inr names_operation_def split: if_splits)

lemma no_selection_calls:
  assumes "ct_selection_effects st i = None" "names_operation i e"
  shows "activate_selection E e i st \<noteq> Inr x" "compensate_selection E i st \<noteq> Inr y"
  using assms by (auto simp: activate_selection_def compensate_selection_def and_then_Inr option_err_Inr map_err_def
      names_operation_def split: sum.splits)

lemma activated_over_refl [simp]: "activated_over i st st"
  by (simp add: activated_over_def)

lemma compensated_over_refl [simp]: "compensated_over i st st"
  by (simp add: compensated_over_def)

lemma effect_operation_own: "effect_operation c e = Inr j \<Longrightarrow> names_operation i e \<Longrightarrow> j = i"
  by (simp add: effect_operation_def option_err_Inr names_operation_def)

lemma activate_step_over:
  assumes "ct_selection_effects st i = None" "names_operation i e"
  shows "activated_over i st (snd (activate_control E fault e st))"
  unfolding activate_control_def
proof (rule transaction_state)
  fix x st'
  assume "and_then (worker_effect_operation e) (\<lambda>worker. case worker of Some i \<Rightarrow> activate_selection E e i st
    | None \<Rightarrow> if ef_kind e \<noteq> Control then perr InvalidData ''control.activate.kind''
        else and_then (effect_operation ''control.activate.metadata'' e) (\<lambda>i. activate_workspace E e i st)) = Inr (x, st')"
  then show "activated_over i st st'"
    using no_selection_calls(1)[OF assms] assms(2)
    by (auto simp: and_then_Inr split: option.splits if_splits
        dest!: worker_effect_own effect_operation_own dest: activate_workspace_over)
qed simp

lemma compensate_step_over:
  assumes "ct_selection_effects st i = None" "names_operation i e"
  shows "compensated_over i st (snd (compensate_control E fault e st))"
  unfolding compensate_control_def
proof (rule transaction_state)
  fix x st'
  assume "and_then (worker_effect_operation e) (\<lambda>worker. case worker of Some i \<Rightarrow> compensate_selection E i st
    | None \<Rightarrow> if ef_kind e \<noteq> Control then perr InvalidData ''control.compensate.kind''
        else and_then (effect_operation ''control.compensate.metadata'' e) (\<lambda>i. compensate_workspace E i st)) = Inr (x, st')"
  then show "compensated_over i st st'"
    using no_selection_calls(2)[OF assms] assms(2)
    by (auto simp: and_then_Inr split: option.splits if_splits
        dest!: worker_effect_own effect_operation_own dest: compensate_workspace_over)
qed simp

lemma workspace_step_cases:
  assumes "workspace_sound E i ws d st" "workspace_call i d c"
  shows "staged_over i ws (staged_for E d) st (effect_step E i ws c st) \<or> activated_over i st (effect_step E i ws c st)
    \<or> compensated_over i st (effect_step E i ws c st)"
proof -
  have free: "ct_selection_effects st i = None" using assms(1) by (simp add: workspace_sound_def)
  obtain fault request where c: "c = (fault, request)" by force
  show ?thesis
  proof (cases request)
    case (StageState n v)
    then have "d = None \<or> d = Some v" using assms(2) c by (simp add: workspace_call_def)
    from stage_state_step[OF this, of i ws E st fault n] show ?thesis using c StageState by (simp add: effect_step_def)
  next
    case (StagePool n v)
    then show ?thesis using assms(2) c compute_calls_stage(1)[of i ws E st fault n v]
      by (simp add: effect_step_def workspace_call_def)
  next
    case (StageSource n v)
    then show ?thesis using assms(2) c compute_calls_stage(2)[of i ws E st fault n v]
      by (simp add: effect_step_def workspace_call_def)
  next
    case (ActivateEffect e)
    then show ?thesis using assms(2) c activate_step_over[OF free, of e E fault]
      by (simp add: effect_step_def workspace_call_def own_call_def)
  next
    case (CompensateEffect e)
    then show ?thesis using assms(2) c compensate_step_over[OF free, of e E fault]
      by (simp add: effect_step_def workspace_call_def own_call_def)
  qed (use assms(2) c in \<open>simp add: workspace_call_def\<close>)
qed

section \<open>The contract holds\<close>

lemma staged_over_move:
  assumes "staged_over i ws ok st st'"
  shows "effect_move (workspace_phase i ws) (workspace_value ws) (workspace_saved i) (workspace_wanted i) st st'"
proof (cases "st' = st")
  case False
  then obtain r x where r: "ct_effects st i = None" "fresh_row ws st r"
      "st' = st\<lparr>ct_ext := x, ct_effects := (ct_effects st)(i \<mapsto> r)\<rparr>"
    using assms by (auto simp: staged_over_def)
  have "workspace_phase i ws st = Unstaged" "workspace_phase i ws st' = StagedPhase"
    "workspace_value ws st' = workspace_value ws st" "workspace_saved i st' = workspace_value ws st"
    using r by (auto simp: workspace_views fresh_row_def split: option.splits bool.splits)
  then show ?thesis by (simp add: effect_move_def)
qed (simp add: effect_move_def)

lemma activated_over_move:
  assumes "activated_over i st st'"
  shows "effect_move (workspace_phase i ws) (workspace_value ws) (workspace_saved i) (workspace_wanted i) st st'"
proof (cases "st' = st")
  case False
  then obtain r j x h where r: "ct_effects st i = Some r" "\<not> ce_compensated r" "\<not> ce_activated r" "ce_staged_json r = Some j"
      "st' = st\<lparr>ct_ext := x, ct_workspaces := (ct_workspaces st)(ce_workspace r \<mapsto> \<lparr>wr_json = j,
         wr_revision = ce_after_revision r, wr_digest = ce_after_digest r, wr_owner = Some i\<rparr>),
       ct_heads := h, ct_effects := (ct_effects st)(i \<mapsto> r\<lparr>ce_activated := True\<rparr>)\<rparr>"
    using assms by (auto simp: activated_over_def)
  then show ?thesis
    by (cases "ce_workspace r = ws") (simp_all add: effect_move_def workspace_views)
qed (simp add: effect_move_def)

lemma restored_value: "restored_workspace i r gen = Inr row \<Longrightarrow>
  map_option (\<lambda>w. (wr_json w, wr_digest w)) row
    = (case (ce_before_exists r, ce_before_json r, ce_before_digest r) of (True, Some j, Some d) \<Rightarrow> Some (j, d) | _ \<Rightarrow> None)"
  by (auto simp: restored_workspace_def split: if_splits option.splits)

lemma compensated_over_move:
  assumes "compensated_over i st st'"
  shows "effect_move (workspace_phase i ws) (workspace_value ws) (workspace_saved i) (workspace_wanted i) st st'"
proof (cases "st' = st")
  case False
  then obtain r where r: "ct_effects st i = Some r" "\<not> ce_compensated r"
    and how: "\<not> ce_activated r \<and> st' = st\<lparr>ct_effects := (ct_effects st)(i \<mapsto> r\<lparr>ce_compensated := True\<rparr>)\<rparr>
       \<or> ce_activated r \<and> (\<exists>x row gen h. restored_workspace i r gen = Inr row
         \<and> st' = st\<lparr>ct_ext := x, ct_workspaces := (ct_workspaces st)(ce_workspace r := row), ct_heads := h,
             ct_effects := (ct_effects st)(i \<mapsto> r\<lparr>ce_compensated := True\<rparr>)\<rparr>)"
    using assms unfolding compensated_over_def by blast
  from how show ?thesis
  proof (elim disjE conjE exE)
    assume "\<not> ce_activated r" "st' = st\<lparr>ct_effects := (ct_effects st)(i \<mapsto> r\<lparr>ce_compensated := True\<rparr>)\<rparr>"
    then show ?thesis using r by (cases "ce_workspace r = ws") (simp_all add: effect_move_def workspace_views)
  next
    fix x row gen h
    assume "ce_activated r" "restored_workspace i r gen = Inr row" "st' = st\<lparr>ct_ext := x,
      ct_workspaces := (ct_workspaces st)(ce_workspace r := row), ct_heads := h,
      ct_effects := (ct_effects st)(i \<mapsto> r\<lparr>ce_compensated := True\<rparr>)\<rparr>"
    then show ?thesis using r restored_value[of i r gen row]
      by (cases "ce_workspace r = ws") (simp_all add: effect_move_def workspace_views)
  qed
qed (simp add: effect_move_def)

lemma step_keeps_sound:
  assumes "workspace_sound E i ws d st"
    and "staged_over i ws (staged_for E d) st st' \<or> activated_over i st st' \<or> compensated_over i st st'"
  shows "workspace_sound E i ws d st'"
  using assms(2,1) unfolding staged_over_def activated_over_def compensated_over_def
  by (elim disjE exE conjE) (auto simp: workspace_sound_def fresh_row_def staged_for_def split: option.splits)

lemma workspace_observed:
  assumes "ct_selection_effects st i = None"
  shows "observe_control E i ws st = Inr Missing \<Longrightarrow> workspace_phase i ws st = Unstaged \<or> workspace_phase i ws st = Undone"
    and "observe_control E i ws st = Inr (AppliedEffect e) \<Longrightarrow> workspace_phase i ws st = ActivePhase"
  using assms
  by (auto simp: observe_control_def observe_selection_def and_then_Inr option_err_Inr workspace_phase_def Let_def
      split: option.splits if_splits)

interpretation control: staged_effect "workspace_phase i ws" "workspace_value ws" "workspace_saved i" "workspace_wanted i"
    "workspace_sound E i ws d" "workspace_call i d" "effect_step E i ws" "observe_control E i ws" for E i ws d
proof
  fix st c e
  assume st: "workspace_sound E i ws d st"
  then have free: "ct_selection_effects st i = None" by (simp add: workspace_sound_def)
  show "observe_control E i ws st = Inr Missing \<Longrightarrow> workspace_phase i ws st = Unstaged \<or> workspace_phase i ws st = Undone"
    "observe_control E i ws st = Inr (AppliedEffect e) \<Longrightarrow> workspace_phase i ws st = ActivePhase"
    by (rule workspace_observed[OF free]; assumption)+
  assume c: "workspace_call i d c"
  show "effect_move (workspace_phase i ws) (workspace_value ws) (workspace_saved i) (workspace_wanted i) st (effect_step E i ws c st)"
    using workspace_step_cases[OF st c] by (elim disjE) (rule staged_over_move activated_over_move compensated_over_move; assumption)+
  show "workspace_sound E i ws d (effect_step E i ws c st)"
    using step_keeps_sound[OF st workspace_step_cases[OF st c]] .
qed

end
