(* ===== verification/Store_Properties.thy ===== *)
theory Store_Properties
  imports Transaction_Gate Staged_Effects
begin

text \<open>
  The control store over any sequence of its commands: the invariant of its tables, the generation
  that only grows, the single writer claim, the one-shot capability and the idempotency key.
\<close>

section \<open>Commands\<close>

datatype command =
    BeginWith operation authorization | BeginLocal operation | Save operation | SaveTail operation
  | FinishWith operation | Reclaim string | Register authorization | Effect string string effect_call

text \<open>A command with the fault SQLite answers with and the clock it reads.\<close>

definition exec :: "'x store_env \<Rightarrow> port_error option \<times> int \<times> command \<Rightarrow> 'x store \<Rightarrow> 'x store" where
  "exec E c st =
    (case c of (fault, now, cmd) \<Rightarrow>
       (case cmd of
          BeginWith o1 a \<Rightarrow> snd (begin_operation E fault now o1 a st)
        | BeginLocal o1 \<Rightarrow> snd (begin_local_operation E fault now o1 st)
        | Save o1 \<Rightarrow> snd (save_operation E fault o1 st)
        | SaveTail o1 \<Rightarrow> snd (save_operation_tail E fault o1 st)
        | FinishWith o1 \<Rightarrow> snd (finish_operation E fault o1 st)
        | Reclaim i \<Rightarrow> snd (reclaim_operation_writer fault i st)
        | Register a \<Rightarrow> snd (register_capability fault now a st)
        | Effect i ws k \<Rightarrow> effect_step E i ws (fault, k) st))"

definition exec_all :: "'x store_env \<Rightarrow> (port_error option \<times> int \<times> command) list \<Rightarrow> 'x store \<Rightarrow> 'x store" where
  "exec_all E cs st = fold (exec E) cs st"

lemma exec_all_simps [simp]:
  "exec_all E [] st = st" "exec_all E (c # cs) st = exec_all E cs (exec E c st)"
  by (simp_all add: exec_all_def)

section \<open>What a command does\<close>

definition journaled :: "operation \<Rightarrow> journal_update \<Rightarrow> 'x store \<Rightarrow> 'x store" where
  "journaled o1 u st =
    (store_steps (oi_operation_id o1) (ju_changed_steps u) st)
      \<lparr>ct_rows := map (\<lambda>r. if row_matches o1 (ju_expected_generation u) (ju_plan_json u) r
                          then row_updated o1 u r else r) (ct_rows st)\<rparr>"

lemma journal_save_ok:
  "journal_save E o1 st = Inr (g, st') \<longleftrightarrow>
     (\<exists>u. journal_update_of (se_ops E) o1 = Inr u \<and> g = ju_next_generation u \<and> g \<le> i64_max
        \<and> ju_expected_generation u \<le> i64_max
        \<and> \<not> (ju_changed_steps u \<noteq> [] \<and> find_row (oi_operation_id o1) st = None)
        \<and> list_ex (row_matches o1 (ju_expected_generation u) (ju_plan_json u)) (ct_rows st)
        \<and> st' = journaled o1 u st)"
proof (cases "journal_update_of (se_ops E) o1")
  case (Inl e)
  then show ?thesis by (simp add: journal_save_def map_err_def perr_def)
next
  case (Inr u)
  then show ?thesis
    by (auto simp: journal_save_def map_err_def perr_def journaled_def beyond_i64_def not_le simp del: not_None_eq)
qed

lemma journal_update_generations:
  "journal_update_of env o1 = Inr u \<Longrightarrow>
     ju_expected_generation u = op_generation o1 \<and> ju_next_generation u = op_generation o1 + 1
     \<and> set (ju_changed_steps u) \<subseteq> set (op_steps o1)"
proof -
  assume u: "journal_update_of env o1 = Inr u"
  have "set (map fst (filter q (zip xs ys))) \<subseteq> set xs" for q :: "op_step \<times> op_step \<Rightarrow> bool" and xs ys
    by (auto dest: set_zip_leftD)
  moreover have "\<exists>zs. ju_changed_steps u = map fst (filter (\<lambda>(a, b). a \<noteq> b) (zip (op_steps o1) zs))"
      "ju_expected_generation u = op_generation o1" "ju_next_generation u = op_generation o1 + 1"
    using u by (auto simp: journal_update_of_def and_then_Inr ok_or_Inr split: if_splits)
  ultimately show ?thesis by metis
qed

definition releases :: "string \<Rightarrow> command \<Rightarrow> bool" where
  "releases i cmd \<longleftrightarrow>
     (case cmd of
        SaveTail o1 \<Rightarrow> oi_operation_id o1 = i
      | FinishWith o1 \<Rightarrow> oi_operation_id o1 = i \<and> op_state_of o1 \<noteq> NeedsAttention
      | _ \<Rightarrow> False)"

fun writes :: "command \<Rightarrow> operation option" where
  "writes (BeginWith o1 _) = Some o1"
| "writes (BeginLocal o1) = Some o1"
| "writes (Save o1) = Some o1"
| "writes (SaveTail o1) = Some o1"
| "writes (FinishWith o1) = Some o1"
| "writes _ = None"

text \<open>The admission of an operation, as one state change.\<close>

definition admitted :: "nat \<Rightarrow> operation \<Rightarrow> string \<Rightarrow> 'x store \<Rightarrow> 'x store" where
  "admitted now o1 pj st =
    store_steps (oi_operation_id o1) (op_steps o1) (st\<lparr>ct_rows := ct_rows st @ [new_row now o1 pj],
      ct_claim := Some (oi_operation_id o1)\<rparr>)"

definition spent_for :: "operation \<Rightarrow> authorization option \<Rightarrow> int \<Rightarrow> (digest \<Rightarrow> capability_row option)
   \<Rightarrow> (digest \<Rightarrow> capability_row option) \<Rightarrow> bool" where
  "spent_for o1 auth now caps caps' \<longleftrightarrow>
     (case auth of
        None \<Rightarrow> caps' = caps
      | Some a \<Rightarrow> \<exists>c. caps (au_capability a) = Some c \<and> capability_usable now a c
          \<and> caps' = caps(au_capability a \<mapsto> c\<lparr>cp_consumed := Some (oi_operation_id o1)\<rparr>))"

lemma consume_capability_ok:
  "consume_capability now o1 auth st = Inr st' \<longleftrightarrow>
     (\<exists>caps'. spent_for o1 auth now (ct_capabilities st) caps' \<and> st' = st\<lparr>ct_capabilities := caps'\<rparr>)"
  by (auto simp: consume_capability_def spent_for_def perr_def split: option.splits if_splits)

lemma admit_ok:
  "admit E now o1 auth st = Inr (out, st') \<longleftrightarrow>
     out = Created \<and> ct_claim st = None \<and> find_row (oi_operation_id o1) st = None
     \<and> (\<forall>a. auth = Some a \<longrightarrow> matches_operation E o1 a \<and> au_scope a = ''apply:one-shot'')
     \<and> (\<exists>caps' pj x. spent_for o1 auth now (ct_capabilities st) caps' \<and> oe_plan_json (se_ops E) (op_plan_of o1) = Inr pj
         \<and> se_begin E o1 (ct_ext st) = Inr x
         \<and> st' = (admitted (nat now) o1 pj st)\<lparr>ct_capabilities := caps', ct_ext := x\<rparr>)"
  (is "_ \<longleftrightarrow> ?rhs")
proof -
  have binding: "(case auth of None \<Rightarrow> False | Some a \<Rightarrow> \<not> matches_operation E o1 a \<or> au_scope a \<noteq> ''apply:one-shot'')
      \<longleftrightarrow> \<not> (\<forall>a. auth = Some a \<longrightarrow> matches_operation E o1 a \<and> au_scope a = ''apply:one-shot'')"
    by (auto split: option.splits)
  have row: "find_row i (st\<lparr>ct_claim := c, ct_capabilities := k\<rparr>) = find_row i st" for i c k
    by (simp add: find_row_def)
  show ?thesis
    unfolding admit_def binding
    by (auto simp: perr_def and_then_Inr consume_capability_ok map_err_Inr Let_def row admitted_def store_steps_def
        simp del: not_None_eq)
qed

lemma begin_ok:
  "begin_operation_admitted E fault now o1 auth st = (Inr out, st') \<longleftrightarrow>
     fault = None \<and> (\<exists>found. operation_for_idempotency E (oi_workspace_id o1) (oi_idempotency o1) st = Inr found
      \<and> (case found of
           Some existing \<Rightarrow> st' = st \<and> out = (if oi_accepted_digest existing = oi_accepted_digest o1
             then ExistingSame existing else ExistingDifferent)
         | None \<Rightarrow> \<exists>mismatch. admission_revisions E o1 st = Inr mismatch
             \<and> (case mismatch of Some m \<Rightarrow> out = RevisionChanged m \<and> st' = st
                | None \<Rightarrow> admit E now o1 auth st = Inr (out, st'))))"
  unfolding begin_operation_admitted_def in_transaction_ok and_then_Inr
  by (auto simp: and_then_Inr split: option.splits)

lemma begin_created:
  assumes "begin_operation_admitted E fault now o1 auth st = (Inr Created, st')"
  shows "find (same_idempotency (oi_workspace_id o1) (oi_idempotency o1)) (ct_rows st) = None"
    "admission_revisions E o1 st = Inr None" "admit E now o1 auth st = Inr (Created, st')"
  using assms
  by (auto simp: begin_ok operation_for_idempotency_def and_then_Inr split: option.splits if_splits)

lemma begin_other:
  assumes "begin_operation_admitted E fault now o1 auth st = (r, st')" "r \<noteq> Inr Created"
  shows "st' = st"
proof (cases r)
  case (Inl e)
  then show ?thesis using assms(1) in_transaction_err unfolding begin_operation_admitted_def by blast
next
  case (Inr out)
  then show ?thesis using assms by (auto simp: begin_ok admit_ok split: option.splits)
qed

text \<open>The outcomes of a command.\<close>

lemma begin_outcome:
  assumes "begin_operation_admitted E fault now o1 auth st = (r, st')"
  shows "st' = st \<or> (\<exists>caps' pj x. admit E now o1 auth st = Inr (Created, st')
    \<and> st' = (admitted (nat now) o1 pj st)\<lparr>ct_capabilities := caps', ct_ext := x\<rparr>
    \<and> find (same_idempotency (oi_workspace_id o1) (oi_idempotency o1)) (ct_rows st) = None
    \<and> spent_for o1 auth now (ct_capabilities st) caps')"
proof (cases "r = Inr Created")
  case True
  then show ?thesis using begin_created[of E fault now o1 auth st st'] assms by (auto simp: admit_ok)
next
  case False
  then show ?thesis using begin_other assms by blast
qed

lemma journal_outcome:
  assumes "journal_save E o1 (st\<lparr>ct_ext := x\<rparr>) = Inr (g, st')"
  shows "\<exists>u. st' = journaled o1 u (st\<lparr>ct_ext := x\<rparr>) \<and> journal_update_of (se_ops E) o1 = Inr u
    \<and> ju_next_generation u \<le> i64_max \<and> list_ex (row_matches o1 (op_generation o1) (ju_plan_json u)) (ct_rows st)
    \<and> ct_claim st' = ct_claim st"
proof -
  obtain u where "journal_update_of (se_ops E) o1 = Inr u" "st' = journaled o1 u (st\<lparr>ct_ext := x\<rparr>)"
      "g = ju_next_generation u" "g \<le> i64_max"
      "list_ex (row_matches o1 (ju_expected_generation u) (ju_plan_json u)) (ct_rows st)"
    using assms by (auto simp: journal_save_ok simp del: not_None_eq)
  then show ?thesis using journal_update_generations[of "se_ops E" o1 u] by (auto simp: journaled_def)
qed

lemma save_outcome:
  assumes "save_operation E fault o1 st = (r, st')"
  shows "st' = st \<or> (\<exists>u. st' = journaled o1 u st \<and> journal_update_of (se_ops E) o1 = Inr u
    \<and> ju_next_generation u \<le> i64_max \<and> list_ex (row_matches o1 (op_generation o1) (ju_plan_json u)) (ct_rows st))"
  using assms journal_outcome[of E o1 "ct_ext st" st] store_err(1) by (cases r) (auto simp: save_operation_ok)

lemma tail_outcome:
  assumes "save_operation_tail E fault o1 st = (r, st')"
  shows "st' = st \<or> (\<exists>u. st' = (journaled o1 u st)\<lparr>ct_claim := None\<rparr> \<and> journal_update_of (se_ops E) o1 = Inr u
    \<and> ju_next_generation u \<le> i64_max \<and> list_ex (row_matches o1 (op_generation o1) (ju_plan_json u)) (ct_rows st)
    \<and> ct_claim st \<in> {None, Some (oi_operation_id o1)})"
proof (cases r)
  case (Inl e)
  then show ?thesis using assms store_err(2) by blast
next
  case (Inr o2)
  then obtain g st1 where st1: "journal_save E o1 (st\<lparr>ct_ext := ct_ext st\<rparr>) = Inr (g, st1)"
      "ct_claim st1 \<in> {None, Some (oi_operation_id o1)}" "st' = st1\<lparr>ct_claim := None\<rparr>"
    using assms by (auto simp: save_tail_ok)
  from journal_outcome[OF st1(1)] st1(2,3) show ?thesis by auto
qed

lemma finish_outcome:
  assumes "finish_operation E fault o1 st = (r, st')"
  shows "st' = st \<or> (\<exists>u x claim. st' = (journaled o1 u (st\<lparr>ct_ext := x\<rparr>))\<lparr>ct_claim := claim\<rparr>
    \<and> journal_update_of (se_ops E) o1 = Inr u
    \<and> ju_next_generation u \<le> i64_max \<and> list_ex (row_matches o1 (op_generation o1) (ju_plan_json u)) (ct_rows st)
    \<and> (claim = ct_claim st \<or> claim = None \<and> ct_claim st = Some (oi_operation_id o1) \<and> op_state_of o1 \<noteq> NeedsAttention))"
proof (cases r)
  case (Inl e)
  then show ?thesis using assms store_err(3) by blast
next
  case (Inr o2)
  obtain x g st1 where x: "journal_save E o1 (st\<lparr>ct_ext := x\<rparr>) = Inr (g, st1)"
      "if op_state_of o1 = NeedsAttention then st' = st1
       else ct_claim st1 = Some (oi_operation_id o1) \<and> st' = st1\<lparr>ct_claim := None\<rparr>"
    using assms Inr by (auto simp: finish_operation_ok)
  obtain u where u: "st1 = journaled o1 u (st\<lparr>ct_ext := x\<rparr>)" "journal_update_of (se_ops E) o1 = Inr u"
      "ju_next_generation u \<le> i64_max" "list_ex (row_matches o1 (op_generation o1) (ju_plan_json u)) (ct_rows st)"
      "ct_claim st1 = ct_claim st"
    using journal_outcome[OF x(1)] by blast
  have "st1 = st1\<lparr>ct_claim := ct_claim st\<rparr>" using u(5) by simp
  then show ?thesis
    using x(2) u by (cases "op_state_of o1 = NeedsAttention") (auto intro!: exI[of _ u] exI[of _ x])
qed

lemma reclaim_outcome:
  assumes "reclaim_operation_writer fault i st = (r, st')"
  shows "st' = st \<or> st' = st\<lparr>ct_claim := Some i\<rparr> \<and> ct_claim st \<in> {None, Some i}"
proof (cases r)
  case (Inl e)
  then show ?thesis using assms store_err(4) by blast
next
  case (Inr u)
  then show ?thesis
    using assms by (auto simp: reclaim_operation_writer_def in_transaction_ok perr_def split: if_splits)
qed

lemma register_outcome:
  assumes "register_capability fault now a st = (r, st')"
  shows "st' = st \<or> (\<exists>c. st' = st\<lparr>ct_capabilities := (ct_capabilities st)(au_capability a \<mapsto> c)\<rparr>
    \<and> ct_capabilities st (au_capability a) = None)"
proof (cases r)
  case (Inl e)
  then show ?thesis using assms in_transaction_err unfolding register_capability_def by blast
next
  case (Inr u)
  then show ?thesis
    using assms by (auto simp: register_capability_def in_transaction_ok perr_def split: if_splits)
qed

lemma effect_step_journal: "journal_tables (effect_step E i ws c st) = journal_tables st"
  by (auto simp: effect_step_def split: prod.splits effect_call.splits)

lemma exec_elim:
  obtains (same) "exec E c st = st"
  | (effect) "ct_rows (exec E c st) = ct_rows st" "ct_step_rows (exec E c st) = ct_step_rows st"
      "ct_claim (exec E c st) = ct_claim st" "ct_capabilities (exec E c st) = ct_capabilities st"
  | (journal) o1 u x claim where "exec E c st = (journaled o1 u (st\<lparr>ct_ext := x\<rparr>))\<lparr>ct_claim := claim\<rparr>"
      "journal_update_of (se_ops E) o1 = Inr u" "ju_next_generation u \<le> i64_max" "writes (snd (snd c)) = Some o1"
      "list_ex (row_matches o1 (op_generation o1) (ju_plan_json u)) (ct_rows st)"
      "claim = ct_claim st \<or> claim = None \<and> ct_claim st \<in> {None, Some (oi_operation_id o1)}
        \<and> releases (oi_operation_id o1) (snd (snd c))"
  | (reclaim) i where "exec E c st = st\<lparr>ct_claim := Some i\<rparr>" "ct_claim st \<in> {None, Some i}"
  | (register) a c' where "exec E c st = st\<lparr>ct_capabilities := (ct_capabilities st)(a \<mapsto> c')\<rparr>" "ct_capabilities st a = None"
  | (admit) o1 auth now pj caps' x where "writes (snd (snd c)) = Some o1" "admit E now o1 auth st = Inr (Created, exec E c st)"
      "exec E c st = (admitted (nat now) o1 pj st)\<lparr>ct_capabilities := caps', ct_ext := x\<rparr>"
      "find (same_idempotency (oi_workspace_id o1) (oi_idempotency o1)) (ct_rows st) = None"
      "spent_for o1 auth now (ct_capabilities st) caps'"
proof -
  obtain fault now cmd where c: "c = (fault, now, cmd)" by (cases c) auto
  show thesis
  proof (cases cmd)
    case (BeginWith o1 a)
    obtain r where "begin_operation_admitted E fault now o1 (Some a) st = (r, exec E c st)"
      using c BeginWith by (cases "begin_operation E fault now o1 a st") (simp add: exec_def begin_operation_def)
    from begin_outcome[OF this] show thesis using same admit c BeginWith by auto
  next
    case (BeginLocal o1)
    show thesis
    proof (cases "is_principal (oi_idempotency o1) = ''interactive-user''")
      case False
      then show thesis using same c BeginLocal by (simp add: exec_def begin_local_operation_def)
    next
      case True
      obtain r where "begin_operation_admitted E fault now o1 None st = (r, exec E c st)"
        using c BeginLocal True
        by (cases "begin_operation_admitted E fault now o1 None st") (simp add: exec_def begin_local_operation_def)
      from begin_outcome[OF this] show thesis using same admit c BeginLocal by auto
    qed
  next
    case (Save o1)
    obtain r where "save_operation E fault o1 st = (r, exec E c st)"
      using c Save by (cases "save_operation E fault o1 st") (simp add: exec_def)
    from save_outcome[OF this] show thesis
      using same journal[where ?o1.0 = o1 and x = "ct_ext st" and claim = "ct_claim st"] c Save by (auto simp: journaled_def store_steps_def)
  next
    case (SaveTail o1)
    obtain r where "save_operation_tail E fault o1 st = (r, exec E c st)"
      using c SaveTail by (cases "save_operation_tail E fault o1 st") (simp add: exec_def)
    from tail_outcome[OF this] show thesis
      using same journal[where ?o1.0 = o1 and x = "ct_ext st" and claim = None] c SaveTail by (auto simp: releases_def)
  next
    case (FinishWith o1)
    obtain r where "finish_operation E fault o1 st = (r, exec E c st)"
      using c FinishWith by (cases "finish_operation E fault o1 st") (simp add: exec_def)
    from finish_outcome[OF this] show thesis
      using same journal[where ?o1.0 = o1] c FinishWith by (auto simp: releases_def)
  next
    case (Reclaim i)
    obtain r where "reclaim_operation_writer fault i st = (r, exec E c st)"
      using c Reclaim by (cases "reclaim_operation_writer fault i st") (simp add: exec_def)
    from reclaim_outcome[OF this] show thesis using same reclaim by blast
  next
    case (Register a)
    obtain r where "register_capability fault now a st = (r, exec E c st)"
      using c Register by (cases "register_capability fault now a st") (simp add: exec_def)
    from register_outcome[OF this] show thesis using same register by blast
  next
    case (Effect i ws k)
    then have "exec E c st = effect_step E i ws (fault, k) st" using c by (simp add: exec_def)
    then show thesis using effect effect_step_journal[of E i ws "(fault, k)" st] by (simp add: journal_tables_def)
  qed
qed

section \<open>Preservation\<close>

lemma row_updated_fields [simp]:
  "oi_operation_id (row_updated o1 u r) = oi_operation_id r" "oi_workspace_id (row_updated o1 u r) = oi_workspace_id r"
  "oi_idempotency (row_updated o1 u r) = oi_idempotency r" "or_generation (row_updated o1 u r) = ju_next_generation u"
  by (simp_all add: row_updated_def)

lemma journaled_fields [simp]:
  "ct_claim (journaled o1 u st) = ct_claim st" "ct_capabilities (journaled o1 u st) = ct_capabilities st"
  "map oi_operation_id (ct_rows (journaled o1 u st)) = map oi_operation_id (ct_rows st)"
  by (auto simp: journaled_def store_steps_def)

definition advanced :: "operation \<Rightarrow> journal_update \<Rightarrow> op_row \<Rightarrow> op_row" where
  "advanced o1 u r = (if row_matches o1 (ju_expected_generation u) (ju_plan_json u) r then row_updated o1 u r else r)"

lemma journaled_rows: "ct_rows (journaled o1 u st) = map (advanced o1 u) (ct_rows st)"
  by (simp add: journaled_def store_steps_def advanced_def)

lemma advanced_fields [simp]:
  "oi_operation_id (advanced o1 u r) = oi_operation_id r" "oi_workspace_id (advanced o1 u r) = oi_workspace_id r"
  "oi_idempotency (advanced o1 u r) = oi_idempotency r"
  by (simp_all add: advanced_def)

lemma advanced_generation:
  "journal_update_of env o1 = Inr u \<Longrightarrow> or_generation r \<le> or_generation (advanced o1 u r)"
  by (auto simp: advanced_def row_matches_def dest!: journal_update_generations)

lemma admitted_fields [simp]:
  "ct_claim (admitted n o1 pj st) = Some (oi_operation_id o1)" "ct_rows (admitted n o1 pj st) = ct_rows st @ [new_row n o1 pj]"
  by (auto simp: admitted_def store_steps_def)

lemma exec_claim:
  assumes "ct_claim st = Some i" "\<not> releases i (snd (snd c))"
  shows "ct_claim (exec E c st) = Some i \<and> map oi_operation_id (ct_rows (exec E c st)) = map oi_operation_id (ct_rows st)"
  by (rule exec_elim[of E c st]) (use assms in \<open>auto simp: admit_ok\<close>)

lemma exec_spent:
  assumes "ct_capabilities st d = Some k" "cp_consumed k \<noteq> None"
  shows "ct_capabilities (exec E c st) d = Some k"
  by (rule exec_elim[of E c st]) (use assms in \<open>auto simp: spent_for_def capability_usable_def split: option.splits\<close>)

lemma exec_idempotent:
  assumes "list_ex (same_idempotency ws sc) (ct_rows st)"
  shows "list_ex (same_idempotency ws sc) (ct_rows (exec E c st))"
  by (rule exec_elim[of E c st]) (use assms in \<open>auto simp: list_ex_iff journaled_rows same_idempotency_def\<close>)

text \<open>The generation of a row only grows.\<close>

definition reached :: "string \<Rightarrow> u64 \<Rightarrow> 'x store \<Rightarrow> bool" where
  "reached i g st \<longleftrightarrow> (\<forall>r\<in>set (ct_rows st). oi_operation_id r = i \<longrightarrow> g \<le> or_generation r)
     \<and> (\<exists>r\<in>set (ct_rows st). oi_operation_id r = i)"

lemma exec_reached:
  assumes "reached i g st"
  shows "reached i g (exec E c st)"
proof (rule exec_elim[of E c st])
  fix o1 u x claim
  assume e: "exec E c st = (journaled o1 u (st\<lparr>ct_ext := x\<rparr>))\<lparr>ct_claim := claim\<rparr>"
    and u: "journal_update_of (se_ops E) o1 = Inr u"
  show ?thesis
    using assms advanced_generation[OF u] unfolding e reached_def by (auto simp: journaled_rows intro: order_trans)
next
  fix o1 auth now pj caps' x
  assume "admit E now o1 auth st = Inr (Created, exec E c st)"
    "exec E c st = (admitted (nat now) o1 pj st)\<lparr>ct_capabilities := caps', ct_ext := x\<rparr>"
  then have e: "ct_rows (exec E c st) = ct_rows st @ [new_row (nat now) o1 pj]" and n: "find_row (oi_operation_id o1) st = None"
    by (auto simp: admit_ok)
  have "oi_operation_id o1 \<noteq> i" using assms n by (auto simp: reached_def find_row_def find_None_iff)
  then show ?thesis using assms by (auto simp: reached_def e new_row_def)
qed (use assms in \<open>auto simp: reached_def\<close>)

lemma exec_all_keeps:
  assumes "J st" "\<And>c st. c \<in> set cs \<Longrightarrow> J st \<Longrightarrow> J (exec E c st)"
  shows "J (exec_all E cs st)"
  using assms by (induction cs arbitrary: st) auto

section \<open>Over any sequence of commands\<close>

lemma run_claim:
  assumes "ct_claim st = Some i" "\<forall>c\<in>set cs. \<not> releases i (snd (snd c))"
  shows "ct_claim (exec_all E cs st) = Some i
    \<and> map oi_operation_id (ct_rows (exec_all E cs st)) = map oi_operation_id (ct_rows st)"
  using exec_all_keeps[of "\<lambda>t. ct_claim t = Some i \<and> map oi_operation_id (ct_rows t) = map oi_operation_id (ct_rows st)" st cs E]
    assms exec_claim[where i = i and E = E] by metis

lemma held_refuses:
  assumes "ct_claim st \<noteq> None"
  shows "fst (begin_operation_admitted E fault now o1 auth st) \<noteq> Inr Created"
proof
  assume "fst (begin_operation_admitted E fault now o1 auth st) = Inr Created"
  then have "begin_operation_admitted E fault now o1 auth st = (Inr Created, snd (begin_operation_admitted E fault now o1 auth st))"
    by (metis prod.collapse)
  from begin_created(3)[OF this] show False using assms by (simp add: admit_ok)
qed

lemma begin_spends:
  assumes "begin_operation E fault now o1 a st = (Inr Created, st')"
  shows "\<exists>k. ct_capabilities st' (au_capability a) = Some k \<and> cp_consumed k = Some (oi_operation_id o1)"
  using begin_created(3)[of E fault now o1 "Some a" st st'] assms
  by (auto simp: begin_operation_def admit_ok spent_for_def)

lemma spent_refused:
  assumes "ct_capabilities st (au_capability a) = Some k" "cp_consumed k \<noteq> None"
  shows "fst (begin_operation E fault now o1 a st) \<noteq> Inr Created"
proof
  assume "fst (begin_operation E fault now o1 a st) = Inr Created"
  then have "begin_operation_admitted E fault now o1 (Some a) st = (Inr Created, snd (begin_operation E fault now o1 a st))"
    unfolding begin_operation_def by (metis prod.collapse)
  from begin_created(3)[OF this] show False using assms by (auto simp: admit_ok spent_for_def capability_usable_def)
qed

lemma begin_binds:
  assumes "begin_operation_admitted E fault now o1 auth st = (Inr Created, st')"
  shows "list_ex (same_idempotency (oi_workspace_id o1) (oi_idempotency o1)) (ct_rows st')"
  using begin_created(3)[OF assms] by (auto simp: admit_ok same_idempotency_def new_row_def)

lemma bound_refused:
  assumes "list_ex (same_idempotency (oi_workspace_id o1) (oi_idempotency o1)) (ct_rows st)"
  shows "fst (begin_operation_admitted E fault now o1 auth st) \<noteq> Inr Created
    \<and> snd (begin_operation_admitted E fault now o1 auth st) = st"
proof -
  have "find (same_idempotency (oi_workspace_id o1) (oi_idempotency o1)) (ct_rows st) \<noteq> None"
    using assms by (auto simp: find_None_iff list_ex_iff)
  then have "fst (begin_operation_admitted E fault now o1 auth st) \<noteq> Inr Created"
    using begin_created(1)[of E fault now o1 auth st] by (metis prod.collapse)
  then show ?thesis using begin_other[of E fault now o1 auth st] by (metis prod.collapse)
qed

lemma save_reaches:
  assumes "save_operation E fault o1 st = (Inr o2, st')" "distinct (map oi_operation_id (ct_rows st))"
  shows "reached (oi_operation_id o1) (op_generation o1 + 1) st' \<and> op_generation o2 = op_generation o1 + 1"
proof -
  obtain u where u: "journal_update_of (se_ops E) o1 = Inr u" "st' = journaled o1 u st"
      "o2 = acknowledge_commit (ju_next_generation u) o1"
      "list_ex (row_matches o1 (ju_expected_generation u) (ju_plan_json u)) (ct_rows st)"
    using assms(1) by (auto simp: save_operation_ok journal_save_ok simp del: not_None_eq)
  then obtain r where r: "r \<in> set (ct_rows st)" "row_matches o1 (ju_expected_generation u) (ju_plan_json u) r"
    by (auto simp: list_ex_iff)
  have same: "r0 = r" if "r0 \<in> set (ct_rows st)" "oi_operation_id r0 = oi_operation_id o1" for r0
    using that r assms(2) by (auto simp: distinct_map row_matches_def inj_on_def)
  have next_gen: "ju_next_generation u = op_generation o1 + 1" using journal_update_generations[OF u(1)] by simp
  have gen: "or_generation (advanced o1 u r) = op_generation o1 + 1" "oi_operation_id r = oi_operation_id o1"
    using r(2) next_gen by (auto simp: advanced_def row_matches_def)
  have "op_checkpoint o1 \<noteq> None" using u(1) by (auto simp: journal_update_of_def and_then_Inr ok_or_Inr)
  then have "op_generation o2 = op_generation o1 + 1" using u(3) next_gen by (auto simp: acknowledge_commit_def)
  moreover have "reached (oi_operation_id o1) (op_generation o1 + 1) st'"
    unfolding reached_def u(2) journaled_rows
  proof (intro conjI ballI impI)
    fix r' assume "r' \<in> set (map (advanced o1 u) (ct_rows st))" "oi_operation_id r' = oi_operation_id o1"
    then obtain r0 where "r0 \<in> set (ct_rows st)" "r' = advanced o1 u r0" "oi_operation_id r0 = oi_operation_id o1" by auto
    then show "op_generation o1 + 1 \<le> or_generation r'" using same gen(1) by simp
  next
    show "\<exists>r'\<in>set (map (advanced o1 u) (ct_rows st)). oi_operation_id r' = oi_operation_id o1"
      using r(1) gen(2) by auto
  qed
  ultimately show ?thesis by blast
qed

lemma stale_refused:
  assumes "reached (oi_operation_id o1) g st" "op_generation o1 < g"
  shows "is_ok (fst (save_operation E fault o1 st)) = False \<and> snd (save_operation E fault o1 st) = st"
proof (cases "save_operation E fault o1 st")
  case (Pair r st')
  show ?thesis
  proof (cases r)
    case (Inl e)
    then show ?thesis using Pair store_err(1)[of E fault o1 st] by simp
  next
    case (Inr o2)
    then obtain n where "journal_save E o1 st = Inr (n, st')" using Pair by (auto simp: save_operation_ok)
    then have False using assms by (auto simp: journal_save_ok reached_def list_ex_iff row_matches_def dest!: journal_update_generations)
    then show ?thesis ..
  qed
qed

section \<open>The tables\<close>

text \<open>Every journal has the six steps, and the step rows mirror it.\<close>

definition numbered :: "op_step list \<Rightarrow> bool" where
  "numbered ss \<longleftrightarrow> map os_sequence ss = [0..<6]"

definition mirrors :: "string \<Rightarrow> op_step list \<Rightarrow> (string \<times> op_step) list \<Rightarrow> bool" where
  "mirrors i ss rows \<longleftrightarrow> (\<forall>t. (i, t) \<in> set rows \<longleftrightarrow> t \<in> set ss)"

definition step_key :: "string \<times> op_step \<Rightarrow> string \<times> nat" where
  "step_key r = (fst r, os_sequence (snd r))"

definition store_ok :: "'x store \<Rightarrow> bool" where
  "store_ok st \<longleftrightarrow>
     distinct (map oi_operation_id (ct_rows st))
     \<and> distinct (map (\<lambda>r. (oi_workspace_id r, oi_idempotency r)) (ct_rows st))
     \<and> distinct (map step_key (ct_step_rows st))
     \<and> (\<forall>r\<in>set (ct_rows st). numbered (or_steps r) \<and> mirrors (oi_operation_id r) (or_steps r) (ct_step_rows st))
     \<and> (\<forall>k\<in>set (ct_step_rows st). fst k \<in> oi_operation_id ` set (ct_rows st))"

lemma numbered_iff: "numbered ss \<longleftrightarrow> length ss = 6 \<and> (\<forall>n<6. os_sequence (ss ! n) = n)"
  by (auto simp: numbered_def list_eq_iff_nth_eq)

lemma numbered_nth: "numbered ss \<Longrightarrow> t \<in> set ss \<Longrightarrow> os_sequence t < 6 \<and> ss ! os_sequence t = t"
  by (auto simp: numbered_iff in_set_conv_nth)

lemma numbered_distinct: "numbered ss \<Longrightarrow> distinct ss"
  by (metis numbered_def distinct_map distinct_upt)

lemma set_step_numbered:
  assumes "numbered ss" "os_sequence s < 6"
  shows "numbered (set_step s ss) \<and> set (set_step s ss) = insert s {t \<in> set ss. os_sequence t \<noteq> os_sequence s}"
proof -
  have eq: "set_step s ss = ss[os_sequence s := s]" using assms by (simp add: set_step_def numbered_iff)
  have num: "numbered (ss[os_sequence s := s])" using assms by (auto simp: numbered_iff nth_list_update)
  have upd: "n < 6 \<Longrightarrow> ss[os_sequence s := s] ! n = (if n = os_sequence s then s else ss ! n)" for n
    using assms by (auto simp: nth_list_update numbered_iff)
  have "t \<in> set (ss[os_sequence s := s]) \<longleftrightarrow> t = s \<or> t \<in> set ss \<and> os_sequence t \<noteq> os_sequence s" for t
  proof -
    have "t \<in> set (ss[os_sequence s := s]) \<longleftrightarrow> (\<exists>n<6. ss[os_sequence s := s] ! n = t)"
      using num by (auto simp: in_set_conv_nth numbered_iff)
    also have "\<dots> \<longleftrightarrow> t = s \<or> (\<exists>n<6. n \<noteq> os_sequence s \<and> ss ! n = t)"
      using upd assms(2) by metis
    also have "\<dots> \<longleftrightarrow> t = s \<or> t \<in> set ss \<and> os_sequence t \<noteq> os_sequence s"
      using assms by (auto simp: in_set_conv_nth numbered_iff)
    finally show ?thesis .
  qed
  then show ?thesis using num eq by auto
qed

lemma store_step_mem:
  "(j, t) \<in> set (store_step i s rows) \<longleftrightarrow> (j, t) = (i, s) \<or> (j, t) \<in> set rows \<and> \<not> (j = i \<and> os_sequence t = os_sequence s)"
  by (auto simp: store_step_def Let_def list_ex_iff image_iff split: if_splits)

lemma store_step_keys: "distinct (map step_key rows) \<Longrightarrow> distinct (map step_key (store_step i s rows))"
proof -
  assume d: "distinct (map step_key rows)"
  let ?same = "\<lambda>(j, t). j = i \<and> os_sequence t = os_sequence s"
  show ?thesis
  proof (cases "list_ex ?same rows")
    case True
    have "map step_key (map (\<lambda>r. if ?same r then (i, s) else r) rows) = map step_key rows"
      by (auto simp: step_key_def)
    then show ?thesis using d True by (simp only: store_step_def Let_def if_True)
  next
    case False
    then have "step_key (i, s) \<notin> step_key ` set rows" by (auto simp: list_ex_iff step_key_def)
    then show ?thesis using d False by (simp add: store_step_def Let_def)
  qed
qed

lemma mirrors_step:
  assumes "numbered ss" "mirrors i ss rows" "os_sequence s < 6"
  shows "mirrors i (set_step s ss) (store_step i s rows)"
  using assms set_step_numbered[OF assms(1,3)] by (auto simp: mirrors_def store_step_mem)

lemma mirrors_steps:
  assumes "numbered ss" "mirrors i ss rows" "\<forall>s\<in>set cs. os_sequence s < 6"
  shows "numbered (fold set_step cs ss) \<and> mirrors i (fold set_step cs ss) (fold (store_step i) cs rows)"
  using assms
proof (induction cs arbitrary: ss rows)
  case (Cons s cs)
  then show ?case using mirrors_step[of ss i rows s] set_step_numbered[of ss s] by auto
qed simp

lemma store_steps_other: "j \<noteq> i \<Longrightarrow> (j, t) \<in> set (fold (store_step i) cs rows) \<longleftrightarrow> (j, t) \<in> set rows"
  by (induction cs arbitrary: rows) (auto simp: store_step_mem)

lemma store_steps_same: "(i, t) \<in> set (fold (store_step i) cs rows) \<Longrightarrow> t \<in> set cs \<or> (i, t) \<in> set rows"
proof (induction cs arbitrary: rows)
  case (Cons a cs)
  then have "t \<in> set cs \<or> (i, t) \<in> set (store_step i a rows)" by simp
  then show ?case by (auto simp: store_step_mem)
qed simp

lemma store_steps_keys: "distinct (map step_key rows) \<Longrightarrow> distinct (map step_key (fold (store_step i) cs rows))"
  by (induction cs arbitrary: rows) (auto intro: store_step_keys)

lemma journaled_steps: "ct_step_rows (journaled o1 u st) = fold (store_step (oi_operation_id o1)) (ju_changed_steps u) (ct_step_rows st)"
  by (simp add: journaled_def store_steps_def)

lemma advanced_steps:
  "row_matches o1 (ju_expected_generation u) (ju_plan_json u) r \<Longrightarrow>
     or_steps (advanced o1 u r) = fold set_step (ju_changed_steps u) (or_steps r)"
  by (simp add: advanced_def row_updated_def)

lemma store_ok_journal:
  assumes ok: "store_ok st" and u: "journal_update_of env o1 = Inr u" and num: "numbered (op_steps o1)"
    and found: "list_ex (row_matches o1 (op_generation o1) (ju_plan_json u)) (ct_rows st)"
  shows "store_ok (journaled o1 u st)"
proof -
  have cs: "\<forall>s\<in>set (ju_changed_steps u). os_sequence s < 6"
    using journal_update_generations[OF u] numbered_nth[OF num] by blast
  have gen: "ju_expected_generation u = op_generation o1" using journal_update_generations[OF u] by simp
  obtain r1 where r1: "r1 \<in> set (ct_rows st)" "row_matches o1 (ju_expected_generation u) (ju_plan_json u) r1"
    using found gen by (auto simp: list_ex_iff)
  have unique: "r = r1" if "r \<in> set (ct_rows st)" "oi_operation_id r = oi_operation_id o1" for r
    using that r1 ok by (auto simp: store_ok_def distinct_map row_matches_def inj_on_def)
  have rows: "numbered (or_steps (advanced o1 u r)) \<and>
      mirrors (oi_operation_id r) (or_steps (advanced o1 u r)) (ct_step_rows (journaled o1 u st))"
    if r: "r \<in> set (ct_rows st)" for r
  proof (cases "oi_operation_id r = oi_operation_id o1")
    case True
    then have "r = r1" using unique r by blast
    moreover have "numbered (or_steps r)" "mirrors (oi_operation_id o1) (or_steps r) (ct_step_rows st)"
      using ok r True by (auto simp: store_ok_def)
    ultimately show ?thesis
      using mirrors_steps[OF _ _ cs] advanced_steps[OF r1(2)] True by (simp add: journaled_steps)
  next
    case False
    then have "advanced o1 u r = r" by (auto simp: advanced_def row_matches_def)
    then show ?thesis
      using ok r store_steps_other[OF False] by (auto simp: journaled_steps store_ok_def mirrors_def)
  qed
  have pairs: "map (\<lambda>r. (oi_workspace_id r, oi_idempotency r)) (ct_rows (journaled o1 u st))
      = map (\<lambda>r. (oi_workspace_id r, oi_idempotency r)) (ct_rows st)"
    by (simp add: journaled_rows)
  have ids: "oi_operation_id ` set (ct_rows (journaled o1 u st)) = oi_operation_id ` set (ct_rows st)"
    by (auto simp: journaled_rows image_iff)
  have "fst k \<in> oi_operation_id ` set (ct_rows st)" if "k \<in> set (ct_step_rows (journaled o1 u st))" for k
  proof (cases "fst k = oi_operation_id o1")
    case True
    then show ?thesis using r1 by (auto simp: row_matches_def intro: rev_image_eqI)
  next
    case False
    then have "k \<in> set (ct_step_rows st)"
      using that store_steps_other[OF False, of "snd k"] by (cases k) (simp add: journaled_steps)
    then show ?thesis using ok by (auto simp: store_ok_def)
  qed
  then show ?thesis
    using ok rows store_steps_keys unfolding store_ok_def pairs ids
    by (auto simp: journaled_rows journaled_steps comp_def)
qed

lemma store_ok_fields:
  "store_ok (st\<lparr>ct_claim := c\<rparr>) = store_ok st" "store_ok (st\<lparr>ct_ext := x\<rparr>) = store_ok st"
  "store_ok (st\<lparr>ct_capabilities := k\<rparr>) = store_ok st"
  by (simp_all add: store_ok_def)

lemma store_steps_fresh:
  "distinct (map os_sequence cs) \<Longrightarrow> \<forall>t. (i, t) \<notin> set rows \<Longrightarrow>
   (i, t) \<in> set (fold (store_step i) cs rows) \<longleftrightarrow> t \<in> set cs"
proof (induction cs arbitrary: t rule: rev_induct)
  case (snoc a cs)
  then have "(i, t) \<in> set (fold (store_step i) cs rows) \<longleftrightarrow> t \<in> set cs" by simp
  moreover have "t \<in> set cs \<Longrightarrow> os_sequence t \<noteq> os_sequence a" using snoc.prems(1) by (auto simp: image_iff)
  ultimately show ?case by (auto simp: store_step_mem)
qed simp

lemma store_ok_admitted:
  assumes ok: "store_ok st" and num: "numbered (op_steps o1)" and fresh: "find_row (oi_operation_id o1) st = None"
    and key: "find (same_idempotency (oi_workspace_id o1) (oi_idempotency o1)) (ct_rows st) = None"
  shows "store_ok (admitted n o1 pj st)"
proof -
  let ?i = "oi_operation_id o1"
  have new: "?i \<notin> oi_operation_id ` set (ct_rows st)" using fresh by (auto simp: find_row_def find_None_iff)
  then have none: "\<forall>t. (?i, t) \<notin> set (ct_step_rows st)" using ok by (force simp: store_ok_def)
  have steps: "ct_step_rows (admitted n o1 pj st) = fold (store_step ?i) (op_steps o1) (ct_step_rows st)"
    by (simp add: admitted_def store_steps_def)
  have own: "mirrors ?i (op_steps o1) (ct_step_rows (admitted n o1 pj st))"
    using store_steps_fresh[OF _ none] num by (simp add: steps mirrors_def numbered_def)
  have old: "mirrors j ss (ct_step_rows (admitted n o1 pj st)) = mirrors j ss (ct_step_rows st)" if "j \<noteq> ?i" for j ss
    using store_steps_other[OF that] by (simp add: steps mirrors_def)
  have known: "fst k \<in> insert ?i (oi_operation_id ` set (ct_rows st))" if "k \<in> set (ct_step_rows (admitted n o1 pj st))" for k
    using that ok store_steps_other[of "fst k" ?i "snd k"] by (cases "fst k = ?i") (auto simp: steps store_ok_def)
  have row: "oi_operation_id (new_row n o1 pj) = ?i" "or_steps (new_row n o1 pj) = op_steps o1"
      "(oi_workspace_id (new_row n o1 pj), oi_idempotency (new_row n o1 pj)) = (oi_workspace_id o1, oi_idempotency o1)"
    by (simp_all add: new_row_def)
  have "\<forall>r\<in>set (ct_rows st). (oi_workspace_id r, oi_idempotency r) \<noteq> (oi_workspace_id o1, oi_idempotency o1)"
    using key by (auto simp: find_None_iff same_idempotency_def)
  then have pair: "(oi_workspace_id o1, oi_idempotency o1) \<notin> (\<lambda>r. (oi_workspace_id r, oi_idempotency r)) ` set (ct_rows st)"
    by force
  have each: "numbered (or_steps r) \<and> mirrors (oi_operation_id r) (or_steps r) (ct_step_rows (admitted n o1 pj st))"
    if "r \<in> set (ct_rows st)" for r
  proof -
    have "oi_operation_id r \<noteq> ?i" using that new by (auto intro: rev_image_eqI)
    then show ?thesis using that ok old by (simp add: store_ok_def)
  qed
  show ?thesis
    unfolding store_ok_def admitted_fields
    using ok new pair each own num known store_steps_keys[of "ct_step_rows st" ?i "op_steps o1"] row
    by (auto simp: store_ok_def steps)
qed

text \<open>Every command keeps the tables consistent.\<close>

lemma exec_store_ok:
  assumes "store_ok st" "\<forall>o1. writes (snd (snd c)) = Some o1 \<longrightarrow> numbered (op_steps o1)"
  shows "store_ok (exec E c st)"
proof (rule exec_elim[of E c st])
  fix o1 u x claim
  assume "exec E c st = (journaled o1 u (st\<lparr>ct_ext := x\<rparr>))\<lparr>ct_claim := claim\<rparr>"
    "journal_update_of (se_ops E) o1 = Inr u" "writes (snd (snd c)) = Some o1"
    "list_ex (row_matches o1 (op_generation o1) (ju_plan_json u)) (ct_rows st)"
  then show ?thesis using store_ok_journal[of "st\<lparr>ct_ext := x\<rparr>" "se_ops E" o1 u] assms by (simp add: store_ok_fields)
next
  fix o1 auth now pj caps' x
  assume "writes (snd (snd c)) = Some o1" "admit E now o1 auth st = Inr (Created, exec E c st)"
    "exec E c st = (admitted (nat now) o1 pj st)\<lparr>ct_capabilities := caps', ct_ext := x\<rparr>"
    "find (same_idempotency (oi_workspace_id o1) (oi_idempotency o1)) (ct_rows st) = None"
  then show ?thesis
    using store_ok_admitted[of st o1 "nat now" pj] assms by (simp add: store_ok_fields admit_ok)
qed (use assms in \<open>simp_all add: store_ok_fields, simp_all add: store_ok_def\<close>)

section \<open>A saved value is current\<close>

text \<open>A value is in sync when its checkpoint is the row: what admission, loading and saving return.\<close>

definition synced :: "operation \<Rightarrow> 'x store \<Rightarrow> bool" where
  "synced o1 st \<longleftrightarrow>
     (case op_checkpoint o1 of
        None \<Rightarrow> False
      | Some c \<Rightarrow> list_ex (\<lambda>r. row_matches o1 (op_generation o1) (ck_plan_json c) r \<and> or_steps r = ck_steps c
          \<and> oi_expected_revisions r = oi_expected_revisions o1 \<and> oi_schema_version r = oi_schema_version o1) (ct_rows st))"

lemma fold_changed:
  assumes "length xs = length ys" "map os_sequence xs = [length pre..<length pre + length xs]"
  shows "fold set_step (map fst (filter (\<lambda>(a, b). a \<noteq> b) (zip xs ys))) (pre @ ys) = pre @ xs"
  using assms
proof (induction xs ys arbitrary: pre rule: list_induct2)
  case (Cons x xs y ys)
  have seq: "os_sequence x = length pre" "map os_sequence xs = [length (pre @ [x])..<length (pre @ [x]) + length xs]"
    using Cons.prems by (auto simp: upt_conv_Cons simp del: upt_Suc)
  have "fold set_step (map fst (filter (\<lambda>(a, b). a \<noteq> b) (zip xs ys))) ((pre @ [x]) @ ys) = (pre @ [x]) @ xs"
    by (rule Cons.IH[OF seq(2)])
  moreover have "set_step x (pre @ y # ys) = (pre @ [x]) @ ys"
    using seq(1) by (simp add: set_step_def)
  ultimately show ?case by (cases "x = y") auto
qed simp

lemma step_rows_exact_ok:
  assumes ok: "store_ok st" and r: "r \<in> set (ct_rows st)"
  shows "step_rows_exact (oi_operation_id r) (or_steps r) st"
proof -
  let ?rs = "map snd (filter (\<lambda>k. fst k = oi_operation_id r) (ct_step_rows st))"
  have num: "numbered (or_steps r)" and mir: "mirrors (oi_operation_id r) (or_steps r) (ct_step_rows st)"
    using ok r by (auto simp: store_ok_def)
  have set_rs: "set ?rs = set (or_steps r)" using mir by (force simp: mirrors_def)
  have "distinct (map step_key (filter (\<lambda>k. fst k = oi_operation_id r) (ct_step_rows st)))"
    using ok by (auto simp: store_ok_def intro: distinct_map_filter)
  then have "distinct ?rs" by (auto simp: distinct_map inj_on_def step_key_def)
  then have "length ?rs = length (or_steps r)"
    using set_rs numbered_distinct[OF num] by (metis distinct_card)
  moreover have "list_all (\<lambda>s. os_sequence s < length (or_steps r) \<and> or_steps r ! os_sequence s = s) ?rs"
    using numbered_nth[OF num] num set_rs by (auto simp: list_all_iff numbered_iff)
  ultimately show ?thesis by (simp add: step_rows_exact_def Let_def)
qed

lemma save_synced:
  assumes ok: "store_ok st" and num: "numbered (op_steps o1)" and sync: "synced o1 st"
    and save: "save_operation E fault o1 st = (Inr o2, st')"
  shows "synced o2 st' \<and> store_ok st' \<and> operation_is_current E o2 st' = Inr (holds_claim E o2 st')"
proof -
  obtain u where u: "journal_update_of (se_ops E) o1 = Inr u" "st' = journaled o1 u st" "op_generation o1 + 1 \<le> i64_max"
      "o2 = acknowledge_commit (op_generation o1 + 1) o1"
      "list_ex (row_matches o1 (op_generation o1) (ju_plan_json u)) (ct_rows st)"
  proof -
    from save obtain g where "journal_save E o1 st = Inr (g, st')" "o2 = acknowledge_commit g o1"
      by (auto simp: save_operation_ok)
    then obtain u where "journal_update_of (se_ops E) o1 = Inr u" "st' = journaled o1 u st" "g = ju_next_generation u"
        "g \<le> i64_max" "list_ex (row_matches o1 (ju_expected_generation u) (ju_plan_json u)) (ct_rows st)"
      "o2 = acknowledge_commit g o1"
      by (auto simp: journal_save_ok simp del: not_None_eq)
    then show thesis using that journal_update_generations[of "se_ops E" o1 u] by simp
  qed
  obtain c where c: "op_checkpoint o1 = Some c" "immutable_identity (se_ops E) o1 = Inr (ck_identity c)"
      "ck_plan c = op_plan_of o1" "length (op_steps o1) = length (ck_steps c)" "ju_plan_json u = ck_plan_json c"
      "ju_changed_steps u = map fst (filter (\<lambda>(a, b). a \<noteq> b) (zip (op_steps o1) (ck_steps c)))"
    using u(1) by (auto simp: journal_update_of_def and_then_Inr ok_or_Inr split: if_splits)
  obtain r where r: "r \<in> set (ct_rows st)" "row_matches o1 (op_generation o1) (ck_plan_json c) r" "or_steps r = ck_steps c"
      "oi_expected_revisions r = oi_expected_revisions o1" "oi_schema_version r = oi_schema_version o1"
    using sync c(1) by (auto simp: synced_def list_ex_iff)
  have gens: "ju_expected_generation u = op_generation o1" "ju_next_generation u = op_generation o1 + 1"
    using journal_update_generations[OF u(1)] by simp_all
  have o2: "o2 = o1\<lparr>op_generation := op_generation o1 + 1, op_checkpoint := Some (c\<lparr>ck_generation := op_generation o1 + 1,
      ck_steps := op_steps o1, ck_state := op_state_of o1, ck_error_code := op_error_code o1\<rparr>)\<rparr>"
    using u(4) c(1) by (simp add: acknowledge_commit_def)
  let ?r = "advanced o1 u r"
  have steps: "or_steps ?r = op_steps o1"
  proof -
    have "length (op_steps o1) = 6" "map os_sequence (op_steps o1) = [0..<6]"
      using num by (simp_all add: numbered_iff numbered_def[symmetric])
    then have "fold set_step (ju_changed_steps u) (ck_steps c) = op_steps o1"
      using fold_changed[of "op_steps o1" "ck_steps c" "[]"] c(4,6) by simp
    then show ?thesis using advanced_steps[of o1 u r] r(2,3) gens(1) c(5) by simp
  qed
  have row: "row_matches o2 (op_generation o1 + 1) (ck_plan_json c) ?r" "oi_expected_revisions ?r = oi_expected_revisions o2"
      "oi_schema_version ?r = oi_schema_version o2" "or_state ?r = op_state_of o2" "or_error_code ?r = op_error_code o2"
    using r gens c(5) by (auto simp: o2 advanced_def row_updated_def row_matches_def)
  have mem: "?r \<in> set (ct_rows st')" using r(1) by (simp add: u(2) journaled_rows)
  have ok': "store_ok st'" unfolding u(2) by (rule store_ok_journal[OF ok u(1) num u(5)])
  have sync': "synced o2 st'" using mem row steps by (auto simp: synced_def o2 list_ex_iff)
  have "\<not> list_ex (\<lambda>(a, b). \<not> same_step_input a b) (zip ss ss)" for ss
    by (induction ss) (auto simp: same_step_input_def)
  moreover have "filter (\<lambda>(a, b). a \<noteq> b) (zip ss ss) = []" for ss :: "op_step list"
    by (induction ss) auto
  moreover have "immutable_identity (se_ops E) o2 = Inr (ck_identity c)"
    using c(2) by (simp add: immutable_identity_def o2 op_identity.truncate_def)
  moreover have "op_generation o1 + 1 + 1 \<le> usize_max" using u(3) by (simp add: i64_max_def usize_max_def)
  ultimately have upd: "journal_update_of (se_ops E) o2 = Inr \<lparr>ju_expected_generation = op_generation o1 + 1,
      ju_next_generation = op_generation o1 + 1 + 1, ju_changed_steps = [], ju_plan_json = ck_plan_json c\<rparr>"
    using c(3) by (simp add: journal_update_of_def o2 checked_add_def)
  then have "journal_is_committed (se_ops E) o2 = Inr True" by (simp add: journal_is_committed_def o2)
  moreover have "list_ex (row_is_value o2 (ck_plan_json c)) (ct_rows st')"
    using mem row steps by (auto simp: list_ex_iff row_is_value_def o2 intro!: bexI[of _ ?r])
  moreover have "step_rows_exact (oi_operation_id o2) (op_steps o2) st'"
    using step_rows_exact_ok[OF ok' mem] steps row(1) by (simp add: row_matches_def o2)
  ultimately show ?thesis using upd sync' ok' by (simp add: operation_is_current_def map_err_def)
qed

end
