(* ===== verification/Admission.thy ===== *)
theory Admission
  imports Store_Properties
begin

text \<open>
  The admission of a change (\<^verbatim>\<open>application/src/operations/{mod,prepared}.rs\<close>): who may apply, the
  fixed order of its checks, and the first durable write. It runs under the writer lock, over the
  control world; the planner that reproduces the plan is a function of the other adapters' state.
\<close>

section \<open>Principals and requests\<close>

datatype principal_kind = InteractiveUser | Desktop | Skill | SealedCollaboration

record verified_principal =
  vp_scope :: string
  vp_local :: bool

definition principal_from_launcher :: "principal_kind \<Rightarrow> tx_error + verified_principal" where
  "principal_from_launcher k =
    (case k of
       InteractiveUser \<Rightarrow> Inr \<lparr>vp_scope = ''interactive-user'', vp_local = False\<rparr>
     | Desktop \<Rightarrow> Inr \<lparr>vp_scope = ''desktop'', vp_local = False\<rparr>
     | _ \<Rightarrow> Inl CapabilityDenied)"

definition principal_for_maintenance :: verified_principal where
  "principal_for_maintenance = \<lparr>vp_scope = ''daemon-subscription-maintenance'', vp_local = False\<rparr>"

definition principal_for_local_control :: verified_principal where
  "principal_for_local_control = \<lparr>vp_scope = ''interactive-user'', vp_local = True\<rparr>"

record apply_request =
  ar_major :: nat
  ar_spec :: change_spec
  ar_accept_digest :: digest
  ar_revisions :: revision_set
  ar_key :: string
  ar_capability :: "string option"

definition negotiates :: "nat \<Rightarrow> bool" where
  "negotiates major \<longleftrightarrow> major = 1"

section \<open>The feature gate\<close>

definition disabled_token :: "string \<Rightarrow> bool" where
  "disabled_token s \<longleftrightarrow>
     (let n = to_ascii_lowercase (filter ascii_alnum s)
      in n \<in> set [''budgetedpaid'', ''paidbudgetspec'', ''budgetquote'', ''budgetlease'', ''cashbudget'',
                  ''cashbudgetlimit'', ''debt'', ''externalsource''])"

definition looks_like_url :: "string \<Rightarrow> bool" where
  "looks_like_url s \<longleftrightarrow> contains s ''://'' \<or> starts_with s ''//''"

fun contains_disabled_input :: "json \<Rightarrow> bool" where
  "contains_disabled_input (JObject kvs) =
    list_ex (\<lambda>(k, v). disabled_token k \<or> contains_disabled_input v
      \<or> (case v of JString s \<Rightarrow> disabled_token s \<or> looks_like_url s | _ \<Rightarrow> False)) kvs"
| "contains_disabled_input (JArray vs) = list_ex contains_disabled_input vs"
| "contains_disabled_input (JString s) = (disabled_token s \<or> looks_like_url s)"
| "contains_disabled_input _ = False"

definition validate_feature_gate :: "json \<Rightarrow> tx_error + unit" where
  "validate_feature_gate v =
    (if contains_disabled_input v then Inl (PreparationFailed FeatureNotEnabledPrep) else Inr ())"

section \<open>Admission\<close>

type_synonym ('x, 'v, 'a) admission = "('x, 'v) control_world \<Rightarrow> (tx_error + 'a) \<times> ('x, 'v) control_world"

definition adm_bind :: "('x, 'v, 'a) admission \<Rightarrow> ('a \<Rightarrow> ('x, 'v, 'b) admission) \<Rightarrow> ('x, 'v, 'b) admission" where
  "adm_bind m f w = (case m w of (Inl e, w') \<Rightarrow> (Inl e, w') | (Inr x, w') \<Rightarrow> f x w')"

definition adm_lift :: "tx_error + 'a \<Rightarrow> ('x, 'v, 'a) admission" where
  "adm_lift r w = (r, w)"

definition adm_port ::
  "(port_error \<Rightarrow> tx_error) \<Rightarrow> (('x, 'v) control_world \<Rightarrow> (port_error + 'a) \<times> ('x, 'v) control_world)
   \<Rightarrow> ('x, 'v, 'a) admission" where
  "adm_port conv p w = (case p w of (Inl e, w') \<Rightarrow> (Inl (conv e), w') | (Inr x, w') \<Rightarrow> (Inr x, w'))"

definition adm_now :: "('x, 'v, int) admission" where
  "adm_now w = (Inr (cw_now w), w)"

definition denied_or_port :: "port_error \<Rightarrow> tx_error" where
  "denied_or_port e = (if pe_code e = PermissionDenied then CapabilityDenied else PortFailed e)"

definition stale_or_port :: "port_error \<Rightarrow> tx_error" where
  "stale_or_port e = (if pe_code e = Conflict then ChangePreviewStale else PortFailed e)"

definition adm_op :: "op_error + 'a \<Rightarrow> ('x, 'v, 'a) admission" where
  "adm_op r = adm_lift (case r of Inl e \<Rightarrow> Inl (DomainOperation e) | Inr x \<Rightarrow> Inr x)"

definition authorize ::
  "'x store_env \<Rightarrow> string \<Rightarrow> verified_principal \<Rightarrow> idempotency_scope \<Rightarrow> apply_request
   \<Rightarrow> ('x, 'v, authorization option) admission" where
  "authorize E ws who scope req =
    (if vp_local who then
       adm_lift (if ar_capability req \<noteq> None then Inl InvalidArguments else Inr None)
     else case ar_capability req of
       None \<Rightarrow> adm_lift (Inl CapabilityDenied)
     | Some v \<Rightarrow>
         (case protected_capability v of
            Inl _ \<Rightarrow> adm_lift (Inl CapabilityDenied)
          | Inr cap \<Rightarrow>
              adm_bind adm_now (\<lambda>now.
              adm_bind (adm_port denied_or_port (reading (\<lambda>st.
                verify_apply_authorization E now cap ws (vp_scope who) (is_operation_kind scope)
                  (ar_accept_digest req) (ar_revisions req) st))) (\<lambda>a. adm_lift (Inr (Some a))))))"

definition begin_admitted ::
  "'x store_env \<Rightarrow> verified_principal \<Rightarrow> operation \<Rightarrow> authorization option \<Rightarrow> ('x, 'v, begin_outcome) admission" where
  "begin_admitted E who o1 auth =
    adm_bind adm_now (\<lambda>now.
    adm_port stale_or_port (on_store (\<lambda>fault.
      if vp_local who then begin_local_operation E fault now o1
      else case auth of
        Some a \<Rightarrow> begin_operation E fault now o1 a
      | None \<Rightarrow> begin_local_operation E fault now o1)))"

text \<open>An accepted operation, and whether it existed.\<close>

definition admitted_value :: "operation \<Rightarrow> begin_outcome \<Rightarrow> tx_error + (operation \<times> bool)" where
  "admitted_value o1 out =
    (case out of
       Created \<Rightarrow> Inr (o1, False)
     | ExistingSame existing \<Rightarrow> Inr (existing, True)
     | ExistingDifferent \<Rightarrow> Inl IdempotencyKeyReused
     | RevisionChanged m \<Rightarrow> Inl (RevisionConflict m))"

definition begin_and_answer ::
  "'x store_env \<Rightarrow> verified_principal \<Rightarrow> operation \<Rightarrow> authorization option \<Rightarrow> ('x, 'v, operation \<times> bool) admission" where
  "begin_and_answer E who o1 auth =
    adm_bind (begin_admitted E who o1 auth) (\<lambda>out. adm_lift (admitted_value o1 out))"

definition new_operation ::
  "'x store_env \<Rightarrow> string \<Rightarrow> idempotency_scope \<Rightarrow> digest \<Rightarrow> apply_request \<Rightarrow> op_plan \<Rightarrow> op_error + operation" where
  "new_operation E ws scope request_digest req p =
    operation_new (se_ops E) (operation_id_derive (se_sha E) ws scope request_digest) ws scope request_digest
      (ar_accept_digest req) (ar_revisions req) p"

definition accept_with_reproduced_plan ::
  "'x store_env \<Rightarrow> (apply_request \<Rightarrow> tx_error + digest) \<Rightarrow> bool \<Rightarrow> string \<Rightarrow> verified_principal \<Rightarrow> string \<Rightarrow> apply_request
   \<Rightarrow> (revision_set \<Rightarrow> apply_request \<Rightarrow> 'x \<times> 'v \<Rightarrow> (tx_error + (digest \<times> op_plan)) \<times> ('x \<times> 'v))
   \<Rightarrow> ('x, 'v, operation \<times> bool) admission" where
  "accept_with_reproduced_plan E digest_of writes_open ws who kind req reproduce =
    (if \<not> writes_open then adm_lift (Inl RecoveryRequired)
     else if \<not> negotiates (ar_major req) \<or> kind = [] then adm_lift (Inl InvalidArguments)
     else
       adm_bind (adm_op (scope_new (vp_scope who) kind (ar_key req))) (\<lambda>scope.
       adm_bind (adm_lift (digest_of req)) (\<lambda>request_digest.
       adm_bind (adm_port PortFailed (reading (operation_for_idempotency E ws scope))) (\<lambda>found.
       case found of
         Some existing \<Rightarrow>
           adm_lift (if oi_accepted_digest existing = ar_accept_digest req then Inr (existing, True)
                     else Inl IdempotencyKeyReused)
       | None \<Rightarrow>
           adm_bind (adm_lift (validate_feature_gate (sp_desired (ar_spec req)))) (\<lambda>_.
           adm_bind (adm_port PortFailed (reading (\<lambda>st. Inr (current_revisions ws st)))) (\<lambda>current.
           adm_bind (adm_lift (case compare_revisions (ar_revisions req) current of
               None \<Rightarrow> Inr () | Some m \<Rightarrow> Inl (RevisionConflict m))) (\<lambda>_.
           adm_bind (authorize E ws who scope req) (\<lambda>auth.
           adm_bind (on_adapters (reproduce current req)) (\<lambda>(reproduced, p).
           if reproduced \<noteq> ar_accept_digest req \<or> tp_spec p \<noteq> ar_spec req then adm_lift (Inl ChangePreviewStale)
           else
             adm_bind (adm_op (new_operation E ws scope request_digest req p)) (\<lambda>o1.
             begin_and_answer E who o1 auth))))))))))"

end
