(* ===== verification/Transaction_Samples.thy ===== *)
theory Transaction_Samples
  imports Admission
begin

text \<open>
  A small instance of the control world, in which the hypotheses of the transaction properties hold:
  constant codecs, a store without other tables, and adapters that keep the lists of staged and of
  active items. The control item is the store's own.
\<close>

text \<open>Small numbers are compared without writing out the bounds of the machine integers.\<close>

lemma checked_add_code [code]:
  "checked_add a b =
    (if a < 64 then if b < 64 then Some (a + b) else if a + b \<le> usize_max then Some (a + b) else None
     else if a + b \<le> usize_max then Some (a + b) else None)"
  by (simp add: checked_add_def usize_max_def)

lemma beyond_i64_code [code]: "beyond_i64 n \<longleftrightarrow> (if n < 64 then False else n > i64_max)"
  by (simp add: beyond_i64_def i64_max_def)

lemma saturating_attempt_code [code]: "saturating_attempt n = (if n < 64 then Suc n else min (n + 1) u32_max)"
  by (simp add: saturating_attempt_def u32_max_def)

definition sample_ops :: op_env where
  "sample_ops =
    \<lparr>oe_step_digest = (\<lambda>_. Inr ''d''), oe_identity_digest = (\<lambda>i. Inr (oi_operation_id i)), oe_plan_json = (\<lambda>_. Inr ''p'')\<rparr>"

text \<open>Without compute tables: nothing to stage, to write or to give back.\<close>

definition sample_compute :: "unit compute_env" where
  "sample_compute =
    \<lparr>cm_stage = (\<lambda>_ _ _ x. Inr x), cm_activate = (\<lambda>_ _ _ x. Inr x), cm_current = (\<lambda>_ _ _ _. Inr True),
     cm_compensate = (\<lambda>_ _ x. Inr (True, x)), cm_price_activate = (\<lambda>_ _ x. Inr x),
     cm_price_compensate = (\<lambda>_ x. Inr (True, x)), cm_pool_stage = (\<lambda>_ _. perr InvalidData []),
     cm_pool_row = (\<lambda>_ _. None), cm_pool_parse = (\<lambda>_. None), cm_pool_write = (\<lambda>_ x. Inr x),
     cm_pool_delete = (\<lambda>_ x. x), cm_source_stage = (\<lambda>_ _ _. perr InvalidData []), cm_source_row = (\<lambda>_ _. None),
     cm_source_parse = (\<lambda>_. None), cm_source_write = (\<lambda>_ x. Inr x), cm_source_delete = (\<lambda>_ x. x),
     cm_is_projection = (\<lambda>_. False), cm_projection_current = (\<lambda>_ _ _. Inr True),
     cm_projection_activate = (\<lambda>_ _ _ _ x. Inr x), cm_projection_compensate = (\<lambda>_ _ _ x. Inr (True, x))\<rparr>"

definition sample_digest :: digest where
  "sample_digest = ''sha256:'' @ replicate 64 CHR ''0''"

text \<open>Only a digest other than this one is read character by character.\<close>

lemma digest_parse_code [code]:
  "digest_parse s =
    (if s = sample_digest then Some sample_digest
     else if length s = 71 \<and> starts_with s ''sha256:'' \<and> list_all hexdigit (drop 7 s)
     then Some (to_ascii_lowercase s) else None)"
proof -
  have "digest_parse sample_digest = Some sample_digest" by code_simp
  then show ?thesis by (auto simp: digest_parse_def)
qed

definition sample_env :: "unit store_env" where
  "sample_env =
    \<lparr>se_ops = sample_ops, se_sha = (\<lambda>s. s), se_external = Some, se_plan = Some,
     se_revisions_digest = (\<lambda>_. Some ''r''), se_receipt = (\<lambda>_. None), se_begin = (\<lambda>_ x. Inr x),
     se_finish = (\<lambda>_ x. Inr x), se_digest = (\<lambda>_. Some sample_digest), se_stage_encode = (\<lambda>_. Some ''j''),
     se_stage_value = (\<lambda>_. Some JNull), se_selection_encode = (\<lambda>_. Some ''s''),
     se_selection_decode = (\<lambda>j _. Inr j), se_compute = sample_compute\<rparr>"

definition sample_codecs :: codecs where
  "sample_codecs =
    \<lparr>cd_compute_source = (\<lambda>_. None), cd_price_change = (\<lambda>_. False), cd_receipt_parse = (\<lambda>_. None),
     cd_receipt_json = (\<lambda>_. None), cd_completion_digest = (\<lambda>_ _ _. None)\<rparr>"

definition sample_plan :: op_plan where
  "sample_plan =
    \<lparr>tp_spec = \<lparr>sp_major = 1, sp_command_id = ''c'', sp_resource_id = None, sp_desired = JNull\<rparr>,
     tp_control = JNull, tp_pool = None, tp_worker_selection = None, tp_secrets = [], tp_grants = [],
     tp_runtime = [],
     tp_external = [\<lparr>ei_id = ''e'', ei_kind = Publication, ei_target = ''t'', ei_before = None,
       ei_desired = JNull, ei_mode = 0, ei_sensitive = False\<rparr>]\<rparr>"

definition sample_scope :: idempotency_scope where
  "sample_scope = \<lparr>is_principal = ''interactive-user'', is_operation_kind = ''k'', is_key = ''y''\<rparr>"

definition sample_operation :: operation where
  "sample_operation =
    projr (operation_new sample_ops ''o'' ''w'' sample_scope ''q'' ''a'' \<lparr>rv_target = 0, rv_dependencies = []\<rparr> sample_plan)"

definition sample_authorization :: authorization where
  "sample_authorization =
    \<lparr>au_capability = ''cap'', au_principal = ''interactive-user'', au_workspace = ''w'', au_kind = ''k'',
     au_accepted = ''a'', au_revisions = ''r'', au_scope = ''apply:one-shot'', au_expires = 10\<rparr>"

definition empty_store :: "unit store" where
  "empty_store =
    \<lparr>ct_rows = [], ct_step_rows = [], ct_claim = None, ct_capabilities = (\<lambda>_. None), ct_heads = (\<lambda>_. None),
     ct_dependencies = (\<lambda>_. []), ct_workspaces = (\<lambda>_. None), ct_effects = (\<lambda>_. None), ct_selections = (\<lambda>_. None), ct_selection_effects = (\<lambda>_. None),
     ct_selection_index = (\<lambda>_. False), ct_ext = ()\<rparr>"

text \<open>The store after the admission of the sample operation.\<close>

definition sample_store :: "unit store" where
  "sample_store = snd (begin_local_operation sample_env None 0 sample_operation empty_store)"

type_synonym sample_world = "item list \<times> item list"

fun sample_name :: "item \<Rightarrow> string" where
  "sample_name IControl = ''c''"
| "sample_name (IExternal i) = ei_id i"
| "sample_name _ = ''x''"

definition sample_effect :: "item \<Rightarrow> owned_effect" where
  "sample_effect i =
    \<lparr>ef_id = sample_name i, ef_kind = (case i of IExternal e \<Rightarrow> if ei_kind e = Control then AgentArtifact else ei_kind e | _ \<Rightarrow> AgentArtifact), ef_target = ''t'',
     ef_before = None, ef_after = None, ef_compensation = JNull\<rparr>"

definition sample_adapters :: "(unit \<times> sample_world) ports" where
  "sample_adapters =
    \<lparr>p_save = (\<lambda>o1 w. (Inr o1, w)), p_save_tail = (\<lambda>o1 w. (Inr o1, w)), p_finish = (\<lambda>o1 w. (Inr o1, w)),
     p_load = (\<lambda>_ w. (Inr None, w)), p_is_current = (\<lambda>_ w. (Inr True, w)), p_recoverable = (\<lambda>w. (Inr [], w)),
     p_recovery_required = (\<lambda>w. (Inr False, w)), p_reclaim = (\<lambda>_ w. (Inr (), w)),
     p_observe = (\<lambda>_ i (u, w). (Inr (if i \<in> set (snd w) then AppliedEffect (sample_effect i)
       else if i \<in> set (fst w) then StagedEffect (sample_effect i) else Missing), (u, w))),
     p_apply = (\<lambda>_ i _ (u, w). (Inr (sample_effect i), (u, (i # fst w, snd w)))),
     p_apply_control = (\<lambda>_ _ (u, w). (Inr (sample_effect IControl), (u, (IControl # fst w, snd w)))),
     p_activate = (\<lambda>_ i e (u, w). (Inr e, (u, (fst w, i # snd w)))),
     p_compensate = (\<lambda>_ e (u, w). (Inr CompensatedNow,
       (u, (filter (\<lambda>i. sample_effect i \<noteq> e) (fst w), filter (\<lambda>i. sample_effect i \<noteq> e) (snd w))))),
     p_read_secret = (\<lambda>_ w. (Inr ''s'', w)), p_fingerprint = (\<lambda>_ w. (Inr ''f'', w)),
     p_begin_activation = (\<lambda>_ w. (Inr (), w)), p_finish_activation = (\<lambda>_ w. (Inr (), w)),
     p_prepare_artifact = (\<lambda>_ _ w. (Inr (), w)), p_prepare_publication = (\<lambda>_ e w. (Inr e, w)),
     p_prepare_rollback = (\<lambda>_ e w. (Inr e, w)), p_install_snapshot = (\<lambda>_ w. (Inr ''g'', w))\<rparr>"

abbreviation "sample_ports \<equiv> control_ports sample_env sample_adapters"

text \<open>A run of the admitted operation, and of one of which the store decided the rollback.\<close>

definition sample_run :: "(unit, sample_world) control_world run" where
  "sample_run =
    \<lparr>rn_world = \<lparr>cw_store = sample_store, cw_faults = [], cw_now = 0, cw_rest = ([], [])\<rparr>,
     rn_op = sample_operation, rn_trace = [], rn_open = True\<rparr>"

end
