(* ===== verification/Admission_Properties.thy ===== *)
theory Admission_Properties
  imports Transaction_Samples
begin

text \<open>
  What an admission guarantees: a refusal, and an answer from an existing row, leave the tables as
  they were; an acceptance has passed every check and has made the one durable write.
\<close>

section \<open>Quiet parts\<close>

text \<open>The tables of two worlds agree; the component tables of the adapters may differ.\<close>

definition same_tables :: "('x, 'v) control_world \<Rightarrow> ('x, 'v) control_world \<Rightarrow> bool" where
  "same_tables w w' \<longleftrightarrow> cw_store w' = (cw_store w)\<lparr>ct_ext := ct_ext (cw_store w')\<rparr>"

lemma same_tables_refl [simp]: "same_tables w w"
  by (simp add: same_tables_def)

lemma same_tables_trans: "same_tables w w' \<Longrightarrow> same_tables w' w'' \<Longrightarrow> same_tables w w''"
  unfolding same_tables_def by (cases "cw_store w"; cases "cw_store w'"; cases "cw_store w''") simp

lemma same_tables_fields:
  assumes "same_tables w w'"
  shows "ct_rows (cw_store w') = ct_rows (cw_store w)" "ct_step_rows (cw_store w') = ct_step_rows (cw_store w)"
    "ct_claim (cw_store w') = ct_claim (cw_store w)" "ct_capabilities (cw_store w') = ct_capabilities (cw_store w)"
    "ct_heads (cw_store w') = ct_heads (cw_store w)" "ct_dependencies (cw_store w') = ct_dependencies (cw_store w)"
  using assms unfolding same_tables_def by (cases "cw_store w"; cases "cw_store w'"; simp)+

definition quiet :: "('x, 'v, 'a) admission \<Rightarrow> bool" where
  "quiet m \<longleftrightarrow> (\<forall>w. same_tables w (snd (m w)))"

named_theorems quiet_rules "parts of an admission that leave the tables"

lemma quiet_lift [quiet_rules]: "quiet (adm_lift r)"
  by (simp add: quiet_def adm_lift_def)

lemma quiet_now [quiet_rules]: "quiet adm_now"
  by (simp add: quiet_def adm_now_def)

lemma quiet_op [quiet_rules]: "quiet (adm_op r)"
  by (simp add: adm_op_def quiet_lift)

lemma quiet_bind [quiet_rules]: "quiet m \<Longrightarrow> (\<And>x. quiet (f x)) \<Longrightarrow> quiet (adm_bind m f)"
  unfolding quiet_def adm_bind_def
  by (auto split: prod.splits sum.splits) (metis same_tables_trans snd_conv)+

lemma quiet_reading [quiet_rules]: "quiet (adm_port conv (reading g))"
  unfolding quiet_def adm_port_def same_tables_def
  by (auto split: prod.splits sum.splits dest!: reading_store)

lemma quiet_adapters [quiet_rules]: "quiet (on_adapters f)"
  by (auto simp: quiet_def on_adapters_def same_tables_def Let_def split: prod.splits)

lemma adm_bind_ok:
  "adm_bind m f w = (Inr y, w2) \<longleftrightarrow> (\<exists>x w1. m w = (Inr x, w1) \<and> f x w1 = (Inr y, w2))"
  by (auto simp: adm_bind_def split: prod.splits sum.splits)

lemma adm_lift_ok: "adm_lift r w = (Inr x, w') \<longleftrightarrow> r = Inr x \<and> w' = w"
  by (auto simp: adm_lift_def)

lemma adm_op_ok: "adm_op r w = (Inr x, w') \<longleftrightarrow> r = Inr x \<and> w' = w"
  by (auto simp: adm_op_def adm_lift_ok split: sum.splits)

lemma adm_reading_ok:
  "adm_port conv (reading g) w = (Inr x, w') \<Longrightarrow> g (cw_store w) = Inr x \<and> cw_store w' = cw_store w"
  by (auto simp: adm_port_def split: prod.splits sum.splits dest!: reading_store)

lemma reading_adapters: "reading g w = (r, w') \<Longrightarrow> cw_rest w' = cw_rest w"
  by (auto simp: reading_def on_store_def next_fault_def Let_def split: list.splits option.splits prod.splits)

lemma adm_reading_still:
  "adm_port conv (reading g) w = (r, w') \<Longrightarrow> cw_store w' = cw_store w \<and> cw_rest w' = cw_rest w"
  using reading_store [of g w] reading_adapters [of g w]
  by (auto simp: adm_port_def split: prod.splits sum.splits)

lemma adapters_ok: "on_adapters f w = (Inr x, w') \<Longrightarrow> fst (f (ct_ext (cw_store w), cw_rest w)) = Inr x"
  by (auto simp: on_adapters_def Let_def split: prod.splits)

lemma quietD: "quiet m \<Longrightarrow> m w = (r, w') \<Longrightarrow> same_tables w w'"
  unfolding quiet_def by (metis snd_conv)

lemma quiet_authorize [quiet_rules]: "quiet (authorize E ws who scope req)"
  unfolding authorize_def by (auto intro!: quiet_rules split: option.splits sum.splits)

text \<open>The check of a capability reads the store only.\<close>

lemma authorize_still:
  assumes "authorize E ws who scope req w = (r, w')"
  shows "cw_store w' = cw_store w \<and> cw_rest w' = cw_rest w"
  using assms
  by (auto simp: authorize_def adm_lift_def adm_bind_def adm_now_def split: if_splits option.splits sum.splits prod.splits
      dest: adm_reading_still)

section \<open>The admitting write\<close>

definition created :: "tx_error + operation \<times> bool \<Rightarrow> bool" where
  "created r \<longleftrightarrow> (\<exists>o1. r = Inr (o1, False))"

definition quiet_unless_created :: "('x, 'v, operation \<times> bool) admission \<Rightarrow> bool" where
  "quiet_unless_created m \<longleftrightarrow> (\<forall>w. created (fst (m w)) \<or> same_tables w (snd (m w)))"

lemma unless_quiet: "quiet m \<Longrightarrow> quiet_unless_created m"
  by (simp add: quiet_def quiet_unless_created_def)

lemma unless_bind:
  "quiet m \<Longrightarrow> (\<And>x. quiet_unless_created (f x)) \<Longrightarrow> quiet_unless_created (adm_bind m f)"
  unfolding quiet_def quiet_unless_created_def adm_bind_def
  by (auto split: prod.splits sum.splits) (metis same_tables_trans fst_conv snd_conv)+

lemma begin_admitted_run:
  assumes "begin_admitted E who o1 auth w = (r, w')"
  shows "(\<forall>out. r = Inr out \<longrightarrow> (\<exists>fault. begin_operation_admitted E fault (cw_now w) o1
        (if vp_local who then None else auth) (cw_store w) = (Inr out, cw_store w')))
    \<and> (r = Inr Created \<or> cw_store w' = cw_store w)"
proof -
  let ?f = "\<lambda>fault. if vp_local who then begin_local_operation E fault (cw_now w) o1
      else case auth of Some a \<Rightarrow> begin_operation E fault (cw_now w) o1 a
        | None \<Rightarrow> begin_local_operation E fault (cw_now w) o1"
  obtain q w1 where q: "on_store ?f w = (q, w1)" by force
  obtain fault where f: "?f fault (cw_store w) = (q, cw_store w1)" using on_store_result[OF q] by blast
  have r: "w' = w1" "r = (case q of Inl e \<Rightarrow> Inl (stale_or_port e) | Inr x \<Rightarrow> Inr x)"
    using assms q by (auto simp: begin_admitted_def adm_bind_def adm_now_def adm_port_def split: sum.splits)
  have core: "begin_operation_admitted E fault (cw_now w) o1 (if vp_local who then None else auth) (cw_store w)
      = (q, cw_store w1) \<or> (\<not> is_ok q \<and> cw_store w1 = cw_store w)"
    using f by (auto simp: begin_local_operation_def begin_operation_def perr_def split: if_splits option.splits)
  then have "q = Inr Created \<or> cw_store w1 = cw_store w"
    using begin_other[of E fault "cw_now w" o1] by blast
  then show ?thesis using core r by (auto split: sum.splits)
qed

lemma unless_begin:
  "quiet_unless_created (begin_and_answer E who o1 auth)"
  unfolding quiet_unless_created_def begin_and_answer_def
proof
  fix w
  obtain r w' where r: "begin_admitted E who o1 auth w = (r, w')" by force
  show "created (fst (adm_bind (begin_admitted E who o1 auth) (\<lambda>out. adm_lift (admitted_value o1 out)) w))
    \<or> same_tables w (snd (adm_bind (begin_admitted E who o1 auth) (\<lambda>out. adm_lift (admitted_value o1 out)) w))"
    using begin_admitted_run[OF r] r
    by (auto simp: adm_bind_def adm_lift_def admitted_value_def created_def same_tables_def split: sum.splits)
qed

lemma accept_quiet:
  "quiet_unless_created (accept_with_reproduced_plan E digest_of writes_open ws who kind req reproduce)"
  unfolding accept_with_reproduced_plan_def
  by (auto intro!: unless_begin unless_bind unless_quiet[OF quiet_lift] quiet_rules split: option.splits prod.splits)

section \<open>An accepted change\<close>

text \<open>A capability row that is bound to the accepted request, and its use by one operation.\<close>

definition capability_spent ::
  "'x store_env \<Rightarrow> verified_principal \<Rightarrow> apply_request \<Rightarrow> string \<Rightarrow> 'x store \<Rightarrow> 'x store \<Rightarrow> bool" where
  "capability_spent E who req i st st' \<longleftrightarrow>
     (\<exists>v c. ar_capability req = Some v \<and> ct_capabilities st (se_sha E v) = Some c \<and> cp_consumed c = None
        \<and> \<not> cp_revoked c \<and> cp_principal c = vp_scope who \<and> cp_accepted c = ar_accept_digest req
        \<and> se_revisions_digest E (ar_revisions req) = Some (cp_revisions c)
        \<and> ct_capabilities st' = (ct_capabilities st)(se_sha E v \<mapsto> c\<lparr>cp_consumed := Some i\<rparr>))"

lemma operation_new_fields:
  "operation_new env oid ws sc q a revs p = Inr o1 \<Longrightarrow>
     oi_operation_id o1 = oid \<and> oi_workspace_id o1 = ws \<and> oi_idempotency o1 = sc \<and> oi_accepted_digest o1 = a
     \<and> oi_expected_revisions o1 = revs \<and> op_plan_of o1 = p \<and> op_state_of o1 = Accepted"
  by (auto simp: operation_new_def establish_checkpoint_def and_then_Inr)

lemma authorize_ok:
  assumes "authorize E ws who scope req w = (Inr auth, w')"
  shows "if vp_local who then auth = None
    else \<exists>v a. ar_capability req = Some v \<and> auth = Some a \<and> au_capability a = se_sha E v"
proof (cases "vp_local who")
  case True
  then show ?thesis using assms by (auto simp: authorize_def adm_lift_ok split: if_splits)
next
  case False
  then obtain v cap now a w1 where v: "ar_capability req = Some v" "protected_capability v = Inr cap" "auth = Some a"
      "adm_port denied_or_port (reading (\<lambda>st. verify_apply_authorization E now cap ws (vp_scope who)
        (is_operation_kind scope) (ar_accept_digest req) (ar_revisions req) st)) w = (Inr a, w1)"
    using assms
    by (auto simp: authorize_def adm_lift_ok adm_bind_ok adm_now_def split: option.splits sum.splits)
  have "verify_apply_authorization E now cap ws (vp_scope who) (is_operation_kind scope) (ar_accept_digest req)
      (ar_revisions req) (cw_store w) = Inr a"
    using adm_reading_ok[OF v(4)] by simp
  moreover have "cap = v" using v(2) by (auto simp: protected_capability_def split: if_splits)
  ultimately have "au_capability a = se_sha E v"
    by (auto simp: verify_apply_authorization_def and_then_Inr map_err_Inr from_capability_verifier_def Let_def
        perr_def split: if_splits)
  then show ?thesis using v False by auto
qed

lemma admitted_value_new: "admitted_value o2 out = Inr (o1, False) \<Longrightarrow> out = Created \<and> o2 = o1"
  by (cases out) (auto simp: admitted_value_def)

lemma scope_new_principal: "scope_new who kind key = Inr sc \<Longrightarrow> is_principal sc = who"
  by (auto simp: scope_new_def and_then_Inr)

lemma accept_steps:
  fixes w :: "('x, 'v) control_world"
  assumes "accept_with_reproduced_plan E digest_of opened ws who kind req reproduce w = (Inr (o1, False), w')"
  obtains scope q and w1 :: "('x, 'v) control_world" and auth w2 p w3 where
    "opened" "negotiates (ar_major req)" "scope_new (vp_scope who) kind (ar_key req) = Inr scope"
    "digest_of req = Inr q" "cw_store w1 = cw_store w" "validate_feature_gate (sp_desired (ar_spec req)) = Inr ()"
    "operation_for_idempotency E ws scope (cw_store w) = Inr None"
    "compare_revisions (ar_revisions req) (current_revisions ws (cw_store w)) = None"
    "authorize E ws who scope req w1 = (Inr auth, w2)" "tp_spec p = ar_spec req" "same_tables w w3"
    "new_operation E ws scope q req p = Inr o1" "begin_admitted E who o1 auth w3 = (Inr Created, w')"
    "fst (reproduce (current_revisions ws (cw_store w)) req (ct_ext (cw_store w), cw_rest w)) = Inr (ar_accept_digest req, p)"
proof -
  obtain scope where scope: "scope_new (vp_scope who) kind (ar_key req) = Inr scope"
    using assms by (auto simp: accept_with_reproduced_plan_def adm_bind_ok adm_op_ok adm_lift_ok split: if_splits)
  obtain q where q: "digest_of req = Inr q"
    using assms by (auto simp: accept_with_reproduced_plan_def adm_bind_ok adm_op_ok adm_lift_ok split: if_splits)
  obtain found w0 where found: "adm_port PortFailed (reading (operation_for_idempotency E ws scope)) w = (Inr found, w0)"
      "found = None" "opened" "negotiates (ar_major req)"
    and rest: "adm_bind (adm_lift (validate_feature_gate (sp_desired (ar_spec req)))) (\<lambda>_.
        adm_bind (adm_port PortFailed (reading (\<lambda>st. Inr (current_revisions ws st)))) (\<lambda>current.
        adm_bind (adm_lift (case compare_revisions (ar_revisions req) current of
            None \<Rightarrow> Inr () | Some m \<Rightarrow> Inl (RevisionConflict m))) (\<lambda>_.
        adm_bind (authorize E ws who scope req) (\<lambda>auth.
        adm_bind (on_adapters (reproduce current req)) (\<lambda>(reproduced, p).
        if reproduced \<noteq> ar_accept_digest req \<or> tp_spec p \<noteq> ar_spec req then adm_lift (Inl ChangePreviewStale)
        else
          adm_bind (adm_op (new_operation E ws scope q req p)) (\<lambda>o1.
          begin_and_answer E who o1 auth)))))) w0 = (Inr (o1, False), w')"
    using assms scope q
    by (auto simp: accept_with_reproduced_plan_def adm_bind_ok adm_op_ok adm_lift_ok split: if_splits option.splits)
  obtain current w1 where current: "validate_feature_gate (sp_desired (ar_spec req)) = Inr ()"
      "adm_port PortFailed (reading (\<lambda>st. Inr (current_revisions ws st))) w0 = (Inr current, w1)"
      "compare_revisions (ar_revisions req) current = None"
    and rest2: "adm_bind (authorize E ws who scope req) (\<lambda>auth.
        adm_bind (on_adapters (reproduce current req)) (\<lambda>(reproduced, p).
        if reproduced \<noteq> ar_accept_digest req \<or> tp_spec p \<noteq> ar_spec req then adm_lift (Inl ChangePreviewStale)
        else
          adm_bind (adm_op (new_operation E ws scope q req p)) (\<lambda>o1. begin_and_answer E who o1 auth))) w1
        = (Inr (o1, False), w')"
    using rest by (auto simp: adm_bind_ok adm_lift_ok split: option.splits)
  obtain auth w2 p w3 o2 where auth: "authorize E ws who scope req w1 = (Inr auth, w2)"
      "on_adapters (reproduce current req) w2 = (Inr (ar_accept_digest req, p), w3)" "tp_spec p = ar_spec req"
      "new_operation E ws scope q req p = Inr o2" "begin_and_answer E who o2 auth w3 = (Inr (o1, False), w')"
    using rest2 by (auto simp: adm_bind_ok adm_op_ok adm_lift_ok split: if_splits prod.splits)
  have "o2 = o1" "begin_admitted E who o1 auth w3 = (Inr Created, w')"
    using auth(5) by (auto simp: begin_and_answer_def adm_bind_ok adm_lift_ok dest!: admitted_value_new)
  moreover have "cw_store w0 = cw_store w" "operation_for_idempotency E ws scope (cw_store w) = Inr None"
    using adm_reading_ok[OF found(1)] found(2) by auto
  moreover have "cw_store w1 = cw_store w0" "current = current_revisions ws (cw_store w0)"
    using adm_reading_ok[OF current(2)] by auto
  moreover have "same_tables w1 w3"
    using same_tables_trans quietD[OF quiet_authorize auth(1)] quietD[OF quiet_adapters auth(2)] by blast
  moreover have "cw_rest w2 = cw_rest w" "cw_store w2 = cw_store w1"
    using adm_reading_still[OF found(1)] adm_reading_still[OF current(2)] authorize_still[OF auth(1)] by auto
  moreover note adapters_ok[OF auth(2)]
  ultimately show thesis
    using found(3,4) scope q current auth(1,3,4) by (intro that[of scope q w1 auth w2 p w3]) (auto simp: same_tables_def)
qed

lemma accept_created:
  fixes w :: "('x, 'v) control_world"
  assumes "accept_with_reproduced_plan E digest_of opened ws who kind req reproduce w = (Inr (o1, False), w')"
  shows "opened \<and> validate_feature_gate (sp_desired (ar_spec req)) = Inr ()
    \<and> compare_revisions (ar_revisions req) (current_revisions ws (cw_store w)) = None"
    and "fst (reproduce (current_revisions ws (cw_store w)) req (ct_ext (cw_store w), cw_rest w))
        = Inr (ar_accept_digest req, op_plan_of o1)
      \<and> oi_accepted_digest o1 = ar_accept_digest req \<and> tp_spec (op_plan_of o1) = ar_spec req
      \<and> oi_expected_revisions o1 = ar_revisions req \<and> op_state_of o1 = Accepted"
    and "ct_claim (cw_store w) = None \<and> ct_claim (cw_store w') = Some (oi_operation_id o1)
      \<and> find_row (oi_operation_id o1) (cw_store w) = None"
    and "\<exists>r. ct_rows (cw_store w') = ct_rows (cw_store w) @ [r] \<and> oi_operation_id r = oi_operation_id o1
      \<and> or_state r = Accepted \<and> or_generation r = 0 \<and> or_plan r = op_plan_of o1"
    and "if vp_local who then ct_capabilities (cw_store w') = ct_capabilities (cw_store w)
      else capability_spent E who req (oi_operation_id o1) (cw_store w) (cw_store w')"
proof -
  obtain scope q and w1 :: "('x, 'v) control_world" and auth w2 p w3 where steps: "opened" "negotiates (ar_major req)"
    "scope_new (vp_scope who) kind (ar_key req) = Inr scope" "digest_of req = Inr q" "cw_store w1 = cw_store w"
    "validate_feature_gate (sp_desired (ar_spec req)) = Inr ()"
    "operation_for_idempotency E ws scope (cw_store w) = Inr None"
    "compare_revisions (ar_revisions req) (current_revisions ws (cw_store w)) = None"
    "authorize E ws who scope req w1 = (Inr auth, w2)" "tp_spec p = ar_spec req" "same_tables w w3"
    "new_operation E ws scope q req p = Inr o1" "begin_admitted E who o1 auth w3 = (Inr Created, w')"
    "fst (reproduce (current_revisions ws (cw_store w)) req (ct_ext (cw_store w), cw_rest w)) = Inr (ar_accept_digest req, p)"
    using assms by (rule accept_steps)
  note same = same_tables_fields[OF steps(11)]
  have o1: "oi_accepted_digest o1 = ar_accept_digest req" "op_plan_of o1 = p" "oi_expected_revisions o1 = ar_revisions req"
      "op_state_of o1 = Accepted" "is_principal (oi_idempotency o1) = vp_scope who"
    using operation_new_fields[OF steps(12)[unfolded new_operation_def]]
      scope_new_principal[OF steps(3)]
    by auto
  obtain fault where b: "begin_operation_admitted E fault (cw_now w3) o1 (if vp_local who then None else auth) (cw_store w3)
      = (Inr Created, cw_store w')"
    using begin_admitted_run[OF steps(13)] by blast
  obtain caps' pj x where adm: "ct_claim (cw_store w3) = None" "find_row (oi_operation_id o1) (cw_store w3) = None"
      "\<forall>a. (if vp_local who then None else auth) = Some a \<longrightarrow> matches_operation E o1 a \<and> au_scope a = ''apply:one-shot''"
      "spent_for o1 (if vp_local who then None else auth) (cw_now w3) (ct_capabilities (cw_store w3)) caps'"
      "cw_store w' = (admitted (nat (cw_now w3)) o1 pj (cw_store w3))\<lparr>ct_capabilities := caps', ct_ext := x\<rparr>"
    using begin_created(3)[OF b] by (auto simp: admit_ok simp del: not_None_eq)
  show "opened \<and> validate_feature_gate (sp_desired (ar_spec req)) = Inr ()
    \<and> compare_revisions (ar_revisions req) (current_revisions ws (cw_store w)) = None"
    using steps by blast
  show "fst (reproduce (current_revisions ws (cw_store w)) req (ct_ext (cw_store w), cw_rest w))
        = Inr (ar_accept_digest req, op_plan_of o1)
      \<and> oi_accepted_digest o1 = ar_accept_digest req \<and> tp_spec (op_plan_of o1) = ar_spec req
      \<and> oi_expected_revisions o1 = ar_revisions req \<and> op_state_of o1 = Accepted"
    using o1 steps(10,14) by simp
  show "ct_claim (cw_store w) = None \<and> ct_claim (cw_store w') = Some (oi_operation_id o1)
      \<and> find_row (oi_operation_id o1) (cw_store w) = None"
    using adm same by (simp add: find_row_def)
  show "\<exists>r. ct_rows (cw_store w') = ct_rows (cw_store w) @ [r] \<and> oi_operation_id r = oi_operation_id o1
      \<and> or_state r = Accepted \<and> or_generation r = 0 \<and> or_plan r = op_plan_of o1"
    using adm same o1 by (simp add: new_row_def)
  show "if vp_local who then ct_capabilities (cw_store w') = ct_capabilities (cw_store w)
      else capability_spent E who req (oi_operation_id o1) (cw_store w) (cw_store w')"
  proof (cases "vp_local who")
    case True
    then show ?thesis using adm(4,5) same by (simp add: spent_for_def)
  next
    case False
    then obtain v a where a: "ar_capability req = Some v" "auth = Some a" "au_capability a = se_sha E v"
      using authorize_ok[OF steps(9)] by auto
    with adm(3,4) False obtain c where c: "matches_operation E o1 a" "ct_capabilities (cw_store w) (se_sha E v) = Some c"
        "capability_usable (cw_now w3) a c" "caps' = (ct_capabilities (cw_store w))(se_sha E v \<mapsto> c\<lparr>cp_consumed := Some (oi_operation_id o1)\<rparr>)"
      by (auto simp: spent_for_def same)
    then show ?thesis
      using False a o1 adm(5) by (simp add: capability_spent_def capability_usable_def matches_operation_def)
  qed
qed

end
