(* ===== verification/Transaction_Claims.thy ===== *)
theory Transaction_Claims
  imports Admission_Properties
begin

text \<open>
  The properties of a transaction's run on the control store, with a run in which each applies. They
  are facts of the journal's interface, of its invariants, and of their interpretation on the store.
\<close>

section \<open>Runs of the sample\<close>

abbreviation "run_sample \<equiv> run_operation_locked sample_ports sample_codecs"

definition rollback_run :: "(unit, sample_world) control_world run" where
  "rollback_run = sample_run\<lparr>rn_op := sample_operation\<lparr>op_state_of := RollingBack\<rparr>\<rparr>"

text \<open>The row is there, and no operation holds the claim.\<close>

definition unclaimed_sample :: "(unit, sample_world) control_world run" where
  "unclaimed_sample =
     sample_run\<lparr>rn_world := (rn_world sample_run)\<lparr>cw_store := sample_store\<lparr>ct_claim := None\<rparr>\<rparr>\<rparr>"

lemma sample_start:
  "rn_trace sample_run = []" "op_state_of (rn_op sample_run) = Accepted" "rn_trace rollback_run = []"
  "op_state_of (rn_op rollback_run) = RollingBack" "settings_service_receipt sample_codecs (rn_op sample_run) = None"
  "settings_service_receipt sample_codecs (rn_op rollback_run) = None"
  by code_simp+

text \<open>Each run is evaluated once.\<close>

lemma sample_result:
  "(\<lambda>(r, t). r = Inr () \<and> op_state_of (rn_op t) = Succeeded) (run_sample True sample_run)"
  by code_simp

lemma rollback_result:
  "(\<lambda>(r, t). r = Inr () \<and> op_state_of (rn_op t) = RolledBack) (run_sample True rollback_run)"
  by code_simp

lemma sample_ends:
  "fst (run_sample True sample_run) = Inr () \<and> op_state_of (rn_op (snd (run_sample True sample_run))) = Succeeded"
  using sample_result by (simp add: case_prod_unfold)

lemma rollback_ends:
  "fst (run_sample True rollback_run) = Inr () \<and> op_state_of (rn_op (snd (run_sample True rollback_run))) = RolledBack"
  using rollback_result by (simp add: case_prod_unfold)

lemma unclaimed_start:
  "rn_trace unclaimed_sample = [] \<and> op_state_of (rn_op unclaimed_sample) = Accepted
   \<and> ct_claim (cw_store (rn_world unclaimed_sample)) = None
   \<and> settings_service_receipt sample_codecs (rn_op unclaimed_sample) = None"
  by code_simp

lemma ran: "fst m = Inr () \<Longrightarrow> m = (Inr (), snd m)"
  by (cases m) simp

lemma reading_ok: "reading g w = (Inr x, w') \<Longrightarrow> g (cw_store w) = Inr x \<and> cw_store w' = cw_store w"
  using reading_store by blast

section \<open>Properties\<close>

text \<open>
  C1. No effect is undone before the decision to roll back is durable, and nothing is applied after
  it. Read from its start, the trace of a run calls a compensation only after its first durable
  \<open>RollingBack\<close> record, and after that first record it never stages, prepares or activates anything,
  whatever the adapters and SQLite answer, a run that resumes a rollback included. Left out are an
  operation that needs attention, whose run only checks an earlier rollback again, and the retry of a
  parked settings tail, which goes on with the row it reloads.
\<close>

theorem rollback_decision_first:
  assumes "op_state_of (rn_op s) \<noteq> NeedsAttention" "rn_trace s = []"
    and "\<not> retry \<or> settings_service_receipt D (rn_op s) = None"
  shows "decided (rn_trace (snd (run_operation_locked (control_ports E B) D retry s)))"
  by (rule store_journal.run_decides [OF assms])

theorem rollback_decision_first_witness:
  "decided (rn_trace (snd (run_sample True rollback_run)))"
  by (rule rollback_decision_first) (simp_all add: sample_start)

text \<open>
  C2. An operation ends \<open>Succeeded\<close> only on proof. When a run returns with that state, the trace ends
  with one observation for every secret, grant, control state, external effect and runtime value of
  the plan, each answered applied, followed only by the snapshot, journal records and the finish;
  and the finish that closed it was durable.
\<close>

theorem terminal_success_proved:
  assumes "op_state_of (rn_op s) \<noteq> Succeeded" "op_state_of (rn_op s) \<noteq> RolledBack"
    and "run_operation_locked (control_ports E B) D retry s = (Inr x, t)" "op_state_of (rn_op t) = Succeeded"
  shows "success_proved (rn_op t) (rn_trace t) \<and> Finish Succeeded True \<in> set (rn_trace t)"
  using store_journal.run_settled [OF assms(1-3)] assms(4) by (simp add: settled_def proved_def)

theorem terminal_success_proved_witness:
  "let t = snd (run_sample True sample_run)
   in success_proved (rn_op t) (rn_trace t) \<and> Finish Succeeded True \<in> set (rn_trace t)"
  unfolding Let_def
  by (rule terminal_success_proved [OF _ _ ran]) (simp_all add: sample_start sample_ends)

text \<open>
  C8. An operation ends \<open>RolledBack\<close> only on proof. When a run of an operation that had not ended
  returns with that state, every effect its journal recorded was compensated, in one last pass over
  them, and then every secret, grant, control state, external effect and runtime value of the plan was
  observed missing; what follows is the journal, and the finish that closed it was durable. Login items
  are left out of both passes: the desktop undoes them, and the code here calls no compensation and no
  observation for them.
\<close>

theorem terminal_rollback_proved:
  assumes "op_state_of (rn_op s) \<noteq> Succeeded" "op_state_of (rn_op s) \<noteq> RolledBack"
    and "run_operation_locked (control_ports E B) D retry s = (Inr x, t)" "op_state_of (rn_op t) = RolledBack"
  shows "rollback_proved (rn_op t) (rn_trace t) \<and> Finish RolledBack True \<in> set (rn_trace t)"
  using store_journal.run_settled [OF assms(1-3)] assms(4) by (simp add: settled_def proved_def)

theorem terminal_rollback_proved_witness:
  "let t = snd (run_sample True rollback_run)
   in rollback_proved (rn_op t) (rn_trace t) \<and> Finish RolledBack True \<in> set (rn_trace t)"
  unfolding Let_def
  by (rule terminal_rollback_proved [OF _ _ ran]) (simp_all add: sample_start rollback_ends)

text \<open>
  C3. The client file of a settings change is switched last. In every run that is not the retry of a
  parked tail, when a managed configuration file is activated, each publication of the plan has
  already been activated or observed applied.
\<close>

theorem service_before_client_file:
  assumes "rn_trace s = []" "\<not> retry \<or> settings_service_receipt D (rn_op s) = None"
  shows "service_first (op_plan_of (rn_op s)) (rn_trace (snd (run_operation_locked (control_ports E B) D retry s)))"
  by (rule store_journal.run_service_first [OF assms])

theorem service_before_client_file_witness:
  "service_first (op_plan_of (rn_op sample_run)) (rn_trace (snd (run_sample True sample_run)))"
  by (rule service_before_client_file) (simp_all add: sample_start)

text \<open>
  C9. The startup gate. After \<open>reconcile_startup_and_open\<close> writes are open exactly when it returned
  the recovered operations; then none of them needs attention and no operation holds the writer
  claim of the store.
\<close>

theorem startup_opens_clean:
  assumes "reconcile_startup_and_open (control_ports E B) D s = (r, t)"
  shows "(rn_open t \<longleftrightarrow> is_ok r) \<and>
    (\<forall>ended. r = Inr ended \<longrightarrow> (\<forall>o1\<in>set ended. op_state_of o1 \<noteq> NeedsAttention)
      \<and> ct_claim (cw_store (rn_world t)) = None)"
proof -
  have "ct_claim (cw_store w2) = None" if "p_recovery_required (control_ports E B) w1 = (Inr False, w2)" for w1 w2
    using that by (auto simp: control_ports_def writer_recovery_required_def dest!: reading_ok simp del: not_None_eq)
  then show ?thesis using store_journal.startup_gate [OF assms] by blast
qed

theorem startup_opens_clean_witness:
  "let (r, t) = reconcile_startup_and_open sample_ports sample_codecs
     (sample_run\<lparr>rn_world := (rn_world sample_run)\<lparr>cw_store := empty_store\<rparr>\<rparr>) in rn_open t \<and> is_ok r"
proof -
  let ?m = "reconcile_startup_and_open sample_ports sample_codecs
     (sample_run\<lparr>rn_world := (rn_world sample_run)\<lparr>cw_store := empty_store\<rparr>\<rparr>)"
  have "is_ok (fst ?m)" by code_simp
  then show ?thesis using startup_opens_clean [of sample_env sample_adapters sample_codecs _ "fst ?m" "snd ?m"]
    by (simp add: case_prod_unfold)
qed

text \<open>
  C10. An operation that does not hold the writer claim cannot end. When the store gives the claim to
  another operation, or to none, a run that is not the retry of a parked tail never has a finish
  accepted as \<open>Succeeded\<close> or \<open>RolledBack\<close> and never takes the claim; if it returns at all, the
  operation is in neither of these states.
\<close>

theorem unclaimed_operation_cannot_finish:
  assumes "rn_trace s = []" "ct_claim (cw_store (rn_world s)) \<noteq> Some (oi_operation_id (rn_op s))"
    and "op_state_of (rn_op s) \<noteq> Succeeded" "op_state_of (rn_op s) \<noteq> RolledBack"
    and "\<not> retry \<or> settings_service_receipt D (rn_op s) = None"
    and run: "run_operation_locked (control_ports E B) D retry s = (r, t)"
  shows "Finish Succeeded True \<notin> set (rn_trace t) \<and> Finish RolledBack True \<notin> set (rn_trace t)
    \<and> ct_claim (cw_store (rn_world t)) \<noteq> Some (oi_operation_id (rn_op s))
    \<and> (is_ok r \<longrightarrow> op_state_of (rn_op t) \<notin> {Succeeded, RolledBack})"
proof -
  have "settled t" if "r = Inr x" for x
    using store_journal.run_settled [OF assms(3,4) run [unfolded that]] .
  then show ?thesis using unclaimed_run [OF assms(1,2,5) run] by (cases r) (auto simp: settled_def)
qed

theorem unclaimed_operation_cannot_finish_witness:
  "Finish Succeeded True \<notin> set (rn_trace (snd (run_sample True unclaimed_sample)))"
  using unclaimed_operation_cannot_finish [of unclaimed_sample True sample_codecs sample_env sample_adapters
      "fst (run_sample True unclaimed_sample)"] unclaimed_start
  by simp

end
