(* ===== verification/Store_Claims.thy ===== *)
theory Store_Claims
  imports Transaction_Claims
begin

text \<open>
  The properties of the control store over any sequence of its commands, with whatever faults SQLite
  answers, and of the admission that makes the first durable write.
\<close>

section \<open>An admitted value\<close>

lemma new_steps_numbered: "new_steps env k ks = Inr ss \<Longrightarrow> map os_sequence ss = [k..<k + length ks]"
  by (induction env k ks arbitrary: ss rule: new_steps.induct)
    (auto simp: and_then_Inr upt_conv_Cons simp del: upt_Suc)

lemma operation_new_numbered: "operation_new env oid ws sc q a revs p = Inr o1 \<Longrightarrow> numbered (op_steps o1)"
proof -
  assume "operation_new env oid ws sc q a revs p = Inr o1"
  then have "new_steps env 0 (zip ALL_STEPS (step_inputs p a revs)) = Inr (op_steps o1)"
    by (auto simp: operation_new_def establish_checkpoint_def and_then_Inr)
  moreover have "length (zip ALL_STEPS (step_inputs p a revs)) = 6" by (simp add: ALL_STEPS_def step_inputs_def)
  ultimately show ?thesis using new_steps_numbered[of env 0] by (simp add: numbered_def)
qed

lemma admitted_current:
  assumes ok: "store_ok st" and new: "operation_new (se_ops E) oid ws sc q a revs p = Inr o1"
    and b: "begin_operation_admitted E fault now o1 auth st = (Inr Created, st')"
  shows "store_ok st' \<and> operation_is_current E o1 st' = Inr True"
proof -
  obtain caps' pj x where adm: "find_row (oi_operation_id o1) st = None" "oe_plan_json (se_ops E) (op_plan_of o1) = Inr pj"
      "st' = (admitted (nat now) o1 pj st)\<lparr>ct_capabilities := caps', ct_ext := x\<rparr>"
    using begin_created(3)[OF b] by (auto simp: admit_ok simp del: not_None_eq)
  obtain i where o1: "immutable_identity (se_ops E) o1 = Inr i" "op_generation o1 = 0" "op_error_code o1 = None"
      "op_checkpoint o1 = Some \<lparr>ck_identity = i, ck_plan = op_plan_of o1, ck_plan_json = pj, ck_generation = 0,
        ck_steps = op_steps o1, ck_state = op_state_of o1, ck_error_code = None\<rparr>"
    using new adm(2)
    by (auto simp: operation_new_def establish_checkpoint_def and_then_Inr immutable_identity_def op_identity.truncate_def)
  have num: "numbered (op_steps o1)" by (rule operation_new_numbered[OF new])
  have ok': "store_ok st'"
    using store_ok_admitted[OF ok num adm(1) begin_created(1)[OF b]] adm(3) by (simp add: store_ok_fields)
  let ?r = "new_row (nat now) o1 pj"
  have mem: "?r \<in> set (ct_rows st')" using adm(3) by simp
  have "\<not> list_ex (\<lambda>(a, b). \<not> same_step_input a b) (zip ss ss)" "filter (\<lambda>(a, b). a \<noteq> b) (zip ss ss) = []" for ss
    by (induction ss) (auto simp: same_step_input_def)
  then have upd: "journal_update_of (se_ops E) o1 =
      Inr \<lparr>ju_expected_generation = 0, ju_next_generation = 1, ju_changed_steps = [], ju_plan_json = pj\<rparr>"
    using o1 by (simp add: journal_update_of_def checked_add_def usize_max_def)
  then have "journal_is_committed (se_ops E) o1 = Inr True" by (simp add: journal_is_committed_def o1)
  moreover have "row_is_value o1 pj ?r" by (simp add: row_is_value_def row_matches_def new_row_def o1)
  then have "list_ex (row_is_value o1 pj) (ct_rows st')" using mem by (auto simp: list_ex_iff)
  moreover have "step_rows_exact (oi_operation_id o1) (op_steps o1) st'"
    using step_rows_exact_ok[OF ok' mem] by (simp add: new_row_def)
  moreover have "holds_claim E o1 st'" using adm(3) by (simp add: holds_claim_def)
  ultimately show ?thesis using upd ok' by (simp add: operation_is_current_def map_err_def)
qed

section \<open>A decoded value\<close>

lemma restored_steps:
  assumes "restore_durable_state env s g ss code o1 = Inr o2"
  shows "numbered (op_steps o2) \<and> map os_kind (op_steps o2) = ALL_STEPS \<and> op_steps o2 = ss"
proof -
  have o2: "op_steps o2 = ss" "length ss = 6"
    and each: "\<not> list_ex (\<lambda>(k, st, kind). os_sequence st \<noteq> k \<or> os_kind st \<noteq> kind
        \<or> os_input_digest st \<noteq> os_input_digest (op_steps o1 ! k)) (zip [0..<6] (zip ss ALL_STEPS))"
    using assms by (auto simp: restore_durable_state_def establish_checkpoint_def and_then_Inr ALL_STEPS_def
        split: if_splits)
  have "os_sequence (ss ! n) = n \<and> os_kind (ss ! n) = ALL_STEPS ! n" if "n < 6" for n
  proof -
    have "(n, ss ! n, ALL_STEPS ! n) \<in> set (zip [0..<6] (zip ss ALL_STEPS))"
      using that o2(2) by (auto simp: in_set_zip ALL_STEPS_def intro!: exI [of _ n])
    then show ?thesis using each by (auto simp: list_ex_iff)
  qed
  then show ?thesis
    using o2 by (auto simp: numbered_iff list_eq_iff_nth_eq ALL_STEPS_def)
qed

lemma restored_committed:
  assumes "restore_durable_state env s g ss code o1 = Inr o2" "g < usize_max"
  shows "journal_is_committed env o2 = Inr True"
proof -
  obtain i pj where o2: "immutable_identity env o2 = Inr i"
      "op_checkpoint o2 = Some \<lparr>ck_identity = i, ck_plan = op_plan_of o2, ck_plan_json = pj, ck_generation = op_generation o2,
        ck_steps = op_steps o2, ck_state = op_state_of o2, ck_error_code = op_error_code o2\<rparr>" "op_generation o2 = g"
    using assms(1)
    by (auto simp: restore_durable_state_def establish_checkpoint_def and_then_Inr immutable_identity_def
        op_identity.truncate_def split: if_splits)
  have "\<not> list_ex (\<lambda>(a, b). \<not> same_step_input a b) (zip ss ss)" "filter (\<lambda>(a, b). a \<noteq> b) (zip ss ss) = []" for ss
    by (induction ss) (auto simp: same_step_input_def)
  then show ?thesis
    using o2 assms(2) by (simp add: journal_is_committed_def journal_update_of_def checked_add_def)
qed

lemma decoded:
  assumes "decode_operation E r = Inr o1"
  shows "numbered (op_steps o1) \<and> map os_kind (op_steps o1) = ALL_STEPS \<and> op_steps o1 = or_steps r
    \<and> oi_operation_id o1 = oi_operation_id r \<and> oi_accepted_digest o1 = oi_accepted_digest r
    \<and> oi_operation_id o1 = operation_id_derive (se_sha E) (oi_workspace_id o1) (oi_idempotency o1) (oi_request_digest o1)
    \<and> op_state_of o1 = or_state r \<and> op_generation o1 = or_generation r
    \<and> (or_generation r < usize_max \<longrightarrow> journal_is_committed (se_ops E) o1 = Inr True)"
proof -
  obtain p o0 where derive: "operation_id_derive (se_sha E) (oi_workspace_id r) (oi_idempotency r) (oi_request_digest r)
        = oi_operation_id r"
    and new: "operation_new (se_ops E) (oi_operation_id r) (oi_workspace_id r) (oi_idempotency r)
      (oi_request_digest r) (oi_accepted_digest r) (oi_expected_revisions r) p = Inr o0"
    and rest: "restore_durable_state (se_ops E) (or_state r) (or_generation r) (or_steps r) (or_error_code r) o0 = Inr o1"
    using assms by (auto simp: decode_operation_def and_then_Inr map_err_Inr perr_def split: if_splits)
  have "oi_operation_id o1 = oi_operation_id o0 \<and> oi_accepted_digest o1 = oi_accepted_digest o0
      \<and> oi_workspace_id o1 = oi_workspace_id o0 \<and> oi_idempotency o1 = oi_idempotency o0
      \<and> oi_request_digest o1 = oi_request_digest o0
      \<and> op_state_of o1 = or_state r \<and> op_generation o1 = or_generation r"
    using rest by (auto simp: restore_durable_state_def establish_checkpoint_def and_then_Inr split: if_splits)
  moreover have "oi_request_digest o0 = oi_request_digest r"
    using new by (auto simp: operation_new_def establish_checkpoint_def and_then_Inr)
  ultimately show ?thesis
    using derive operation_new_fields [OF new] restored_steps [OF rest] restored_committed [OF rest] by auto
qed

section \<open>Samples\<close>

abbreviation "sample_commands \<equiv>
  [(None, 0, Save sample_operation), (Some \<lparr>pe_code = Unavailable, pe_context = ''x''\<rparr>, 1, Reclaim ''z'')]"

definition other_operation :: operation where
  "other_operation = sample_operation\<lparr>oi_operation_id := ''o2''\<rparr>"

definition capability_store :: "unit store" where
  "capability_store = snd (register_capability None 0 sample_authorization empty_store)"

lemma sample_created:
  "begin_local_operation sample_env None 0 sample_operation empty_store = (Inr Created, sample_store)"
  "begin_operation_admitted sample_env None 0 sample_operation None empty_store = (Inr Created, sample_store)"
  "begin_operation sample_env None 0 sample_operation sample_authorization capability_store
     = (Inr Created, snd (begin_operation sample_env None 0 sample_operation sample_authorization capability_store))"
  "ct_claim sample_store = Some ''o''" "oi_operation_id sample_operation = ''o''" "op_generation sample_operation = 0"
proof -
  have "fst (begin_local_operation sample_env None 0 sample_operation empty_store) = Inr Created"
    "fst (begin_operation sample_env None 0 sample_operation sample_authorization capability_store) = Inr Created"
    by code_simp+
  moreover have "begin_local_operation sample_env None 0 sample_operation
      = begin_operation_admitted sample_env None 0 sample_operation None"
  proof -
    have "is_principal (oi_idempotency sample_operation) = ''interactive-user''" by code_simp
    then show ?thesis by (simp add: begin_local_operation_def)
  qed
  ultimately show "begin_local_operation sample_env None 0 sample_operation empty_store = (Inr Created, sample_store)"
    "begin_operation_admitted sample_env None 0 sample_operation None empty_store = (Inr Created, sample_store)"
    "begin_operation sample_env None 0 sample_operation sample_authorization capability_store
     = (Inr Created, snd (begin_operation sample_env None 0 sample_operation sample_authorization capability_store))"
    by (simp_all add: prod_eq_iff sample_store_def)
qed code_simp+

lemma sample_tables:
  "ct_capabilities empty_store = (\<lambda>_. None)" "store_ok empty_store" "numbered (op_steps sample_operation)"
  "writes (Save sample_operation) = Some sample_operation"
  by (simp_all add: empty_store_def store_ok_def) code_simp

lemma sample_saves:
  "save_operation sample_env None sample_operation sample_store
     = (Inr (projr (fst (save_operation sample_env None sample_operation sample_store))),
        snd (save_operation sample_env None sample_operation sample_store))"
proof -
  have "is_ok (fst (save_operation sample_env None sample_operation sample_store))" by code_simp
  then show ?thesis by (cases "save_operation sample_env None sample_operation sample_store") (auto elim: is_ok.elims)
qed

lemma sample_new:
  "operation_new (se_ops sample_env) ''o'' ''w'' sample_scope ''q'' ''a'' \<lparr>rv_target = 0, rv_dependencies = []\<rparr> sample_plan
     = Inr sample_operation"
proof -
  have "is_ok (operation_new sample_ops ''o'' ''w'' sample_scope ''q'' ''a'' \<lparr>rv_target = 0, rv_dependencies = []\<rparr> sample_plan)"
    by code_simp
  then show ?thesis by (auto simp: sample_operation_def sample_env_def elim: is_ok.elims)
qed

text \<open>A local change that is accepted when writes are open.\<close>

abbreviation "accept_sample opened \<equiv>
  accept_with_reproduced_plan sample_env (\<lambda>_. Inr ''q'') opened ''w'' principal_for_local_control ''k''
    \<lparr>ar_major = 1, ar_spec = tp_spec sample_plan, ar_accept_digest = ''a'',
     ar_revisions = \<lparr>rv_target = 0, rv_dependencies = []\<rparr>, ar_key = ''y'', ar_capability = None\<rparr>
    (\<lambda>_ req xv. (Inr (ar_accept_digest req, sample_plan), xv))
    \<lparr>cw_store = empty_store, cw_faults = [], cw_now = 0, cw_rest = ()\<rparr>"

section \<open>Properties\<close>

text \<open>
  C4. The writer claim is exclusive. Once an operation holds it, no sequence of commands takes it away
  or admits a row until that operation itself parks its tail or finishes: the claim stays, the set of
  operations stays, and every admission in between is refused.
\<close>

theorem writer_claim_exclusive:
  assumes "ct_claim st = Some i" "\<forall>c\<in>set cs. \<not> releases i (snd (snd c))"
  shows "ct_claim (exec_all E cs st) = Some i
    \<and> map oi_operation_id (ct_rows (exec_all E cs st)) = map oi_operation_id (ct_rows st)
    \<and> fst (begin_operation_admitted E fault now o1 auth (exec_all E cs st)) \<noteq> Inr Created"
  using run_claim [OF assms, where E = E] held_refuses [of "exec_all E cs st" E fault now o1 auth] by simp

theorem writer_claim_exclusive_witness:
  "ct_claim (exec_all sample_env sample_commands sample_store) = Some ''o''
   \<and> fst (begin_operation_admitted sample_env None 0 other_operation None
        (exec_all sample_env sample_commands sample_store)) \<noteq> Inr Created"
  using writer_claim_exclusive [of sample_store "''o''" sample_commands sample_env None 0 other_operation None]
  by (simp add: sample_created releases_def)

text \<open>
  C6. A capability is spent once. After an admission with it, no sequence of commands (registering it
  again included) makes the store admit any operation with the same capability.
\<close>

theorem capability_spent_once:
  assumes "begin_operation E fault now o1 a st = (Inr Created, st')" "au_capability b = au_capability a"
  shows "fst (begin_operation E fault' now' o2 b (exec_all E cs st')) \<noteq> Inr Created"
proof -
  obtain k where "ct_capabilities st' (au_capability a) = Some k" "cp_consumed k \<noteq> None"
    using begin_spends [OF assms(1)] by auto
  then have "ct_capabilities (exec_all E cs st') (au_capability b) = Some k"
    using exec_all_keeps [of "\<lambda>t. ct_capabilities t (au_capability a) = Some k" st' cs E] exec_spent [of _ "au_capability a" k]
    unfolding assms(2) by blast
  then show ?thesis using \<open>cp_consumed k \<noteq> None\<close> by (rule spent_refused)
qed

theorem capability_spent_once_witness:
  "fst (begin_operation sample_env None 1 other_operation sample_authorization
     (exec_all sample_env [(None, 0, Register sample_authorization)]
       (snd (begin_operation sample_env None 0 sample_operation sample_authorization capability_store)))) \<noteq> Inr Created"
  by (rule capability_spent_once [OF sample_created(3) refl])

text \<open>
  An idempotency key admits once. After an admission under a workspace and key, no sequence of
  commands makes the store admit another operation under them, and the attempt changes nothing.
\<close>

theorem admitted_once:
  assumes "begin_operation_admitted E fault now o1 auth st = (Inr Created, st')"
    and "oi_workspace_id o2 = oi_workspace_id o1" "oi_idempotency o2 = oi_idempotency o1"
  shows "fst (begin_operation_admitted E fault' now' o2 auth' (exec_all E cs st')) \<noteq> Inr Created
    \<and> snd (begin_operation_admitted E fault' now' o2 auth' (exec_all E cs st')) = exec_all E cs st'"
proof -
  have "list_ex (same_idempotency (oi_workspace_id o1) (oi_idempotency o1)) (ct_rows (exec_all E cs st'))"
    using exec_all_keeps [of "\<lambda>t. list_ex (same_idempotency (oi_workspace_id o1) (oi_idempotency o1)) (ct_rows t)" st' cs E]
      begin_binds [OF assms(1)] exec_idempotent by blast
  then show ?thesis using bound_refused [of o2] assms(2,3) by simp
qed

theorem admitted_once_witness:
  "snd (begin_operation_admitted sample_env None 0 other_operation None (exec_all sample_env sample_commands sample_store))
     = exec_all sample_env sample_commands sample_store"
proof -
  have "oi_workspace_id other_operation = oi_workspace_id sample_operation"
    "oi_idempotency other_operation = oi_idempotency sample_operation" by (simp_all add: other_operation_def)
  from admitted_once [OF sample_created(2) this] show ?thesis by blast
qed

text \<open>
  C5. A stale value is refused. Once a value of an operation is saved, no value of that operation at
  the same or an older generation can be saved any more, whatever commands ran in between; the
  refusal leaves the store.
\<close>

theorem stale_value_refused:
  assumes "store_ok st" "save_operation E fault o1 st = (Inr o2, st')"
    and "oi_operation_id o3 = oi_operation_id o1" "op_generation o3 \<le> op_generation o1"
  shows "op_generation o2 = op_generation o1 + 1
    \<and> \<not> is_ok (fst (save_operation E fault' o3 (exec_all E cs st')))
    \<and> snd (save_operation E fault' o3 (exec_all E cs st')) = exec_all E cs st'"
proof -
  have first: "reached (oi_operation_id o1) (op_generation o1 + 1) st' \<and> op_generation o2 = op_generation o1 + 1"
    using save_reaches [OF assms(2)] assms(1) by (simp add: store_ok_def)
  then have "reached (oi_operation_id o3) (op_generation o1 + 1) (exec_all E cs st')"
    using exec_all_keeps [of "reached (oi_operation_id o1) (op_generation o1 + 1)" st' cs E] exec_reached
    unfolding assms(3) by blast
  then show ?thesis using first stale_refused [of o3 "op_generation o1 + 1" _ E fault'] assms(4) by simp
qed

theorem stale_value_refused_witness:
  "\<not> is_ok (fst (save_operation sample_env None sample_operation
     (exec_all sample_env sample_commands (snd (save_operation sample_env None sample_operation sample_store)))))"
proof -
  have "store_ok sample_store" using admitted_current [OF sample_tables(2) sample_new sample_created(2)] by blast
  from stale_value_refused [OF this sample_saves refl order_refl] show ?thesis by blast
qed

text \<open>
  C16. The tables stay consistent. Over any sequence of commands whose operations have the six numbered
  steps, the operation ids and the idempotency keys stay unique, every row keeps its six steps, the
  step table is exactly the mirror of the rows' journals, and no step row is left without its operation.
\<close>

theorem store_consistent:
  assumes "store_ok st" "\<forall>c\<in>set cs. \<forall>o1. writes (snd (snd c)) = Some o1 \<longrightarrow> numbered (op_steps o1)"
  shows "store_ok (exec_all E cs st)"
  using exec_all_keeps [of store_ok st cs E] exec_store_ok assms by blast

theorem store_consistent_witness:
  "store_ok (exec_all sample_env [(None, 0, Save sample_operation)] empty_store)"
  by (rule store_consistent) (simp_all add: sample_tables)

text \<open>
  An admitted value is current. A fresh operation that the store admitted is the exact value of
  its row and of its step rows and holds the writer claim, so that \<open>operation_is_current\<close> answers true;
  the tables stay consistent.
\<close>

theorem admitted_value_current:
  assumes "store_ok st" "operation_new (se_ops E) oid ws sc q a revs p = Inr o1"
    and "begin_operation_admitted E fault now o1 auth st = (Inr Created, st')"
  shows "store_ok st' \<and> operation_is_current E o1 st' = Inr True"
  by (rule admitted_current [OF assms])

theorem admitted_value_current_witness:
  "operation_is_current sample_env sample_operation sample_store = Inr True"
proof -
  from admitted_value_current [OF sample_tables(2) sample_new sample_created(2)] show ?thesis by blast
qed

text \<open>
  A saved value is current. For a value in step with its row, the value that a save returns is in
  step with the new row, the tables stay consistent, and \<open>is_current\<close> answers of it whether the
  operation holds the writer claim.
\<close>

theorem saved_value_current:
  assumes "store_ok st" "numbered (op_steps o1)" "synced o1 st" "save_operation E fault o1 st = (Inr o2, st')"
  shows "synced o2 st' \<and> store_ok st' \<and> operation_is_current E o2 st' = Inr (holds_claim E o2 st')"
  by (rule save_synced [OF assms])

theorem saved_value_current_witness:
  "synced (projr (fst (save_operation sample_env None sample_operation sample_store)))
     (snd (save_operation sample_env None sample_operation sample_store))"
proof -
  have "store_ok sample_store" using admitted_current [OF sample_tables(2) sample_new sample_created(2)] by blast
  moreover have "synced sample_operation sample_store" by code_simp
  ultimately show ?thesis using saved_value_current [OF _ sample_tables(3) _ sample_saves] by blast
qed

text \<open>
  C17. A decoded operation is well formed. Whatever the stored \<open>operation_json\<close> holds, \<open>decode_operation\<close>
  returns only an operation whose identifier is the one derived from its workspace, its idempotency
  scope and its request digest, with the six steps numbered and in their order, and with the state, the
  generation and the steps of that JSON; below the last generation its journal is committed, so it may
  be continued without being saved first.
\<close>

theorem decoded_operation_formed:
  assumes "decode_operation E r = Inr o1"
  shows "oi_operation_id o1 = operation_id_derive (se_sha E) (oi_workspace_id o1) (oi_idempotency o1) (oi_request_digest o1)
    \<and> numbered (op_steps o1) \<and> map os_kind (op_steps o1) = ALL_STEPS
    \<and> op_steps o1 = or_steps r \<and> op_state_of o1 = or_state r \<and> op_generation o1 = or_generation r
    \<and> (or_generation r < usize_max \<longrightarrow> journal_is_committed (se_ops E) o1 = Inr True)"
  using decoded [OF assms] by blast

theorem decoded_operation_formed_witness:
  "case decode_operation sample_env (hd (ct_rows (cw_store (snd (accept_sample True))))) of
     Inr o1 \<Rightarrow> numbered (op_steps o1) | _ \<Rightarrow> False"
proof -
  have "is_ok (decode_operation sample_env (hd (ct_rows (cw_store (snd (accept_sample True))))))" by code_simp
  then obtain o1 where "decode_operation sample_env (hd (ct_rows (cw_store (snd (accept_sample True))))) = Inr o1"
    by (auto simp: is_ok_iff)
  moreover from decoded_operation_formed [OF this] have "numbered (op_steps o1)" by blast
  ultimately show ?thesis by simp
qed

text \<open>
  C7. An accepted change has passed every check. When an admission returns a new operation, writes were
  open, the desired state names no disabled feature, the expected revisions were those of the store,
  the plan is the one that \<open>reproduce\<close> answered at the current revisions, its reproduced digest is the
  digest the request accepts and its specification is the request's, the writer claim was free and is now its
  own, one row at generation 0 with that plan was added, and a protected principal's capability, bound to
  this very request, is spent by it; a local principal spends none.
\<close>

theorem accepted_change_checked:
  assumes "accept_with_reproduced_plan E digest_of opened ws who kind req reproduce w = (Inr (o1, False), w')"
  shows "(opened \<and> validate_feature_gate (sp_desired (ar_spec req)) = Inr ()
      \<and> compare_revisions (ar_revisions req) (current_revisions ws (cw_store w)) = None)
    \<and> (fst (reproduce (current_revisions ws (cw_store w)) req (ct_ext (cw_store w), cw_rest w))
        = Inr (ar_accept_digest req, op_plan_of o1)
      \<and> oi_accepted_digest o1 = ar_accept_digest req \<and> tp_spec (op_plan_of o1) = ar_spec req
      \<and> oi_expected_revisions o1 = ar_revisions req \<and> op_state_of o1 = Accepted)
    \<and> (ct_claim (cw_store w) = None \<and> ct_claim (cw_store w') = Some (oi_operation_id o1)
      \<and> find_row (oi_operation_id o1) (cw_store w) = None)
    \<and> (\<exists>r. ct_rows (cw_store w') = ct_rows (cw_store w) @ [r] \<and> oi_operation_id r = oi_operation_id o1
      \<and> or_state r = Accepted \<and> or_generation r = 0 \<and> or_plan r = op_plan_of o1)
    \<and> (if vp_local who then ct_capabilities (cw_store w') = ct_capabilities (cw_store w)
      else capability_spent E who req (oi_operation_id o1) (cw_store w) (cw_store w'))"
  by (intro conjI accept_created(1-3) [OF assms] accept_created(4,5) [OF assms])

theorem accepted_change_checked_witness:
  "ct_claim (cw_store (snd (accept_sample True))) = Some (oi_operation_id (fst (projr (fst (accept_sample True)))))"
proof -
  have "(case fst (accept_sample True) of Inr (o1, existing) \<Rightarrow> \<not> existing | _ \<Rightarrow> False)" by code_simp
  then have "accept_sample True = (Inr (fst (projr (fst (accept_sample True))), False), snd (accept_sample True))"
    by (cases "accept_sample True") (auto split: sum.splits prod.splits)
  from accepted_change_checked [OF this] show ?thesis by blast
qed

text \<open>
  C18. A refused change leaves no trace. An admission that fails, or that answers with an operation
  that existed, leaves the rows, the steps, the claim, the capabilities and the revision heads as they
  were; only the adapters' own tables may differ.
\<close>

theorem refused_change_leaves_store:
  assumes "accept_with_reproduced_plan E digest_of opened ws who kind req reproduce w = (r, w')"
    and "\<not> (\<exists>o1. r = Inr (o1, False))"
  shows "cw_store w' = (cw_store w)\<lparr>ct_ext := ct_ext (cw_store w')\<rparr>"
  using accept_quiet [of E digest_of opened ws who kind req reproduce] assms
  by (metis created_def fst_conv quiet_unless_created_def same_tables_def snd_conv)

theorem refused_change_leaves_store_witness:
  "cw_store (snd (accept_sample False)) = empty_store\<lparr>ct_ext := ct_ext (cw_store (snd (accept_sample False)))\<rparr>"
proof -
  have "\<not> is_ok (fst (accept_sample False))" by code_simp
  then have "\<not> (\<exists>o1. fst (accept_sample False) = Inr (o1, False))" by auto
  from refused_change_leaves_store [OF prod.collapse [symmetric] this] show ?thesis by simp
qed

end
