(* ===== verification/Transaction_Effects.thy ===== *)
theory Transaction_Effects
  imports Staged_Effects Transaction_Gate
begin

text \<open>
  The control item of a run, from its staging to its compensation. In every run over the control store
  the workspace shows the state from before the operation, until the operation's own activation; what a
  run last observed of the control item tells which. The invariant of the store is the contract of
  staged effects; that of the journal is that a recorded control effect names its operation.
\<close>

section \<open>Tracked workspaces\<close>

text \<open>The invariant of the contract, written out: \<open>v\<close> is the value from before the operation.\<close>

definition workspace_tracked ::
  "'x store_env \<Rightarrow> string \<Rightarrow> string \<Rightarrow> json option \<Rightarrow> (string \<times> digest) option \<Rightarrow> 'x store \<Rightarrow> bool" where
  "workspace_tracked E i ws d v st \<longleftrightarrow> workspace_sound E i ws d st
     \<and> (workspace_phase i ws st = Unstaged \<or> workspace_saved i st = v)
     \<and> (if workspace_phase i ws st = ActivePhase then workspace_value ws st = workspace_wanted i st
        else workspace_value ws st = v)"

lemma workspace_tracked: "workspace_tracked E i ws d v st = control.tracked i ws E d v st"
  by (simp add: workspace_tracked_def control.tracked_def)

lemmas tracked_step = control.tracked_step[folded workspace_tracked]

text \<open>The tables the views read.\<close>

definition control_tables where
  "control_tables st = (ct_effects st, ct_workspaces st, ct_selection_effects st)"

lemma control_tables_phase: "control_tables st' = control_tables st \<Longrightarrow> workspace_phase i ws st' = workspace_phase i ws st"
  by (simp add: control_tables_def workspace_phase_def)

lemma control_tables_tracked:
  "control_tables st' = control_tables st \<Longrightarrow> workspace_tracked E i ws d v st' = workspace_tracked E i ws d v st"
  by (simp add: control_tables_def workspace_tracked_def workspace_views workspace_sound_def)

section \<open>What a run saw last\<close>

fun control_event :: "event \<Rightarrow> bool" where
  "control_event (Observing i _) \<longleftrightarrow> i = IControl"
| "control_event (Staging i _) \<longleftrightarrow> i = IControl"
| "control_event (ActivatingItem i _) \<longleftrightarrow> i = IControl"
| "control_event (Compensation e _) \<longleftrightarrow> ef_kind e = Control"
| "control_event _ \<longleftrightarrow> False"

text \<open>The last event of the control item is what the store still holds.\<close>

definition news :: "event list \<Rightarrow> effect_phase \<Rightarrow> bool" where
  "news evs phase \<longleftrightarrow>
     (case find control_event (rev evs) of
        Some (Observing IControl (Some Missing)) \<Rightarrow> phase = Unstaged \<or> phase = Undone
      | Some (Observing IControl (Some (AppliedEffect _))) \<Rightarrow> phase = ActivePhase
      | _ \<Rightarrow> True)"

lemma news_Nil [simp]: "news [] phase"
  by (simp add: news_def)

text \<open>An event that tells nothing of the phase.\<close>

definition news_step :: "event \<Rightarrow> bool" where
  "news_step e \<longleftrightarrow> control_event e \<longrightarrow> (\<forall>i r. e \<noteq> Observing i r)"

lemma news_own: "control_event e \<Longrightarrow> (\<forall>i r. e \<noteq> Observing i r) \<Longrightarrow> news (evs @ [e]) phase"
  by (cases e) (auto simp: news_def)

lemma news_quiet: "news evs phase \<Longrightarrow> news_step e \<Longrightarrow> news (evs @ [e]) phase"
  using news_own[of e evs phase] by (cases "control_event e") (simp_all add: news_step_def news_def)

section \<open>The invariant of a run\<close>

definition own_effect :: "string \<Rightarrow> owned_effect \<Rightarrow> bool" where
  "own_effect i e \<longleftrightarrow> (ef_kind e = Control \<longrightarrow> names_operation i e)"

text \<open>What the plan asks of the workspace: a desired state, or a compute change that is not known here.\<close>

definition control_wanted :: "codecs \<Rightarrow> json option \<Rightarrow> op_plan \<Rightarrow> bool" where
  "control_wanted D d p \<longleftrightarrow>
     (case control_call_of D p of
        WorkerSelection _ \<Rightarrow> False
      | DesiredState v \<Rightarrow> d = None \<or> d = Some v
      | _ \<Rightarrow> d = None)"

definition workspace_run ::
  "'x store_env \<Rightarrow> codecs \<Rightarrow> string \<Rightarrow> string \<Rightarrow> json option \<Rightarrow> (string \<times> digest) option \<Rightarrow> ('x, 'v) control_world run \<Rightarrow> bool" where
  "workspace_run E D i ws d v s \<longleftrightarrow> oi_operation_id (rn_op s) = i \<and> oi_workspace_id (rn_op s) = ws
     \<and> control_wanted D d (op_plan_of (rn_op s)) \<and> good_op (own_effect i) (rn_op s)
     \<and> workspace_tracked E i ws d v (cw_store (rn_world s)) \<and> news (rn_trace s) (workspace_phase i ws (cw_store (rn_world s)))"

text \<open>
  The other adapters answer with effects of their own kinds, or with the effect they are given; an
  identifier is written in lower case.
\<close>

definition foreign :: "owned_effect \<Rightarrow> bool" where
  "foreign e \<longleftrightarrow> ef_kind e \<noteq> Control"

definition foreign_adapters :: "'w ports \<Rightarrow> bool" where
  "foreign_adapters B \<longleftrightarrow>
     (\<forall>o1 i w r w'. i \<noteq> IControl \<longrightarrow> p_observe B o1 i w = (Inr r, w') \<longrightarrow> reconciled foreign r)
     \<and> (\<forall>o1 i x w e w'. p_apply B o1 i x w = (Inr e, w') \<longrightarrow> foreign e)
     \<and> (\<forall>o1 i e w e' w'. i \<noteq> IControl \<longrightarrow> p_activate B o1 i e w = (Inr e', w') \<longrightarrow> e' = e \<or> foreign e')
     \<and> (\<forall>o1 e w e' w'. p_prepare_publication B o1 e w = (Inr e', w') \<longrightarrow> e' = e \<or> foreign e')
     \<and> (\<forall>o1 e w e' w'. p_prepare_rollback B o1 e w = (Inr e', w') \<longrightarrow> e' = e \<or> foreign e')"

definition canonical_id :: "string \<Rightarrow> bool" where
  "canonical_id i \<longleftrightarrow> (case operation_id_parse i of Inr j \<Rightarrow> j = i | Inl _ \<Rightarrow> True)"

section \<open>Calls\<close>

lemma workspace_runD:
  assumes "workspace_run E D i ws d v s"
  shows "oi_operation_id (rn_op s) = i" "oi_workspace_id (rn_op s) = ws" "control_wanted D d (op_plan_of (rn_op s))"
    "good_op (own_effect i) (rn_op s)" "workspace_tracked E i ws d v (cw_store (rn_world s))"
    "news (rn_trace s) (workspace_phase i ws (cw_store (rn_world s)))"
  using assms by (simp_all add: workspace_run_def)

lemma workspace_run_call:
  assumes "workspace_run E D i ws d v s" "workspace_tracked E i ws d v (cw_store w)"
    "news (rn_trace s @ [e]) (workspace_phase i ws (cw_store w))"
  shows "workspace_run E D i ws d v (s\<lparr>rn_world := w, rn_trace := rn_trace s @ [e]\<rparr>)"
  using assms by (simp add: workspace_run_def)

text \<open>A call that leaves the control tables and is no event of the control item.\<close>

lemma quiet_call:
  fixes p :: "('x, 'v) control_world \<Rightarrow> (port_error + 'r) \<times> ('x, 'v) control_world"
  assumes "\<And>w. control_tables (cw_store (snd (p w))) = control_tables (cw_store w)" "\<And>r. news_step (ev r)"
  shows "keeps (workspace_run E D i ws d v) (try_call p ev)" "keeps (workspace_run E D i ws d v) (call p ev)"
proof -
  show "keeps (workspace_run E D i ws d v) (try_call p ev)"
    unfolding keeps_def
  proof (intro allI impI)
    fix s :: "('x, 'v) control_world run"
    assume s: "workspace_run E D i ws d v s"
    show "workspace_run E D i ws d v (snd (try_call p ev s))"
      unfolding run_try_call snd_conv
      by (rule workspace_run_call[OF s])
        (use workspace_runD(5,6)[OF s] assms(2) in
          \<open>auto intro: news_quiet simp: control_tables_phase[OF assms(1)] control_tables_tracked[OF assms(1)]\<close>)
  qed
  then show "keeps (workspace_run E D i ws d v) (call p ev)"
    unfolding call_def by (intro keeps_rules)
qed

lemma on_adapters_tables [simp]: "control_tables (cw_store (snd (on_adapters f w))) = control_tables (cw_store w)"
  by (simp add: on_adapters_def control_tables_def Let_def split: prod.splits)

lemma quiet_adapter:
  assumes "\<And>r. \<not> control_event (ev r)"
  shows "keeps (workspace_run E D i ws d v) (try_call (on_adapters f) ev)"
    "keeps (workspace_run E D i ws d v) (call (on_adapters f) ev)"
  by (rule quiet_call; simp add: assms news_step_def)+

text \<open>A call of the control item is a call of the contract.\<close>

lemma control_call_run:
  fixes f :: "port_error option \<Rightarrow> ('x, 'r) store_op"
  assumes step: "\<And>fault st. snd (f fault st) = st \<or>
      (\<exists>k. workspace_call i d (fault, k) \<and> snd (f fault st) = effect_step E i ws (fault, k) st)"
    and ev: "\<And>r. control_event (ev r)" "\<And>r it q. ev r \<noteq> Observing it q"
  shows "keeps (workspace_run E D i ws d v) (call (on_store f) ev)"
  unfolding keeps_def
proof (intro allI impI)
  fix s :: "('x, 'v) control_world run"
  assume s: "workspace_run E D i ws d v s"
  obtain r w where w: "on_store f (rn_world s) = (r, w)" by force
  then obtain fault where "f fault (cw_store (rn_world s)) = (r, cw_store w)" using on_store_result by blast
  then have "cw_store w = cw_store (rn_world s) \<or>
      (\<exists>k. workspace_call i d (fault, k) \<and> cw_store w = effect_step E i ws (fault, k) (cw_store (rn_world s)))"
    using step[of fault "cw_store (rn_world s)"] by simp
  then have "workspace_tracked E i ws d v (cw_store w)"
    using workspace_runD(5)[OF s] by (auto intro: tracked_step)
  then have "workspace_run E D i ws d v (s\<lparr>rn_world := w, rn_trace := rn_trace s @ [ev r]\<rparr>)"
    by (rule workspace_run_call[OF s]) (simp add: news_own ev)
  moreover have "snd (call (on_store f) ev s) = s\<lparr>rn_world := w, rn_trace := rn_trace s @ [ev r]\<rparr>"
    using w by (cases r) (auto simp: call_def bind_tx_def run_try_call)
  ultimately show "workspace_run E D i ws d v (snd (call (on_store f) ev s))" by simp
qed

lemma run_op_gives:
  fixes f :: "operation \<Rightarrow> (('x, 'v) control_world, 'a) txm"
  assumes "\<And>o1. oi_operation_id o1 = i \<Longrightarrow> oi_workspace_id o1 = ws \<Longrightarrow> control_wanted D d (op_plan_of o1) \<Longrightarrow>
    gives (workspace_run E D i ws d v) Q (f o1)"
  shows "gives (workspace_run E D i ws d v) Q (bind_tx current_op f)"
  unfolding gives_def
proof (intro allI impI)
  fix s :: "('x, 'v) control_world run"
  assume s: "workspace_run E D i ws d v s"
  show "workspace_run E D i ws d v (snd (bind_tx current_op f s)) \<and> (\<forall>x. fst (bind_tx current_op f s) = Inr x \<longrightarrow> Q x)"
    using assms[OF workspace_runD(1-3)[OF s]] s by (simp add: gives_def)
qed

lemma gives_call:
  "keeps J (call p ev) \<Longrightarrow> (\<And>w x w'. p w = (Inr x, w') \<Longrightarrow> Q x) \<Longrightarrow> gives J Q (call p ev)"
  by (auto simp: gives_def keeps_def call_def bind_tx_def run_try_call prod_eq_iff split: sum.splits prod.splits)

lemma gives_try_call:
  "keeps J (try_call p ev) \<Longrightarrow> (\<And>w r w'. p w = (r, w') \<Longrightarrow> Q r) \<Longrightarrow> gives J Q (try_call p ev)"
  by (auto simp: gives_def keeps_def run_try_call prod_eq_iff)

section \<open>The journal\<close>

lemma control_tables_updates [simp]:
  "control_tables (st\<lparr>ct_ext := x\<rparr>) = control_tables st" "control_tables (st\<lparr>ct_claim := c\<rparr>) = control_tables st"
  "control_tables (st\<lparr>ct_rows := rs\<rparr>) = control_tables st" "control_tables (store_steps i ss st) = control_tables st"
  by (simp_all add: control_tables_def store_steps_def)

lemma journal_save_tables: "journal_save E o1 st = Inr (g, st') \<Longrightarrow> control_tables st' = control_tables st"
  by (auto simp: journal_save_def and_then_Inr split: if_splits)

lemma saves_tables:
  "control_tables (snd (save_operation E fault o1 st)) = control_tables st"
  "control_tables (snd (save_operation_tail E fault o1 st)) = control_tables st"
  "control_tables (snd (finish_operation E fault o1 st)) = control_tables st"
  unfolding save_operation_def save_operation_tail_def finish_operation_def
  by (rule transaction_keeps; auto simp: and_then_Inr dest!: journal_save_tables split: if_splits)+

lemma on_store_tables:
  assumes "\<And>fault st. control_tables (snd (f fault st)) = control_tables st"
  shows "control_tables (cw_store (snd (on_store f w))) = control_tables (cw_store w)"
proof -
  obtain r w' where w': "on_store f w = (r, w')" by force
  then obtain fault where "f fault (cw_store w) = (r, cw_store w')" using on_store_result by blast
  then show ?thesis using assms[of fault "cw_store w"] w' by simp
qed

lemma reading_tables [simp]: "cw_store (snd (reading g w)) = cw_store w"
  using reading_store by (cases "reading g w") auto

lemma finish_port_tables: "control_tables (cw_store (snd (finish_port E o1 w))) = control_tables (cw_store w)"
proof -
  obtain r w1 where w1: "on_store (\<lambda>fault. finish_operation E fault o1) w = (r, w1)" by force
  have "control_tables (cw_store w1) = control_tables (cw_store w)"
    using on_store_tables[of "\<lambda>fault. finish_operation E fault o1" w] w1 by (simp add: saves_tables)
  then show ?thesis
    using w1 by (auto simp: finish_port_def split: sum.splits prod.splits)
      (metis reading_tables snd_conv)+
qed

lemma good_op_acknowledge [simp]: "good_op good (acknowledge_commit g o1) = good_op good o1"
  by (auto simp: good_op_def acknowledge_commit_def split: option.splits)

lemma acknowledge_run [simp]:
  "oi_workspace_id (acknowledge_commit g o1) = oi_workspace_id o1" "op_plan_of (acknowledge_commit g o1) = op_plan_of o1"
  by (auto simp: acknowledge_commit_def split: option.splits)

lemma journal_run:
  fixes p :: "operation \<Rightarrow> ('x, 'v) control_world \<Rightarrow> (port_error + operation) \<times> ('x, 'v) control_world"
  assumes tables: "\<And>o1 w. control_tables (cw_store (snd (p o1 w))) = control_tables (cw_store w)"
    and ok: "\<And>o1 w o2 w'. p o1 w = (Inr o2, w') \<Longrightarrow> \<exists>g. o2 = acknowledge_commit g o1"
    and quiet: "\<And>o1 r. \<not> control_event (ev o1 r)"
  shows "keeps (workspace_run E D i ws d v) (bind_tx current_op (\<lambda>o1. bind_tx (call (p o1) (ev o1)) (\<lambda>o2. change_op (\<lambda>_. o2))))"
  unfolding keeps_def
proof (intro allI impI)
  fix s :: "('x, 'v) control_world run"
  assume s: "workspace_run E D i ws d v s"
  have call: "workspace_run E D i ws d v (snd (call (p (rn_op s)) (ev (rn_op s)) s))"
    using quiet_call(2)[of "p (rn_op s)" "ev (rn_op s)" E D i ws d v] tables quiet s unfolding keeps_def news_step_def by blast
  obtain r w where w: "p (rn_op s) (rn_world s) = (r, w)" by force
  have "workspace_run E D i ws d v (snd (bind_tx (call (p (rn_op s)) (ev (rn_op s))) (\<lambda>o2. change_op (\<lambda>_. o2)) s))"
  proof (cases r)
    case (Inl e)
    then show ?thesis using call w by (auto simp: call_def bind_tx_def run_try_call)
  next
    case (Inr o2)
    then obtain g where g: "o2 = acknowledge_commit g (rn_op s)" using ok w by blast
    show ?thesis using call w Inr by (auto simp: call_def bind_tx_def run_try_call workspace_run_def g)
  qed
  then show "workspace_run E D i ws d v (snd (bind_tx current_op (\<lambda>o1. bind_tx (call (p o1) (ev o1)) (\<lambda>o2. change_op (\<lambda>_. o2))) s))"
    by simp
qed

lemma saves_run:
  "keeps (workspace_run E D i ws d v) (save_op (control_ports E B))"
  "keeps (workspace_run E D i ws d v) (save_tail (control_ports E B))"
  "keeps (workspace_run E D i ws d v) (finish_op (control_ports E B))"
  unfolding save_op_def save_tail_def finish_op_def control_ports_def
  by (simp_all, (rule journal_run; auto simp: on_store_tables saves_tables finish_port_tables
      save_operation_ok save_tail_ok finish_operation_ok dest!: on_store_ok finish_port_ok)+)

section \<open>The answers for the control item\<close>

lemma names_own:
  "canonical_id i \<Longrightarrow> names_operation i (control_effect i ws before after gen)"
  "canonical_id i \<Longrightarrow> names_operation i (selection_effect E i ws h b a gen)"
  by (simp_all add: names_operation_def canonical_id_def control_effect_def selection_effect_def compensation_json_def)

lemma observe_own: "canonical_id i \<Longrightarrow> observe_control E i ws st = Inr r \<Longrightarrow> reconciled (own_effect i) r"
  by (auto simp: observe_control_def observe_selection_def and_then_Inr Let_def own_effect_def names_own
      split: option.splits if_splits)

lemma existing_own: "reconciled (own_effect i) r \<Longrightarrow> existing_effect a b r = Inr e \<Longrightarrow> own_effect i e"
  by (cases r) (auto simp: existing_effect_def)

lemma transaction_answer:
  "in_transaction fault body st = (Inr x, st') \<Longrightarrow> (\<And>st'. body st = Inr (x, st') \<Longrightarrow> Q x) \<Longrightarrow> Q x"
  by (auto simp: in_transaction_ok)

lemma apply_own:
  assumes "canonical_id (oi_operation_id o1)" "control_wanted D d (op_plan_of o1)"
    and "apply_control_call E o1 (control_call_of D (op_plan_of o1)) fault st = (Inr e, st')"
  shows "own_effect (oi_operation_id o1) e"
proof -
  let ?i = "oi_operation_id o1" and ?ws = "oi_workspace_id o1"
  have own: "own_effect ?i (staged_effect_of ?i ?ws st1 after gen)" for st1 :: "'a store" and after gen
    by (simp add: own_effect_def staged_effect_of_def names_own assms(1))
  have compute: "own_effect ?i e" if "in_transaction fault (stage_compute E ctx ?i ?ws n stage put) st = (Inr e, st')" for ctx n stage put
    using that
    by (auto simp: in_transaction_ok stage_compute_def and_then_Inr own split: if_splits
        dest!: observe_own[OF assms(1)] existing_own)
  show ?thesis
  proof (cases "control_call_of D (op_plan_of o1)")
    case (DesiredState v)
    then show ?thesis using assms(3)
      by (auto simp: apply_control_call_def Let_def apply_control_state_def in_transaction_ok and_then_Inr own split: if_splits
          dest!: observe_own[OF assms(1)] existing_own)
  qed (use assms(2,3) compute in \<open>auto simp: control_wanted_def apply_control_call_def Let_def apply_credential_pool_def apply_compute_source_def\<close>)
qed

lemma activate_answer: "activate_control E fault e st = (Inr e', st') \<Longrightarrow> e' = e"
  by (auto simp: activate_control_def in_transaction_ok and_then_Inr activate_selection_def activate_workspace_def
      split: option.splits if_splits)

text \<open>An effect of another kind is refused.\<close>

lemma foreign_refused:
  assumes "ef_kind e \<noteq> Control"
  shows "snd (activate_control E fault e st) = st"
  using assms transaction_cases[of fault _ st]
  by (auto simp: activate_control_def worker_effect_operation_def in_transaction_def perr_def option_err_def
      split: option.splits sum.splits)

section \<open>The laws of the run\<close>

lemma reconciled_foreign: "reconciled foreign r \<Longrightarrow> reconciled (own_effect i) r"
  by (cases r) (auto simp: own_effect_def foreign_def)

lemma foreign_own:
  assumes "foreign_adapters B"
  shows "it \<noteq> IControl \<Longrightarrow> p_observe B o1 it a = (Inr r, b) \<Longrightarrow> reconciled (own_effect i) r"
    "p_apply B o1 it x a = (Inr e, b) \<Longrightarrow> own_effect i e"
    "it \<noteq> IControl \<Longrightarrow> own_effect i e' \<Longrightarrow> p_activate B o1 it e' a = (Inr e, b) \<Longrightarrow> own_effect i e"
    "own_effect i e' \<Longrightarrow> p_prepare_publication B o1 e' a = (Inr e, b) \<Longrightarrow> own_effect i e"
    "own_effect i e' \<Longrightarrow> p_prepare_rollback B o1 e' a = (Inr e, b) \<Longrightarrow> own_effect i e"
proof -
  have own: "foreign e \<Longrightarrow> own_effect i e" for e by (simp add: foreign_def own_effect_def)
  note f = assms[unfolded foreign_adapters_def]
  show "it \<noteq> IControl \<Longrightarrow> p_observe B o1 it a = (Inr r, b) \<Longrightarrow> reconciled (own_effect i) r"
    using f reconciled_foreign by metis
  show "p_apply B o1 it x a = (Inr e, b) \<Longrightarrow> own_effect i e" using f own by metis
  show "it \<noteq> IControl \<Longrightarrow> own_effect i e' \<Longrightarrow> p_activate B o1 it e' a = (Inr e, b) \<Longrightarrow> own_effect i e"
    using f own by metis
  show "own_effect i e' \<Longrightarrow> p_prepare_publication B o1 e' a = (Inr e, b) \<Longrightarrow> own_effect i e" using f own by metis
  show "own_effect i e' \<Longrightarrow> p_prepare_rollback B o1 e' a = (Inr e, b) \<Longrightarrow> own_effect i e" using f own by metis
qed

lemma on_adapters_answer: "on_adapters f w = (r, w') \<Longrightarrow> \<exists>a b. f a = (r, b)"
  by (auto simp: on_adapters_def Let_def split: prod.splits)

lemma gives_adapter:
  "(\<And>r. \<not> control_event (ev r)) \<Longrightarrow> (\<And>a x b. f a = (Inr x, b) \<Longrightarrow> Q x) \<Longrightarrow>
     gives (workspace_run E D i ws d v) Q (call (on_adapters f) ev)"
  "(\<And>r. \<not> control_event (ev r)) \<Longrightarrow> (\<And>a x b. f a = (x, b) \<Longrightarrow> R x) \<Longrightarrow>
     gives (workspace_run E D i ws d v) R (try_call (on_adapters f) ev)"
proof -
  show "gives (workspace_run E D i ws d v) Q (call (on_adapters f) ev)"
    if "\<And>r. \<not> control_event (ev r)" "\<And>a x b. f a = (Inr x, b) \<Longrightarrow> Q x"
    using that quiet_adapter(2)[of ev] by (intro gives_call) (auto dest!: on_adapters_answer)
  show "gives (workspace_run E D i ws d v) R (try_call (on_adapters f) ev)"
    if "\<And>r. \<not> control_event (ev r)" "\<And>a x b. f a = (x, b) \<Longrightarrow> R x"
    using that quiet_adapter(1)[of ev] by (intro gives_try_call) (auto dest!: on_adapters_answer)
qed

lemma observe_run:
  fixes E :: "'x store_env" and B :: "('x \<times> 'v) ports"
  assumes "canonical_id i" "foreign_adapters B"
  shows "gives (workspace_run E D i ws d v) (reconciled (own_effect i)) (observe (control_ports E B) it)"
  unfolding observe_def
proof (rule run_op_gives)
  fix o1 :: operation
  assume o1: "oi_operation_id o1 = i" "oi_workspace_id o1 = ws"
  let ?ev = "\<lambda>r. Observing it (case r of Inl _ \<Rightarrow> None | Inr x \<Rightarrow> Some x)"
  show "gives (workspace_run E D i ws d v) (reconciled (own_effect i)) (call (p_observe (control_ports E B) o1 it) ?ev)"
  proof (cases "it = IControl")
    case False
    then show ?thesis
      using gives_adapter(1)[of ?ev "p_observe B o1 it" "reconciled (own_effect i)" E D i ws d v] foreign_own(1)[OF assms(2) False]
      by (simp add: control_ports_def observe_port_def)
  next
    case True
    have keep: "keeps (workspace_run E D i ws d v :: ('x, 'v) control_world run \<Rightarrow> bool) (call (reading (observe_control E i ws)) ?ev)"
      unfolding keeps_def
    proof (intro allI impI)
      fix s :: "('x, 'v) control_world run"
      assume s: "workspace_run E D i ws d v s"
      let ?st = "cw_store (rn_world s)"
      obtain r w where w: "reading (observe_control E i ws) (rn_world s) = (r, w)" by force
      have st: "cw_store w = ?st" using reading_tables w by (metis snd_conv)
      have sound: "workspace_sound E i ws d ?st" using workspace_runD(5)[OF s] by (simp add: workspace_tracked_def)
      have r: "r = observe_control E i ws ?st \<or> (\<exists>e. r = Inl e)"
        using w by (auto simp: reading_def on_store_def next_fault_def Let_def split: prod.splits list.splits option.splits)
      have "news (rn_trace s @ [?ev r]) (workspace_phase i ws ?st)"
        using r workspace_observed[of ?st i E ws] sound True
        by (auto simp: news_def workspace_sound_def split: sum.splits reconciliation.splits)
      then have "workspace_run E D i ws d v (s\<lparr>rn_world := w, rn_trace := rn_trace s @ [?ev r]\<rparr>)"
        using workspace_run_call[OF s, of w] workspace_runD(5)[OF s] by (simp add: st)
      moreover have "snd (call (reading (observe_control E i ws)) ?ev s) = s\<lparr>rn_world := w, rn_trace := rn_trace s @ [?ev r]\<rparr>"
        using w by (cases r) (auto simp: call_def bind_tx_def run_try_call)
      ultimately show "workspace_run E D i ws d v (snd (call (reading (observe_control E i ws)) ?ev s))" by simp
    qed
    have "reconciled (own_effect i) x" if "reading (observe_control E i ws) w = (Inr x, w')" for w w' :: "('x, 'v) control_world" and x
      using reading_store[OF that] observe_own[OF assms(1)] by blast
    from gives_call[OF keep this] show ?thesis using True o1 by (simp add: control_ports_def observe_port_def)
  qed
qed

lemma apply_item_run:
  assumes "foreign_adapters B"
  shows "gives (workspace_run E D i ws d v) (own_effect i) (apply_item (control_ports E B) it x)"
  unfolding apply_item_def control_ports_def
proof (simp, rule run_op_gives)
  fix o1 :: operation
  have "keeps (workspace_run E D i ws d v) (call (on_adapters (p_apply B o1 it x)) (\<lambda>r. Staging it (is_ok r)))"
    by (rule quiet_call(2)) (auto simp: news_step_def)
  then show "gives (workspace_run E D i ws d v) (own_effect i) (call (on_adapters (p_apply B o1 it x)) (\<lambda>r. Staging it (is_ok r)))"
    by (rule gives_call) (auto dest!: on_adapters_answer foreign_own(2)[OF assms])
qed

lemma apply_control_run:
  fixes E :: "'x store_env" and B :: "('x \<times> 'v) ports"
  assumes "canonical_id i"
  shows "gives (workspace_run E D i ws d v) (own_effect i) (apply_control (control_ports E B) D)"
  unfolding apply_control_def
proof (rule run_op_gives)
  fix o1 :: operation
  assume o1: "oi_operation_id o1 = i" "oi_workspace_id o1 = ws" "control_wanted D d (op_plan_of o1)"
  let ?f = "apply_control_call E o1 (control_call_of D (op_plan_of o1))"
  have "\<exists>k. workspace_call i d (fault, k) \<and> snd (?f fault st) = effect_step E i ws (fault, k) st" for fault and st :: "'x store"
  proof (cases "control_call_of D (op_plan_of o1)")
    case (DesiredState u)
    then show ?thesis using o1
      by (intro exI[of _ "StageState (rv_target (oi_expected_revisions o1)) u"])
        (auto simp: apply_control_call_def effect_step_def Let_def workspace_call_def own_call_def control_wanted_def)
  next
    case (CredentialPool u)
    then show ?thesis using o1
      by (intro exI[of _ "StagePool (rv_target (oi_expected_revisions o1)) u"])
        (auto simp: apply_control_call_def effect_step_def Let_def workspace_call_def own_call_def control_wanted_def)
  next
    case (ComputeSource u)
    then show ?thesis using o1
      by (intro exI[of _ "StageSource (rv_target (oi_expected_revisions o1)) u"])
        (auto simp: apply_control_call_def effect_step_def Let_def workspace_call_def own_call_def control_wanted_def)
  qed (use o1 in \<open>simp add: control_wanted_def\<close>)
  then have keep: "keeps (workspace_run E D i ws d v) (call (on_store ?f) (\<lambda>r. Staging IControl (is_ok r)))"
    by (intro control_call_run) auto
  have "own_effect i x" if "on_store ?f w = (Inr x, w')" for w w' :: "('x, 'v) control_world" and x
    using on_store_ok[OF that] apply_own[of o1 D d E] o1 assms by blast
  from gives_call[OF keep this] show "gives (workspace_run E D i ws d v) (own_effect i)
      (call (p_apply_control (control_ports E B) o1 (control_call_of D (op_plan_of o1))) (\<lambda>r. Staging IControl (is_ok r)))"
    by (simp add: control_ports_def)
qed

lemma activate_item_run:
  fixes E :: "'x store_env" and B :: "('x \<times> 'v) ports"
  assumes "foreign_adapters B" "own_effect i e"
  shows "gives (workspace_run E D i ws d v) (own_effect i) (activate_item (control_ports E B) it e)"
  unfolding activate_item_def
proof (rule run_op_gives)
  fix o1 :: operation
  show "gives (workspace_run E D i ws d v) (own_effect i)
      (call (p_activate (control_ports E B) o1 it e) (\<lambda>r. ActivatingItem it (is_ok r)))"
  proof (cases "it = IControl")
    case False
    then show ?thesis
      using gives_adapter(1)[of "\<lambda>r. ActivatingItem it (is_ok r)" "p_activate B o1 it e" "own_effect i"] foreign_own(3)[OF assms(1) False assms(2)]
      by (simp add: control_ports_def activate_port_def)
  next
    case True
    have "snd (activate_control E fault e st) = st \<or>
      (\<exists>k. workspace_call i d (fault, k) \<and> snd (activate_control E fault e st) = effect_step E i ws (fault, k) st)" for fault and st :: "'x store"
    proof (cases "ef_kind e = Control")
      case True
      then have "workspace_call i d (fault, ActivateEffect e)"
        using assms(2) by (simp add: workspace_call_def own_call_def own_effect_def)
      then show ?thesis by (intro disjI2 exI[of _ "ActivateEffect e"]) (simp add: effect_step_def)
    qed (simp add: foreign_refused)
    then have keep: "keeps (workspace_run E D i ws d v) (call (on_store (\<lambda>fault. activate_control E fault e)) (\<lambda>r. ActivatingItem it (is_ok r)))"
      using True by (intro control_call_run) auto
    have "own_effect i x" if "on_store (\<lambda>fault. activate_control E fault e) w = (Inr x, w')" for w w' :: "('x, 'v) control_world" and x
      using on_store_ok[OF that] activate_answer assms(2) by blast
    from gives_call[OF keep this] show ?thesis using True by (simp add: control_ports_def activate_port_def)
  qed
qed

lemma compensate_run:
  assumes "own_effect i e"
  shows "keeps (workspace_run E D i ws d v)
    (call (p_compensate (control_ports E B) o1 e) (\<lambda>r. Compensation e (case r of Inl _ \<Rightarrow> None | Inr x \<Rightarrow> Some x)))"
proof (cases "ef_kind e = Control")
  case True
  then have "workspace_call i d (fault, CompensateEffect e)" for fault
    using assms by (simp add: workspace_call_def own_call_def own_effect_def)
  then have "keeps (workspace_run E D i ws d v)
      (call (on_store (\<lambda>fault. compensate_control E fault e)) (\<lambda>r. Compensation e (case r of Inl _ \<Rightarrow> None | Inr x \<Rightarrow> Some x)))"
    using True by (intro control_call_run disjI2 exI[of _ "CompensateEffect e"]) (auto simp: effect_step_def)
  then show ?thesis using True by (simp add: control_ports_def compensate_port_def)
next
  case False
  then show ?thesis by (simp add: control_ports_def compensate_port_def quiet_adapter)
qed

lemma update_first_all:
  "list_all Q xs \<Longrightarrow> (\<And>x. Q x \<Longrightarrow> Q (f x)) \<Longrightarrow> list_all Q (update_first p f xs)"
  by (induction xs) auto

lemma change_run:
  "(\<And>st. good_step (own_effect i) st \<Longrightarrow> good_step (own_effect i) (f st)) \<Longrightarrow> keeps (workspace_run E D i ws d v) (change_step k f)"
  "keeps (workspace_run E D i ws d v) (set_code c)" "keeps (workspace_run E D i ws d v) (transition_to t)"
  "keeps (workspace_run E D i ws d v) close_writes"
  by (auto simp: keeps_def workspace_run_def change_step_def set_code_def transition_to_def from_op_result_def op_transition_def
        bind_tx_def step_mut_def good_op_def intro!: update_first_all split: sum.splits if_splits)

lemma input_run: "keeps (workspace_run E D i ws d v) (read_matching (control_ports E B) slot fp)"
  unfolding read_matching_def read_input_def control_ports_def
  by (simp_all, (intro keeps_rules quiet_adapter; simp)+)

section \<open>Runs\<close>

text \<open>What the runs of the operation rest on, and the invariant.\<close>

definition workspace_runs ::
  "'x store_env \<Rightarrow> ('x \<times> 'v) ports \<Rightarrow> codecs \<Rightarrow> string \<Rightarrow> string \<Rightarrow> json option \<Rightarrow> (string \<times> digest) option
   \<Rightarrow> ('x, 'v) control_world run \<Rightarrow> bool" where
  "workspace_runs E B D i ws d v s \<longleftrightarrow> (canonical_id i \<and> foreign_adapters B) \<and> workspace_run E D i ws d v s"

lemma runs_keep:
  "(canonical_id i \<Longrightarrow> foreign_adapters B \<Longrightarrow> keeps (workspace_run E D i ws d v) m) \<Longrightarrow> keeps (workspace_runs E B D i ws d v) m"
  by (auto simp: keeps_def workspace_runs_def)

lemma runs_give:
  "(canonical_id i \<Longrightarrow> foreign_adapters B \<Longrightarrow> gives (workspace_run E D i ws d v) Q m) \<Longrightarrow> gives (workspace_runs E B D i ws d v) Q m"
  by (auto simp: gives_def workspace_runs_def)

interpretation tracked_run: effect_activation "control_ports E B" D "workspace_runs E B D i ws d v" "own_effect i"
  for E B D i ws d v
proof
  fix s k f c t it x slot fp o1 e n
  show "workspace_runs E B D i ws d v s \<Longrightarrow> good_op (own_effect i) (rn_op s)"
    by (simp add: workspace_runs_def workspace_run_def)
  show "keeps (workspace_runs E B D i ws d v) (save_op (control_ports E B))"
    "keeps (workspace_runs E B D i ws d v) (save_tail (control_ports E B))"
    "keeps (workspace_runs E B D i ws d v) (finish_op (control_ports E B))"
    "keeps (workspace_runs E B D i ws d v) close_writes" "keeps (workspace_runs E B D i ws d v) (set_code c)"
    "keeps (workspace_runs E B D i ws d v) (transition_to t)"
    "keeps (workspace_runs E B D i ws d v) (read_matching (control_ports E B) slot fp)"
    by (rule runs_keep, rule saves_run change_run input_run)+
  show "(\<And>st. good_step (own_effect i) st \<Longrightarrow> good_step (own_effect i) (f st)) \<Longrightarrow>
    keeps (workspace_runs E B D i ws d v) (change_step k f)"
    by (rule runs_keep, rule change_run(1))
  show "gives (workspace_runs E B D i ws d v) (reconciled (own_effect i)) (observe (control_ports E B) it)"
    by (rule runs_give, rule observe_run)
  show "gives (workspace_runs E B D i ws d v) (own_effect i) (apply_item (control_ports E B) it x)"
    by (rule runs_give, rule apply_item_run)
  show "gives (workspace_runs E B D i ws d v) (own_effect i) (apply_control (control_ports E B) D)"
    by (rule runs_give, rule apply_control_run)
  show "keeps (workspace_runs E B D i ws d v) (try_call (p_install_snapshot (control_ports E B) o1) (\<lambda>r. SnapshotInstalled (is_ok r)))"
    "keeps (workspace_runs E B D i ws d v) (call (p_finish_activation (control_ports E B) o1) (\<lambda>r. GateOpened (is_ok r)))"
    "keeps (workspace_runs E B D i ws d v) (call (p_begin_activation (control_ports E B) o1) (\<lambda>r. GateClosed (is_ok r)))"
    "keeps (workspace_runs E B D i ws d v) (call (p_prepare_artifact (control_ports E B) o1 n) (\<lambda>r. ArtifactPrepared n (is_ok r)))"
    unfolding adapter_ports by (rule runs_keep, rule quiet_adapter, simp)+
  assume e: "own_effect i e"
  show "keeps (workspace_runs E B D i ws d v)
    (call (p_compensate (control_ports E B) o1 e) (\<lambda>r. Compensation e (case r of Inl _ \<Rightarrow> None | Inr x \<Rightarrow> Some x)))"
    by (rule runs_keep, rule compensate_run[OF e])
  show "gives (workspace_runs E B D i ws d v) (own_effect i) (activate_item (control_ports E B) it e)"
    by (rule runs_give, rule activate_item_run[OF _ e])
  show "gives (workspace_runs E B D i ws d v) (own_effect i)
    (call (p_prepare_publication (control_ports E B) o1 e) (\<lambda>r. PublicationPrepared e (is_ok r)))"
    unfolding adapter_ports by (rule runs_give, rule gives_adapter(1)) (simp_all add: foreign_own(4)[OF _ e])
  show "gives (workspace_runs E B D i ws d v) (\<lambda>r. case r of Inl _ \<Rightarrow> True | Inr ck \<Rightarrow> own_effect i ck)
    (try_call (p_prepare_rollback (control_ports E B) o1 e) (\<lambda>r. AbortPrepared e (is_ok r)))"
    unfolding adapter_ports
    by (rule runs_give, rule gives_adapter(2)) (auto simp: foreign_own(5)[OF _ e] split: sum.splits)
qed

section \<open>Ends\<close>

lemma last_control: "control_event e \<Longrightarrow> \<forall>x\<in>set ys. \<not> control_event x \<Longrightarrow> find control_event (rev (xs @ e # ys)) = Some e"
  by (induction ys arbitrary: xs rule: rev_induct) auto

lemma closing_quiet: "closing_event e \<Longrightarrow> \<not> control_event e"
  by (cases e) auto

lemma observed_quiet:
  assumes "list_all2 R is obs" "\<And>i e. R i e \<Longrightarrow> i \<noteq> IControl \<Longrightarrow> \<not> control_event e" "IControl \<notin> set is"
  shows "\<forall>x\<in>set obs. \<not> control_event x"
  using assms(1,3) by (induction rule: list_all2_induct) (auto simp: assms(2))

lemma observed_items:
  "observed_missing i e \<Longrightarrow> i \<noteq> IControl \<Longrightarrow> \<not> control_event e"
  "observed_applied i e \<Longrightarrow> i \<noteq> IControl \<Longrightarrow> \<not> control_event e"
  by (auto simp: observed_missing_def observed_applied_def)

lemma list_all2_middle:
  assumes "list_all2 R (as @ x # bs) obs"
  obtains os1 y os2 where "obs = os1 @ y # os2" "R x y" "list_all2 R bs os2"
  using assms by (auto simp: list_all2_append1 list_all2_Cons1)

text \<open>The proof of a rollback and of a success ends with the observation of the control item.\<close>

lemma rollback_last:
  assumes "rollback_proved o1 evs"
  shows "find control_event (rev evs) = Some (Observing IControl (Some Missing))"
proof -
  obtain pre undo obs post where e: "evs = pre @ undo @ obs @ post"
      "list_all2 observed_missing (rollback_items (op_plan_of o1)) obs" "list_all closing_event post"
    using assms unfolding rollback_proved_def by blast
  let ?p = "op_plan_of o1"
  let ?before = "map ISecret (tp_secrets ?p) @ map IGrant (tp_grants ?p)"
  let ?after = "map IExternal (filter (\<lambda>i. ei_kind i \<noteq> LoginItem) (tp_external ?p)) @ map IRuntime (tp_runtime ?p)"
  have "list_all2 observed_missing (?before @ IControl # ?after) obs" using e(2) by (simp add: rollback_items_def)
  then obtain os1 y os2 where o: "obs = os1 @ y # os2" "observed_missing IControl y" "list_all2 observed_missing ?after os2"
    by (rule list_all2_middle)
  have "\<forall>x\<in>set os2. \<not> control_event x"
    by (rule observed_quiet[OF o(3)]) (auto simp: observed_items(1))
  then have "\<forall>x\<in>set (os2 @ post). \<not> control_event x" using e(3) closing_quiet by (auto simp: list_all_iff)
  from last_control[OF _ this, of y "pre @ undo @ os1"] show ?thesis
    using o(2) by (simp add: e(1) o(1) observed_missing_def)
qed

lemma success_last:
  assumes "success_proved o1 evs"
  shows "\<exists>e. find control_event (rev evs) = Some (Observing IControl (Some (AppliedEffect e)))"
proof -
  obtain pre obs post where e: "evs = pre @ obs @ post"
      "list_all2 observed_applied (success_items (op_plan_of o1)) obs" "list_all closing_event post"
    using assms unfolding success_proved_def by blast
  let ?p = "op_plan_of o1"
  let ?before = "map ISecret (tp_secrets ?p) @ map IGrant (tp_grants ?p)"
  let ?after = "map IExternal (tp_external ?p) @ map IRuntime (tp_runtime ?p)"
  have "list_all2 observed_applied (?before @ IControl # ?after) obs" using e(2) by (simp add: success_items_def)
  then obtain os1 y os2 where o: "obs = os1 @ y # os2" "observed_applied IControl y" "list_all2 observed_applied ?after os2"
    by (rule list_all2_middle)
  have "\<forall>x\<in>set os2. \<not> control_event x"
    by (rule observed_quiet[OF o(3)]) (auto simp: observed_items(2))
  then have "\<forall>x\<in>set (os2 @ post). \<not> control_event x" using e(3) closing_quiet by (auto simp: list_all_iff)
  from last_control[OF _ this, of y "pre @ os1"] show ?thesis
    using o(2) by (auto simp: e(1) o(1) observed_applied_def)
qed

lemma run_tracked:
  assumes "workspace_runs E B D i ws d v s" "\<not> retry \<or> settings_service_receipt D (rn_op s) = None"
    and run: "run_operation_locked (control_ports E B) D retry s = (r, t)"
  shows "workspace_runs E B D i ws d v t"
  using tracked_run.keeps_run[OF assms(2,1)] run by (metis snd_conv)

lemma tracked_restored:
  assumes "workspace_runs E B D i ws d v t" "rollback_proved o1 (rn_trace t)"
  shows "workspace_value ws (cw_store (rn_world t)) = v"
proof -
  let ?st = "cw_store (rn_world t)"
  have "workspace_tracked E i ws d v ?st" "news (rn_trace t) (workspace_phase i ws ?st)"
    using assms(1) by (auto simp: workspace_runs_def workspace_run_def)
  then show ?thesis using rollback_last[OF assms(2)] by (auto simp: news_def workspace_tracked_def)
qed

lemma tracked_desired:
  assumes "workspace_runs E B D i ws (Some u) v t" "success_proved o1 (rn_trace t)"
  shows "\<exists>j g. se_stage_encode E u = Some j \<and> se_digest E u = Some g \<and> workspace_value ws (cw_store (rn_world t)) = Some (j, g)"
proof -
  let ?st = "cw_store (rn_world t)"
  have st: "workspace_tracked E i ws (Some u) v ?st" "news (rn_trace t) (workspace_phase i ws ?st)"
    using assms(1) by (auto simp: workspace_runs_def workspace_run_def)
  then have active: "workspace_phase i ws ?st = ActivePhase" using success_last[OF assms(2)] by (auto simp: news_def)
  then obtain r where r: "ct_effects ?st i = Some r" "ce_workspace r = ws"
    by (auto simp: workspace_phase_def split: option.splits if_splits)
  then have "staged_for E (Some u) r" using st(1) by (simp add: workspace_tracked_def workspace_sound_def)
  moreover have "workspace_value ws ?st = workspace_wanted i ?st" using st(1) active by (simp add: workspace_tracked_def)
  ultimately show ?thesis using r by (auto simp: workspace_wanted_def staged_for_def)
qed

end
