(* ===== verification/Staged_Selections.thy ===== *)
theory Staged_Selections
  imports Staged_Effects
begin

text \<open>
  The dependency selection of a worker harness under the contract of a staged effect: the row of the
  harness, its revision and owner included, is what was there before until the activation, and is it
  again after the compensation. A stored selection is canonical, so restoring decodes to itself.
\<close>

section \<open>Views\<close>

definition selection_phase :: "string \<Rightarrow> string \<Rightarrow> string \<Rightarrow> 'x store \<Rightarrow> effect_phase" where
  "selection_phase i ws h st =
    (case ct_selection_effects st i of
       None \<Rightarrow> Unstaged
     | Some r \<Rightarrow>
         if sx_workspace r \<noteq> ws \<or> sx_harness r \<noteq> h then Unstaged else if sx_compensated r then Undone
         else if sx_activated r then ActivePhase else StagedPhase)"

definition selection_value :: "string \<Rightarrow> string \<Rightarrow> 'x store \<Rightarrow> selection_row option" where
  "selection_value ws h st = ct_selections st (ws, h)"

definition saved_row :: "selection_effect_row \<Rightarrow> selection_row option" where
  "saved_row r =
    (case (sx_before_json r, sx_before_owner r) of
       (Some j, Some owner) \<Rightarrow> Some \<lparr>sr_revision = sx_before_revision r, sr_json = j, sr_owner = owner\<rparr>
     | _ \<Rightarrow> None)"

definition selection_saved :: "string \<Rightarrow> 'x store \<Rightarrow> selection_row option" where
  "selection_saved i st = Option.bind (ct_selection_effects st i) saved_row"

lemma saved_row_updates [simp]:
  "saved_row (r\<lparr>sx_activated := a\<rparr>) = saved_row r" "saved_row (r\<lparr>sx_compensated := a\<rparr>) = saved_row r"
  by (auto simp: saved_row_def split: option.splits)

definition selection_wanted :: "string \<Rightarrow> 'x store \<Rightarrow> selection_row option" where
  "selection_wanted i st =
    map_option (\<lambda>r. \<lparr>sr_revision = sx_after_revision r, sr_json = sx_after_json r, sr_owner = i\<rparr>)
      (ct_selection_effects st i)"

lemmas selection_views = selection_phase_def selection_value_def selection_saved_def selection_wanted_def

definition canonical_selection :: "'x store_env \<Rightarrow> string \<Rightarrow> string \<Rightarrow> bool" where
  "canonical_selection E h j \<longleftrightarrow> (case se_selection_decode E j h of Inr k \<Rightarrow> k = j | Inl _ \<Rightarrow> True)"

definition selection_indexed :: "selection_effect_row \<Rightarrow> 'x store \<Rightarrow> bool" where
  "selection_indexed r st \<longleftrightarrow> sx_after_revision r = sx_before_revision r + 1
     \<and> ct_selection_index st (sx_workspace r, sx_harness r, sx_after_revision r)"

lemma selection_indexed_updates [simp]:
  "selection_indexed (r\<lparr>sx_activated := a\<rparr>) st = selection_indexed r st"
  "selection_indexed (r\<lparr>sx_compensated := a\<rparr>) st = selection_indexed r st"
  "selection_indexed r (st\<lparr>ct_selection_effects := f\<rparr>) = selection_indexed r st"
  "selection_indexed r (st\<lparr>ct_selections := g\<rparr>) = selection_indexed r st"
  by (simp_all add: selection_indexed_def)

definition selection_sound :: "'x store_env \<Rightarrow> string \<Rightarrow> string \<Rightarrow> string \<Rightarrow> 'x store \<Rightarrow> bool" where
  "selection_sound E i ws h st \<longleftrightarrow> ct_effects st i = None
     \<and> (case ct_selections st (ws, h) of None \<Rightarrow> True | Some c \<Rightarrow> canonical_selection E h (sr_json c))
     \<and> (case ct_selection_effects st i of
          None \<Rightarrow> True
        | Some r \<Rightarrow> sx_workspace r = ws \<and> sx_harness r = h \<and> selection_indexed r st
            \<and> (case sx_before_json r of
                 None \<Rightarrow> sx_before_revision r = 0 | Some j \<Rightarrow> canonical_selection E h j \<and> sx_before_owner r \<noteq> None))"

definition selection_call :: "string \<Rightarrow> string \<Rightarrow> port_error option \<times> effect_call \<Rightarrow> bool" where
  "selection_call i h c \<longleftrightarrow> own_call i c
     \<and> (case snd c of
          StageSelection v \<Rightarrow> selection_harness v = h
        | ActivateEffect _ \<Rightarrow> True
        | CompensateEffect _ \<Rightarrow> True
        | _ \<Rightarrow> False)"

section \<open>The calls\<close>

text \<open>What each call leaves, when it leaves something else.\<close>

definition selection_staged :: "string \<Rightarrow> string \<Rightarrow> string \<Rightarrow> 'x store \<Rightarrow> 'x store \<Rightarrow> bool" where
  "selection_staged i ws h st st' \<longleftrightarrow> (\<exists>r. ct_selection_effects st i = None \<and> sx_workspace r = ws \<and> sx_harness r = h
     \<and> \<not> sx_activated r \<and> \<not> sx_compensated r \<and> sx_before_revision r = selection_revision ws h st
     \<and> sx_before_json r = map_option sr_json (ct_selections st (ws, h))
     \<and> sx_before_owner r = map_option sr_owner (ct_selections st (ws, h))
     \<and> sx_after_revision r = sx_before_revision r + 1
     \<and> st' = st\<lparr>ct_selection_effects := (ct_selection_effects st)(i \<mapsto> r),
         ct_selection_index := (ct_selection_index st)((ws, h, sx_after_revision r) := True)\<rparr>)"

definition selection_activated :: "'x store_env \<Rightarrow> string \<Rightarrow> 'x store \<Rightarrow> 'x store \<Rightarrow> bool" where
  "selection_activated E i st st' \<longleftrightarrow> (\<exists>r. ct_selection_effects st i = Some r \<and> \<not> sx_compensated r \<and> \<not> sx_activated r
     \<and> se_selection_decode E (sx_after_json r) (sx_harness r) = Inr (sx_after_json r)
     \<and> st' = st\<lparr>ct_selections := (ct_selections st)((sx_workspace r, sx_harness r) \<mapsto>
           \<lparr>sr_revision = sx_after_revision r, sr_json = sx_after_json r, sr_owner = i\<rparr>),
         ct_selection_effects := (ct_selection_effects st)(i \<mapsto> r\<lparr>sx_activated := True\<rparr>)\<rparr>)"

definition restored_selection :: "'x store_env \<Rightarrow> selection_effect_row \<Rightarrow> selection_row option \<Rightarrow> bool" where
  "restored_selection E r row \<longleftrightarrow>
     (case sx_before_json r of
        None \<Rightarrow> row = None
      | Some j \<Rightarrow> (\<exists>k owner. se_selection_decode E j (sx_harness r) = Inr k \<and> sx_before_owner r = Some owner
          \<and> row = Some \<lparr>sr_revision = sx_before_revision r, sr_json = k, sr_owner = owner\<rparr>))"

definition selection_undone :: "'x store_env \<Rightarrow> string \<Rightarrow> 'x store \<Rightarrow> 'x store \<Rightarrow> bool" where
  "selection_undone E i st st' \<longleftrightarrow> (\<exists>r. ct_selection_effects st i = Some r \<and> \<not> sx_compensated r
     \<and> (\<not> sx_activated r
         \<and> st' = st\<lparr>ct_selection_effects := (ct_selection_effects st)(i \<mapsto> r\<lparr>sx_compensated := True\<rparr>)\<rparr>
       \<or> sx_activated r \<and> (\<exists>row. restored_selection E r row
         \<and> st' = st\<lparr>ct_selections := (ct_selections st)((sx_workspace r, sx_harness r) := row),
             ct_selection_effects := (ct_selection_effects st)(i \<mapsto> r\<lparr>sx_compensated := True\<rparr>)\<rparr>)))"

lemma parse_harness_Inr: "parse_harness h = Inr k \<longleftrightarrow> harness_ok h \<and> k = h"
  by (auto simp: parse_harness_def)

lemma selection_stagedI:
  assumes "ct_selection_effects st i = None" "sx_workspace r = ws" "sx_harness r = h" "\<not> sx_activated r"
    "\<not> sx_compensated r" "sx_before_revision r = selection_revision ws h st"
    "sx_before_json r = map_option sr_json (ct_selections st (ws, h))"
    "sx_before_owner r = map_option sr_owner (ct_selections st (ws, h))"
    "sx_after_revision r = sx_before_revision r + 1" "n = sx_after_revision r"
  shows "selection_staged i ws h st (st\<lparr>ct_selection_effects := (ct_selection_effects st)(i \<mapsto> r),
    ct_selection_index := (ct_selection_index st)((ws, h, n) := True)\<rparr>)"
  using assms unfolding selection_staged_def by blast

lemma following_revision:
  "Option.bind (as_u64 v) (\<lambda>n. checked_add n (Suc 0)) = Some m \<Longrightarrow> Some k = as_u64 v \<Longrightarrow> m = Suc k"
  by (cases "as_u64 v") auto

lemma stage_selection_over:
  "snd (stage_selection E fault i ws v st) = st
   \<or> selection_staged i ws (selection_harness v) st (snd (stage_selection E fault i ws v st))"
proof -
  have none: "ct_selection_effects st i = None" if "observe_selection E i ws st = Inr None"
    using that by (auto simp: observe_selection_def and_then_Inr Let_def split: option.splits if_splits)
  show ?thesis
    unfolding stage_selection_def
    by (rule transaction_state[where Q = "\<lambda>s. s = st \<or> selection_staged i ws (selection_harness v) st s"])
      (auto simp: and_then_Inr option_err_Inr Let_def dest!: none split: option.splits if_splits intro!: selection_stagedI following_revision)
qed

lemma activate_selection_over:
  assumes "activate_selection E e i st = Inr (x, st')" "names_operation i e"
  shows "st' = st \<or> selection_activated E i st st'"
  using assms
  by (auto simp: activate_selection_def and_then_Inr option_err_Inr map_err_Inr parse_harness_Inr names_operation_def
      selection_activated_def dest!: workspace_parse_Some split: if_splits)

lemma compensate_selection_over:
  assumes "compensate_selection E i st = Inr (x, st')" "\<And>j. operation_id_parse i = Inr j \<Longrightarrow> j = i"
  shows "st' = st \<or> selection_undone E i st st'"
proof (cases "st' = st")
  case False
  then obtain r where r: "ct_selection_effects st i = Some r" "\<not> sx_compensated r"
    and how: "\<not> sx_activated r \<and> st' = st\<lparr>ct_selection_effects := (ct_selection_effects st)(i \<mapsto> r\<lparr>sx_compensated := True\<rparr>)\<rparr>
      \<or> sx_activated r \<and> (\<exists>row. restored_selection E r row
         \<and> st' = st\<lparr>ct_selections := (ct_selections st)((sx_workspace r, sx_harness r) := row),
             ct_selection_effects := (ct_selection_effects st)(i \<mapsto> r\<lparr>sx_compensated := True\<rparr>)\<rparr>)"
    using assms
    by (auto simp: compensate_selection_def and_then_Inr option_err_Inr map_err_Inr parse_harness_Inr restored_selection_def Let_def
        dest!: workspace_parse_Some split: if_splits option.splits)
  then show ?thesis unfolding selection_undone_def by blast
qed simp

definition selection_left :: "'x store_env \<Rightarrow> string \<Rightarrow> string \<Rightarrow> string \<Rightarrow> 'x store \<Rightarrow> 'x store \<Rightarrow> bool" where
  "selection_left E i ws h st st' \<longleftrightarrow>
     st' = st \<or> selection_staged i ws h st st' \<or> selection_activated E i st st' \<or> selection_undone E i st st'"

lemma no_workspace_calls:
  assumes "ct_effects st i = None"
  shows "activate_workspace E e i st \<noteq> Inr x" "compensate_workspace E i st \<noteq> Inr y"
  using assms by (auto simp: activate_workspace_def compensate_workspace_def and_then_Inr option_err_Inr)

lemma activate_control_selection:
  assumes "ct_effects st i = None" "names_operation i e"
  shows "selection_left E i ws h st (snd (activate_control E fault e st))"
  unfolding activate_control_def
proof (rule transaction_state)
  fix x st'
  assume "and_then (worker_effect_operation e) (\<lambda>worker. case worker of Some i \<Rightarrow> activate_selection E e i st
    | None \<Rightarrow> if ef_kind e \<noteq> Control then perr InvalidData ''control.activate.kind''
        else and_then (effect_operation ''control.activate.metadata'' e) (\<lambda>i. activate_workspace E e i st)) = Inr (x, st')"
  then show "selection_left E i ws h st st'"
    using no_workspace_calls(1)[OF assms(1)] assms(2)
    by (auto simp: and_then_Inr selection_left_def split: option.splits if_splits
        dest!: worker_effect_own effect_operation_own dest: activate_selection_over)
qed (simp add: selection_left_def)

lemma names_operation_parse: "names_operation i e \<Longrightarrow> operation_id_parse i = Inr j \<Longrightarrow> j = i"
  by (auto simp: names_operation_def)

lemma compensate_control_selection:
  assumes "ct_effects st i = None" "names_operation i e"
  shows "selection_left E i ws h st (snd (compensate_control E fault e st))"
  unfolding compensate_control_def
proof (rule transaction_state)
  fix x st'
  assume "and_then (worker_effect_operation e) (\<lambda>worker. case worker of Some i \<Rightarrow> compensate_selection E i st
    | None \<Rightarrow> if ef_kind e \<noteq> Control then perr InvalidData ''control.compensate.kind''
        else and_then (effect_operation ''control.compensate.metadata'' e) (\<lambda>i. compensate_workspace E i st)) = Inr (x, st')"
  then show "selection_left E i ws h st st'"
    using no_workspace_calls(2)[OF assms(1)] assms(2) names_operation_parse[OF assms(2)]
    by (auto simp: and_then_Inr selection_left_def split: option.splits if_splits
        dest!: worker_effect_own effect_operation_own dest!: compensate_selection_over)
qed (simp add: selection_left_def)

lemma selection_step_left:
  assumes "selection_sound E i ws h st" "selection_call i h c"
  shows "selection_left E i ws h st (effect_step E i ws c st)"
proof -
  have free: "ct_effects st i = None" using assms(1) by (simp add: selection_sound_def)
  obtain fault request where c: "c = (fault, request)" by force
  show ?thesis
  proof (cases request)
    case (StageSelection v)
    then show ?thesis using assms(2) c stage_selection_over[of E fault i ws v st]
      by (auto simp: effect_step_def selection_call_def selection_left_def)
  next
    case (ActivateEffect e)
    then show ?thesis using assms(2) c activate_control_selection[OF free, of e E ws h fault]
      by (simp add: effect_step_def selection_call_def own_call_def)
  next
    case (CompensateEffect e)
    then show ?thesis using assms(2) c compensate_control_selection[OF free, of e E ws h fault]
      by (simp add: effect_step_def selection_call_def own_call_def)
  qed (use assms(2) c in \<open>simp_all add: selection_call_def\<close>)
qed

section \<open>The contract holds\<close>

lemma restored_canonical:
  assumes "restored_selection E r row" "\<forall>j. sx_before_json r = Some j \<longrightarrow> canonical_selection E (sx_harness r) j"
  shows "row = saved_row r"
  using assms by (auto simp: restored_selection_def canonical_selection_def saved_row_def split: option.splits sum.splits)

abbreviation selection_move where
  "selection_move i ws h \<equiv> effect_move (selection_phase i ws h) (selection_value ws h) (selection_saved i) (selection_wanted i)"

lemma selection_staged_move:
  assumes "selection_staged i ws h st st'"
  shows "selection_move i ws h st st'"
proof -
  obtain r where r: "ct_selection_effects st i = None" "sx_workspace r = ws" "sx_harness r = h"
      "\<not> sx_activated r" "\<not> sx_compensated r" "sx_before_revision r = selection_revision ws h st"
      "sx_before_json r = map_option sr_json (ct_selections st (ws, h))"
      "sx_before_owner r = map_option sr_owner (ct_selections st (ws, h))"
      "st' = st\<lparr>ct_selection_effects := (ct_selection_effects st)(i \<mapsto> r),
         ct_selection_index := (ct_selection_index st)((ws, h, sx_after_revision r) := True)\<rparr>"
    using assms unfolding selection_staged_def by blast
  then show ?thesis
    by (cases "ct_selections st (ws, h)") (simp_all add: effect_move_def selection_views selection_revision_def saved_row_def)
qed

lemma selection_activated_move:
  assumes "selection_activated E i st st'"
  shows "selection_move i ws h st st'"
proof -
  obtain r where r: "ct_selection_effects st i = Some r" "\<not> sx_compensated r" "\<not> sx_activated r"
      "st' = st\<lparr>ct_selections := (ct_selections st)((sx_workspace r, sx_harness r) \<mapsto>
           \<lparr>sr_revision = sx_after_revision r, sr_json = sx_after_json r, sr_owner = i\<rparr>),
         ct_selection_effects := (ct_selection_effects st)(i \<mapsto> r\<lparr>sx_activated := True\<rparr>)\<rparr>"
    using assms unfolding selection_activated_def by blast
  then show ?thesis
    by (cases "sx_workspace r = ws \<and> sx_harness r = h") (auto simp: effect_move_def selection_views)
qed

lemma selection_undone_move:
  assumes "selection_undone E i st st'" "selection_sound E i ws h st"
  shows "selection_move i ws h st st'"
proof -
  obtain r where r: "ct_selection_effects st i = Some r" "\<not> sx_compensated r"
    and how: "\<not> sx_activated r \<and> st' = st\<lparr>ct_selection_effects := (ct_selection_effects st)(i \<mapsto> r\<lparr>sx_compensated := True\<rparr>)\<rparr>
      \<or> sx_activated r \<and> (\<exists>row. restored_selection E r row
         \<and> st' = st\<lparr>ct_selections := (ct_selections st)((sx_workspace r, sx_harness r) := row),
             ct_selection_effects := (ct_selection_effects st)(i \<mapsto> r\<lparr>sx_compensated := True\<rparr>)\<rparr>)"
    using assms(1) unfolding selection_undone_def by blast
  have at: "sx_workspace r = ws" "sx_harness r = h" "\<forall>j. sx_before_json r = Some j \<longrightarrow> canonical_selection E (sx_harness r) j"
    using assms(2) r by (auto simp: selection_sound_def split: option.splits)
  show ?thesis
    using how r at restored_canonical[OF _ at(3)] by (auto simp: effect_move_def selection_views)
qed

lemma selection_left_sound:
  assumes st: "selection_sound E i ws h st" and left: "selection_left E i ws h st st'"
  shows "selection_sound E i ws h st'"
proof -
  have rows: "canonical_selection E h (sr_json c)" if "ct_selections st (ws, h) = Some c" for c
    using st that by (simp add: selection_sound_def)
  consider "st' = st" | "selection_staged i ws h st st'" | "selection_activated E i st st'" | "selection_undone E i st st'"
    using left unfolding selection_left_def by blast
  then show ?thesis
  proof cases
    case 2
    then obtain r where "sx_workspace r = ws" "sx_harness r = h" "sx_after_revision r = sx_before_revision r + 1"
        "sx_before_revision r = selection_revision ws h st"
        "sx_before_json r = map_option sr_json (ct_selections st (ws, h))"
        "sx_before_owner r = map_option sr_owner (ct_selections st (ws, h))"
        "st' = st\<lparr>ct_selection_effects := (ct_selection_effects st)(i \<mapsto> r),
           ct_selection_index := (ct_selection_index st)((ws, h, sx_after_revision r) := True)\<rparr>"
      unfolding selection_staged_def by blast
    then show ?thesis using st rows
      by (auto simp: selection_sound_def selection_indexed_def selection_revision_def split: option.splits)
  next
    case 3
    then obtain r where "ct_selection_effects st i = Some r"
        "se_selection_decode E (sx_after_json r) (sx_harness r) = Inr (sx_after_json r)"
        "st' = st\<lparr>ct_selections := (ct_selections st)((sx_workspace r, sx_harness r) \<mapsto>
           \<lparr>sr_revision = sx_after_revision r, sr_json = sx_after_json r, sr_owner = i\<rparr>),
         ct_selection_effects := (ct_selection_effects st)(i \<mapsto> r\<lparr>sx_activated := True\<rparr>)\<rparr>"
      unfolding selection_activated_def by blast
    then show ?thesis using st by (auto simp: selection_sound_def canonical_selection_def split: option.splits)
  next
    case 4
    then obtain r where r: "ct_selection_effects st i = Some r"
      and how: "\<not> sx_activated r \<and> st' = st\<lparr>ct_selection_effects := (ct_selection_effects st)(i \<mapsto> r\<lparr>sx_compensated := True\<rparr>)\<rparr>
      \<or> sx_activated r \<and> (\<exists>row. restored_selection E r row
         \<and> st' = st\<lparr>ct_selections := (ct_selections st)((sx_workspace r, sx_harness r) := row),
             ct_selection_effects := (ct_selection_effects st)(i \<mapsto> r\<lparr>sx_compensated := True\<rparr>)\<rparr>)"
      unfolding selection_undone_def by blast
    have at: "sx_workspace r = ws" "sx_harness r = h" "\<forall>j. sx_before_json r = Some j \<longrightarrow> canonical_selection E (sx_harness r) j"
      using st r by (auto simp: selection_sound_def split: option.splits)
    have "canonical_selection E h (sr_json c)" if "saved_row r = Some c" for c
      using that at(2,3) by (auto simp: saved_row_def split: option.splits)
    then show ?thesis
      using st how r at restored_canonical[OF _ at(3)] by (auto simp: selection_sound_def split: option.splits)
  qed (use st in simp)
qed

lemma selection_observed:
  assumes "selection_sound E i ws h st"
  shows "observe_control E i ws st = Inr Missing \<Longrightarrow> selection_phase i ws h st = Unstaged \<or> selection_phase i ws h st = Undone"
    and "observe_control E i ws st = Inr (AppliedEffect e) \<Longrightarrow> selection_phase i ws h st = ActivePhase"
  using assms
  by (auto simp: observe_control_def observe_selection_def and_then_Inr selection_sound_def selection_phase_def Let_def
      split: option.splits if_splits)

interpretation selection: staged_effect "selection_phase i ws h" "selection_value ws h" "selection_saved i" "selection_wanted i"
    "selection_sound E i ws h" "selection_call i h" "effect_step E i ws" "observe_control E i ws" for E i ws h
proof
  fix st c e
  assume st: "selection_sound E i ws h st"
  show "observe_control E i ws st = Inr Missing \<Longrightarrow> selection_phase i ws h st = Unstaged \<or> selection_phase i ws h st = Undone"
    "observe_control E i ws st = Inr (AppliedEffect e) \<Longrightarrow> selection_phase i ws h st = ActivePhase"
    by (rule selection_observed[OF st]; assumption)+
  assume c: "selection_call i h c"
  have same: "selection_move i ws h st st" by (simp add: effect_move_def)
  show "selection_move i ws h st (effect_step E i ws c st)"
    using selection_step_left[OF st c] same selection_staged_move selection_activated_move selection_undone_move[OF _ st]
    unfolding selection_left_def by metis
  show "selection_sound E i ws h (effect_step E i ws c st)"
    using selection_left_sound[OF st selection_step_left[OF st c]] .
qed

section \<open>After a rollback\<close>

text \<open>
  The compensation puts the revision back, and the row of the compensated effect keeps the one above
  it in the index: the revision any later change of the harness needs.
\<close>

lemma undone_revision:
  assumes "selection.tracked i ws h E v st" "selection_phase i ws h st = Undone"
  shows "ct_selection_index st (ws, h, Suc (selection_revision ws h st))"
proof -
  obtain r where r: "ct_selection_effects st i = Some r"
    using assms(2) by (auto simp: selection_phase_def split: option.splits)
  have s: "selection_sound E i ws h st" and row: "ct_selections st (ws, h) = saved_row r"
    using assms r by (auto simp: selection.tracked_def selection_value_def selection_saved_def)
  have "selection_revision ws h st = sx_before_revision r"
    using s r row by (auto simp: selection_sound_def selection_revision_def saved_row_def split: option.splits)
  then show ?thesis using s r by (auto simp: selection_sound_def selection_indexed_def)
qed

lemma occupied_revision_refused:
  assumes "ct_selection_index st (ws, h, Suc (selection_revision ws h st))" "ct_selection_effects st k = None"
    and "selection_harness c = h"
  shows "\<not> is_ok (fst (stage_selection E fault k ws c st))"
proof
  assume "is_ok (fst (stage_selection E fault k ws c st))"
  then obtain e st' where "stage_selection E fault k ws c st = (Inr e, st')"
    unfolding is_ok_iff by (metis prod.collapse)
  then show False using assms
    by (auto simp: stage_selection_def in_transaction_ok and_then_Inr option_err_Inr Let_def observe_selection_def
        split: if_splits dest: following_revision)
qed

end
