(* ===== verification/Effect_Claims.thy ===== *)
theory Effect_Claims
  imports Transaction_Claims Transaction_Effects Staged_Selections
begin

text \<open>
  The properties of the control item from end to end: what the workspace shows after a success, after a
  rollback and after a run that failed anywhere, and what a worker harness has selected.
\<close>

section \<open>Samples\<close>

lemma sample_adapters_foreign: "foreign_adapters sample_adapters"
  by (auto simp: foreign_adapters_def sample_adapters_def sample_effect_def foreign_def split: item.splits if_splits)

definition sample_control_effect :: owned_effect where
  "sample_control_effect = control_effect ''o'' ''w'' None sample_digest 1"

text \<open>The state of the sample operation is staged and active, and the operation is to be rolled back.\<close>

definition active_store :: "unit store" where
  "active_store =
     snd (activate_control sample_env None sample_control_effect
       (snd (apply_control_state sample_env None ''o'' ''w'' 0 JNull sample_store)))"

definition recovery_run :: "(unit, sample_world) control_world run" where
  "recovery_run =
     sample_run\<lparr>rn_world := (rn_world sample_run)\<lparr>cw_store := active_store\<rparr>,
       rn_op := (step_mut MaterializeSources (\<lambda>st. st\<lparr>os_effects := [sample_control_effect]\<rparr>) sample_operation)
         \<lparr>op_state_of := RollingBack\<rparr>\<rparr>"

lemma recovery_result:
  "(\<lambda>(r, t). r = Inr () \<and> op_state_of (rn_op t) = RolledBack) (run_sample False recovery_run)"
  by code_simp

lemma sample_plan_wanted: "control_wanted sample_codecs (Some JNull) (op_plan_of (rn_op sample_run))"
  by code_simp

lemma sample_own:
  "canonical_id ''o''" "good_op (own_effect ''o'') (rn_op sample_run)" "good_op (own_effect ''o'') (rn_op recovery_run)"
  "oi_operation_id (rn_op sample_run) = ''o''" "oi_operation_id (rn_op recovery_run) = ''o''"
  "oi_workspace_id (rn_op sample_run) = ''w''" "oi_workspace_id (rn_op recovery_run) = ''w''"
  "rn_trace recovery_run = []" "op_state_of (rn_op recovery_run) = RollingBack"
  by code_simp+

lemma sample_tracked:
  "workspace_tracked sample_env ''o'' ''w'' (Some JNull) None (cw_store (rn_world sample_run))"
  "workspace_tracked sample_env ''o'' ''w'' None None active_store"
  "workspace_value ''w'' active_store = Some (''j'', sample_digest)"
  by code_simp+

lemma recovery_plan: "control_wanted sample_codecs None (op_plan_of (rn_op recovery_run))"
  by code_simp

lemma recovery_store: "cw_store (rn_world recovery_run) = active_store"
  by (simp add: recovery_run_def)

lemma sample_runs:
  "workspace_runs sample_env sample_adapters sample_codecs ''o'' ''w'' (Some JNull) None sample_run"
  by (simp add: workspace_runs_def workspace_run_def sample_own sample_tracked sample_start sample_plan_wanted
      sample_adapters_foreign)

lemma recovery_runs:
  "workspace_runs sample_env sample_adapters sample_codecs ''o'' ''w'' None None recovery_run"
  by (simp add: workspace_runs_def workspace_run_def sample_own sample_tracked recovery_plan recovery_store
      sample_adapters_foreign)

lemma recovery_ends:
  "fst (run_sample False recovery_run) = Inr () \<and> op_state_of (rn_op (snd (run_sample False recovery_run))) = RolledBack"
  using recovery_result by (simp add: case_prod_unfold)

section \<open>Properties\<close>

text \<open>
  C11. A rollback that ends puts the workspace back. When a run of an operation that had not ended ends
  \<open>RolledBack\<close>, whatever the adapters and SQLite answered, the workspace holds the state and the digest
  \<open>v\<close> it held before the operation, or none when it held none. The run starts from the invariant
  \<open>workspace_runs\<close>: the operation names itself with a lower-case identifier, every recorded control
  effect names it, its staged row and the workspace agree with \<open>v\<close>, its trace has a control event only
  where the row shows it, and its plan is any plan but a worker selection (a desired state, no control
  change, or a compute or pool change). The adapters of the other components work on their own tables
  and answer with effects that are not control effects. The retry of a parked settings tail is left out.
\<close>

theorem rolled_back_restores_workspace:
  assumes "op_state_of (rn_op s) \<noteq> Succeeded" "op_state_of (rn_op s) \<noteq> RolledBack"
    and "\<not> retry \<or> settings_service_receipt D (rn_op s) = None" "workspace_runs E B D i ws d v s"
    and "run_operation_locked (control_ports E B) D retry s = (Inr x, t)" "op_state_of (rn_op t) = RolledBack"
  shows "workspace_value ws (cw_store (rn_world t)) = v"
proof -
  have "settled t" using store_journal.run_settled [OF assms(1,2,5)] .
  then have "rollback_proved (rn_op t) (rn_trace t)" using assms(6) by (simp add: settled_def proved_def)
  from tracked_restored[OF run_tracked[OF assms(4,3,5)] this] show ?thesis .
qed

theorem rolled_back_restores_workspace_witness:
  "workspace_value ''w'' (cw_store (rn_world recovery_run)) = Some (''j'', sample_digest)
   \<and> workspace_value ''w'' (cw_store (rn_world (snd (run_sample False recovery_run)))) = None"
proof
  show "workspace_value ''w'' (cw_store (rn_world recovery_run)) = Some (''j'', sample_digest)"
    by (simp add: recovery_store sample_tracked)
  show "workspace_value ''w'' (cw_store (rn_world (snd (run_sample False recovery_run)))) = None"
    by (rule rolled_back_restores_workspace [OF _ _ _ recovery_runs ran]) (simp_all add: sample_own recovery_ends)
qed

text \<open>
  C12. A success shows what was asked. When a run of an operation that had not ended ends \<open>Succeeded\<close>,
  and its plan sets a desired state \<open>u\<close>, the workspace holds the encoding of \<open>u\<close>, under the digest
  of \<open>u\<close>. The run starts from the invariant \<open>workspace_runs\<close> with \<open>u\<close> as what is wanted, the other
  components' adapters answer with effects that are not control effects, and the retry of a parked
  settings tail is left out; plans with a compute, pool or worker change, or none, are not covered.
\<close>

theorem success_shows_desired:
  assumes "op_state_of (rn_op s) \<noteq> Succeeded" "op_state_of (rn_op s) \<noteq> RolledBack"
    and "\<not> retry \<or> settings_service_receipt D (rn_op s) = None" "workspace_runs E B D i ws (Some u) v s"
    and "run_operation_locked (control_ports E B) D retry s = (Inr x, t)" "op_state_of (rn_op t) = Succeeded"
  shows "\<exists>j g. se_stage_encode E u = Some j \<and> se_digest E u = Some g
    \<and> workspace_value ws (cw_store (rn_world t)) = Some (j, g)"
proof -
  have "settled t" using store_journal.run_settled [OF assms(1,2,5)] .
  then have "success_proved (rn_op t) (rn_trace t)" using assms(6) by (simp add: settled_def proved_def)
  from tracked_desired[OF run_tracked[OF assms(4,3,5)] this] show ?thesis .
qed

theorem success_shows_desired_witness:
  "workspace_value ''w'' (cw_store (rn_world (snd (run_sample True sample_run)))) = Some (''j'', sample_digest)"
proof -
  have "\<exists>j g. se_stage_encode sample_env JNull = Some j \<and> se_digest sample_env JNull = Some g
      \<and> workspace_value ''w'' (cw_store (rn_world (snd (run_sample True sample_run)))) = Some (j, g)"
    by (rule success_shows_desired [OF _ _ _ sample_runs ran]) (simp_all add: sample_start sample_ends)
  then show ?thesis by (simp add: sample_env_def)
qed

text \<open>
  C13. In between, a reader of the workspace sees the state from before the operation or the complete
  state the operation staged, the latter only between its activation and its compensation. This holds
  after every run that starts from the invariant \<open>workspace_runs\<close>, a failed one included, and the run
  leaves the invariant for the next one to start from. The plan is any but a worker selection, the other
  components' adapters answer with effects that are not control effects, and the retry of a parked
  settings tail is left out.
\<close>

theorem workspace_before_or_wanted:
  assumes "\<not> retry \<or> settings_service_receipt D (rn_op s) = None" "workspace_runs E B D i ws d v s"
    and "run_operation_locked (control_ports E B) D retry s = (r, t)"
  shows "workspace_value ws (cw_store (rn_world t)) =
      (if workspace_phase i ws (cw_store (rn_world t)) = ActivePhase then workspace_wanted i (cw_store (rn_world t)) else v)
    \<and> workspace_runs E B D i ws d v (t\<lparr>rn_trace := []\<rparr>)"
proof -
  have t: "workspace_runs E B D i ws d v t" by (rule run_tracked[OF assms(2,1,3)])
  then show ?thesis by (auto simp: workspace_runs_def workspace_run_def workspace_tracked_def)
qed

theorem workspace_before_or_wanted_witness:
  "workspace_runs sample_env sample_adapters sample_codecs ''o'' ''w'' None None
     ((snd (run_sample False recovery_run))\<lparr>rn_trace := []\<rparr>)"
  using workspace_before_or_wanted [OF _ recovery_runs prod.collapse[symmetric], of False] by simp

section \<open>Worker selections\<close>

definition selection_id :: string where
  "selection_id = ''op_'' @ replicate 32 CHR ''0''"

definition selected_store :: "unit store" where
  "selected_store = sample_store\<lparr>ct_selections := [(''w'', ''codex_cli'') \<mapsto>
     \<lparr>sr_revision = 3, sr_json = ''b'', sr_owner = ''p''\<rparr>]\<rparr>"

definition sample_change :: json where
  "sample_change = JObject [(''before_revision'', JNumber (PosInt 3)),
     (''after_selection'', JObject [(''harness'', JString ''codex_cli'')])]"

definition sample_selection :: owned_effect where
  "sample_selection = selection_effect sample_env selection_id ''w'' ''codex_cli'' (Some ''b'') ''s'' 4"

definition sample_calls :: "(port_error option \<times> effect_call) list" where
  "sample_calls = [(None, StageSelection sample_change), (None, ActivateEffect sample_selection)]"

lemma sample_calls_own:
  "\<forall>c\<in>set (sample_calls @ [(None, CompensateEffect sample_selection)]). selection_call selection_id ''codex_cli'' c"
  by code_simp

lemma selected_undone:
  "selection_phase selection_id ''w'' ''codex_cli'' (fold (effect_step sample_env selection_id ''w'')
     (sample_calls @ [(None, CompensateEffect sample_selection)]) selected_store) = Undone"
  "ct_selection_effects (fold (effect_step sample_env selection_id ''w'')
     (sample_calls @ [(None, CompensateEffect sample_selection)]) selected_store) ''o2'' = None"
  "selection_harness sample_change = ''codex_cli''"
  by code_simp+

lemma selected_start:
  "selection_sound sample_env selection_id ''w'' ''codex_cli'' selected_store"
  "ct_selection_effects selected_store selection_id = None"
  "observe_control sample_env selection_id ''w'' (fold (effect_step sample_env selection_id ''w'')
     (sample_calls @ [(None, CompensateEffect sample_selection)]) selected_store) = Inr Missing"
  "map_option sr_json (ct_selections (fold (effect_step sample_env selection_id ''w'') sample_calls selected_store)
     (''w'', ''codex_cli'')) = Some ''s''"
  by code_simp+

text \<open>
  C14. The selection of a worker harness under any sequence of the operation's own calls, with any
  transaction failing: when the store then observes the effect missing, the row of the harness, its
  revision and its owner included, is what it was; when it observes it applied, the row is the one
  the operation staged.
\<close>

theorem selection_restored:
  assumes "selection_sound E i ws h st" "ct_selection_effects st i = None" "\<forall>c\<in>set cs. selection_call i h c"
    and "st' = fold (effect_step E i ws) cs st"
  shows "(observe_control E i ws st' = Inr Missing \<longrightarrow> ct_selections st' (ws, h) = ct_selections st (ws, h))
    \<and> (observe_control E i ws st' = Inr (AppliedEffect e) \<longrightarrow> ct_selections st' (ws, h) = selection_wanted i st')"
proof -
  have "selection.tracked i ws h E (ct_selections st (ws, h)) st"
    using selection.fresh[OF assms(1)] assms(2) by (simp add: selection_phase_def selection_value_def)
  from selection.tracked_steps[OF this assms(3)] show ?thesis
    using selection.missing_restored[of i ws h E _ st'] selection.applied_wanted[of i ws h E _ st' e]
    by (simp add: assms(4) selection_value_def)
qed

theorem selection_restored_witness:
  "let run = \<lambda>cs. fold (effect_step sample_env selection_id ''w'') cs selected_store;
       shown = \<lambda>st. map_option sr_json (ct_selections st (''w'', ''codex_cli''))
   in shown (run sample_calls) = Some ''s''
      \<and> shown (run (sample_calls @ [(None, CompensateEffect sample_selection)])) = Some ''b''"
proof -
  let ?st = "fold (effect_step sample_env selection_id ''w'')
     (sample_calls @ [(None, CompensateEffect sample_selection)]) selected_store"
  have "ct_selections ?st (''w'', ''codex_cli'') = ct_selections selected_store (''w'', ''codex_cli'')"
    using selection_restored [OF selected_start(1,2) sample_calls_own refl] selected_start(3) by simp
  then show ?thesis using selected_start(4) by (simp add: Let_def) (simp add: selected_store_def)
qed

text \<open>
  C15. After a rollback of a selection its harness takes no other. The compensation puts the revision of
  the row back while the compensated effect keeps the next revision in the unique index of the table,
  so every later staging of that harness, by any operation and at any revision, is refused and leaves
  the store as it is.
\<close>

theorem rolled_back_selection_locked:
  assumes "selection_sound E i ws h st" "ct_selection_effects st i = None" "\<forall>c\<in>set cs. selection_call i h c"
    and "st' = fold (effect_step E i ws) cs st" "selection_phase i ws h st' = Undone"
    and "ct_selection_effects st' k = None" "selection_harness change = h"
  shows "\<not> is_ok (fst (stage_selection E fault k ws change st'))
    \<and> snd (stage_selection E fault k ws change st') = st'"
proof -
  have "selection.tracked i ws h E (ct_selections st (ws, h)) st"
    using selection.fresh[OF assms(1)] assms(2) by (simp add: selection_phase_def selection_value_def)
  from selection.tracked_steps[OF this assms(3)] have "selection.tracked i ws h E (ct_selections st (ws, h)) st'"
    by (simp add: assms(4))
  from occupied_revision_refused[OF undone_revision[OF this assms(5)] assms(6,7)]
  have refused: "\<not> is_ok (fst (stage_selection E fault k ws change st'))" .
  then obtain e where "fst (stage_selection E fault k ws change st') = Inl e" by (auto simp: not_ok_iff)
  then have "stage_selection E fault k ws change st' = (Inl e, snd (stage_selection E fault k ws change st'))"
    by (metis prod.collapse)
  then have "snd (stage_selection E fault k ws change st') = st'"
    using in_transaction_err unfolding stage_selection_def by blast
  then show ?thesis using refused by blast
qed

theorem rolled_back_selection_locked_witness:
  "is_ok (fst (stage_selection sample_env None ''o2'' ''w'' sample_change selected_store))
   \<and> \<not> is_ok (fst (stage_selection sample_env None ''o2'' ''w'' sample_change
       (fold (effect_step sample_env selection_id ''w'')
         (sample_calls @ [(None, CompensateEffect sample_selection)]) selected_store)))"
proof
  let ?st = "fold (effect_step sample_env selection_id ''w'')
    (sample_calls @ [(None, CompensateEffect sample_selection)]) selected_store"
  show "is_ok (fst (stage_selection sample_env None ''o2'' ''w'' sample_change selected_store))" by code_simp
  show "\<not> is_ok (fst (stage_selection sample_env None ''o2'' ''w'' sample_change ?st))"
    using rolled_back_selection_locked [OF selected_start(1,2) sample_calls_own refl selected_undone] by simp
qed

end
