(* ===== verification/Spec2Isabelle.thy ===== *)
theory Spec2Isabelle
  imports Failure_Class Planner_Total Charged_Body Body_Framing Request_Body Sse_Properties Sse_Precommit Scopes Attempt_Claims
    Store_Claims Effect_Claims
begin

text \<open>
  Verification library of hiroute, a local routing gateway for language models written in Rust. A
  request enters the gateway, the planner freezes an ordered list of candidates, the attempt exchange
  tries them upstream under a memory budget, and the response is framed, classified and published
  downstream. Beside it runs the control plane: changes of the configuration are admitted once,
  written to a journal and carried out, or rolled back, by a transaction coordinator over SQLite.

  \<^bold>\<open>Layers.\<close> Each theory names the source files it models; paths are under \<^verbatim>\<open>src/crates/\<close>.

  \<^item> \<^theory_text>\<open>Prelude\<close>: machine sizes with Rust's checked, saturating and wrapping arithmetic, the result type
    of fallible code, text helpers, the collections of facts, and the locales \<^theory_text>\<open>fifo\<close> and
    \<^theory_text>\<open>bounded_meter\<close> that the queues and meters of the gateway interpret.
  \<^item> Bodies and memory (\<^verbatim>\<open>gateway-core/src/runtime/body/\<close>): \<^theory_text>\<open>Memory_Budget\<close> and its runs
    \<^theory_text>\<open>Memory_Ledger\<close>, \<^theory_text>\<open>Body_Plan\<close>, \<^theory_text>\<open>Charged_Body\<close>, \<^theory_text>\<open>Body_Framing\<close>, \<^theory_text>\<open>Request_Body\<close>. Shown: every
    gauge is the sum of the owned reservations and within its limit, what is charged is given back,
    a message is framed in one way, a retained request is replayed whole.
  \<^item> Server-sent events (\<^verbatim>\<open>gateway-core/src/runtime/sse/\<close>): \<^theory_text>\<open>Sse_Event\<close>, \<^theory_text>\<open>Sse_Framer\<close>, its delivery
    \<^theory_text>\<open>Sse_Delivery\<close> against a reference splitting, the properties \<^theory_text>\<open>Sse_Properties\<close>, and the buffer
    before acceptance \<^theory_text>\<open>Sse_Precommit\<close>.
  \<^item> Attempts (\<^verbatim>\<open>gateway-core/src/runtime/{scope,attempt}\<close>): \<^theory_text>\<open>Scopes\<close>, \<^theory_text>\<open>Attempt_Gate\<close>, the exchange
    \<^theory_text>\<open>Attempt_Exchange\<close>; \<^theory_text>\<open>Attempt_Wire\<close>, \<^theory_text>\<open>Attempt_Writer\<close> and \<^theory_text>\<open>Attempt_Safety\<close> prove its wire invariant,
    \<^theory_text>\<open>Attempt_Owner\<close> and \<^theory_text>\<open>Attempt_Properties\<close> lift it to every sequence of operations, and
    \<^theory_text>\<open>Attempt_Claims\<close> states the results. \<^theory_text>\<open>Failure_Class\<close> classifies failed attempts.
  \<^item> Planning (\<^verbatim>\<open>gateway/src/{model_ir,profiles,planning,planner.rs,adapters}\<close>): \<^theory_text>\<open>Model_Request\<close>,
    \<^theory_text>\<open>Tool_Projection\<close>, \<^theory_text>\<open>Candidate_Profile\<close>, \<^theory_text>\<open>Complexity\<close>, \<^theory_text>\<open>Eligibility\<close>, \<^theory_text>\<open>Ranking\<close>, \<^theory_text>\<open>Planner\<close>; their
    properties in \<^theory_text>\<open>Planner_Properties\<close>, \<^theory_text>\<open>Planner_Claims\<close> and \<^theory_text>\<open>Planner_Total\<close>: what is frozen is
    eligible, costs and branches are respected, ranking is faithful, planning is total.
  \<^item> Changes (\<^verbatim>\<open>domain/src/operation\<close>, \<^verbatim>\<open>application/src/operations\<close>, \<^verbatim>\<open>local-storage/src/control\<close>):
    \<^theory_text>\<open>Operation_Journal\<close> is the durable operation, \<^theory_text>\<open>Transaction_Run\<close> and \<^theory_text>\<open>Transaction_Coordinator\<close>
    the coordinator over a record of ports, \<^theory_text>\<open>Control_Store\<close> the tables and their transactions,
    \<^theory_text>\<open>Control_Effects\<close> the staged effects on a workspace and on the worker selections,
    \<^theory_text>\<open>Control_Ports\<close> the coordinator's ports on the store, \<^theory_text>\<open>Admission\<close> the acceptance of a change.
    \<^theory_text>\<open>Transaction_Logic\<close>, \<^theory_text>\<open>Transaction_Proofs\<close>, \<^theory_text>\<open>Transaction_Invariant\<close>, \<^theory_text>\<open>Transaction_Order\<close> and
    \<^theory_text>\<open>Transaction_Gate\<close> prove, in the locales \<^theory_text>\<open>journal_port\<close> and \<^theory_text>\<open>run_invariant\<close>, what a run leaves in
    its trace; \<^theory_text>\<open>Store_Properties\<close> and \<^theory_text>\<open>Admission_Properties\<close> what the tables keep. The results are
    in \<^theory_text>\<open>Transaction_Claims\<close> and \<^theory_text>\<open>Store_Claims\<close>, the instances of their witnesses in
    \<^theory_text>\<open>Transaction_Samples\<close>. \<^theory_text>\<open>Staged_Effects\<close> states the contract of a staged effect as the locale
    \<^theory_text>\<open>staged_effect\<close> and interprets it on the workspaces, \<^theory_text>\<open>Staged_Selections\<close> on the selections;
    \<^theory_text>\<open>Transaction_Effects\<close> carries it through every run by interpreting \<^theory_text>\<open>effect_activation\<close>. \<^theory_text>\<open>Effect_Claims\<close>
    states what the workspace shows after a success, a rollback and a failed run.

  \<^bold>\<open>Effects.\<close> Code that holds a lock is one step on an explicit state. Errors are values of a sum
  type, one constructor per error of the source. A call that leaves the program (the upstream
  transport, timers, adapters, SQLite) is a function of the world, or an answer given to the
  operation, which may fail at every call; a run of the coordinator also keeps the trace of its calls
  with their outcomes. A SQLite transaction commits, or fails and leaves the tables. The columns of an
  operation's row repeat fields of its JSON and every command writes both, so the row is kept once; the
  foreign keys of the effect tables, whose parent rows are never deleted, are not represented.

  \<^bold>\<open>Parameters.\<close> Digests, JSON codecs, UTF-8 validity, the text signals of the complexity scan, the
  clock, the compute and price tables and the registry of planners are arguments of the definitions
  that use them. Where a property relies on one, the law is a hypothesis of its statement and the
  witness instantiates it.

  \<^bold>\<open>Bounds.\<close> Machine integers keep their width: sizes and counters are natural numbers with the
  source's checked, saturating or wrapping operation written out. Loops are structural, or recursive on
  a measure; the exchange's waiting loop runs over the list of the transport's answers, and the
  liveness theorem states how many turns are enough.

  \<^bold>\<open>Not modelled.\<close> The asynchronous glue (driver, executor, dispatch, server), the translations
  between provider dialects, the encrypted stores of turn history and content, the compiler of a
  publication, the planners of the control plane, secrets, backup and migrations, the daemon, the
  command line, the desktop application and all vendored code: input and output, third-party code,
  serde types or SQL text with little logic of their own, or code left for a later extension.
\<close>

end
